(* ===== verification/Bce_Prelude.thy ===== *)
theory Bce_Prelude
  imports Main "HOL-Library.Word"
begin

unbundle bit_operations_syntax

text \<open>
  Shared vocabulary of the development: the C integer types the driver uses, the errno
  values its functions return, the collections of simplification rules the components
  extend, and the generic facts about ring indices, list windows and masks that more
  than one component needs.
\<close>

section \<open>Machine integers and error codes\<close>

type_synonym u8 = "8 word"
type_synonym u16 = "16 word"
type_synonym u32 = "32 word"
type_synonym u64 = "64 word"

text \<open>Addresses of heap objects (queues, stack result elements) are abstract numbers.\<close>

type_synonym addr = nat

text \<open>The Linux error numbers; a function that fails returns the negated value.\<close>

abbreviation ENOENT :: int where "ENOENT \<equiv> 2"
abbreviation EIO :: int where "EIO \<equiv> 5"
abbreviation ENXIO :: int where "ENXIO \<equiv> 6"
abbreviation EAGAIN :: int where "EAGAIN \<equiv> 11"
abbreviation ENOMEM :: int where "ENOMEM \<equiv> 12"
abbreviation EFAULT :: int where "EFAULT \<equiv> 14"
abbreviation EEXIST :: int where "EEXIST \<equiv> 17"
abbreviation ENODEV :: int where "ENODEV \<equiv> 19"
abbreviation EINVAL :: int where "EINVAL \<equiv> 22"
abbreviation ENOSPC :: int where "ENOSPC \<equiv> 28"
abbreviation EPIPE :: int where "EPIPE \<equiv> 32"
abbreviation ENODATA :: int where "ENODATA \<equiv> 61"
abbreviation EOPNOTSUPP :: int where "EOPNOTSUPP \<equiv> 95"
abbreviation ECONNRESET :: int where "ECONNRESET \<equiv> 104"
abbreviation ETIMEDOUT :: int where "ETIMEDOUT \<equiv> 110"
abbreviation EREMOTEIO :: int where "EREMOTEIO \<equiv> 121"

section \<open>Collections of rules\<close>

named_theorems ring_simps \<open>rewrite rules about ring indices\<close>
named_theorems frame_simps \<open>fields an operation leaves alone\<close>
named_theorems inv_intros \<open>introduction rules: an operation keeps an invariant\<close>

section \<open>Ring indices\<close>

text \<open>
  Every ring of the driver advances an index by \<open>(i + 1) % el_count\<close> in unsigned 32-bit
  arithmetic. For an index inside the ring the addition cannot wrap.
\<close>

definition ring_next :: "u32 \<Rightarrow> u32 \<Rightarrow> u32" where
  "ring_next n i = (i + 1) mod n"

text \<open>The development counts ring sizes in \<open>nat\<close>: \<open>int (unat w)\<close> is left as it is.\<close>

declare of_nat_unat [simp del]

lemma of_nat_unat_word: "(of_nat (unat x) :: 'a::len word) = x"
  by (simp add: of_nat_unat)

lemma unat_below: "unat (x :: 'a::len word) < 2 ^ LENGTH('a)"
  by (rule unsigned_less)

lemma unat_ucast_up:
  fixes x :: "'a::len word"
  assumes "LENGTH('a) \<le> LENGTH('b::len)"
  shows "unat (ucast x :: 'b word) = unat x"
proof -
  have "unat x < 2 ^ LENGTH('b)"
    using unat_below [of x] power_increasing [OF assms, of "2 :: nat"] by linarith
  then show ?thesis by (simp add: unsigned_ucast_eq take_bit_nat_eq_self)
qed

lemma sint_eq_unat:
  fixes x :: u32
  assumes "unat x < 2 ^ 31"
  shows "sint x = int (unat x)"
proof -
  have "sint (word_of_int (int (unat x)) :: u32) = int (unat x)"
    using assms by (subst signed_of_int) (auto intro: signed_take_bit_int_eq_self)
  then show ?thesis by (simp add: of_nat_unat)
qed

lemma bit_word_below:
  fixes x :: "'a::len word"
  assumes "bit x n" and "unat x < 2 ^ k"
  shows "n < k"
proof (rule ccontr)
  assume "\<not> n < k"
  then have "(2 :: nat) ^ k \<le> 2 ^ n" by (simp add: power_increasing)
  with assms(2) have "unat x < 2 ^ n" by linarith
  then have "unat x div 2 ^ n = 0" by simp
  then have "\<not> bit (unat x) n" by (simp add: bit_iff_odd)
  with assms(1) show False by (simp add: bit_unsigned_iff bit_imp_le_length)
qed

lemma bits_below:
  fixes x :: "'a::len word"
  assumes "unat x < 2 ^ k" and "k \<le> n"
  shows "\<not> bit x n"
  using bit_word_below [of x n k] assms by auto

lemma unat_ring_next [ring_simps]:
  assumes "i < n"
  shows "unat (ring_next n i) = (unat i + 1) mod unat n"
proof -
  have "unat i + 1 < 2 ^ 32"
    using assms unat_below [of n] by (simp add: word_less_nat_alt)
  then have "unat (i + 1) = unat i + 1"
    by (simp add: unat_word_ariths)
  then show ?thesis by (simp add: ring_next_def unat_mod_distrib)
qed

lemma ring_next_less [ring_simps, simp]: "0 < n \<Longrightarrow> ring_next n i < n"
  by (simp add: ring_next_def word_mod_less_divisor)

lemma unat_ring_next_less [simp]: "0 < unat n \<Longrightarrow> unat (ring_next n i) < unat n"
  by (simp add: ring_next_def unat_mod_distrib)

lemma ring_next_counter:
  assumes "i < n" and "unat i = k mod unat n"
  shows "unat (ring_next n i) = Suc k mod unat n"
  using assms by (simp add: unat_ring_next mod_Suc_eq)

lemma mod_eq_window:
  fixes a b n :: nat
  assumes "a mod n = b mod n" and "a \<le> b" and "b < a + n"
  shows "a = b"
proof -
  from assms(1,2) have "n dvd b - a" by (metis mod_eq_dvd_iff_nat)
  moreover have "b - a < n" using assms(2,3) by simp
  ultimately have "b - a = 0" by (auto dest: dvd_imp_le)
  with assms(2) show ?thesis by simp
qed

section \<open>Lists\<close>

lemma nth_list_update_if:
  "i < length xs \<Longrightarrow> (xs[i := x]) ! j = (if i = j then x else xs ! j)"
  by simp

lemma length_filter_update_less:
  assumes "i < length xs" and "P (xs ! i)" and "\<not> P y"
  shows "length (filter P (xs[i := y])) < length (filter P xs)"
proof -
  have "filter P xs = filter P (take i xs @ xs ! i # drop (Suc i) xs)"
    using id_take_nth_drop [OF assms(1)] by simp
  then have "length (filter P xs)
      = length (filter P (take i xs)) + 1 + length (filter P (drop (Suc i) xs))"
    using assms(2) by simp
  moreover have "length (filter P (xs[i := y]))
      = length (filter P (take i xs)) + length (filter P (drop (Suc i) xs))"
    using assms(1,3) by (simp add: upd_conv_take_nth_drop)
  ultimately show ?thesis by simp
qed

section \<open>Arrays\<close>

text \<open>Reading and writing a C array; out of bounds is a fault.\<close>

definition arr_get :: "'a list \<Rightarrow> nat \<Rightarrow> 'a option" where
  "arr_get xs i = (if i < length xs then Some (xs ! i) else None)"

definition arr_set :: "'a list \<Rightarrow> nat \<Rightarrow> 'a \<Rightarrow> 'a list option" where
  "arr_set xs i x = (if i < length xs then Some (xs[i := x]) else None)"

end
