(* ===== verification/Bce_Queue.thy ===== *)
theory Bce_Queue
  imports Bce_Prelude
begin

text \<open>
  The queue objects of the buffer copy engine (\<open>src/queue.h\<close>, \<open>src/queue.c\<close>): the
  completion queue, the submission queue with its reservation counter, submission ring and
  completion ring, and the operations that touch one object only. The operations on the
  device's queue table are in \<open>Bce_Completion\<close> and \<open>Bce_Lifecycle\<close>, the command queue is
  in \<open>Bce_Cmdq\<close>.

  Conventions. A pointer to a ring element is its byte offset in the ring's DMA memory, and
  the memory of a submission ring is a function from offsets to elements. A completion
  callback is the name of the C function it points to. The answers of the kernel's
  allocators are arguments. What other contexts do to a queue while a caller sleeps in
  \<open>wait_event_timeout\<close> is a list of wake-ups, each with the time left and the effect on
  the queue; once the list is used up the wait times out.
\<close>

section \<open>Data\<close>

record bce_sq_completion_data =
  cd_status :: u32
  cd_data_size :: u64
  cd_result :: u64

record bce_qe_completion =
  ce_result :: u64
  ce_data_size :: u64
  ce_qid :: u16
  ce_completion_index :: u16
  ce_status :: u16
  ce_flags :: u16

record bce_qe_submission =
  qs_length :: u64
  qs_addr :: u64
  qs_segl_addr :: u64
  qs_segl_length :: u64

record bce_queue_memcfg =
  mc_qid :: u16
  mc_el_count :: u16
  mc_vector_or_cq :: u16
  mc_pad :: u16
  mc_addr :: u64
  mc_length :: u64

record bce_cmdq_simple_memory_queue_cmd =
  sc_cmd :: u16
  sc_flags :: u16
  sc_qid :: u16

record bce_cmdq_register_memory_queue_cmd =
  rc_cmd :: u16
  rc_flags :: u16
  rc_qid :: u16
  rc_el_count :: u16
  rc_vector_or_cq :: u16
  rc_name_len :: u16
  rc_name :: "u8 list"
  rc_addr :: u64
  rc_length :: u64

text \<open>What one slot of a submission ring can hold; fresh DMA memory is zeroed.\<close>

datatype sq_element =
    El_zero
  | El_submission bce_qe_submission
  | El_simple bce_cmdq_simple_memory_queue_cmd
  | El_register bce_cmdq_register_memory_queue_cmd

text \<open>The functions the driver passes as \<open>bce_sq_completion\<close>.\<close>

datatype bce_sq_completion =
    Cb_cmdq_completion
  | Cb_vhci_message_queue_completion
  | Cb_vhci_event_queue_completion
  | Cb_vhci_firmware_event_completion
  | Cb_vhci_transfer_queue_completion
  | Cb_aaudio_out_queue_completion
  | Cb_aaudio_in_queue_completion

record bce_queue_cq =
  cq_qid :: int
  cq_el_count :: u32
  cq_dma_handle :: u64
  cq_data :: "bce_qe_completion list"
  cq_index :: u32

record bce_queue_sq =
  sq_qid :: int
  sq_el_size :: u32
  sq_el_count :: u32
  sq_dma_handle :: u64
  sq_data :: "u32 \<Rightarrow> sq_element"
  sq_userdata :: addr
  sq_available_commands :: int
  sq_head :: u32
  sq_tail :: u32
  sq_completion_cidx :: u32
  sq_completion_tail :: u32
  sq_completion_data :: "bce_sq_completion_data list"
  sq_has_pending_completions :: bool
  sq_completion :: bce_sq_completion

text \<open>The common header of the two structures: the \<open>type\<close> field is the constructor.\<close>

datatype bce_queue = Queue_CQ bce_queue_cq | Queue_SQ bce_queue_sq

section \<open>Constants\<close>

abbreviation BCE_CMD_SIZE :: u32 where "BCE_CMD_SIZE \<equiv> 0x40"
abbreviation BCE_COMPLETION_ABORTED :: u32 where "BCE_COMPLETION_ABORTED \<equiv> 2"
abbreviation BCE_COMPLETION_FLAG_PENDING :: u16 where "BCE_COMPLETION_FLAG_PENDING \<equiv> 0x8000"
abbreviation BCE_CMD_REGISTER_MEMORY_QUEUE :: u16 where "BCE_CMD_REGISTER_MEMORY_QUEUE \<equiv> 0x20"
abbreviation BCE_CMD_UNREGISTER_MEMORY_QUEUE :: u16
  where "BCE_CMD_UNREGISTER_MEMORY_QUEUE \<equiv> 0x30"
abbreviation BCE_CMD_FLUSH_MEMORY_QUEUE :: u16 where "BCE_CMD_FLUSH_MEMORY_QUEUE \<equiv> 0x40"
abbreviation REG_DOORBELL_BASE :: nat where "REG_DOORBELL_BASE \<equiv> 0x44000"

text \<open>\<open>sizeof(struct bce_qe_completion)\<close> and \<open>sizeof(struct bce_qe_submission)\<close>.\<close>

abbreviation sizeof_qe_completion :: u64 where "sizeof_qe_completion \<equiv> 24"
abbreviation sizeof_qe_submission :: u32 where "sizeof_qe_submission \<equiv> 32"

definition zero_completion :: bce_qe_completion where
  "zero_completion = \<lparr>ce_result = 0, ce_data_size = 0, ce_qid = 0, ce_completion_index = 0,
     ce_status = 0, ce_flags = 0\<rparr>"

definition zero_completion_data :: bce_sq_completion_data where
  "zero_completion_data = \<lparr>cd_status = 0, cd_data_size = 0, cd_result = 0\<rparr>"

section \<open>Completion queue objects\<close>

text \<open>
  \<open>kzalloc_ok\<close> is whether \<open>kzalloc\<close> succeeds, \<open>dma\<close> the bus address
  \<open>dma_alloc_coherent\<close> hands out, \<open>None\<close> for no memory.
\<close>

definition bce_alloc_cq :: "int \<Rightarrow> u32 \<Rightarrow> bool \<Rightarrow> u64 option \<Rightarrow> bce_queue_cq option" where
  "bce_alloc_cq qid el_count kzalloc_ok dma =
     (if \<not> kzalloc_ok then None
      else case dma of
        None \<Rightarrow> None
      | Some handle \<Rightarrow> Some \<lparr>cq_qid = qid, cq_el_count = el_count, cq_dma_handle = handle,
          cq_data = replicate (unat el_count) zero_completion, cq_index = 0\<rparr>)"

definition bce_get_cq_memcfg :: "bce_queue_cq \<Rightarrow> bce_queue_memcfg" where
  "bce_get_cq_memcfg cq =
     \<lparr>mc_qid = word_of_int (cq_qid cq), mc_el_count = ucast (cq_el_count cq),
      mc_vector_or_cq = 0, mc_pad = 0, mc_addr = cq_dma_handle cq,
      mc_length = ucast (cq_el_count cq) * sizeof_qe_completion\<rparr>"

text \<open>Reading outside the ring's memory yields a zero element (the invariant excludes it).\<close>

definition bce_cq_element :: "bce_queue_cq \<Rightarrow> u32 \<Rightarrow> bce_qe_completion" where
  "bce_cq_element q i =
     (if unat i < length (cq_data q) then cq_data q ! unat i else zero_completion)"

definition completion_pending :: "bce_qe_completion \<Rightarrow> bool" where
  "completion_pending e \<longleftrightarrow> ce_flags e AND BCE_COMPLETION_FLAG_PENDING \<noteq> 0"

section \<open>Submission queue objects\<close>

definition bce_sq_element :: "bce_queue_sq \<Rightarrow> u32 \<Rightarrow> u32" where
  "bce_sq_element q i = sq_el_size q * i"

definition sq_store :: "u32 \<Rightarrow> sq_element \<Rightarrow> bce_queue_sq \<Rightarrow> bce_queue_sq" where
  "sq_store p el q = q\<lparr>sq_data := (sq_data q)(p := el)\<rparr>"

definition bce_alloc_sq :: "int \<Rightarrow> u32 \<Rightarrow> u32 \<Rightarrow> bce_sq_completion \<Rightarrow> addr \<Rightarrow>
    bool \<Rightarrow> u64 option \<Rightarrow> bool \<Rightarrow> bce_queue_sq option" where
  "bce_alloc_sq qid el_size el_count compl userdata kzalloc_ok dma kcalloc_ok =
     (if \<not> kzalloc_ok then None
      else case dma of
        None \<Rightarrow> None
      | Some handle \<Rightarrow>
          if \<not> kcalloc_ok then None
          else Some \<lparr>sq_qid = qid, sq_el_size = el_size, sq_el_count = el_count,
             sq_dma_handle = handle, sq_data = (\<lambda>_. El_zero), sq_userdata = userdata,
             sq_available_commands = sint (el_count - 1), sq_head = 0, sq_tail = 0,
             sq_completion_cidx = 0, sq_completion_tail = 0,
             sq_completion_data = replicate (unat el_count) zero_completion_data,
             sq_has_pending_completions = False, sq_completion = compl\<rparr>)"

definition bce_get_sq_memcfg :: "bce_queue_sq \<Rightarrow> bce_queue_cq \<Rightarrow> bce_queue_memcfg" where
  "bce_get_sq_memcfg sq cq =
     \<lparr>mc_qid = word_of_int (sq_qid sq), mc_el_count = ucast (sq_el_count sq),
      mc_vector_or_cq = word_of_int (cq_qid cq), mc_pad = 0, mc_addr = sq_dma_handle sq,
      mc_length = ucast (sq_el_count sq * sq_el_size sq)\<rparr>"

text \<open>The kernel's \<open>atomic_dec_if_positive\<close>: the value minus one, and the stored value.\<close>

definition atomic_dec_if_positive :: "int \<Rightarrow> int \<times> int" where
  "atomic_dec_if_positive v = (v - 1, if v - 1 < 0 then v else v - 1)"

type_synonym wakeup = "nat \<times> (bce_queue_sq \<Rightarrow> bce_queue_sq)"

text \<open>The activity of other contexts during the sleep keeps a property of the queue.\<close>

definition wakeups_keep :: "(bce_queue_sq \<Rightarrow> bool) \<Rightarrow> wakeup list \<Rightarrow> bool" where
  "wakeups_keep P ws \<longleftrightarrow> (\<forall>w \<in> set ws. \<forall>q. P q \<longrightarrow> P (snd w q))"

text \<open>
  \<open>timeout\<close> is \<open>None\<close> for a NULL pointer. The result is the status, the value left in
  \<open>*timeout\<close> and the queue.
\<close>

function bce_reserve_submission ::
  "nat option \<Rightarrow> wakeup list \<Rightarrow> bce_queue_sq \<Rightarrow> int \<times> nat option \<times> bce_queue_sq" where
  "bce_reserve_submission timeout wakeups sq =
     (let (r, v) = atomic_dec_if_positive (sq_available_commands sq) in
      if \<not> r < 0 then (0, timeout, sq\<lparr>sq_available_commands := v\<rparr>)
      else case timeout of
        None \<Rightarrow> (- EAGAIN, None, sq)
      | Some t \<Rightarrow>
          if t = 0 then (- EAGAIN, Some 0, sq)
          else case wakeups of
            [] \<Rightarrow> bce_reserve_submission (Some 0) [] sq
          | (left, act) # ws \<Rightarrow> bce_reserve_submission (Some left) ws (act sq))"
  by pat_completeness auto
termination
  by (relation "measures [\<lambda>(t, ws, q). length ws, \<lambda>(t, ws, q). case t of None \<Rightarrow> 0 | Some n \<Rightarrow> n]")
    auto

declare bce_reserve_submission.simps [simp del]

definition bce_cancel_submission_reservation :: "bce_queue_sq \<Rightarrow> bce_queue_sq" where
  "bce_cancel_submission_reservation sq =
     sq\<lparr>sq_available_commands := sq_available_commands sq + 1\<rparr>"

definition bce_next_submission :: "bce_queue_sq \<Rightarrow> u32 \<times> bce_queue_sq" where
  "bce_next_submission sq =
     (bce_sq_element sq (sq_tail sq),
      sq\<lparr>sq_tail := ring_next (sq_el_count sq) (sq_tail sq)\<rparr>)"

text \<open>The doorbell write: the byte offset of the register and the value.\<close>

definition bce_submit_to_device :: "bce_queue_sq \<Rightarrow> int \<times> u32" where
  "bce_submit_to_device sq = (int REG_DOORBELL_BASE + 4 * sq_qid sq, sq_tail sq)"

definition bce_notify_submission_complete :: "bce_queue_sq \<Rightarrow> bce_queue_sq" where
  "bce_notify_submission_complete sq =
     sq\<lparr>sq_head := ring_next (sq_el_count sq) (sq_head sq),
        sq_available_commands := sq_available_commands sq + 1\<rparr>"

definition bce_set_submission_single :: "u64 \<Rightarrow> u64 \<Rightarrow> bce_qe_submission" where
  "bce_set_submission_single a sz =
     \<lparr>qs_length = sz, qs_addr = a, qs_segl_addr = 0, qs_segl_length = 0\<rparr>"

text \<open>The next harvested completion, \<open>None\<close> for a NULL result.\<close>

definition bce_next_completion ::
  "bce_queue_sq \<Rightarrow> bce_sq_completion_data option \<times> bce_queue_sq" where
  "bce_next_completion sq =
     (if sq_completion_cidx sq = sq_completion_tail sq then (None, sq)
      else (Some (sq_completion_data sq ! unat (sq_completion_cidx sq)),
            sq\<lparr>sq_completion_cidx := ring_next (sq_el_count sq) (sq_completion_cidx sq)\<rparr>))"

text \<open>
  The part of \<open>bce_handle_cq_completion\<close> that records one completion in the target
  queue's completion ring.
\<close>

definition sq_push_completion :: "bce_qe_completion \<Rightarrow> bce_queue_sq \<Rightarrow> bce_queue_sq" where
  "sq_push_completion e sq =
     sq\<lparr>sq_completion_data := (sq_completion_data sq)[unat (ce_completion_index e) :=
          \<lparr>cd_status = ucast (ce_status e), cd_data_size = ce_data_size e,
           cd_result = ce_result e\<rparr>],
        sq_completion_tail := ring_next (sq_el_count sq) (sq_completion_tail sq)\<rparr>"

section \<open>Reservation\<close>

lemma reserve_available:
  assumes "0 < sq_available_commands sq"
  shows "bce_reserve_submission timeout ws sq =
    (0, timeout, sq\<lparr>sq_available_commands := sq_available_commands sq - 1\<rparr>)"
  using assms by (simp add: bce_reserve_submission.simps atomic_dec_if_positive_def)

lemma reserve_exhausted_nowait:
  assumes "sq_available_commands sq \<le> 0"
  shows "bce_reserve_submission None ws sq = (- EAGAIN, None, sq)"
  using assms by (simp add: bce_reserve_submission.simps atomic_dec_if_positive_def)

lemma reserve_exhausted_timeout:
  assumes "sq_available_commands sq \<le> 0"
  shows "bce_reserve_submission (Some 0) ws sq = (- EAGAIN, Some 0, sq)"
  using assms by (simp add: bce_reserve_submission.simps atomic_dec_if_positive_def)

lemma reserve_exhausted_wait:
  assumes "sq_available_commands sq \<le> 0" and "0 < t"
  shows "bce_reserve_submission (Some t) [] sq = (- EAGAIN, Some 0, sq)"
    and "bce_reserve_submission (Some t) ((left, act) # ws) sq
       = bce_reserve_submission (Some left) ws (act sq)"
  using assms
  by (simp_all add: bce_reserve_submission.simps [of "Some t"] atomic_dec_if_positive_def
      reserve_exhausted_timeout)

lemmas reserve_cases =
  reserve_available reserve_exhausted_nowait reserve_exhausted_timeout reserve_exhausted_wait

lemma reserve_split [case_names free nowait expired sleeps]:
  fixes t :: "nat option"
  assumes "0 < sq_available_commands sq \<Longrightarrow> R"
    and "sq_available_commands sq \<le> 0 \<Longrightarrow> t = None \<Longrightarrow> R"
    and "sq_available_commands sq \<le> 0 \<Longrightarrow> t = Some 0 \<Longrightarrow> R"
    and "\<And>n. sq_available_commands sq \<le> 0 \<Longrightarrow> t = Some n \<Longrightarrow> 0 < n \<Longrightarrow> R"
  shows R
proof (cases "0 < sq_available_commands sq")
  case False
  then have "sq_available_commands sq \<le> 0" by simp
  then show ?thesis
  proof (cases t)
    case (Some n)
    show ?thesis
    proof (cases "n = 0")
      case True
      with Some \<open>sq_available_commands sq \<le> 0\<close> show ?thesis using assms(3) by simp
    next
      case False
      then have "0 < n" by simp
      with \<open>sq_available_commands sq \<le> 0\<close> Some show ?thesis by (rule assms(4))
    qed
  qed (rule assms(2))
qed (rule assms(1))

text \<open>The status is always one of two values.\<close>

lemma reserve_status:
  "bce_reserve_submission t ws sq = (st, t', sq') \<Longrightarrow> st = 0 \<or> st = - EAGAIN"
proof (induction ws arbitrary: t sq)
  case Nil
  then show ?case by (cases rule: reserve_split [where sq = sq and t = t]) (auto simp: reserve_cases)
next
  case (Cons w ws)
  then show ?case
    by (cases w; cases rule: reserve_split [where sq = sq and t = t]) (auto simp: reserve_cases)
qed

text \<open>
  A property of queues that survives what other contexts do during the sleep and taking one
  command out of a positive counter survives the reservation.
\<close>

lemma reserve_preserves:
  assumes "bce_reserve_submission t ws sq = (st, t', sq')" and "P sq"
    and "wakeups_keep P ws"
    and "\<And>q. P q \<Longrightarrow> 0 < sq_available_commands q \<Longrightarrow>
           Q (q\<lparr>sq_available_commands := sq_available_commands q - 1\<rparr>)"
  shows "(st = 0 \<longrightarrow> Q sq') \<and> (st \<noteq> 0 \<longrightarrow> P sq')"
  using assms(1-3)
proof (induction ws arbitrary: t sq)
  case Nil
  then show ?case
    by (cases rule: reserve_split [where sq = sq and t = t]) (auto simp: reserve_cases intro: assms(4))
next
  case (Cons w ws)
  obtain left act where w: "w = (left, act)" by (cases w)
  show ?case
  proof (cases rule: reserve_split [where sq = sq and t = t])
    case (sleeps n)
    with Cons.prems w have "bce_reserve_submission (Some left) ws (act sq) = (st, t', sq')"
      by (simp add: reserve_cases)
    moreover have "P (act sq)" "wakeups_keep P ws"
      using Cons.prems(2,3) w by (auto simp: wakeups_keep_def)
    ultimately show ?thesis by (rule Cons.IH)
  qed (use Cons.prems(1,2) assms(4) in \<open>auto simp: reserve_cases(1-3)\<close>)
qed

section \<open>Ring memory\<close>

text \<open>
  The elements of a ring whose size does not overflow 32 bits are disjoint byte ranges
  inside the memory that was allocated for it.
\<close>

lemma sq_element_offset:
  assumes "i < sq_el_count q" and "unat (sq_el_count q) * unat (sq_el_size q) < 2 ^ 32"
  shows "unat (bce_sq_element q i) = unat (sq_el_size q) * unat i"
proof -
  have "unat (sq_el_size q) * unat i \<le> unat (sq_el_count q) * unat (sq_el_size q)"
    using assms(1) by (simp add: word_less_nat_alt mult.commute)
  with assms(2) have "unat (sq_el_size q) * unat i < 2 ^ 32" by linarith
  then show ?thesis by (simp add: bce_sq_element_def unat_word_ariths)
qed

lemma sq_element_in_bounds:
  assumes "i < sq_el_count q" and "unat (sq_el_count q) * unat (sq_el_size q) < 2 ^ 32"
  shows "unat (bce_sq_element q i) + unat (sq_el_size q)
    \<le> unat (sq_el_count q * sq_el_size q)"
proof -
  have "Suc (unat i) \<le> unat (sq_el_count q)"
    using assms(1) by (simp add: word_less_nat_alt)
  then have "Suc (unat i) * unat (sq_el_size q) \<le> unat (sq_el_count q) * unat (sq_el_size q)"
    by (rule mult_le_mono1)
  moreover have "unat (sq_el_count q * sq_el_size q)
      = unat (sq_el_count q) * unat (sq_el_size q)"
    using assms(2) by (simp add: unat_word_ariths)
  ultimately show ?thesis
    using sq_element_offset [OF assms] by (simp add: mult.commute)
qed

lemma sq_element_inj:
  assumes "i < sq_el_count q" and "j < sq_el_count q" and "0 < sq_el_size q"
    and "unat (sq_el_count q) * unat (sq_el_size q) < 2 ^ 32"
    and "bce_sq_element q i = bce_sq_element q j"
  shows "i = j"
proof -
  have "unat (sq_el_size q) * unat i = unat (sq_el_size q) * unat j"
    using assms by (metis sq_element_offset)
  moreover have "unat (sq_el_size q) \<noteq> 0"
    using assms(3) by (simp add: unat_gt_0 word_greater_zero_iff)
  ultimately show ?thesis by (simp add: word_eq_iff_unsigned [symmetric])
qed

end
