(* ===== verification/Bce_Ring.thy ===== *)
theory Bce_Ring
  imports Bce_Queue
begin

text \<open>
  What a submission queue promises to its clients. The abstract state of a queue is a pair
  of FIFO lists, the elements posted and not yet retired and the completions harvested and
  not yet taken, with the number of reservations and of completions being handled. The
  relation \<open>sq_refines\<close> ties a queue object with its ring indices, its counter and its
  memory to such a state, and each operation of \<open>src/queue.c\<close> is shown to implement the
  corresponding list operation. The completion-handler idiom of the driver,
  \<open>while ((c = bce_next_completion(sq))) ...\<close>, is one loop combinator with one proof that
  it stops after exactly the harvested completions.
\<close>

section \<open>The abstract queue\<close>

record sq_spec =
  sp_reserved :: nat
  sp_inflight :: "sq_element list"
  sp_handled :: nat
  sp_completions :: "bce_sq_completion_data list"

text \<open>Posting an element: \<open>bce_next_submission\<close> followed by the store through its pointer.\<close>

definition sq_post :: "sq_element \<Rightarrow> bce_queue_sq \<Rightarrow> bce_queue_sq" where
  "sq_post el sq = (let (p, sq') = bce_next_submission sq in sq_store p el sq')"

abbreviation sq_size :: "bce_queue_sq \<Rightarrow> nat" where
  "sq_size q \<equiv> unat (sq_el_count q)"

text \<open>The shape every queue object keeps: indices inside the ring, memory that does not wrap.\<close>

definition sq_shape :: "bce_queue_sq \<Rightarrow> bool" where
  "sq_shape q \<longleftrightarrow> 1 < sq_size q \<and> sq_size q < 2 ^ 31 \<and> 0 < sq_el_size q
     \<and> sq_size q * unat (sq_el_size q) < 2 ^ 32
     \<and> sq_head q < sq_el_count q \<and> sq_tail q < sq_el_count q
     \<and> sq_completion_cidx q < sq_el_count q \<and> sq_completion_tail q < sq_el_count q
     \<and> length (sq_completion_data q) = sq_size q"

text \<open>The ring slot \<open>i\<close> places after the head.\<close>

definition sq_slot :: "bce_queue_sq \<Rightarrow> nat \<Rightarrow> nat" where
  "sq_slot q i = (unat (sq_head q) + i) mod sq_size q"

definition sq_refines :: "sq_spec \<Rightarrow> bce_queue_sq \<Rightarrow> bool" where
  "sq_refines s q \<longleftrightarrow> sq_shape q
     \<and> sp_reserved s + length (sp_inflight s) < sq_size q
     \<and> sp_handled s + length (sp_completions s) \<le> length (sp_inflight s)
     \<and> sq_available_commands q
         = int (sq_size q) - 1 - int (sp_reserved s) - int (length (sp_inflight s))
     \<and> unat (sq_tail q) = sq_slot q (length (sp_inflight s))
     \<and> unat (sq_completion_cidx q) = sq_slot q (sp_handled s)
     \<and> unat (sq_completion_tail q) = sq_slot q (sp_handled s + length (sp_completions s))
     \<and> (\<forall>i < length (sp_inflight s).
          sq_data q (bce_sq_element q (of_nat (sq_slot q i))) = sp_inflight s ! i)
     \<and> (\<forall>i < length (sp_completions s).
          sq_completion_data q ! sq_slot q (sp_handled s + i) = sp_completions s ! i)"

definition empty_spec :: sq_spec where
  "empty_spec = \<lparr>sp_reserved = 0, sp_inflight = [], sp_handled = 0, sp_completions = []\<rparr>"

text \<open>
  The loop \<open>while ((c = bce_next_completion(sq))) body\<close> over a state that holds the queue:
  \<open>next\<close> takes a completion, \<open>body\<close> handles it. \<open>None\<close> is a loop that does not return.
\<close>

partial_function (option) completion_loop ::
  "('s \<Rightarrow> 'c option \<times> 's) \<Rightarrow> ('c \<Rightarrow> 's \<Rightarrow> 's) \<Rightarrow> 's \<Rightarrow> 's option" where
  "completion_loop next body s =
     (case next s of
        (None, s') \<Rightarrow> Some s'
      | (Some c, s') \<Rightarrow> completion_loop next body (body c s'))"

lemma completion_loop_None: "nxt s = (None, s') \<Longrightarrow> completion_loop nxt body s = Some s'"
  by (simp add: completion_loop.simps)

lemma completion_loop_Some:
  "nxt s = (Some c, s') \<Longrightarrow>
     completion_loop nxt body s = completion_loop nxt body (body c s')"
  by (simp add: completion_loop.simps [of nxt body s])

text \<open>What every iteration keeps, the loop keeps.\<close>

lemma completion_loop_keeps:
  assumes "completion_loop nxt body s = Some s'"
    and "\<And>t c t'. nxt t = (c, t') \<Longrightarrow> f t' = f t" and "\<And>c t. f (body c t) = f t"
  shows "f s' = f s"
proof -
  have "f s' = f s" if "completion_loop n b s = Some s'"
      "\<forall>t c t'. n t = (c, t') \<longrightarrow> f t' = f t" "\<forall>c t. f (b c t) = f t" for n b s s'
    using that
  proof (induction n b s s' rule: completion_loop.raw_induct)
    case (1 loop n b t t')

    obtain c u where nt: "n t = (c, u)" by (cases "n t")
    have u: "f u = f t" using "1"(4) nt by blast
    show ?case
    proof (cases c)
      case None
      with "1"(2) nt u show ?thesis by simp
    next
      case (Some x)
      with "1"(2) nt have "loop n b (b x u) = Some t'" by simp
      moreover have "completion_loop n b (b x u) = Some t'"
        using "1"(3) nt Some by (simp add: completion_loop.simps [of n b t])
      ultimately have "f t' = f (b x u)" using "1"(1) "1"(4,5) by blast
      with "1"(5) u show ?thesis by simp
    qed
  qed (rule that(1))
  with assms show ?thesis by blast
qed

text \<open>A reservation without waiting, as an option.\<close>

definition sq_try_reserve :: "bce_queue_sq \<Rightarrow> bce_queue_sq option" where
  "sq_try_reserve q =
     (case bce_reserve_submission None [] q of (st, t, q') \<Rightarrow> if st = 0 then Some q' else None)"

definition sq_capacity :: "bce_queue_sq \<Rightarrow> nat" where
  "sq_capacity q = sq_size q - 1"

section \<open>Slots\<close>

lemma sq_slot_less: "0 < sq_size q \<Longrightarrow> sq_slot q i < sq_size q"
  by (simp add: sq_slot_def)

lemma sq_slot_inj:
  assumes "sq_slot q i = sq_slot q j" and "i < sq_size q" and "j < sq_size q"
  shows "i = j"
proof -
  have eq: "(unat (sq_head q) + i) mod sq_size q = (unat (sq_head q) + j) mod sq_size q"
    using assms(1) by (simp only: sq_slot_def)
  show ?thesis
  proof (cases "i \<le> j")
    case True
    have "unat (sq_head q) + i = unat (sq_head q) + j"
      by (rule mod_eq_window [OF eq]) (use True assms(2,3) in linarith)+
    then show ?thesis by simp
  next
    case False
    have "unat (sq_head q) + j = unat (sq_head q) + i"
      by (rule mod_eq_window [OF eq [symmetric]]) (use False assms(2,3) in linarith)+
    then show ?thesis by simp
  qed
qed

lemma sq_slot_Suc: "Suc (sq_slot q i) mod sq_size q = sq_slot q (Suc i)"
  by (simp add: sq_slot_def mod_Suc_eq)

text \<open>Advancing the head shifts the slots by one.\<close>

lemma sq_slot_notify:
  assumes "sq_head q < sq_el_count q"
  shows "sq_slot (bce_notify_submission_complete q) i = sq_slot q (Suc i)"
  using assms
  by (simp add: sq_slot_def bce_notify_submission_complete_def unat_ring_next mod_add_left_eq)

lemma sq_slot_cong:
  "sq_head q' = sq_head q \<Longrightarrow> sq_el_count q' = sq_el_count q \<Longrightarrow> sq_slot q' i = sq_slot q i"
  by (simp add: sq_slot_def)

lemma unat_of_nat_slot:
  assumes "sq_shape q"
  shows "unat (of_nat (sq_slot q i) :: u32) = sq_slot q i"
proof -
  have "sq_slot q i < 2 ^ 32"
    using assms sq_slot_less [of q i] by (simp add: sq_shape_def)
  then show ?thesis by (simp add: unat_of_nat)
qed

lemma of_nat_slot_less:
  assumes "sq_shape q"
  shows "of_nat (sq_slot q i) < sq_el_count q"
  using assms sq_slot_less [of q i]
  by (simp add: word_less_nat_alt unat_of_nat_slot) (simp add: sq_shape_def)

lemma slot_element_inj:
  assumes "sq_shape q" and "i < sq_size q" and "j < sq_size q"
    and "bce_sq_element q (of_nat (sq_slot q i)) = bce_sq_element q (of_nat (sq_slot q j))"
  shows "i = j"
proof -
  have "(of_nat (sq_slot q i) :: u32) = of_nat (sq_slot q j)"
    using assms(1) by (intro sq_element_inj [OF _ _ _ _ assms(4)])
      (simp_all add: of_nat_slot_less, simp_all add: sq_shape_def)
  then have "sq_slot q i = sq_slot q j"
    using assms(1) by (metis unat_of_nat_slot)
  then show ?thesis using assms(2,3) by (rule sq_slot_inj)
qed

section \<open>Each operation implements its list operation\<close>

text \<open>The spec's view of the reservation counter: what is free is what neither list holds.\<close>

lemma sq_refines_available:
  "sq_refines s q \<Longrightarrow>
     (0 < sq_available_commands q
       \<longleftrightarrow> Suc (sp_reserved s + length (sp_inflight s)) < sq_size q)"
  by (auto simp: sq_refines_def)

lemma sq_refines_reserve:
  assumes "sq_refines s q" and "0 < sq_available_commands q"
  shows "sq_refines (s\<lparr>sp_reserved := Suc (sp_reserved s)\<rparr>)
    (q\<lparr>sq_available_commands := sq_available_commands q - 1\<rparr>)"
  using assms by (auto simp: sq_refines_def sq_shape_def sq_slot_def bce_sq_element_def)

lemma sq_refines_cancel:
  assumes "sq_refines s q" and "0 < sp_reserved s"
  shows "sq_refines (s\<lparr>sp_reserved := sp_reserved s - 1\<rparr>) (bce_cancel_submission_reservation q)"
  using assms
  by (auto simp: sq_refines_def sq_shape_def sq_slot_def bce_sq_element_def
      bce_cancel_submission_reservation_def)

lemma sq_post_unfold:
  "sq_post el q = q\<lparr>sq_tail := ring_next (sq_el_count q) (sq_tail q),
     sq_data := (sq_data q)(bce_sq_element q (sq_tail q) := el)\<rparr>"
  by (simp add: sq_post_def bce_next_submission_def sq_store_def bce_sq_element_def)

lemma sq_refines_post:
  assumes "sq_refines s q" and "0 < sp_reserved s"
  shows "sq_refines (s\<lparr>sp_reserved := sp_reserved s - 1,
    sp_inflight := sp_inflight s @ [el]\<rparr>) (sq_post el q)"
proof -
  let ?n = "length (sp_inflight s)"
  have shape: "sq_shape q" and tail: "unat (sq_tail q) = sq_slot q ?n"
    and room: "?n < sq_size q"
    using assms by (auto simp: sq_refines_def)
  have ptr: "sq_tail q = of_nat (sq_slot q ?n)"
    using tail by (metis of_nat_unat_word)
  have next_tail: "unat (ring_next (sq_el_count q) (sq_tail q)) = sq_slot q (Suc ?n)"
    using shape tail by (simp add: unat_ring_next sq_slot_Suc sq_shape_def)
  have other: "bce_sq_element q (of_nat (sq_slot q i)) \<noteq> bce_sq_element q (sq_tail q)"
    if "i < ?n" for i
    using slot_element_inj [OF shape, of i ?n] that room ptr by auto
  have "sq_shape (sq_post el q)"
    using shape by (auto simp: sq_shape_def sq_post_unfold word_less_nat_alt)
  moreover have "sq_slot (sq_post el q) i = sq_slot q i" for i
    by (simp add: sq_slot_def sq_post_unfold)
  moreover have "bce_sq_element (sq_post el q) p = bce_sq_element q p" for p
    by (simp add: bce_sq_element_def sq_post_unfold)
  ultimately show ?thesis
    using assms next_tail other ptr
    by (auto simp: sq_refines_def sq_post_unfold nth_append less_Suc_eq)
qed

lemma sq_refines_push:
  assumes "sq_refines s q"
    and "sp_handled s + length (sp_completions s) < length (sp_inflight s)"
    and "ucast (ce_completion_index e) = sq_completion_tail q"
  shows "sq_refines (s\<lparr>sp_completions := sp_completions s @
      [\<lparr>cd_status = ucast (ce_status e), cd_data_size = ce_data_size e,
        cd_result = ce_result e\<rparr>]\<rparr>) (sq_push_completion e q)"
proof -
  let ?k = "sp_handled s + length (sp_completions s)"
  have shape: "sq_shape q" and ctail: "unat (sq_completion_tail q) = sq_slot q ?k"
    and room: "length (sp_inflight s) < sq_size q"
    using assms by (auto simp: sq_refines_def)
  have idx: "unat (ce_completion_index e) = sq_slot q ?k"
    using ctail unat_ucast_up [of "ce_completion_index e", where 'b = 32]
    by (simp add: assms(3))
  have next_tail: "unat (ring_next (sq_el_count q) (sq_completion_tail q)) = sq_slot q (Suc ?k)"
    using shape ctail by (simp add: unat_ring_next sq_slot_Suc sq_shape_def)
  have other: "sq_slot q ?k \<noteq> sq_slot q (sp_handled s + i)" if "i < length (sp_completions s)" for i
    using sq_slot_inj [of q ?k "sp_handled s + i"] that room assms(2) by auto
  have bound: "sq_slot q i < length (sq_completion_data q)" for i
    using shape sq_slot_less [of q i] by (simp add: sq_shape_def)
  have "sq_shape (sq_push_completion e q)"
    using shape by (auto simp: sq_shape_def sq_push_completion_def word_less_nat_alt)
  moreover have "sq_slot (sq_push_completion e q) i = sq_slot q i" for i
    by (simp add: sq_slot_def sq_push_completion_def)
  moreover have "bce_sq_element (sq_push_completion e q) p = bce_sq_element q p" for p
    by (simp add: bce_sq_element_def sq_push_completion_def)
  ultimately show ?thesis
    using assms(1,2) next_tail other idx bound
    by (auto simp: sq_refines_def sq_push_completion_def nth_append less_Suc_eq
        nth_list_update_if [OF bound])
qed

lemma sq_refines_take:
  assumes "sq_refines s q"
  shows "sp_completions s = [] \<Longrightarrow> bce_next_completion q = (None, q)"
    and "sp_completions s = c # cs \<Longrightarrow> \<exists>q'. bce_next_completion q = (Some c, q')
       \<and> sq_refines (s\<lparr>sp_completions := cs, sp_handled := Suc (sp_handled s)\<rparr>) q'"
proof -
  have shape: "sq_shape q" and cidx: "unat (sq_completion_cidx q) = sq_slot q (sp_handled s)"
    and ctail: "unat (sq_completion_tail q) = sq_slot q (sp_handled s + length (sp_completions s))"
    and room: "sp_handled s + length (sp_completions s) < sq_size q"
    using assms by (auto simp: sq_refines_def)
  show "bce_next_completion q = (None, q)" if "sp_completions s = []"
  proof -
    have "sq_completion_cidx q = sq_completion_tail q"
      using cidx ctail that by (simp add: word_unat_eq_iff)
    then show ?thesis by (simp add: bce_next_completion_def)
  qed
  show "\<exists>q'. bce_next_completion q = (Some c, q')
      \<and> sq_refines (s\<lparr>sp_completions := cs, sp_handled := Suc (sp_handled s)\<rparr>) q'"
    if cons: "sp_completions s = c # cs"
  proof -
    let ?q = "q\<lparr>sq_completion_cidx := ring_next (sq_el_count q) (sq_completion_cidx q)\<rparr>"
    have "sq_slot q (sp_handled s) \<noteq> sq_slot q (sp_handled s + length (sp_completions s))"
      using sq_slot_inj [of q "sp_handled s" "sp_handled s + length (sp_completions s)"] room cons
      by auto
    then have ne: "sq_completion_cidx q \<noteq> sq_completion_tail q"
      using cidx ctail by (metis)
    have first: "sq_completion_data q ! unat (sq_completion_cidx q) = c"
      using assms cons by (auto simp: sq_refines_def)
    have next_cidx: "unat (ring_next (sq_el_count q) (sq_completion_cidx q))
        = sq_slot q (Suc (sp_handled s))"
      using shape cidx by (simp add: unat_ring_next sq_slot_Suc sq_shape_def)
    have "sq_shape ?q"
      using shape by (auto simp: sq_shape_def word_less_nat_alt)
    moreover have "sq_slot ?q i = sq_slot q i" for i
      by (simp add: sq_slot_def)
    moreover have "bce_sq_element ?q p = bce_sq_element q p" for p
      by (simp add: bce_sq_element_def)
    ultimately have "sq_refines (s\<lparr>sp_completions := cs, sp_handled := Suc (sp_handled s)\<rparr>) ?q"
      using assms cons next_cidx by (auto simp: sq_refines_def)
    then show ?thesis using ne first by (auto simp: bce_next_completion_def)
  qed
qed

lemma sq_refines_notify:
  assumes "sq_refines s q" and "0 < sp_handled s"
  shows "sq_refines (s\<lparr>sp_inflight := tl (sp_inflight s), sp_handled := sp_handled s - 1\<rparr>)
    (bce_notify_submission_complete q)"
proof -
  let ?q = "bce_notify_submission_complete q"
  obtain el els where inflight: "sp_inflight s = el # els"
    using assms by (cases "sp_inflight s") (auto simp: sq_refines_def)
  obtain h where h: "sp_handled s = Suc h" using assms(2) by (cases "sp_handled s") auto
  have head: "sq_head q < sq_el_count q" using assms by (simp add: sq_refines_def sq_shape_def)
  have "sq_shape ?q"
    using assms by (auto simp: sq_refines_def sq_shape_def bce_notify_submission_complete_def
        word_less_nat_alt)
  moreover have "sq_slot ?q i = sq_slot q (Suc i)" for i
    by (rule sq_slot_notify [OF head])
  moreover have "bce_sq_element ?q p = bce_sq_element q p" for p
    by (simp add: bce_sq_element_def bce_notify_submission_complete_def)
  ultimately show ?thesis
    using assms(1) unfolding sq_refines_def inflight h
    by (auto simp: bce_notify_submission_complete_def nth_Cons')
qed

lemma sq_refines_alloc:
  assumes "bce_alloc_sq qid el_size el_count compl ud a b c = Some q"
    and "1 < unat el_count" and "unat el_count < 2 ^ 31" and "0 < el_size"
    and "unat el_count * unat el_size < 2 ^ 32"
  shows "sq_refines empty_spec q"
proof -
  have pos: "0 < el_count" using assms(2) by (simp add: word_less_nat_alt)
  then have pred: "unat (el_count - 1) = unat el_count - 1"
    by (simp add: unat_minus_one word_less_nat_alt [symmetric] word_neq_0_conv [symmetric])
  have "sint (el_count - 1) = int (unat (el_count - 1))"
    using assms(3) pred by (intro sint_eq_unat) simp
  then have "sint (el_count - 1) = int (unat el_count) - 1"
    using pred assms(2) by simp
  then show ?thesis
    using assms(1-5) pos
    by (auto simp: bce_alloc_sq_def sq_refines_def sq_shape_def empty_spec_def sq_slot_def
        split: if_splits option.splits)
qed

section \<open>The interface of a submission ring\<close>

locale fifo_ring =
  fixes refines :: "sq_spec \<Rightarrow> 'q \<Rightarrow> bool"
    and capacity :: "'q \<Rightarrow> nat"
    and reserve :: "'q \<Rightarrow> 'q option"
    and post :: "sq_element \<Rightarrow> 'q \<Rightarrow> 'q"
    and take_completion :: "'q \<Rightarrow> bce_sq_completion_data option \<times> 'q"
    and retire :: "'q \<Rightarrow> 'q"
  assumes within_capacity:
      "refines s q \<Longrightarrow> sp_reserved s + length (sp_inflight s) \<le> capacity q"
    and reserve_full:
      "refines s q \<Longrightarrow> reserve q = None \<longleftrightarrow> sp_reserved s + length (sp_inflight s) = capacity q"
    and reserve_refines:
      "refines s q \<Longrightarrow> reserve q = Some q'
        \<Longrightarrow> refines (s\<lparr>sp_reserved := Suc (sp_reserved s)\<rparr>) q' \<and> capacity q' = capacity q"
    and post_refines:
      "refines s q \<Longrightarrow> 0 < sp_reserved s
        \<Longrightarrow> refines (s\<lparr>sp_reserved := sp_reserved s - 1, sp_inflight := sp_inflight s @ [el]\<rparr>)
              (post el q)
            \<and> capacity (post el q) = capacity q"
    and take_none: "refines s q \<Longrightarrow> sp_completions s = [] \<Longrightarrow> take_completion q = (None, q)"
    and take_some:
      "refines s q \<Longrightarrow> sp_completions s = c # cs
        \<Longrightarrow> \<exists>q'. take_completion q = (Some c, q')
              \<and> refines (s\<lparr>sp_completions := cs, sp_handled := Suc (sp_handled s)\<rparr>) q'
              \<and> capacity q' = capacity q"
    and retire_refines:
      "refines s q \<Longrightarrow> 0 < sp_handled s
        \<Longrightarrow> refines (s\<lparr>sp_inflight := tl (sp_inflight s), sp_handled := sp_handled s - 1\<rparr>)
              (retire q)
            \<and> capacity (retire q) = capacity q"
begin

text \<open>Handling one completion: take it, then give its slot back.\<close>

lemma take_retire:
  assumes "refines s q" and "sp_completions s = c # cs"
  shows "\<exists>q'. take_completion q = (Some c, q')
    \<and> refines (s\<lparr>sp_completions := cs, sp_inflight := tl (sp_inflight s)\<rparr>) (retire q')
    \<and> capacity (retire q') = capacity q"
proof -
  obtain q' where q': "take_completion q = (Some c, q')" "capacity q' = capacity q"
    "refines (s\<lparr>sp_completions := cs, sp_handled := Suc (sp_handled s)\<rparr>) q'"
    using take_some [OF assms] by blast
  from retire_refines [OF q'(3)] q'(1,2) show ?thesis by simp
qed

text \<open>One reservation and one post put one more element in flight.\<close>

lemma reserve_post:
  assumes "refines s q" and "reserve q = Some q'"
  shows "refines (s\<lparr>sp_inflight := sp_inflight s @ [el]\<rparr>) (post el q')
    \<and> capacity (post el q') = capacity q"
proof -
  have q': "refines (s\<lparr>sp_reserved := Suc (sp_reserved s)\<rparr>) q'" "capacity q' = capacity q"
    using reserve_refines [OF assms] by auto
  from post_refines [OF q'(1), of el] q'(2) show ?thesis by simp
qed

end

text \<open>
  A handler that drains a ring: a state that carries the ring, a \<open>next\<close> that takes from it
  and a body that retires one element per completion.
\<close>

locale ring_drainer = fifo_ring +
  fixes ring :: "'c \<Rightarrow> 'a"
    and next_c :: "'c \<Rightarrow> bce_sq_completion_data option \<times> 'c"
    and body :: "bce_sq_completion_data \<Rightarrow> 'c \<Rightarrow> 'c"
  assumes next_none: "take_completion (ring c) = (None, q) \<Longrightarrow> next_c c = (None, c)"
    and next_some: "take_completion (ring c) = (Some x, q)
      \<Longrightarrow> \<exists>c'. next_c c = (Some x, c') \<and> ring c' = q"
    and body_ring: "ring (body x c) = retire (ring c)"
begin

theorem drains:
  assumes "refines s (ring c)"
  shows "\<exists>c'. completion_loop next_c body c = Some c'
    \<and> refines (s\<lparr>sp_completions := [],
        sp_inflight := drop (length (sp_completions s)) (sp_inflight s)\<rparr>) (ring c')
    \<and> capacity (ring c') = capacity (ring c)"
  using assms
proof (induction "sp_completions s" arbitrary: s c)
  case Nil
  then have "next_c c = (None, c)" using take_none next_none by metis
  then have "completion_loop next_c body c = Some c"
    by (rule completion_loop_None)
  moreover have "s\<lparr>sp_completions := [],
      sp_inflight := drop (length (sp_completions s)) (sp_inflight s)\<rparr> = s"
    using Nil.hyps by (cases s) simp
  ultimately show ?case using Nil.prems by metis
next
  case (Cons x xs)
  obtain q' where q': "take_completion (ring c) = (Some x, q')"
    "refines (s\<lparr>sp_completions := xs, sp_inflight := tl (sp_inflight s)\<rparr>) (retire q')"
    "capacity (retire q') = capacity (ring c)"
    using take_retire [OF Cons.prems Cons.hyps(2) [symmetric]] by blast
  obtain c1 where c1: "next_c c = (Some x, c1)" "ring c1 = q'"
    using next_some [OF q'(1)] by blast
  have "refines (s\<lparr>sp_completions := xs, sp_inflight := tl (sp_inflight s)\<rparr>) (ring (body x c1))"
    using q'(2) c1(2) body_ring by simp
  from Cons.hyps(1) [OF _ this] obtain c' where
    "completion_loop next_c body (body x c1) = Some c'"
    "refines (s\<lparr>sp_completions := [],
       sp_inflight := drop (length xs) (tl (sp_inflight s))\<rparr>) (ring c')"
    "capacity (ring c') = capacity (ring (body x c1))"
    by auto
  with c1 q'(3) body_ring Cons.hyps(2) [symmetric] show ?case
    by (auto simp: completion_loop_Some drop_Suc)
qed

end

text \<open>
  A producer that fills a ring: each step reserves a slot and posts one element, and the
  loop stops at the first failed reservation.
\<close>

locale ring_filler = fifo_ring +
  fixes ring :: "'c \<Rightarrow> 'a"
    and step :: "'c \<Rightarrow> 'c option"
    and fill :: "nat \<Rightarrow> 'c \<Rightarrow> 'c"
  assumes step_none: "reserve (ring c) = None \<Longrightarrow> step c = None"
    and step_some: "reserve (ring c) = Some q
      \<Longrightarrow> \<exists>c' el. step c = Some c' \<and> ring c' = post el q"
    and fill_0: "fill 0 c = c"
    and fill_Suc: "fill (Suc n) c = (case step c of None \<Rightarrow> c | Some c' \<Rightarrow> fill n c')"
begin

theorem fills:
  assumes "refines s (ring c)"
  shows "\<exists>els. refines (s\<lparr>sp_inflight := sp_inflight s @ els\<rparr>) (ring (fill n c))
    \<and> length els = min n (capacity (ring c) - (sp_reserved s + length (sp_inflight s)))
    \<and> capacity (ring (fill n c)) = capacity (ring c)"
  using assms
proof (induction n arbitrary: s c)
  case 0
  then show ?case by (intro exI [of _ "[]"]) (simp add: fill_0)
next
  case (Suc n)
  show ?case
  proof (cases "reserve (ring c)")
    case None
    with Suc.prems show ?thesis
      by (intro exI [of _ "[]"]) (simp add: fill_Suc step_none reserve_full)
  next
    case (Some q)
    obtain c' el where c': "step c = Some c'" "ring c' = post el q"
      using step_some [OF Some] by blast
    have r: "refines (s\<lparr>sp_inflight := sp_inflight s @ [el]\<rparr>) (ring c')"
      and cap: "capacity (ring c') = capacity (ring c)"
      using reserve_post [OF Suc.prems Some, of el] c'(2) by simp_all
    have "sp_reserved s + length (sp_inflight s) < capacity (ring c)"
      using Some Suc.prems reserve_full within_capacity by (metis le_neq_implies_less option.simps(3))
    moreover obtain els where els:
      "refines (s\<lparr>sp_inflight := (sp_inflight s @ [el]) @ els\<rparr>) (ring (fill n c'))"
      "length els = min n (capacity (ring c') - (sp_reserved s + Suc (length (sp_inflight s))))"
      "capacity (ring (fill n c')) = capacity (ring c')"
      using Suc.IH [OF r] by auto
    ultimately show ?thesis
      using c'(1) cap by (intro exI [of _ "el # els"]) (auto simp: fill_Suc min_def)
  qed
qed

end

interpretation sq_ring: fifo_ring sq_refines sq_capacity sq_try_reserve sq_post
  bce_next_completion bce_notify_submission_complete
proof unfold_locales
  fix s q q' el c cs
  assume r: "sq_refines s q"
  show "sp_reserved s + length (sp_inflight s) \<le> sq_capacity q"
    using r by (auto simp: sq_refines_def sq_capacity_def)
  show "sq_try_reserve q = None \<longleftrightarrow> sp_reserved s + length (sp_inflight s) = sq_capacity q"
    using r by (cases "0 < sq_available_commands q")
      (auto simp: sq_try_reserve_def reserve_cases sq_refines_def sq_capacity_def)
  show "sq_try_reserve q = Some q' \<Longrightarrow>
      sq_refines (s\<lparr>sp_reserved := Suc (sp_reserved s)\<rparr>) q' \<and> sq_capacity q' = sq_capacity q"
    using r sq_refines_reserve [OF r] by (cases "0 < sq_available_commands q")
      (auto simp: sq_try_reserve_def reserve_cases sq_capacity_def)
  show "0 < sp_reserved s \<Longrightarrow>
      sq_refines (s\<lparr>sp_reserved := sp_reserved s - 1, sp_inflight := sp_inflight s @ [el]\<rparr>)
        (sq_post el q) \<and> sq_capacity (sq_post el q) = sq_capacity q"
    using sq_refines_post [OF r] by (simp add: sq_capacity_def sq_post_unfold)
  show "sp_completions s = [] \<Longrightarrow> bce_next_completion q = (None, q)"
    by (rule sq_refines_take(1) [OF r])
  show "sp_completions s = c # cs \<Longrightarrow> \<exists>q'. bce_next_completion q = (Some c, q')
      \<and> sq_refines (s\<lparr>sp_completions := cs, sp_handled := Suc (sp_handled s)\<rparr>) q'
      \<and> sq_capacity q' = sq_capacity q"
    using sq_refines_take(2) [OF r, of c cs]
    by (auto simp: bce_next_completion_def sq_capacity_def split: if_splits)
  show "0 < sp_handled s \<Longrightarrow>
      sq_refines (s\<lparr>sp_inflight := tl (sp_inflight s), sp_handled := sp_handled s - 1\<rparr>)
        (bce_notify_submission_complete q)
      \<and> sq_capacity (bce_notify_submission_complete q) = sq_capacity q"
    using sq_refines_notify [OF r]
    by (simp add: sq_capacity_def bce_notify_submission_complete_def)
qed

section \<open>Every history of a queue\<close>

text \<open>
  The histories of one queue object, with the abstract state they lead to: clients reserve,
  cancel and post, the DMA interrupt harvests a completion whose index matches, handlers
  take completions and give slots back. The context switches inside a waiting reservation
  are steps of their own. A client posts or cancels only what it reserved, a handler retires
  only what it took, and the device completes only what it was given.
\<close>

inductive sq_reachable :: "sq_spec \<Rightarrow> bce_queue_sq \<Rightarrow> bool" where
  sr_alloc: "bce_alloc_sq qid el_size el_count compl ud True (Some dma) True = Some q \<Longrightarrow>
     1 < unat el_count \<Longrightarrow> unat el_count < 2 ^ 31 \<Longrightarrow> 0 < el_size \<Longrightarrow>
     unat el_count * unat el_size < 2 ^ 32 \<Longrightarrow> sq_reachable empty_spec q"
| sr_reserve: "sq_reachable s q \<Longrightarrow> bce_reserve_submission t [] q = (0, t', q') \<Longrightarrow>
     sq_reachable (s\<lparr>sp_reserved := Suc (sp_reserved s)\<rparr>) q'"
| sr_cancel: "sq_reachable s q \<Longrightarrow> 0 < sp_reserved s \<Longrightarrow>
     sq_reachable (s\<lparr>sp_reserved := sp_reserved s - 1\<rparr>) (bce_cancel_submission_reservation q)"
| sr_post: "sq_reachable s q \<Longrightarrow> 0 < sp_reserved s \<Longrightarrow>
     sq_reachable (s\<lparr>sp_reserved := sp_reserved s - 1, sp_inflight := sp_inflight s @ [el]\<rparr>)
       (sq_post el q)"
| sr_complete: "sq_reachable s q \<Longrightarrow>
     sp_handled s + length (sp_completions s) < length (sp_inflight s) \<Longrightarrow>
     ucast (ce_completion_index e) = sq_completion_tail q \<Longrightarrow>
     sq_reachable (s\<lparr>sp_completions := sp_completions s @
        [\<lparr>cd_status = ucast (ce_status e), cd_data_size = ce_data_size e,
          cd_result = ce_result e\<rparr>]\<rparr>) (sq_push_completion e q)"
| sr_take: "sq_reachable s q \<Longrightarrow> bce_next_completion q = (Some c, q') \<Longrightarrow>
     sq_reachable (s\<lparr>sp_completions := tl (sp_completions s),
        sp_handled := Suc (sp_handled s)\<rparr>) q'"
| sr_notify: "sq_reachable s q \<Longrightarrow> 0 < sp_handled s \<Longrightarrow>
     sq_reachable (s\<lparr>sp_inflight := tl (sp_inflight s), sp_handled := sp_handled s - 1\<rparr>)
       (bce_notify_submission_complete q)"

lemma reserve_no_wakeups:
  assumes "bce_reserve_submission t [] q = (0, t', q')"
  shows "0 < sq_available_commands q
    \<and> q' = q\<lparr>sq_available_commands := sq_available_commands q - 1\<rparr>"
  using assms by (cases rule: reserve_split [where sq = q and t = t]) (auto simp: reserve_cases)

lemma sq_reachable_refines: "sq_reachable s q \<Longrightarrow> sq_refines s q"
proof (induction rule: sq_reachable.induct)
  case (sr_alloc qid el_size el_count compl ud dma q)
  then show ?case by (rule sq_refines_alloc)
next
  case (sr_reserve s q t t' q')
  from reserve_no_wakeups [OF sr_reserve.hyps(2)] sq_refines_reserve [OF sr_reserve.IH]
  show ?case by simp
next
  case (sr_take s q c q')
  then obtain c' cs where cs: "sp_completions s = c' # cs"
    using sq_refines_take(1) by (cases "sp_completions s") force+
  from sq_refines_take(2) [OF sr_take.IH cs] sr_take.hyps(2) cs show ?case by simp
qed (blast intro: sq_refines_cancel sq_refines_post sq_refines_push sq_refines_notify)+

lemma take_first_completion:
  assumes "sq_refines s q"
  shows "fst (bce_next_completion q)
    = (case sp_completions s of [] \<Rightarrow> None | c # cs \<Rightarrow> Some c)"
  using sq_refines_take [OF assms] by (cases "sp_completions s") auto

text \<open>
  Property C1. In every history of a submission queue the ring implements its FIFO
  specification: indices stay inside the ring, the reservation counter is exactly the ring's
  capacity minus what is reserved or in flight (so it is never negative and never exceeds
  the capacity), and the completion a handler takes next is the oldest harvested one.
\<close>

theorem queue_history_refines:
  assumes "sq_reachable s q"
  shows "sq_refines s q
    \<and> sq_available_commands q
        = int (sq_size q) - 1 - int (sp_reserved s) - int (length (sp_inflight s))
    \<and> 0 \<le> sq_available_commands q \<and> sq_available_commands q < int (sq_size q)
    \<and> fst (bce_next_completion q) = (case sp_completions s of [] \<Rightarrow> None | c # cs \<Rightarrow> Some c)"
  using sq_reachable_refines [OF assms] take_first_completion [OF sq_reachable_refines [OF assms]]
  by (auto simp: sq_refines_def)

text \<open>
  Property C2. The slot a client gets from \<open>bce_next_submission\<close> while it holds a
  reservation is its own: the pointer stays inside the ring's DMA memory and differs from the
  address of every element still in flight, so posting never overwrites one.
\<close>

theorem submission_slot_exclusive:
  assumes "sq_reachable s q" and "0 < sp_reserved s"
  shows "unat (fst (bce_next_submission q)) + unat (sq_el_size q)
      \<le> unat (sq_el_count q * sq_el_size q)
    \<and> (\<forall>i < length (sp_inflight s).
         fst (bce_next_submission q) \<noteq> bce_sq_element q (of_nat (sq_slot q i)))"
proof -
  have r: "sq_refines s q" by (rule sq_reachable_refines [OF assms(1)])
  let ?n = "length (sp_inflight s)"
  have shape: "sq_shape q" and room: "?n < sq_size q"
    using r by (auto simp: sq_refines_def)
  have ptr: "sq_tail q = of_nat (sq_slot q ?n)"
    using r by (metis sq_refines_def of_nat_unat_word)
  have "sq_tail q < sq_el_count q" "unat (sq_el_count q) * unat (sq_el_size q) < 2 ^ 32"
    using shape by (auto simp: sq_shape_def)
  from sq_element_in_bounds [OF this]
  have bounds: "unat (bce_sq_element q (sq_tail q)) + unat (sq_el_size q)
      \<le> unat (sq_el_count q * sq_el_size q)" .
  have "bce_sq_element q (sq_tail q) \<noteq> bce_sq_element q (of_nat (sq_slot q i))"
    if "i < ?n" for i
    using slot_element_inj [OF shape, of ?n i] room that unfolding ptr by linarith
  with bounds show ?thesis by (simp add: bce_next_submission_def)
qed

lemma example_reachable:
  "sq_reachable (empty_spec\<lparr>sp_reserved := Suc 0\<rparr>)
     (\<lparr>sq_qid = 2, sq_el_size = 32, sq_el_count = 4, sq_dma_handle = 0x1000,
       sq_data = (\<lambda>_. El_zero), sq_userdata = 0, sq_available_commands = 2, sq_head = 0,
       sq_tail = 0, sq_completion_cidx = 0, sq_completion_tail = 0,
       sq_completion_data = replicate 4 zero_completion_data,
       sq_has_pending_completions = False, sq_completion = Cb_cmdq_completion\<rparr>)"
proof -
  let ?q = "the (bce_alloc_sq 2 32 4 Cb_cmdq_completion 0 True (Some 0x1000) True)"
  have "sq_reachable empty_spec ?q"
    by (rule sr_alloc [where qid = 2 and el_size = 32 and el_count = 4 and dma = "0x1000"
          and compl = Cb_cmdq_completion and ud = 0]) (simp_all add: bce_alloc_sq_def)
  from sr_reserve [OF this, of None None
      "?q\<lparr>sq_available_commands := sq_available_commands ?q - 1\<rparr>"]
  show ?thesis
    by (simp add: reserve_available bce_alloc_sq_def empty_spec_def)
qed

theorem queue_history_refines_witness:
  "\<exists>q. sq_reachable (empty_spec\<lparr>sp_reserved := Suc 0\<rparr>) q \<and> sq_available_commands q = 2"
  using example_reachable queue_history_refines [OF example_reachable]
  by (intro exI conjI) (rule example_reachable, simp)

theorem submission_slot_exclusive_witness:
  "\<exists>q. sq_reachable (empty_spec\<lparr>sp_reserved := Suc 0\<rparr>) q
     \<and> unat (fst (bce_next_submission q)) + 32 \<le> 128"
  using submission_slot_exclusive [OF example_reachable]
  by (intro exI conjI) (rule example_reachable, simp add: empty_spec_def)

text \<open>
  A reservation that may sleep either takes exactly one command of a positive
  counter, so that afterwards the queue is consistent with one more reservation, or fails
  with \<open>-EAGAIN\<close> and leaves the queue consistent, whatever consistent activity happens
  while it sleeps.
\<close>

theorem reserve_submission_outcome:
  assumes "bce_reserve_submission t ws q = (st, t', q')" and "\<exists>s. sq_refines s q"
    and "wakeups_keep (\<lambda>q. \<exists>s. sq_refines s q) ws"
  shows "(st = 0 \<and> (\<exists>s. sq_refines s q' \<and> 0 < sp_reserved s))
    \<or> (st = - EAGAIN \<and> (\<exists>s. sq_refines s q'))"
proof -
  have step: "\<exists>s. sq_refines s (p\<lparr>sq_available_commands := sq_available_commands p - 1\<rparr>)
      \<and> 0 < sp_reserved s"
    if "\<exists>s. sq_refines s p" and "0 < sq_available_commands p" for p
    using that sq_refines_reserve by fastforce
  have "(st = 0 \<longrightarrow> (\<exists>s. sq_refines s q' \<and> 0 < sp_reserved s))
      \<and> (st \<noteq> 0 \<longrightarrow> (\<exists>s. sq_refines s q'))"
    by (rule reserve_preserves [OF assms, where Q = "\<lambda>q. \<exists>s. sq_refines s q \<and> 0 < sp_reserved s"])
      (rule step)
  with reserve_status [OF assms(1)] show ?thesis by auto
qed

theorem reserve_submission_outcome_witness:
  "\<exists>q q'. bce_reserve_submission (Some 5) [(3, \<lambda>q. q)] q = (0, Some 5, q')
     \<and> (\<exists>s. sq_refines s q' \<and> 0 < sp_reserved s)"
proof -
  let ?s = "empty_spec\<lparr>sp_reserved := Suc 0\<rparr>"
  obtain q where q: "sq_refines ?s q" "0 < sq_available_commands q"
    using sq_reachable_refines [OF example_reachable] by force
  have res: "bce_reserve_submission (Some 5) [(3, \<lambda>q. q)] q
      = (0, Some 5, q\<lparr>sq_available_commands := sq_available_commands q - 1\<rparr>)"
    using q(2) by (simp add: reserve_available)
  have keep: "wakeups_keep (\<lambda>q. \<exists>s. sq_refines s q) [(3, \<lambda>q. q)]"
    by (simp add: wakeups_keep_def)
  have "\<exists>s. sq_refines s q" using q(1) by blast
  from reserve_submission_outcome [OF res this keep] res show ?thesis by auto
qed

end
