(* ===== verification/Bce_Cmdq.thy ===== *)
theory Bce_Cmdq
  imports Bce_Ring
begin

text \<open>
  The command queue (\<open>src/queue.h\<close>, \<open>src/queue.c\<close>): a submission queue whose slots are
  paired with pointers to result elements on the stacks of the waiting callers. The record
  \<open>bce_queue_cmdq\<close> holds the queue object behind \<open>cmdq->sq\<close>, the table \<open>tres\<close> and the
  live result elements by address: an element is in the map from the start of the call that
  owns it until that call returns.

  Sleeping and lock acquisition let other contexts run. Their activity is an argument of the
  function that waits: \<open>ws\<close> for the reservation, \<open>lock_wait\<close> for a contended spinlock,
  \<open>wait\<close> for \<open>wait_for_completion_timeout\<close>. Times are milliseconds.
\<close>

section \<open>Data\<close>

record bce_queue_cmdq_result_el =
  re_done :: bool
  re_status :: u32
  re_result :: u64
  re_slot :: u32

record bce_queue_cmdq =
  cmdq_sq :: bce_queue_sq
  cmdq_tres :: "addr option list"
  cmdq_results :: "addr \<rightharpoonup> bce_queue_cmdq_result_el"

section \<open>Operations\<close>

text \<open>\<open>sq_alloc\<close> are the allocator's answers for the queue object, \<open>tres_ok\<close> for the table.\<close>

definition bce_alloc_cmdq ::
  "int \<Rightarrow> u32 \<Rightarrow> addr \<Rightarrow> bool \<Rightarrow> bool \<times> u64 option \<times> bool \<Rightarrow> bool \<Rightarrow> bce_queue_cmdq option" where
  "bce_alloc_cmdq qid el_count self kzalloc_ok sq_alloc tres_ok =
     (if \<not> kzalloc_ok then None
      else case sq_alloc of (a, dma, b) \<Rightarrow>
        (case bce_alloc_sq qid BCE_CMD_SIZE el_count Cb_cmdq_completion self a dma b of
           None \<Rightarrow> None
         | Some sq \<Rightarrow>
             if \<not> tres_ok then None
             else Some \<lparr>cmdq_sq = sq, cmdq_tres = replicate (unat el_count) None,
               cmdq_results = (\<lambda>_. None)\<rparr>))"

text \<open>
  \<open>el->result = ...; el->status = ...; complete(&el->cmpl)\<close>. Writing through a pointer to
  an element that is gone changes nothing here; the invariant below shows it cannot happen.
\<close>

definition complete_result :: "bce_sq_completion_data \<Rightarrow> addr \<Rightarrow>
    (addr \<rightharpoonup> bce_queue_cmdq_result_el) \<Rightarrow> (addr \<rightharpoonup> bce_queue_cmdq_result_el)" where
  "complete_result res r results =
     (case results r of
        None \<Rightarrow> results
      | Some el \<Rightarrow> results(r \<mapsto>
          el\<lparr>re_result := cd_result res, re_status := cd_status res, re_done := True\<rparr>))"

definition cmdq_next :: "bce_queue_cmdq \<Rightarrow> bce_sq_completion_data option \<times> bce_queue_cmdq" where
  "cmdq_next c = (case bce_next_completion (cmdq_sq c) of (r, sq) \<Rightarrow> (r, c\<lparr>cmdq_sq := sq\<rparr>))"

definition cmdq_complete_one :: "bce_sq_completion_data \<Rightarrow> bce_queue_cmdq \<Rightarrow> bce_queue_cmdq" where
  "cmdq_complete_one res c =
     (let h = unat (sq_head (cmdq_sq c));
          results = (case cmdq_tres c ! h of
              Some r \<Rightarrow> complete_result res r (cmdq_results c)
            | None \<Rightarrow> cmdq_results c)
      in c\<lparr>cmdq_results := results, cmdq_tres := (cmdq_tres c)[h := None],
           cmdq_sq := bce_notify_submission_complete (cmdq_sq c)\<rparr>)"

definition bce_cmdq_completion :: "bce_queue_cmdq \<Rightarrow> bce_queue_cmdq option" where
  "bce_cmdq_completion c = completion_loop cmdq_next cmdq_complete_one c"

text \<open>
  What happens around one command: the junk on the stack the result element is built from,
  and the activity of other contexts during the reservation, while the lock is contended,
  during the wait, and while the lock is contended again after a timeout.
\<close>

record cmd_env =
  cw_junk :: bce_queue_cmdq_result_el
  cw_reserve :: "wakeup list"
  cw_lock :: "bce_queue_cmdq \<Rightarrow> bce_queue_cmdq"
  cw_wait :: "bce_queue_cmdq \<Rightarrow> bce_queue_cmdq"
  cw_relock :: "bce_queue_cmdq \<Rightarrow> bce_queue_cmdq"

definition set_result :: "addr \<Rightarrow> (bce_queue_cmdq_result_el \<Rightarrow> bce_queue_cmdq_result_el) \<Rightarrow>
    bce_queue_cmdq \<Rightarrow> bce_queue_cmdq" where
  "set_result r f c =
     c\<lparr>cmdq_results := (cmdq_results c)(r := map_option f (cmdq_results c r))\<rparr>"

text \<open>The locked part of \<open>bce_cmd_start\<close>: take the tail slot for the result element \<open>r\<close>.\<close>

definition cmd_take_slot :: "addr \<Rightarrow> bce_queue_cmdq \<Rightarrow> u32 \<times> bce_queue_cmdq" where
  "cmd_take_slot r c =
     (let t = sq_tail (cmdq_sq c);
          c1 = set_result r (\<lambda>el. el\<lparr>re_slot := t\<rparr>) c;
          c2 = c1\<lparr>cmdq_tres := (cmdq_tres c1)[unat t := Some r]\<rparr>;
          (p, sq) = bce_next_submission (cmdq_sq c2)
      in (p, c2\<lparr>cmdq_sq := sq\<rparr>))"

definition bce_cmd_start :: "addr \<Rightarrow> cmd_env \<Rightarrow> bce_queue_cmdq \<Rightarrow> u32 option \<times> bce_queue_cmdq" where
  "bce_cmd_start r env c =
     (let c1 = c\<lparr>cmdq_results := (cmdq_results c)(r \<mapsto> (cw_junk env)\<lparr>re_done := False\<rparr>)\<rparr>;
          (st, timeout, sq) =
            bce_reserve_submission (Some (1000 * 60 * 5)) (cw_reserve env) (cmdq_sq c1);
          c2 = c1\<lparr>cmdq_sq := sq\<rparr>
      in if st \<noteq> 0 then (None, c2)
         else let (p, c3) = cmd_take_slot r (cw_lock env c2) in (Some p, c3))"

definition result_done :: "addr \<Rightarrow> bce_queue_cmdq \<Rightarrow> bool" where
  "result_done r c = (case cmdq_results c r of Some el \<Rightarrow> re_done el | None \<Rightarrow> False)"

definition result_status :: "addr \<Rightarrow> bce_queue_cmdq \<Rightarrow> u32" where
  "result_status r c = (case cmdq_results c r of Some el \<Rightarrow> re_status el | None \<Rightarrow> 0)"

text \<open>The cleanup after a timeout: \<open>cmdq->tres[res->slot] = NULL\<close>.\<close>

definition cmd_clear_slot :: "addr \<Rightarrow> bce_queue_cmdq \<Rightarrow> bce_queue_cmdq" where
  "cmd_clear_slot r c =
     (case cmdq_results c r of
        Some el \<Rightarrow> c\<lparr>cmdq_tres := (cmdq_tres c)[unat (re_slot el) := None]\<rparr>
      | None \<Rightarrow> c)"

definition bce_cmd_finish ::
  "addr \<Rightarrow> cmd_env \<Rightarrow> bce_queue_cmdq \<Rightarrow> int \<times> (int \<times> u32) list \<times> bce_queue_cmdq" where
  "bce_cmd_finish r env c =
     (let doorbell = [bce_submit_to_device (cmdq_sq c)];
          c1 = cw_wait env c
      in if \<not> result_done r c1
         then (- ETIMEDOUT, doorbell, cmd_clear_slot r (cw_relock env c1))
         else (0, doorbell, c1))"

text \<open>Returning to the caller ends the life of the result element on the stack.\<close>

definition pop_result :: "addr \<Rightarrow> bce_queue_cmdq \<Rightarrow> bce_queue_cmdq" where
  "pop_result r c = c\<lparr>cmdq_results := (cmdq_results c)(r := None)\<rparr>"

text \<open>
  The part the three commands have in common: start, store the command element in the slot,
  finish, and map the device's status.
\<close>

definition cmd_run :: "addr \<Rightarrow> cmd_env \<Rightarrow> sq_element \<Rightarrow> bce_queue_cmdq
    \<Rightarrow> int \<times> (int \<times> u32) list \<times> bce_queue_cmdq" where
  "cmd_run r env cmd c =
     (case bce_cmd_start r env c of
        (None, c1) \<Rightarrow> (- ETIMEDOUT, [], pop_result r c1)
      | (Some p, c1) \<Rightarrow>
          let (st, mmio, c2) = bce_cmd_finish r env (c1\<lparr>cmdq_sq := sq_store p cmd (cmdq_sq c1)\<rparr>)
          in (if st \<noteq> 0 then st else if result_status r c2 \<noteq> 0 then - EIO else 0,
              mmio, pop_result r c2))"

text \<open>\<open>sizeof(cmd->name)\<close>; a name is its bytes without the final NUL, \<open>None\<close> for NULL.\<close>

abbreviation CMD_NAME_SIZE :: nat where "CMD_NAME_SIZE \<equiv> 0x20"

definition register_cmd :: "bce_queue_memcfg \<Rightarrow> u8 list option \<Rightarrow> u16 \<Rightarrow>
    bce_cmdq_register_memory_queue_cmd" where
  "register_cmd cfg name flags =
     (let name_len = (case name of Some n \<Rightarrow> min (length n) CMD_NAME_SIZE | None \<Rightarrow> 0);
          bytes = (case name of Some n \<Rightarrow> take name_len n | None \<Rightarrow> [])
      in \<lparr>rc_cmd = BCE_CMD_REGISTER_MEMORY_QUEUE, rc_flags = flags, rc_qid = mc_qid cfg,
          rc_el_count = mc_el_count cfg, rc_vector_or_cq = mc_vector_or_cq cfg,
          rc_name_len = of_nat name_len,
          rc_name = bytes @ replicate (CMD_NAME_SIZE - length bytes) 0,
          rc_addr = mc_addr cfg, rc_length = mc_length cfg\<rparr>)"

definition bce_cmd_register_queue :: "addr \<Rightarrow> cmd_env \<Rightarrow> bce_queue_memcfg \<Rightarrow> u8 list option \<Rightarrow> u16
    \<Rightarrow> bce_queue_cmdq \<Rightarrow> int \<times> (int \<times> u32) list \<times> bce_queue_cmdq" where
  "bce_cmd_register_queue r env cfg name flags c =
     cmd_run r env (El_register (register_cmd cfg name flags)) c"

definition bce_cmd_unregister_memory_queue :: "addr \<Rightarrow> cmd_env \<Rightarrow> u16
    \<Rightarrow> bce_queue_cmdq \<Rightarrow> int \<times> (int \<times> u32) list \<times> bce_queue_cmdq" where
  "bce_cmd_unregister_memory_queue r env qid c =
     cmd_run r env (El_simple
       \<lparr>sc_cmd = BCE_CMD_UNREGISTER_MEMORY_QUEUE, sc_flags = 0, sc_qid = qid\<rparr>) c"

definition bce_cmd_flush_memory_queue :: "addr \<Rightarrow> cmd_env \<Rightarrow> u16
    \<Rightarrow> bce_queue_cmdq \<Rightarrow> int \<times> (int \<times> u32) list \<times> bce_queue_cmdq" where
  "bce_cmd_flush_memory_queue r env qid c =
     cmd_run r env (El_simple
       \<lparr>sc_cmd = BCE_CMD_FLUSH_MEMORY_QUEUE, sc_flags = 0, sc_qid = qid\<rparr>) c"

section \<open>Interleavings\<close>

text \<open>
  The command queue under any interleaving of callers, the DMA interrupt and the completion
  handler. \<open>sy_spec\<close> is the abstract state of the queue object, \<open>sy_expired\<close> the callers
  whose wait timed out and that have not cleaned up yet. A step is what the code does
  between two points where another context can run.
\<close>

record cmdq_sys =
  sy_cmdq :: bce_queue_cmdq
  sy_spec :: sq_spec
  sy_expired :: "addr set"

definition spec_drained :: "sq_spec \<Rightarrow> sq_spec" where
  "spec_drained s = s\<lparr>sp_completions := [],
     sp_inflight := drop (length (sp_completions s)) (sp_inflight s)\<rparr>"

inductive cmdq_step :: "cmdq_sys \<Rightarrow> cmdq_sys \<Rightarrow> bool" where
  cs_reserve: "bce_reserve_submission t [] (cmdq_sq (sy_cmdq s)) = (0, t', sq) \<Longrightarrow>
     cmdq_step s (s\<lparr>sy_cmdq := (sy_cmdq s)\<lparr>cmdq_sq := sq\<rparr>,
       sy_spec := (sy_spec s)\<lparr>sp_reserved := Suc (sp_reserved (sy_spec s))\<rparr>\<rparr>)"
| cs_start: "0 < sp_reserved (sy_spec s) \<Longrightarrow> cmdq_results (sy_cmdq s) r = None \<Longrightarrow>
     cmd_take_slot r ((sy_cmdq s)\<lparr>cmdq_results :=
       (cmdq_results (sy_cmdq s))(r \<mapsto> junk\<lparr>re_done := False\<rparr>)\<rparr>) = (p, c) \<Longrightarrow>
     cmdq_step s (s\<lparr>sy_cmdq := c\<lparr>cmdq_sq := sq_store p el (cmdq_sq c)\<rparr>,
       sy_spec := (sy_spec s)\<lparr>sp_reserved := sp_reserved (sy_spec s) - 1,
         sp_inflight := sp_inflight (sy_spec s) @ [el]\<rparr>\<rparr>)"
| cs_irq: "sp_handled (sy_spec s) + length (sp_completions (sy_spec s))
       < length (sp_inflight (sy_spec s)) \<Longrightarrow>
     ucast (ce_completion_index e) = sq_completion_tail (cmdq_sq (sy_cmdq s)) \<Longrightarrow>
     cmdq_step s (s\<lparr>sy_cmdq := (sy_cmdq s)\<lparr>cmdq_sq := sq_push_completion e (cmdq_sq (sy_cmdq s))\<rparr>,
       sy_spec := (sy_spec s)\<lparr>sp_completions := sp_completions (sy_spec s) @
         [\<lparr>cd_status = ucast (ce_status e), cd_data_size = ce_data_size e,
           cd_result = ce_result e\<rparr>]\<rparr>\<rparr>)"
| cs_handler: "bce_cmdq_completion (sy_cmdq s) = Some c \<Longrightarrow>
     cmdq_step s (s\<lparr>sy_cmdq := c, sy_spec := spec_drained (sy_spec s)\<rparr>)"
| cs_return: "result_done r (sy_cmdq s) \<Longrightarrow> r \<notin> sy_expired s \<Longrightarrow>
     cmdq_step s (s\<lparr>sy_cmdq := pop_result r (sy_cmdq s)\<rparr>)"
| cs_expire: "cmdq_results (sy_cmdq s) r = Some el \<Longrightarrow> \<not> re_done el \<Longrightarrow>
     cmdq_step s (s\<lparr>sy_expired := insert r (sy_expired s)\<rparr>)"
| cs_clear: "r \<in> sy_expired s \<Longrightarrow>
     cmdq_step s (s\<lparr>sy_cmdq := pop_result r (cmd_clear_slot r (sy_cmdq s)),
       sy_expired := sy_expired s - {r}\<rparr>)"

inductive cmdq_reachable :: "cmdq_sys \<Rightarrow> bool" where
  cr_alloc: "bce_alloc_cmdq qid el_count self True (True, Some dma, True) True = Some c \<Longrightarrow>
     1 < unat el_count \<Longrightarrow> unat el_count < 2 ^ 26 \<Longrightarrow>
     cmdq_reachable \<lparr>sy_cmdq = c, sy_spec = empty_spec, sy_expired = {}\<rparr>"
| cr_step: "cmdq_reachable s \<Longrightarrow> cmdq_step s t \<Longrightarrow> cmdq_reachable t"

text \<open>
  The table and the stacks agree: every registered pointer is a live, unfinished result
  element that knows its slot.
\<close>

definition tres_ok :: "bce_queue_cmdq \<Rightarrow> bool" where
  "tres_ok c \<longleftrightarrow> length (cmdq_tres c) = sq_size (cmdq_sq c)
     \<and> (\<forall>i < length (cmdq_tres c). \<forall>r. cmdq_tres c ! i = Some r \<longrightarrow>
          (\<exists>el. cmdq_results c r = Some el \<and> unat (re_slot el) = i \<and> \<not> re_done el))"

section \<open>The completion handler\<close>

interpretation cmdq_drain: ring_drainer sq_refines sq_capacity sq_try_reserve sq_post
  bce_next_completion bce_notify_submission_complete cmdq_sq cmdq_next cmdq_complete_one
proof unfold_locales
  fix c :: bce_queue_cmdq and q x
  show "bce_next_completion (cmdq_sq c) = (None, q) \<Longrightarrow> cmdq_next c = (None, c)"
    by (auto simp: cmdq_next_def bce_next_completion_def split: if_splits)
  show "bce_next_completion (cmdq_sq c) = (Some x, q)
      \<Longrightarrow> \<exists>c'. cmdq_next c = (Some x, c') \<and> cmdq_sq c' = q"
    by (auto simp: cmdq_next_def)
  show "cmdq_sq (cmdq_complete_one x c) = bce_notify_submission_complete (cmdq_sq c)"
    by (simp add: cmdq_complete_one_def Let_def)
qed

lemma cmdq_completion_drains:
  assumes "sq_refines s (cmdq_sq c)"
  shows "\<exists>c'. bce_cmdq_completion c = Some c' \<and> sq_refines (spec_drained s) (cmdq_sq c')
    \<and> sq_size (cmdq_sq c') = sq_size (cmdq_sq c)"
proof -
  obtain c' where c': "bce_cmdq_completion c = Some c'" "sq_refines (spec_drained s) (cmdq_sq c')"
    "sq_capacity (cmdq_sq c') = sq_capacity (cmdq_sq c)"
    using cmdq_drain.drains [OF assms] by (auto simp: bce_cmdq_completion_def spec_drained_def)
  moreover have "1 < sq_size (cmdq_sq c)" "1 < sq_size (cmdq_sq c')"
    using assms c'(2) by (auto simp: sq_refines_def sq_shape_def)
  ultimately show ?thesis by (auto simp: sq_capacity_def)
qed

lemma sq_slot_0: "sq_head q < sq_el_count q \<Longrightarrow> sq_slot q 0 = unat (sq_head q)"
  by (simp add: sq_slot_def word_less_nat_alt)

lemma tres_okD:
  assumes "tres_ok c" and "i < sq_size (cmdq_sq c)" and "cmdq_tres c ! i = Some r"
  shows "\<exists>el. cmdq_results c r = Some el \<and> unat (re_slot el) = i \<and> \<not> re_done el"
  using assms unfolding tres_ok_def by simp

lemma tres_unique:
  assumes "tres_ok c" and "i < sq_size (cmdq_sq c)" and "j < sq_size (cmdq_sq c)"
    and "cmdq_tres c ! i = Some r" and "cmdq_tres c ! j = Some r"
  shows "i = j"
  using tres_okD [OF assms(1,2,4)] tres_okD [OF assms(1,3,5)] by (metis option.inject)

text \<open>Removing pointers from the table, and elements no pointer names, keeps it consistent.\<close>

lemma tres_ok_shrink:
  assumes "tres_ok c" and "length tres = length (cmdq_tres c)"
    and "sq_el_count sq = sq_el_count (cmdq_sq c)"
    and "\<And>i r. i < length tres \<Longrightarrow> tres ! i = Some r \<Longrightarrow>
           cmdq_tres c ! i = Some r \<and> results r = cmdq_results c r"
  shows "tres_ok (c\<lparr>cmdq_sq := sq, cmdq_tres := tres, cmdq_results := results\<rparr>)"
  using assms unfolding tres_ok_def by simp

lemma tres_ok_register:
  assumes "tres_ok c" and "cmdq_results c r = None" and "t < sq_size (cmdq_sq c)"
    and "unat (re_slot el) = t" and "\<not> re_done el"
    and "sq_el_count sq = sq_el_count (cmdq_sq c)"
  shows "tres_ok (c\<lparr>cmdq_sq := sq, cmdq_tres := (cmdq_tres c)[t := Some r],
    cmdq_results := (cmdq_results c)(r \<mapsto> el)\<rparr>)"
proof -
  have len: "length (cmdq_tres c) = sq_size (cmdq_sq c)"
    using assms(1) by (simp add: tres_ok_def)
  have "\<exists>el'. ((cmdq_results c)(r \<mapsto> el)) r' = Some el' \<and> unat (re_slot el') = i \<and> \<not> re_done el'"
    if i: "i < sq_size (cmdq_sq c)" and reg: "(cmdq_tres c)[t := Some r] ! i = Some r'" for i r'
  proof (cases "i = t")
    case True
    with reg assms(3-5) len show ?thesis by auto
  next
    case False
    with reg have "cmdq_tres c ! i = Some r'" by simp
    then obtain el' where "cmdq_results c r' = Some el'" "unat (re_slot el') = i" "\<not> re_done el'"
      using tres_okD [OF assms(1) i] by blast
    with assms(2) show ?thesis by auto
  qed
  with assms(6) len show ?thesis by (simp add: tres_ok_def)
qed

lemma done_unregistered:
  assumes "tres_ok c" and "result_done r c" and "i < length (cmdq_tres c)"
  shows "cmdq_tres c ! i \<noteq> Some r"
proof
  assume reg: "cmdq_tres c ! i = Some r"
  have "i < sq_size (cmdq_sq c)" using assms(1,3) by (simp add: tres_ok_def)
  from tres_okD [OF assms(1) this reg] assms(2) show False
    by (auto simp: result_done_def)
qed

lemma complete_one_step:
  assumes "sq_refines s (cmdq_sq c)" and "sp_completions s = x # xs" and "sp_handled s = 0"
    and "tres_ok c"
  defines "h \<equiv> sq_slot (cmdq_sq c) 0"
  shows "\<exists>c1. cmdq_next c = (Some x, c1)
    \<and> sq_refines (s\<lparr>sp_completions := xs, sp_inflight := tl (sp_inflight s)\<rparr>)
        (cmdq_sq (cmdq_complete_one x c1))
    \<and> cmdq_tres (cmdq_complete_one x c1) = (cmdq_tres c)[h := None]
    \<and> cmdq_results (cmdq_complete_one x c1)
        = (case cmdq_tres c ! h of Some r \<Rightarrow> complete_result x r (cmdq_results c)
           | None \<Rightarrow> cmdq_results c)
    \<and> sq_el_count (cmdq_sq (cmdq_complete_one x c1)) = sq_el_count (cmdq_sq c)
    \<and> (\<forall>i. sq_slot (cmdq_sq (cmdq_complete_one x c1)) i = sq_slot (cmdq_sq c) (Suc i))"
proof -
  obtain q where q: "bce_next_completion (cmdq_sq c) = (Some x, q)"
    "sq_refines (s\<lparr>sp_completions := xs, sp_inflight := tl (sp_inflight s)\<rparr>)
       (bce_notify_submission_complete q)"
    using sq_ring.take_retire [OF assms(1,2)] by blast
  have same: "sq_head q = sq_head (cmdq_sq c)" "sq_el_count q = sq_el_count (cmdq_sq c)"
    using q(1) by (auto simp: bce_next_completion_def split: if_splits)
  have head: "sq_head (cmdq_sq c) < sq_el_count (cmdq_sq c)"
    using assms(1) by (simp add: sq_refines_def sq_shape_def)
  have slots: "sq_slot (bce_notify_submission_complete q) i = sq_slot (cmdq_sq c) (Suc i)" for i
    using sq_slot_notify [of q i] head same by (simp add: sq_slot_cong [OF same])
  have "sq_el_count (bce_notify_submission_complete q) = sq_el_count (cmdq_sq c)"
    using same by (simp add: bce_notify_submission_complete_def)
  then show ?thesis
    using q slots same(1) sq_slot_0 [OF head]
    by (simp add: cmdq_next_def cmdq_complete_one_def Let_def h_def split: option.split)
qed

lemma complete_one_tres_ok:
  assumes "tres_ok c" and "h < sq_size (cmdq_sq c)"
    and "cmdq_tres c' = (cmdq_tres c)[h := None]"
    and "cmdq_results c' = (case cmdq_tres c ! h of
        Some r \<Rightarrow> complete_result x r (cmdq_results c) | None \<Rightarrow> cmdq_results c)"
    and "sq_el_count (cmdq_sq c') = sq_el_count (cmdq_sq c)"
  shows "tres_ok c'"
proof -
  have "tres_ok (c\<lparr>cmdq_sq := cmdq_sq c', cmdq_tres := cmdq_tres c',
      cmdq_results := cmdq_results c'\<rparr>)"
  proof (rule tres_ok_shrink [OF assms(1)])
    fix i r assume i: "i < length (cmdq_tres c')" "cmdq_tres c' ! i = Some r"
    have len: "length (cmdq_tres c) = sq_size (cmdq_sq c)"
      using assms(1) by (simp add: tres_ok_def)
    have ih: "i \<noteq> h" and reg: "cmdq_tres c ! i = Some r" and il: "i < sq_size (cmdq_sq c)"
      using i assms(2,3) len by (auto simp: nth_list_update split: if_splits)
    have "cmdq_tres c ! h \<noteq> Some r"
      using tres_unique [OF assms(1) il assms(2) reg] ih by blast
    then have "cmdq_results c' r = cmdq_results c r"
      by (auto simp: assms(4) complete_result_def split: option.splits)
    with reg show "cmdq_tres c ! i = Some r \<and> cmdq_results c' r = cmdq_results c r" ..
  qed (use assms(3,5) in simp_all)
  then show ?thesis using assms(5) by (simp add: tres_ok_def)
qed

text \<open>What the handler leaves in the table and on the stacks, by slots counted from the head.\<close>

definition handler_effect :: "bce_sq_completion_data list \<Rightarrow> bce_queue_cmdq \<Rightarrow> bce_queue_cmdq \<Rightarrow> bool"
  where
  "handler_effect cs c c' \<longleftrightarrow>
     (\<forall>j < sq_size (cmdq_sq c). cmdq_tres c' ! j =
        (if \<exists>i < length cs. sq_slot (cmdq_sq c) i = j then None else cmdq_tres c ! j))
     \<and> (\<forall>r. (\<forall>i < length cs. cmdq_tres c ! sq_slot (cmdq_sq c) i \<noteq> Some r)
          \<longrightarrow> cmdq_results c' r = cmdq_results c r)
     \<and> (\<forall>i < length cs. \<forall>r. cmdq_tres c ! sq_slot (cmdq_sq c) i = Some r \<longrightarrow>
          (\<exists>el. cmdq_results c' r = Some el \<and> re_done el
             \<and> re_status el = cd_status (cs ! i) \<and> re_result el = cd_result (cs ! i)))"

lemma handler_effect_Nil: "handler_effect [] c c"
  by (simp add: handler_effect_def)

lemma handler_effect_Cons:
  assumes "tres_ok c" and "length xs < sq_size (cmdq_sq c) - 1" and "0 < sq_size (cmdq_sq c)"
    and tres: "cmdq_tres c2 = (cmdq_tres c)[sq_slot (cmdq_sq c) 0 := None]"
    and results: "cmdq_results c2 = (case cmdq_tres c ! sq_slot (cmdq_sq c) 0 of
        Some r \<Rightarrow> complete_result x r (cmdq_results c) | None \<Rightarrow> cmdq_results c)"
    and cnt: "sq_el_count (cmdq_sq c2) = sq_el_count (cmdq_sq c)"
    and slots: "\<And>i. sq_slot (cmdq_sq c2) i = sq_slot (cmdq_sq c) (Suc i)"
    and eff: "handler_effect xs c2 c'"
  shows "handler_effect (x # xs) c c'"
proof -
  let ?q = "cmdq_sq c" let ?h = "sq_slot ?q 0"
  have len: "length (cmdq_tres c) = sq_size ?q" using assms(1) by (simp add: tres_ok_def)
  have h: "?h < sq_size ?q" by (rule sq_slot_less [OF assms(3)])
  have other: "sq_slot ?q (Suc i) \<noteq> ?h" if "i < length xs" for i
  proof -
    have "Suc i < sq_size ?q" using that assms(2) by linarith
    with sq_slot_inj [of ?q "Suc i" 0] assms(3) show ?thesis by auto
  qed
  have t2: "cmdq_tres c2 ! j = (if j = ?h then None else cmdq_tres c ! j)" if "j < sq_size ?q" for j
    using that len by (simp add: tres nth_list_update)
  have t2s: "cmdq_tres c2 ! sq_slot ?q (Suc i) = cmdq_tres c ! sq_slot ?q (Suc i)"
    if "i < length xs" for i
    using t2 [OF sq_slot_less [OF assms(3)]] other [OF that] by simp
  have tbl: "cmdq_tres c' ! j = (if \<exists>i < length (x # xs). sq_slot ?q i = j then None
      else cmdq_tres c ! j)" if "j < sq_size ?q" for j
  proof -
    have "cmdq_tres c' ! j = (if \<exists>i < length xs. sq_slot ?q (Suc i) = j then None
        else cmdq_tres c2 ! j)"
      using eff that cnt slots by (simp add: handler_effect_def)
    moreover have "(\<exists>i < length (x # xs). sq_slot ?q i = j)
        \<longleftrightarrow> ?h = j \<or> (\<exists>i < length xs. sq_slot ?q (Suc i) = j)"
      by (simp add: Ex_less_Suc2)
    ultimately show ?thesis using t2 [OF that] by argo
  qed
  have keep: "cmdq_results c' r = cmdq_results c2 r"
    if "\<forall>i < length xs. cmdq_tres c ! sq_slot ?q (Suc i) \<noteq> Some r" for r
    using eff that t2s slots by (simp add: handler_effect_def)
  have rest: "cmdq_results c' r = cmdq_results c r"
    if "\<forall>i < length (x # xs). cmdq_tres c ! sq_slot ?q i \<noteq> Some r" for r
  proof -
    have "cmdq_tres c ! ?h \<noteq> Some r"
      and "\<forall>i < length xs. cmdq_tres c ! sq_slot ?q (Suc i) \<noteq> Some r"
      using that by (simp_all add: All_less_Suc2)
    with keep [of r] show ?thesis
      by (simp add: results complete_result_def split: option.split)
  qed
  have done0: "\<exists>el. cmdq_results c' r = Some el \<and> re_done el
      \<and> re_status el = cd_status x \<and> re_result el = cd_result x"
    if "cmdq_tres c ! ?h = Some r" for r
  proof -
    have "cmdq_tres c ! sq_slot ?q (Suc i) \<noteq> Some r" if "i < length xs" for i
    proof
      assume "cmdq_tres c ! sq_slot ?q (Suc i) = Some r"
      with other [OF that] show False
        using tres_unique [OF assms(1) sq_slot_less [OF assms(3)] h _ \<open>cmdq_tres c ! ?h = Some r\<close>]
        by simp
    qed
    then have "cmdq_results c' r = cmdq_results c2 r" by (intro keep) simp
    moreover obtain el where "cmdq_results c r = Some el"
      using tres_okD [OF assms(1) h \<open>cmdq_tres c ! ?h = Some r\<close>] by blast
    ultimately show ?thesis using that by (simp add: results complete_result_def)
  qed
  have doneS: "\<exists>el. cmdq_results c' r = Some el \<and> re_done el
      \<and> re_status el = cd_status (xs ! i) \<and> re_result el = cd_result (xs ! i)"
    if "i < length xs" "cmdq_tres c ! sq_slot ?q (Suc i) = Some r" for i r
    using eff that t2s [OF that(1)] slots by (simp add: handler_effect_def)
  have all: "\<exists>el. cmdq_results c' r = Some el \<and> re_done el
      \<and> re_status el = cd_status ((x # xs) ! i) \<and> re_result el = cd_result ((x # xs) ! i)"
    if "i < length (x # xs)" "cmdq_tres c ! sq_slot ?q i = Some r" for i r
    using that done0 doneS by (cases i) simp_all
  show ?thesis
    unfolding handler_effect_def
    by (intro conjI allI impI) (rule tbl, assumption, rule rest, assumption, rule all)
qed

lemma cmdq_completion_effect:
  assumes "sq_refines s (cmdq_sq c)" and "sp_handled s = 0" and "tres_ok c"
  shows "\<exists>c'. bce_cmdq_completion c = Some c' \<and> tres_ok c'
    \<and> sq_refines (spec_drained s) (cmdq_sq c') \<and> sq_el_count (cmdq_sq c') = sq_el_count (cmdq_sq c)
    \<and> (\<forall>i. sq_slot (cmdq_sq c') i = sq_slot (cmdq_sq c) (i + length (sp_completions s)))
    \<and> handler_effect (sp_completions s) c c'"
  using assms
proof (induction "sp_completions s" arbitrary: s c)
  case Nil
  have "bce_cmdq_completion c = Some c"
    using sq_refines_take(1) [OF Nil.prems(1)] Nil.hyps
    by (simp add: bce_cmdq_completion_def completion_loop_None cmdq_next_def)
  moreover have "spec_drained s = s" using Nil.hyps by (cases s) (simp add: spec_drained_def)
  ultimately show ?case
    using Nil.prems Nil.hyps [symmetric] by (simp add: handler_effect_Nil)
next
  case (Cons x xs)
  obtain c1 where c1: "cmdq_next c = (Some x, c1)"
    and step: "sq_refines (s\<lparr>sp_completions := xs, sp_inflight := tl (sp_inflight s)\<rparr>)
        (cmdq_sq (cmdq_complete_one x c1))"
      "cmdq_tres (cmdq_complete_one x c1) = (cmdq_tres c)[sq_slot (cmdq_sq c) 0 := None]"
      "cmdq_results (cmdq_complete_one x c1) = (case cmdq_tres c ! sq_slot (cmdq_sq c) 0 of
          Some r \<Rightarrow> complete_result x r (cmdq_results c) | None \<Rightarrow> cmdq_results c)"
      "sq_el_count (cmdq_sq (cmdq_complete_one x c1)) = sq_el_count (cmdq_sq c)"
      "\<And>i. sq_slot (cmdq_sq (cmdq_complete_one x c1)) i = sq_slot (cmdq_sq c) (Suc i)"
    using complete_one_step [OF Cons.prems(1) Cons.hyps(2) [symmetric] Cons.prems(2,3)] by blast
  let ?c2 = "cmdq_complete_one x c1"
  have pos: "0 < sq_size (cmdq_sq c)" and few: "length xs < sq_size (cmdq_sq c) - 1"
    using Cons.prems(1) Cons.hyps(2) [symmetric] by (auto simp: sq_refines_def)
  have ok: "tres_ok ?c2"
    by (rule complete_one_tres_ok [OF Cons.prems(3) sq_slot_less [OF pos] step(2-4)])
  obtain c' where c': "bce_cmdq_completion ?c2 = Some c'" "tres_ok c'"
      "sq_refines (spec_drained (s\<lparr>sp_completions := xs, sp_inflight := tl (sp_inflight s)\<rparr>))
         (cmdq_sq c')"
      "sq_el_count (cmdq_sq c') = sq_el_count (cmdq_sq ?c2)"
      "\<And>i. sq_slot (cmdq_sq c') i = sq_slot (cmdq_sq ?c2) (i + length xs)"
      "handler_effect xs ?c2 c'"
    using Cons.hyps(1) [OF _ step(1) _ ok] Cons.prems(2) by auto
  have "bce_cmdq_completion c = Some c'"
    using c'(1) c1 by (simp add: bce_cmdq_completion_def completion_loop_Some)
  moreover have "spec_drained (s\<lparr>sp_completions := xs, sp_inflight := tl (sp_inflight s)\<rparr>)
      = spec_drained s"
    using Cons.hyps(2) [symmetric] by (simp add: spec_drained_def drop_Suc)
  moreover have "handler_effect (x # xs) c c'"
    by (rule handler_effect_Cons [OF Cons.prems(3) few pos step(2-5) c'(6)])
  ultimately show ?case
    using c'(2-5) step(4,5) Cons.hyps(2) [symmetric] by auto
qed

section \<open>Every interleaving\<close>

definition cmdq_inv :: "cmdq_sys \<Rightarrow> bool" where
  "cmdq_inv s \<longleftrightarrow> sq_refines (sy_spec s) (cmdq_sq (sy_cmdq s)) \<and> sp_handled (sy_spec s) = 0
     \<and> tres_ok (sy_cmdq s)
     \<and> (\<forall>j < sq_size (cmdq_sq (sy_cmdq s)). cmdq_tres (sy_cmdq s) ! j \<noteq> None \<longrightarrow>
          (\<exists>k < length (sp_inflight (sy_spec s)). j = sq_slot (cmdq_sq (sy_cmdq s)) k))"

lemma cmdq_invI:
  assumes "sq_refines sp (cmdq_sq c)" and "sp_handled sp = 0" and "tres_ok c"
    and "\<And>j. j < sq_size (cmdq_sq c) \<Longrightarrow> cmdq_tres c ! j \<noteq> None \<Longrightarrow>
           \<exists>k < length (sp_inflight sp). j = sq_slot (cmdq_sq c) k"
  shows "cmdq_inv \<lparr>sy_cmdq = c, sy_spec = sp, sy_expired = ex\<rparr>"
  using assms by (simp add: cmdq_inv_def)

lemma cmdq_invD:
  assumes "cmdq_inv s"
  shows "sq_refines (sy_spec s) (cmdq_sq (sy_cmdq s))" "sp_handled (sy_spec s) = 0"
    "tres_ok (sy_cmdq s)"
    "\<And>j. j < sq_size (cmdq_sq (sy_cmdq s)) \<Longrightarrow> cmdq_tres (sy_cmdq s) ! j \<noteq> None \<Longrightarrow>
       \<exists>k < length (sp_inflight (sy_spec s)). j = sq_slot (cmdq_sq (sy_cmdq s)) k"
  using assms by (auto simp: cmdq_inv_def)

text \<open>Steps that only touch the counter or the completion ring of the queue.\<close>

lemma cmdq_inv_sq:
  assumes "cmdq_inv s" and "sq_refines sp q" and "sp_handled sp = 0"
    and "sq_head q = sq_head (cmdq_sq (sy_cmdq s))"
    and "sq_el_count q = sq_el_count (cmdq_sq (sy_cmdq s))"
    and "sp_inflight sp = sp_inflight (sy_spec s)"
  shows "cmdq_inv (s\<lparr>sy_cmdq := (sy_cmdq s)\<lparr>cmdq_sq := q\<rparr>, sy_spec := sp\<rparr>)"
proof -
  have "sq_slot q i = sq_slot (cmdq_sq (sy_cmdq s)) i" for i
    by (rule sq_slot_cong [OF assms(4,5)])
  with assms show ?thesis by (simp add: cmdq_inv_def tres_ok_def)
qed

text \<open>Steps that only drop pointers from the table and result elements no pointer names.\<close>

lemma cmdq_inv_drop:
  assumes "cmdq_inv s" and "length tres = length (cmdq_tres (sy_cmdq s))"
    and "\<And>i r. i < length tres \<Longrightarrow> tres ! i = Some r \<Longrightarrow>
           cmdq_tres (sy_cmdq s) ! i = Some r \<and> results r = cmdq_results (sy_cmdq s) r"
  shows "cmdq_inv (s\<lparr>sy_cmdq := (sy_cmdq s)\<lparr>cmdq_tres := tres, cmdq_results := results\<rparr>,
           sy_expired := ex\<rparr>)"
proof -
  have "tres_ok ((sy_cmdq s)\<lparr>cmdq_sq := cmdq_sq (sy_cmdq s), cmdq_tres := tres,
      cmdq_results := results\<rparr>)"
    by (rule tres_ok_shrink [OF cmdq_invD(3) [OF assms(1)] assms(2)]) (use assms(3) in auto)
  moreover have "length tres = sq_size (cmdq_sq (sy_cmdq s))"
    using assms(2) cmdq_invD(3) [OF assms(1)] by (simp add: tres_ok_def)
  ultimately show ?thesis
    using cmdq_invD [OF assms(1)] assms(3) by (auto simp: cmdq_inv_def)
qed

lemma tail_slot:
  assumes "cmdq_inv s"
  shows "unat (sq_tail (cmdq_sq (sy_cmdq s)))
    = sq_slot (cmdq_sq (sy_cmdq s)) (length (sp_inflight (sy_spec s)))"
  using cmdq_invD(1) [OF assms] by (simp add: sq_refines_def)

lemma tail_unregistered:
  assumes "cmdq_inv s"
  shows "cmdq_tres (sy_cmdq s) ! unat (sq_tail (cmdq_sq (sy_cmdq s))) = None"
proof (rule ccontr)
  let ?q = "cmdq_sq (sy_cmdq s)" let ?n = "length (sp_inflight (sy_spec s))"
  have bounds: "sq_tail ?q < sq_el_count ?q" "?n < sq_size ?q"
    using cmdq_invD(1) [OF assms] by (auto simp: sq_refines_def sq_shape_def)
  assume "\<not> ?thesis"
  then obtain k where "k < ?n" "unat (sq_tail ?q) = sq_slot ?q k"
    using cmdq_invD(4) [OF assms] bounds(1) by (auto simp: word_less_nat_alt)
  with tail_slot [OF assms] sq_slot_inj [of ?q k ?n] bounds(2) show False by simp
qed

lemma start_step_unfold:
  assumes "cmd_take_slot r (c\<lparr>cmdq_results := (cmdq_results c)(r \<mapsto> el0)\<rparr>) = (p, c')"
  shows "c'\<lparr>cmdq_sq := sq_store p el (cmdq_sq c')\<rparr>
    = c\<lparr>cmdq_sq := sq_post el (cmdq_sq c),
        cmdq_tres := (cmdq_tres c)[unat (sq_tail (cmdq_sq c)) := Some r],
        cmdq_results := (cmdq_results c)(r \<mapsto> el0\<lparr>re_slot := sq_tail (cmdq_sq c)\<rparr>)\<rparr>"
  using assms
  by (auto simp: cmd_take_slot_def set_result_def bce_next_submission_def sq_post_def Let_def)

lemma cmdq_inv_start:
  assumes inv: "cmdq_inv s" and "0 < sp_reserved (sy_spec s)"
    and fresh: "cmdq_results (sy_cmdq s) r = None"
    and take_slot: "cmd_take_slot r ((sy_cmdq s)\<lparr>cmdq_results :=
       (cmdq_results (sy_cmdq s))(r \<mapsto> junk\<lparr>re_done := False\<rparr>)\<rparr>) = (p, c)"
  shows "cmdq_inv (s\<lparr>sy_cmdq := c\<lparr>cmdq_sq := sq_store p el (cmdq_sq c)\<rparr>,
       sy_spec := (sy_spec s)\<lparr>sp_reserved := sp_reserved (sy_spec s) - 1,
         sp_inflight := sp_inflight (sy_spec s) @ [el]\<rparr>\<rparr>)"
proof -
  let ?c = "sy_cmdq s" let ?q = "cmdq_sq ?c" let ?n = "length (sp_inflight (sy_spec s))"
  have tail: "unat (sq_tail ?q) < sq_size ?q" and len: "length (cmdq_tres ?c) = sq_size ?q"
    using cmdq_invD(1,3) [OF inv]
    by (auto simp: sq_refines_def sq_shape_def tres_ok_def word_less_nat_alt)
  have slots: "sq_slot (sq_post el ?q) i = sq_slot ?q i" for i
    by (rule sq_slot_cong) (simp_all add: sq_post_unfold)
  have cnt: "sq_el_count (sq_post el ?q) = sq_el_count ?q" by (simp add: sq_post_unfold)
  have ok: "tres_ok (?c\<lparr>cmdq_sq := sq_post el ?q,
      cmdq_tres := (cmdq_tres ?c)[unat (sq_tail ?q) := Some r],
      cmdq_results := (cmdq_results ?c)(r \<mapsto> junk\<lparr>re_done := False, re_slot := sq_tail ?q\<rparr>)\<rparr>)"
    by (rule tres_ok_register [OF cmdq_invD(3) [OF inv] fresh tail]) (simp_all add: cnt)
  have flight: "\<exists>k < Suc ?n. j = sq_slot ?q k"
    if "j < sq_size ?q" "(cmdq_tres ?c)[unat (sq_tail ?q) := Some r] ! j \<noteq> None" for j
  proof (cases "j = unat (sq_tail ?q)")
    case True
    then show ?thesis using tail_slot [OF inv] by auto
  next
    case False
    then have "cmdq_tres ?c ! j \<noteq> None" using that(2) by simp
    then obtain k where "k < ?n" "j = sq_slot ?q k" using cmdq_invD(4) [OF inv] \<open>j < sq_size ?q\<close> by auto
    then show ?thesis by (auto intro: less_SucI)
  qed
  show ?thesis
    unfolding start_step_unfold [OF take_slot] cmdq_inv_def
    using sq_refines_post [OF cmdq_invD(1) [OF inv] assms(2), of el] cmdq_invD(2) [OF inv] ok flight
    by (simp add: cnt slots)
qed

lemma cmdq_inv_handler:
  assumes inv: "cmdq_inv s" and "bce_cmdq_completion (sy_cmdq s) = Some c"
  shows "cmdq_inv (s\<lparr>sy_cmdq := c, sy_spec := spec_drained (sy_spec s)\<rparr>)"
proof -
  let ?q = "cmdq_sq (sy_cmdq s)" let ?n = "length (sp_completions (sy_spec s))"
  note eff = cmdq_completion_effect [OF cmdq_invD(1-3) [OF inv], unfolded assms(2) option.inject]
  have c: "tres_ok c" "sq_refines (spec_drained (sy_spec s)) (cmdq_sq c)"
    "sq_el_count (cmdq_sq c) = sq_el_count ?q" "\<And>i. sq_slot (cmdq_sq c) i = sq_slot ?q (i + ?n)"
    "handler_effect (sp_completions (sy_spec s)) (sy_cmdq s) c"
    using eff by auto
  have "\<exists>k < length (sp_inflight (sy_spec s)) - ?n. j = sq_slot ?q (k + ?n)"
    if "j < sq_size ?q" "cmdq_tres c ! j \<noteq> None" for j
  proof -
    have old: "cmdq_tres (sy_cmdq s) ! j \<noteq> None" and new: "\<not> (\<exists>i < ?n. sq_slot ?q i = j)"
      using c(5) that by (auto simp: handler_effect_def split: if_splits)
    obtain k where k: "k < length (sp_inflight (sy_spec s))" "j = sq_slot ?q k"
      using cmdq_invD(4) [OF inv _ old] \<open>j < sq_size ?q\<close> by auto
    with new have "?n \<le> k" by (metis not_less)
    with k show ?thesis by (intro exI [of _ "k - ?n"]) auto
  qed
  with c(1-4) cmdq_invD(2) [OF inv] show ?thesis by (simp add: cmdq_inv_def spec_drained_def)
qed

lemma cmdq_step_inv:
  assumes "cmdq_step s t" and inv: "cmdq_inv s"
  shows "cmdq_inv t"
  using assms(1)
proof (cases rule: cmdq_step.cases)
  case (cs_reserve tm t' sq)
  note res = reserve_no_wakeups [OF cs_reserve(2)]
  show ?thesis
    unfolding cs_reserve(1)
    by (rule cmdq_inv_sq [OF inv])
      (use sq_refines_reserve [OF cmdq_invD(1) [OF inv]] res cmdq_invD(2) [OF inv] in simp_all)
next
  case (cs_start r junk p c el)
  show ?thesis unfolding cs_start(1) by (rule cmdq_inv_start [OF inv cs_start(2-4)])
next
  case (cs_irq e)
  show ?thesis
    unfolding cs_irq(1)
    by (rule cmdq_inv_sq [OF inv])
      (use sq_refines_push [OF cmdq_invD(1) [OF inv] cs_irq(2,3)] cmdq_invD(2) [OF inv]
       in \<open>simp_all add: sq_push_completion_def\<close>)
next
  case (cs_handler c)
  show ?thesis unfolding cs_handler(1) by (rule cmdq_inv_handler [OF inv cs_handler(2)])
next
  case (cs_return r)
  note gone = done_unregistered [OF cmdq_invD(3) [OF inv] cs_return(2)]
  have "cmdq_inv (s\<lparr>sy_cmdq := (sy_cmdq s)\<lparr>cmdq_tres := cmdq_tres (sy_cmdq s),
      cmdq_results := (cmdq_results (sy_cmdq s))(r := None)\<rparr>, sy_expired := sy_expired s\<rparr>)"
    by (rule cmdq_inv_drop [OF inv]) (use gone in auto)
  then show ?thesis unfolding cs_return(1) pop_result_def by simp
next
  case (cs_expire r el)
  then show ?thesis using inv by (simp add: cmdq_inv_def)
next
  case (cs_clear r)
  show ?thesis
  proof (cases "cmdq_results (sy_cmdq s) r")
    case None
    with cmdq_invD(3) [OF inv] have "cmdq_inv (s\<lparr>sy_cmdq := (sy_cmdq s)\<lparr>
        cmdq_tres := cmdq_tres (sy_cmdq s),
        cmdq_results := (cmdq_results (sy_cmdq s))(r := None)\<rparr>, sy_expired := sy_expired s - {r}\<rparr>)"
      by (intro cmdq_inv_drop [OF inv]) (auto simp: fun_upd_idem)
    with None show ?thesis unfolding cs_clear(1) pop_result_def cmd_clear_slot_def by simp
  next
    case (Some el)
    let ?tres = "(cmdq_tres (sy_cmdq s))[unat (re_slot el) := None]"
    have "cmdq_inv (s\<lparr>sy_cmdq := (sy_cmdq s)\<lparr>cmdq_tres := ?tres,
        cmdq_results := (cmdq_results (sy_cmdq s))(r := None)\<rparr>, sy_expired := sy_expired s - {r}\<rparr>)"
    proof (rule cmdq_inv_drop [OF inv])
      fix i r' assume i: "i < length ?tres" "?tres ! i = Some r'"
      then have reg: "cmdq_tres (sy_cmdq s) ! i = Some r'" and ne: "i \<noteq> unat (re_slot el)"
        by (cases "i = unat (re_slot el)"; simp)+
      have "r' \<noteq> r"
        using cmdq_invD(3) [OF inv] i(1) reg ne Some by (auto simp: tres_ok_def)
      with reg show "cmdq_tres (sy_cmdq s) ! i = Some r'
          \<and> ((cmdq_results (sy_cmdq s))(r := None)) r' = cmdq_results (sy_cmdq s) r'"
        by simp
    qed simp
    with Some show ?thesis unfolding cs_clear(1) pop_result_def cmd_clear_slot_def by simp
  qed
qed

lemma cmdq_alloc_inv:
  assumes "bce_alloc_cmdq qid el_count self True (True, Some dma, True) True = Some c"
    and "1 < unat el_count" and "unat el_count < 2 ^ 26"
  shows "cmdq_inv \<lparr>sy_cmdq = c, sy_spec = empty_spec, sy_expired = {}\<rparr>"
proof -
  obtain q where q: "bce_alloc_sq qid BCE_CMD_SIZE el_count Cb_cmdq_completion self
      True (Some dma) True = Some q"
    and c: "c = \<lparr>cmdq_sq = q, cmdq_tres = replicate (unat el_count) None,
      cmdq_results = (\<lambda>_. None)\<rparr>"
    using assms(1) by (auto simp: bce_alloc_cmdq_def split: option.splits)
  have "sq_refines empty_spec q" by (rule sq_refines_alloc [OF q]) (use assms(2,3) in simp_all)
  moreover have "sq_el_count q = el_count" using q by (auto simp: bce_alloc_sq_def)
  ultimately show ?thesis
    by (auto intro!: cmdq_invI simp: c tres_ok_def empty_spec_def)
qed

lemma cmdq_reachable_inv: "cmdq_reachable s \<Longrightarrow> cmdq_inv s"
proof (induction rule: cmdq_reachable.induct)
  case (cr_alloc qid el_count self dma c)
  then show ?case by (rule cmdq_alloc_inv)
next
  case (cr_step s t)
  then show ?case by (blast intro: cmdq_step_inv)
qed

text \<open>
  Property C3. Under every interleaving of commands, timeouts, interrupts and completion
  handlers, each pointer the command queue keeps in \<open>tres\<close> names a result element that is
  still on the stack of a waiting caller, is not completed and records the slot it is stored
  in; the slot belongs to a command in flight, and the slot the next command takes holds no
  pointer. So a completion never writes to the stack of a call that has returned.
\<close>

theorem cmdq_pointers_live:
  assumes "cmdq_reachable s"
  shows "length (cmdq_tres (sy_cmdq s)) = sq_size (cmdq_sq (sy_cmdq s))
    \<and> (\<forall>i < length (cmdq_tres (sy_cmdq s)). \<forall>r. cmdq_tres (sy_cmdq s) ! i = Some r \<longrightarrow>
        (\<exists>el. cmdq_results (sy_cmdq s) r = Some el \<and> unat (re_slot el) = i \<and> \<not> re_done el)
        \<and> (\<exists>k < length (sp_inflight (sy_spec s)). i = sq_slot (cmdq_sq (sy_cmdq s)) k))
    \<and> cmdq_tres (sy_cmdq s) ! unat (sq_tail (cmdq_sq (sy_cmdq s))) = None"
proof -
  have inv: "cmdq_inv s" by (rule cmdq_reachable_inv [OF assms])
  have len: "length (cmdq_tres (sy_cmdq s)) = sq_size (cmdq_sq (sy_cmdq s))"
    using cmdq_invD(3) [OF inv] by (simp add: tres_ok_def)
  show ?thesis
    using len tres_okD [OF cmdq_invD(3) [OF inv]] cmdq_invD(4) [OF inv] tail_unregistered [OF inv]
    by simp
qed

text \<open>
  Property C4. In every reachable state the completion handler terminates, takes all
  harvested completions and gives their slots back; the \<open>i\<close>-th oldest completion is
  delivered to the caller of the \<open>i\<close>-th oldest command in flight if that caller still
  waits, every other result element is left alone, and exactly the slots of the completed
  commands are unregistered.
\<close>

theorem cmdq_completion_delivers:
  assumes "cmdq_reachable s"
  shows "\<exists>c. bce_cmdq_completion (sy_cmdq s) = Some c
    \<and> sq_refines (spec_drained (sy_spec s)) (cmdq_sq c)
    \<and> handler_effect (sp_completions (sy_spec s)) (sy_cmdq s) c"
  using cmdq_completion_effect [OF cmdq_invD(1-3) [OF cmdq_reachable_inv [OF assms]]] by blast

section \<open>One command\<close>

text \<open>
  The stages of a command on a queue with nothing in flight, and what the wait does when the
  device completes the command with the entry \<open>e\<close> and the handler runs.
\<close>

definition device_completes :: "bce_qe_completion \<Rightarrow> bce_queue_cmdq \<Rightarrow> bce_queue_cmdq" where
  "device_completes e c =
     (case bce_cmdq_completion (c\<lparr>cmdq_sq := sq_push_completion e (cmdq_sq c)\<rparr>) of
        Some c' \<Rightarrow> c' | None \<Rightarrow> c)"

definition cmdq_idle :: "bce_queue_cmdq \<Rightarrow> bool" where
  "cmdq_idle c \<longleftrightarrow> cmdq_inv \<lparr>sy_cmdq = c, sy_spec = empty_spec, sy_expired = {}\<rparr>"

text \<open>The queue after \<open>bce_cmd_start\<close> and the store of the command element.\<close>

definition cmd_posted :: "addr \<Rightarrow> bce_queue_cmdq_result_el \<Rightarrow> sq_element \<Rightarrow> bce_queue_cmdq \<Rightarrow> bce_queue_cmdq"
  where
  "cmd_posted r junk cmd c =
     c\<lparr>cmdq_sq := sq_post cmd ((cmdq_sq c)\<lparr>sq_available_commands :=
          sq_available_commands (cmdq_sq c) - 1\<rparr>),
       cmdq_tres := (cmdq_tres c)[unat (sq_tail (cmdq_sq c)) := Some r],
       cmdq_results := (cmdq_results c)(r \<mapsto>
          junk\<lparr>re_done := False, re_slot := sq_tail (cmdq_sq c)\<rparr>)\<rparr>"

lemma cmd_start_posted:
  assumes "0 < sq_available_commands (cmdq_sq c)" and "cw_lock env = (\<lambda>c. c)"
  shows "\<exists>p c1. bce_cmd_start r env c = (Some p, c1)
    \<and> c1\<lparr>cmdq_sq := sq_store p cmd (cmdq_sq c1)\<rparr> = cmd_posted r (cw_junk env) cmd c"
  using assms
  by (simp add: bce_cmd_start_def reserve_available cmd_take_slot_def set_result_def
      bce_next_submission_def cmd_posted_def sq_post_def Let_def bce_sq_element_def)

lemma cmd_posted_inv:
  assumes "cmdq_idle c" and "cmdq_results c r = None"
  shows "cmdq_inv \<lparr>sy_cmdq = cmd_posted r junk cmd c,
    sy_spec = empty_spec\<lparr>sp_inflight := [cmd]\<rparr>, sy_expired = {}\<rparr>"
    and "0 < sq_available_commands (cmdq_sq c)"
proof -
  let ?s0 = "\<lparr>sy_cmdq = c, sy_spec = empty_spec, sy_expired = {}\<rparr>"
  let ?q = "(cmdq_sq c)\<lparr>sq_available_commands := sq_available_commands (cmdq_sq c) - 1\<rparr>"
  have inv: "cmdq_inv ?s0" using assms(1) by (simp add: cmdq_idle_def)
  show avail: "0 < sq_available_commands (cmdq_sq c)"
    using cmdq_invD(1) [OF inv] by (auto simp: sq_refines_def sq_shape_def empty_spec_def)
  have res: "bce_reserve_submission None [] (cmdq_sq c) = (0, None, ?q)"
    by (rule reserve_available [OF avail])
  let ?s1 = "\<lparr>sy_cmdq = c\<lparr>cmdq_sq := ?q\<rparr>, sy_spec = empty_spec\<lparr>sp_reserved := Suc 0\<rparr>,
    sy_expired = {}\<rparr>"
  have "cmdq_step ?s0 ?s1"
    using cs_reserve [of None ?s0 None ?q] res by (simp add: empty_spec_def)
  from cmdq_step_inv [OF this inv] have inv1: "cmdq_inv ?s1" .
  obtain p c1 where tk: "cmd_take_slot r ((c\<lparr>cmdq_sq := ?q\<rparr>)\<lparr>cmdq_results :=
      (cmdq_results (c\<lparr>cmdq_sq := ?q\<rparr>))(r \<mapsto> junk\<lparr>re_done := False\<rparr>)\<rparr>) = (p, c1)"
    by (cases "cmd_take_slot r ((c\<lparr>cmdq_sq := ?q\<rparr>)\<lparr>cmdq_results :=
      (cmdq_results (c\<lparr>cmdq_sq := ?q\<rparr>))(r \<mapsto> junk\<lparr>re_done := False\<rparr>)\<rparr>)")
  have "cmdq_inv (?s1\<lparr>sy_cmdq := c1\<lparr>cmdq_sq := sq_store p cmd (cmdq_sq c1)\<rparr>,
      sy_spec := (sy_spec ?s1)\<lparr>sp_reserved := sp_reserved (sy_spec ?s1) - 1,
        sp_inflight := sp_inflight (sy_spec ?s1) @ [cmd]\<rparr>\<rparr>)"
    by (rule cmdq_inv_start [OF inv1]) (use tk assms(2) in simp_all)
  then show "cmdq_inv \<lparr>sy_cmdq = cmd_posted r junk cmd c,
      sy_spec = empty_spec\<lparr>sp_inflight := [cmd]\<rparr>, sy_expired = {}\<rparr>"
    unfolding start_step_unfold [OF tk] by (simp add: cmd_posted_def empty_spec_def)
qed

lemma device_completes_posted:
  assumes "cmdq_idle c" and "cmdq_results c r = None"
    and "ucast (ce_completion_index e) = sq_completion_tail (cmdq_sq c)"
  shows "cmdq_idle (device_completes e (cmd_posted r junk cmd c))"
    and "\<exists>el. cmdq_results (device_completes e (cmd_posted r junk cmd c)) r = Some el
      \<and> re_done el \<and> re_status el = ucast (ce_status e) \<and> re_result el = ce_result e"
    and "r' \<noteq> r \<Longrightarrow>
      cmdq_results (device_completes e (cmd_posted r junk cmd c)) r' = cmdq_results c r'"
proof -
  let ?c = "cmd_posted r junk cmd c"
  let ?sp = "empty_spec\<lparr>sp_inflight := [cmd]\<rparr>"
  let ?x = "\<lparr>cd_status = ucast (ce_status e), cd_data_size = ce_data_size e,
    cd_result = ce_result e\<rparr>"
  let ?s = "\<lparr>sy_cmdq = ?c, sy_spec = ?sp, sy_expired = {}\<rparr>"
  have idx: "ucast (ce_completion_index e) = sq_completion_tail (cmdq_sq ?c)"
    using assms(3) by (simp add: cmd_posted_def sq_post_unfold)
  let ?cp = "?c\<lparr>cmdq_sq := sq_push_completion e (cmdq_sq ?c)\<rparr>"
  let ?sq = "?sp\<lparr>sp_completions := [?x]\<rparr>"
  let ?s2 = "\<lparr>sy_cmdq = ?cp, sy_spec = ?sq, sy_expired = {}\<rparr>"
  have "cmdq_step ?s ?s2" using cs_irq [of ?s e] idx by (simp add: empty_spec_def)
  from cmdq_step_inv [OF this cmd_posted_inv(1) [OF assms(1,2)]] have inv2: "cmdq_inv ?s2" .
  obtain c' where c': "bce_cmdq_completion ?cp = Some c'" "handler_effect [?x] ?cp c'"
    using cmdq_completion_effect [OF cmdq_invD(1-3) [OF inv2]] by auto
  have dev: "device_completes e ?c = c'" using c'(1) by (simp add: device_completes_def)
  have drained: "spec_drained ?sq = empty_spec" by (simp add: spec_drained_def empty_spec_def)
  from cmdq_inv_handler [OF inv2, of c'] c'(1) drained
  show "cmdq_idle (device_completes e ?c)" by (simp add: dev cmdq_idle_def)
  have tail: "unat (sq_tail (cmdq_sq c)) = sq_slot (cmdq_sq ?cp) 0"
    using tail_slot [of "\<lparr>sy_cmdq = c, sy_spec = empty_spec, sy_expired = {}\<rparr>"] assms(1)
    by (simp add: cmdq_idle_def empty_spec_def cmd_posted_def sq_post_unfold sq_slot_def
        sq_push_completion_def)
  have "unat (sq_tail (cmdq_sq c)) < length (cmdq_tres c)"
    using assms(1) by (simp add: cmdq_idle_def cmdq_inv_def sq_refines_def sq_shape_def tres_ok_def
        word_less_nat_alt)
  then have slot: "cmdq_tres ?cp ! sq_slot (cmdq_sq ?cp) 0 = Some r"
    using tail [symmetric] by (simp add: cmd_posted_def)
  from c'(2) slot show "\<exists>el. cmdq_results (device_completes e ?c) r = Some el
      \<and> re_done el \<and> re_status el = ucast (ce_status e) \<and> re_result el = ce_result e"
    by (simp add: dev handler_effect_def)
  assume "r' \<noteq> r"
  with c'(2) slot have "cmdq_results c' r' = cmdq_results ?cp r'"
    by (simp add: handler_effect_def)
  moreover have "cmdq_results ?c r' = cmdq_results c r'"
    using \<open>r' \<noteq> r\<close> by (simp add: cmd_posted_def)
  ultimately show "cmdq_results (device_completes e ?c) r' = cmdq_results c r'"
    by (simp add: dev)
qed

lemma cmdq_idle_pop:
  assumes "cmdq_idle c" and "result_done r c"
  shows "cmdq_idle (pop_result r c)"
  using cmdq_step_inv [OF cs_return [of r "\<lparr>sy_cmdq = c, sy_spec = empty_spec, sy_expired = {}\<rparr>"]]
    assms by (simp add: cmdq_idle_def)

lemma cmd_run_completes:
  assumes "cmdq_idle c" and "cmdq_results c r = None" and "cw_lock env = (\<lambda>c. c)"
    and "cw_wait env = device_completes e"
    and "ucast (ce_completion_index e) = sq_completion_tail (cmdq_sq c)"
  shows "\<exists>c'. cmd_run r env cmd c = (if ce_status e = 0 then 0 else - EIO,
      [(0x44000 + 4 * sq_qid (cmdq_sq c), ring_next (sq_el_count (cmdq_sq c)) (sq_tail (cmdq_sq c)))], c')
    \<and> cmdq_sq c' = cmdq_sq (device_completes e (cmd_posted r (cw_junk env) cmd c))
    \<and> cmdq_idle c' \<and> cmdq_results c' = cmdq_results c"
proof -
  let ?c = "cmd_posted r (cw_junk env) cmd c" let ?d = "device_completes e ?c"
  obtain p c1 where st: "bce_cmd_start r env c = (Some p, c1)"
      "c1\<lparr>cmdq_sq := sq_store p cmd (cmdq_sq c1)\<rparr> = ?c"
    using cmd_start_posted [OF cmd_posted_inv(2) [OF assms(1,2)] assms(3)] by blast
  obtain el where el: "cmdq_results ?d r = Some el" "re_done el"
      "re_status el = ucast (ce_status e)"
    using device_completes_posted(2) [OF assms(1,2,5)] by blast
  have "(ucast (ce_status e) :: u32) = 0 \<longleftrightarrow> ce_status e = 0"
    using unat_ucast_up [of "ce_status e", where 'b = 32] by (simp add: word_unat_eq_iff)
  then have status: "(if result_status r ?d \<noteq> 0 then - EIO else 0)
      = (if ce_status e = 0 then 0 else - EIO)"
    using el by (simp add: result_status_def)
  have "bce_cmd_finish r env ?c = (0, [bce_submit_to_device (cmdq_sq ?c)], ?d)"
    using el assms(4) by (simp add: bce_cmd_finish_def result_done_def)
  then have run: "cmd_run r env cmd c = (if ce_status e = 0 then 0 else - EIO,
      [bce_submit_to_device (cmdq_sq ?c)], pop_result r ?d)"
    using status by (simp add: cmd_run_def st)
  have idle: "cmdq_idle ?d" by (rule device_completes_posted(1) [OF assms(1,2,5)])
  have "cmdq_idle (pop_result r ?d)"
    by (rule cmdq_idle_pop [OF idle]) (use el in \<open>simp add: result_done_def\<close>)
  moreover have "cmdq_results (pop_result r ?d) = cmdq_results c"
    using device_completes_posted(3) [OF assms(1,2,5)] assms(2)
    by (auto simp: pop_result_def fun_eq_iff)
  moreover have "bce_submit_to_device (cmdq_sq ?c) = (0x44000 + 4 * sq_qid (cmdq_sq c),
      ring_next (sq_el_count (cmdq_sq c)) (sq_tail (cmdq_sq c)))"
    by (simp add: bce_submit_to_device_def cmd_posted_def sq_post_unfold)
  ultimately show ?thesis using run by (simp add: pop_result_def)
qed

text \<open>
  A command on an idle command queue, when the device completes it with the next
  completion index during the wait, returns 0 or \<open>-EIO\<close> by the status the device sent, rings
  the doorbell once with the new tail, leaves the queue idle again and every other caller's
  result element as it was.
\<close>

theorem command_roundtrip:
  assumes "cmdq_idle c" and "cmdq_results c r = None" and "cw_lock env = (\<lambda>c. c)"
    and "cw_wait env = device_completes e"
    and "ucast (ce_completion_index e) = sq_completion_tail (cmdq_sq c)"
  shows "\<exists>c'. cmd_run r env cmd c = (if ce_status e = 0 then 0 else - EIO,
      [(0x44000 + 4 * sq_qid (cmdq_sq c), ring_next (sq_el_count (cmdq_sq c)) (sq_tail (cmdq_sq c)))], c')
    \<and> cmdq_sq c' = cmdq_sq (device_completes e (cmd_posted r (cw_junk env) cmd c))
    \<and> cmdq_idle c' \<and> cmdq_results c' = cmdq_results c"
  by (rule cmd_run_completes [OF assms])

text \<open>
  The registration command always carries a 32-byte name field: the first
  \<open>name_len\<close> bytes are the queue's name cut to 32 bytes, the rest are zero, and the
  queue's id, element count, vector, address and length are those of the configuration.
\<close>

theorem register_cmd_layout:
  "let cmd = register_cmd cfg name flags in
   length (rc_name cmd) = 32 \<and> unat (rc_name_len cmd) \<le> 32
   \<and> take (unat (rc_name_len cmd)) (rc_name cmd) = take 32 (case name of Some n \<Rightarrow> n | None \<Rightarrow> [])
   \<and> set (drop (unat (rc_name_len cmd)) (rc_name cmd)) \<subseteq> {0}
   \<and> rc_cmd cmd = 0x20 \<and> rc_flags cmd = flags \<and> rc_qid cmd = mc_qid cfg
   \<and> rc_el_count cmd = mc_el_count cfg \<and> rc_vector_or_cq cmd = mc_vector_or_cq cfg
   \<and> rc_addr cmd = mc_addr cfg \<and> rc_length cmd = mc_length cfg"
proof -
  have small: "unat (of_nat (min (length n) 32) :: u16) = min (length n) 32" for n :: "u8 list"
    by (simp add: unat_of_nat)
  have cut: "take (min (length n) 32) n = take 32 n" for n :: "u8 list"
    by (simp add: min_def)
  show ?thesis
    by (cases name) (auto simp: register_cmd_def Let_def small cut)
qed

section \<open>A run of a two-slot command queue\<close>

text \<open>
  States of a command queue with two slots, by its ring indices, free counter, table, result
  elements and abstract state.
\<close>

definition ex_cmdq :: "u32 \<Rightarrow> u32 \<Rightarrow> u32 \<Rightarrow> int \<Rightarrow> addr option list
    \<Rightarrow> (addr \<rightharpoonup> bce_queue_cmdq_result_el) \<Rightarrow> bce_queue_cmdq" where
  "ex_cmdq h t ct avail tres results =
     \<lparr>cmdq_sq = \<lparr>sq_qid = 1, sq_el_size = 64, sq_el_count = 2, sq_dma_handle = 0x1000,
        sq_data = (\<lambda>_. El_zero), sq_userdata = 9, sq_available_commands = avail, sq_head = h,
        sq_tail = t, sq_completion_cidx = h, sq_completion_tail = ct,
        sq_completion_data = [zero_completion_data, zero_completion_data],
        sq_has_pending_completions = False, sq_completion = Cb_cmdq_completion\<rparr>,
      cmdq_tres = tres, cmdq_results = results\<rparr>"

definition ex_spec :: "nat \<Rightarrow> nat \<Rightarrow> nat \<Rightarrow> sq_spec" where
  "ex_spec res infl compl = \<lparr>sp_reserved = res, sp_inflight = replicate infl El_zero,
     sp_handled = 0, sp_completions = replicate compl zero_completion_data\<rparr>"

definition ex_el :: "bool \<Rightarrow> u32 \<Rightarrow> bce_queue_cmdq_result_el" where
  "ex_el finished slot = \<lparr>re_done = finished, re_status = 0, re_result = 0, re_slot = slot\<rparr>"

abbreviation ex_sys :: "bce_queue_cmdq \<Rightarrow> sq_spec \<Rightarrow> addr set \<Rightarrow> cmdq_sys" where
  "ex_sys c sp ex \<equiv> \<lparr>sy_cmdq = c, sy_spec = sp, sy_expired = ex\<rparr>"

lemma replicate_2: "replicate 2 x = [x, x]"
  by (simp add: numeral_2_eq_2)

lemma const_upd: "(\<lambda>_. z)(p := z) = (\<lambda>_. z)"
  by auto

lemma ex_start:
  "cmdq_reachable (ex_sys (ex_cmdq 0 0 0 1 [None, None] Map.empty) (ex_spec 0 0 0) {})"
proof -
  have "bce_alloc_cmdq 1 2 9 True (True, Some 0x1000, True) True
      = Some (ex_cmdq 0 0 0 1 [None, None] Map.empty)"
    by (simp add: bce_alloc_cmdq_def bce_alloc_sq_def ex_cmdq_def replicate_2)
  from cr_alloc [OF this] show ?thesis by (simp add: empty_spec_def ex_spec_def)
qed

text \<open>Reserving and posting a command for the caller \<open>r\<close>, as two steps.\<close>

lemma ex_post:
  assumes "cmdq_reachable (ex_sys (ex_cmdq t t t 1 [None, None] results) (ex_spec 0 0 0) ex)"
    and "t = 0 \<or> t = 1" and "results r = None"
  shows "cmdq_reachable (ex_sys (ex_cmdq t (1 - t) t 0 ([None, None][unat t := Some r])
    (results(r \<mapsto> ex_el False t))) (ex_spec 0 1 0) ex)"
proof -
  let ?s0 = "ex_sys (ex_cmdq t t t 1 [None, None] results) (ex_spec 0 0 0) ex"
  let ?s1 = "ex_sys (ex_cmdq t t t 0 [None, None] results) (ex_spec 1 0 0) ex"
  have "bce_reserve_submission None [] (cmdq_sq (sy_cmdq ?s0))
      = (0, None, cmdq_sq (ex_cmdq t t t 0 [None, None] results))"
    by (simp add: reserve_available ex_cmdq_def)
  from cs_reserve [OF this] have s1: "cmdq_step ?s0 ?s1"
    by (simp add: ex_cmdq_def ex_spec_def)
  have "cmdq_step ?s1 (ex_sys (ex_cmdq t (1 - t) t 0 ([None, None][unat t := Some r])
      (results(r \<mapsto> ex_el False t))) (ex_spec 0 1 0) ex)"
    using cs_start [of ?s1 r "ex_el False 0" _ _ El_zero] assms(2,3)
    by (elim disjE) (simp_all add: ex_cmdq_def ex_spec_def ex_el_def cmd_take_slot_def set_result_def
        bce_next_submission_def sq_store_def Let_def const_upd ring_next_def)
  from cr_step [OF cr_step [OF assms(1) s1] this] show ?thesis .
qed

text \<open>The device completes the command in slot \<open>t\<close> and the handler runs, as two steps.\<close>

lemma ex_complete:
  assumes "cmdq_reachable (ex_sys (ex_cmdq t (1 - t) t 0 ([None, None][unat t := Some r])
      (results(r \<mapsto> ex_el False t))) (ex_spec 0 1 0) ex)"
    and "t = 0 \<or> t = 1"
  shows "cmdq_reachable (ex_sys (ex_cmdq (1 - t) (1 - t) (1 - t) 1 [None, None]
    (results(r \<mapsto> ex_el True t))) (ex_spec 0 0 0) ex)"
proof -
  let ?tres = "[None, None][unat t := Some r]" let ?res = "results(r \<mapsto> ex_el False t)"
  let ?s0 = "ex_sys (ex_cmdq t (1 - t) t 0 ?tres ?res) (ex_spec 0 1 0) ex"
  let ?s1 = "ex_sys (ex_cmdq t (1 - t) (1 - t) 0 ?tres ?res) (ex_spec 0 1 1) ex"
  let ?c2 = "ex_cmdq (1 - t) (1 - t) (1 - t) 1 [None, None] (results(r \<mapsto> ex_el True t))"
  have "cmdq_step ?s0 ?s1"
    using cs_irq [of ?s0 "\<lparr>ce_result = 0, ce_data_size = 0, ce_qid = 1, ce_completion_index = ucast t,
        ce_status = 0, ce_flags = 0\<rparr>"] assms(2)
    by (elim disjE) (simp_all add: ex_cmdq_def ex_spec_def sq_push_completion_def
        zero_completion_data_def ring_next_def)
  moreover have "cmdq_next (sy_cmdq ?s1) = (Some zero_completion_data,
      (sy_cmdq ?s1)\<lparr>cmdq_sq := (cmdq_sq (sy_cmdq ?s1))\<lparr>sq_completion_cidx := 1 - t\<rparr>\<rparr>)"
    using assms(2) by (elim disjE)
      (simp_all add: cmdq_next_def bce_next_completion_def ex_cmdq_def ring_next_def)
  moreover have "cmdq_complete_one zero_completion_data
      ((sy_cmdq ?s1)\<lparr>cmdq_sq := (cmdq_sq (sy_cmdq ?s1))\<lparr>sq_completion_cidx := 1 - t\<rparr>\<rparr>) = ?c2"
    using assms(2) by (elim disjE)
      (simp_all add: ex_cmdq_def cmdq_complete_one_def bce_notify_submission_complete_def
        complete_result_def ex_el_def zero_completion_data_def ring_next_def)
  moreover have "cmdq_next ?c2 = (None, ?c2)"
    by (simp add: cmdq_next_def bce_next_completion_def ex_cmdq_def)
  ultimately have step1: "cmdq_step ?s0 ?s1" and "bce_cmdq_completion (sy_cmdq ?s1) = Some ?c2"
    by (simp_all add: bce_cmdq_completion_def completion_loop_Some completion_loop_None)
  from cs_handler [OF this(2)] have step2: "cmdq_step ?s1 (ex_sys ?c2 (ex_spec 0 0 0) ex)"
    by (simp add: ex_spec_def spec_drained_def)
  from cr_step [OF cr_step [OF assms(1) step1] step2] show ?thesis .
qed

lemma ex_first_command:
  "cmdq_reachable (ex_sys (ex_cmdq 0 1 0 0 [Some 1, None] [1 \<mapsto> ex_el False 0]) (ex_spec 0 1 0) {})"
  using ex_post [OF ex_start, of 1] by simp

theorem cmdq_pointers_live_witness:
  "\<exists>s. cmdq_reachable s \<and> cmdq_tres (sy_cmdq s) ! 0 = Some 1
     \<and> (\<exists>el. cmdq_results (sy_cmdq s) 1 = Some el \<and> \<not> re_done el)"
proof (intro exI conjI)
  let ?c = "ex_cmdq 0 1 0 0 [Some 1, None] [1 \<mapsto> ex_el False 0]"
  show "cmdq_reachable (ex_sys ?c (ex_spec 0 1 0) {})" by (rule ex_first_command)
  show reg: "cmdq_tres (sy_cmdq (ex_sys ?c (ex_spec 0 1 0) {})) ! 0 = Some 1"
    by (simp add: ex_cmdq_def)
  have "0 < length (cmdq_tres (sy_cmdq (ex_sys ?c (ex_spec 0 1 0) {})))" by (simp add: ex_cmdq_def)
  with reg cmdq_pointers_live [OF ex_first_command]
  obtain el where "cmdq_results (sy_cmdq (ex_sys ?c (ex_spec 0 1 0) {})) 1 = Some el" "\<not> re_done el"
    by blast
  then show "cmdq_results (sy_cmdq (ex_sys ?c (ex_spec 0 1 0) {})) 1 = Some (ex_el False 0)"
    and "\<not> re_done (ex_el False 0)" by (auto simp: ex_cmdq_def)
qed

theorem cmdq_completion_delivers_witness:
  "\<exists>s c. cmdq_reachable s \<and> bce_cmdq_completion (sy_cmdq s) = Some c"
  using ex_first_command cmdq_completion_delivers [OF ex_first_command] by blast

lemma ex_idle: "cmdq_idle (ex_cmdq 0 0 0 1 [None, None] Map.empty)"
  using cmdq_reachable_inv [OF ex_start]
  by (simp add: cmdq_idle_def ex_spec_def empty_spec_def)

theorem command_roundtrip_witness:
  "\<exists>c'. cmd_run 5
     \<lparr>cw_junk = ex_el True 7, cw_reserve = [], cw_lock = (\<lambda>c. c),
      cw_wait = device_completes (zero_completion\<lparr>ce_status := 3\<rparr>), cw_relock = (\<lambda>c. c)\<rparr>
     El_zero (ex_cmdq 0 0 0 1 [None, None] Map.empty) = (- EIO, [(0x44004, 1)], c')
   \<and> cmdq_idle c'"
proof -
  let ?env = "\<lparr>cw_junk = ex_el True 7, cw_reserve = [], cw_lock = (\<lambda>c. c),
      cw_wait = device_completes (zero_completion\<lparr>ce_status := 3\<rparr>), cw_relock = (\<lambda>c. c)\<rparr>"
  have "\<exists>c'. cmd_run 5 ?env El_zero (ex_cmdq 0 0 0 1 [None, None] Map.empty)
      = (if ce_status (zero_completion\<lparr>ce_status := 3\<rparr>) = 0 then 0 else - EIO,
         [(0x44000 + 4 * sq_qid (cmdq_sq (ex_cmdq 0 0 0 1 [None, None] Map.empty)),
           ring_next (sq_el_count (cmdq_sq (ex_cmdq 0 0 0 1 [None, None] Map.empty)))
             (sq_tail (cmdq_sq (ex_cmdq 0 0 0 1 [None, None] Map.empty))))], c')
    \<and> cmdq_idle c'"
    using command_roundtrip [OF ex_idle, of 5 ?env "zero_completion\<lparr>ce_status := 3\<rparr>" El_zero]
    by (auto simp: ex_cmdq_def zero_completion_def)
  then show ?thesis by (simp add: ex_cmdq_def ring_next_def)
qed

text \<open>
  The cleanup after a timeout can hit another command. A caller whose wait has
  expired but that has not yet taken the lock can see its own command completed and its slot
  reused; its \<open>tres[res->slot] = NULL\<close> then unregisters the new owner of the slot, whose
  completion will be discarded although it is still waiting.
\<close>

theorem cmdq_stale_timeout:
  "\<exists>s t. cmdq_reachable s \<and> cmdq_step s t \<and> 3 \<notin> sy_expired s
     \<and> cmdq_tres (sy_cmdq s) ! 0 = Some 3
     \<and> cmdq_results (sy_cmdq t) 3 = Some (ex_el False 0)
     \<and> cmdq_tres (sy_cmdq t) = [None, None]"
proof -
  let ?s2 = "ex_sys (ex_cmdq 0 1 0 0 [Some 1, None] [1 \<mapsto> ex_el False 0]) (ex_spec 0 1 0) {}"
  have "cmdq_step ?s2 (?s2\<lparr>sy_expired := {1}\<rparr>)"
    using cs_expire [of ?s2 1 "ex_el False 0"] by (simp add: ex_cmdq_def ex_el_def)
  from cr_step [OF ex_first_command this]
  have "cmdq_reachable (ex_sys (ex_cmdq 0 1 0 0 [Some 1, None] [1 \<mapsto> ex_el False 0])
      (ex_spec 0 1 0) {1})" by simp
  then have "cmdq_reachable (ex_sys (ex_cmdq 1 1 1 1 [None, None] [1 \<mapsto> ex_el True 0])
      (ex_spec 0 0 0) {1})"
    using ex_complete [of 0 1 Map.empty] by simp
  from ex_post [OF this, of 2]
  have "cmdq_reachable (ex_sys (ex_cmdq 1 0 1 0 [None, Some 2]
      [1 \<mapsto> ex_el True 0, 2 \<mapsto> ex_el False 1]) (ex_spec 0 1 0) {1})" by simp
  then have "cmdq_reachable (ex_sys (ex_cmdq 0 0 0 1 [None, None]
      [1 \<mapsto> ex_el True 0, 2 \<mapsto> ex_el True 1]) (ex_spec 0 0 0) {1})"
    using ex_complete [of 1 2 "[1 \<mapsto> ex_el True 0]"] by simp
  from ex_post [OF this, of 3]
  have s: "cmdq_reachable (ex_sys (ex_cmdq 0 1 0 0 [Some 3, None]
      [1 \<mapsto> ex_el True 0, 2 \<mapsto> ex_el True 1, 3 \<mapsto> ex_el False 0]) (ex_spec 0 1 0) {1})" by simp
  let ?s = "ex_sys (ex_cmdq 0 1 0 0 [Some 3, None]
      [1 \<mapsto> ex_el True 0, 2 \<mapsto> ex_el True 1, 3 \<mapsto> ex_el False 0]) (ex_spec 0 1 0) {1}"
  let ?t = "?s\<lparr>sy_cmdq := pop_result 1 (cmd_clear_slot 1 (sy_cmdq ?s)),
    sy_expired := sy_expired ?s - {1}\<rparr>"
  have st: "cmdq_step ?s ?t" by (rule cs_clear) simp
  show ?thesis
    by (rule exI [of _ ?s], rule exI [of _ ?t])
      (use s st in \<open>simp add: ex_cmdq_def pop_result_def cmd_clear_slot_def ex_el_def\<close>)
qed

end
