(* ===== verification/Bce_Mailbox.thy ===== *)
theory Bce_Mailbox
  imports Bce_Prelude
begin

text \<open>
  The mailbox and the timestamp heartbeat (\<open>src/mailbox.h\<close>, \<open>src/mailbox.c\<close>).

  A mailbox message is a 64-bit word with a six-bit type on top of a 58-bit value. The
  mailbox itself is a three-state machine, idle (0), message in flight (1), reply received
  (2), shared between one sender and the interrupt handler through compare-and-exchange.
  Register accesses are lists of byte offset and value. What the interrupt handler does
  while the sender sleeps in \<open>wait_for_completion_timeout\<close> is an argument of
  \<open>bce_mailbox_send\<close>; the contents of the reply registers are an argument of the handler.
  The kernel timer of the heartbeat is the delay it is armed with, \<open>None\<close> when it is not
  armed.
\<close>

section \<open>Message words\<close>

abbreviation BCE_MB_REGISTER_COMMAND_SQ :: u64 where "BCE_MB_REGISTER_COMMAND_SQ \<equiv> 0x7"
abbreviation BCE_MB_REGISTER_COMMAND_CQ :: u64 where "BCE_MB_REGISTER_COMMAND_CQ \<equiv> 0x8"
abbreviation BCE_MB_REGISTER_COMMAND_QUEUE_REPLY :: u32
  where "BCE_MB_REGISTER_COMMAND_QUEUE_REPLY \<equiv> 0xB"
abbreviation BCE_MB_SET_FW_PROTOCOL_VERSION :: nat where "BCE_MB_SET_FW_PROTOCOL_VERSION \<equiv> 0xC"
abbreviation BCE_MB_SLEEP_NO_STATE :: u64 where "BCE_MB_SLEEP_NO_STATE \<equiv> 0x14"
abbreviation BCE_MB_RESTORE_NO_STATE :: nat where "BCE_MB_RESTORE_NO_STATE \<equiv> 0x15"
abbreviation BCE_MB_SAVE_STATE_AND_SLEEP :: u64 where "BCE_MB_SAVE_STATE_AND_SLEEP \<equiv> 0x17"
abbreviation BCE_MB_RESTORE_STATE_AND_WAKE :: u64 where "BCE_MB_RESTORE_STATE_AND_WAKE \<equiv> 0x18"
abbreviation BCE_MB_SAVE_STATE_AND_SLEEP_FAILURE :: u32
  where "BCE_MB_SAVE_STATE_AND_SLEEP_FAILURE \<equiv> 0x19"
abbreviation BCE_MB_SAVE_RESTORE_STATE_COMPLETE :: u32
  where "BCE_MB_SAVE_RESTORE_STATE_COMPLETE \<equiv> 0x1A"

abbreviation BCE_MBOX_TIMEOUT_MS :: int where "BCE_MBOX_TIMEOUT_MS \<equiv> 200"
abbreviation BCE_MBOX_TIMEOUT_SAVE_RESTORE_MS :: int
  where "BCE_MBOX_TIMEOUT_SAVE_RESTORE_MS \<equiv> 2000"

definition BCE_MB_MSG :: "u64 \<Rightarrow> u64 \<Rightarrow> u64" where
  "BCE_MB_MSG t v = push_bit 58 t OR (v AND 0x3FFFFFFFFFFFFFF)"

definition BCE_MB_TYPE :: "u64 \<Rightarrow> u32" where
  "BCE_MB_TYPE v = ucast (drop_bit 58 v)"

definition BCE_MB_VALUE :: "u64 \<Rightarrow> u64" where
  "BCE_MB_VALUE v = v AND 0x3FFFFFFFFFFFFFF"

section \<open>The mailbox\<close>

record bce_mailbox =
  mb_status :: int
  mb_completion :: bool
  mb_result :: u64

text \<open>\<open>kzalloc\<close> zeroes the structure; the init function prepares the completion.\<close>

definition bce_mailbox_init :: "bce_mailbox \<Rightarrow> bce_mailbox" where
  "bce_mailbox_init mb = mb\<lparr>mb_completion := False\<rparr>"

abbreviation REG_MBOX_OUT_BASE :: nat where "REG_MBOX_OUT_BASE \<equiv> 0x820"

text \<open>The four register writes that hand a message to the device.\<close>

definition mailbox_out_writes :: "u64 \<Rightarrow> (nat \<times> u32) list" where
  "mailbox_out_writes msg =
     [(REG_MBOX_OUT_BASE, ucast msg), (REG_MBOX_OUT_BASE + 4, ucast (drop_bit 32 msg)),
      (REG_MBOX_OUT_BASE + 8, 0), (REG_MBOX_OUT_BASE + 12, 0)]"

record mailbox_send_result =
  ms_status :: int
  ms_recv :: "u64 option"
  ms_writes :: "(nat \<times> u32) list"

text \<open>
  \<open>wait timeout mb\<close> is the mailbox after the interrupt handler ran (or did not) while the
  sender slept for at most \<open>timeout\<close> milliseconds.
\<close>

definition mailbox_send_begin :: "bce_mailbox \<Rightarrow> bce_mailbox option" where
  "mailbox_send_begin mb =
     (if mb_status mb \<noteq> 0 then None else Some (mb\<lparr>mb_status := 1, mb_completion := False\<rparr>))"

definition mailbox_send_finish :: "bce_mailbox \<Rightarrow> int \<times> u64 option \<times> bce_mailbox" where
  "mailbox_send_finish mb =
     (if mb_status mb \<noteq> 2 then (- ETIMEDOUT, None, mb\<lparr>mb_status := 0\<rparr>)
      else (0, Some (mb_result mb), mb\<lparr>mb_status := 0\<rparr>))"

definition bce_mailbox_send ::
  "(int \<Rightarrow> bce_mailbox \<Rightarrow> bce_mailbox) \<Rightarrow> u64 \<Rightarrow> int \<Rightarrow> bce_mailbox
     \<Rightarrow> mailbox_send_result \<times> bce_mailbox" where
  "bce_mailbox_send wait msg timeout_ms mb =
     (case mailbox_send_begin mb of
        None \<Rightarrow> (\<lparr>ms_status = - EEXIST, ms_recv = None, ms_writes = []\<rparr>, mb)
      | Some mb1 \<Rightarrow>
          let (status, recv, mb2) = mailbox_send_finish (wait timeout_ms mb1) in
          (\<lparr>ms_status = status, ms_recv = recv, ms_writes = mailbox_out_writes msg\<rparr>, mb2))"

text \<open>The reply word assembled from its two halves.\<close>

definition mailbox_word :: "u32 \<Rightarrow> u32 \<Rightarrow> u64" where
  "mailbox_word lo hi = push_bit 32 (ucast hi) OR ucast lo"

text \<open>
  The interrupt handler reads the reply counter, then as many replies; \<open>replies i\<close> is what
  the two reply registers hold at the \<open>i\<close>-th read. The loop counts down to zero.
\<close>

fun mailbox_drain :: "nat \<Rightarrow> nat \<Rightarrow> (nat \<Rightarrow> u32 \<times> u32) \<Rightarrow> bce_mailbox \<Rightarrow> bce_mailbox" where
  "mailbox_drain 0 i replies mb = mb"
| "mailbox_drain (Suc counter) i replies mb =
     (let (lo, hi) = replies i in
      mailbox_drain counter (Suc i) replies (mb\<lparr>mb_result := mailbox_word lo hi\<rparr>))"

definition mailbox_reply_count :: "u32 \<Rightarrow> nat" where
  "mailbox_reply_count res = unat (drop_bit 20 res AND 0xf)"

definition bce_mailbox_retrive_response ::
  "u32 \<Rightarrow> (nat \<Rightarrow> u32 \<times> u32) \<Rightarrow> bce_mailbox \<Rightarrow> int \<times> bce_mailbox" where
  "bce_mailbox_retrive_response res replies mb =
     (let count = mailbox_reply_count res in
      (if count > 0 then 0 else - ENODATA, mailbox_drain count 0 replies mb))"

definition bce_mailbox_handle_interrupt ::
  "u32 \<Rightarrow> (nat \<Rightarrow> u32 \<times> u32) \<Rightarrow> bce_mailbox \<Rightarrow> int \<times> bce_mailbox" where
  "bce_mailbox_handle_interrupt res replies mb =
     (let (status, mb1) = bce_mailbox_retrive_response res replies mb in
      if status = 0 then
        if mb_status mb1 \<noteq> 1 then (- ENODATA, mb1)
        else (status, mb1\<lparr>mb_status := 2, mb_completion := True\<rparr>)
      else (status, mb1))"

text \<open>The interrupts that arrive during one sleep, each with its register contents.\<close>

definition mailbox_irqs ::
  "(u32 \<times> (nat \<Rightarrow> u32 \<times> u32)) list \<Rightarrow> bce_mailbox \<Rightarrow> bce_mailbox" where
  "mailbox_irqs irqs mb =
     fold (\<lambda>(res, replies) mb. snd (bce_mailbox_handle_interrupt res replies mb)) irqs mb"

text \<open>
  Concurrent use of one mailbox: \<open>sys_owner\<close> is the sender that is between its
  compare-and-exchange and its final store. A sender that finds the mailbox busy gives up;
  interrupts arrive at any time.
\<close>

record mb_sys =
  sys_mb :: bce_mailbox
  sys_owner :: "nat option"

inductive mb_step :: "mb_sys \<Rightarrow> mb_sys \<Rightarrow> bool" where
  mb_begin: "mailbox_send_begin (sys_mb s) = Some mb \<Longrightarrow>
     mb_step s (s\<lparr>sys_mb := mb, sys_owner := Some i\<rparr>)"
| mb_irq: "mb_step s (s\<lparr>sys_mb := snd (bce_mailbox_handle_interrupt res replies (sys_mb s))\<rparr>)"
| mb_finish: "sys_owner s = Some i \<Longrightarrow> mailbox_send_finish (sys_mb s) = (st, recv, mb) \<Longrightarrow>
     mb_step s (s\<lparr>sys_mb := mb, sys_owner := None\<rparr>)"

inductive mb_reachable :: "mb_sys \<Rightarrow> bool" where
  mb_start: "mb_reachable \<lparr>sys_mb = bce_mailbox_init
     \<lparr>mb_status = 0, mb_completion = False, mb_result = 0\<rparr>, sys_owner = None\<rparr>"
| mb_next: "mb_reachable s \<Longrightarrow> mb_step s t \<Longrightarrow> mb_reachable t"

inductive_cases mb_stepE: "mb_step s t"

section \<open>The timestamp heartbeat\<close>

record bce_timestamp =
  ts_timer :: "int option"
  ts_stopped :: bool

abbreviation REG_TIMESTAMP_BASE :: nat where "REG_TIMESTAMP_BASE \<equiv> 0xC000"

definition bce_timestamp_init :: bce_timestamp where
  "bce_timestamp_init = \<lparr>ts_timer = None, ts_stopped = False\<rparr>"

definition bce_timestamp_start :: "bool \<Rightarrow> bce_timestamp \<Rightarrow> (nat \<times> u32) list \<times> bce_timestamp" where
  "bce_timestamp_start is_initial ts =
     ([(REG_TIMESTAMP_BASE + 8, if is_initial then - 4 else - 3), (REG_TIMESTAMP_BASE, - 1)],
      ts\<lparr>ts_stopped := False, ts_timer := Some 150\<rparr>)"

text \<open>
  \<open>timer_delete_sync\<close> waits for a running callback and disarms the timer; the callback
  that may run to its end in between is the argument \<open>running\<close>.
\<close>

definition bce_timestamp_stop ::
  "(bce_timestamp \<Rightarrow> bce_timestamp) \<Rightarrow> bce_timestamp \<Rightarrow> (nat \<times> u32) list \<times> bce_timestamp" where
  "bce_timestamp_stop running ts =
     (let ts1 = ts\<lparr>ts_stopped := True\<rparr>; ts2 = (running ts1)\<lparr>ts_timer := None\<rparr> in
      ([(REG_TIMESTAMP_BASE + 8, - 2), (REG_TIMESTAMP_BASE, - 1)], ts2))"

text \<open>\<open>interval\<close> is the module parameter, \<open>bt\<close> the boot time in nanoseconds.\<close>

definition bc_send_timestamp ::
  "int \<Rightarrow> u64 \<Rightarrow> bce_timestamp \<Rightarrow> (nat \<times> u32) list \<times> bce_timestamp" where
  "bc_send_timestamp interval bt ts =
     (if interval > 0 then
        [(REG_TIMESTAMP_BASE + 8, ucast bt), (REG_TIMESTAMP_BASE, ucast (drop_bit 32 bt))]
      else [],
      if \<not> ts_stopped ts then ts\<lparr>ts_timer := Some (if interval > 0 then interval else 1000)\<rparr>
      else ts)"

section \<open>Facts about message words\<close>

lemma mask_58: "(0x3FFFFFFFFFFFFFF :: u64) = mask 58"
  by (simp add: mask_eq_exp_minus_1)

lemma mailbox_word_split: "mailbox_word (ucast msg) (ucast (drop_bit 32 msg)) = msg"
  unfolding mailbox_word_def
  by (rule bit_word_eqI) (auto simp: bit_simps)

lemma message_unpack:
  assumes "t < 64"
  shows "BCE_MB_TYPE (BCE_MB_MSG t v) = ucast t" "BCE_MB_VALUE (BCE_MB_MSG t v) = take_bit 58 v"
proof -
  have t: "bit t n \<Longrightarrow> n < 6" for n
    using assms bit_word_below [of t n 6] by (simp add: word_less_nat_alt)
  show "BCE_MB_TYPE (BCE_MB_MSG t v) = ucast t"
    unfolding BCE_MB_TYPE_def BCE_MB_MSG_def mask_58
    by (rule bit_word_eqI) (auto simp: bit_simps dest: t)
  show "BCE_MB_VALUE (BCE_MB_MSG t v) = take_bit 58 v"
    unfolding BCE_MB_VALUE_def BCE_MB_MSG_def mask_58
    by (rule bit_word_eqI) (auto simp: bit_simps)
qed

text \<open>
  A mailbox message word carries its type and its value: packing a type that
  fits in six bits and any value, then unpacking, returns the type and the value cut to
  58 bits, so that distinct pairs give distinct words.
\<close>

theorem mailbox_message_roundtrip:
  assumes "t < 64"
  shows "BCE_MB_TYPE (BCE_MB_MSG t v) = ucast t \<and> BCE_MB_VALUE (BCE_MB_MSG t v) = take_bit 58 v"
  using message_unpack [OF assms] by blast

theorem mailbox_message_roundtrip_witness:
  "(0x17 :: u64) < 64 \<and> BCE_MB_TYPE (BCE_MB_MSG 0x17 0x1002) = 0x17
     \<and> BCE_MB_VALUE (BCE_MB_MSG 0x17 0x1002) = 0x1002"
proof -
  have h: "(0x17 :: u64) < 64" by simp
  have "ucast (0x17 :: u64) = (0x17 :: u32)" and "take_bit 58 (0x1002 :: u64) = 0x1002"
    by (simp_all add: unsigned_of_nat take_bit_eq_mod)
  with h mailbox_message_roundtrip [OF h, of "0x1002"] show ?thesis by simp
qed

section \<open>The mailbox protocol\<close>

lemma mailbox_drain_Suc:
  "mailbox_drain (Suc n) i replies mb =
     mb\<lparr>mb_result := (let (lo, hi) = replies (i + n) in mailbox_word lo hi)\<rparr>"
proof (induction n arbitrary: i mb)
  case 0
  then show ?case by (simp add: Let_def split: prod.splits)
next
  case (Suc n)
  have "mailbox_drain (Suc (Suc n)) i replies mb
      = mailbox_drain (Suc n) (Suc i) replies
          (mb\<lparr>mb_result := (let (lo, hi) = replies i in mailbox_word lo hi)\<rparr>)"
    by (simp add: Let_def split: prod.splits)
  also have "\<dots> = mb\<lparr>mb_result := (let (lo, hi) = replies (i + Suc n) in mailbox_word lo hi)\<rparr>"
    using Suc by (simp del: mailbox_drain.simps)
  finally show ?case .
qed

lemma mailbox_drain_frame [frame_simps]:
  "mb_status (mailbox_drain n i replies mb) = mb_status mb"
  "mb_completion (mailbox_drain n i replies mb) = mb_completion mb"
  by (induction n arbitrary: i mb) (simp_all add: Let_def split: prod.splits)

text \<open>The word an interrupt leaves in the mailbox: the last of its replies.\<close>

definition irq_word :: "u32 \<times> (nat \<Rightarrow> u32 \<times> u32) \<Rightarrow> u64" where
  "irq_word irq = (case irq of (res, replies) \<Rightarrow>
     let (lo, hi) = replies (mailbox_reply_count res - 1) in mailbox_word lo hi)"

definition irq_has_reply :: "u32 \<times> (nat \<Rightarrow> u32 \<times> u32) \<Rightarrow> bool" where
  "irq_has_reply irq \<longleftrightarrow> 0 < mailbox_reply_count (fst irq)"

lemma handle_interrupt_empty:
  "\<not> irq_has_reply (res, replies) \<Longrightarrow>
     bce_mailbox_handle_interrupt res replies mb = (- ENODATA, mb)"
  by (simp add: irq_has_reply_def bce_mailbox_handle_interrupt_def
      bce_mailbox_retrive_response_def)

lemma handle_interrupt_reply:
  assumes "irq_has_reply (res, replies)"
  shows "bce_mailbox_handle_interrupt res replies mb =
    (if mb_status mb \<noteq> 1 then (- ENODATA, mb\<lparr>mb_result := irq_word (res, replies)\<rparr>)
     else (0, mb\<lparr>mb_result := irq_word (res, replies), mb_status := 2, mb_completion := True\<rparr>))"
proof -
  obtain n where n: "mailbox_reply_count res = Suc n"
    using assms by (cases "mailbox_reply_count res") (auto simp: irq_has_reply_def)
  show ?thesis
    by (simp add: bce_mailbox_handle_interrupt_def bce_mailbox_retrive_response_def n
        mailbox_drain_Suc irq_word_def del: mailbox_drain.simps)
qed

lemma mailbox_irqs_Cons:
  "mailbox_irqs (irq # irqs) mb =
     mailbox_irqs irqs (snd (bce_mailbox_handle_interrupt (fst irq) (snd irq) mb))"
  by (simp add: mailbox_irqs_def case_prod_beta)

lemma mailbox_irqs_answered:
  "mb_status mb = 2 \<Longrightarrow>
     mb_status (mailbox_irqs irqs mb) = 2
     \<and> mb_result (mailbox_irqs irqs mb)
        = (if filter irq_has_reply irqs = [] then mb_result mb
           else irq_word (last (filter irq_has_reply irqs)))"
proof (induction irqs arbitrary: mb)
  case Nil
  then show ?case by (simp add: mailbox_irqs_def)
next
  case (Cons irq irqs)
  show ?case
    using Cons.prems Cons.IH [of "snd (bce_mailbox_handle_interrupt (fst irq) (snd irq) mb)"]
    by (cases irq; cases "irq_has_reply irq")
      (auto simp: mailbox_irqs_Cons handle_interrupt_empty handle_interrupt_reply)
qed

lemma mailbox_irqs_waiting:
  "mb_status mb = 1 \<Longrightarrow>
     (if filter irq_has_reply irqs = [] then mb_status (mailbox_irqs irqs mb) = 1
      else mb_status (mailbox_irqs irqs mb) = 2
        \<and> mb_result (mailbox_irqs irqs mb) = irq_word (last (filter irq_has_reply irqs)))"
proof (induction irqs arbitrary: mb)
  case Nil
  then show ?case by (simp add: mailbox_irqs_def)
next
  case (Cons irq irqs)
  obtain res replies where irq: "irq = (res, replies)" by (cases irq)
  show ?case
  proof (cases "irq_has_reply irq")
    case True
    then show ?thesis
      using Cons.prems mailbox_irqs_answered
        [of "snd (bce_mailbox_handle_interrupt res replies mb)" irqs]
      by (auto simp: mailbox_irqs_Cons handle_interrupt_reply irq)
  next
    case False
    then show ?thesis
      using Cons by (simp add: mailbox_irqs_Cons handle_interrupt_empty irq)
  qed
qed

text \<open>
  Property C6. Sending on an idle mailbox writes the message to the output registers and
  then either returns the last reply word the interrupts delivered during the wait, or, when
  no interrupt carried a reply, times out with nothing received; either way the mailbox is
  idle again. Sending on a busy mailbox touches neither the registers nor the mailbox.
\<close>

theorem mailbox_send_outcome:
  "bce_mailbox_send (\<lambda>_. mailbox_irqs irqs) msg timeout mb =
     (if mb_status mb \<noteq> 0 then
        (\<lparr>ms_status = - EEXIST, ms_recv = None, ms_writes = []\<rparr>, mb)
      else
        (if filter irq_has_reply irqs = [] then
           \<lparr>ms_status = - ETIMEDOUT, ms_recv = None, ms_writes = mailbox_out_writes msg\<rparr>
         else
           \<lparr>ms_status = 0, ms_recv = Some (irq_word (last (filter irq_has_reply irqs))),
            ms_writes = mailbox_out_writes msg\<rparr>,
         (mailbox_irqs irqs (mb\<lparr>mb_status := 1, mb_completion := False\<rparr>))\<lparr>mb_status := 0\<rparr>))"
  using mailbox_irqs_waiting [of "mb\<lparr>mb_status := 1, mb_completion := False\<rparr>" irqs]
  by (auto simp: bce_mailbox_send_def mailbox_send_begin_def mailbox_send_finish_def)

text \<open>
  The states of the mailbox: idle exactly while no sender owns it, and a received reply has
  completed the sender's wait.
\<close>

definition mb_inv :: "mb_sys \<Rightarrow> bool" where
  "mb_inv s \<longleftrightarrow> (sys_owner s = None \<longleftrightarrow> mb_status (sys_mb s) = 0)
     \<and> mb_status (sys_mb s) \<in> {0, 1, 2}
     \<and> (mb_status (sys_mb s) = 2 \<longrightarrow> mb_completion (sys_mb s))
     \<and> (mb_status (sys_mb s) = 1 \<longrightarrow> \<not> mb_completion (sys_mb s))"

lemma mb_step_inv:
  assumes "mb_step s t" and "mb_inv s"
  shows "mb_inv t"
  using assms
proof (cases rule: mb_step.cases)
  case (mb_irq res replies)
  then show ?thesis
    using assms(2) by (cases "irq_has_reply (res, replies)")
      (auto simp: mb_inv_def handle_interrupt_empty handle_interrupt_reply)
qed (auto simp: mb_inv_def mailbox_send_begin_def mailbox_send_finish_def split: if_splits)

lemma mb_reachable_inv: "mb_reachable s \<Longrightarrow> mb_inv s"
proof (induction rule: mb_reachable.induct)
  case (mb_next s t)
  then show ?case by (blast intro: mb_step_inv)
qed (simp add: mb_inv_def bce_mailbox_init_def)


lemma mb_reachable_sending:
  "mb_reachable \<lparr>sys_mb = \<lparr>mb_status = 1, mb_completion = False, mb_result = 0\<rparr>,
     sys_owner = Some 7\<rparr>"
proof -
  have "mb_step \<lparr>sys_mb = bce_mailbox_init
      \<lparr>mb_status = 0, mb_completion = False, mb_result = 0\<rparr>, sys_owner = None\<rparr>
    (\<lparr>sys_mb = bce_mailbox_init
      \<lparr>mb_status = 0, mb_completion = False, mb_result = 0\<rparr>, sys_owner = None\<rparr>
      \<lparr>sys_mb := \<lparr>mb_status = 1, mb_completion = False, mb_result = 0\<rparr>, sys_owner := Some 7\<rparr>)"
    by (rule mb_step.mb_begin) (simp add: mailbox_send_begin_def bce_mailbox_init_def)
  from mb_reachable.mb_next [OF mb_reachable.mb_start this] show ?thesis by simp
qed


section \<open>The heartbeat\<close>

lemma send_timestamp_stopped:
  "ts_stopped ts \<Longrightarrow> snd (bc_send_timestamp interval bt ts) = ts"
  by (simp add: bc_send_timestamp_def)

text \<open>Callbacks of the timer that fire one after the other.\<close>

definition timer_fires :: "(int \<times> u64) list \<Rightarrow> bce_timestamp \<Rightarrow> bce_timestamp" where
  "timer_fires fs ts = fold (\<lambda>(interval, bt) ts. snd (bc_send_timestamp interval bt ts)) fs ts"

lemma timer_fires_stopped: "ts_stopped ts \<Longrightarrow> timer_fires fs ts = ts"
  by (induction fs) (auto simp: timer_fires_def send_timestamp_stopped)

text \<open>
  Stopping the heartbeat is final: whatever timer callbacks run to completion
  while the timer is being deleted, the timer is disarmed, stays disarmed under any
  callback that still fires, and only a new start arms it again.
\<close>

theorem timestamp_stop_final:
  "ts_timer (timer_fires late (snd (bce_timestamp_stop (timer_fires running) ts))) = None
   \<and> ts_timer (snd (bce_timestamp_start is_initial
       (snd (bce_timestamp_stop (timer_fires running) ts)))) = Some 150"
  by (simp add: bce_timestamp_stop_def bce_timestamp_start_def timer_fires_stopped Let_def)

end
