(* ===== verification/Bce_Device.thy ===== *)
theory Bce_Device
  imports Bce_Cmdq Bce_Mailbox
begin

text \<open>
  The device object and the DMA interrupt (\<open>src/apple_bce.h\<close>, \<open>bce_handle_cq_completion\<close>,
  \<open>bce_poll_cq\<close> and \<open>bce_dispatch_sq_completions\<close> of \<open>src/queue.c\<close>,
  \<open>bce_handle_dma_irq\<close> and \<open>bce_handle_mb_irq\<close> of \<open>src/apple_bce.c\<close>).

  Queue objects live in \<open>dev_heap\<close> by address, so that a pointer kept after the object was
  freed names nothing. \<open>dev_log\<close> records the register writes towards the device and the
  completion callbacks in the order they happen. A completion callback is an argument
  \<open>run\<close> of the functions that call it, since the clients of the engine install it. The
  entries the device adds to a completion queue while it is being polled belong to the next
  interrupt.
\<close>

section \<open>State\<close>

abbreviation BCE_MAX_QUEUE_COUNT :: nat where "BCE_MAX_QUEUE_COUNT \<equiv> 0x100"
abbreviation BCE_QUEUE_USER_MIN :: nat where "BCE_QUEUE_USER_MIN \<equiv> 2"
abbreviation BCE_QUEUE_USER_MAX :: nat where "BCE_QUEUE_USER_MAX \<equiv> BCE_MAX_QUEUE_COUNT - 1"

datatype dev_event = Ev_write int u32 | Ev_callback bce_sq_completion addr

text \<open>The command queue object: \<open>cmdq->sq\<close> is the address of its queue.\<close>

record cmdq_object =
  co_sq :: addr
  co_tres :: "addr option list"

record apple_bce_device =
  dev_mbox :: bce_mailbox
  dev_timestamp :: bce_timestamp
  dev_queues :: "addr option list"
  dev_cq_list :: "addr list"
  dev_queue_ida :: "nat set"
  dev_cmd_cq :: "addr option"
  dev_cmd_cmdq :: "addr option"
  dev_int_sq_list :: "addr list"
  dev_is_being_removed :: bool
  dev_saved_data_dma_addr :: u64
  dev_saved_data_dma_ptr :: "addr option"
  dev_saved_data_dma_size :: u64
  dev_heap :: "addr \<rightharpoonup> bce_queue"
  dev_cmdqs :: "addr \<rightharpoonup> cmdq_object"
  dev_results :: "addr \<rightharpoonup> bce_queue_cmdq_result_el"
  dev_log :: "dev_event list"

fun queue_qid :: "bce_queue \<Rightarrow> int" where
  "queue_qid (Queue_CQ cq) = cq_qid cq"
| "queue_qid (Queue_SQ sq) = sq_qid sq"

definition set_sq :: "addr \<Rightarrow> bce_queue_sq \<Rightarrow> apple_bce_device \<Rightarrow> apple_bce_device" where
  "set_sq a q dev = dev\<lparr>dev_heap := (dev_heap dev)(a \<mapsto> Queue_SQ q)\<rparr>"

definition set_cq :: "addr \<Rightarrow> bce_queue_cq \<Rightarrow> apple_bce_device \<Rightarrow> apple_bce_device" where
  "set_cq a q dev = dev\<lparr>dev_heap := (dev_heap dev)(a \<mapsto> Queue_CQ q)\<rparr>"

lemma set_sq_frame [simp]:
  "dev_queues (set_sq a q dev) = dev_queues dev" "dev_cq_list (set_sq a q dev) = dev_cq_list dev"
  "dev_int_sq_list (set_sq a q dev) = dev_int_sq_list dev" "dev_log (set_sq a q dev) = dev_log dev"
  "dev_heap (set_sq a q dev) = (dev_heap dev)(a \<mapsto> Queue_SQ q)"
  by (simp_all add: set_sq_def)

lemma set_cq_frame [simp]:
  "dev_queues (set_cq a q dev) = dev_queues dev" "dev_cq_list (set_cq a q dev) = dev_cq_list dev"
  "dev_int_sq_list (set_cq a q dev) = dev_int_sq_list dev" "dev_log (set_cq a q dev) = dev_log dev"
  "dev_heap (set_cq a q dev) = (dev_heap dev)(a \<mapsto> Queue_CQ q)"
  by (simp_all add: set_cq_def)

text \<open>The pointer in \<open>queues[qid]\<close>; the callers have checked the index.\<close>

definition dev_queue_at :: "apple_bce_device \<Rightarrow> nat \<Rightarrow> addr option" where
  "dev_queue_at dev k = (if k < length (dev_queues dev) then dev_queues dev ! k else None)"

section \<open>The DMA interrupt\<close>

definition bce_handle_cq_completion ::
  "bce_qe_completion \<Rightarrow> nat \<times> apple_bce_device \<Rightarrow> nat \<times> apple_bce_device" where
  "bce_handle_cq_completion e st = (case st of (ce, dev) \<Rightarrow>
     if unat (ce_qid e) \<ge> BCE_MAX_QUEUE_COUNT then (ce, dev)
     else case dev_queue_at dev (unat (ce_qid e)) of
       None \<Rightarrow> (ce, dev)
     | Some target \<Rightarrow>
         (case dev_heap dev target of
            Some (Queue_SQ sq) \<Rightarrow>
              if sq_completion_tail sq \<noteq> ucast (ce_completion_index e) then (ce, dev)
              else
                let (ce', dev', sq') =
                  (if \<not> sq_has_pending_completions sq
                   then (ce + 1, dev\<lparr>dev_int_sq_list := (dev_int_sq_list dev)[ce := target]\<rparr>,
                         sq\<lparr>sq_has_pending_completions := True\<rparr>)
                   else (ce, dev, sq))
                in (ce', set_sq target (sq_push_completion e sq') dev')
          | _ \<Rightarrow> (ce, dev)))"

text \<open>The loop of \<open>bce_poll_cq\<close>; it ends because each round clears a pending flag.\<close>

function poll_loop :: "bce_queue_cq \<Rightarrow> nat \<times> apple_bce_device
    \<Rightarrow> bce_queue_cq \<times> nat \<times> apple_bce_device" where
  "poll_loop cq st =
     (let e = bce_cq_element cq (cq_index cq) in
      if \<not> completion_pending e then (cq, st)
      else poll_loop
        (cq\<lparr>cq_data := (cq_data cq)[unat (cq_index cq) := e\<lparr>ce_flags := 0\<rparr>],
            cq_index := ring_next (cq_el_count cq) (cq_index cq)\<rparr>)
        (bce_handle_cq_completion e st))"
  by pat_completeness auto

lemma cleared_not_pending [simp]: "\<not> completion_pending (e\<lparr>ce_flags := 0\<rparr>)"
  by (simp add: completion_pending_def)

lemma zero_not_pending [simp]: "\<not> completion_pending zero_completion"
  by (simp add: completion_pending_def zero_completion_def)

termination poll_loop
proof (relation "measure (\<lambda>(cq, st). length (filter completion_pending (cq_data cq)))")
  fix cq st e
  assume e: "e = bce_cq_element cq (cq_index cq)" and p: "\<not> \<not> completion_pending e"
  then have "unat (cq_index cq) < length (cq_data cq)" "e = cq_data cq ! unat (cq_index cq)"
    by (auto simp: bce_cq_element_def split: if_splits)
  with p show "((cq\<lparr>cq_data := (cq_data cq)[unat (cq_index cq) := e\<lparr>ce_flags := 0\<rparr>],
        cq_index := ring_next (cq_el_count cq) (cq_index cq)\<rparr>, bce_handle_cq_completion e st),
      cq, st) \<in> measure (\<lambda>(cq, st). length (filter completion_pending (cq_data cq)))"
    by (simp add: length_filter_update_less)
qed simp

declare poll_loop.simps [simp del]

definition bce_poll_cq :: "addr \<Rightarrow> nat \<times> apple_bce_device \<Rightarrow> nat \<times> apple_bce_device" where
  "bce_poll_cq a st = (case st of (ce, dev) \<Rightarrow>
     case dev_heap dev a of
       Some (Queue_CQ cq) \<Rightarrow>
         if \<not> completion_pending (bce_cq_element cq (cq_index cq)) then (ce, dev)
         else
           let (cq', ce', dev') = poll_loop cq (ce, dev);
               dev'' = set_cq a cq' dev'
           in (ce', dev''\<lparr>dev_log := dev_log dev'' @
                 [Ev_write (int REG_DOORBELL_BASE + 4 * cq_qid cq') (cq_index cq')]\<rparr>)
     | _ \<Rightarrow> (ce, dev))"

text \<open>\<open>run cb a\<close> is the call of the function \<open>cb\<close> with the queue at address \<open>a\<close>.\<close>

definition dispatch_one :: "(bce_sq_completion \<Rightarrow> addr \<Rightarrow> apple_bce_device \<Rightarrow> apple_bce_device)
    \<Rightarrow> nat \<Rightarrow> apple_bce_device \<Rightarrow> apple_bce_device" where
  "dispatch_one run i dev =
     (let a = dev_int_sq_list dev ! i in
      case dev_heap dev a of
        Some (Queue_SQ sq) \<Rightarrow>
          let dev1 = run (sq_completion sq) a
                (dev\<lparr>dev_log := dev_log dev @ [Ev_callback (sq_completion sq) a]\<rparr>)
          in (case dev_heap dev1 a of
                Some (Queue_SQ sq1) \<Rightarrow> set_sq a (sq1\<lparr>sq_has_pending_completions := False\<rparr>) dev1
              | _ \<Rightarrow> dev1)
      | _ \<Rightarrow> dev)"

definition bce_dispatch_sq_completions ::
  "(bce_sq_completion \<Rightarrow> addr \<Rightarrow> apple_bce_device \<Rightarrow> apple_bce_device)
     \<Rightarrow> nat \<Rightarrow> apple_bce_device \<Rightarrow> apple_bce_device" where
  "bce_dispatch_sq_completions run ce dev = fold (dispatch_one run) [0..<ce] dev"

definition bce_handle_dma_irq ::
  "(bce_sq_completion \<Rightarrow> addr \<Rightarrow> apple_bce_device \<Rightarrow> apple_bce_device)
     \<Rightarrow> apple_bce_device \<Rightarrow> apple_bce_device" where
  "bce_handle_dma_irq run dev =
     (let (ce, dev') = fold bce_poll_cq (dev_cq_list dev) (0, dev)
      in bce_dispatch_sq_completions run ce dev')"

definition bce_handle_mb_irq ::
  "u32 \<Rightarrow> (nat \<Rightarrow> u32 \<times> u32) \<Rightarrow> apple_bce_device \<Rightarrow> apple_bce_device" where
  "bce_handle_mb_irq res replies dev =
     dev\<lparr>dev_mbox := snd (bce_mailbox_handle_interrupt res replies (dev_mbox dev))\<rparr>"

section \<open>Polling one completion queue\<close>

text \<open>The entries a poll finds: from the index on, around the ring, up to the first one that
  is not pending.\<close>

definition cq_window :: "bce_queue_cq \<Rightarrow> bce_qe_completion list" where
  "cq_window cq = takeWhile completion_pending (rotate (unat (cq_index cq)) (cq_data cq))"

definition cq_ok :: "bce_queue_cq \<Rightarrow> bool" where
  "cq_ok cq \<longleftrightarrow> cq_index cq < cq_el_count cq \<and> length (cq_data cq) = unat (cq_el_count cq)"

definition cq_consume :: "bce_qe_completion \<Rightarrow> bce_queue_cq \<Rightarrow> bce_queue_cq" where
  "cq_consume e cq = cq\<lparr>cq_data := (cq_data cq)[unat (cq_index cq) := e\<lparr>ce_flags := 0\<rparr>],
     cq_index := ring_next (cq_el_count cq) (cq_index cq)\<rparr>"

lemma rotate_split:
  assumes "i < length xs"
  shows "rotate i xs = xs ! i # drop (Suc i) xs @ take i xs"
  using assms by (simp add: rotate_drop_take Cons_nth_drop_Suc flip: append_Cons)

lemma rotate_consume:
  assumes "i < length xs"
  shows "rotate (Suc i mod length xs) (xs[i := y]) = drop (Suc i) xs @ take i xs @ [y]"
proof -
  have "rotate (Suc i mod length xs) (xs[i := y]) = rotate (Suc i) (xs[i := y])"
    using rotate_conv_mod [of "Suc i" "xs[i := y]"] by simp
  also have "\<dots> = rotate1 (rotate i (xs[i := y]))" by (simp add: rotate1_rotate_swap)
  also have "\<dots> = drop (Suc i) xs @ take i xs @ [y]"
    using assms by (simp add: rotate_split)
  finally show ?thesis .
qed

lemma cq_element_ok: "cq_ok cq \<Longrightarrow> bce_cq_element cq (cq_index cq) = cq_data cq ! unat (cq_index cq)"
  by (simp add: bce_cq_element_def cq_ok_def word_less_nat_alt)

lemma cq_window_cases:
  assumes "cq_ok cq"
  defines "e \<equiv> bce_cq_element cq (cq_index cq)"
  shows "cq_window cq = (if completion_pending e then e # cq_window (cq_consume e cq) else [])"
    and "cq_ok (cq_consume e cq)"
proof -
  let ?i = "unat (cq_index cq)" let ?n = "unat (cq_el_count cq)"
  have i: "?i < length (cq_data cq)" and len: "length (cq_data cq) = ?n"
    using assms(1) by (simp_all add: cq_ok_def word_less_nat_alt)
  have e: "e = cq_data cq ! ?i" using assms(1) by (simp add: e_def cq_element_ok)
  have idx: "unat (cq_index (cq_consume e cq)) = Suc ?i mod length (cq_data cq)"
    using assms(1) len by (simp add: cq_consume_def unat_ring_next cq_ok_def)
  show "cq_ok (cq_consume e cq)"
    using assms(1) by (simp add: cq_ok_def cq_consume_def word_less_nat_alt unat_ring_next_less)
  have "cq_window (cq_consume e cq)
      = takeWhile completion_pending ((drop (Suc ?i) (cq_data cq) @ take ?i (cq_data cq))
          @ [e\<lparr>ce_flags := 0\<rparr>])"
    unfolding cq_window_def idx using rotate_consume [OF i] by (simp add: cq_consume_def)
  also have "\<dots> = takeWhile completion_pending (drop (Suc ?i) (cq_data cq) @ take ?i (cq_data cq))"
    by (rule takeWhile_tail) simp
  finally show "cq_window cq = (if completion_pending e then e # cq_window (cq_consume e cq) else [])"
    using rotate_split [OF i] by (simp add: cq_window_def e)
qed

lemma poll_loop_step:
  "completion_pending (bce_cq_element cq (cq_index cq)) \<Longrightarrow>
     poll_loop cq st = poll_loop (cq_consume (bce_cq_element cq (cq_index cq)) cq)
       (bce_handle_cq_completion (bce_cq_element cq (cq_index cq)) st)"
  "\<not> completion_pending (bce_cq_element cq (cq_index cq)) \<Longrightarrow> poll_loop cq st = (cq, st)"
  by (simp_all add: poll_loop.simps [of cq] cq_consume_def Let_def)

text \<open>The poll loop hands exactly the pending window to the completion handler, in order.\<close>

lemma poll_loop_window:
  assumes "cq_ok cq"
  shows "poll_loop cq st
    = (fold cq_consume (cq_window cq) cq, fold bce_handle_cq_completion (cq_window cq) st)"
  using assms
proof (induction cq st rule: poll_loop.induct)
  case (1 cq st)
  let ?e = "bce_cq_element cq (cq_index cq)"
  show ?case
  proof (cases "completion_pending ?e")
    case True
    have "poll_loop (cq_consume ?e cq) (bce_handle_cq_completion ?e st)
        = (fold cq_consume (cq_window (cq_consume ?e cq)) (cq_consume ?e cq),
           fold bce_handle_cq_completion (cq_window (cq_consume ?e cq))
             (bce_handle_cq_completion ?e st))"
      using "1.IH" [OF refl, folded cq_consume_def] True cq_window_cases(2) [OF "1.prems"] by simp
    then show ?thesis
      using True cq_window_cases(1) [OF "1.prems"] by (simp add: poll_loop_step)
  next
    case False
    then show ?thesis
      using cq_window_cases(1) [OF "1.prems"] by (simp add: poll_loop_step)
  qed
qed

lemma cq_consume_frame [simp]:
  "cq_qid (cq_consume e cq) = cq_qid cq" "cq_el_count (cq_consume e cq) = cq_el_count cq"
  by (simp_all add: cq_consume_def)

lemma fold_cq_consume_frame [simp]:
  "cq_qid (fold cq_consume es cq) = cq_qid cq"
  "cq_el_count (fold cq_consume es cq) = cq_el_count cq"
  by (induction es arbitrary: cq) simp_all

lemma consume_window_index:
  assumes "cq_ok cq" and "cq_window cq = es"
  shows "cq_ok (fold cq_consume es cq)
    \<and> unat (cq_index (fold cq_consume es cq))
      = (unat (cq_index cq) + length es) mod unat (cq_el_count cq)"
  using assms
proof (induction es arbitrary: cq)
  case Nil
  then show ?case by (simp add: cq_ok_def word_less_nat_alt)
next
  case (Cons e es)
  let ?e = "bce_cq_element cq (cq_index cq)"
  have "?e = e" "cq_window (cq_consume ?e cq) = es"
    using Cons.prems(2) cq_window_cases(1) [OF Cons.prems(1)] by (auto split: if_splits)
  then have win: "cq_window (cq_consume e cq) = es" and ok: "cq_ok (cq_consume e cq)"
    using cq_window_cases(2) [OF Cons.prems(1)] by simp_all
  have "unat (cq_index (cq_consume e cq)) = Suc (unat (cq_index cq)) mod unat (cq_el_count cq)"
    using Cons.prems(1) by (simp add: cq_consume_def unat_ring_next cq_ok_def)
  with Cons.IH [OF ok win] show ?case by (simp add: mod_add_left_eq)
qed

section \<open>The completion list\<close>

definition pending_sqs :: "apple_bce_device \<Rightarrow> addr set" where
  "pending_sqs dev
     = {a. \<exists>q. dev_heap dev a = Some (Queue_SQ q) \<and> sq_has_pending_completions q}"

text \<open>The table and the lists name live objects that know their place.\<close>

definition dev_ok :: "apple_bce_device \<Rightarrow> bool" where
  "dev_ok dev \<longleftrightarrow> length (dev_queues dev) = BCE_MAX_QUEUE_COUNT
     \<and> length (dev_int_sq_list dev) = BCE_MAX_QUEUE_COUNT
     \<and> (\<forall>k a. dev_queue_at dev k = Some a \<longrightarrow>
          (\<exists>obj. dev_heap dev a = Some obj \<and> queue_qid obj = int k))
     \<and> distinct (dev_cq_list dev)
     \<and> (\<forall>a \<in> set (dev_cq_list dev). \<exists>cq. dev_heap dev a = Some (Queue_CQ cq) \<and> cq_ok cq)"

lemma dev_okD:
  assumes "dev_ok dev"
  shows "length (dev_queues dev) = BCE_MAX_QUEUE_COUNT"
    "length (dev_int_sq_list dev) = BCE_MAX_QUEUE_COUNT"
    "dev_queue_at dev k = Some a \<Longrightarrow> \<exists>obj. dev_heap dev a = Some obj \<and> queue_qid obj = int k"
    "distinct (dev_cq_list dev)"
    "a \<in> set (dev_cq_list dev) \<Longrightarrow> \<exists>cq. dev_heap dev a = Some (Queue_CQ cq) \<and> cq_ok cq"
  using assms by (simp_all add: dev_ok_def)

text \<open>The first \<open>ce\<close> entries of \<open>int_sq_list\<close> are the queues with unhandled completions.\<close>

definition list_ok :: "nat \<Rightarrow> apple_bce_device \<Rightarrow> bool" where
  "list_ok ce dev \<longleftrightarrow> ce \<le> BCE_MAX_QUEUE_COUNT \<and> distinct (take ce (dev_int_sq_list dev))
     \<and> set (take ce (dev_int_sq_list dev)) = pending_sqs dev
     \<and> (\<forall>a \<in> pending_sqs dev. Some a \<in> set (dev_queues dev))"

text \<open>What one entry does to the queue it is addressed to.\<close>

definition sq_accept :: "bce_qe_completion \<Rightarrow> bce_queue_sq \<Rightarrow> bce_queue_sq" where
  "sq_accept e q =
     (if sq_completion_tail q \<noteq> ucast (ce_completion_index e) then q
      else sq_push_completion e (q\<lparr>sq_has_pending_completions := True\<rparr>))"

lemma handle_cases:
  assumes "dev_ok dev"
  shows "(\<exists>a q. dev_queue_at dev (unat (ce_qid e)) = Some a \<and> dev_heap dev a = Some (Queue_SQ q)
      \<and> sq_completion_tail q = ucast (ce_completion_index e)
      \<and> bce_handle_cq_completion e (ce, dev) =
         (if sq_has_pending_completions q then (ce, set_sq a (sq_accept e q) dev)
          else (ce + 1, set_sq a (sq_accept e q)
                  (dev\<lparr>dev_int_sq_list := (dev_int_sq_list dev)[ce := a]\<rparr>))))
    \<or> (bce_handle_cq_completion e (ce, dev) = (ce, dev)
      \<and> (\<forall>a q. dev_queue_at dev (unat (ce_qid e)) = Some a \<longrightarrow> dev_heap dev a = Some (Queue_SQ q)
           \<longrightarrow> sq_accept e q = q))"
proof (cases "dev_queue_at dev (unat (ce_qid e))")
  case None
  then show ?thesis by (simp add: bce_handle_cq_completion_def)
next
  case (Some a)
  then have k: "unat (ce_qid e) < BCE_MAX_QUEUE_COUNT"
    using assms by (auto simp: dev_queue_at_def dev_ok_def split: if_splits)
  obtain obj where obj: "dev_heap dev a = Some obj" using dev_okD(3) [OF assms Some] by blast
  show ?thesis
  proof (cases obj)
    case (Queue_CQ cq)
    with Some obj k show ?thesis by (simp add: bce_handle_cq_completion_def)
  next
    case (Queue_SQ q)
    have same: "q\<lparr>sq_has_pending_completions := True\<rparr> = q" if "sq_has_pending_completions q"
      using that by (cases q) simp
    show ?thesis
      using Some obj k Queue_SQ
      by (cases "sq_completion_tail q = ucast (ce_completion_index e)";
          cases "sq_has_pending_completions q")
        (simp_all add: bce_handle_cq_completion_def sq_accept_def same)
  qed
qed

lemma sq_accept_frame [simp]:
  "sq_qid (sq_accept e q) = sq_qid q" "sq_completion (sq_accept e q) = sq_completion q"
  "sq_userdata (sq_accept e q) = sq_userdata q"
  by (simp_all add: sq_accept_def sq_push_completion_def)

lemma sq_accept_pending:
  "sq_has_pending_completions q \<Longrightarrow> sq_has_pending_completions (sq_accept e q)"
  "sq_completion_tail q = ucast (ce_completion_index e)
     \<Longrightarrow> sq_has_pending_completions (sq_accept e q)"
  by (simp_all add: sq_accept_def sq_push_completion_def)

text \<open>Everything the handling of one entry leaves alone.\<close>

lemma handle_frame:
  assumes "dev_ok dev" and "bce_handle_cq_completion e (ce, dev) = (ce', dev')"
  shows "dev_queues dev' = dev_queues dev" "dev_cq_list dev' = dev_cq_list dev"
    "dev_log dev' = dev_log dev" "length (dev_int_sq_list dev') = length (dev_int_sq_list dev)"
    "dev_heap dev a = Some (Queue_CQ cq) \<Longrightarrow> dev_heap dev' a = Some (Queue_CQ cq)"
    "dev_heap dev a = Some (Queue_SQ q) \<Longrightarrow> dev_heap dev' a = Some (Queue_SQ
       (if dev_queue_at dev (unat (ce_qid e)) = Some a then sq_accept e q else q))"
    "dev_heap dev a = None \<Longrightarrow> dev_heap dev' a = None"
proof -
  let ?b = "dev_queue_at dev (unat (ce_qid e))"
  have eff: "dev_queues dev' = dev_queues dev \<and> dev_cq_list dev' = dev_cq_list dev
    \<and> dev_log dev' = dev_log dev \<and> length (dev_int_sq_list dev') = length (dev_int_sq_list dev)
    \<and> dev_heap dev' = (case ?b of None \<Rightarrow> dev_heap dev | Some b \<Rightarrow>
        (case dev_heap dev b of
           Some (Queue_SQ q) \<Rightarrow> (dev_heap dev)(b \<mapsto> Queue_SQ (sq_accept e q))
         | _ \<Rightarrow> dev_heap dev))"
    using handle_cases [OF assms(1), of e ce]
  proof (elim disjE exE conjE)
    fix b p
    assume "?b = Some b" "dev_heap dev b = Some (Queue_SQ p)"
      "bce_handle_cq_completion e (ce, dev) =
         (if sq_has_pending_completions p then (ce, set_sq b (sq_accept e p) dev)
          else (ce + 1, set_sq b (sq_accept e p)
                  (dev\<lparr>dev_int_sq_list := (dev_int_sq_list dev)[ce := b]\<rparr>)))"
    with assms(2) show ?thesis by (cases "sq_has_pending_completions p") auto
  next
    assume "bce_handle_cq_completion e (ce, dev) = (ce, dev)"
      "\<forall>a q. ?b = Some a \<longrightarrow> dev_heap dev a = Some (Queue_SQ q) \<longrightarrow> sq_accept e q = q"
    with assms(2) show ?thesis by (auto simp: fun_eq_iff split: option.split bce_queue.split)
  qed
  then show "dev_queues dev' = dev_queues dev" "dev_cq_list dev' = dev_cq_list dev"
    "dev_log dev' = dev_log dev" "length (dev_int_sq_list dev') = length (dev_int_sq_list dev)"
    by blast+
  show "dev_heap dev a = Some (Queue_CQ cq) \<Longrightarrow> dev_heap dev' a = Some (Queue_CQ cq)"
    using eff by (auto split: option.splits bce_queue.splits)
  show "dev_heap dev a = Some (Queue_SQ q) \<Longrightarrow> dev_heap dev' a = Some (Queue_SQ
       (if dev_queue_at dev (unat (ce_qid e)) = Some a then sq_accept e q else q))"
    using eff by (auto split: option.splits bce_queue.splits)
  show "dev_heap dev a = None \<Longrightarrow> dev_heap dev' a = None"
    using eff by (auto split: option.splits bce_queue.splits)
qed

lemma handle_dev_ok:
  assumes "dev_ok dev" and "bce_handle_cq_completion e (ce, dev) = (ce', dev')"
  shows "dev_ok dev'"
proof -
  note fr = handle_frame [OF assms]
  have "\<exists>obj. dev_heap dev' a = Some obj \<and> queue_qid obj = int k"
    if at: "dev_queue_at dev' k = Some a" for k a
  proof -
    have "dev_queue_at dev k = Some a" using at unfolding dev_queue_at_def fr(1) .
    then obtain obj where obj: "dev_heap dev a = Some obj" "queue_qid obj = int k"
      using dev_okD(3) [OF assms(1)] by blast
    then show ?thesis using fr(5,6) [of a] by (cases obj) auto
  qed
  moreover have "\<forall>a \<in> set (dev_cq_list dev'). \<exists>cq. dev_heap dev' a = Some (Queue_CQ cq) \<and> cq_ok cq"
    using dev_okD(5) [OF assms(1)] fr(2,5) by (metis (no_types, lifting))
  ultimately show ?thesis using dev_okD(1,2,4) [OF assms(1)] fr(1-4) by (simp add: dev_ok_def)
qed

lemma pending_room:
  assumes "dev_ok dev" and "list_ok ce dev" and "Some a \<in> set (dev_queues dev)"
    and "a \<notin> pending_sqs dev"
  shows "ce < BCE_MAX_QUEUE_COUNT"
proof -
  let ?l = "take ce (dev_int_sq_list dev)"
  have len: "length ?l = ce" and d: "distinct ?l" and s: "set ?l = pending_sqs dev"
    using assms(1,2) by (auto simp: dev_ok_def list_ok_def)
  have "Some ` set (a # ?l) \<subseteq> set (dev_queues dev)"
    using assms(2,3) s by (auto simp: list_ok_def)
  then have "card (Some ` set (a # ?l)) \<le> card (set (dev_queues dev))"
    by (simp add: card_mono)
  moreover have "card (Some ` set (a # ?l)) = Suc ce"
  proof -
    have "card (Some ` set (a # ?l)) = card (set (a # ?l))" by (rule card_image) (simp only: inj_Some inj_on_subset [OF inj_Some])
    also have "\<dots> = Suc ce" using distinct_card [of "a # ?l"] d s assms(4) len by simp
    finally show ?thesis .
  qed
  moreover have "card (set (dev_queues dev)) \<le> BCE_MAX_QUEUE_COUNT"
    using card_length [of "dev_queues dev"] assms(1) by (simp add: dev_ok_def)
  ultimately show ?thesis by simp
qed

lemma handle_list_ok:
  assumes "dev_ok dev" and "list_ok ce dev"
    and "bce_handle_cq_completion e (ce, dev) = (ce', dev')"
  shows "list_ok ce' dev'"
  using handle_cases [OF assms(1), of e ce]
proof (elim disjE exE conjE)
  fix a q
  assume at: "dev_queue_at dev (unat (ce_qid e)) = Some a"
    and hp: "dev_heap dev a = Some (Queue_SQ q)"
    and tl: "sq_completion_tail q = ucast (ce_completion_index e)"
    and h: "bce_handle_cq_completion e (ce, dev) =
         (if sq_has_pending_completions q then (ce, set_sq a (sq_accept e q) dev)
          else (ce + 1, set_sq a (sq_accept e q)
                  (dev\<lparr>dev_int_sq_list := (dev_int_sq_list dev)[ce := a]\<rparr>)))"
  have reg: "Some a \<in> set (dev_queues dev)"
    using at by (metis dev_queue_at_def nth_mem option.distinct(1))
  have acc: "sq_has_pending_completions (sq_accept e q)" by (rule sq_accept_pending(2) [OF tl])
  have grow: "pending_sqs (set_sq a (sq_accept e q) d) = insert a (pending_sqs d)" for d
    using acc by (auto simp: pending_sqs_def set_sq_def)
  show ?thesis
  proof (cases "sq_has_pending_completions q")
    case True
    then have "a \<in> pending_sqs dev" using hp by (simp add: pending_sqs_def)
    with True h assms(2,3) grow [of dev] show ?thesis
      by (auto simp: list_ok_def insert_absorb)
  next
    case False
    then have new: "a \<notin> pending_sqs dev" using hp by (simp add: pending_sqs_def)
    have room: "ce < length (dev_int_sq_list dev)"
      using pending_room [OF assms(1,2) reg new] assms(1) by (simp add: dev_ok_def)
    have "take (Suc ce) ((dev_int_sq_list dev)[ce := a]) = take ce (dev_int_sq_list dev) @ [a]"
      using room by (simp add: take_Suc_conv_app_nth)
    moreover have "pending_sqs (dev\<lparr>dev_int_sq_list := (dev_int_sq_list dev)[ce := a]\<rparr>)
        = pending_sqs dev" by (simp add: pending_sqs_def)
    ultimately show ?thesis
      using False h assms(2,3) new reg room grow dev_okD(2) [OF assms(1)]
      by (auto simp: list_ok_def)
  qed
qed (use assms(2,3) in simp)

section \<open>Polling every completion queue\<close>

definition for_qid :: "nat \<Rightarrow> bce_qe_completion list \<Rightarrow> bce_qe_completion list" where
  "for_qid k es = filter (\<lambda>e. unat (ce_qid e) = k) es"

lemma queue_at_inj:
  assumes "dev_ok dev" and "dev_queue_at dev j = Some a" and "dev_queue_at dev k = Some a"
  shows "j = k"
  using dev_okD(3) [OF assms(1,2)] dev_okD(3) [OF assms(1,3)] by auto

lemma fold_handle:
  assumes "dev_ok dev" and "list_ok ce dev"
    and "fold bce_handle_cq_completion es (ce, dev) = (ce', dev')"
  shows "dev_ok dev' \<and> list_ok ce' dev' \<and> dev_queues dev' = dev_queues dev
    \<and> dev_cq_list dev' = dev_cq_list dev \<and> dev_log dev' = dev_log dev
    \<and> (\<forall>b cq. dev_heap dev b = Some (Queue_CQ cq) \<longrightarrow> dev_heap dev' b = Some (Queue_CQ cq))
    \<and> (\<forall>b q k. dev_heap dev b = Some (Queue_SQ q) \<longrightarrow> dev_queue_at dev k = Some b \<longrightarrow>
         dev_heap dev' b = Some (Queue_SQ (fold sq_accept (for_qid k es) q)))"
  using assms
proof (induction es arbitrary: ce dev)
  case Nil
  then show ?case by (simp add: for_qid_def)
next
  case (Cons e es)
  obtain ce1 dev1 where h: "bce_handle_cq_completion e (ce, dev) = (ce1, dev1)"
    by (cases "bce_handle_cq_completion e (ce, dev)")
  note fr = handle_frame [OF Cons.prems(1) h]
  note ok = handle_dev_ok [OF Cons.prems(1) h] handle_list_ok [OF Cons.prems(1,2) h]
  have at: "dev_queue_at dev1 k = dev_queue_at dev k" for k
    unfolding dev_queue_at_def fr(1) ..
  have IH: "dev_ok dev' \<and> list_ok ce' dev' \<and> dev_queues dev' = dev_queues dev1
    \<and> dev_cq_list dev' = dev_cq_list dev1 \<and> dev_log dev' = dev_log dev1
    \<and> (\<forall>b cq. dev_heap dev1 b = Some (Queue_CQ cq) \<longrightarrow> dev_heap dev' b = Some (Queue_CQ cq))
    \<and> (\<forall>b q k. dev_heap dev1 b = Some (Queue_SQ q) \<longrightarrow> dev_queue_at dev1 k = Some b \<longrightarrow>
         dev_heap dev' b = Some (Queue_SQ (fold sq_accept (for_qid k es) q)))"
    using Cons.IH [OF ok] Cons.prems(3) h by simp
  have sq: "dev_heap dev' b = Some (Queue_SQ (fold sq_accept (for_qid k (e # es)) q))"
    if "dev_heap dev b = Some (Queue_SQ q)" "dev_queue_at dev k = Some b" for b q k
  proof -
    have "dev_queue_at dev (unat (ce_qid e)) = Some b \<longleftrightarrow> unat (ce_qid e) = k"
      using that(2) queue_at_inj [OF Cons.prems(1)] by auto
    with fr(6) [OF that(1)] have "dev_heap dev1 b
        = Some (Queue_SQ (if unat (ce_qid e) = k then sq_accept e q else q))" by simp
    then show ?thesis using IH that(2) at by (simp add: for_qid_def)
  qed
  have cqs: "dev_heap dev' b = Some (Queue_CQ cq)" if "dev_heap dev b = Some (Queue_CQ cq)" for b cq
    using IH fr(5) [OF that] by blast
  show ?case using IH fr(1-3) sq cqs by simp
qed

definition cq_ack :: "bce_queue_cq \<Rightarrow> dev_event list" where
  "cq_ack cq = (if cq_window cq = [] then []
     else [Ev_write (0x44000 + 4 * cq_qid cq)
       (of_nat ((unat (cq_index cq) + length (cq_window cq)) mod unat (cq_el_count cq)))])"

lemma poll_cq_unfold:
  assumes "dev_heap dev a = Some (Queue_CQ cq)" and "cq_ok cq"
    and "fold bce_handle_cq_completion (cq_window cq) (ce, dev) = (ce', dev')"
  shows "bce_poll_cq a (ce, dev) = (ce', (set_cq a (fold cq_consume (cq_window cq) cq) dev')
    \<lparr>dev_log := dev_log dev' @ cq_ack cq\<rparr>)"
proof (cases "cq_window cq = []")
  case True
  then have "\<not> completion_pending (bce_cq_element cq (cq_index cq))"
    using cq_window_cases(1) [OF assms(2)] by (auto split: if_splits)
  moreover have "set_cq a cq dev = dev"
    using assms(1) by (simp add: set_cq_def fun_upd_idem)
  ultimately show ?thesis using True assms(1,3) by (simp add: bce_poll_cq_def cq_ack_def)
next
  case False
  then have p: "completion_pending (bce_cq_element cq (cq_index cq))"
    using cq_window_cases(1) [OF assms(2)] by (auto split: if_splits)
  have "cq_index (fold cq_consume (cq_window cq) cq)
      = of_nat ((unat (cq_index cq) + length (cq_window cq)) mod unat (cq_el_count cq))"
    using consume_window_index [OF assms(2) refl] by (metis of_nat_unat_word)
  then show ?thesis
    using p False assms by (simp add: bce_poll_cq_def poll_loop_window cq_ack_def)
qed

lemma pending_set_cq:
  "dev_heap dev a = Some (Queue_CQ cq) \<Longrightarrow>
     pending_sqs ((set_cq a cq' dev)\<lparr>dev_log := l\<rparr>) = pending_sqs dev"
  by (auto simp: pending_sqs_def)

lemma poll_effect:
  assumes "dev_ok dev" and "list_ok ce dev" and cq: "dev_heap dev a = Some (Queue_CQ cq)" "cq_ok cq"
    and "bce_poll_cq a (ce, dev) = (ce', dev')"
  shows "dev_ok dev' \<and> list_ok ce' dev' \<and> dev_queues dev' = dev_queues dev
    \<and> dev_cq_list dev' = dev_cq_list dev \<and> dev_log dev' = dev_log dev @ cq_ack cq
    \<and> dev_heap dev' a = Some (Queue_CQ (fold cq_consume (cq_window cq) cq))
    \<and> (\<forall>b c. b \<noteq> a \<longrightarrow> dev_heap dev b = Some (Queue_CQ c) \<longrightarrow> dev_heap dev' b = Some (Queue_CQ c))
    \<and> (\<forall>b q k. dev_heap dev b = Some (Queue_SQ q) \<longrightarrow> dev_queue_at dev k = Some b \<longrightarrow>
         dev_heap dev' b = Some (Queue_SQ (fold sq_accept (for_qid k (cq_window cq)) q)))"
proof -
  obtain ce1 d where h: "fold bce_handle_cq_completion (cq_window cq) (ce, dev) = (ce1, d)"
    by (cases "fold bce_handle_cq_completion (cq_window cq) (ce, dev)")
  note fo = fold_handle [OF assms(1,2) h]
  have cqd: "dev_heap d a = Some (Queue_CQ cq)" using fo cq(1) by simp
  have ce': "ce' = ce1" and dev': "dev' = (set_cq a (fold cq_consume (cq_window cq) cq) d)
      \<lparr>dev_log := dev_log d @ cq_ack cq\<rparr>"
    using poll_cq_unfold [OF cq h] assms(5) by simp_all
  have fin: "cq_ok (fold cq_consume (cq_window cq) cq)"
    using consume_window_index [OF cq(2) refl] by simp
  have "dev_ok dev'"
    using fo cqd fin unfolding dev' dev_ok_def dev_queue_at_def
    by (auto simp: split: if_splits)
  moreover have "list_ok ce' dev'"
    using fo pending_set_cq [OF cqd] unfolding ce' dev' list_ok_def by auto
  ultimately show ?thesis using fo cq(1) by (auto simp: dev')
qed

text \<open>The entries all completion queues of a list have pending, and their acknowledgements.\<close>

definition cq_at :: "apple_bce_device \<Rightarrow> addr \<Rightarrow> bce_queue_cq" where
  "cq_at dev a = (case dev_heap dev a of Some (Queue_CQ cq) \<Rightarrow> cq
     | _ \<Rightarrow> \<lparr>cq_qid = 0, cq_el_count = 0, cq_dma_handle = 0, cq_data = [], cq_index = 0\<rparr>)"

definition pending_entries :: "apple_bce_device \<Rightarrow> bce_qe_completion list" where
  "pending_entries dev = concat (map (\<lambda>a. cq_window (cq_at dev a)) (dev_cq_list dev))"

definition poll_acks :: "apple_bce_device \<Rightarrow> dev_event list" where
  "poll_acks dev = concat (map (\<lambda>a. cq_ack (cq_at dev a)) (dev_cq_list dev))"

lemma fold_poll:
  assumes "dev_ok dev" and "list_ok ce dev" and "distinct as" and "set as \<subseteq> set (dev_cq_list dev)"
    and "fold bce_poll_cq as (ce, dev) = (ce', dev')"
  shows "dev_ok dev' \<and> list_ok ce' dev' \<and> dev_queues dev' = dev_queues dev
    \<and> dev_cq_list dev' = dev_cq_list dev
    \<and> dev_log dev' = dev_log dev @ concat (map (\<lambda>a. cq_ack (cq_at dev a)) as)
    \<and> (\<forall>b q k. dev_heap dev b = Some (Queue_SQ q) \<longrightarrow> dev_queue_at dev k = Some b \<longrightarrow>
         dev_heap dev' b = Some (Queue_SQ
           (fold sq_accept (for_qid k (concat (map (\<lambda>a. cq_window (cq_at dev a)) as))) q)))"
  using assms
proof (induction as arbitrary: ce dev)
  case Nil
  then show ?case by (simp add: for_qid_def)
next
  case (Cons a as)
  obtain cq where cq: "dev_heap dev a = Some (Queue_CQ cq)" "cq_ok cq"
    using dev_okD(5) [OF Cons.prems(1)] Cons.prems(4) by auto
  obtain ce1 d where p: "bce_poll_cq a (ce, dev) = (ce1, d)" by (cases "bce_poll_cq a (ce, dev)")
  note pe = poll_effect [OF Cons.prems(1,2) cq p]
  have same: "cq_at d b = cq_at dev b" if "b \<in> set as" for b
  proof -
    have "b \<noteq> a" using Cons.prems(3) that by auto
    moreover obtain c where "dev_heap dev b = Some (Queue_CQ c)"
      using dev_okD(5) [OF Cons.prems(1), of b] Cons.prems(4) \<open>b \<in> set as\<close> by auto
    ultimately show ?thesis using pe by (simp add: cq_at_def)
  qed
  have maps: "map (\<lambda>a. cq_ack (cq_at d a)) as = map (\<lambda>a. cq_ack (cq_at dev a)) as"
    "map (\<lambda>a. cq_window (cq_at d a)) as = map (\<lambda>a. cq_window (cq_at dev a)) as"
    using same by simp_all
  have IH: "dev_ok dev' \<and> list_ok ce' dev' \<and> dev_queues dev' = dev_queues d
    \<and> dev_cq_list dev' = dev_cq_list d
    \<and> dev_log dev' = dev_log d @ concat (map (\<lambda>a. cq_ack (cq_at d a)) as)
    \<and> (\<forall>b q k. dev_heap d b = Some (Queue_SQ q) \<longrightarrow> dev_queue_at d k = Some b \<longrightarrow>
         dev_heap dev' b = Some (Queue_SQ
           (fold sq_accept (for_qid k (concat (map (\<lambda>a. cq_window (cq_at d a)) as))) q)))"
    using Cons.IH [of d ce1] pe Cons.prems(3-5) p by simp
  have at: "dev_queue_at d k = dev_queue_at dev k" for k
    using pe unfolding dev_queue_at_def by metis
  have sq: "dev_heap dev' b = Some (Queue_SQ (fold sq_accept
      (for_qid k (concat (map (\<lambda>a. cq_window (cq_at dev a)) (a # as)))) q))"
    if "dev_heap dev b = Some (Queue_SQ q)" "dev_queue_at dev k = Some b" for b q k
  proof -
    have "dev_heap d b = Some (Queue_SQ (fold sq_accept (for_qid k (cq_window cq)) q))"
      using pe that by blast
    moreover have "dev_queue_at d k = Some b" using that(2) at by simp
    ultimately have "dev_heap dev' b = Some (Queue_SQ (fold sq_accept
        (for_qid k (concat (map (\<lambda>a. cq_window (cq_at dev a)) as)))
        (fold sq_accept (for_qid k (cq_window cq)) q)))"
      using IH unfolding maps by blast
    then show ?thesis using cq(1) by (simp add: for_qid_def cq_at_def)
  qed
  have log: "dev_log dev' = dev_log dev @ concat (map (\<lambda>a. cq_ack (cq_at dev a)) (a # as))"
    using IH pe cq(1) unfolding maps by (simp add: cq_at_def)
  show ?case
    using IH pe log sq by (metis (no_types, lifting))
qed

text \<open>
  Property C5. The first phase of the DMA interrupt harvests exactly what is pending:
  each completion queue on the list is read from its index up to the first entry that is not
  pending and acknowledged once if it had any; each published submission queue receives, in
  ring order, exactly the entries with its queue id; the queues to dispatch are listed once
  each, and their number stays within the 256 slots of \<open>int_sq_list\<close>.
\<close>

theorem dma_irq_harvest:
  assumes "dev_ok dev" and "pending_sqs dev = {}"
    and "fold bce_poll_cq (dev_cq_list dev) (0, dev) = (ce, dev')"
  shows "dev_ok dev' \<and> ce \<le> 256 \<and> distinct (take ce (dev_int_sq_list dev'))
    \<and> set (take ce (dev_int_sq_list dev')) = pending_sqs dev'
    \<and> dev_log dev' = dev_log dev @ poll_acks dev
    \<and> (\<forall>a q k. dev_heap dev a = Some (Queue_SQ q) \<longrightarrow> dev_queue_at dev k = Some a \<longrightarrow>
         dev_heap dev' a
           = Some (Queue_SQ (fold sq_accept (for_qid k (pending_entries dev)) q)))"
proof -
  have "list_ok 0 dev" using assms(2) by (simp add: list_ok_def)
  from fold_poll [OF assms(1) this dev_okD(4) [OF assms(1)] subset_refl assms(3)]
  show ?thesis unfolding list_ok_def poll_acks_def pending_entries_def by (metis (no_types))
qed

section \<open>Dispatching the handlers\<close>

text \<open>
  What the interrupt relies on from a completion handler: it leaves the scratch list alone
  and does not mark a queue as having harvested completions.
\<close>

definition callbacks_ok ::
  "(bce_sq_completion \<Rightarrow> addr \<Rightarrow> apple_bce_device \<Rightarrow> apple_bce_device) \<Rightarrow> bool" where
  "callbacks_ok run \<longleftrightarrow> (\<forall>cb a d. dev_int_sq_list (run cb a d) = dev_int_sq_list d
     \<and> pending_sqs (run cb a d) \<subseteq> pending_sqs d)"

lemma pending_log [simp]: "pending_sqs (d\<lparr>dev_log := l\<rparr>) = pending_sqs d"
  by (simp add: pending_sqs_def)

lemma pending_clear:
  "dev_heap d a = Some (Queue_SQ q) \<Longrightarrow>
     pending_sqs (set_sq a (q\<lparr>sq_has_pending_completions := False\<rparr>) d) = pending_sqs d - {a}"
  by (auto simp: pending_sqs_def)

lemma dispatch_one_effect:
  assumes "callbacks_ok run"
  shows "dev_int_sq_list (dispatch_one run i d) = dev_int_sq_list d
    \<and> pending_sqs (dispatch_one run i d) \<subseteq> pending_sqs d - {dev_int_sq_list d ! i}"
proof (cases "dev_heap d (dev_int_sq_list d ! i)")
  case None
  then show ?thesis by (auto simp: dispatch_one_def pending_sqs_def)
next
  case (Some obj)
  let ?a = "dev_int_sq_list d ! i"
  show ?thesis
  proof (cases obj)
    case (Queue_CQ cq)
    with Some show ?thesis by (auto simp: dispatch_one_def pending_sqs_def)
  next
    case (Queue_SQ q)
    let ?d = "run (sq_completion q) ?a (d\<lparr>dev_log := dev_log d @ [Ev_callback (sq_completion q) ?a]\<rparr>)"
    have ok: "dev_int_sq_list ?d = dev_int_sq_list d" using assms by (simp add: callbacks_ok_def)
    have "pending_sqs ?d
        \<subseteq> pending_sqs (d\<lparr>dev_log := dev_log d @ [Ev_callback (sq_completion q) ?a]\<rparr>)"
      using assms unfolding callbacks_ok_def by blast
    then have ok2: "pending_sqs ?d \<subseteq> pending_sqs d" by simp
    show ?thesis
    proof (cases "\<exists>q1. dev_heap ?d ?a = Some (Queue_SQ q1)")
      case True
      then obtain q1 where q1: "dev_heap ?d ?a = Some (Queue_SQ q1)" ..
      then have "dispatch_one run i d = set_sq ?a (q1\<lparr>sq_has_pending_completions := False\<rparr>) ?d"
        using Some Queue_SQ by (simp add: dispatch_one_def Let_def)
      then show ?thesis using ok ok2 pending_clear [OF q1] by auto
    next
      case False
      then have "dispatch_one run i d = ?d" "?a \<notin> pending_sqs ?d"
        using Some Queue_SQ
        by (auto simp: dispatch_one_def Let_def pending_sqs_def split: option.splits bce_queue.splits)
      then show ?thesis using ok ok2 by auto
    qed
  qed
qed

lemma dispatch_prefix:
  assumes "callbacks_ok run"
  shows "dev_int_sq_list (fold (dispatch_one run) [0..<n] d) = dev_int_sq_list d
    \<and> pending_sqs (fold (dispatch_one run) [0..<n] d)
        \<subseteq> pending_sqs d - (\<lambda>i. dev_int_sq_list d ! i) ` {0..<n}"
proof (induction n)
  case 0
  then show ?case by simp
next
  case (Suc n)
  let ?d = "fold (dispatch_one run) [0..<n] d"
  have "fold (dispatch_one run) [0..<Suc n] d = dispatch_one run n ?d" by simp
  with Suc dispatch_one_effect [OF assms, of n ?d] show ?case
    by (auto simp: atLeast0_lessThan_Suc)
qed

text \<open>
  After a DMA interrupt no queue is left marked as having harvested
  completions, so the next interrupt lists every queue afresh and no completion is
  forgotten, for all handlers that leave the scratch list and those marks alone.
\<close>

theorem dma_irq_leaves_none_pending:
  assumes "dev_ok dev" and "pending_sqs dev = {}" and "callbacks_ok run"
  shows "pending_sqs (bce_handle_dma_irq run dev) = {}"
proof -
  obtain ce d where p: "fold bce_poll_cq (dev_cq_list dev) (0, dev) = (ce, d)"
    by (cases "fold bce_poll_cq (dev_cq_list dev) (0, dev)")
  have "list_ok 0 dev" using assms(2) by (simp add: list_ok_def)
  then have ok: "dev_ok d" "list_ok ce d"
    using fold_poll [OF assms(1) _ dev_okD(4) [OF assms(1)] subset_refl p] by blast+
  then have "pending_sqs d = set (take ce (dev_int_sq_list d))" "ce \<le> length (dev_int_sq_list d)"
    by (simp_all add: list_ok_def dev_okD(2))
  then have "pending_sqs d = (\<lambda>i. dev_int_sq_list d ! i) ` {0..<ce}"
    by (simp add: nth_image [symmetric] atLeast0LessThan)
  with dispatch_prefix [OF assms(3), of ce d] p show ?thesis
    by (simp add: bce_handle_dma_irq_def bce_dispatch_sq_completions_def)
qed

section \<open>A device with one completion\<close>

definition ex_cq :: bce_queue_cq where
  "ex_cq = \<lparr>cq_qid = 0, cq_el_count = 2, cq_dma_handle = 0x1000,
     cq_data = [zero_completion\<lparr>ce_qid := 1, ce_flags := 0x8000, ce_status := 2\<rparr>, zero_completion],
     cq_index = 0\<rparr>"

definition ex_sq :: bce_queue_sq where
  "ex_sq = \<lparr>sq_qid = 1, sq_el_size = 64, sq_el_count = 2, sq_dma_handle = 0x2000,
     sq_data = (\<lambda>_. El_zero), sq_userdata = 9, sq_available_commands = 0, sq_head = 0,
     sq_tail = 1, sq_completion_cidx = 0, sq_completion_tail = 0,
     sq_completion_data = [zero_completion_data, zero_completion_data],
     sq_has_pending_completions = False, sq_completion = Cb_vhci_message_queue_completion\<rparr>"

definition ex_dev :: apple_bce_device where
  "ex_dev = \<lparr>dev_mbox = \<lparr>mb_status = 0, mb_completion = False, mb_result = 0\<rparr>,
     dev_timestamp = bce_timestamp_init,
     dev_queues = Some 10 # Some 11 # replicate 254 None, dev_cq_list = [10], dev_queue_ida = {},
     dev_cmd_cq = None, dev_cmd_cmdq = None, dev_int_sq_list = replicate 256 0,
     dev_is_being_removed = False, dev_saved_data_dma_addr = 0, dev_saved_data_dma_ptr = None,
     dev_saved_data_dma_size = 0,
     dev_heap = [10 \<mapsto> Queue_CQ ex_cq, 11 \<mapsto> Queue_SQ ex_sq],
     dev_cmdqs = Map.empty, dev_results = Map.empty, dev_log = []\<rparr>"

lemma ex_dev_queue_at:
  "dev_queue_at ex_dev k = Some a \<Longrightarrow> k = 0 \<and> a = 10 \<or> k = 1 \<and> a = 11"
  by (auto simp: dev_queue_at_def ex_dev_def nth_Cons' split: if_splits)

lemma ex_dev_ok: "dev_ok ex_dev"
proof -
  have heap: "dev_heap ex_dev 10 = Some (Queue_CQ ex_cq)" "dev_heap ex_dev 11 = Some (Queue_SQ ex_sq)"
    by (simp_all add: ex_dev_def)
  have "\<exists>obj. dev_heap ex_dev a = Some obj \<and> queue_qid obj = int k"
    if "dev_queue_at ex_dev k = Some a" for k a
    using ex_dev_queue_at [OF that] heap by (elim disjE conjE) (simp_all add: ex_cq_def ex_sq_def)
  moreover have "dev_cq_list ex_dev = [10]" "length (dev_queues ex_dev) = 256"
    "length (dev_int_sq_list ex_dev) = 256"
    by (simp_all add: ex_dev_def)
  moreover have "cq_ok ex_cq" by (simp add: cq_ok_def ex_cq_def)
  ultimately show ?thesis using heap by (simp add: dev_ok_def)
qed

lemma ex_dev_idle: "pending_sqs ex_dev = {}"
  by (auto simp: pending_sqs_def ex_dev_def ex_sq_def split: if_splits)

lemma ex_dev_entries:
  "pending_entries ex_dev = [zero_completion\<lparr>ce_qid := 1, ce_flags := 0x8000, ce_status := 2\<rparr>]"
  by (simp add: pending_entries_def ex_dev_def cq_at_def ex_cq_def cq_window_def completion_pending_def
      zero_completion_def)

theorem dma_irq_harvest_witness:
  "let (ce, dev') = fold bce_poll_cq (dev_cq_list ex_dev) (0, ex_dev) in
   ce \<le> 256 \<and> (\<exists>q. dev_heap dev' 11 = Some (Queue_SQ q)
     \<and> sq_completion_data q ! 0 = \<lparr>cd_status = 2, cd_data_size = 0, cd_result = 0\<rparr>)"
proof -
  obtain ce d where p: "fold bce_poll_cq (dev_cq_list ex_dev) (0, ex_dev) = (ce, d)"
    by (cases "fold bce_poll_cq (dev_cq_list ex_dev) (0, ex_dev)")
  have "dev_heap ex_dev 11 = Some (Queue_SQ ex_sq)" "dev_queue_at ex_dev 1 = Some 11"
    by (simp_all add: ex_dev_def dev_queue_at_def)
  with dma_irq_harvest [OF ex_dev_ok ex_dev_idle p]
  have "ce \<le> 256" "dev_heap d 11 = Some (Queue_SQ
      (fold sq_accept (for_qid 1 (pending_entries ex_dev)) ex_sq))" by blast+
  then show ?thesis
    by (simp add: p ex_dev_entries for_qid_def sq_accept_def ex_sq_def sq_push_completion_def
        zero_completion_def)
qed

theorem dma_irq_leaves_none_pending_witness:
  "pending_sqs (bce_handle_dma_irq (\<lambda>cb a d. d) ex_dev) = {}"
  by (rule dma_irq_leaves_none_pending [OF ex_dev_ok ex_dev_idle]) (simp add: callbacks_ok_def)

end
