(* ===== verification/Bce_Lifecycle.thy ===== *)
theory Bce_Lifecycle
  imports Bce_Device
begin

text \<open>
  Creation and destruction of queues on the device table (\<open>bce_create_cq\<close> to
  \<open>bce_destroy_sq\<close> of \<open>src/queue.c\<close>, \<open>bce_create_command_queues\<close> and
  \<open>bce_free_command_queues\<close> of \<open>src/apple_bce.c\<close>).

  The identifier allocator of the kernel is a parameter \<open>ida_alloc\<close> that sees the ids in
  use and the range; \<open>ida_ok\<close> states what its documentation promises. The answers of the
  memory allocators are the record \<open>alloc_env\<close>, with the address of the new object. While a
  command waits, other contexts act on the command queue only.
\<close>

section \<open>Kernel services\<close>

type_synonym ida_alloc = "nat set \<Rightarrow> nat \<Rightarrow> nat \<Rightarrow> int"

text \<open>An id inside the range that is not in use, or a negative error.\<close>

definition ida_ok :: "ida_alloc \<Rightarrow> bool" where
  "ida_ok ida \<longleftrightarrow> (\<forall>used lo hi. ida used lo hi < 0
     \<or> (lo \<le> nat (ida used lo hi) \<and> nat (ida used lo hi) \<le> hi \<and> nat (ida used lo hi) \<notin> used))"

record alloc_env =
  al_obj :: "addr option"
  al_dma :: "u64 option"
  al_data :: bool
  al_res :: addr
  al_cmd :: cmd_env

section \<open>Commands on the device\<close>

text \<open>The command queue as its functions see it, and its write-back.\<close>

definition dev_cmdq :: "apple_bce_device \<Rightarrow> (addr \<times> cmdq_object \<times> bce_queue_cmdq) option" where
  "dev_cmdq dev =
     (case dev_cmd_cmdq dev of None \<Rightarrow> None
      | Some c \<Rightarrow> (case dev_cmdqs dev c of None \<Rightarrow> None
        | Some co \<Rightarrow> (case dev_heap dev (co_sq co) of
             Some (Queue_SQ sq) \<Rightarrow> Some (c, co,
               \<lparr>cmdq_sq = sq, cmdq_tres = co_tres co, cmdq_results = dev_results dev\<rparr>)
           | _ \<Rightarrow> None)))"

definition set_cmdq :: "addr \<Rightarrow> cmdq_object \<Rightarrow> bce_queue_cmdq \<Rightarrow> apple_bce_device \<Rightarrow> apple_bce_device" where
  "set_cmdq c co q dev = dev\<lparr>dev_heap := (dev_heap dev)(co_sq co \<mapsto> Queue_SQ (cmdq_sq q)),
     dev_cmdqs := (dev_cmdqs dev)(c \<mapsto> co\<lparr>co_tres := cmdq_tres q\<rparr>),
     dev_results := cmdq_results q\<rparr>"

text \<open>Running a command; without a command queue (excluded by the callers) it fails.\<close>

definition dev_cmd :: "(bce_queue_cmdq \<Rightarrow> int \<times> (int \<times> u32) list \<times> bce_queue_cmdq)
    \<Rightarrow> apple_bce_device \<Rightarrow> int \<times> apple_bce_device" where
  "dev_cmd f dev =
     (case dev_cmdq dev of
        None \<Rightarrow> (- EIO, dev)
      | Some (c, co, q) \<Rightarrow>
          let (st, mmio, q') = f q; dev' = set_cmdq c co q' dev
          in (st, dev'\<lparr>dev_log := dev_log dev' @ map (\<lambda>(off, v). Ev_write off v) mmio\<rparr>))"

section \<open>Creation and destruction\<close>

definition bce_qid_alloc :: "ida_alloc \<Rightarrow> apple_bce_device \<Rightarrow> int \<times> apple_bce_device" where
  "bce_qid_alloc ida dev =
     (let qid = ida (dev_queue_ida dev) BCE_QUEUE_USER_MIN (BCE_QUEUE_USER_MAX - 1) in
      if qid < 0 then (qid, dev)
      else (qid, dev\<lparr>dev_queue_ida := insert (nat qid) (dev_queue_ida dev)\<rparr>))"

definition bce_qid_free :: "int \<Rightarrow> apple_bce_device \<Rightarrow> apple_bce_device" where
  "bce_qid_free qid dev = dev\<lparr>dev_queue_ida := dev_queue_ida dev - {nat qid}\<rparr>"

text \<open>\<open>kfree\<close> of a queue object after its DMA memory.\<close>

definition bce_free_queue :: "addr \<Rightarrow> apple_bce_device \<Rightarrow> apple_bce_device" where
  "bce_free_queue a dev = dev\<lparr>dev_heap := (dev_heap dev)(a := None)\<rparr>"

definition publish_queue :: "int \<Rightarrow> addr \<Rightarrow> apple_bce_device \<Rightarrow> apple_bce_device" where
  "publish_queue qid a dev = dev\<lparr>dev_queues := (dev_queues dev)[nat qid := Some a]\<rparr>"

definition bce_create_cq ::
  "ida_alloc \<Rightarrow> alloc_env \<Rightarrow> u32 \<Rightarrow> apple_bce_device \<Rightarrow> addr option \<times> apple_bce_device" where
  "bce_create_cq ida env el_count dev =
     (let (qid, dev1) = bce_qid_alloc ida dev in
      if qid < 0 then (None, dev1)
      else case (al_obj env, bce_alloc_cq qid el_count (al_obj env \<noteq> None) (al_dma env)) of
        (Some a, Some cq) \<Rightarrow>
          let cfg = bce_get_cq_memcfg cq;
              dev2 = dev1\<lparr>dev_heap := (dev_heap dev1)(a \<mapsto> Queue_CQ cq)\<rparr>;
              (st, dev3) = dev_cmd (bce_cmd_register_queue (al_res env) (al_cmd env) cfg None 0) dev2
          in if st \<noteq> 0 then (None, bce_qid_free qid (bce_free_queue a dev3))
             else let dev4 = publish_queue qid a dev3
                  in (Some a, dev4\<lparr>dev_cq_list := dev_cq_list dev4 @ [a]\<rparr>)
      | _ \<Rightarrow> (None, bce_qid_free qid dev1))"

definition bce_create_sq_with_flags ::
  "ida_alloc \<Rightarrow> alloc_env \<Rightarrow> addr option \<Rightarrow> u8 list option \<Rightarrow> u32 \<Rightarrow> u16
     \<Rightarrow> bce_sq_completion \<Rightarrow> addr \<Rightarrow> apple_bce_device \<Rightarrow> addr option \<times> apple_bce_device" where
  "bce_create_sq_with_flags ida env cq name el_count flags compl userdata dev =
     (case (cq, name) of
        (Some c, Some n) \<Rightarrow>
          let (qid, dev1) = bce_qid_alloc ida dev in
          if qid < 0 then (None, dev1)
          else (case (al_obj env, bce_alloc_sq qid sizeof_qe_submission el_count compl userdata
                   (al_obj env \<noteq> None) (al_dma env) (al_data env)) of
            (Some a, Some sq) \<Rightarrow>
              let cfg = bce_get_sq_memcfg sq (cq_at dev1 c);
                  dev2 = dev1\<lparr>dev_heap := (dev_heap dev1)(a \<mapsto> Queue_SQ sq)\<rparr>;
                  (st, dev3) =
                    dev_cmd (bce_cmd_register_queue (al_res env) (al_cmd env) cfg (Some n) flags) dev2
              in if st \<noteq> 0 then (None, bce_qid_free qid (bce_free_queue a dev3))
                 else (Some a, publish_queue qid a dev3)
          | _ \<Rightarrow> (None, bce_qid_free qid dev1))
      | _ \<Rightarrow> (None, dev))"

abbreviation DMA_TO_DEVICE :: int where "DMA_TO_DEVICE \<equiv> 1"
abbreviation DMA_FROM_DEVICE :: int where "DMA_FROM_DEVICE \<equiv> 2"

definition sq_direction_flags :: "int \<Rightarrow> u16" where
  "sq_direction_flags direction = 2 OR (if direction \<noteq> DMA_FROM_DEVICE then 1 else 0)"

definition bce_create_sq ::
  "ida_alloc \<Rightarrow> alloc_env \<Rightarrow> addr option \<Rightarrow> u8 list option \<Rightarrow> u32 \<Rightarrow> int
     \<Rightarrow> bce_sq_completion \<Rightarrow> addr \<Rightarrow> apple_bce_device \<Rightarrow> addr option \<times> apple_bce_device" where
  "bce_create_sq ida env cq name el_count direction compl userdata dev =
     (if direction \<noteq> DMA_TO_DEVICE \<and> direction \<noteq> DMA_FROM_DEVICE then (None, dev)
      else bce_create_sq_with_flags ida env cq name el_count (sq_direction_flags direction)
             compl userdata dev)"

text \<open>The part both destroy functions share: unregister unless the device is going away.\<close>

definition unregister_queue :: "addr \<Rightarrow> cmd_env \<Rightarrow> int \<Rightarrow> apple_bce_device \<Rightarrow> apple_bce_device" where
  "unregister_queue r env qid dev =
     (if \<not> dev_is_being_removed dev
      then snd (dev_cmd (bce_cmd_unregister_memory_queue r env (word_of_int qid)) dev)
      else dev)"

definition bce_destroy_cq :: "addr \<Rightarrow> cmd_env \<Rightarrow> addr \<Rightarrow> apple_bce_device \<Rightarrow> apple_bce_device" where
  "bce_destroy_cq r env a dev =
     (let qid = cq_qid (cq_at dev a);
          dev1 = unregister_queue r env qid dev;
          dev2 = dev1\<lparr>dev_queues := (dev_queues dev1)[nat qid := None],
                      dev_cq_list := remove1 a (dev_cq_list dev1)\<rparr>
      in bce_free_queue a (bce_qid_free qid dev2))"

definition sq_at :: "apple_bce_device \<Rightarrow> addr \<Rightarrow> bce_queue_sq option" where
  "sq_at dev a = (case dev_heap dev a of Some (Queue_SQ q) \<Rightarrow> Some q | _ \<Rightarrow> None)"

definition bce_destroy_sq :: "addr \<Rightarrow> cmd_env \<Rightarrow> addr \<Rightarrow> apple_bce_device \<Rightarrow> apple_bce_device" where
  "bce_destroy_sq r env a dev =
     (case sq_at dev a of
        None \<Rightarrow> dev
      | Some sq \<Rightarrow>
          let qid = sq_qid sq;
              dev1 = unregister_queue r env qid dev;
              dev2 = dev1\<lparr>dev_queues := (dev_queues dev1)[nat qid := None]\<rparr>
          in bce_free_queue a (bce_qid_free qid dev2))"

section \<open>What a command leaves alone\<close>

text \<open>The activity during a command keeps a property of the command queue.\<close>

definition env_keeps :: "(bce_queue_cmdq \<Rightarrow> bool) \<Rightarrow> cmd_env \<Rightarrow> bool" where
  "env_keeps P env \<longleftrightarrow> wakeups_keep (\<lambda>q. \<forall>c. cmdq_sq c = q \<longrightarrow> P c) (cw_reserve env)
     \<and> (\<forall>c. P c \<longrightarrow> P (cw_lock env c)) \<and> (\<forall>c. P c \<longrightarrow> P (cw_wait env c))
     \<and> (\<forall>c. P c \<longrightarrow> P (cw_relock env c))"

definition keeps_qid :: "int \<Rightarrow> bce_queue_cmdq \<Rightarrow> bool" where
  "keeps_qid k c \<longleftrightarrow> sq_qid (cmdq_sq c) = k"

lemma reserve_keeps_qid:
  assumes "bce_reserve_submission t ws q = (st, t', q')" and "sq_qid q = k"
    and "wakeups_keep (\<lambda>q. sq_qid q = k) ws"
  shows "sq_qid q' = k"
  using reserve_preserves [OF assms(1) assms(2) assms(3), of "\<lambda>q. sq_qid q = k"] by auto

lemma cmd_run_keeps_qid:
  assumes "cmd_run r env cmd c = (st, mmio, c')" and "keeps_qid k c"
    and "env_keeps (keeps_qid k) env"
  shows "keeps_qid k c'"
proof -
  have ws: "wakeups_keep (\<lambda>q. sq_qid q = k) (cw_reserve env)"
    using assms(3) unfolding env_keeps_def keeps_qid_def wakeups_keep_def
    by (metis bce_queue_cmdq.select_convs(1))
  have env: "\<And>c. keeps_qid k c \<Longrightarrow> keeps_qid k (cw_lock env c)"
    "\<And>c. keeps_qid k c \<Longrightarrow> keeps_qid k (cw_wait env c)"
    "\<And>c. keeps_qid k c \<Longrightarrow> keeps_qid k (cw_relock env c)"
    using assms(3) by (simp_all add: env_keeps_def)
  have slot: "keeps_qid k (snd (cmd_take_slot r d))" if "keeps_qid k d" for d
    using that by (simp add: cmd_take_slot_def keeps_qid_def bce_next_submission_def set_result_def
        Let_def)
  obtain p c1 where st: "bce_cmd_start r env c = (p, c1)" by (cases "bce_cmd_start r env c")
  have c1: "keeps_qid k c1"
  proof -
    obtain s t q where res: "bce_reserve_submission (Some 300000) (cw_reserve env) (cmdq_sq c)
        = (s, t, q)" by (cases "bce_reserve_submission (Some 300000) (cw_reserve env) (cmdq_sq c)")
    have "sq_qid q = k"
      by (rule reserve_keeps_qid [OF res _ ws]) (use assms(2) in \<open>simp add: keeps_qid_def\<close>)
    then have upd: "keeps_qid k (c\<lparr>cmdq_results := x, cmdq_sq := q\<rparr>)" for x
      by (simp add: keeps_qid_def)
    have "keeps_qid k (snd (bce_cmd_start r env c))"
      using slot [OF env(1) [OF upd]] upd res by (simp add: bce_cmd_start_def Let_def split_beta)
    with st show ?thesis by simp
  qed
  have store: "keeps_qid k (d\<lparr>cmdq_sq := sq_store x cmd (cmdq_sq d)\<rparr>)" if "keeps_qid k d" for d x
    using that by (simp add: keeps_qid_def sq_store_def)
  have clear: "keeps_qid k (cmd_clear_slot r d)" if "keeps_qid k d" for d
    using that by (simp add: keeps_qid_def cmd_clear_slot_def split: option.split)
  have fin: "keeps_qid k (snd (snd (bce_cmd_finish r env d)))" if "keeps_qid k d" for d
    using env(2,3) clear that by (simp add: bce_cmd_finish_def Let_def)
  have pop: "keeps_qid k (pop_result r d)" if "keeps_qid k d" for d
    using that by (simp add: keeps_qid_def pop_result_def)
  have "keeps_qid k (snd (snd (cmd_run r env cmd c)))"
    by (cases p) (simp_all add: cmd_run_def st Let_def split_beta c1 store fin pop)
  with assms(1) show ?thesis by simp
qed

text \<open>Two devices with the same tables whose heaps hold the same queues.\<close>

definition heap_similar :: "(addr \<rightharpoonup> bce_queue) \<Rightarrow> (addr \<rightharpoonup> bce_queue) \<Rightarrow> bool" where
  "heap_similar h h' \<longleftrightarrow> (\<forall>a. case h a of
       None \<Rightarrow> h' a = None
     | Some (Queue_CQ cq) \<Rightarrow> h' a = Some (Queue_CQ cq)
     | Some (Queue_SQ q) \<Rightarrow> \<exists>q'. h' a = Some (Queue_SQ q') \<and> sq_qid q' = sq_qid q)"

definition dev_similar :: "apple_bce_device \<Rightarrow> apple_bce_device \<Rightarrow> bool" where
  "dev_similar dev dev' \<longleftrightarrow> dev_queues dev' = dev_queues dev \<and> dev_cq_list dev' = dev_cq_list dev
     \<and> dev_queue_ida dev' = dev_queue_ida dev \<and> dev_int_sq_list dev' = dev_int_sq_list dev
     \<and> dev_is_being_removed dev' = dev_is_being_removed dev
     \<and> heap_similar (dev_heap dev) (dev_heap dev')"

lemma heap_similar_refl [simp]: "heap_similar h h"
  by (simp add: heap_similar_def split: option.split bce_queue.split)

lemma heap_similarD:
  assumes "heap_similar h h'"
  shows "h' a = None \<longleftrightarrow> h a = None"
    "h' a = Some (Queue_CQ cq) \<longleftrightarrow> h a = Some (Queue_CQ cq)"
    "h a = Some obj \<Longrightarrow> \<exists>obj'. h' a = Some obj' \<and> queue_qid obj' = queue_qid obj"
proof -
  have "case h a of None \<Rightarrow> h' a = None
     | Some (Queue_CQ cq) \<Rightarrow> h' a = Some (Queue_CQ cq)
     | Some (Queue_SQ q) \<Rightarrow> \<exists>q'. h' a = Some (Queue_SQ q') \<and> sq_qid q' = sq_qid q"
    using assms by (simp add: heap_similar_def)
  then show "h' a = None \<longleftrightarrow> h a = None"
    "h' a = Some (Queue_CQ cq) \<longleftrightarrow> h a = Some (Queue_CQ cq)"
    "h a = Some obj \<Longrightarrow> \<exists>obj'. h' a = Some obj' \<and> queue_qid obj' = queue_qid obj"
    by (auto split: option.splits bce_queue.splits)
qed

text \<open>A command function that keeps the queue id of the command queue.\<close>

definition cmd_fun_ok :: "(bce_queue_cmdq \<Rightarrow> int \<times> (int \<times> u32) list \<times> bce_queue_cmdq) \<Rightarrow> bool" where
  "cmd_fun_ok f \<longleftrightarrow> (\<forall>c. sq_qid (cmdq_sq (snd (snd (f c)))) = sq_qid (cmdq_sq c))"

definition env_ok :: "cmd_env \<Rightarrow> bool" where
  "env_ok env \<longleftrightarrow> (\<forall>k. env_keeps (keeps_qid k) env)"

lemma cmd_run_ok: "env_ok env \<Longrightarrow> cmd_fun_ok (cmd_run r env cmd)"
  unfolding cmd_fun_ok_def
proof
  fix c assume "env_ok env"
  then show "sq_qid (cmdq_sq (snd (snd (cmd_run r env cmd c)))) = sq_qid (cmdq_sq c)"
    using cmd_run_keeps_qid [of r env cmd c _ _ _ "sq_qid (cmdq_sq c)"]
    by (cases "cmd_run r env cmd c") (simp add: env_ok_def keeps_qid_def)
qed

lemma command_funs_ok:
  assumes "env_ok env"
  shows "cmd_fun_ok (bce_cmd_register_queue r env cfg name flags)"
    "cmd_fun_ok (bce_cmd_unregister_memory_queue r env qid)"
  using cmd_run_ok [OF assms]
  by (simp_all add: cmd_fun_ok_def bce_cmd_register_queue_def bce_cmd_unregister_memory_queue_def)

lemma dev_cmd_similar:
  assumes "cmd_fun_ok f" and "dev_cmd f dev = (st, dev')"
  shows "dev_similar dev dev'"
proof (cases "dev_cmdq dev")
  case None
  with assms(2) show ?thesis by (simp add: dev_cmd_def dev_similar_def)
next
  case (Some x)
  then obtain c co q where x: "dev_cmdq dev = Some (c, co, q)" by (cases x) auto
  obtain sq where sq: "dev_heap dev (co_sq co) = Some (Queue_SQ sq)" "cmdq_sq q = sq"
    using x by (auto simp: dev_cmdq_def split: option.splits bce_queue.splits)
  obtain mmio q' where f: "f q = (st, mmio, q')"
    using assms(2) x by (cases "f q") (auto simp: dev_cmd_def Let_def)
  have "sq_qid (cmdq_sq q') = sq_qid sq" using assms(1) f sq(2) by (metis cmd_fun_ok_def snd_conv)
  then have "heap_similar (dev_heap dev) ((dev_heap dev)(co_sq co \<mapsto> Queue_SQ (cmdq_sq q')))"
    using sq(1) by (auto simp: heap_similar_def split: option.split bce_queue.split)
  then show ?thesis using assms(2) x f by (auto simp: dev_cmd_def dev_similar_def set_cmdq_def)
qed

section \<open>The invariant of the tables\<close>

text \<open>
  Every published queue is a live object under its id, every live object is published, the
  ids in use are those of the published user queues, and the interrupt's list holds exactly
  the completion queues.
\<close>

definition lc_ok :: "apple_bce_device \<Rightarrow> bool" where
  "lc_ok dev \<longleftrightarrow> dev_ok dev
     \<and> (\<forall>a. dev_heap dev a \<noteq> None \<longleftrightarrow> (\<exists>k. dev_queue_at dev k = Some a))
     \<and> dev_queue_ida dev = {k. BCE_QUEUE_USER_MIN \<le> k \<and> dev_queue_at dev k \<noteq> None}
     \<and> (\<forall>a cq. dev_heap dev a = Some (Queue_CQ cq) \<longrightarrow> a \<in> set (dev_cq_list dev))"

lemma lc_okD:
  assumes "lc_ok dev"
  shows "dev_ok dev" "dev_heap dev a \<noteq> None \<longleftrightarrow> (\<exists>k. dev_queue_at dev k = Some a)"
    "dev_queue_ida dev = {k. BCE_QUEUE_USER_MIN \<le> k \<and> dev_queue_at dev k \<noteq> None}"
    "dev_heap dev a = Some (Queue_CQ cq) \<Longrightarrow> a \<in> set (dev_cq_list dev)"
  using assms by (auto simp: lc_ok_def)

lemma queue_at_cong: "dev_queues dev' = dev_queues dev \<Longrightarrow> dev_queue_at dev' k = dev_queue_at dev k"
  by (simp add: dev_queue_at_def)

lemma lc_ok_similar:
  assumes "lc_ok dev" and "dev_similar dev dev'"
  shows "lc_ok dev'"
proof -
  have t: "dev_queues dev' = dev_queues dev" "dev_cq_list dev' = dev_cq_list dev"
    "dev_queue_ida dev' = dev_queue_ida dev" "dev_int_sq_list dev' = dev_int_sq_list dev"
    and h: "heap_similar (dev_heap dev) (dev_heap dev')"
    using assms(2) by (simp_all add: dev_similar_def)
  note at = queue_at_cong [OF t(1)] and hs = heap_similarD [OF h] and lc = lc_okD [OF assms(1)]
  have "\<exists>obj. dev_heap dev' a = Some obj \<and> queue_qid obj = int k"
    if "dev_queue_at dev' k = Some a" for k a
    using dev_okD(3) [OF lc(1), of k a] hs(3) [of a] that at by auto
  then have "dev_ok dev'"
    using dev_okD(1,2,4,5) [OF lc(1)] hs(2) t by (simp add: dev_ok_def)
  then show ?thesis using lc(2-4) hs(1,2) at t by (auto simp: lc_ok_def)
qed

lemma queue_at_update:
  assumes "dev_queues dev' = (dev_queues dev)[j := x]" and "j < length (dev_queues dev)"
  shows "dev_queue_at dev' k = (if k = j then x else dev_queue_at dev k)"
  using assms by (auto simp: dev_queue_at_def nth_list_update)

text \<open>Publishing a fresh object under a free id, and taking one out again.\<close>

lemma lc_ok_publish:
  assumes lc: "lc_ok dev" and free: "dev_queue_at dev j = None" and j: "2 \<le> j" "j < 256"
    and fresh: "dev_heap dev a = None" and qid: "queue_qid obj = int j"
    and cq: "\<And>c. obj = Queue_CQ c \<Longrightarrow> cq_ok c"
    and q: "dev_queues dev' = (dev_queues dev)[j := Some a]"
    and i: "dev_queue_ida dev' = insert j (dev_queue_ida dev)"
    and l: "dev_cq_list dev' = dev_cq_list dev @ (case obj of Queue_CQ c \<Rightarrow> [a] | _ \<Rightarrow> [])"
    and s: "dev_int_sq_list dev' = dev_int_sq_list dev"
    and h: "heap_similar ((dev_heap dev)(a \<mapsto> obj)) (dev_heap dev')"
  shows "lc_ok dev'"
proof -
  note d = lc_okD [OF lc] and ok = dev_okD [OF lc_okD(1) [OF lc]] and hs = heap_similarD [OF h]
  have at: "dev_queue_at dev' k = (if k = j then Some a else dev_queue_at dev k)" for k
    using queue_at_update [OF q] j(2) ok(1) by simp
  have new: "dev_queue_at dev k \<noteq> Some a" for k using d(2) [of a] fresh by auto
  have notin: "a \<notin> set (dev_cq_list dev)" using ok(5) [of a] fresh by auto
  have reg: "\<exists>o'. dev_heap dev' b = Some o' \<and> queue_qid o' = int k"
    if "dev_queue_at dev' k = Some b" for k b
  proof (cases "k = j")
    case True
    then show ?thesis using that at hs(3) [of a] qid by auto
  next
    case False
    then have "dev_queue_at dev k = Some b" using that at by simp
    with ok(3) [OF this] new [of k] hs(3) [of b] show ?thesis by auto
  qed
  have cqs: "\<exists>c. dev_heap dev' b = Some (Queue_CQ c) \<and> cq_ok c" if "b \<in> set (dev_cq_list dev')" for b
    using that l ok(5) [of b] cq notin hs(2) [of b]
    by (cases obj) (auto split: if_splits)
  have "dev_ok dev'"
    unfolding dev_ok_def using ok(1,2,4) q s l notin reg cqs
    by (simp split: bce_queue.split)
  moreover have "dev_heap dev' b \<noteq> None \<longleftrightarrow> (\<exists>k. dev_queue_at dev' k = Some b)" for b
  proof -
    have "(\<exists>k. dev_queue_at dev' k = Some b) \<longleftrightarrow> b = a \<or> (\<exists>k. dev_queue_at dev k = Some b)"
      unfolding at using free by (metis option.distinct(1) option.inject)
    then show ?thesis using hs(1) [of b] d(2) [of b] by (simp split: if_splits)
  qed
  moreover have "dev_queue_ida dev' = {k. BCE_QUEUE_USER_MIN \<le> k \<and> dev_queue_at dev' k \<noteq> None}"
    using i d(3) at j(1) by auto
  moreover have "b \<in> set (dev_cq_list dev')" if "dev_heap dev' b = Some (Queue_CQ c)" for b c
    using that hs(2) [of b c] d(4) [of b c] l by (auto split: if_splits)
  ultimately show ?thesis by (simp add: lc_ok_def)
qed

lemma lc_ok_unpublish:
  assumes lc: "lc_ok dev" and reg: "dev_queue_at dev j = Some a" and j: "2 \<le> j"
    and q: "dev_queues dev' = (dev_queues dev)[j := None]"
    and i: "dev_queue_ida dev' = dev_queue_ida dev - {j}"
    and l: "dev_cq_list dev' = remove1 a (dev_cq_list dev)"
    and s: "dev_int_sq_list dev' = dev_int_sq_list dev"
    and h: "dev_heap dev' = (dev_heap dev)(a := None)"
  shows "lc_ok dev'"
proof -
  note d = lc_okD [OF lc] and ok = dev_okD [OF lc_okD(1) [OF lc]]
  have jl: "j < length (dev_queues dev)"
    using reg by (auto simp: dev_queue_at_def split: if_splits)
  have at: "dev_queue_at dev' k = (if k = j then None else dev_queue_at dev k)" for k
    by (rule queue_at_update [OF q jl])
  have only: "dev_queue_at dev k = Some a \<Longrightarrow> k = j" for k
    using queue_at_inj [OF d(1) _ reg] by blast
  have "\<exists>o'. dev_heap dev' b = Some o' \<and> queue_qid o' = int k"
    if "dev_queue_at dev' k = Some b" for k b
  proof -
    have "k \<noteq> j" "dev_queue_at dev k = Some b" using that at [of k] by (simp_all split: if_splits)
    moreover from this only have "b \<noteq> a" by blast
    ultimately show ?thesis using ok(3) [of k b] h by simp
  qed
  moreover have "\<exists>c. dev_heap dev' b = Some (Queue_CQ c) \<and> cq_ok c"
    if "b \<in> set (dev_cq_list dev')" for b
    using that ok(4) ok(5) [of b] l h by simp
  ultimately have "dev_ok dev'"
    unfolding dev_ok_def using ok(1,2,4) q s l by (simp add: distinct_remove1)
  moreover have "dev_heap dev' b \<noteq> None \<longleftrightarrow> (\<exists>k. dev_queue_at dev' k = Some b)" for b
  proof -
    have "(\<exists>k. dev_queue_at dev' k = Some b) \<longleftrightarrow> b \<noteq> a \<and> (\<exists>k. dev_queue_at dev k = Some b)"
      unfolding at using only reg by (metis option.distinct(1) option.inject)
    then show ?thesis using h d(2) [of b] by simp
  qed
  moreover have "dev_queue_ida dev' = {k. BCE_QUEUE_USER_MIN \<le> k \<and> dev_queue_at dev' k \<noteq> None}"
    using i d(3) at by auto
  moreover have "b \<in> set (dev_cq_list dev')" if "dev_heap dev' b = Some (Queue_CQ c)" for b c
    using that h d(4) [of b c] l by (auto simp: in_set_remove1 split: if_splits)
  ultimately show ?thesis by (simp add: lc_ok_def)
qed

section \<open>Creation and destruction keep the invariant\<close>

lemma dev_similar_refl [simp]: "dev_similar dev dev"
  by (simp add: dev_similar_def)

lemma qid_alloc_cases [case_names none id]:
  assumes "ida_ok ida" and "lc_ok dev" and "bce_qid_alloc ida dev = (qid, dev1)"
  obtains "qid < 0" "dev1 = dev"
    | "0 \<le> qid" "2 \<le> nat qid" "nat qid < 256" "nat qid \<notin> dev_queue_ida dev"
      "dev_queue_at dev (nat qid) = None"
      "dev1 = dev\<lparr>dev_queue_ida := insert (nat qid) (dev_queue_ida dev)\<rparr>"
proof (cases "qid < 0")
  case True
  with assms(3) have "dev1 = dev" by (auto simp: bce_qid_alloc_def Let_def split: if_splits)
  with True show ?thesis by (rule that(1))
next
  case False
  have "qid = ida (dev_queue_ida dev) 2 (255 - 1)"
    and dev1: "dev1 = dev\<lparr>dev_queue_ida := insert (nat qid) (dev_queue_ida dev)\<rparr>"
    using assms(3) False by (auto simp: bce_qid_alloc_def Let_def split: if_splits)
  then have "qid < 0 \<or> (2 \<le> nat qid \<and> nat qid \<le> 255 - 1 \<and> nat qid \<notin> dev_queue_ida dev)"
    using assms(1) unfolding ida_ok_def by blast
  with False lc_okD(3) [OF assms(2)] dev1 show ?thesis by (intro that(2)) auto
qed

text \<open>
  The registration of a fresh object: giving it up restores the tables, publishing it keeps
  the invariant.
\<close>

lemma register_tail:
  assumes lc: "lc_ok dev" and j: "2 \<le> j" "j < 256" "j \<notin> dev_queue_ida dev"
    "dev_queue_at dev j = None"
    and fresh: "dev_heap dev a = None" and obj: "queue_qid obj = int j"
    and cq: "\<forall>c. obj = Queue_CQ c \<longrightarrow> cq_ok c" and f: "cmd_fun_ok f"
    and cmd: "dev_cmd f (dev\<lparr>dev_queue_ida := insert j (dev_queue_ida dev),
      dev_heap := (dev_heap dev)(a \<mapsto> obj)\<rparr>) = (st, dev3)"
  shows "dev_similar dev (bce_qid_free (int j) (bce_free_queue a dev3))"
    and "lc_ok ((publish_queue (int j) a dev3)\<lparr>dev_cq_list := dev_cq_list dev3 @
      (case obj of Queue_CQ c \<Rightarrow> [a] | _ \<Rightarrow> [])\<rparr>)"
    and "dev_queues dev3 = dev_queues dev" "dev_cq_list dev3 = dev_cq_list dev"
proof -
  have t: "dev_queues dev3 = dev_queues dev" "dev_cq_list dev3 = dev_cq_list dev"
    "dev_queue_ida dev3 = insert j (dev_queue_ida dev)" "dev_int_sq_list dev3 = dev_int_sq_list dev"
    "dev_is_being_removed dev3 = dev_is_being_removed dev"
    and h: "heap_similar ((dev_heap dev)(a \<mapsto> obj)) (dev_heap dev3)"
    using dev_cmd_similar [OF f cmd] by (simp_all add: dev_similar_def)
  have "heap_similar (dev_heap dev) ((dev_heap dev3)(a := None))"
    using h fresh by (auto simp: heap_similar_def split: option.splits bce_queue.splits if_splits)
  with t j(3) show "dev_similar dev (bce_qid_free (int j) (bce_free_queue a dev3))"
    by (simp add: dev_similar_def bce_qid_free_def bce_free_queue_def)
  show "lc_ok ((publish_queue (int j) a dev3)\<lparr>dev_cq_list := dev_cq_list dev3 @
      (case obj of Queue_CQ c \<Rightarrow> [a] | _ \<Rightarrow> [])\<rparr>)"
    by (rule lc_ok_publish [OF lc j(4,1,2) fresh obj])
      (use cq t h in \<open>simp_all add: publish_queue_def\<close>)
  show "dev_queues dev3 = dev_queues dev" "dev_cq_list dev3 = dev_cq_list dev" by (fact t)+
qed

definition fresh_alloc :: "alloc_env \<Rightarrow> apple_bce_device \<Rightarrow> bool" where
  "fresh_alloc env dev \<longleftrightarrow> (case al_obj env of Some a \<Rightarrow> dev_heap dev a = None | None \<Rightarrow> True)"

text \<open>
  What a creation may do: fail and leave the tables, the ids and the heap as they were, or
  publish the object under a free user id, extending the interrupt's list by \<open>listed a\<close>.
\<close>

definition creation_outcome ::
  "(addr \<Rightarrow> addr list) \<Rightarrow> apple_bce_device \<Rightarrow> addr option \<Rightarrow> apple_bce_device \<Rightarrow> bool" where
  "creation_outcome listed dev r dev' \<longleftrightarrow> lc_ok dev' \<and> (case r of
      None \<Rightarrow> dev_similar dev dev'
    | Some a \<Rightarrow> dev_heap dev a = None \<and> dev_cq_list dev' = dev_cq_list dev @ listed a
        \<and> (\<exists>k. 2 \<le> k \<and> k < 256 \<and> dev_queue_at dev k = None
            \<and> dev_queues dev' = (dev_queues dev)[k := Some a]))"

lemma creation_fails: "lc_ok dev \<Longrightarrow> dev_similar dev dev' \<Longrightarrow> creation_outcome listed dev None dev'"
  by (auto simp: creation_outcome_def intro: lc_ok_similar)

lemma creation_registers:
  assumes lc: "lc_ok dev" and j: "2 \<le> nat qid" "nat qid < 256" "nat qid \<notin> dev_queue_ida dev"
    "dev_queue_at dev (nat qid) = None" and pos: "0 \<le> qid"
    and fresh: "dev_heap dev a = None" and obj: "queue_qid obj = qid"
    and cq: "\<forall>c. obj = Queue_CQ c \<longrightarrow> cq_ok c" and f: "cmd_fun_ok f"
    and cmd: "dev_cmd f (dev\<lparr>dev_queue_ida := insert (nat qid) (dev_queue_ida dev),
      dev_heap := (dev_heap dev)(a \<mapsto> obj)\<rparr>) = (st, dev3)"
    and listed: "listed a = (case obj of Queue_CQ c \<Rightarrow> [a] | _ \<Rightarrow> [])"
  shows "st \<noteq> 0 \<Longrightarrow>
      creation_outcome listed dev None (bce_qid_free qid (bce_free_queue a dev3))"
    and "creation_outcome listed dev (Some a)
      ((publish_queue qid a dev3)\<lparr>dev_cq_list := dev_cq_list dev3 @ listed a\<rparr>)"
proof -
  have q: "qid = int (nat qid)" using pos by simp
  have obj': "queue_qid obj = int (nat qid)" using obj q by simp
  note tail = register_tail [OF lc j fresh obj' cq f cmd]
  show "creation_outcome listed dev None (bce_qid_free qid (bce_free_queue a dev3))" if "st \<noteq> 0"
    using tail(1) q by (intro creation_fails [OF lc]) simp
  show "creation_outcome listed dev (Some a)
      ((publish_queue qid a dev3)\<lparr>dev_cq_list := dev_cq_list dev3 @ listed a\<rparr>)"
    using tail(2-4) fresh j(1,2,4) q listed unfolding creation_outcome_def
    by (simp add: publish_queue_def) blast
qed

lemma creation_no_memory:
  assumes "lc_ok dev" and "nat qid \<notin> dev_queue_ida dev"
  shows "creation_outcome listed dev None
    (bce_qid_free qid (dev\<lparr>dev_queue_ida := insert (nat qid) (dev_queue_ida dev)\<rparr>))"
  using assms by (intro creation_fails) (simp_all add: dev_similar_def bce_qid_free_def)

lemma create_cq_keeps:
  assumes lc: "lc_ok dev" and ida: "ida_ok ida" and env: "env_ok (al_cmd env)"
    and fresh: "fresh_alloc env dev" and n: "0 < el_count"
    and res: "bce_create_cq ida env el_count dev = (r, dev')"
  shows "creation_outcome (\<lambda>a. [a]) dev r dev'"
proof -
  obtain qid dev1 where al: "bce_qid_alloc ida dev = (qid, dev1)"
    by (cases "bce_qid_alloc ida dev")
  show ?thesis
    using ida lc al
  proof (cases rule: qid_alloc_cases)
    case none
    with res al have "r = None" "dev' = dev" by (simp_all add: bce_create_cq_def)
    with creation_fails [OF lc] show ?thesis by simp
  next
    case id
    show ?thesis
    proof (cases "al_obj env = None \<or> al_dma env = None")
      case True
      then have "r = None" "dev' = bce_qid_free qid dev1"
        using res al id by (auto simp: bce_create_cq_def bce_alloc_cq_def split: option.splits)
      with creation_no_memory [OF lc id(4)] id(6) show ?thesis by simp
    next
      case False
      then obtain a dma where a: "al_obj env = Some a" "al_dma env = Some dma" by auto
      obtain cq where cq: "bce_alloc_cq qid el_count True (Some dma) = Some cq"
        "cq_qid cq = qid" "cq_ok cq" using n by (simp add: bce_alloc_cq_def cq_ok_def)
      let ?f = "bce_cmd_register_queue (al_res env) (al_cmd env) (bce_get_cq_memcfg cq) None 0"
      let ?dev2 = "dev\<lparr>dev_queue_ida := insert (nat qid) (dev_queue_ida dev),
          dev_heap := (dev_heap dev)(a \<mapsto> Queue_CQ cq)\<rparr>"
      obtain st dev3 where c: "dev_cmd ?f ?dev2 = (st, dev3)" by (cases "dev_cmd ?f ?dev2")
      have "dev_heap dev a = None" using fresh a by (simp add: fresh_alloc_def)
      note reg = creation_registers [OF lc id(2-5,1) this _ _ command_funs_ok(1) [OF env] c,
          of "\<lambda>a. [a]"]
      have "(r, dev') = (if st \<noteq> 0 then (None, bce_qid_free qid (bce_free_queue a dev3))
          else (Some a, (publish_queue qid a dev3)\<lparr>dev_cq_list := dev_cq_list dev3 @ [a]\<rparr>))"
        using res al id(1,6) a cq(1) c
        by (auto simp: bce_create_cq_def publish_queue_def Let_def split: if_splits)
      then show ?thesis using reg cq(2,3) by (cases "st = 0") simp_all
    qed
  qed
qed

text \<open>
  Creating a completion queue either fails and leaves the device as it was,
  without a leaked id, object or table entry whatever step failed, or publishes a live
  queue under a free user id and puts it last on the interrupt's list; the tables stay
  consistent in both cases.
\<close>

theorem create_cq_outcome:
  assumes "lc_ok dev" and "ida_ok ida" and "env_ok (al_cmd env)" and "fresh_alloc env dev"
    and "0 < el_count" and "bce_create_cq ida env el_count dev = (r, dev')"
  shows "lc_ok dev' \<and> (case r of
      None \<Rightarrow> dev_similar dev dev'
    | Some a \<Rightarrow> dev_heap dev a = None \<and> dev_cq_list dev' = dev_cq_list dev @ [a]
        \<and> (\<exists>k. 2 \<le> k \<and> k < 256 \<and> dev_queue_at dev k = None
            \<and> dev_queues dev' = (dev_queues dev)[k := Some a]))"
  using create_cq_keeps [OF assms] unfolding creation_outcome_def .

lemma create_sq_keeps:
  assumes lc: "lc_ok dev" and ida: "ida_ok ida" and env: "env_ok (al_cmd env)"
    and fresh: "fresh_alloc env dev"
    and res: "bce_create_sq ida env cq name el_count direction compl ud dev = (r, dev')"
  shows "creation_outcome (\<lambda>a. []) dev r dev'
    \<and> (direction \<notin> {DMA_TO_DEVICE, DMA_FROM_DEVICE} \<or> cq = None \<or> name = None \<longrightarrow>
         r = None \<and> dev' = dev)"
proof (cases "direction \<in> {DMA_TO_DEVICE, DMA_FROM_DEVICE} \<and> cq \<noteq> None \<and> name \<noteq> None")
  case False
  with res have "r = None" "dev' = dev"
    by (auto simp: bce_create_sq_def bce_create_sq_with_flags_def split: if_splits option.splits)
  with creation_fails [OF lc] show ?thesis by simp
next
  case True
  then obtain c n where args: "cq = Some c" "name = Some n" by auto
  let ?fl = "sq_direction_flags direction"
  have res': "bce_create_sq_with_flags ida env (Some c) (Some n) el_count ?fl compl ud dev
      = (r, dev')" using res True args by (auto simp: bce_create_sq_def)
  obtain qid dev1 where al: "bce_qid_alloc ida dev = (qid, dev1)"
    by (cases "bce_qid_alloc ida dev")
  have "creation_outcome (\<lambda>a. []) dev r dev'"
    using ida lc al
  proof (cases rule: qid_alloc_cases)
    case none
    with res' al have "r = None" "dev' = dev" by (simp_all add: bce_create_sq_with_flags_def)
    with creation_fails [OF lc] show ?thesis by simp
  next
    case id
    let ?alloc = "bce_alloc_sq qid sizeof_qe_submission el_count compl ud
      (al_obj env \<noteq> None) (al_dma env) (al_data env)"
    show ?thesis
    proof (cases ?alloc)
      case None
      then have "r = None" "dev' = bce_qid_free qid dev1"
        using res' al id by (auto simp: bce_create_sq_with_flags_def split: option.splits)
      with creation_no_memory [OF lc id(4)] id(6) show ?thesis by simp
    next
      case (Some sq)
      then obtain a where a: "al_obj env = Some a" and sq: "sq_qid sq = qid"
        by (auto simp: bce_alloc_sq_def split: if_splits option.splits)
      let ?f = "bce_cmd_register_queue (al_res env) (al_cmd env)
        (bce_get_sq_memcfg sq (cq_at dev1 c)) (Some n) ?fl"
      let ?dev2 = "dev\<lparr>dev_queue_ida := insert (nat qid) (dev_queue_ida dev),
          dev_heap := (dev_heap dev)(a \<mapsto> Queue_SQ sq)\<rparr>"
      obtain st dev3 where c: "dev_cmd ?f ?dev2 = (st, dev3)" by (cases "dev_cmd ?f ?dev2")
      have "dev_heap dev a = None" using fresh a by (simp add: fresh_alloc_def)
      note reg = creation_registers [OF lc id(2-5,1) this _ _ command_funs_ok(1) [OF env] c,
          of "\<lambda>a. []"]
      have "(r, dev') = (if st \<noteq> 0 then (None, bce_qid_free qid (bce_free_queue a dev3))
          else (Some a, publish_queue qid a dev3))"
        using res' al id(1,6) a Some c
        by (auto simp: bce_create_sq_with_flags_def Let_def split: if_splits)
      then show ?thesis using reg sq by (cases "st = 0") (simp_all add: publish_queue_def)
    qed
  qed
  with True show ?thesis by auto
qed

text \<open>
  Creating a submission queue for a given completion queue and name has the
  same outcomes: on a rejected argument, an exhausted id range, failed memory or a failed
  registration the device is as before, otherwise the queue is published under a free id.
\<close>

theorem create_sq_outcome:
  assumes "lc_ok dev" and "ida_ok ida" and "env_ok (al_cmd env)" and "fresh_alloc env dev"
    and "bce_create_sq ida env cq name el_count direction compl ud dev = (r, dev')"
  shows "creation_outcome (\<lambda>a. []) dev r dev'
    \<and> (direction \<notin> {DMA_TO_DEVICE, DMA_FROM_DEVICE} \<or> cq = None \<or> name = None \<longrightarrow>
         r = None \<and> dev' = dev)"
  by (rule create_sq_keeps [OF assms])

lemma unregister_similar:
  assumes "env_ok env"
  shows "dev_similar dev (unregister_queue r env qid dev)"
proof (cases "dev_is_being_removed dev")
  case False
  obtain st dev' where c: "dev_cmd (bce_cmd_unregister_memory_queue r env (word_of_int qid)) dev
      = (st, dev')"
    by (cases "dev_cmd (bce_cmd_unregister_memory_queue r env (word_of_int qid)) dev")
  from dev_cmd_similar [OF command_funs_ok(2) [OF assms] c] False c show ?thesis
    by (simp add: unregister_queue_def)
qed (simp add: unregister_queue_def)

text \<open>What destroying the queue at \<open>a\<close> with the id \<open>k\<close> does to the tables.\<close>

definition destroyed :: "nat \<Rightarrow> addr \<Rightarrow> apple_bce_device \<Rightarrow> apple_bce_device \<Rightarrow> bool" where
  "destroyed k a dev dev' \<longleftrightarrow> lc_ok dev' \<and> dev_queues dev' = (dev_queues dev)[k := None]
     \<and> dev_cq_list dev' = remove1 a (dev_cq_list dev)
     \<and> dev_queue_ida dev' = dev_queue_ida dev - {k} \<and> dev_heap dev' a = None"

lemma destroy_tail:
  assumes lc: "lc_ok dev" and reg: "dev_queue_at dev k = Some a" and k: "2 \<le> k"
    and sim: "dev_similar dev dev1"
    and dev': "dev' = bce_free_queue a (bce_qid_free (int k)
      (dev1\<lparr>dev_queues := (dev_queues dev1)[k := None],
            dev_cq_list := remove1 a (dev_cq_list dev1)\<rparr>))"
  shows "destroyed k a dev dev'"
proof -
  have t: "dev_queues dev1 = dev_queues dev" "dev_cq_list dev1 = dev_cq_list dev"
    "dev_queue_ida dev1 = dev_queue_ida dev"
    using sim by (simp_all add: dev_similar_def)
  have "dev_queue_at dev1 k = Some a" using reg queue_at_cong [OF t(1)] by simp
  then have "lc_ok dev'"
    by (rule lc_ok_unpublish [OF lc_ok_similar [OF lc sim] _ k])
      (simp_all add: dev' bce_free_queue_def bce_qid_free_def)
  then show ?thesis
    using t by (simp add: destroyed_def dev' bce_free_queue_def bce_qid_free_def)
qed

lemma sq_not_listed:
  assumes "lc_ok dev" and "dev_heap dev a = Some (Queue_SQ q)"
  shows "a \<notin> set (dev_cq_list dev)"
  using dev_okD(5) [OF lc_okD(1) [OF assms(1)], of a] assms(2) by auto

lemma destroy_queue_effect:
  assumes lc: "lc_ok dev" and reg: "dev_queue_at dev k = Some a" and k: "2 \<le> k"
    and env: "env_ok env"
  shows "destroyed k a dev
    (case dev_heap dev a of
       Some (Queue_CQ cq) \<Rightarrow> bce_destroy_cq r env a dev
     | _ \<Rightarrow> bce_destroy_sq r env a dev)"
proof -
  obtain obj where obj: "dev_heap dev a = Some obj" "queue_qid obj = int k"
    using dev_okD(3) [OF lc_okD(1) [OF lc] reg] by blast
  show ?thesis
  proof (cases obj)
    case (Queue_CQ cq)
    then have "cq_qid (cq_at dev a) = int k" using obj by (simp add: cq_at_def)
    then have "destroyed k a dev (bce_destroy_cq r env a dev)"
      by (intro destroy_tail [OF lc reg k unregister_similar [OF env]])
        (simp add: bce_destroy_cq_def Let_def)
    with obj Queue_CQ show ?thesis by simp
  next
    case (Queue_SQ q)
    let ?d = "unregister_queue r env (int k) dev"
    have sim: "dev_similar dev ?d" by (rule unregister_similar [OF env])
    have "remove1 a (dev_cq_list ?d) = dev_cq_list ?d"
      using sq_not_listed [OF lc] obj Queue_SQ sim by (simp add: dev_similar_def remove1_idem)
    then have "?d\<lparr>dev_queues := x, dev_cq_list := remove1 a (dev_cq_list ?d)\<rparr>
        = ?d\<lparr>dev_queues := x\<rparr>" for x by simp
    then have "destroyed k a dev (bce_destroy_sq r env a dev)"
      by (intro destroy_tail [OF lc reg k sim])
        (use obj Queue_SQ in \<open>simp add: bce_destroy_sq_def sq_at_def Let_def\<close>)
    with obj Queue_SQ show ?thesis by simp
  qed
qed

text \<open>
  Destroying a published user queue removes exactly its table entry, its place
  on the interrupt's list, its id and its object, and keeps the tables consistent, whether
  or not the device still answers the unregister command.
\<close>

theorem destroy_queue_outcome:
  fixes r :: addr
  assumes "lc_ok dev" and "dev_queue_at dev k = Some a" and "2 \<le> k" and "env_ok env"
  defines "dev' \<equiv> (case dev_heap dev a of
       Some (Queue_CQ cq) \<Rightarrow> bce_destroy_cq r env a dev
     | _ \<Rightarrow> bce_destroy_sq r env a dev)"
  shows "lc_ok dev' \<and> dev_queues dev' = (dev_queues dev)[k := None]
     \<and> dev_cq_list dev' = remove1 a (dev_cq_list dev)
     \<and> dev_queue_ida dev' = dev_queue_ida dev - {k} \<and> dev_heap dev' a = None"
  using destroy_queue_effect [OF assms(1-4), of r] unfolding destroyed_def dev'_def .

text \<open>The tables that creation and destruction edit are the same.\<close>

definition same_tables :: "apple_bce_device \<Rightarrow> apple_bce_device \<Rightarrow> bool" where
  "same_tables dev dev' \<longleftrightarrow> dev_queues dev' = dev_queues dev \<and> dev_cq_list dev' = dev_cq_list dev
     \<and> dev_queue_ida dev' = dev_queue_ida dev"

lemma same_tables_similar: "dev_similar dev dev' \<Longrightarrow> same_tables dev dev'"
  by (simp add: same_tables_def dev_similar_def)

lemma same_tables_trans: "same_tables a b \<Longrightarrow> same_tables b c \<Longrightarrow> same_tables a c"
  by (simp add: same_tables_def)

lemma undo_creation:
  fixes r :: addr
  assumes lc: "lc_ok dev" and c: "creation_outcome listed dev (Some a) dev1"
    and lc2: "lc_ok dev2" and same: "same_tables dev1 dev2" and env: "env_ok env"
    and l: "listed a = [] \<or> listed a = [a]"
  defines "dev3 \<equiv> (case dev_heap dev2 a of
       Some (Queue_CQ cq) \<Rightarrow> bce_destroy_cq r env a dev2
     | _ \<Rightarrow> bce_destroy_sq r env a dev2)"
  shows "lc_ok dev3 \<and> same_tables dev dev3 \<and> dev_heap dev3 a = None"
proof -
  obtain k where c: "lc_ok dev1" "dev_heap dev a = None" "dev_cq_list dev1 = dev_cq_list dev @ listed a"
    and k: "2 \<le> k" "k < 256" "dev_queue_at dev k = None"
      "dev_queues dev1 = (dev_queues dev)[k := Some a]"
    using c by (auto simp: creation_outcome_def)
  have len: "k < length (dev_queues dev)" using k(2) dev_okD(1) [OF lc_okD(1) [OF lc]] by simp
  have at: "dev_queue_at dev1 j = (if j = k then Some a else dev_queue_at dev j)" for j
    by (rule queue_at_update [OF k(4) len])
  have at2: "dev_queue_at dev2 k = Some a"
    using at [of k] same queue_at_cong [of dev2 dev1 k] by (simp add: same_tables_def)
  have d: "destroyed k a dev2 dev3"
    using destroy_queue_effect [OF lc2 at2 k(1) env, of r] by (simp add: dev3_def)
  have "dev_queues dev ! k = None" using k(3) len by (simp add: dev_queue_at_def)
  then have q: "(dev_queues dev)[k := None] = dev_queues dev" by (metis list_update_id)
  have out: "a \<notin> set (dev_cq_list dev)"
    using dev_okD(5) [OF lc_okD(1) [OF lc], of a] c(2) by auto
  then have l': "remove1 a (dev_cq_list dev @ listed a) = dev_cq_list dev"
    using l by (auto simp: remove1_append remove1_idem)
  have i: "dev_queue_ida dev1 - {k} = dev_queue_ida dev"
    using lc_okD(3) [OF lc] lc_okD(3) [OF c(1)] at k(3) by auto
  show ?thesis using d q l' i k(4) c(3) same by (simp add: destroyed_def same_tables_def)
qed

lemma created_in_list:
  assumes "lc_ok dev" and "creation_outcome listed dev (Some a) dev1"
  shows "a \<in> set (dev_cq_list dev1) \<longleftrightarrow> a \<in> set (listed a)"
  using assms dev_okD(5) [OF lc_okD(1) [OF assms(1)], of a] by (auto simp: creation_outcome_def)

lemma undo_create_cq:
  assumes "lc_ok dev" and "creation_outcome (\<lambda>a. [a]) dev (Some a) dev1"
    and "lc_ok dev2" and "same_tables dev1 dev2" and "env_ok env"
  shows "lc_ok (bce_destroy_cq r env a dev2)" "same_tables dev (bce_destroy_cq r env a dev2)"
proof -
  have "a \<in> set (dev_cq_list dev2)"
    using created_in_list [OF assms(1,2)] assms(4) by (simp add: same_tables_def)
  then obtain cq where "dev_heap dev2 a = Some (Queue_CQ cq)"
    using dev_okD(5) [OF lc_okD(1) [OF assms(3)]] by blast
  then show "lc_ok (bce_destroy_cq r env a dev2)" "same_tables dev (bce_destroy_cq r env a dev2)"
    using undo_creation [OF assms, of r] by simp_all
qed

lemma undo_create_sq:
  assumes "lc_ok dev" and "creation_outcome (\<lambda>a. []) dev (Some a) dev1"
    and "lc_ok dev2" and "same_tables dev1 dev2" and "env_ok env"
  shows "lc_ok (bce_destroy_sq r env a dev2)" "same_tables dev (bce_destroy_sq r env a dev2)"
proof -
  have "a \<notin> set (dev_cq_list dev2)"
    using created_in_list [OF assms(1,2)] assms(4) by (simp add: same_tables_def)
  then have "dev_heap dev2 a \<noteq> Some (Queue_CQ cq)" for cq
    using lc_okD(4) [OF assms(3)] by blast
  then have "(case dev_heap dev2 a of Some (Queue_CQ cq) \<Rightarrow> bce_destroy_cq r env a dev2
      | _ \<Rightarrow> bce_destroy_sq r env a dev2) = bce_destroy_sq r env a dev2"
    by (auto split: option.split bce_queue.split)
  then show "lc_ok (bce_destroy_sq r env a dev2)" "same_tables dev (bce_destroy_sq r env a dev2)"
    using undo_creation [OF assms, of r] by simp_all
qed

text \<open>
  Creating a completion queue and destroying it again brings the table, the
  interrupt's list and the ids back to what they were.
\<close>

theorem create_destroy_cq_roundtrip:
  fixes r :: addr
  assumes lc: "lc_ok dev" and ida: "ida_ok ida" and env: "env_ok (al_cmd env)"
    and fresh: "fresh_alloc env dev" and n: "0 < el_count" and env': "env_ok env'"
    and res: "bce_create_cq ida env el_count dev = (Some a, dev1)"
    and obj: "dev_heap dev1 a = Some (Queue_CQ cq)"
  defines "dev2 \<equiv> bce_destroy_cq r env' a dev1"
  shows "lc_ok dev2 \<and> dev_queues dev2 = dev_queues dev \<and> dev_cq_list dev2 = dev_cq_list dev
    \<and> dev_queue_ida dev2 = dev_queue_ida dev \<and> dev_heap dev2 a = None"
proof -
  have c: "creation_outcome (\<lambda>a. [a]) dev (Some a) dev1"
    by (rule create_cq_keeps [OF lc ida env fresh n res])
  then have "lc_ok dev1" by (simp add: creation_outcome_def)
  from undo_creation [OF lc c this _ env', of r] obj show ?thesis
    by (simp add: dev2_def same_tables_def)
qed

section \<open>Creating and destroying on a small device\<close>

text \<open>An id allocator that hands out the smallest free id.\<close>

definition first_free :: ida_alloc where
  "first_free used lo hi = (case filter (\<lambda>k. k \<notin> used) [lo..<Suc hi] of
     [] \<Rightarrow> - ENOSPC | k # ks \<Rightarrow> int k)"

lemma first_free_ok: "ida_ok first_free"
proof -
  have "first_free used lo hi < 0 \<or> (lo \<le> nat (first_free used lo hi)
      \<and> nat (first_free used lo hi) \<le> hi \<and> nat (first_free used lo hi) \<notin> used)" for used lo hi
  proof (cases "filter (\<lambda>k. k \<notin> used) [lo..<Suc hi]")
    case (Cons k ks)
    then have "k \<in> set (filter (\<lambda>k. k \<notin> used) [lo..<Suc hi])" by (metis list.set_intros(1))
    then have "lo \<le> k \<and> k \<le> hi \<and> k \<notin> used" by (simp only: set_filter set_upt) auto
    then show ?thesis unfolding first_free_def Cons by simp
  qed (simp add: first_free_def)
  then show ?thesis by (simp add: ida_ok_def)
qed

definition quiet_env :: cmd_env where
  "quiet_env = \<lparr>cw_junk = ex_el False 0, cw_reserve = [], cw_lock = (\<lambda>c. c), cw_wait = (\<lambda>c. c),
     cw_relock = (\<lambda>c. c)\<rparr>"

lemma quiet_env_ok: "env_ok quiet_env"
  by (simp add: env_ok_def env_keeps_def quiet_env_def wakeups_keep_def)

definition ex_alloc :: alloc_env where
  "ex_alloc = \<lparr>al_obj = Some 20, al_dma = Some 0x3000, al_data = True, al_res = 77,
     al_cmd = quiet_env\<rparr>"

lemma ex_dev_lc: "lc_ok ex_dev"
proof -
  have at: "dev_queue_at ex_dev 0 = Some 10" "dev_queue_at ex_dev 1 = Some 11"
    by (simp_all add: dev_queue_at_def ex_dev_def)
  have "dev_heap ex_dev a \<noteq> None \<longleftrightarrow> (\<exists>k. dev_queue_at ex_dev k = Some a)" for a
  proof
    assume "dev_heap ex_dev a \<noteq> None"
    then have "a = 10 \<or> a = 11" by (simp add: ex_dev_def split: if_splits)
    with at show "\<exists>k. dev_queue_at ex_dev k = Some a" by blast
  next
    assume "\<exists>k. dev_queue_at ex_dev k = Some a"
    then show "dev_heap ex_dev a \<noteq> None" using dev_okD(3) [OF ex_dev_ok] by blast
  qed
  moreover have "dev_queue_ida ex_dev = {k. 2 \<le> k \<and> dev_queue_at ex_dev k \<noteq> None}"
  proof -
    have "\<not> (2 \<le> k \<and> dev_queue_at ex_dev k \<noteq> None)" for k
      using ex_dev_queue_at [of k] by (cases "dev_queue_at ex_dev k") auto
    then show ?thesis by (simp add: ex_dev_def)
  qed
  moreover have "dev_heap ex_dev a = Some (Queue_CQ cq) \<longrightarrow> a \<in> set (dev_cq_list ex_dev)" for a cq
    by (simp add: ex_dev_def)
  ultimately show ?thesis using ex_dev_ok by (simp add: lc_ok_def)
qed

lemma ex_alloc_fresh: "fresh_alloc ex_alloc ex_dev"
  by (simp add: fresh_alloc_def ex_alloc_def ex_dev_def)

lemma ex_alloc_env: "env_ok (al_cmd ex_alloc)"
  by (simp add: ex_alloc_def quiet_env_ok)

theorem create_cq_outcome_witness:
  "\<exists>r dev'. bce_create_cq first_free ex_alloc 8 ex_dev = (r, dev') \<and> lc_ok dev'"
proof -
  obtain r dev' where "bce_create_cq first_free ex_alloc 8 ex_dev = (r, dev')"
    by (cases "bce_create_cq first_free ex_alloc 8 ex_dev")
  with create_cq_outcome [OF ex_dev_lc first_free_ok ex_alloc_env ex_alloc_fresh _ this]
  show ?thesis by auto
qed

theorem create_sq_outcome_witness:
  "\<exists>r dev'. bce_create_sq first_free ex_alloc (Some 10) (Some [86]) 8 1
       Cb_vhci_message_queue_completion 5 ex_dev = (r, dev')
     \<and> creation_outcome (\<lambda>a. []) ex_dev r dev'"
proof -
  let ?run = "bce_create_sq first_free ex_alloc (Some 10) (Some [86]) 8 1
       Cb_vhci_message_queue_completion 5 ex_dev"
  obtain r dev' where "?run = (r, dev')" by (cases ?run)
  with create_sq_outcome [OF ex_dev_lc first_free_ok ex_alloc_env ex_alloc_fresh this]
  show ?thesis by auto
qed

text \<open>The same device with a user queue under the id 2.\<close>

definition ex_dev_user :: apple_bce_device where
  "ex_dev_user = ex_dev\<lparr>dev_queues := (dev_queues ex_dev)[2 := Some 20], dev_queue_ida := {2},
     dev_heap := (dev_heap ex_dev)(20 \<mapsto> Queue_SQ (ex_sq\<lparr>sq_qid := 2\<rparr>))\<rparr>"

lemma ex_dev_user_lc: "lc_ok ex_dev_user"
proof (rule lc_ok_publish [OF ex_dev_lc, of 2 20 "Queue_SQ (ex_sq\<lparr>sq_qid := 2\<rparr>)"])
  show "dev_queue_at ex_dev 2 = None" using ex_dev_queue_at [of 2] by (cases "dev_queue_at ex_dev 2") auto
qed (simp_all add: ex_dev_user_def ex_dev_def)

theorem destroy_queue_outcome_witness:
  "dev_queue_at ex_dev_user 2 = Some 20 \<and> dev_heap (bce_destroy_sq 77 quiet_env 20 ex_dev_user) 20 = None"
proof -
  have at: "dev_queue_at ex_dev_user 2 = Some 20"
    by (simp add: ex_dev_user_def ex_dev_def dev_queue_at_def)
  have obj: "dev_heap ex_dev_user 20 = Some (Queue_SQ (ex_sq\<lparr>sq_qid := 2\<rparr>))"
    by (simp add: ex_dev_user_def)
  show ?thesis
    using destroy_queue_outcome [OF ex_dev_user_lc at _ quiet_env_ok, of 77] at obj by simp
qed

text \<open>A device with a working command queue: every command completes with status 0.\<close>

definition ex_dev_cmd :: apple_bce_device where
  "ex_dev_cmd = ex_dev\<lparr>dev_cmd_cmdq := Some 9,
     dev_cmdqs := [9 \<mapsto> \<lparr>co_sq = 11, co_tres = [None, None]\<rparr>],
     dev_heap := (dev_heap ex_dev)(11 \<mapsto>
       Queue_SQ (cmdq_sq (ex_cmdq 0 0 0 1 [None, None] Map.empty)))\<rparr>"

definition answering_env :: cmd_env where
  "answering_env = quiet_env\<lparr>cw_wait := device_completes zero_completion\<rparr>"

lemma ex_dev_cmd_lc: "lc_ok ex_dev_cmd"
  by (rule lc_ok_similar [OF ex_dev_lc])
    (auto simp: dev_similar_def heap_similar_def ex_dev_cmd_def ex_dev_def ex_sq_def ex_cmdq_def
      split: option.split bce_queue.split)

lemma device_completes_qid: "sq_qid (cmdq_sq (device_completes e c)) = sq_qid (cmdq_sq c)"
proof -
  have "sq_qid (cmdq_sq d') = sq_qid (cmdq_sq d)"
    if "completion_loop cmdq_next cmdq_complete_one d = Some d'" for d d'
    by (rule completion_loop_keeps [OF that, of "\<lambda>c. sq_qid (cmdq_sq c)"])
      (auto simp: cmdq_next_def bce_next_completion_def cmdq_complete_one_def Let_def
        bce_notify_submission_complete_def split: if_splits)
  then show ?thesis
    by (auto simp: device_completes_def bce_cmdq_completion_def sq_push_completion_def
        split: option.split)
qed

lemma answering_env_ok: "env_ok answering_env"
  by (simp add: env_ok_def env_keeps_def answering_env_def quiet_env_def wakeups_keep_def
      keeps_qid_def device_completes_qid)

lemma ex_dev_cmd_register:
  "\<exists>d. dev_cmd (bce_cmd_register_queue 77 answering_env cfg name flags)
      (ex_dev_cmd\<lparr>dev_queue_ida := ids, dev_heap := (dev_heap ex_dev_cmd)(20 \<mapsto> obj)\<rparr>) = (0, d)
    \<and> dev_heap d 20 = Some obj"
proof -
  let ?c = "ex_cmdq 0 0 0 1 [None, None] Map.empty"
  let ?dev = "ex_dev_cmd\<lparr>dev_queue_ida := ids, dev_heap := (dev_heap ex_dev_cmd)(20 \<mapsto> obj)\<rparr>"
  have load: "dev_cmdq ?dev = Some (9, \<lparr>co_sq = 11, co_tres = [None, None]\<rparr>, ?c)"
    by (simp add: dev_cmdq_def ex_dev_cmd_def ex_dev_def ex_cmdq_def)
  obtain mmio c' where "cmd_run 77 answering_env (El_register (register_cmd cfg name flags)) ?c
      = (0, mmio, c')"
    using cmd_run_completes [OF ex_idle, of 77 answering_env zero_completion
        "El_register (register_cmd cfg name flags)"]
    by (auto simp: ex_cmdq_def answering_env_def quiet_env_def zero_completion_def)
  with load show ?thesis
    by (simp add: dev_cmd_def bce_cmd_register_queue_def set_cmdq_def)
qed

theorem create_destroy_cq_roundtrip_witness:
  "\<exists>dev1. bce_create_cq first_free (ex_alloc\<lparr>al_cmd := answering_env\<rparr>) 8 ex_dev_cmd = (Some 20, dev1)
     \<and> dev_queues (bce_destroy_cq 77 quiet_env 20 dev1) = dev_queues ex_dev_cmd"
proof -
  let ?env = "ex_alloc\<lparr>al_cmd := answering_env\<rparr>"
  have ids: "bce_qid_alloc first_free ex_dev_cmd = (2, ex_dev_cmd\<lparr>dev_queue_ida := {2}\<rparr>)"
    by (simp add: bce_qid_alloc_def first_free_def ex_dev_cmd_def ex_dev_def upt_conv_Cons)
  obtain cq where cq: "bce_alloc_cq 2 8 True (Some 0x3000) = Some cq"
    by (simp add: bce_alloc_cq_def)
  obtain d where d: "dev_cmd (bce_cmd_register_queue 77 answering_env (bce_get_cq_memcfg cq) None 0)
      (ex_dev_cmd\<lparr>dev_queue_ida := {2}, dev_heap := (dev_heap ex_dev_cmd)(20 \<mapsto> Queue_CQ cq)\<rparr>)
        = (0, d)" "dev_heap d 20 = Some (Queue_CQ cq)"
    using ex_dev_cmd_register by blast
  let ?dev1 = "(publish_queue 2 20 d)\<lparr>dev_cq_list := dev_cq_list (publish_queue 2 20 d) @ [20]\<rparr>"
  have res: "bce_create_cq first_free ?env 8 ex_dev_cmd = (Some 20, ?dev1)"
    using ids cq d by (simp add: bce_create_cq_def ex_alloc_def Let_def)
  have fresh: "fresh_alloc ?env ex_dev_cmd"
    by (simp add: fresh_alloc_def ex_alloc_def ex_dev_cmd_def ex_dev_def)
  have "dev_queues (bce_destroy_cq 77 quiet_env 20 ?dev1) = dev_queues ex_dev_cmd"
    using create_destroy_cq_roundtrip [OF ex_dev_cmd_lc first_free_ok _ fresh _ quiet_env_ok res]
      d(2) answering_env_ok by (simp add: publish_queue_def)
  with res show ?thesis by blast
qed

end
