(* ===== verification/Bce_Power.thy ===== *)
theory Bce_Power
  imports Bce_Lifecycle
begin

text \<open>
  The firmware handshake, the registration of the command queues, suspend and resume
  (\<open>src/apple_bce.c\<close>).

  Each mailbox exchange has its own wait, what the interrupt does while the driver sleeps;
  \<open>bc_wait i\<close> belongs to the \<open>i\<close>-th exchange of a function. The coherent DMA buffers that
  are allocated and not freed are the list \<open>pw_dma\<close>, the depth of \<open>disable_irq\<close> on the DMA
  interrupt is \<open>pw_irq_disabled\<close>, and \<open>pw_msgs\<close> are the messages sent.
\<close>

section \<open>Handshake and command queue registration\<close>

abbreviation BC_PROTOCOL_VERSION :: u64 where "BC_PROTOCOL_VERSION \<equiv> 0x20001"

type_synonym mbox_wait = "int \<Rightarrow> bce_mailbox \<Rightarrow> bce_mailbox"

text \<open>One exchange on the device's mailbox: the status, the answer word and the device.\<close>

definition dev_send :: "mbox_wait \<Rightarrow> u64 \<Rightarrow> int \<Rightarrow> apple_bce_device \<Rightarrow> int \<times> u64 \<times> apple_bce_device" where
  "dev_send wait msg timeout dev =
     (let (res, mb) = bce_mailbox_send wait msg timeout (dev_mbox dev)
      in (ms_status res, (case ms_recv res of Some v \<Rightarrow> v | None \<Rightarrow> 0), dev\<lparr>dev_mbox := mb\<rparr>))"

definition bce_fw_version_handshake :: "mbox_wait \<Rightarrow> apple_bce_device \<Rightarrow> int \<times> apple_bce_device" where
  "bce_fw_version_handshake wait dev =
     (let (status, result, dev') = dev_send wait
            (BCE_MB_MSG (of_nat BCE_MB_SET_FW_PROTOCOL_VERSION) BC_PROTOCOL_VERSION)
            BCE_MBOX_TIMEOUT_MS dev
      in if status \<noteq> 0 then (status, dev')
         else if BCE_MB_TYPE result \<noteq> of_nat BCE_MB_SET_FW_PROTOCOL_VERSION
              \<or> BCE_MB_VALUE result \<noteq> BC_PROTOCOL_VERSION then (- EINVAL, dev')
         else (0, dev'))"

text \<open>\<open>mapping\<close> is the bus address of the configuration, \<open>None\<close> for a mapping error.\<close>

definition bce_register_command_queue ::
  "mbox_wait \<Rightarrow> u64 option \<Rightarrow> bool \<Rightarrow> apple_bce_device \<Rightarrow> int \<times> apple_bce_device" where
  "bce_register_command_queue wait mapping is_sq dev =
     (case mapping of
        None \<Rightarrow> (- ENOMEM, dev)
      | Some a \<Rightarrow>
          let cmd_type = (if is_sq then BCE_MB_REGISTER_COMMAND_SQ else BCE_MB_REGISTER_COMMAND_CQ);
              (status, result, dev') = dev_send wait (BCE_MB_MSG cmd_type a) BCE_MBOX_TIMEOUT_MS dev
          in if status \<noteq> 0 then (status, dev')
             else if BCE_MB_TYPE result \<noteq> BCE_MB_REGISTER_COMMAND_QUEUE_REPLY then (- EINVAL, dev')
             else (0, dev'))"

text \<open>The allocator's answers for the two command queues and the two mappings.\<close>

record cmdqs_env =
  cv_cq :: "addr option"
  cv_cq_dma :: "u64 option"
  cv_cmdq :: "addr option"
  cv_sq :: "addr option"
  cv_sq_dma :: "u64 option"
  cv_sq_data :: bool
  cv_tres :: bool
  cv_cfg :: bool
  cv_map_cq :: "u64 option"
  cv_map_sq :: "u64 option"
  cv_wait_cq :: mbox_wait
  cv_wait_sq :: mbox_wait

text \<open>The allocations at the start of \<open>bce_create_command_queues\<close>.\<close>

definition alloc_command_queues :: "cmdqs_env \<Rightarrow> apple_bce_device \<Rightarrow> apple_bce_device" where
  "alloc_command_queues env dev =
     (let dev1 = (case (cv_cq env, bce_alloc_cq 0 0x20 (cv_cq env \<noteq> None) (cv_cq_dma env)) of
            (Some a, Some cq) \<Rightarrow>
              dev\<lparr>dev_cmd_cq := Some a, dev_heap := (dev_heap dev)(a \<mapsto> Queue_CQ cq)\<rparr>
          | _ \<Rightarrow> dev\<lparr>dev_cmd_cq := None\<rparr>)
      in (case (cv_cmdq env, cv_sq env,
             bce_alloc_cmdq 1 0x20 (case cv_cmdq env of Some c \<Rightarrow> c | None \<Rightarrow> 0)
               (cv_cmdq env \<noteq> None) (cv_sq env \<noteq> None, cv_sq_dma env, cv_sq_data env) (cv_tres env)) of
            (Some c, Some b, Some q) \<Rightarrow>
              dev1\<lparr>dev_cmd_cmdq := Some c,
                   dev_cmdqs := (dev_cmdqs dev1)(c \<mapsto> \<lparr>co_sq = b, co_tres = cmdq_tres q\<rparr>),
                   dev_heap := (dev_heap dev1)(b \<mapsto> Queue_SQ (cmdq_sq q))\<rparr>
          | _ \<Rightarrow> dev1\<lparr>dev_cmd_cmdq := None\<rparr>))"

text \<open>Freeing the two queues if they were allocated.\<close>

definition free_command_queues :: "apple_bce_device \<Rightarrow> apple_bce_device" where
  "free_command_queues dev =
     (let dev1 = (case dev_cmd_cq dev of
            Some a \<Rightarrow> (bce_free_queue a dev)\<lparr>dev_cmd_cq := None\<rparr> | None \<Rightarrow> dev)
      in (case dev_cmd_cmdq dev1 of
            Some c \<Rightarrow>
              let dev2 = (case dev_cmdqs dev1 c of
                    Some co \<Rightarrow> bce_free_queue (co_sq co) dev1 | None \<Rightarrow> dev1)
              in dev2\<lparr>dev_cmdqs := (dev_cmdqs dev2)(c := None), dev_cmd_cmdq := None\<rparr>
          | None \<Rightarrow> dev1))"

text \<open>The address in \<open>cmdq->sq\<close>.\<close>

definition cmdq_sq_addr :: "addr \<Rightarrow> apple_bce_device \<Rightarrow> addr option" where
  "cmdq_sq_addr c dev = map_option co_sq (dev_cmdqs dev c)"

text \<open>The error path: unpublish, wait for readers, free.\<close>

definition command_queues_err :: "apple_bce_device \<Rightarrow> apple_bce_device" where
  "command_queues_err dev =
     (let dev1 = (case (dev_queue_at dev 0, dev_cmd_cq dev) of
            (Some _, Some a) \<Rightarrow> dev\<lparr>dev_cq_list := remove1 a (dev_cq_list dev)\<rparr>
          | _ \<Rightarrow> dev);
          dev2 = dev1\<lparr>dev_queues := (dev_queues dev1)[0 := None, 1 := None]\<rparr>
      in free_command_queues dev2)"

definition bce_create_command_queues :: "cmdqs_env \<Rightarrow> apple_bce_device \<Rightarrow> int \<times> apple_bce_device" where
  "bce_create_command_queues env dev =
     (let dev1 = alloc_command_queues env dev in
      case (dev_cmd_cq dev1, dev_cmd_cmdq dev1) of
        (Some a, Some c) \<Rightarrow>
          let dev2 = dev1\<lparr>dev_queues := (dev_queues dev1)[0 := Some a, 1 := cmdq_sq_addr c dev1],
                          dev_cq_list := dev_cq_list dev1 @ [a]\<rparr> in
          if \<not> cv_cfg env then (- ENOMEM, command_queues_err dev2)
          else
            let (st, dev3) = bce_register_command_queue (cv_wait_cq env) (cv_map_cq env) False dev2 in
            if st \<noteq> 0 then (st, command_queues_err dev3)
            else
              let (st', dev4) = bce_register_command_queue (cv_wait_sq env) (cv_map_sq env) True dev3
              in if st' \<noteq> 0 then (st', command_queues_err dev4) else (0, dev4)
      | _ \<Rightarrow> (- ENOMEM, command_queues_err dev1))"

definition bce_free_command_queues :: "apple_bce_device \<Rightarrow> apple_bce_device" where
  "bce_free_command_queues dev =
     (let a = (case dev_cmd_cq dev of Some a \<Rightarrow> a | None \<Rightarrow> 0);
          dev1 = dev\<lparr>dev_cq_list := remove1 a (dev_cq_list dev),
                     dev_queues := (dev_queues dev)[0 := None, 1 := None]\<rparr>;
          dev2 = bce_free_queue a dev1
      in (case dev_cmd_cmdq dev2 of
            Some c \<Rightarrow> (case dev_cmdqs dev2 c of
                Some co \<Rightarrow> (bce_free_queue (co_sq co) dev2)
                  \<lparr>dev_cmdqs := (dev_cmdqs dev2)(c := None), dev_cmd_cq := None\<rparr>
              | None \<Rightarrow> dev2\<lparr>dev_cmd_cq := None\<rparr>)
          | None \<Rightarrow> dev2\<lparr>dev_cmd_cq := None\<rparr>))"

section \<open>Saving and restoring the state\<close>

record power_state =
  pw_dev :: apple_bce_device
  pw_dma :: "(addr \<times> u64) list"
  pw_irq_disabled :: int
  pw_msgs :: "u64 list"

text \<open>
  \<open>bc_alloc i size\<close> is the buffer pointer and bus address the \<open>i\<close>-th allocation returns;
  \<open>bc_running\<close> the timer callbacks that run while the heartbeat is stopped; \<open>bc_vendor i\<close>
  the vendor id the \<open>i\<close>-th configuration read returns.
\<close>

record power_env =
  bc_alloc :: "nat \<Rightarrow> u64 \<Rightarrow> (addr \<times> u64) option"
  bc_wait :: "nat \<Rightarrow> mbox_wait"
  bc_running :: "bce_timestamp \<Rightarrow> bce_timestamp"
  bc_vendor :: "nat \<Rightarrow> u16"

definition power_send :: "mbox_wait \<Rightarrow> u64 \<Rightarrow> power_state \<Rightarrow> int \<times> u64 \<times> power_state" where
  "power_send wait msg p =
     (let (status, resp, dev) = dev_send wait msg BCE_MBOX_TIMEOUT_SAVE_RESTORE_MS (pw_dev p)
      in (status, resp, p\<lparr>pw_dev := dev, pw_msgs := pw_msgs p @ [msg]\<rparr>))"

definition dma_free :: "addr \<Rightarrow> u64 \<Rightarrow> power_state \<Rightarrow> power_state" where
  "dma_free ptr sz p = p\<lparr>pw_dma := remove1 (ptr, sz) (pw_dma p)\<rparr>"

definition state_msg :: "u64 \<Rightarrow> u64 \<Rightarrow> u64 \<Rightarrow> u64" where
  "state_msg t a sz = BCE_MB_MSG t ((a AND NOT 4095) OR (sz div 4096))"

definition next_save_size :: "u64 \<Rightarrow> u64" where
  "next_save_size resp = (BCE_MB_VALUE resp + 0x10ff) AND NOT 4095"

text \<open>How the loop of \<open>bce_save_state_and_sleep\<close> ends: the state is saved, or it breaks with a
  status, the buffer that is still allocated and its size.\<close>

datatype save_exit = Saved | Broke int "addr option" u64

fun save_attempts :: "nat \<Rightarrow> nat \<Rightarrow> power_env \<Rightarrow> u64 \<Rightarrow> power_state \<Rightarrow> save_exit \<times> power_state" where
  "save_attempts 0 i env sz p = (Broke 0 None sz, p)"
| "save_attempts (Suc n) i env sz p =
     (case bc_alloc env i sz of
        None \<Rightarrow> (Broke 0 None sz, p)
      | Some (ptr, a) \<Rightarrow>
          let p1 = p\<lparr>pw_dma := (ptr, sz) # pw_dma p\<rparr> in
          if a mod 4096 \<noteq> 0 then (Broke (- EINVAL) (Some ptr) sz, p1)
          else
            let (status, resp, p2) =
              power_send (bc_wait env i) (state_msg BCE_MB_SAVE_STATE_AND_SLEEP a sz) p1 in
            if status \<noteq> 0 then (Broke status (Some ptr) sz, p2)
            else if BCE_MB_TYPE resp = BCE_MB_SAVE_RESTORE_STATE_COMPLETE then
              (Saved, p2\<lparr>pw_dev := (pw_dev p2)\<lparr>dev_saved_data_dma_addr := a,
                 dev_saved_data_dma_ptr := Some ptr, dev_saved_data_dma_size := sz\<rparr>\<rparr>)
            else if BCE_MB_TYPE resp = BCE_MB_SAVE_STATE_AND_SLEEP_FAILURE then
              save_attempts n (Suc i) env (next_save_size resp) (dma_free ptr sz p2)
            else (Broke (- EINVAL) (Some ptr) sz, p2))"

definition bce_save_state_and_sleep :: "power_env \<Rightarrow> power_state \<Rightarrow> int \<times> power_state" where
  "bce_save_state_and_sleep env p =
     (case save_attempts 5 0 env 4096 p of
        (Saved, p1) \<Rightarrow> (0, p1)
      | (Broke status ptr sz, p1) \<Rightarrow>
          let p2 = (case ptr of Some a \<Rightarrow> dma_free a sz p1 | None \<Rightarrow> p1) in
          if status = 0 then
            let (status', resp, p3) = power_send (bc_wait env 5) (BCE_MB_MSG BCE_MB_SLEEP_NO_STATE 0) p2
            in (status', p3)
          else (status, p2))"

definition bce_restore_state_and_wake :: "power_env \<Rightarrow> power_state \<Rightarrow> int \<times> power_state" where
  "bce_restore_state_and_wake env p =
     (case dev_saved_data_dma_ptr (pw_dev p) of
        None \<Rightarrow>
          let (status, resp, p1) =
            power_send (bc_wait env 0) (BCE_MB_MSG (of_nat BCE_MB_RESTORE_NO_STATE) 0) p in
          if status \<noteq> 0 then (status, p1)
          else if BCE_MB_TYPE resp \<noteq> of_nat BCE_MB_RESTORE_NO_STATE then (- EINVAL, p1)
          else (0, p1)
      | Some ptr \<Rightarrow>
          let a = dev_saved_data_dma_addr (pw_dev p); sz = dev_saved_data_dma_size (pw_dev p);
              (status, resp, p1) =
                power_send (bc_wait env 0) (state_msg BCE_MB_RESTORE_STATE_AND_WAKE a sz) p;
              status' = (if status \<noteq> 0 then status
                         else if BCE_MB_TYPE resp \<noteq> BCE_MB_SAVE_RESTORE_STATE_COMPLETE then - EINVAL
                         else 0);
              p2 = dma_free ptr sz p1
          in (status', p2\<lparr>pw_dev := (pw_dev p2)\<lparr>dev_saved_data_dma_ptr := None\<rparr>\<rparr>))"

section \<open>Suspend and resume\<close>

definition power_timestamp_start :: "power_state \<Rightarrow> power_state" where
  "power_timestamp_start p = p\<lparr>pw_dev := (pw_dev p)\<lparr>dev_timestamp :=
     snd (bce_timestamp_start False (dev_timestamp (pw_dev p)))\<rparr>\<rparr>"

definition power_timestamp_stop :: "power_env \<Rightarrow> power_state \<Rightarrow> power_state" where
  "power_timestamp_stop env p = p\<lparr>pw_dev := (pw_dev p)\<lparr>dev_timestamp :=
     snd (bce_timestamp_stop (bc_running env) (dev_timestamp (pw_dev p)))\<rparr>\<rparr>"

definition apple_bce_suspend :: "power_env \<Rightarrow> power_state \<Rightarrow> int \<times> power_state" where
  "apple_bce_suspend env p =
     (let (status, p1) = bce_save_state_and_sleep env (power_timestamp_stop env p) in
      if status \<noteq> 0 then (status, power_timestamp_start p1)
      else (0, p1\<lparr>pw_irq_disabled := pw_irq_disabled p1 + 1\<rparr>))"

abbreviation PCI_VENDOR_ID_APPLE :: u16 where "PCI_VENDOR_ID_APPLE \<equiv> 0x106b"

text \<open>The last vendor id read by the poll: the first one that matches, or the 120th.\<close>

fun poll_vendor :: "nat \<Rightarrow> nat \<Rightarrow> (nat \<Rightarrow> u16) \<Rightarrow> u16 \<Rightarrow> u16" where
  "poll_vendor 0 i vendor vid = vid"
| "poll_vendor (Suc n) i vendor vid =
     (if vendor i = PCI_VENDOR_ID_APPLE then vendor i
      else poll_vendor n (Suc i) vendor (vendor i))"

definition enable_dma_irq :: "power_state \<Rightarrow> power_state" where
  "enable_dma_irq p = p\<lparr>pw_irq_disabled := pw_irq_disabled p - 1\<rparr>"

definition apple_bce_resume :: "power_env \<Rightarrow> power_state \<Rightarrow> int \<times> power_state" where
  "apple_bce_resume env p =
     (if poll_vendor 120 0 (bc_vendor env) 0 \<noteq> PCI_VENDOR_ID_APPLE
      then (- ENODEV, enable_dma_irq p)
      else
        let (status, p1) = bce_restore_state_and_wake env p in
        if status \<noteq> 0 then (status, enable_dma_irq p1)
        else (0, enable_dma_irq (power_timestamp_start p1)))"

section \<open>The handshake\<close>

lemma message_eqI:
  assumes "BCE_MB_TYPE w = ucast t" and "BCE_MB_VALUE w = take_bit 58 v" and "t < 64"
  shows "w = BCE_MB_MSG t v"
proof (rule bit_word_eqI)
  fix n assume "n < LENGTH(64)"
  have t: "bit t k \<Longrightarrow> k < 6" for k
    using assms(3) bit_word_below [of t k 6] by (simp add: word_less_nat_alt)
  have hi: "bit (BCE_MB_TYPE w) k = bit w (k + 58)" if "k < 32" for k
    using that by (simp add: BCE_MB_TYPE_def bit_simps add.commute)
  have lo: "bit (BCE_MB_VALUE w) k = (k < 58 \<and> bit w k)" for k
    by (auto simp: BCE_MB_VALUE_def mask_58 bit_simps)
  show "bit w n = bit (BCE_MB_MSG t v) n"
  proof (cases "n < 58")
    case True
    then have "bit w n = bit (take_bit 58 v) n" using lo [of n] assms(2) by simp
    with True show ?thesis by (simp add: BCE_MB_MSG_def mask_58 bit_simps)
  next
    case False
    then have "bit w n = bit (BCE_MB_TYPE w) (n - 58)"
      using hi [of "n - 58"] \<open>n < LENGTH(64)\<close> by simp
    also have "\<dots> = bit t (n - 58)"
    proof -
      have "n - 58 < 32" using \<open>n < LENGTH(64)\<close> by simp
      then show ?thesis using assms(1) by (simp add: bit_simps)
    qed
    finally show ?thesis using False \<open>n < LENGTH(64)\<close>
      by (auto simp: BCE_MB_MSG_def mask_58 bit_simps)
  qed
qed

text \<open>What an exchange returns when the interrupts \<open>irqs\<close> arrive during the wait.\<close>

lemma mailbox_send_status:
  "ms_status (fst (bce_mailbox_send (\<lambda>_. mailbox_irqs irqs) msg timeout mb)) =
     (if mb_status mb \<noteq> 0 then - EEXIST
      else if filter irq_has_reply irqs = [] then - ETIMEDOUT else 0)"
  "mb_status mb = 0 \<Longrightarrow> filter irq_has_reply irqs \<noteq> [] \<Longrightarrow>
     ms_recv (fst (bce_mailbox_send (\<lambda>_. mailbox_irqs irqs) msg timeout mb))
       = Some (irq_word (last (filter irq_has_reply irqs)))"
  using mailbox_irqs_waiting [of "mb\<lparr>mb_status := 1, mb_completion := False\<rparr>" irqs]
  by (auto simp: bce_mailbox_send_def mailbox_send_begin_def mailbox_send_finish_def split_beta Let_def)

text \<open>
  The firmware handshake succeeds exactly when the mailbox was idle, a reply
  arrived during the wait, and the last reply repeats the version message word for word.
\<close>

theorem handshake_succeeds_iff:
  "fst (bce_fw_version_handshake (\<lambda>_. mailbox_irqs irqs) dev) = 0 \<longleftrightarrow>
     mb_status (dev_mbox dev) = 0 \<and> filter irq_has_reply irqs \<noteq> []
     \<and> irq_word (last (filter irq_has_reply irqs)) = BCE_MB_MSG 0xC 0x20001"
proof -
  let ?w = "irq_word (last (filter irq_has_reply irqs))"
  let ?send = "bce_mailbox_send (\<lambda>_. mailbox_irqs irqs) (BCE_MB_MSG 0xC 0x20001) 200 (dev_mbox dev)"
  have c: "ucast (0xC :: u64) = (0xC :: u32)" "take_bit 58 (0x20001 :: u64) = 0x20001"
    "(0xC :: u64) < 64"
    by (simp_all add: unsigned_of_nat take_bit_eq_mod)
  have match: "BCE_MB_TYPE ?w = 0xC \<and> BCE_MB_VALUE ?w = 0x20001 \<longleftrightarrow> ?w = BCE_MB_MSG 0xC 0x20001"
    using message_eqI [of ?w "0xC" "0x20001"] message_unpack [OF c(3), of "0x20001"] c(1,2) by auto
  have "fst (bce_fw_version_handshake (\<lambda>_. mailbox_irqs irqs) dev) =
      (if ms_status (fst ?send) \<noteq> 0 then ms_status (fst ?send)
       else if BCE_MB_TYPE (case ms_recv (fst ?send) of Some v \<Rightarrow> v | None \<Rightarrow> 0) \<noteq> 0xC
         \<or> BCE_MB_VALUE (case ms_recv (fst ?send) of Some v \<Rightarrow> v | None \<Rightarrow> 0) \<noteq> 0x20001
       then - EINVAL else 0)"
    by (simp add: bce_fw_version_handshake_def dev_send_def split_beta Let_def)
  then show ?thesis
    using mailbox_send_status [where irqs = irqs and msg = "BCE_MB_MSG 0xC 0x20001" and timeout = 200
        and mb = "dev_mbox dev"] match
    by (cases "mb_status (dev_mbox dev) = 0"; cases "filter irq_has_reply irqs = []") auto
qed

section \<open>The command queues\<close>

text \<open>The device before its command queues exist, and allocator answers that are new.\<close>

definition cmdqs_boot :: "cmdqs_env \<Rightarrow> apple_bce_device \<Rightarrow> bool" where
  "cmdqs_boot env dev \<longleftrightarrow> length (dev_queues dev) = 256
     \<and> dev_queues dev ! 0 = None \<and> dev_queues dev ! 1 = None
     \<and> (\<forall>a. cv_cq env = Some a \<longrightarrow> dev_heap dev a = None \<and> a \<notin> set (dev_cq_list dev))
     \<and> (\<forall>b. cv_sq env = Some b \<longrightarrow> dev_heap dev b = None \<and> cv_cq env \<noteq> Some b)
     \<and> (\<forall>c. cv_cmdq env = Some c \<longrightarrow> dev_cmdqs dev c = None)"

text \<open>The state of the tables a failed creation has to leave behind.\<close>

definition same_boot :: "apple_bce_device \<Rightarrow> apple_bce_device \<Rightarrow> bool" where
  "same_boot dev dev' \<longleftrightarrow> dev_heap dev' = dev_heap dev \<and> dev_queues dev' = dev_queues dev
     \<and> dev_cq_list dev' = dev_cq_list dev \<and> dev_cmdqs dev' = dev_cmdqs dev
     \<and> dev_cmd_cq dev' = None \<and> dev_cmd_cmdq dev' = None"

definition cmdqs_published :: "addr \<Rightarrow> addr \<Rightarrow> addr \<Rightarrow> bce_queue_cq \<Rightarrow> bce_queue_sq \<Rightarrow> addr option list
    \<Rightarrow> apple_bce_device \<Rightarrow> apple_bce_device \<Rightarrow> bool" where
  "cmdqs_published a b c cq sq tres dev dev' \<longleftrightarrow>
     dev_heap dev' = (dev_heap dev)(a \<mapsto> Queue_CQ cq, b \<mapsto> Queue_SQ sq)
     \<and> dev_queues dev' = (dev_queues dev)[0 := Some a, 1 := Some b]
     \<and> dev_cq_list dev' = dev_cq_list dev @ [a]
     \<and> dev_cmdqs dev' = (dev_cmdqs dev)(c \<mapsto> \<lparr>co_sq = b, co_tres = tres\<rparr>)
     \<and> dev_cmd_cq dev' = Some a \<and> dev_cmd_cmdq dev' = Some c"

lemma register_command_queue_frame:
  assumes "bce_register_command_queue wait mapping is_sq dev = (st, dev')"
  shows "\<exists>mb. dev' = dev\<lparr>dev_mbox := mb\<rparr>"
proof (cases mapping)
  case None
  with assms have "dev' = dev\<lparr>dev_mbox := dev_mbox dev\<rparr>"
    by (simp add: bce_register_command_queue_def)
  then show ?thesis by blast
next
  case (Some a)
  with assms show ?thesis
    by (auto simp: bce_register_command_queue_def dev_send_def Let_def split_beta split: if_splits)
qed

lemma clear_command_slots:
  assumes "xs ! 0 = None" and "xs ! 1 = None"
  shows "xs[0 := x, 1 := y, 0 := None, 1 := None] = xs" "xs[0 := None, 1 := None] = xs"
  using assms by (metis list_update_id list_update_overwrite list_update_swap zero_neq_one)+

lemma err_after_publish:
  assumes "cmdqs_boot env dev" and "cv_cq env = Some a" and "cv_sq env = Some b"
    and "cv_cmdq env = Some c" and "cmdqs_published a b c cq sq tres dev dev'"
  shows "same_boot dev (command_queues_err dev')"
proof -
  have boot: "dev_queues dev ! 0 = None" "dev_queues dev ! 1 = None" "length (dev_queues dev) = 256"
    "dev_heap dev a = None" "a \<notin> set (dev_cq_list dev)" "dev_heap dev b = None" "a \<noteq> b"
    "dev_cmdqs dev c = None"
    using assms(1-4) by (auto simp: cmdqs_boot_def)
  have pub: "dev_heap dev' = (dev_heap dev)(a \<mapsto> Queue_CQ cq, b \<mapsto> Queue_SQ sq)"
    "dev_queues dev' = (dev_queues dev)[0 := Some a, 1 := Some b]"
    "dev_cq_list dev' = dev_cq_list dev @ [a]"
    "dev_cmdqs dev' = (dev_cmdqs dev)(c \<mapsto> \<lparr>co_sq = b, co_tres = tres\<rparr>)"
    "dev_cmd_cq dev' = Some a" "dev_cmd_cmdq dev' = Some c"
    using assms(5) by (simp_all add: cmdqs_published_def)
  have "dev_queue_at dev' 0 = Some a" using pub(2) boot(3) by (simp add: dev_queue_at_def)
  moreover have "(dev_heap dev)(a := None, b := None) = dev_heap dev"
    "(dev_cmdqs dev)(c := None) = dev_cmdqs dev"
    using boot by (auto simp: fun_eq_iff)
  moreover have "remove1 a (dev_cq_list dev @ [a]) = dev_cq_list dev"
    using boot(5) by (simp add: remove1_append)
  ultimately show ?thesis
    using pub boot(7) clear_command_slots(1) [OF boot(1,2), of "Some a" "Some b"]
    by (simp add: command_queues_err_def free_command_queues_def bce_free_queue_def same_boot_def
        Let_def fun_upd_twist)
qed

lemma err_before_publish:
  assumes boot: "cmdqs_boot env dev"
    and no: "dev_cmd_cq (alloc_command_queues env dev) = None
      \<or> dev_cmd_cmdq (alloc_command_queues env dev) = None"
  shows "same_boot dev (command_queues_err (alloc_command_queues env dev))"
proof -
  let ?d = "alloc_command_queues env dev"
  have b: "dev_queues dev ! 0 = None" "dev_queues dev ! 1 = None" "length (dev_queues dev) = 256"
    using boot by (auto simp: cmdqs_boot_def)
  have q: "dev_queues ?d = dev_queues dev" "dev_cq_list ?d = dev_cq_list dev"
    by (auto simp: alloc_command_queues_def Let_def split: option.split)
  have at: "dev_queue_at ?d 0 = None" using q(1) b(1,3) by (simp add: dev_queue_at_def)
  show ?thesis
  proof (cases "dev_cmd_cq ?d")
    case None
    then have hd: "dev_heap ?d = (case dev_cmd_cmdq ?d of None \<Rightarrow> dev_heap dev
        | Some c \<Rightarrow> dev_heap ?d)" "dev_cmd_cmdq ?d = None \<Longrightarrow> dev_cmdqs ?d = dev_cmdqs dev"
      by (auto simp: alloc_command_queues_def Let_def split: option.splits)
    show ?thesis
    proof (cases "dev_cmd_cmdq ?d")
      case None
      with \<open>dev_cmd_cq ?d = None\<close> hd q at clear_command_slots(2) [OF b(1,2)] show ?thesis
        by (simp add: command_queues_err_def free_command_queues_def same_boot_def)
    next
      case (Some c)
      with \<open>dev_cmd_cq ?d = None\<close> obtain s sq tres where
        "cv_cmdq env = Some c" "cv_sq env = Some s"
        "dev_heap ?d = (dev_heap dev)(s \<mapsto> Queue_SQ sq)"
        "dev_cmdqs ?d = (dev_cmdqs dev)(c \<mapsto> \<lparr>co_sq = s, co_tres = tres\<rparr>)"
        by (auto simp: alloc_command_queues_def Let_def split: option.splits)
      moreover from this boot have "(dev_heap dev)(s := None) = dev_heap dev"
        "(dev_cmdqs dev)(c := None) = dev_cmdqs dev"
        by (auto simp: cmdqs_boot_def fun_eq_iff)
      ultimately show ?thesis
        using \<open>dev_cmd_cq ?d = None\<close> Some q at clear_command_slots(2) [OF b(1,2)]
        by (simp add: command_queues_err_def free_command_queues_def bce_free_queue_def same_boot_def)
    qed
  next
    case (Some a)
    with no have none: "dev_cmd_cmdq ?d = None" by simp
    with Some obtain cq where "cv_cq env = Some a" "dev_heap ?d = (dev_heap dev)(a \<mapsto> Queue_CQ cq)"
      "dev_cmdqs ?d = dev_cmdqs dev"
      by (auto simp: alloc_command_queues_def Let_def split: option.splits)
    moreover from this boot have "(dev_heap dev)(a := None) = dev_heap dev"
      by (auto simp: cmdqs_boot_def fun_eq_iff)
    ultimately show ?thesis
      using Some none q at clear_command_slots(2) [OF b(1,2)]
      by (simp add: command_queues_err_def free_command_queues_def bce_free_queue_def same_boot_def)
  qed
qed

text \<open>
  Property C8. Setting up the command queues is all or nothing: a failure at any step,
  allocation, mapping, timeout or a wrong reply, leaves the tables, the lists and the heap as
  they were and both pointers NULL; success publishes the completion queue under id 0 on the
  interrupt's list and the command queue's submission queue under id 1.
\<close>

theorem create_command_queues_outcome:
  assumes boot: "cmdqs_boot env dev" and res: "bce_create_command_queues env dev = (st, dev')"
  shows "(st = 0 \<and> (\<exists>a b c cq sq tres. cmdqs_published a b c cq sq tres dev dev'
      \<and> cq_qid cq = 0 \<and> sq_qid sq = 1 \<and> sq_userdata sq = c))
    \<or> (st \<noteq> 0 \<and> same_boot dev dev')"
proof (cases "dev_cmd_cq (alloc_command_queues env dev) = None
    \<or> dev_cmd_cmdq (alloc_command_queues env dev) = None")
  case True
  then have "st = - ENOMEM" "dev' = command_queues_err (alloc_command_queues env dev)"
    using res by (auto simp: bce_create_command_queues_def Let_def split: option.splits)
  with err_before_publish [OF boot True] show ?thesis by simp
next
  case False
  let ?d1 = "alloc_command_queues env dev"
  obtain a b c cq q where al: "cv_cq env = Some a" "cv_sq env = Some b" "cv_cmdq env = Some c"
    "bce_alloc_cq 0 0x20 True (cv_cq_dma env) = Some cq"
    "bce_alloc_cmdq 1 0x20 c True (True, cv_sq_dma env, cv_sq_data env) (cv_tres env) = Some q"
    and d1: "?d1 = dev\<lparr>dev_cmd_cq := Some a, dev_cmd_cmdq := Some c,
      dev_heap := (dev_heap dev)(a \<mapsto> Queue_CQ cq, b \<mapsto> Queue_SQ (cmdq_sq q)),
      dev_cmdqs := (dev_cmdqs dev)(c \<mapsto> \<lparr>co_sq = b, co_tres = cmdq_tres q\<rparr>)\<rparr>"
    using False by (auto simp: alloc_command_queues_def Let_def split: option.splits)
  have ids: "cq_qid cq = 0" "sq_qid (cmdq_sq q) = 1" "sq_userdata (cmdq_sq q) = c"
    using al(4,5) by (auto simp: bce_alloc_cq_def bce_alloc_cmdq_def bce_alloc_sq_def
        split: option.splits if_splits)
  let ?d2 = "?d1\<lparr>dev_queues := (dev_queues ?d1)[0 := Some a, 1 := cmdq_sq_addr c ?d1],
    dev_cq_list := dev_cq_list ?d1 @ [a]\<rparr>"
  have pub: "cmdqs_published a b c cq (cmdq_sq q) (cmdq_tres q) dev (?d2\<lparr>dev_mbox := mb\<rparr>)" for mb
    by (simp add: cmdqs_published_def d1 cmdq_sq_addr_def)
  have pub0: "cmdqs_published a b c cq (cmdq_sq q) (cmdq_tres q) dev ?d2"
    using pub [of "dev_mbox ?d2"] by simp
  note err = err_after_publish [OF boot al(1,2,3)]
  obtain s3 d3 where r3: "bce_register_command_queue (cv_wait_cq env) (cv_map_cq env) False ?d2 = (s3, d3)"
    by (cases "bce_register_command_queue (cv_wait_cq env) (cv_map_cq env) False ?d2")
  obtain s4 d4 where r4: "bce_register_command_queue (cv_wait_sq env) (cv_map_sq env) True d3 = (s4, d4)"
    by (cases "bce_register_command_queue (cv_wait_sq env) (cv_map_sq env) True d3")
  obtain mb3 mb4 where mb: "d3 = ?d2\<lparr>dev_mbox := mb3\<rparr>" "d4 = ?d2\<lparr>dev_mbox := mb4\<rparr>"
    using register_command_queue_frame [OF r3] register_command_queue_frame [OF r4] by auto
  have cmds: "dev_cmd_cq ?d1 = Some a" "dev_cmd_cmdq ?d1 = Some c" by (simp_all add: d1)
  have out: "(st, dev') = (if \<not> cv_cfg env then (- ENOMEM, command_queues_err ?d2)
      else if s3 \<noteq> 0 then (s3, command_queues_err d3)
      else if s4 \<noteq> 0 then (s4, command_queues_err d4) else (0, d4))"
    using res cmds r3 r4
    by (cases "cv_cfg env"; cases "s3 = 0") (auto simp: bce_create_command_queues_def Let_def)
  have fin: "\<exists>a b c cq sq tres. cmdqs_published a b c cq sq tres dev d4
      \<and> cq_qid cq = 0 \<and> sq_qid sq = 1 \<and> sq_userdata sq = c"
    using pub [of mb4] mb(2) ids by metis
  have "same_boot dev (command_queues_err ?d2)" "same_boot dev (command_queues_err d3)"
    "same_boot dev (command_queues_err d4)"
    using err [OF pub0] err [OF pub [of mb3]] err [OF pub [of mb4]] mb by simp_all
  with out fin show ?thesis
    by (cases "cv_cfg env"; cases "s3 = 0"; cases "s4 = 0") (simp_all del: ex_simps)
qed

definition ex_boot_dev :: apple_bce_device where
  "ex_boot_dev = ex_dev\<lparr>dev_queues := replicate 256 None, dev_cq_list := [], dev_heap := Map.empty\<rparr>"

definition ex_cmdqs_env :: cmdqs_env where
  "ex_cmdqs_env = \<lparr>cv_cq = Some 1, cv_cq_dma = Some 0x1000, cv_cmdq = Some 3, cv_sq = Some 2,
     cv_sq_dma = Some 0x2000, cv_sq_data = True, cv_tres = True, cv_cfg = True,
     cv_map_cq = Some 0x3000, cv_map_sq = None, cv_wait_cq = (\<lambda>t mb. mb\<lparr>mb_status := 2,
       mb_result := BCE_MB_MSG 0xB 0\<rparr>), cv_wait_sq = (\<lambda>t mb. mb)\<rparr>"

theorem create_command_queues_outcome_witness:
  "\<exists>dev'. bce_create_command_queues ex_cmdqs_env ex_boot_dev = (- ENOMEM, dev')
     \<and> same_boot ex_boot_dev dev'"
proof -
  have boot: "cmdqs_boot ex_cmdqs_env ex_boot_dev"
    by (simp add: cmdqs_boot_def ex_cmdqs_env_def ex_boot_dev_def ex_dev_def)
  have t: "BCE_MB_TYPE (BCE_MB_MSG 0xB 0) = 0xB"
  proof -
    have "(0xB :: u64) < 64" by simp
    from message_unpack(1) [OF this, of 0] show ?thesis by simp
  qed
  obtain dev' where "bce_create_command_queues ex_cmdqs_env ex_boot_dev = (- ENOMEM, dev')"
    by (simp add: bce_create_command_queues_def alloc_command_queues_def ex_cmdqs_env_def
        bce_alloc_cq_def bce_alloc_cmdq_def bce_alloc_sq_def Let_def bce_register_command_queue_def
        dev_send_def bce_mailbox_send_def mailbox_send_begin_def mailbox_send_finish_def t
        ex_boot_dev_def ex_dev_def)
  with create_command_queues_outcome [OF boot this] show ?thesis by auto
qed

section \<open>DMA buffers across suspend and resume\<close>

abbreviation saved_ptr :: "power_state \<Rightarrow> addr option" where
  "saved_ptr p \<equiv> dev_saved_data_dma_ptr (pw_dev p)"
abbreviation saved_size :: "power_state \<Rightarrow> u64" where
  "saved_size p \<equiv> dev_saved_data_dma_size (pw_dev p)"

lemma power_send_frame:
  assumes "power_send wait msg p = (status, resp, p')"
  shows "pw_dma p' = pw_dma p" "saved_ptr p' = saved_ptr p" "saved_size p' = saved_size p"
    "pw_irq_disabled p' = pw_irq_disabled p"
    "dev_timestamp (pw_dev p') = dev_timestamp (pw_dev p)"
    "dev_saved_data_dma_addr (pw_dev p') = dev_saved_data_dma_addr (pw_dev p)"
  using assms by (auto simp: power_send_def dev_send_def split_beta Let_def)

text \<open>
  What the attempts leave behind: the buffer of the saved state, or the buffer the loop broke
  with, on top of what was allocated before.
\<close>

lemma save_attempts_ledger:
  "save_attempts n i env sz p = (ex, p') \<Longrightarrow>
     pw_irq_disabled p' = pw_irq_disabled p \<and> dev_timestamp (pw_dev p') = dev_timestamp (pw_dev p) \<and>
     (case ex of
        Saved \<Rightarrow> \<exists>ptr. saved_ptr p' = Some ptr \<and> pw_dma p' = (ptr, saved_size p') # pw_dma p
      | Broke st None sz' \<Rightarrow> st = 0 \<and> pw_dma p' = pw_dma p \<and> saved_ptr p' = saved_ptr p
      | Broke st (Some ptr) sz' \<Rightarrow>
          st \<noteq> 0 \<and> pw_dma p' = (ptr, sz') # pw_dma p \<and> saved_ptr p' = saved_ptr p)"
proof (induction n arbitrary: i sz p)
  case 0
  then show ?case by auto
next
  case (Suc n)
  show ?case
  proof (cases "bc_alloc env i sz")
    case None
    with Suc.prems show ?thesis by auto
  next
    case (Some x)
    then obtain ptr a where al: "bc_alloc env i sz = Some (ptr, a)" by (cases x) auto
    let ?p1 = "p\<lparr>pw_dma := (ptr, sz) # pw_dma p\<rparr>"
    let ?msg = "state_msg BCE_MB_SAVE_STATE_AND_SLEEP a sz"
    obtain st resp p2 where sd: "power_send (bc_wait env i) ?msg ?p1 = (st, resp, p2)"
      by (cases "power_send (bc_wait env i) ?msg ?p1")
    note fr = power_send_frame [OF sd]
    have free: "pw_dma (dma_free ptr sz p2) = pw_dma p" "saved_ptr (dma_free ptr sz p2) = saved_ptr p"
      "pw_irq_disabled (dma_free ptr sz p2) = pw_irq_disabled p"
      "dev_timestamp (pw_dev (dma_free ptr sz p2)) = dev_timestamp (pw_dev p)"
      using fr by (simp_all add: dma_free_def)
    show ?thesis
    proof (cases "a mod 4096 = 0 \<and> st = 0 \<and> BCE_MB_TYPE resp \<noteq> BCE_MB_SAVE_RESTORE_STATE_COMPLETE
        \<and> BCE_MB_TYPE resp = BCE_MB_SAVE_STATE_AND_SLEEP_FAILURE")
      case True
      then have "save_attempts n (Suc i) env (next_save_size resp) (dma_free ptr sz p2) = (ex, p')"
        using Suc.prems al sd by (simp add: Let_def)
      from Suc.IH [OF this] show ?thesis unfolding free .
    next
      case False
      with Suc.prems al sd fr show ?thesis
        by (auto simp: Let_def split: if_splits)
    qed
  qed
qed

lemma save_state_ledger:
  assumes "bce_save_state_and_sleep env p = (st, p')"
  shows "pw_irq_disabled p' = pw_irq_disabled p
    \<and> dev_timestamp (pw_dev p') = dev_timestamp (pw_dev p)
    \<and> ((st = 0 \<and> (\<exists>ptr. saved_ptr p' = Some ptr \<and> pw_dma p' = (ptr, saved_size p') # pw_dma p))
       \<or> (pw_dma p' = pw_dma p \<and> saved_ptr p' = saved_ptr p))"
proof -
  obtain ex p1 where at: "save_attempts 5 0 env 4096 p = (ex, p1)"
    by (cases "save_attempts 5 0 env 4096 p")
  note led = save_attempts_ledger [OF at]
  show ?thesis
  proof (cases ex)
    case Saved
    with assms at led show ?thesis by (auto simp: bce_save_state_and_sleep_def)
  next
    case (Broke bst ptr sz)
    show ?thesis
    proof (cases ptr)
      case None
      let ?m = "BCE_MB_MSG BCE_MB_SLEEP_NO_STATE 0"
      obtain s r p3 where sd: "power_send (bc_wait env 5) ?m p1 = (s, r, p3)"
        by (cases "power_send (bc_wait env 5) ?m p1")
      with assms at led Broke None power_send_frame [OF sd] show ?thesis
        by (auto simp: bce_save_state_and_sleep_def)
    next
      case (Some a)
      with assms at led Broke show ?thesis
        by (auto simp: bce_save_state_and_sleep_def dma_free_def)
    qed
  qed
qed

lemma restore_ledger:
  assumes "bce_restore_state_and_wake env p = (st, p')"
  shows "saved_ptr p' = None \<and> pw_irq_disabled p' = pw_irq_disabled p
    \<and> dev_timestamp (pw_dev p') = dev_timestamp (pw_dev p)
    \<and> pw_dma p' = (case saved_ptr p of
        None \<Rightarrow> pw_dma p | Some ptr \<Rightarrow> remove1 (ptr, saved_size p) (pw_dma p))"
proof (cases "saved_ptr p")
  case None
  let ?m = "BCE_MB_MSG (of_nat BCE_MB_RESTORE_NO_STATE) 0"
  obtain s r p1 where sd: "power_send (bc_wait env 0) ?m p = (s, r, p1)"
    by (cases "power_send (bc_wait env 0) ?m p")
  with None assms power_send_frame [OF sd] show ?thesis
    by (auto simp: bce_restore_state_and_wake_def split: if_splits)
next
  case (Some ptr)
  let ?m = "state_msg BCE_MB_RESTORE_STATE_AND_WAKE (dev_saved_data_dma_addr (pw_dev p)) (saved_size p)"
  obtain s r p1 where sd: "power_send (bc_wait env 0) ?m p = (s, r, p1)"
    by (cases "power_send (bc_wait env 0) ?m p")
  with Some assms power_send_frame [OF sd] show ?thesis
    by (auto simp: bce_restore_state_and_wake_def dma_free_def Let_def)
qed

text \<open>
  Property C9. A suspend that succeeds disables the DMA interrupt once and holds at most one
  more buffer, the one the saved-state pointer and size describe; a suspend that fails holds
  no more buffers than before, leaves the interrupt enabled and the heartbeat running.
\<close>

theorem suspend_outcome:
  assumes "apple_bce_suspend env p = (st, p')"
  shows "(st = 0 \<and> pw_irq_disabled p' = pw_irq_disabled p + 1
      \<and> ts_timer (dev_timestamp (pw_dev p')) = None
      \<and> ((\<exists>ptr. saved_ptr p' = Some ptr \<and> pw_dma p' = (ptr, saved_size p') # pw_dma p)
         \<or> (pw_dma p' = pw_dma p \<and> saved_ptr p' = saved_ptr p)))
    \<or> (st \<noteq> 0 \<and> pw_irq_disabled p' = pw_irq_disabled p
      \<and> ts_timer (dev_timestamp (pw_dev p')) = Some 150
      \<and> pw_dma p' = pw_dma p \<and> saved_ptr p' = saved_ptr p)"
proof -
  let ?p = "power_timestamp_stop env p"
  obtain s p1 where sv: "bce_save_state_and_sleep env ?p = (s, p1)"
    by (cases "bce_save_state_and_sleep env ?p")
  have stop: "pw_dma ?p = pw_dma p" "saved_ptr ?p = saved_ptr p"
    "pw_irq_disabled ?p = pw_irq_disabled p" "ts_timer (dev_timestamp (pw_dev ?p)) = None"
    by (simp_all add: power_timestamp_stop_def bce_timestamp_stop_def Let_def)
  from save_state_ledger [OF sv] stop sv assms show ?thesis
    by (auto simp: apple_bce_suspend_def power_timestamp_start_def bce_timestamp_start_def
        split: if_splits)
qed

text \<open>
  A resume after a successful suspend re-enables the DMA interrupt exactly once
  on every path. If the device came back on the bus, the saved buffer is released and the
  saved pointer cleared whatever the device answers, so the buffers are those from before
  the suspend; the heartbeat runs again exactly when the resume succeeded.
\<close>

theorem suspend_resume_balanced:
  assumes "saved_ptr p = None" and "apple_bce_suspend env p = (0, p1)"
    and "apple_bce_resume env' p1 = (st, p2)"
  shows "pw_irq_disabled p2 = pw_irq_disabled p
    \<and> (poll_vendor 120 0 (bc_vendor env') 0 = PCI_VENDOR_ID_APPLE \<longrightarrow>
         pw_dma p2 = pw_dma p \<and> saved_ptr p2 = None
         \<and> (st = 0 \<longleftrightarrow> ts_timer (dev_timestamp (pw_dev p2)) = Some 150))
    \<and> (poll_vendor 120 0 (bc_vendor env') 0 \<noteq> PCI_VENDOR_ID_APPLE \<longrightarrow>
         st = - ENODEV \<and> pw_dma p2 = pw_dma p1 \<and> saved_ptr p2 = saved_ptr p1)"
proof -
  let ?p = "power_timestamp_stop env p"
  obtain p0 where sv: "bce_save_state_and_sleep env ?p = (0, p0)"
    and p1: "p1 = p0\<lparr>pw_irq_disabled := pw_irq_disabled p0 + 1\<rparr>"
    using assms(2) by (cases "bce_save_state_and_sleep env ?p")
      (auto simp: apple_bce_suspend_def split: if_splits)
  have stop: "pw_dma ?p = pw_dma p" "saved_ptr ?p = None"
    "pw_irq_disabled ?p = pw_irq_disabled p" "ts_timer (dev_timestamp (pw_dev ?p)) = None"
    using assms(1) by (simp_all add: power_timestamp_stop_def bce_timestamp_stop_def Let_def)
  note led = save_state_ledger [OF sv]
  obtain s q where rs: "bce_restore_state_and_wake env' p1 = (s, q)"
    by (cases "bce_restore_state_and_wake env' p1")
  note rl = restore_ledger [OF rs]
  have q: "pw_dma q = pw_dma p" "saved_ptr q = None" "pw_irq_disabled q = pw_irq_disabled p + 1"
    "ts_timer (dev_timestamp (pw_dev q)) = None"
    using led rl stop p1 by auto
  have p1i: "pw_irq_disabled p1 = pw_irq_disabled p + 1" using led stop p1 by simp
  show ?thesis
  proof (cases "poll_vendor 120 0 (bc_vendor env') 0 = PCI_VENDOR_ID_APPLE")
    case True
    with q rs assms(3) show ?thesis
      by (cases "s = 0") (auto simp: apple_bce_resume_def enable_dma_irq_def
          power_timestamp_start_def bce_timestamp_start_def)
  next
    case False
    with p1i assms(3) show ?thesis by (auto simp: apple_bce_resume_def enable_dma_irq_def)
  qed
qed

text \<open>
  The buffer size for the next attempt is a multiple of the page size and holds
  at least the size the device asked for with 256 bytes to spare, and less than two pages
  more.
\<close>

theorem save_size_bounds:
  "unat (next_save_size resp) mod 4096 = 0
   \<and> unat (BCE_MB_VALUE resp) + 0x100 \<le> unat (next_save_size resp)
   \<and> unat (next_save_size resp) \<le> unat (BCE_MB_VALUE resp) + 0x10ff"
proof -
  let ?v = "BCE_MB_VALUE resp" let ?w = "?v + 0x10ff"
  have "?v = take_bit 58 resp" by (simp add: BCE_MB_VALUE_def mask_58 take_bit_eq_mask)
  then have v: "unat ?v < 2 ^ 58" by (simp only: unsigned_take_bit_eq take_bit_nat_less_exp)
  then have w: "unat ?w = unat ?v + 0x10ff" by (simp add: unat_word_ariths)
  have "next_save_size resp = ?w - take_bit 12 ?w"
  proof -
    have m: "(4095 :: u64) = mask 12" by (simp add: mask_eq_exp_minus_1)
    have "(?w AND NOT (mask 12)) + (?w AND mask 12) = (?w AND NOT (mask 12)) OR (?w AND mask 12)"
      by (rule disjunctive_add_eq_or) (rule bit_word_eqI, auto simp: bit_simps)
    also have "\<dots> = ?w" by (rule bit_word_eqI) (auto simp: bit_simps)
    finally have "?w = (?w AND NOT (mask 12)) + (?w AND mask 12)" by (rule sym)
    then show ?thesis unfolding next_save_size_def m take_bit_eq_mask by (metis add_diff_cancel)
  qed
  moreover have "unat (take_bit 12 ?w) = unat ?w mod 4096"
    unfolding unsigned_take_bit_eq by (simp add: take_bit_eq_mod)
  moreover from this have "take_bit 12 ?w \<le> ?w" by (simp add: word_le_nat_alt)
  ultimately have n: "unat (next_save_size resp) = unat ?w - unat ?w mod 4096"
    by (simp add: unat_sub)
  have "unat ?w - unat ?w mod 4096 = unat ?w div 4096 * 4096"
    by (simp add: minus_mod_eq_div_mult)
  then show ?thesis using n w by (auto simp: modulo_nat_def)
qed

text \<open>A firmware that answers every exchange with the word \<open>w\<close>, and an environment around it.\<close>

definition answers :: "u64 \<Rightarrow> mbox_wait" where
  "answers w timeout mb = mb\<lparr>mb_status := 2, mb_completion := True, mb_result := w\<rparr>"

definition ex_power :: power_state where
  "ex_power = \<lparr>pw_dev = ex_dev, pw_dma = [], pw_irq_disabled = 0, pw_msgs = []\<rparr>"

definition ex_power_env :: "addr \<Rightarrow> u16 \<Rightarrow> power_env" where
  "ex_power_env ptr vendor = \<lparr>bc_alloc = (\<lambda>i sz. Some (ptr, 0x10000)),
     bc_wait = (\<lambda>i. answers (BCE_MB_MSG 0x1A 0)), bc_running = (\<lambda>ts. ts), bc_vendor = (\<lambda>i. vendor)\<rparr>"

lemma complete_type: "BCE_MB_TYPE (BCE_MB_MSG 0x1A 0) = 0x1A"
proof -
  have "(0x1A :: u64) < 64" by simp
  from message_unpack(1) [OF this, of 0] show ?thesis by simp
qed

lemma answers_send:
  "mb_status (dev_mbox (pw_dev p)) = 0 \<Longrightarrow> power_send (answers w) msg p
     = (0, w, p\<lparr>pw_dev := (pw_dev p)\<lparr>dev_mbox := \<lparr>mb_status = 0, mb_completion = True, mb_result = w\<rparr>\<rparr>,
         pw_msgs := pw_msgs p @ [msg]\<rparr>)"
  by (simp add: power_send_def dev_send_def bce_mailbox_send_def mailbox_send_begin_def
      mailbox_send_finish_def answers_def)

lemma ex_attempt:
  assumes "mb_status (dev_mbox (pw_dev p)) = 0"
  shows "\<exists>p'. save_attempts (Suc n) i (ex_power_env ptr v) sz p = (Saved, p')
    \<and> saved_ptr p' = Some ptr \<and> saved_size p' = sz \<and> pw_dma p' = (ptr, sz) # pw_dma p
    \<and> mb_status (dev_mbox (pw_dev p')) = 0"
  using assms by (simp add: ex_power_env_def answers_send complete_type)

lemma ex_suspend:
  assumes "mb_status (dev_mbox (pw_dev p)) = 0"
  shows "\<exists>p'. apple_bce_suspend (ex_power_env ptr v) p = (0, p') \<and> saved_ptr p' = Some ptr
    \<and> saved_size p' = 4096 \<and> pw_dma p' = (ptr, 4096) # pw_dma p
    \<and> mb_status (dev_mbox (pw_dev p')) = 0"
proof -
  let ?p = "power_timestamp_stop (ex_power_env ptr v) p"
  have m: "mb_status (dev_mbox (pw_dev ?p)) = 0" "pw_dma ?p = pw_dma p"
    using assms by (simp_all add: power_timestamp_stop_def)
  have "Suc 4 = 5" by simp
  with ex_attempt [OF m(1), of 4 0 ptr v 4096] obtain p' where
    "save_attempts 5 0 (ex_power_env ptr v) 4096 ?p = (Saved, p')" "saved_ptr p' = Some ptr"
    "saved_size p' = 4096" "pw_dma p' = (ptr, 4096) # pw_dma p" "mb_status (dev_mbox (pw_dev p')) = 0"
    unfolding \<open>Suc 4 = 5\<close> m(2) by blast
  then show ?thesis by (simp add: apple_bce_suspend_def bce_save_state_and_sleep_def)
qed

lemma poll_vendor_const: "v \<noteq> PCI_VENDOR_ID_APPLE \<Longrightarrow> poll_vendor n i (\<lambda>_. v) w \<in> {v, w}"
  by (induction n arbitrary: i w) auto

text \<open>
  A resume that never sees the device on the bus keeps the saved buffer, and the
  next suspend that saves its state overwrites the only pointer to it: the first buffer stays
  allocated with nothing left that refers to it.
\<close>

theorem failed_resume_leaks_buffer:
  "\<exists>p1 p2 p3. apple_bce_suspend (ex_power_env 1 0) ex_power = (0, p1)
     \<and> apple_bce_resume (ex_power_env 1 0) p1 = (- ENODEV, p2)
     \<and> apple_bce_suspend (ex_power_env 2 0) p2 = (0, p3)
     \<and> (1, 4096) \<in> set (pw_dma p3) \<and> saved_ptr p3 = Some 2"
proof -
  have "mb_status (dev_mbox (pw_dev ex_power)) = 0" by (simp add: ex_power_def ex_dev_def)
  from ex_suspend [OF this, of 1 0] obtain p1 where
    p1: "apple_bce_suspend (ex_power_env 1 0) ex_power = (0, p1)"
      "pw_dma p1 = (1, 4096) # pw_dma ex_power" "mb_status (dev_mbox (pw_dev p1)) = 0" by blast
  have "poll_vendor 120 0 (\<lambda>_. 0) 0 \<noteq> PCI_VENDOR_ID_APPLE"
    using poll_vendor_const [of 0 120 0 0] by auto
  then have p2: "apple_bce_resume (ex_power_env 1 0) p1 = (- ENODEV, enable_dma_irq p1)"
    by (simp add: apple_bce_resume_def ex_power_env_def)
  have "mb_status (dev_mbox (pw_dev (enable_dma_irq p1))) = 0" "pw_dma (enable_dma_irq p1) = pw_dma p1"
    using p1(3) by (simp_all add: enable_dma_irq_def)
  from ex_suspend [OF this(1), of 2 0] obtain p3 where
    "apple_bce_suspend (ex_power_env 2 0) (enable_dma_irq p1) = (0, p3)" "saved_ptr p3 = Some 2"
    "pw_dma p3 = (2, 4096) # pw_dma (enable_dma_irq p1)" by blast
  with p1(1,2) p2 \<open>pw_dma (enable_dma_irq p1) = pw_dma p1\<close> show ?thesis by auto
qed

theorem suspend_outcome_witness:
  "\<exists>p'. apple_bce_suspend (ex_power_env 1 0) ex_power = (0, p')
     \<and> pw_irq_disabled p' = 1 \<and> length (pw_dma p') \<le> 1"
proof -
  have "mb_status (dev_mbox (pw_dev ex_power)) = 0" by (simp add: ex_power_def ex_dev_def)
  from ex_suspend [OF this, of 1 0] obtain p' where
    p': "apple_bce_suspend (ex_power_env 1 0) ex_power = (0, p')" by blast
  from suspend_outcome [OF p'] p' show ?thesis by (auto simp: ex_power_def)
qed

theorem suspend_resume_balanced_witness:
  "\<exists>p1 st p2. apple_bce_suspend (ex_power_env 1 0x106b) ex_power = (0, p1)
     \<and> apple_bce_resume (ex_power_env 1 0x106b) p1 = (st, p2)
     \<and> pw_dma p2 = [] \<and> pw_irq_disabled p2 = 0"
proof -
  have idle: "mb_status (dev_mbox (pw_dev ex_power)) = 0" "saved_ptr ex_power = None"
    by (simp_all add: ex_power_def ex_dev_def)
  from ex_suspend [OF idle(1), of 1 "0x106b"] obtain p1 where
    p1: "apple_bce_suspend (ex_power_env 1 0x106b) ex_power = (0, p1)" by blast
  obtain st p2 where p2: "apple_bce_resume (ex_power_env 1 0x106b) p1 = (st, p2)"
    by (cases "apple_bce_resume (ex_power_env 1 0x106b) p1")
  have "poll_vendor 120 0 (bc_vendor (ex_power_env 1 0x106b)) 0 = PCI_VENDOR_ID_APPLE"
    by (simp add: ex_power_env_def numeral_eq_Suc)
  with suspend_resume_balanced [OF idle(2) p1 p2] p1 p2 show ?thesis
    by (auto simp: ex_power_def)
qed

end
