(* ===== verification/Bce_Probe.thy ===== *)
theory Bce_Probe
  imports Bce_Prelude
begin

text \<open>
  Probe and remove of the PCI driver (\<open>src/apple_bce.c\<close>) as the resources they take and give
  back. The answers of the kernel and of the driver's own setup functions are the record
  \<open>probe_env\<close>; the model is the list of acquisitions and releases in program order, built
  for a kernel without \<open>WITHOUT_NVME_PATCH\<close>. Replaying the list shows what is held at the
  end and whether anything was released that was not held.
\<close>

section \<open>Resources\<close>

datatype resource =
    R_enabled | R_regions | R_vectors | R_bce | R_srcu | R_device | R_reg_mem_mb | R_reg_mem_dma
  | R_irq0 | R_irq4 | R_pci0 | R_pci0_enabled | R_timestamp | R_command_queues | R_vhci | R_link

text \<open>\<open>Drop\<close> is a release the kernel defines to do nothing when the resource is not held.\<close>

datatype ledger_event = Acq resource | Rel resource | Drop resource

record probe_env =
  pe_enable :: int
  pe_regions :: int
  pe_vectors :: int
  pe_bce :: bool
  pe_srcu :: int
  pe_device :: int
  pe_reg_mem_mb :: bool
  pe_reg_mem_dma :: bool
  pe_irq0 :: int
  pe_irq4 :: int
  pe_dma_mask :: int
  pe_pci0 :: bool
  pe_pci0_enable :: int
  pe_handshake :: int
  pe_command_queues :: int
  pe_vhci :: int
  pe_link :: bool

text \<open>What \<open>bce\<close>, \<open>bce->dev\<close> and the two mappings are when the cleanup runs.\<close>

record probe_ptrs =
  pp_bce :: bool
  pp_dev :: bool
  pp_mb :: bool
  pp_dma :: bool

section \<open>The cleanup labels\<close>

definition probe_fail :: "probe_ptrs \<Rightarrow> ledger_event list" where
  "probe_fail p =
     (if pp_bce p then
        (if pp_dev p then
           [Rel R_device] @ (if pp_mb p then [Rel R_reg_mem_mb] else [])
             @ (if pp_dma p then [Rel R_reg_mem_dma] else [])
         else []) @ [Rel R_srcu, Rel R_bce]
      else []) @ [Drop R_vectors, Rel R_regions, Rel R_enabled]"

definition fail_interrupt_0 :: "probe_ptrs \<Rightarrow> ledger_event list" where
  "fail_interrupt_0 p = Rel R_irq0 # probe_fail p"

definition fail_interrupt :: "probe_ptrs \<Rightarrow> ledger_event list" where
  "fail_interrupt p = Rel R_irq4 # fail_interrupt_0 p"

definition fail_dev0 :: "probe_ptrs \<Rightarrow> ledger_event list" where
  "fail_dev0 p = Rel R_pci0 # fail_interrupt p"

definition fail_ts :: "probe_ptrs \<Rightarrow> ledger_event list" where
  "fail_ts p = Rel R_timestamp # Rel R_pci0_enabled # fail_dev0 p"

definition fail_vhci :: "probe_ptrs \<Rightarrow> ledger_event list" where
  "fail_vhci p = Rel R_command_queues # fail_ts p"

text \<open>The end of the error path: \<open>if (!status) status = -EINVAL\<close>.\<close>

definition probe_status :: "int \<Rightarrow> int" where
  "probe_status status = (if status = 0 then - EINVAL else status)"

section \<open>Probe and remove\<close>

text \<open>From the second interrupt on, with everything before it in place.\<close>

definition probe_device :: "probe_env \<Rightarrow> probe_ptrs \<Rightarrow> int \<times> ledger_event list" where
  "probe_device e p =
     (if pe_dma_mask e \<noteq> 0 then (probe_status (pe_dma_mask e), fail_interrupt p)
      else if \<not> pe_pci0 e then (probe_status (- ENODEV), fail_interrupt p)
      else if pe_pci0_enable e \<noteq> 0 then
        (probe_status (pe_pci0_enable e), Acq R_pci0 # fail_dev0 p)
      else if pe_handshake e \<noteq> 0 then
        (probe_status (pe_handshake e),
         [Acq R_pci0, Acq R_pci0_enabled, Acq R_timestamp] @ fail_ts p)
      else if pe_command_queues e \<noteq> 0 then
        (probe_status (pe_command_queues e),
         [Acq R_pci0, Acq R_pci0_enabled, Acq R_timestamp] @ fail_ts p)
      else if pe_vhci e \<noteq> 0 then
        (probe_status (pe_vhci e),
         [Acq R_pci0, Acq R_pci0_enabled, Acq R_timestamp, Acq R_command_queues] @ fail_vhci p)
      else
        (0, [Acq R_pci0, Acq R_pci0_enabled, Acq R_timestamp, Acq R_command_queues, Acq R_vhci]
            @ (if pe_link e then [Acq R_link] else [])))"

definition apple_bce_probe :: "probe_env \<Rightarrow> int \<times> ledger_event list" where
  "apple_bce_probe e =
     (let none = \<lparr>pp_bce = False, pp_dev = False, pp_mb = False, pp_dma = False\<rparr> in
      if pe_enable e \<noteq> 0 then (- ENODEV, [])
      else if pe_regions e \<noteq> 0 then
        (probe_status (- ENODEV), Acq R_enabled # probe_fail none)
      else if pe_vectors e < 0 then
        (probe_status (pe_vectors e), [Acq R_enabled, Acq R_regions] @ probe_fail none)
      else if \<not> pe_bce e then
        (probe_status (- ENOMEM), [Acq R_enabled, Acq R_regions, Acq R_vectors] @ probe_fail none)
      else if pe_srcu e \<noteq> 0 then
        (probe_status (pe_srcu e),
         [Acq R_enabled, Acq R_regions, Acq R_vectors, Acq R_bce, Rel R_bce] @ probe_fail none)
      else
        let evs = [Acq R_enabled, Acq R_regions, Acq R_vectors, Acq R_bce, Acq R_srcu] in
        if pe_device e \<noteq> 0 then
          (probe_status (pe_device e), evs @ probe_fail (none\<lparr>pp_bce := True\<rparr>))
        else
          let p = \<lparr>pp_bce = True, pp_dev = True, pp_mb = pe_reg_mem_mb e, pp_dma = pe_reg_mem_dma e\<rparr>;
              evs = evs @ [Acq R_device] @ (if pe_reg_mem_mb e then [Acq R_reg_mem_mb] else [])
                @ (if pe_reg_mem_dma e then [Acq R_reg_mem_dma] else [])
          in if \<not> pe_reg_mem_mb e \<or> \<not> pe_reg_mem_dma e then (probe_status 0, evs @ probe_fail p)
             else if pe_irq0 e \<noteq> 0 then (probe_status (pe_irq0 e), evs @ probe_fail p)
             else if pe_irq4 e \<noteq> 0 then
               (probe_status (pe_irq4 e), evs @ [Acq R_irq0] @ fail_interrupt_0 p)
             else
               let (status, rest) = probe_device e p
               in (status, evs @ [Acq R_irq0, Acq R_irq4] @ rest))"

text \<open>\<open>linked\<close> is whether \<open>pci0_link\<close> was created.\<close>

definition apple_bce_remove :: "bool \<Rightarrow> ledger_event list" where
  "apple_bce_remove linked =
     [Rel R_vhci] @ (if linked then [Rel R_link] else [])
     @ [Rel R_timestamp, Rel R_pci0_enabled, Rel R_pci0, Rel R_irq0, Rel R_irq4,
        Rel R_command_queues, Rel R_reg_mem_mb, Rel R_reg_mem_dma, Rel R_device, Drop R_vectors,
        Rel R_regions, Rel R_enabled, Rel R_srcu, Rel R_bce]"

section \<open>Replaying the ledger\<close>

fun replay :: "ledger_event list \<Rightarrow> resource list \<Rightarrow> resource list option" where
  "replay [] held = Some held"
| "replay (Acq r # es) held = (if r \<in> set held then None else replay es (r # held))"
| "replay (Rel r # es) held = (if r \<in> set held then replay es (removeAll r held) else None)"
| "replay (Drop r # es) held = replay es (removeAll r held)"

lemmas cleanup_defs = probe_fail_def fail_interrupt_0_def fail_interrupt_def fail_dev0_def
  fail_ts_def fail_vhci_def

lemma probe_status_nonzero [simp]: "probe_status st \<noteq> 0"
  by (simp add: probe_status_def)

text \<open>What is held before \<open>probe_device\<close> and after a successful probe, latest first.\<close>

definition setup_held :: "resource list" where
  "setup_held = [R_irq4, R_irq0, R_reg_mem_dma, R_reg_mem_mb, R_device, R_srcu, R_bce, R_vectors,
     R_regions, R_enabled]"

definition probe_held :: "bool \<Rightarrow> resource list" where
  "probe_held linked = (if linked then [R_link] else [])
     @ [R_vhci, R_command_queues, R_timestamp, R_pci0_enabled, R_pci0] @ setup_held"

lemma replay_append:
  "replay (xs @ ys) held = (case replay xs held of None \<Rightarrow> None | Some h \<Rightarrow> replay ys h)"
  by (induction xs held rule: replay.induct) auto

text \<open>Each label gives back exactly what is held when the code jumps to it.\<close>

lemma fail_interrupt_replay:
  "replay (fail_interrupt \<lparr>pp_bce = True, pp_dev = True, pp_mb = True, pp_dma = True\<rparr>) setup_held = Some []"
  by (simp add: cleanup_defs setup_held_def)

lemma fail_dev0_replay:
  "replay (fail_dev0 \<lparr>pp_bce = True, pp_dev = True, pp_mb = True, pp_dma = True\<rparr>)
     (R_pci0 # setup_held) = Some []"
  by (simp add: cleanup_defs setup_held_def)

lemma fail_ts_replay:
  "replay (fail_ts \<lparr>pp_bce = True, pp_dev = True, pp_mb = True, pp_dma = True\<rparr>)
     (R_timestamp # R_pci0_enabled # R_pci0 # setup_held) = Some []"
  by (simp add: cleanup_defs setup_held_def)

lemma fail_vhci_replay:
  "replay (fail_vhci \<lparr>pp_bce = True, pp_dev = True, pp_mb = True, pp_dma = True\<rparr>)
     (R_command_queues # R_timestamp # R_pci0_enabled # R_pci0 # setup_held) = Some []"
  by (simp add: cleanup_defs setup_held_def)

lemma not_in_setup [simp]:
  "R_pci0 \<notin> set setup_held" "R_pci0_enabled \<notin> set setup_held" "R_timestamp \<notin> set setup_held"
  "R_command_queues \<notin> set setup_held" "R_vhci \<notin> set setup_held" "R_link \<notin> set setup_held"
  by (simp_all add: setup_held_def)

lemma probe_device_balanced:
  "replay (snd (probe_device e \<lparr>pp_bce = True, pp_dev = True, pp_mb = True, pp_dma = True\<rparr>)) setup_held
    = Some (if fst (probe_device e \<lparr>pp_bce = True, pp_dev = True, pp_mb = True, pp_dma = True\<rparr>) = 0
            then probe_held (pe_link e) else [])"
  by (simp add: probe_device_def fail_interrupt_replay fail_dev0_replay fail_ts_replay
      fail_vhci_replay probe_held_def)

lemma probe_ledger:
  assumes "pe_regions e = 0"
  shows "replay (snd (apple_bce_probe e)) []
    = Some (if fst (apple_bce_probe e) = 0 then probe_held (pe_link e) else [])"
proof -
  let ?p = "\<lparr>pp_bce = True, pp_dev = True, pp_mb = True, pp_dma = True\<rparr>"
  obtain st evs where pd: "probe_device e ?p = (st, evs)" by (cases "probe_device e ?p")
  have dev: "replay evs setup_held = Some (if st = 0 then probe_held (pe_link e) else [])"
    using probe_device_balanced [of e] pd by simp
  consider (enable) "pe_enable e \<noteq> 0"
    | (vectors) "pe_enable e = 0" "pe_vectors e < 0"
    | (bce) "pe_enable e = 0" "0 \<le> pe_vectors e" "\<not> pe_bce e"
    | (srcu) "pe_enable e = 0" "0 \<le> pe_vectors e" "pe_bce e" "pe_srcu e \<noteq> 0"
    | (device) "pe_enable e = 0" "0 \<le> pe_vectors e" "pe_bce e" "pe_srcu e = 0" "pe_device e \<noteq> 0"
    | (mapped) "pe_enable e = 0" "0 \<le> pe_vectors e" "pe_bce e" "pe_srcu e = 0" "pe_device e = 0"
    by linarith
  then show ?thesis
  proof cases
    case mapped
    note m = mapped assms
    consider (maps) "\<not> (pe_reg_mem_mb e \<and> pe_reg_mem_dma e)"
      | (irq0) "pe_reg_mem_mb e" "pe_reg_mem_dma e" "pe_irq0 e \<noteq> 0"
      | (irq4) "pe_reg_mem_mb e" "pe_reg_mem_dma e" "pe_irq0 e = 0" "pe_irq4 e \<noteq> 0"
      | (rest) "pe_reg_mem_mb e" "pe_reg_mem_dma e" "pe_irq0 e = 0" "pe_irq4 e = 0"
      by blast
    then show ?thesis
    proof cases
      case maps
      with m show ?thesis
        by (cases "pe_reg_mem_mb e"; cases "pe_reg_mem_dma e")
          (simp_all add: apple_bce_probe_def cleanup_defs Let_def)
    next
      case rest
      with m pd dev show ?thesis by (simp add: apple_bce_probe_def setup_held_def Let_def)
    qed (use m in \<open>simp_all add: apple_bce_probe_def cleanup_defs Let_def\<close>)
  qed (use assms in \<open>simp_all add: apple_bce_probe_def cleanup_defs Let_def\<close>)
qed

text \<open>
  Property C10. Once the PCI regions are claimed, probe never leaks and never releases what it
  does not hold: if it fails, at whichever step, everything it took has been given back, and
  if it succeeds it holds every resource exactly once.
\<close>

theorem probe_balanced:
  assumes "pe_regions e = 0" and "apple_bce_probe e = (st, evs)"
  shows "replay evs [] = Some (if st = 0 then probe_held (pe_link e) else [])"
  using probe_ledger [OF assms(1)] assms(2) by simp

text \<open>
  Property C11. Removing the device after a successful probe gives everything back: the ledger
  of probe followed by remove is balanced and nothing is released twice.
\<close>

theorem probe_remove_balanced:
  assumes "pe_regions e = 0" and "apple_bce_probe e = (0, evs)"
  shows "replay (evs @ apple_bce_remove (pe_link e)) [] = Some []"
proof -
  have "replay (apple_bce_remove linked) (probe_held linked) = Some []" for linked
    by (cases linked) (simp_all add: apple_bce_remove_def probe_held_def setup_held_def)
  with probe_ledger [OF assms(1)] assms(2) show ?thesis by (simp add: replay_append)
qed

definition ex_probe_env :: probe_env where
  "ex_probe_env = \<lparr>pe_enable = 0, pe_regions = 0, pe_vectors = 5, pe_bce = True, pe_srcu = 0,
     pe_device = 0, pe_reg_mem_mb = True, pe_reg_mem_dma = True, pe_irq0 = 0, pe_irq4 = 0,
     pe_dma_mask = 0, pe_pci0 = True, pe_pci0_enable = 0, pe_handshake = 0, pe_command_queues = 0,
     pe_vhci = 0, pe_link = True\<rparr>"

theorem probe_balanced_witness:
  "pe_regions (ex_probe_env\<lparr>pe_vhci := - 12\<rparr>) = 0
   \<and> replay (snd (apple_bce_probe (ex_probe_env\<lparr>pe_vhci := - 12\<rparr>))) [] = Some []"
proof -
  let ?e = "ex_probe_env\<lparr>pe_vhci := - 12\<rparr>"
  have r: "pe_regions ?e = 0" by (simp add: ex_probe_env_def)
  have "fst (apple_bce_probe ?e) = - 12"
    by (simp add: apple_bce_probe_def ex_probe_env_def probe_device_def probe_status_def Let_def)
  then have "apple_bce_probe ?e = (- 12, snd (apple_bce_probe ?e))" by (metis prod.collapse)
  from probe_balanced [OF r this] r show ?thesis by simp
qed

theorem probe_remove_balanced_witness:
  "fst (apple_bce_probe ex_probe_env) = 0
   \<and> replay (snd (apple_bce_probe ex_probe_env) @ apple_bce_remove True) [] = Some []"
proof -
  have r: "pe_regions ex_probe_env = 0" "pe_link ex_probe_env = True"
    by (simp_all add: ex_probe_env_def)
  have st: "fst (apple_bce_probe ex_probe_env) = 0"
    by (simp add: apple_bce_probe_def ex_probe_env_def probe_device_def Let_def)
  then have "apple_bce_probe ex_probe_env = (0, snd (apple_bce_probe ex_probe_env))"
    by (metis prod.collapse)
  from probe_remove_balanced [OF r(1) this] st r(2) show ?thesis by simp
qed

text \<open>
  When claiming the PCI regions fails, the shared error path releases them all
  the same: the ledger contains a release of regions the driver does not hold.
\<close>

theorem probe_releases_unclaimed_regions:
  "replay (snd (apple_bce_probe (ex_probe_env\<lparr>pe_regions := - 16\<rparr>))) [] = None"
  by (simp add: apple_bce_probe_def ex_probe_env_def cleanup_defs Let_def)

end
