(* ===== verification/Vhci_Queue.thy ===== *)
theory Vhci_Queue
  imports Bce_Lifecycle
begin

text \<open>
  The message, event and command queues of the virtual host controller
  (\<open>src/vhci/queue.h\<close>, \<open>src/vhci/queue.c\<close>), clients of the submission ring.

  A message or event queue carries the queue object behind its \<open>sq\<close> pointer, the array of
  message buffers the device reads or writes and the bus address of that array. The
  callback of an event queue acts on a state of its own type. A command queue has the pointer
  to the waiting caller's buffer, here the flag \<open>vc_waiting\<close>, and that buffer. What other
  contexts do while a caller sleeps is an argument: the messages that are delivered.
\<close>

section \<open>Data\<close>

abbreviation VHCI_EVENT_QUEUE_EL_COUNT :: u32 where "VHCI_EVENT_QUEUE_EL_COUNT \<equiv> 256"
abbreviation VHCI_EVENT_PENDING_COUNT :: nat where "VHCI_EVENT_PENDING_COUNT \<equiv> 32"
abbreviation BCE_VHCI_SUCCESS :: u16 where "BCE_VHCI_SUCCESS \<equiv> 1"
abbreviation BCE_VHCI_ABORT :: u16 where "BCE_VHCI_ABORT \<equiv> 4"
abbreviation BCE_VHCI_INTERNAL_ERROR :: int where "BCE_VHCI_INTERNAL_ERROR \<equiv> 7"
abbreviation BCE_VHCI_NO_POWER :: int where "BCE_VHCI_NO_POWER \<equiv> 8"

record bce_vhci_message =
  vm_cmd :: u16
  vm_status :: u16
  vm_param1 :: u32
  vm_param2 :: u64

text \<open>\<open>sizeof(struct bce_vhci_message)\<close>.\<close>

abbreviation sizeof_vhci_message :: u64 where "sizeof_vhci_message \<equiv> 16"

definition zero_message :: bce_vhci_message where
  "zero_message = \<lparr>vm_cmd = 0, vm_status = 0, vm_param1 = 0, vm_param2 = 0\<rparr>"

record bce_vhci_message_queue =
  mq_sq :: bce_queue_sq
  mq_data :: "bce_vhci_message list"
  mq_dma_addr :: u64

record bce_vhci_event_queue =
  eq_sq :: bce_queue_sq
  eq_data :: "bce_vhci_message list"
  eq_dma_addr :: u64
  eq_queue_empty_completion :: bool
  eq_draining :: bool

text \<open>The part of \<open>struct bce_vhci\<close> the command queue reads is kept with it.\<close>

record bce_vhci_command_queue =
  vc_mq :: bce_vhci_message_queue
  vc_waiting :: bool
  vc_res :: bce_vhci_message
  vc_completion :: bool
  vc_controller_dead :: bool
  vc_recovering :: bool
  vc_recovery_scheduled :: bool

section \<open>Message queues\<close>

text \<open>The buffer slot \<open>i\<close> of a queue, as the device sees it.\<close>

definition message_submission :: "u64 \<Rightarrow> u32 \<Rightarrow> bce_qe_submission" where
  "message_submission dma i = bce_set_submission_single (dma + sizeof_vhci_message * ucast i)
     sizeof_vhci_message"

text \<open>The allocations and command answers of creating a message queue.\<close>

record mq_env =
  me_cq :: alloc_env
  me_sq :: alloc_env
  me_dma :: "u64 option"
  me_undo :: cmd_env
  me_undo_res :: addr

definition bce_vhci_message_queue_create ::
  "ida_alloc \<Rightarrow> mq_env \<Rightarrow> u8 list \<Rightarrow> addr \<Rightarrow> apple_bce_device
     \<Rightarrow> int \<times> (addr \<times> addr \<times> u64) option \<times> apple_bce_device" where
  "bce_vhci_message_queue_create ida env name self dev =
     (case bce_create_cq ida (me_cq env) VHCI_EVENT_QUEUE_EL_COUNT dev of
        (None, dev1) \<Rightarrow> (- EINVAL, None, dev1)
      | (Some cq, dev1) \<Rightarrow>
          (case bce_create_sq ida (me_sq env) (Some cq) (Some name) VHCI_EVENT_QUEUE_EL_COUNT
              DMA_TO_DEVICE Cb_vhci_message_queue_completion self dev1 of
             (None, dev2) \<Rightarrow>
               (- EINVAL, None, bce_destroy_cq (me_undo_res env) (me_undo env) cq dev2)
           | (Some sq, dev2) \<Rightarrow>
               (case me_dma env of
                  Some dma \<Rightarrow> (0, Some (cq, sq, dma), dev2)
                | None \<Rightarrow>
                    (- EINVAL, None,
                     bce_destroy_cq (me_undo_res env) (me_undo env) cq
                       (bce_destroy_sq (me_undo_res env) (me_undo env) sq dev2)))))"

definition bce_vhci_message_queue_destroy ::
  "addr \<Rightarrow> cmd_env \<Rightarrow> (addr \<times> addr \<times> u64) option \<Rightarrow> apple_bce_device \<Rightarrow> apple_bce_device" where
  "bce_vhci_message_queue_destroy r env q dev =
     (case q of
        None \<Rightarrow> dev
      | Some (cq, sq, dma) \<Rightarrow> bce_destroy_cq r env cq (bce_destroy_sq r env sq dev))"

text \<open>The caller holds a reservation. The result is the doorbell write and the queue.\<close>

definition bce_vhci_message_queue_write ::
  "bce_vhci_message \<Rightarrow> bce_vhci_message_queue \<Rightarrow> (int \<times> u32) \<times> bce_vhci_message_queue" where
  "bce_vhci_message_queue_write req q =
     (let sidx = sq_tail (mq_sq q);
          (s, sq) = bce_next_submission (mq_sq q);
          sq' = sq_store s (El_submission (message_submission (mq_dma_addr q) sidx)) sq
      in (bce_submit_to_device sq', q\<lparr>mq_sq := sq', mq_data := (mq_data q)[unat sidx := req]\<rparr>))"

definition bce_vhci_message_queue_completion :: "bce_queue_sq \<Rightarrow> bce_queue_sq option" where
  "bce_vhci_message_queue_completion sq =
     completion_loop bce_next_completion (\<lambda>c. bce_notify_submission_complete) sq"

section \<open>Event queues\<close>

definition submit_one :: "bce_vhci_event_queue \<Rightarrow> bce_vhci_event_queue option" where
  "submit_one q =
     (case bce_reserve_submission None [] (eq_sq q) of
        (st, t, sq) \<Rightarrow>
          if st \<noteq> 0 then None
          else
            let idx = sq_tail sq; (s, sq') = bce_next_submission sq
            in Some (q\<lparr>eq_sq := sq_store s
                 (El_submission (message_submission (eq_dma_addr q) idx)) sq'\<rparr>))"

fun submit_loop :: "nat \<Rightarrow> bce_vhci_event_queue \<Rightarrow> bce_vhci_event_queue" where
  "submit_loop 0 q = q"
| "submit_loop (Suc n) q = (case submit_one q of None \<Rightarrow> q | Some q' \<Rightarrow> submit_loop n q')"

definition bce_vhci_event_queue_submit_pending ::
  "nat \<Rightarrow> bce_vhci_event_queue \<Rightarrow> (int \<times> u32) \<times> bce_vhci_event_queue" where
  "bce_vhci_event_queue_submit_pending count q =
     (let q' = submit_loop count q in (bce_submit_to_device (eq_sq q'), q'))"

text \<open>The state of the completion loop: the count of events, the queue, the callback's state.\<close>

record 'w event_state =
  es_cnt :: nat
  es_queue :: bce_vhci_event_queue
  es_world :: 'w

definition event_next :: "'w event_state \<Rightarrow> bce_sq_completion_data option \<times> 'w event_state" where
  "event_next s = (case bce_next_completion (eq_sq (es_queue s)) of
     (c, sq) \<Rightarrow> (c, s\<lparr>es_queue := (es_queue s)\<lparr>eq_sq := sq\<rparr>\<rparr>))"

definition event_retire :: "'w event_state \<Rightarrow> 'w event_state" where
  "event_retire s = s\<lparr>es_queue := (es_queue s)\<lparr>eq_sq :=
     bce_notify_submission_complete (eq_sq (es_queue s))\<rparr>\<rparr>"

definition event_handle :: "(bce_vhci_message \<Rightarrow> 'w \<Rightarrow> 'w) \<Rightarrow> bce_sq_completion_data
    \<Rightarrow> 'w event_state \<Rightarrow> 'w event_state" where
  "event_handle cb cd s =
     (if cd_status cd = BCE_COMPLETION_ABORTED then event_retire s
      else
        let msg = eq_data (es_queue s) ! unat (sq_head (eq_sq (es_queue s)));
            s1 = event_retire (s\<lparr>es_world := cb msg (es_world s)\<rparr>)
        in s1\<lparr>es_cnt := Suc (es_cnt s1)\<rparr>)"

definition event_queue_drained :: "bce_vhci_event_queue \<Rightarrow> bool" where
  "event_queue_drained q \<longleftrightarrow>
     word_of_int (sq_available_commands (eq_sq q)) = sq_el_count (eq_sq q) - 1"

definition bce_vhci_event_queue_completion ::
  "(bce_vhci_message \<Rightarrow> 'w \<Rightarrow> 'w) \<Rightarrow> bce_vhci_event_queue \<Rightarrow> 'w
     \<Rightarrow> (bce_vhci_event_queue \<times> 'w) option" where
  "bce_vhci_event_queue_completion cb q w =
     (case completion_loop event_next (event_handle cb)
         \<lparr>es_cnt = 0, es_queue = q, es_world = w\<rparr> of
        None \<Rightarrow> None
      | Some s \<Rightarrow>
          let q1 = (if \<not> eq_draining (es_queue s)
                then snd (bce_vhci_event_queue_submit_pending (es_cnt s) (es_queue s))
                else es_queue s);
              q2 = (if event_queue_drained q1 then q1\<lparr>eq_queue_empty_completion := True\<rparr> else q1)
          in Some (q2, es_world s))"

text \<open>
  The initialisation after the allocations of \<open>__bce_vhci_event_queue_create\<close>: \<open>sq\<close> is the new
  queue, \<open>data\<close> the zeroed buffers.
\<close>

definition event_queue_init :: "bce_queue_sq \<Rightarrow> u64 \<Rightarrow> bce_vhci_event_queue" where
  "event_queue_init sq dma =
     snd (bce_vhci_event_queue_submit_pending VHCI_EVENT_PENDING_COUNT
       \<lparr>eq_sq = sq, eq_data = replicate (unat VHCI_EVENT_QUEUE_EL_COUNT) zero_message,
        eq_dma_addr = dma, eq_queue_empty_completion = False, eq_draining = False\<rparr>)"

definition bce_vhci_event_queue_create ::
  "ida_alloc \<Rightarrow> mq_env \<Rightarrow> addr option \<Rightarrow> u8 list \<Rightarrow> bce_sq_completion \<Rightarrow> addr \<Rightarrow> apple_bce_device
     \<Rightarrow> int \<times> (addr \<times> bce_vhci_event_queue) option \<times> apple_bce_device" where
  "bce_vhci_event_queue_create ida env ev_cq name compl self dev =
     (case bce_create_sq ida (me_sq env) ev_cq (Some name) VHCI_EVENT_QUEUE_EL_COUNT
         DMA_FROM_DEVICE compl self dev of
        (None, dev1) \<Rightarrow> (- EINVAL, None, dev1)
      | (Some a, dev1) \<Rightarrow>
          (case (me_dma env, sq_at dev1 a) of
             (Some dma, Some sq) \<Rightarrow>
               let q = event_queue_init sq dma in (0, Some (a, q), set_sq a (eq_sq q) dev1)
           | _ \<Rightarrow> (- EINVAL, None, bce_destroy_sq (me_undo_res env) (me_undo env) a dev1)))"

definition bce_vhci_event_queue_destroy ::
  "addr \<Rightarrow> cmd_env \<Rightarrow> addr option \<Rightarrow> apple_bce_device \<Rightarrow> apple_bce_device" where
  "bce_vhci_event_queue_destroy r env sq dev =
     (case sq of None \<Rightarrow> dev | Some a \<Rightarrow> bce_destroy_sq r env a dev)"

text \<open>
  The wait of \<open>bce_vhci_event_queue_pause\<close>: each element of the list is one return of
  \<open>wait_for_completion_timeout\<close>, the time left and what happened to the queue meanwhile.
\<close>

fun pause_wait :: "(nat \<times> (bce_vhci_event_queue \<Rightarrow> bce_vhci_event_queue)) list
    \<Rightarrow> bce_vhci_event_queue \<Rightarrow> bce_vhci_event_queue" where
  "pause_wait ws q =
     (if event_queue_drained q then q
      else case ws of
        [] \<Rightarrow> q
      | (left, act) # ws' \<Rightarrow> if left = 0 then act q else pause_wait ws' (act q))"

text \<open>\<open>flush\<close> is the effect of the flush command and the completions it causes.\<close>

definition bce_vhci_event_queue_pause ::
  "(bce_vhci_event_queue \<Rightarrow> bce_vhci_event_queue)
     \<Rightarrow> (nat \<times> (bce_vhci_event_queue \<Rightarrow> bce_vhci_event_queue)) list
     \<Rightarrow> bce_vhci_event_queue \<Rightarrow> bce_vhci_event_queue" where
  "bce_vhci_event_queue_pause flush ws q =
     pause_wait ws (flush (q\<lparr>eq_queue_empty_completion := False, eq_draining := True\<rparr>))"

definition bce_vhci_event_queue_resume ::
  "(bce_vhci_event_queue \<Rightarrow> bce_vhci_event_queue) \<Rightarrow> bce_vhci_event_queue \<Rightarrow> bce_vhci_event_queue" where
  "bce_vhci_event_queue_resume flush q =
     (let q1 = q\<lparr>eq_draining := False\<rparr> in
      if \<not> event_queue_drained q1 then
        let q2 = flush q1 in
        if \<not> event_queue_drained q2 then q2
        else snd (bce_vhci_event_queue_submit_pending VHCI_EVENT_PENDING_COUNT q2)
      else snd (bce_vhci_event_queue_submit_pending VHCI_EVENT_PENDING_COUNT q1))"

section \<open>Command queues\<close>

definition bce_vhci_command_queue_create :: "bce_vhci_message_queue \<Rightarrow> bce_vhci_command_queue
    \<Rightarrow> bce_vhci_command_queue" where
  "bce_vhci_command_queue_create mq c = c\<lparr>vc_mq := mq, vc_waiting := False, vc_completion := False\<rparr>"

definition bce_vhci_command_queue_deliver_completion ::
  "bce_vhci_message \<Rightarrow> bce_vhci_command_queue \<Rightarrow> bce_vhci_command_queue" where
  "bce_vhci_command_queue_deliver_completion msg c =
     (if vc_waiting c then c\<lparr>vc_res := msg, vc_completion := True, vc_waiting := False\<rparr> else c)"

definition bce_vhci_command_queue_destroy :: "bce_vhci_command_queue \<Rightarrow> bce_vhci_command_queue" where
  "bce_vhci_command_queue_destroy c =
     (if vc_waiting c
      then c\<lparr>vc_res := zero_message\<lparr>vm_status := BCE_VHCI_ABORT\<rparr>, vc_completion := True,
             vc_waiting := False\<rparr>
      else c)"

definition deliver_all :: "bce_vhci_message list \<Rightarrow> bce_vhci_command_queue \<Rightarrow> bce_vhci_command_queue" where
  "deliver_all msgs c = fold bce_vhci_command_queue_deliver_completion msgs c"

text \<open>
  \<open>wait_for_completion_timeout\<close>: true when completed, which consumes the completion.
  \<open>act\<close> is what the completion handler does to the ring meanwhile.
\<close>

definition wait_delivered ::
  "(bce_queue_sq \<Rightarrow> bce_queue_sq) \<Rightarrow> bce_vhci_message list \<Rightarrow> bce_vhci_command_queue
     \<Rightarrow> bool \<times> bce_vhci_command_queue" where
  "wait_delivered act msgs c =
     (let c1 = deliver_all msgs c;
          c' = c1\<lparr>vc_mq := (vc_mq c1)\<lparr>mq_sq := act (mq_sq (vc_mq c1))\<rparr>\<rparr> in
      if vc_completion c' then (True, c'\<lparr>vc_completion := False\<rparr>) else (False, c'))"

text \<open>
  What the environment does in each phase of a command: the wake-ups of the two
  reservations, the messages delivered and the ring activity in the two waits, and the
  messages that still arrive between the end of a wait and the lock under which the
  caller withdraws its buffer.
\<close>

record exec_env =
  ex_reserve :: "wakeup list"
  ex_reply :: "bce_vhci_message list"
  ex_ring :: "bce_queue_sq \<Rightarrow> bce_queue_sq"
  ex_reserve_cancel :: "wakeup list"
  ex_cancel_reply :: "bce_vhci_message list"
  ex_ring_cancel :: "bce_queue_sq \<Rightarrow> bce_queue_sq"
  ex_late :: "bce_vhci_message list"

definition vc_reserve :: "nat \<Rightarrow> wakeup list \<Rightarrow> bce_vhci_command_queue
    \<Rightarrow> int \<times> nat \<times> bce_vhci_command_queue" where
  "vc_reserve timeout ws c =
     (case bce_reserve_submission (Some timeout) ws (mq_sq (vc_mq c)) of
        (st, t, sq) \<Rightarrow> (st, (case t of Some n \<Rightarrow> n | None \<Rightarrow> 0),
           c\<lparr>vc_mq := (vc_mq c)\<lparr>mq_sq := sq\<rparr>\<rparr>))"

definition vc_write :: "bce_vhci_message \<Rightarrow> bce_vhci_command_queue \<Rightarrow> bce_vhci_command_queue" where
  "vc_write req c = c\<lparr>vc_mq := snd (bce_vhci_message_queue_write req (vc_mq c))\<rparr>"

definition reply_cmd :: "bce_vhci_message \<Rightarrow> u16" where
  "reply_cmd m = vm_cmd m AND NOT 0x8000"

text \<open>The end of the function: compare the reply with the request and map its status.\<close>

definition exec_status :: "bce_vhci_message \<Rightarrow> bce_vhci_message \<Rightarrow> int" where
  "exec_status req res =
     (if reply_cmd res \<noteq> vm_cmd req then - EIO
      else if vm_status res = BCE_VHCI_SUCCESS then 0
      else int (unat (vm_status res)))"

definition bce_vhci_command_queue_execute :: "exec_env \<Rightarrow> bce_vhci_message \<Rightarrow> nat
    \<Rightarrow> bce_vhci_command_queue \<Rightarrow> int \<times> bce_vhci_command_queue" where
  "bce_vhci_command_queue_execute env req timeout c =
     (if vc_controller_dead c then (- ENODEV, c)
      else
        let (st, timeout', c1) = vc_reserve timeout (ex_reserve env) c in
        if st \<noteq> 0 then (st, c1)
        else
          let c2 = vc_write req (c1\<lparr>vc_waiting := True, vc_completion := False\<rparr>);
              (got, c3) = wait_delivered (ex_ring env) (ex_reply env) c2 in
          if got then (exec_status req (vc_res c3), c3)
          else
            let (st', timeout'', c4) = vc_reserve timeout' (ex_reserve_cancel env) c3 in
            if st' \<noteq> 0 then (st', (deliver_all (ex_late env) c4)\<lparr>vc_waiting := False\<rparr>)
            else
              let creq = req\<lparr>vm_cmd := vm_cmd req OR 0x4000\<rparr>;
                  (got', c5) = wait_delivered (ex_ring_cancel env) (ex_cancel_reply env)
                    (vc_write creq c4) in
              if \<not> got' then
                (- ETIMEDOUT, (deliver_all (ex_late env) c5)\<lparr>vc_waiting := False,
                   vc_recovery_scheduled := vc_recovery_scheduled c5 \<or> \<not> vc_recovering c5\<rparr>)
              else if reply_cmd (vc_res c5) = vm_cmd creq then (- ETIMEDOUT, c5)
              else (exec_status req (vc_res c5), c5))"

section \<open>Messages in flight\<close>

interpretation mq_drain: ring_drainer sq_refines sq_capacity sq_try_reserve sq_post
  bce_next_completion bce_notify_submission_complete "\<lambda>q. q" bce_next_completion
  "\<lambda>c. bce_notify_submission_complete"
  by unfold_locales (auto simp: bce_next_completion_def split: if_splits)

text \<open>
  The messages \<open>msgs\<close> are in flight: each ring element points at the buffer of its slot, and
  the buffer holds the message.
\<close>

definition mq_ok :: "bce_vhci_message list \<Rightarrow> sq_spec \<Rightarrow> bce_vhci_message_queue \<Rightarrow> bool" where
  "mq_ok msgs s q \<longleftrightarrow> sq_refines s (mq_sq q) \<and> length (mq_data q) = sq_size (mq_sq q)
     \<and> length msgs = length (sp_inflight s)
     \<and> (\<forall>i < length msgs. mq_data q ! sq_slot (mq_sq q) i = msgs ! i
          \<and> sp_inflight s ! i = El_submission
              (message_submission (mq_dma_addr q) (of_nat (sq_slot (mq_sq q) i))))"

lemma message_write_unfold:
  "snd (bce_vhci_message_queue_write req q) = q\<lparr>mq_sq := sq_post (El_submission
       (message_submission (mq_dma_addr q) (sq_tail (mq_sq q)))) (mq_sq q),
     mq_data := (mq_data q)[unat (sq_tail (mq_sq q)) := req]\<rparr>"
  by (simp add: bce_vhci_message_queue_write_def sq_post_def split_beta Let_def)

lemma message_write_ok:
  assumes ok: "mq_ok msgs s q" and res: "0 < sp_reserved s"
  defines "el \<equiv> El_submission (message_submission (mq_dma_addr q) (sq_tail (mq_sq q)))"
  shows "mq_ok (msgs @ [req]) (s\<lparr>sp_reserved := sp_reserved s - 1, sp_inflight := sp_inflight s @ [el]\<rparr>)
    (snd (bce_vhci_message_queue_write req q))"
proof -
  let ?sq = "mq_sq q" let ?n = "length msgs"
  have r: "sq_refines s ?sq" and len: "length (mq_data q) = sq_size ?sq"
    and n: "?n = length (sp_inflight s)" using ok by (auto simp: mq_ok_def)
  have shape: "sq_shape ?sq" and room: "?n < sq_size ?sq" and tail: "unat (sq_tail ?sq) = sq_slot ?sq ?n"
    using r n by (auto simp: sq_refines_def)
  have tl: "sq_tail ?sq = of_nat (sq_slot ?sq ?n)" using tail by (metis of_nat_unat_word)
  have slots: "sq_slot (sq_post el ?sq) i = sq_slot ?sq i" for i
    by (rule sq_slot_cong) (simp_all add: sq_post_unfold)
  have bound: "sq_slot ?sq i < length (mq_data q)" for i
    using sq_slot_less [of ?sq i] shape len by (simp add: sq_shape_def)
  have other: "sq_slot ?sq i \<noteq> sq_slot ?sq ?n" if "i < ?n" for i
    using sq_slot_inj [of ?sq i ?n] that room by auto
  have "sq_el_count (sq_post el ?sq) = sq_el_count ?sq" by (simp add: sq_post_unfold)
  moreover have "(mq_data q)[unat (sq_tail ?sq) := req] ! sq_slot ?sq i = (msgs @ [req]) ! i
      \<and> (sp_inflight s @ [el]) ! i
          = El_submission (message_submission (mq_dma_addr q) (of_nat (sq_slot ?sq i)))"
    if "i < Suc ?n" for i
  proof (cases "i = ?n")
    case True
    have "(mq_data q)[unat (sq_tail ?sq) := req] ! sq_slot ?sq ?n = req"
      using tail bound [of ?n] by simp
    moreover have "el = El_submission (message_submission (mq_dma_addr q) (of_nat (sq_slot ?sq ?n)))"
      unfolding el_def tl ..
    moreover have "(msgs @ [req]) ! ?n = req" "(sp_inflight s @ [el]) ! ?n = el"
      using n by (simp_all add: nth_append)
    ultimately show ?thesis unfolding True by metis
  next
    case False
    with that have i: "i < ?n" by simp
    with ok n other [OF i] show ?thesis by (simp add: mq_ok_def nth_append tail)
  qed
  ultimately show ?thesis
    using sq_refines_post [OF r res, of el] len n slots
    unfolding mq_ok_def message_write_unfold el_def [symmetric] by simp
qed

text \<open>
  Property C12. Writing a message under a reservation appends it to the messages in flight:
  the ring element points at the slot's own buffer, the buffer holds the message, and every
  message still in flight keeps its element and its buffer contents.
\<close>

theorem message_write_refines:
  assumes "mq_ok msgs s q" and "0 < sp_reserved s"
  shows "\<exists>s'. mq_ok (msgs @ [req]) s' (snd (bce_vhci_message_queue_write req q))
    \<and> sp_reserved s' = sp_reserved s - 1 \<and> sp_completions s' = sp_completions s
    \<and> snd (fst (bce_vhci_message_queue_write req q))
        = sq_tail (mq_sq (snd (bce_vhci_message_queue_write req q)))"
  by (rule exI, rule conjI [OF message_write_ok [OF assms]])
    (simp add: bce_vhci_message_queue_write_def bce_submit_to_device_def Let_def split_beta)

text \<open>
  The completion handler of a message queue terminates, takes every harvested
  completion and frees exactly as many slots, oldest first.
\<close>

theorem message_queue_completion_drains:
  assumes "sq_refines s q"
  shows "\<exists>q'. bce_vhci_message_queue_completion q = Some q' \<and> sq_refines (spec_drained s) q'
    \<and> sq_available_commands q' = sq_available_commands q + int (length (sp_completions s))"
proof -
  obtain q' where q': "completion_loop bce_next_completion (\<lambda>c. bce_notify_submission_complete) q = Some q'"
    "sq_refines (spec_drained s) q'" "sq_capacity q' = sq_capacity q"
    using mq_drain.drains [OF assms] by (auto simp: spec_drained_def)
  have "length (sp_completions s) \<le> length (sp_inflight s)" "1 < sq_size q" "1 < sq_size q'"
    using assms q'(2) by (auto simp: sq_refines_def sq_shape_def)
  with assms q' show ?thesis
    by (auto simp: bce_vhci_message_queue_completion_def sq_refines_def spec_drained_def sq_capacity_def)
qed

section \<open>Creating and destroying message queues\<close>

lemma create_cq_object:
  "bce_create_cq ida env n dev = (Some a, dev') \<Longrightarrow> al_obj env = Some a"
  by (auto simp: bce_create_cq_def Let_def split: prod.splits if_splits option.splits)

lemma fresh_after_create:
  assumes "lc_ok dev" and "creation_outcome listed dev (Some a) dev1" and "dev_heap dev b = None"
    and "b \<noteq> a"
  shows "dev_heap dev1 b = None"
proof (rule ccontr)
  assume "dev_heap dev1 b \<noteq> None"
  moreover obtain k where k: "lc_ok dev1" "dev_queues dev1 = (dev_queues dev)[k := Some a]"
    "k < 256" using assms(2) by (auto simp: creation_outcome_def)
  ultimately obtain j where "dev_queue_at dev1 j = Some b" using lc_okD(2) by blast
  moreover have "k < length (dev_queues dev)"
    using k(3) dev_okD(1) [OF lc_okD(1) [OF assms(1)]] by simp
  ultimately have "dev_queue_at dev j = Some b"
    using queue_at_update [OF k(2)] assms(4) by (auto split: if_splits)
  then show False using dev_okD(3) [OF lc_okD(1) [OF assms(1)]] assms(3) by fastforce
qed

text \<open>The allocator never returns a live object, nor the same object twice.\<close>

definition mq_env_ok :: "mq_env \<Rightarrow> apple_bce_device \<Rightarrow> bool" where
  "mq_env_ok env dev \<longleftrightarrow> env_ok (al_cmd (me_cq env)) \<and> env_ok (al_cmd (me_sq env))
     \<and> env_ok (me_undo env) \<and> fresh_alloc (me_cq env) dev \<and> fresh_alloc (me_sq env) dev
     \<and> (al_obj (me_cq env) = al_obj (me_sq env) \<longrightarrow> al_obj (me_cq env) = None)"

text \<open>
  Creating a message queue leaves nothing behind when it fails: whether the
  completion queue, the submission queue or the buffer memory could not be had, the queue
  table, the interrupt's list and the ids are as before. When it succeeds, destroying the
  queue restores them as well.
\<close>

theorem message_queue_create_balanced:
  fixes r :: addr
  assumes lc: "lc_ok dev" and ida: "ida_ok ida" and env: "mq_env_ok env dev" and env': "env_ok env'"
    and res: "bce_vhci_message_queue_create ida env name self dev = (st, q, dev')"
  shows "lc_ok dev' \<and> (st = 0 \<longleftrightarrow> q \<noteq> None)
    \<and> same_tables dev (bce_vhci_message_queue_destroy r env' q dev')"
proof -
  note e = env [unfolded mq_env_ok_def]
  obtain rc dev1 where c: "bce_create_cq ida (me_cq env) VHCI_EVENT_QUEUE_EL_COUNT dev = (rc, dev1)"
    by (cases "bce_create_cq ida (me_cq env) VHCI_EVENT_QUEUE_EL_COUNT dev")
  have co: "creation_outcome (\<lambda>a. [a]) dev rc dev1"
    by (rule create_cq_keeps [OF lc ida _ _ _ c]) (use e in simp_all)
  show ?thesis
  proof (cases rc)
    case None
    with co c res show ?thesis
      by (auto simp: bce_vhci_message_queue_create_def bce_vhci_message_queue_destroy_def
          creation_outcome_def dest: same_tables_similar)
  next
    case (Some a)
    note co = co [unfolded Some]
    have lc1: "lc_ok dev1" using co by (simp add: creation_outcome_def)
    have fr: "fresh_alloc (me_sq env) dev1"
      using e create_cq_object [of ida "me_cq env" _ dev a dev1] c Some fresh_after_create [OF lc co]
      by (auto simp: fresh_alloc_def split: option.splits)
    let ?sq = "bce_create_sq ida (me_sq env) (Some a) (Some name) VHCI_EVENT_QUEUE_EL_COUNT
      DMA_TO_DEVICE Cb_vhci_message_queue_completion self dev1"
    obtain rs dev2 where s: "?sq = (rs, dev2)" by (cases ?sq)
    have so: "creation_outcome (\<lambda>a. []) dev1 rs dev2"
      using create_sq_keeps [OF lc1 ida _ fr s] e by simp
    note run = res [unfolded bce_vhci_message_queue_create_def c Some prod.case option.case s]
    show ?thesis
    proof (cases rs)
      case None
      then have "lc_ok dev2" "same_tables dev1 dev2"
        using so by (auto simp: creation_outcome_def dest: same_tables_similar)
      from undo_create_cq [OF lc co this] None e run show ?thesis
        by (auto simp: bce_vhci_message_queue_destroy_def)
    next
      case (Some b)
      note so = so [unfolded Some]
      have lc2: "lc_ok dev2" using so by (simp add: creation_outcome_def)
      have undo: "lc_ok (bce_destroy_cq r x a (bce_destroy_sq r x b dev2))"
          "same_tables dev (bce_destroy_cq r x a (bce_destroy_sq r x b dev2))"
        if "env_ok x" for x r
        using undo_create_cq [OF lc co undo_create_sq [OF lc1 so lc2 _ that] that]
        by (simp_all add: same_tables_def)
      from undo env' e run lc2 Some show ?thesis
        by (auto simp: bce_vhci_message_queue_destroy_def split: option.splits)
    qed
  qed
qed

section \<open>Event queues\<close>

interpretation eq_fill: ring_filler sq_refines sq_capacity sq_try_reserve sq_post
  bce_next_completion bce_notify_submission_complete eq_sq submit_one submit_loop
proof unfold_locales
  fix c :: bce_vhci_event_queue and q n
  show "sq_try_reserve (eq_sq c) = None \<Longrightarrow> submit_one c = None"
    by (auto simp: sq_try_reserve_def submit_one_def split: prod.splits if_splits)
  show "sq_try_reserve (eq_sq c) = Some q \<Longrightarrow> \<exists>c' el. submit_one c = Some c' \<and> eq_sq c' = sq_post el q"
    by (auto simp: sq_try_reserve_def submit_one_def sq_post_def Let_def split_beta split: if_splits)
qed simp_all

interpretation eq_drain: ring_drainer sq_refines sq_capacity sq_try_reserve sq_post
  bce_next_completion bce_notify_submission_complete "\<lambda>s. eq_sq (es_queue s)" event_next
  "event_handle cb" for cb :: "bce_vhci_message \<Rightarrow> 'w \<Rightarrow> 'w"
proof unfold_locales
  fix c :: "'w event_state" and q x
  show "bce_next_completion (eq_sq (es_queue c)) = (None, q) \<Longrightarrow> event_next c = (None, c)"
    by (auto simp: event_next_def bce_next_completion_def split: if_splits)
  show "bce_next_completion (eq_sq (es_queue c)) = (Some x, q)
      \<Longrightarrow> \<exists>c'. event_next c = (Some x, c') \<and> eq_sq (es_queue c') = q"
    by (auto simp: event_next_def)
  show "eq_sq (es_queue (event_handle cb x c))
      = bce_notify_submission_complete (eq_sq (es_queue c))"
    by (simp add: event_handle_def event_retire_def Let_def)
qed

text \<open>The messages a run of completions delivers: \<open>f i\<close> is the buffer of the \<open>i\<close>-th slot.\<close>

fun delivered :: "(nat \<Rightarrow> bce_vhci_message) \<Rightarrow> bce_sq_completion_data list \<Rightarrow> bce_vhci_message list" where
  "delivered f [] = []"
| "delivered f (c # cs) =
     (if cd_status c = BCE_COMPLETION_ABORTED then [] else [f 0]) @ delivered (\<lambda>i. f (Suc i)) cs"

abbreviation event_buffers :: "bce_vhci_event_queue \<Rightarrow> nat \<Rightarrow> bce_vhci_message" where
  "event_buffers q \<equiv> (\<lambda>i. eq_data q ! sq_slot (eq_sq q) i)"

lemma length_delivered: "length (delivered f cs) \<le> length cs"
proof (induction cs arbitrary: f)
  case (Cons c cs)
  from Cons.IH [of "\<lambda>i. f (Suc i)"] show ?case by simp
qed simp

lemma event_loop_delivers:
  assumes "sq_refines s (eq_sq (es_queue e))" and "sp_handled s = 0"
  shows "\<exists>e'. completion_loop event_next (event_handle cb) e = Some e'
    \<and> es_world e' = fold cb (delivered (event_buffers (es_queue e)) (sp_completions s)) (es_world e)
    \<and> es_cnt e' = es_cnt e + length (delivered (event_buffers (es_queue e)) (sp_completions s))
    \<and> eq_data (es_queue e') = eq_data (es_queue e)
    \<and> eq_dma_addr (es_queue e') = eq_dma_addr (es_queue e)
    \<and> eq_draining (es_queue e') = eq_draining (es_queue e)"
  using assms
proof (induction "sp_completions s" arbitrary: s e)
  case Nil
  have "event_next e = (None, e)"
    using sq_refines_take(1) [OF Nil.prems(1)] Nil.hyps by (simp add: event_next_def)
  then show ?case using Nil.hyps [symmetric] by (simp add: completion_loop_None)
next
  case (Cons x xs)
  let ?sq = "eq_sq (es_queue e)"
  obtain q where q: "bce_next_completion ?sq = (Some x, q)"
    "sq_refines (s\<lparr>sp_completions := xs, sp_inflight := tl (sp_inflight s)\<rparr>)
       (bce_notify_submission_complete q)"
    using sq_ring.take_retire [OF Cons.prems(1) Cons.hyps(2) [symmetric]] by blast
  let ?e1 = "e\<lparr>es_queue := (es_queue e)\<lparr>eq_sq := q\<rparr>\<rparr>" let ?e2 = "event_handle cb x ?e1"
  have nx: "event_next e = (Some x, ?e1)" using q(1) by (simp add: event_next_def)
  have same: "sq_head q = sq_head ?sq" "sq_el_count q = sq_el_count ?sq"
    using q(1) by (auto simp: bce_next_completion_def split: if_splits)
  have head: "sq_head ?sq < sq_el_count ?sq"
    using Cons.prems(1) by (simp add: sq_refines_def sq_shape_def)
  have sq2: "eq_sq (es_queue ?e2) = bce_notify_submission_complete q"
    by (simp add: event_handle_def event_retire_def Let_def)
  have slots: "sq_slot (eq_sq (es_queue ?e2)) i = sq_slot ?sq (Suc i)" for i
    unfolding sq2 using sq_slot_notify [of q i] head same by (simp add: sq_slot_cong [OF same])
  have fr: "eq_data (es_queue ?e2) = eq_data (es_queue e)"
    "eq_dma_addr (es_queue ?e2) = eq_dma_addr (es_queue e)"
    "eq_draining (es_queue ?e2) = eq_draining (es_queue e)"
    by (simp_all add: event_handle_def event_retire_def Let_def)
  have step: "es_world ?e2 = fold cb (if cd_status x = 2 then [] else [event_buffers (es_queue e) 0])
      (es_world e)"
    "es_cnt ?e2 = es_cnt e + length (if cd_status x = 2 then [] else [event_buffers (es_queue e) 0])"
    using sq_slot_0 [OF head] same by (simp_all add: event_handle_def event_retire_def Let_def)
  have bufs: "event_buffers (es_queue ?e2) = (\<lambda>i. event_buffers (es_queue e) (Suc i))"
    using slots fr(1) by simp
  have r2: "sq_refines (s\<lparr>sp_completions := xs, sp_inflight := tl (sp_inflight s)\<rparr>)
      (eq_sq (es_queue ?e2))" unfolding sq2 by (rule q(2))
  from Cons.hyps(1) [OF _ r2] Cons.prems(2) obtain e' where
    e': "completion_loop event_next (event_handle cb) ?e2 = Some e'"
    "es_world e' = fold cb (delivered (event_buffers (es_queue ?e2)) xs) (es_world ?e2)"
    "es_cnt e' = es_cnt ?e2 + length (delivered (event_buffers (es_queue ?e2)) xs)"
    "eq_data (es_queue e') = eq_data (es_queue ?e2)"
    "eq_dma_addr (es_queue e') = eq_dma_addr (es_queue ?e2)"
    "eq_draining (es_queue e') = eq_draining (es_queue ?e2)" by auto
  have "completion_loop event_next (event_handle cb) e = Some e'"
    using e'(1) nx by (simp add: completion_loop_Some)
  then show ?case
    using e'(2-6) fr step Cons.hyps(2) [symmetric] unfolding bufs by simp
qed

lemma submit_loop_frame [simp]:
  "eq_data (submit_loop n q) = eq_data q" "eq_draining (submit_loop n q) = eq_draining q"
  by (induction n arbitrary: q)
    (auto simp: submit_one_def Let_def split_beta split: option.splits if_splits)

text \<open>
  Property C13. The completion handler of an event queue terminates and calls the callback once
  for each event, in order, with the buffer the device filled, skipping aborted buffers. When
  the queue is not draining it posts one new buffer per event, so the number of buffers the
  device can fill drops only by the aborted ones.
\<close>

theorem event_completion_delivers:
  assumes "sq_refines s (eq_sq q)" and "sp_handled s = 0"
  shows "\<exists>q' s'. bce_vhci_event_queue_completion cb q w
      = Some (q', fold cb (delivered (event_buffers q) (sp_completions s)) w)
    \<and> sq_refines s' (eq_sq q') \<and> eq_data q' = eq_data q
    \<and> length (sp_inflight s') = length (sp_inflight s) - length (sp_completions s)
        + (if eq_draining q then 0 else length (delivered (event_buffers q) (sp_completions s)))"
proof -
  let ?e = "\<lparr>es_cnt = 0, es_queue = q, es_world = w\<rparr>"
  let ?n = "length (delivered (event_buffers q) (sp_completions s))"
  obtain e' where e': "completion_loop event_next (event_handle cb) ?e = Some e'"
    "es_world e' = fold cb (delivered (event_buffers q) (sp_completions s)) w" "es_cnt e' = ?n"
    "eq_data (es_queue e') = eq_data q" "eq_draining (es_queue e') = eq_draining q"
    using event_loop_delivers [of s ?e cb] assms by auto
  have dr: "sq_refines (spec_drained s) (eq_sq (es_queue e'))"
    and cap: "sq_capacity (eq_sq (es_queue e')) = sq_capacity (eq_sq q)"
    using eq_drain.drains [of s ?e cb] assms(1) e'(1) by (auto simp: spec_drained_def)
  let ?q1 = "submit_loop ?n (es_queue e')"
  obtain els where els: "sq_refines ((spec_drained s)\<lparr>sp_inflight := sp_inflight (spec_drained s) @ els\<rparr>)
      (eq_sq ?q1)"
    "length els = min ?n (sq_capacity (eq_sq q)
        - (sp_reserved s + (length (sp_inflight s) - length (sp_completions s))))"
    using eq_fill.fills [OF dr, of ?n] cap by (auto simp: spec_drained_def)
  have room: "sp_reserved s + length (sp_inflight s) \<le> sq_capacity (eq_sq q)"
    "length (sp_completions s) \<le> length (sp_inflight s)"
    using sq_ring.within_capacity [OF assms(1)] assms(1) by (auto simp: sq_refines_def)
  then have len: "length els = ?n"
    using els(2) length_delivered [of "event_buffers q" "sp_completions s"] by auto
  let ?q2 = "if eq_draining q then es_queue e' else ?q1"
  let ?q3 = "if event_queue_drained ?q2 then ?q2\<lparr>eq_queue_empty_completion := True\<rparr> else ?q2"
  have out: "bce_vhci_event_queue_completion cb q w = Some (?q3, es_world e')"
    using e'(1,3,5)
    by (simp add: bce_vhci_event_queue_completion_def bce_vhci_event_queue_submit_pending_def Let_def)
  let ?s' = "if eq_draining q then spec_drained s
    else (spec_drained s)\<lparr>sp_inflight := sp_inflight (spec_drained s) @ els\<rparr>"
  have "sq_refines ?s' (eq_sq ?q3)" using dr els(1) by simp
  moreover have "length (sp_inflight ?s') = length (sp_inflight s) - length (sp_completions s)
      + (if eq_draining q then 0 else ?n)"
    using len by (simp add: spec_drained_def)
  moreover have "eq_data ?q3 = eq_data q" using e'(4) by simp
  ultimately show ?thesis using out e'(2) by (intro exI conjI) (simp, assumption+)
qed

lemma event_queue_drained_iff:
  assumes "sq_refines s (eq_sq q)"
  shows "event_queue_drained q \<longleftrightarrow> sp_reserved s = 0 \<and> sp_inflight s = []"
proof -
  let ?sq = "eq_sq q" let ?k = "sp_reserved s + length (sp_inflight s)"
  have k: "?k < sq_size ?sq" and av: "sq_available_commands ?sq = int (sq_size ?sq - 1 - ?k)"
    using assms by (auto simp: sq_refines_def)
  have n: "unat (sq_el_count ?sq - 1) = sq_size ?sq - 1"
    using k by (intro unat_minus_one) auto
  have "sq_size ?sq - 1 - ?k < 2 ^ 32" using unat_below [of "sq_el_count ?sq"] by simp
  then have u: "unat (word_of_int (sq_available_commands ?sq) :: u32) = sq_size ?sq - 1 - ?k"
    unfolding av by (simp add: unat_of_nat)
  have "event_queue_drained q \<longleftrightarrow> sq_size ?sq - 1 - ?k = sq_size ?sq - 1"
    unfolding event_queue_drained_def word_unat_eq_iff u n ..
  also have "\<dots> \<longleftrightarrow> ?k = 0" using k by linarith
  finally show ?thesis by simp
qed

text \<open>
  Resuming an event queue posts the initial batch of buffers exactly when, after
  the flush that a queue with leftovers gets, nothing is in flight: then the device has
  32 buffers again (or as many as the ring holds). With leftovers it posts none, so the
  number of buffers in flight never exceeds the ring.
\<close>

theorem event_queue_resume_posts:
  fixes flush :: "bce_vhci_event_queue \<Rightarrow> bce_vhci_event_queue"
  assumes "sq_refines s (eq_sq (if event_queue_drained q then q else flush (q\<lparr>eq_draining := False\<rparr>)))"
    and "sp_reserved s = 0"
  defines "q' \<equiv> bce_vhci_event_queue_resume flush q"
  shows "\<exists>s'. sq_refines s' (eq_sq q') \<and> length (sp_inflight s') =
    (if sp_inflight s = [] then min 32 (sq_capacity (eq_sq q')) else length (sp_inflight s))"
proof -
  let ?d = "q\<lparr>eq_draining := False\<rparr>"
  let ?p = "if event_queue_drained q then ?d else flush ?d"
  have same: "event_queue_drained ?d = event_queue_drained q" by (simp add: event_queue_drained_def)
  have r: "sq_refines s (eq_sq ?p)" using assms(1) by (simp split: if_splits)
  have dr: "event_queue_drained ?p \<longleftrightarrow> sp_inflight s = []"
    using event_queue_drained_iff [OF r] assms(2) by simp
  have q': "q' = (if event_queue_drained ?p then submit_loop 32 ?p else ?p)"
    using same by (simp add: q'_def bce_vhci_event_queue_resume_def Let_def
        bce_vhci_event_queue_submit_pending_def)
  obtain els where "sq_refines (s\<lparr>sp_inflight := sp_inflight s @ els\<rparr>) (eq_sq (submit_loop 32 ?p))"
    "length els = min 32 (sq_capacity (eq_sq ?p) - (sp_reserved s + length (sp_inflight s)))"
    "sq_capacity (eq_sq (submit_loop 32 ?p)) = sq_capacity (eq_sq ?p)"
    using eq_fill.fills [OF r, of 32] by blast
  then show ?thesis
    using r dr assms(2) unfolding q' by (cases "sp_inflight s = []") auto
qed

section \<open>Commands\<close>

lemma deliver_all_idle: "\<not> vc_waiting c \<Longrightarrow> deliver_all msgs c = c"
  by (induction msgs arbitrary: c)
    (simp_all add: deliver_all_def bce_vhci_command_queue_deliver_completion_def)

text \<open>Of the messages delivered to a waiting caller only the first one counts.\<close>

lemma deliver_all_waiting:
  assumes "vc_waiting c"
  shows "deliver_all msgs c = (case msgs of [] \<Rightarrow> c
    | m # ms \<Rightarrow> c\<lparr>vc_res := m, vc_completion := True, vc_waiting := False\<rparr>)"
proof (cases msgs)
  case (Cons m ms)
  let ?c = "c\<lparr>vc_res := m, vc_completion := True, vc_waiting := False\<rparr>"
  have "deliver_all msgs c = deliver_all ms ?c"
    using assms Cons by (simp add: deliver_all_def bce_vhci_command_queue_deliver_completion_def)
  then show ?thesis using Cons deliver_all_idle [of ?c ms] by simp
qed (simp add: deliver_all_def)

lemma deliver_all_frame [simp]:
  "vc_mq (deliver_all msgs c) = vc_mq c"
  "vc_controller_dead (deliver_all msgs c) = vc_controller_dead c"
  "vc_recovering (deliver_all msgs c) = vc_recovering c"
  "vc_recovery_scheduled (deliver_all msgs c) = vc_recovery_scheduled c"
  by (cases "vc_waiting c"; simp add: deliver_all_idle deliver_all_waiting split: list.split)+

lemma wait_waiting:
  assumes "vc_waiting c" and "\<not> vc_completion c"
  shows "fst (wait_delivered act msgs c) \<longleftrightarrow> msgs \<noteq> []"
    and "vc_waiting (snd (wait_delivered act msgs c)) \<longleftrightarrow> msgs = []"
    and "\<not> vc_completion (snd (wait_delivered act msgs c))"
    and "msgs = m # ms \<Longrightarrow> vc_res (snd (wait_delivered act msgs c)) = m"
  using assms by (auto simp: wait_delivered_def deliver_all_waiting Let_def split: list.splits)

lemma wait_frame [simp]:
  "mq_sq (vc_mq (snd (wait_delivered act msgs c))) = act (mq_sq (vc_mq c))"
  "vc_recovering (snd (wait_delivered act msgs c)) = vc_recovering c"
  "vc_recovery_scheduled (snd (wait_delivered act msgs c)) = vc_recovery_scheduled c"
  by (simp_all add: wait_delivered_def Let_def)

lemma vc_write_frame [simp]:
  "vc_waiting (vc_write m c) = vc_waiting c" "vc_completion (vc_write m c) = vc_completion c"
  "vc_recovering (vc_write m c) = vc_recovering c"
  "vc_recovery_scheduled (vc_write m c) = vc_recovery_scheduled c"
  by (simp_all add: vc_write_def)

lemma vc_reserve_frame [simp]:
  "vc_waiting (snd (snd (vc_reserve t ws c))) = vc_waiting c"
  "vc_completion (snd (snd (vc_reserve t ws c))) = vc_completion c"
  "vc_recovering (snd (snd (vc_reserve t ws c))) = vc_recovering c"
  "vc_recovery_scheduled (snd (snd (vc_reserve t ws c))) = vc_recovery_scheduled c"
  by (simp_all add: vc_reserve_def split: prod.split)

text \<open>What a caller gets from the messages that arrive in the two waits.\<close>

definition exec_reply :: "exec_env \<Rightarrow> bce_vhci_message \<Rightarrow> int" where
  "exec_reply env req =
     (case ex_reply env of
        m # ms \<Rightarrow> exec_status req m
      | [] \<Rightarrow>
          (case ex_cancel_reply env of
             [] \<Rightarrow> - ETIMEDOUT
           | m # ms \<Rightarrow> if reply_cmd m = vm_cmd req OR 0x4000 then - ETIMEDOUT
               else exec_status req m))"

lemma vc_reserve_available:
  assumes "0 < sq_available_commands (mq_sq (vc_mq c))"
  shows "fst (vc_reserve t ws c) = 0"
    and "mq_sq (vc_mq (snd (snd (vc_reserve t ws c)))) = (mq_sq (vc_mq c))
      \<lparr>sq_available_commands := sq_available_commands (mq_sq (vc_mq c)) - 1\<rparr>"
  using assms by (simp_all add: vc_reserve_def reserve_available)

lemma vc_write_available [simp]:
  "sq_available_commands (mq_sq (vc_mq (vc_write m c))) = sq_available_commands (mq_sq (vc_mq c))"
  by (simp add: vc_write_def message_write_unfold sq_post_unfold)

text \<open>
  Property C14. A command on a live controller with room for it and its cancellation returns
  what the first message of its wait says: the reply's status when the reply matches the
  request, \<open>-EIO\<close> when it does not. Without a reply the cancellation is sent, and its wait is
  judged the same way, except that the reply to the cancellation and silence both mean
  \<open>-ETIMEDOUT\<close>. Recovery is scheduled exactly when both waits were silent and no recovery
  runs. Messages after the first, and late ones, change nothing.
\<close>

theorem vhci_execute_outcome:
  fixes req :: bce_vhci_message and timeout :: nat
  assumes "\<not> vc_controller_dead c" and "1 < sq_available_commands (mq_sq (vc_mq c))"
    and "\<And>q. sq_available_commands q \<le> sq_available_commands (ex_ring env q)"
  defines "r \<equiv> bce_vhci_command_queue_execute env req timeout c"
  shows "fst r = exec_reply env req
    \<and> (vc_recovery_scheduled (snd r) \<longleftrightarrow> vc_recovery_scheduled c
         \<or> (ex_reply env = [] \<and> ex_cancel_reply env = [] \<and> \<not> vc_recovering c))"
proof -
  let ?c1 = "snd (snd (vc_reserve timeout (ex_reserve env) c))"
  let ?t1 = "fst (snd (vc_reserve timeout (ex_reserve env) c))"
  let ?c2 = "vc_write req (?c1\<lparr>vc_waiting := True, vc_completion := False\<rparr>)"
  let ?w1 = "wait_delivered (ex_ring env) (ex_reply env) ?c2"
  let ?c4 = "snd (snd (vc_reserve ?t1 (ex_reserve_cancel env) (snd ?w1)))"
  let ?creq = "req\<lparr>vm_cmd := vm_cmd req OR 0x4000\<rparr>"
  let ?w2 = "wait_delivered (ex_ring_cancel env) (ex_cancel_reply env) (vc_write ?creq ?c4)"
  have st1: "fst (vc_reserve timeout (ex_reserve env) c) = 0"
    using assms(2) by (simp add: vc_reserve_available)
  have "0 < sq_available_commands (mq_sq (vc_mq ?c2))"
    using assms(2) by (simp add: vc_reserve_available)
  then have "0 < sq_available_commands (mq_sq (vc_mq (snd ?w1)))"
    using assms(3) [of "mq_sq (vc_mq ?c2)"] by simp
  then have st2: "fst (vc_reserve ?t1 (ex_reserve_cancel env) (snd ?w1)) = 0"
    by (rule vc_reserve_available)
  have c2: "vc_waiting ?c2" "\<not> vc_completion ?c2" by simp_all
  show ?thesis
  proof (cases "ex_reply env")
    case (Cons m ms)
    then show ?thesis
      using assms(1) st1 wait_waiting [OF c2, where act = "ex_ring env" and msgs = "ex_reply env"]
      by (simp add: r_def bce_vhci_command_queue_execute_def split_beta Let_def exec_reply_def)
  next
    case Nil
    then have c4: "vc_waiting (vc_write ?creq ?c4)" "\<not> vc_completion (vc_write ?creq ?c4)"
      using wait_waiting [OF c2, where act = "ex_ring env" and msgs = "ex_reply env"] by simp_all
    show ?thesis
      using assms(1) st1 st2 Nil wait_waiting [OF c2, where act = "ex_ring env" and msgs = "ex_reply env"]
        wait_waiting [OF c4, where act = "ex_ring_cancel env" and msgs = "ex_cancel_reply env"]
      by (cases "ex_cancel_reply env")
        (auto simp: r_def bce_vhci_command_queue_execute_def split_beta Let_def exec_reply_def)
  qed
qed

text \<open>
  Whatever messages arrive and whichever way a command ends, afterwards no pointer
  to the caller's buffer is left in the command queue: a message delivered later is dropped
  instead of being written into a dead stack frame.
\<close>

theorem vhci_execute_withdraws_buffer:
  fixes env :: exec_env and req :: bce_vhci_message and timeout :: nat
  assumes "\<not> vc_waiting c"
  defines "c' \<equiv> snd (bce_vhci_command_queue_execute env req timeout c)"
  shows "\<not> vc_waiting c' \<and> deliver_all msgs c' = c'"
proof -
  let ?c1 = "snd (snd (vc_reserve timeout (ex_reserve env) c))"
  let ?t1 = "fst (snd (vc_reserve timeout (ex_reserve env) c))"
  let ?c2 = "vc_write req (?c1\<lparr>vc_waiting := True, vc_completion := False\<rparr>)"
  let ?c3 = "snd (wait_delivered (ex_ring env) (ex_reply env) ?c2)"
  let ?c4 = "vc_write (req\<lparr>vm_cmd := vm_cmd req OR 0x4000\<rparr>)
    (snd (snd (vc_reserve ?t1 (ex_reserve_cancel env) ?c3)))"
  have c2: "vc_waiting ?c2" "\<not> vc_completion ?c2" by simp_all
  have w: "fst (wait_delivered act ms ?c4) \<longrightarrow> \<not> vc_waiting (snd (wait_delivered act ms ?c4))"
    if "ex_reply env = []" for act ms
    using wait_waiting [where c = ?c4 and act = act and msgs = ms] wait_waiting [OF c2, where act = "ex_ring env" and msgs = "ex_reply env"] that
    by simp
  have "\<not> vc_waiting c'"
    using assms(1) w wait_waiting [OF c2, where act = "ex_ring env" and msgs = "ex_reply env"]
    by (simp add: c'_def bce_vhci_command_queue_execute_def split_beta Let_def)
  then show ?thesis by (simp add: deliver_all_idle)
qed

text \<open>The ring with no reservation outstanding, and with exactly one.\<close>

abbreviation ring_reserved :: "nat \<Rightarrow> bce_queue_sq \<Rightarrow> bool" where
  "ring_reserved n q \<equiv> \<exists>s. sq_refines s q \<and> sp_reserved s = n"

lemma vc_reserve_keeps:
  fixes t :: nat
  assumes "ring_reserved 0 (mq_sq (vc_mq c))" and "wakeups_keep (ring_reserved 0) ws"
  defines "r \<equiv> vc_reserve t ws c"
  shows "ring_reserved (if fst r = 0 then 1 else 0) (mq_sq (vc_mq (snd (snd r))))"
proof -
  obtain st t' q where r: "bce_reserve_submission (Some t) ws (mq_sq (vc_mq c)) = (st, t', q)"
    by (cases "bce_reserve_submission (Some t) ws (mq_sq (vc_mq c))")
  have step: "ring_reserved 1 (p\<lparr>sq_available_commands := sq_available_commands p - 1\<rparr>)"
    if "ring_reserved 0 p" and "0 < sq_available_commands p" for p
    using that sq_refines_reserve by fastforce
  have "(st = 0 \<longrightarrow> ring_reserved 1 q) \<and> (st \<noteq> 0 \<longrightarrow> ring_reserved 0 q)"
    by (rule reserve_preserves [OF r assms(1,2)]) (rule step)
  then show ?thesis using r by (simp add: r_def vc_reserve_def)
qed

lemma vc_write_keeps:
  assumes "ring_reserved 1 (mq_sq (vc_mq c))"
  shows "ring_reserved 0 (mq_sq (vc_mq (vc_write m c)))"
proof -
  obtain s where s: "sq_refines s (mq_sq (vc_mq c))" "sp_reserved s = 1" using assms by blast
  from sq_refines_post [OF s(1)] s(2) show ?thesis
    by (fastforce simp: vc_write_def message_write_unfold)
qed

text \<open>
  Property C15. A command leaves no reservation behind on any of its return paths: if the
  command ring had none outstanding and the completion handler keeps it consistent while the
  caller sleeps, then afterwards the ring is consistent with none outstanding.
\<close>

theorem vhci_execute_no_reservation_leak:
  fixes req :: bce_vhci_message and timeout :: nat
  assumes "ring_reserved 0 (mq_sq (vc_mq c))"
    and "wakeups_keep (ring_reserved 0) (ex_reserve env)"
    and "wakeups_keep (ring_reserved 0) (ex_reserve_cancel env)"
    and "\<And>q. ring_reserved 0 q \<Longrightarrow> ring_reserved 0 (ex_ring env q)"
    and "\<And>q. ring_reserved 0 q \<Longrightarrow> ring_reserved 0 (ex_ring_cancel env q)"
  shows "ring_reserved 0 (mq_sq (vc_mq (snd (bce_vhci_command_queue_execute env req timeout c))))"
proof -
  let ?r1 = "vc_reserve timeout (ex_reserve env) c"
  let ?c2 = "vc_write req ((snd (snd ?r1))\<lparr>vc_waiting := True, vc_completion := False\<rparr>)"
  let ?c3 = "snd (wait_delivered (ex_ring env) (ex_reply env) ?c2)"
  let ?r2 = "vc_reserve (fst (snd ?r1)) (ex_reserve_cancel env) ?c3"
  let ?c5 = "snd (wait_delivered (ex_ring_cancel env) (ex_cancel_reply env)
    (vc_write (req\<lparr>vm_cmd := vm_cmd req OR 0x4000\<rparr>) (snd (snd ?r2))))"
  have r1: "ring_reserved (if fst ?r1 = 0 then 1 else 0) (mq_sq (vc_mq (snd (snd ?r1))))"
    by (rule vc_reserve_keeps [OF assms(1,2)])
  have c3: "ring_reserved 0 (mq_sq (vc_mq ?c3))" if "fst ?r1 = 0"
    unfolding wait_frame by (rule assms(4), rule vc_write_keeps) (use r1 that in simp)
  have r2: "ring_reserved (if fst ?r2 = 0 then 1 else 0) (mq_sq (vc_mq (snd (snd ?r2))))"
    if "fst ?r1 = 0"
    by (rule vc_reserve_keeps [OF c3 [OF that] assms(3)])
  have c5: "ring_reserved 0 (mq_sq (vc_mq ?c5))" if "fst ?r1 = 0" "fst ?r2 = 0"
    unfolding wait_frame by (rule assms(5), rule vc_write_keeps) (use r2 that in simp)
  show ?thesis
  proof (cases "fst ?r1 = 0")
    case True
    note st1 = this
    show ?thesis
    proof (cases "fst ?r2 = 0")
      case True
      then show ?thesis using assms(1) st1 c3 [OF st1] c5 [OF st1 True]
        by (simp add: bce_vhci_command_queue_execute_def split_beta Let_def)
    next
      case False
      then show ?thesis using assms(1) st1 c3 [OF st1] r2 [OF st1]
        by (simp add: bce_vhci_command_queue_execute_def split_beta Let_def)
    qed
  qed (use assms(1) r1 in \<open>simp add: bce_vhci_command_queue_execute_def split_beta Let_def\<close>)
qed

section \<open>Examples\<close>

text \<open>A fresh four-slot ring of messages, and the commands of the examples.\<close>

definition ex_vring :: bce_queue_sq where
  "ex_vring = the (bce_alloc_sq 5 32 4 Cb_vhci_message_queue_completion 0 True (Some 0x1000) True)"

definition ex_mq :: bce_vhci_message_queue where
  "ex_mq = \<lparr>mq_sq = ex_vring, mq_data = replicate 4 zero_message, mq_dma_addr = 0x8000\<rparr>"

definition ex_vcq :: bce_vhci_command_queue where
  "ex_vcq = \<lparr>vc_mq = ex_mq, vc_waiting = False, vc_res = zero_message, vc_completion = False,
     vc_controller_dead = False, vc_recovering = False, vc_recovery_scheduled = False\<rparr>"

definition ex_req :: bce_vhci_message where
  "ex_req = \<lparr>vm_cmd = 0x10, vm_status = 0, vm_param1 = 1, vm_param2 = 0\<rparr>"

text \<open>No reply to the command, then the reply to its cancellation, whose bits are \<open>0xC000\<close>.\<close>

definition ex_cancelled :: exec_env where
  "ex_cancelled = \<lparr>ex_reserve = [], ex_reply = [], ex_ring = (\<lambda>q. q), ex_reserve_cancel = [],
     ex_cancel_reply = [\<lparr>vm_cmd = 0xC010, vm_status = 1, vm_param1 = 1, vm_param2 = 0\<rparr>],
     ex_ring_cancel = (\<lambda>q. q), ex_late = []\<rparr>"

lemma ex_vring_refines: "sq_refines empty_spec ex_vring"
  by (rule sq_refines_alloc [where qid = 5 and el_size = 32 and el_count = 4
        and compl = Cb_vhci_message_queue_completion and ud = 0 and a = True
        and b = "Some 0x1000" and c = True])
    (simp_all add: ex_vring_def bce_alloc_sq_def)

lemma ex_vring_available: "sq_available_commands ex_vring = 3"
  by (simp add: ex_vring_def bce_alloc_sq_def)

text \<open>The ring with one reservation, and after a message was posted and completed.\<close>

definition ex_reserved :: bce_queue_sq where
  "ex_reserved = ex_vring\<lparr>sq_available_commands := 2\<rparr>"

definition ex_completed :: bce_queue_sq where
  "ex_completed = sq_push_completion zero_completion
     (sq_post (El_submission (message_submission 0x8000 0)) ex_reserved)"

lemma ex_reserved_refines: "sq_refines (empty_spec\<lparr>sp_reserved := 1\<rparr>) ex_reserved"
  using sq_refines_reserve [OF ex_vring_refines]
  by (simp add: ex_vring_available ex_reserved_def empty_spec_def)

lemma ex_completed_refines:
  "sq_refines (empty_spec\<lparr>sp_inflight := [El_submission (message_submission 0x8000 0)],
     sp_completions := [zero_completion_data]\<rparr>) ex_completed"
proof -
  let ?q = "sq_post (El_submission (message_submission 0x8000 0)) ex_reserved"
  have "sq_refines (empty_spec\<lparr>sp_inflight := [El_submission (message_submission 0x8000 0)]\<rparr>) ?q"
    using sq_refines_post [OF ex_reserved_refines] by (simp add: empty_spec_def)
  moreover have "sq_completion_tail ?q = 0"
    by (simp add: sq_post_unfold ex_reserved_def ex_vring_def bce_alloc_sq_def)
  ultimately show ?thesis
    using sq_refines_push [of "empty_spec\<lparr>sp_inflight :=
        [El_submission (message_submission 0x8000 0)]\<rparr>" ?q zero_completion]
    by (simp add: ex_completed_def empty_spec_def zero_completion_def zero_completion_data_def)
qed

theorem message_write_refines_witness:
  "\<exists>s. mq_ok [ex_req] s (snd (bce_vhci_message_queue_write ex_req (ex_mq\<lparr>mq_sq := ex_reserved\<rparr>)))"
proof -
  let ?q = "ex_mq\<lparr>mq_sq := ex_reserved\<rparr>"
  have "mq_ok [] (empty_spec\<lparr>sp_reserved := 1\<rparr>) ?q"
    using ex_reserved_refines by (simp add: mq_ok_def empty_spec_def ex_mq_def ex_reserved_def
        ex_vring_def bce_alloc_sq_def)
  from message_write_refines [OF this, of ex_req] show ?thesis by auto
qed

theorem message_queue_completion_drains_witness:
  "\<exists>q'. bce_vhci_message_queue_completion ex_completed = Some q' \<and> sq_available_commands q' = 3"
  using message_queue_completion_drains [OF ex_completed_refines]
  by (auto simp: ex_completed_def sq_push_completion_def sq_post_unfold ex_reserved_def)

definition ex_eq :: bce_vhci_event_queue where
  "ex_eq = \<lparr>eq_sq = ex_completed, eq_data = [ex_req, zero_message, zero_message, zero_message],
     eq_dma_addr = 0x8000, eq_queue_empty_completion = False, eq_draining = False\<rparr>"

theorem event_completion_delivers_witness:
  "\<exists>q'. bce_vhci_event_queue_completion (\<lambda>m w. w @ [m]) ex_eq [] = Some (q', [ex_req])"
proof -
  let ?s = "empty_spec\<lparr>sp_inflight := [El_submission (message_submission 0x8000 0)],
    sp_completions := [zero_completion_data]\<rparr>"
  have r: "sq_refines ?s (eq_sq ex_eq)" using ex_completed_refines by (simp add: ex_eq_def)
  have "sq_slot ex_completed 0 = 0"
    by (simp add: sq_slot_def ex_completed_def sq_push_completion_def sq_post_unfold
        ex_reserved_def ex_vring_def bce_alloc_sq_def)
  then have "delivered (event_buffers ex_eq) (sp_completions ?s) = [ex_req]"
    by (simp add: ex_eq_def zero_completion_data_def)
  with event_completion_delivers [OF r, of "\<lambda>m w. w @ [m]" "[]"] show ?thesis
    by (auto simp: empty_spec_def)
qed

theorem event_queue_resume_posts_witness:
  "\<exists>s'. sq_refines s' (eq_sq (bce_vhci_event_queue_resume (\<lambda>q. q) ex_eq))
     \<and> length (sp_inflight s') = 1"
proof -
  let ?s = "empty_spec\<lparr>sp_inflight := [El_submission (message_submission 0x8000 0)],
    sp_completions := [zero_completion_data]\<rparr>"
  have "sq_refines ?s (eq_sq (if event_queue_drained ex_eq then ex_eq else ex_eq\<lparr>eq_draining := False\<rparr>))"
    using ex_completed_refines by (simp add: ex_eq_def)
  from event_queue_resume_posts [where q = ex_eq and flush = "\<lambda>q. q" and s = ?s] this show ?thesis
    by (simp add: empty_spec_def)
qed

definition ex_mq_env :: mq_env where
  "ex_mq_env = \<lparr>me_cq = ex_alloc, me_sq = ex_alloc\<lparr>al_obj := Some 21\<rparr>, me_dma = Some 0x8000,
     me_undo = quiet_env, me_undo_res = 77\<rparr>"

theorem message_queue_create_balanced_witness:
  "\<exists>st q dev'. bce_vhci_message_queue_create first_free ex_mq_env [86] 5 ex_dev = (st, q, dev')
     \<and> same_tables ex_dev (bce_vhci_message_queue_destroy 77 quiet_env q dev')"
proof -
  have "mq_env_ok ex_mq_env ex_dev"
    by (simp add: mq_env_ok_def ex_mq_env_def ex_alloc_def quiet_env_ok fresh_alloc_def ex_dev_def)
  moreover obtain st q dev' where
    "bce_vhci_message_queue_create first_free ex_mq_env [86] 5 ex_dev = (st, q, dev')"
    by (cases "bce_vhci_message_queue_create first_free ex_mq_env [86] 5 ex_dev")
  ultimately show ?thesis
    using message_queue_create_balanced [OF ex_dev_lc first_free_ok _ quiet_env_ok] by blast
qed

theorem vhci_execute_outcome_witness:
  "fst (bce_vhci_command_queue_execute ex_cancelled ex_req 100 ex_vcq) = - 110"
  using vhci_execute_outcome [of ex_vcq ex_cancelled ex_req 100]
  by (simp add: ex_vcq_def ex_mq_def ex_vring_available ex_cancelled_def exec_reply_def
      reply_cmd_def ex_req_def)

theorem vhci_execute_withdraws_buffer_witness:
  "\<not> vc_waiting (snd (bce_vhci_command_queue_execute ex_cancelled ex_req 100 ex_vcq))"
  using vhci_execute_withdraws_buffer [of ex_vcq ex_cancelled ex_req 100] by (simp add: ex_vcq_def)

theorem vhci_execute_no_reservation_leak_witness:
  "\<exists>s. sq_refines s (mq_sq (vc_mq (snd
      (bce_vhci_command_queue_execute ex_cancelled ex_req 100 ex_vcq)))) \<and> sp_reserved s = 0"
proof (rule vhci_execute_no_reservation_leak)
  show "ring_reserved 0 (mq_sq (vc_mq ex_vcq))"
    using ex_vring_refines by (auto simp: ex_vcq_def ex_mq_def empty_spec_def)
qed (simp_all add: ex_cancelled_def wakeups_keep_def)

end
