(* ===== verification/Vhci_Command.thy ===== *)
theory Vhci_Command
  imports Vhci_Queue
begin

text \<open>
  The commands of the virtual host controller (\<open>src/vhci/command.h\<close>): each fills a message,
  runs it on the command queue and reads the reply.

  The result of a command is the status, the value stored through the output pointer (\<open>None\<close>
  when the function does not store one) and the command queue. \<open>jif\<close> stands for
  \<open>msecs_to_jiffies\<close>. An endpoint descriptor carries what the USB core's accessors return
  for it.
\<close>

section \<open>Commands and their messages\<close>

abbreviation BCE_VHCI_CMD_CONTROLLER_ENABLE :: u16 where "BCE_VHCI_CMD_CONTROLLER_ENABLE \<equiv> 1"
abbreviation BCE_VHCI_CMD_CONTROLLER_DISABLE :: u16 where "BCE_VHCI_CMD_CONTROLLER_DISABLE \<equiv> 2"
abbreviation BCE_VHCI_CMD_CONTROLLER_START :: u16 where "BCE_VHCI_CMD_CONTROLLER_START \<equiv> 3"
abbreviation BCE_VHCI_CMD_CONTROLLER_PAUSE :: u16 where "BCE_VHCI_CMD_CONTROLLER_PAUSE \<equiv> 4"
abbreviation BCE_VHCI_CMD_PORT_POWER_ON :: u16 where "BCE_VHCI_CMD_PORT_POWER_ON \<equiv> 0x10"
abbreviation BCE_VHCI_CMD_PORT_POWER_OFF :: u16 where "BCE_VHCI_CMD_PORT_POWER_OFF \<equiv> 0x11"
abbreviation BCE_VHCI_CMD_PORT_RESUME :: u16 where "BCE_VHCI_CMD_PORT_RESUME \<equiv> 0x12"
abbreviation BCE_VHCI_CMD_PORT_SUSPEND :: u16 where "BCE_VHCI_CMD_PORT_SUSPEND \<equiv> 0x13"
abbreviation BCE_VHCI_CMD_PORT_RESET :: u16 where "BCE_VHCI_CMD_PORT_RESET \<equiv> 0x14"
abbreviation BCE_VHCI_CMD_PORT_DISABLE :: u16 where "BCE_VHCI_CMD_PORT_DISABLE \<equiv> 0x15"
abbreviation BCE_VHCI_CMD_PORT_STATUS :: u16 where "BCE_VHCI_CMD_PORT_STATUS \<equiv> 0x16"
abbreviation BCE_VHCI_CMD_DEVICE_CREATE :: u16 where "BCE_VHCI_CMD_DEVICE_CREATE \<equiv> 0x30"
abbreviation BCE_VHCI_CMD_DEVICE_DESTROY :: u16 where "BCE_VHCI_CMD_DEVICE_DESTROY \<equiv> 0x31"
abbreviation BCE_VHCI_CMD_ENDPOINT_CREATE :: u16 where "BCE_VHCI_CMD_ENDPOINT_CREATE \<equiv> 0x40"
abbreviation BCE_VHCI_CMD_ENDPOINT_DESTROY :: u16 where "BCE_VHCI_CMD_ENDPOINT_DESTROY \<equiv> 0x41"
abbreviation BCE_VHCI_CMD_ENDPOINT_SET_STATE :: u16 where "BCE_VHCI_CMD_ENDPOINT_SET_STATE \<equiv> 0x42"
abbreviation BCE_VHCI_CMD_ENDPOINT_RESET :: u16 where "BCE_VHCI_CMD_ENDPOINT_RESET \<equiv> 0x44"

abbreviation BCE_VHCI_BULK_MAX_ACTIVE_URBS_POW2 :: u8 where "BCE_VHCI_BULK_MAX_ACTIVE_URBS_POW2 \<equiv> 3"
abbreviation BCE_VHCI_ISOC_MAX_ACTIVE_URBS_POW2 :: u8 where "BCE_VHCI_ISOC_MAX_ACTIVE_URBS_POW2 \<equiv> 2"

abbreviation USB_ENDPOINT_XFER_ISOC :: u32 where "USB_ENDPOINT_XFER_ISOC \<equiv> 1"
abbreviation USB_ENDPOINT_XFER_BULK :: u32 where "USB_ENDPOINT_XFER_BULK \<equiv> 2"
abbreviation USB_ENDPOINT_XFER_INT :: u32 where "USB_ENDPOINT_XFER_INT \<equiv> 3"

text \<open>
  What the accessors of the USB core return for a descriptor; all are non-negative \<open>int\<close>s,
  kept as 32-bit words.
\<close>

record usb_endpoint =
  ep_address :: u8
  ep_type :: u32
  ep_maxp :: u32
  ep_maxp_mult :: u32
  ep_interval :: u8

definition vhci_cmd :: "u16 \<Rightarrow> u32 \<Rightarrow> u64 \<Rightarrow> bce_vhci_message" where
  "vhci_cmd c p1 p2 = \<lparr>vm_cmd = c, vm_status = 0, vm_param1 = p1, vm_param2 = p2\<rparr>"

text \<open>\<open>dev | (endpoint << 8)\<close> on bytes promoted to \<open>int\<close>.\<close>

definition endpoint_param :: "u8 \<Rightarrow> u8 \<Rightarrow> u32" where
  "endpoint_param dev ep = ucast dev OR push_bit 8 (ucast ep)"

definition max_active_requests_pow2 :: "u32 \<Rightarrow> u8" where
  "max_active_requests_pow2 t =
     (if t = USB_ENDPOINT_XFER_BULK then BCE_VHCI_BULK_MAX_ACTIVE_URBS_POW2
      else if t = USB_ENDPOINT_XFER_ISOC then BCE_VHCI_ISOC_MAX_ACTIVE_URBS_POW2 else 0)"

text \<open>
  The second parameter of the endpoint creation. The 32-bit \<open>int\<close> part and the shifted
  interval are converted to 64 bits with their sign, as the assignment does.
\<close>

definition endpoint_config :: "usb_endpoint \<Rightarrow> u64" where
  "endpoint_config d =
     (let burst = ep_maxp_mult d * ep_maxp d;
          p = scast (ep_type d OR push_bit 4 (ucast (max_active_requests_pow2 (ep_type d) AND 0xf))
                OR push_bit 16 (ep_maxp d)) OR push_bit 32 (scast burst)
      in if ep_type d = USB_ENDPOINT_XFER_INT \<or> ep_type d = USB_ENDPOINT_XFER_ISOC
         then p OR scast (push_bit 8 (ucast (ep_interval d) - 1 :: u32))
         else p)"

section \<open>Running the commands\<close>

type_synonym 'a cmd_outcome = "int \<times> 'a option \<times> bce_vhci_command_queue"

definition bce_vhci_cmd_controller_enable ::
  "(nat \<Rightarrow> nat) \<Rightarrow> exec_env \<Rightarrow> u8 \<Rightarrow> bce_vhci_command_queue \<Rightarrow> u16 cmd_outcome" where
  "bce_vhci_cmd_controller_enable jif env busNum q =
     (let (st, q') = bce_vhci_command_queue_execute env
            (vhci_cmd BCE_VHCI_CMD_CONTROLLER_ENABLE (0x7100 OR ucast busNum) 0) (jif 30000) q
      in (st, if st = 0 then Some (ucast (vm_param2 (vc_res q'))) else None, q'))"

definition bce_vhci_cmd_controller_disable where
  "bce_vhci_cmd_controller_disable jif env q =
     bce_vhci_command_queue_execute env (vhci_cmd BCE_VHCI_CMD_CONTROLLER_DISABLE 0 0) (jif 30000) q"

definition bce_vhci_cmd_controller_start where
  "bce_vhci_cmd_controller_start jif env q =
     bce_vhci_command_queue_execute env (vhci_cmd BCE_VHCI_CMD_CONTROLLER_START 0 0) (jif 30000) q"

definition bce_vhci_cmd_controller_pause where
  "bce_vhci_cmd_controller_pause jif env q =
     bce_vhci_command_queue_execute env (vhci_cmd BCE_VHCI_CMD_CONTROLLER_PAUSE 0 0) (jif 30000) q"

definition bce_vhci_cmd_port_power_on where
  "bce_vhci_cmd_port_power_on jif env (port :: u8) q =
     bce_vhci_command_queue_execute env (vhci_cmd BCE_VHCI_CMD_PORT_POWER_ON (ucast port) 0) (jif 2000) q"

definition bce_vhci_cmd_port_power_off where
  "bce_vhci_cmd_port_power_off jif env (port :: u8) q =
     bce_vhci_command_queue_execute env (vhci_cmd BCE_VHCI_CMD_PORT_POWER_OFF (ucast port) 0) (jif 2000) q"

definition bce_vhci_cmd_port_resume where
  "bce_vhci_cmd_port_resume jif env (port :: u8) q =
     bce_vhci_command_queue_execute env (vhci_cmd BCE_VHCI_CMD_PORT_RESUME (ucast port) 0) (jif 30000) q"

definition bce_vhci_cmd_port_suspend where
  "bce_vhci_cmd_port_suspend jif env (port :: u8) q =
     bce_vhci_command_queue_execute env (vhci_cmd BCE_VHCI_CMD_PORT_SUSPEND (ucast port) 0) (jif 30000) q"

definition bce_vhci_cmd_port_reset where
  "bce_vhci_cmd_port_reset jif env (port :: u8) (timeout :: u32) q =
     bce_vhci_command_queue_execute env
       (vhci_cmd BCE_VHCI_CMD_PORT_RESET (ucast port) (ucast timeout)) (jif 2000) q"

definition bce_vhci_cmd_port_disable where
  "bce_vhci_cmd_port_disable jif env (port :: u8) q =
     bce_vhci_command_queue_execute env (vhci_cmd BCE_VHCI_CMD_PORT_DISABLE (ucast port) 0) (jif 2000) q"

definition bce_vhci_cmd_port_status ::
  "(nat \<Rightarrow> nat) \<Rightarrow> exec_env \<Rightarrow> u8 \<Rightarrow> u32 \<Rightarrow> bce_vhci_command_queue \<Rightarrow> u32 cmd_outcome" where
  "bce_vhci_cmd_port_status jif env port clearFlags q =
     (let (st, q') = bce_vhci_command_queue_execute env
            (vhci_cmd BCE_VHCI_CMD_PORT_STATUS (ucast port) (ucast (clearFlags AND 0x560000))) (jif 2000) q
      in (st, if 0 \<le> st then Some (ucast (vm_param2 (vc_res q'))) else None, q'))"

definition bce_vhci_cmd_device_create ::
  "(nat \<Rightarrow> nat) \<Rightarrow> exec_env \<Rightarrow> u8 \<Rightarrow> bce_vhci_command_queue \<Rightarrow> u8 cmd_outcome" where
  "bce_vhci_cmd_device_create jif env port q =
     (let (st, q') = bce_vhci_command_queue_execute env
            (vhci_cmd BCE_VHCI_CMD_DEVICE_CREATE (ucast port) 0) (jif 2000) q
      in (st, if st = 0 then Some (ucast (vm_param2 (vc_res q'))) else None, q'))"

definition bce_vhci_cmd_device_destroy where
  "bce_vhci_cmd_device_destroy jif env (dev :: u8) q =
     bce_vhci_command_queue_execute env (vhci_cmd BCE_VHCI_CMD_DEVICE_DESTROY (ucast dev) 0) (jif 5000) q"

definition bce_vhci_cmd_endpoint_create where
  "bce_vhci_cmd_endpoint_create jif env dev desc q =
     bce_vhci_command_queue_execute env
       (vhci_cmd BCE_VHCI_CMD_ENDPOINT_CREATE (endpoint_param dev (ep_address desc AND 0x8F))
         (endpoint_config desc)) (jif 2000) q"

definition bce_vhci_cmd_endpoint_destroy where
  "bce_vhci_cmd_endpoint_destroy jif env dev ep q =
     bce_vhci_command_queue_execute env
       (vhci_cmd BCE_VHCI_CMD_ENDPOINT_DESTROY (endpoint_param dev ep) 0) (jif 2000) q"

text \<open>An endpoint state is the raw value of the enumeration.\<close>

definition bce_vhci_cmd_endpoint_set_state ::
  "(nat \<Rightarrow> nat) \<Rightarrow> exec_env \<Rightarrow> u8 \<Rightarrow> u8 \<Rightarrow> u32 \<Rightarrow> bce_vhci_command_queue \<Rightarrow> u32 cmd_outcome" where
  "bce_vhci_cmd_endpoint_set_state jif env dev ep newState q =
     (let (st, q') = bce_vhci_command_queue_execute env
            (vhci_cmd BCE_VHCI_CMD_ENDPOINT_SET_STATE (endpoint_param dev ep) (ucast newState)) (jif 2000) q
      in (st, if 0 \<le> st \<and> st \<noteq> BCE_VHCI_INTERNAL_ERROR \<and> st \<noteq> BCE_VHCI_NO_POWER
              then Some (ucast (vm_param2 (vc_res q'))) else None, q'))"

definition bce_vhci_cmd_endpoint_reset where
  "bce_vhci_cmd_endpoint_reset jif env dev ep q =
     bce_vhci_command_queue_execute env
       (vhci_cmd BCE_VHCI_CMD_ENDPOINT_RESET (endpoint_param dev ep) 0) (jif 2000) q"

section \<open>Replies\<close>

text \<open>
  A status that is not negative comes from a message that was delivered during one of the two
  waits and that answers the request; the caller's buffer holds that message.
\<close>

lemma exec_status_reply: "0 \<le> exec_status req m \<Longrightarrow> reply_cmd m = vm_cmd req"
  by (simp add: exec_status_def split: if_splits)

lemma wait_result:
  assumes "vc_waiting c" and "\<not> vc_completion c" and "fst (wait_delivered act msgs c)"
  shows "vc_res (snd (wait_delivered act msgs c)) \<in> set msgs"
  using assms wait_waiting [OF assms(1,2)] by (cases msgs) auto

lemma vc_reserve_status: "fst (vc_reserve t ws c) = 0 \<or> fst (vc_reserve t ws c) = - EAGAIN"
  using reserve_status [of "Some t" ws "mq_sq (vc_mq c)"]
  by (auto simp: vc_reserve_def split: prod.split)

lemma execute_reply:
  fixes timeout :: nat
  assumes "bce_vhci_command_queue_execute env req timeout c = (st, c')" and "0 \<le> st"
  shows "vc_res c' \<in> set (ex_reply env @ ex_cancel_reply env) \<and> reply_cmd (vc_res c') = vm_cmd req
    \<and> st = exec_status req (vc_res c')"
proof -
  let ?r1 = "vc_reserve timeout (ex_reserve env) c"
  let ?c2 = "vc_write req ((snd (snd ?r1))\<lparr>vc_waiting := True, vc_completion := False\<rparr>)"
  let ?w1 = "wait_delivered (ex_ring env) (ex_reply env) ?c2"
  let ?r2 = "vc_reserve (fst (snd ?r1)) (ex_reserve_cancel env) (snd ?w1)"
  let ?c4 = "vc_write (req\<lparr>vm_cmd := vm_cmd req OR 0x4000\<rparr>) (snd (snd ?r2))"
  let ?w2 = "wait_delivered (ex_ring_cancel env) (ex_cancel_reply env) ?c4"
  have c2: "vc_waiting ?c2" "\<not> vc_completion ?c2" by simp_all
  note run = assms [unfolded bce_vhci_command_queue_execute_def Let_def split_beta]
  have r1: "fst ?r1 = 0" and live: "\<not> vc_controller_dead c"
    using run vc_reserve_status [of timeout "ex_reserve env" c] by (auto split: if_splits)
  show ?thesis
  proof (cases "fst ?w1")
    case True
    with run live r1 wait_result [OF c2 True] exec_status_reply [of req] show ?thesis by auto
  next
    case False
    then have "ex_reply env = []"
      using wait_waiting(1) [OF c2, of "ex_ring env" "ex_reply env"] by simp
    then have c4: "vc_waiting ?c4" "\<not> vc_completion ?c4"
      using wait_waiting(2,3) [OF c2, of "ex_ring env" "ex_reply env"] by simp_all
    have r2: "fst ?r2 = 0" and w2: "fst ?w2"
      using run live r1 False vc_reserve_status [of "fst (snd ?r1)" "ex_reserve_cancel env" "snd ?w1"]
      by (auto split: if_splits)
    have "c' = snd ?w2" "st = exec_status req (vc_res (snd ?w2))"
      using run live r1 False r2 w2 by (auto split: if_splits)
    with wait_result [OF c4 w2] exec_status_reply [of req] assms(2) show ?thesis by auto
  qed
qed

text \<open>The values a reply to the command \<open>c\<close> brought.\<close>

definition reply_values :: "exec_env \<Rightarrow> u16 \<Rightarrow> u64 set" where
  "reply_values env c =
     vm_param2 ` set (filter (\<lambda>m. reply_cmd m = c) (ex_reply env @ ex_cancel_reply env))"

lemma execute_reply_value:
  "bce_vhci_command_queue_execute env (vhci_cmd c p1 p2) t q = (st, q') \<Longrightarrow> 0 \<le> st
     \<Longrightarrow> vm_param2 (vc_res q') \<in> reply_values env c"
  using execute_reply [of env "vhci_cmd c p1 p2" t q st q'] by (auto simp: reply_values_def vhci_cmd_def)

text \<open>
  Every value a command hands to its caller is taken from a message the device
  delivered for that very command: the port mask, port status, device id and endpoint state
  are never read from an uninitialised buffer or from another command's reply.
\<close>

theorem vhci_cmd_outputs_from_replies:
  "set_option (fst (snd (bce_vhci_cmd_controller_enable jif env busNum q)))
       \<subseteq> ucast ` reply_values env BCE_VHCI_CMD_CONTROLLER_ENABLE
   \<and> set_option (fst (snd (bce_vhci_cmd_port_status jif env port clearFlags q)))
       \<subseteq> ucast ` reply_values env BCE_VHCI_CMD_PORT_STATUS
   \<and> set_option (fst (snd (bce_vhci_cmd_device_create jif env port q)))
       \<subseteq> ucast ` reply_values env BCE_VHCI_CMD_DEVICE_CREATE
   \<and> set_option (fst (snd (bce_vhci_cmd_endpoint_set_state jif env dev ep newState q)))
       \<subseteq> ucast ` reply_values env BCE_VHCI_CMD_ENDPOINT_SET_STATE"
proof (intro conjI)
  show "set_option (fst (snd (bce_vhci_cmd_controller_enable jif env busNum q)))
      \<subseteq> ucast ` reply_values env BCE_VHCI_CMD_CONTROLLER_ENABLE"
    by (auto simp: bce_vhci_cmd_controller_enable_def split: prod.splits
        intro!: imageI execute_reply_value)
  show "set_option (fst (snd (bce_vhci_cmd_port_status jif env port clearFlags q)))
      \<subseteq> ucast ` reply_values env BCE_VHCI_CMD_PORT_STATUS"
    by (auto simp: bce_vhci_cmd_port_status_def split: prod.splits
        intro!: imageI execute_reply_value)
  show "set_option (fst (snd (bce_vhci_cmd_device_create jif env port q)))
      \<subseteq> ucast ` reply_values env BCE_VHCI_CMD_DEVICE_CREATE"
    by (auto simp: bce_vhci_cmd_device_create_def split: prod.splits
        intro!: imageI execute_reply_value)
  show "set_option (fst (snd (bce_vhci_cmd_endpoint_set_state jif env dev ep newState q)))
      \<subseteq> ucast ` reply_values env BCE_VHCI_CMD_ENDPOINT_SET_STATE"
    by (auto simp: bce_vhci_cmd_endpoint_set_state_def split: prod.splits
        intro!: imageI execute_reply_value)
qed

section \<open>The endpoint configuration word\<close>

lemma scast_nonneg:
  fixes x :: u32
  assumes "\<not> bit x 31"
  shows "(scast x :: u64) = ucast x"
proof (rule bit_word_eqI)
  fix n
  show "bit (scast x :: u64) n = bit (ucast x :: u64) n"
    using assms bit_imp_le_length [of x n]
    by (cases n "31 :: nat" rule: linorder_cases) (auto simp: bit_simps min_def)
qed

text \<open>The ranges of the accessors: two bits, eleven bits, a factor of at most three.\<close>

definition endpoint_ok :: "usb_endpoint \<Rightarrow> bool" where
  "endpoint_ok d \<longleftrightarrow> ep_type d < 4 \<and> ep_maxp d < 0x800 \<and> ep_maxp_mult d \<le> 3 \<and> 0 < ep_interval d"

lemma ucast_ucast_up: "(ucast (ucast (x :: u8) :: u32) :: u64) = ucast x"
  by (rule bit_word_eqI) (auto simp: bit_simps dest: bit_imp_le_length)

lemma ucast_push_or:
  fixes x y :: u32
  assumes "unat y < 2 ^ k" and "j + k \<le> 32"
  shows "(ucast (x OR push_bit j y) :: u64) = ucast x OR push_bit j (ucast y)"
proof (rule bit_word_eqI)
  fix n assume "n < LENGTH(64)"
  show "bit (ucast (x OR push_bit j y) :: u64) n = bit (ucast x OR push_bit j (ucast y) :: u64) n"
    using bits_below [OF assms(1), of "n - j"] assms(2) \<open>n < LENGTH(64)\<close>
    by (cases "n < 32") (auto simp: bit_simps)
qed

lemma pred_ucast:
  fixes i :: u8
  assumes "0 < i"
  shows "(ucast i - 1 :: u32) = ucast (i - 1)"
proof -
  have u: "unat (ucast i :: u32) = unat i" by (rule unat_ucast_up) simp
  have nz: "unat i \<noteq> 0" using assms by (simp add: word_less_nat_alt)
  then have "unat (ucast i - 1 :: u32) = unat i - 1"
    using u by (subst unat_minus_one) auto
  moreover have "unat (ucast (i - 1) :: u32) = unat i - 1"
    using nz assms unat_minus_one [of i] by (subst unat_ucast_up) auto
  ultimately show ?thesis by (simp add: word_unat_eq_iff)
qed

lemma endpoint_config_fields:
  assumes "endpoint_ok d"
  defines "t \<equiv> ep_type d" and "m \<equiv> ep_maxp d" and "b \<equiv> ep_maxp_mult d * ep_maxp d"
    and "p \<equiv> max_active_requests_pow2 (ep_type d)"
    and "i \<equiv> (if ep_type d = 3 \<or> ep_type d = 1 then ep_interval d - 1 else 0)"
  shows "endpoint_config d = ucast t OR push_bit 4 (ucast p) OR push_bit 16 (ucast m)
      OR push_bit 32 (ucast b) OR push_bit 8 (ucast i)"
    and "unat b = unat (ep_maxp_mult d) * unat m" and "unat b < 2 ^ 13" and "unat t < 4" "unat p < 4"
      "unat m < 2 ^ 11"
proof -
  have r: "unat t < 4" "unat m < 2 ^ 11" "unat (ep_maxp_mult d) \<le> 3" "0 < ep_interval d"
    using assms(1) by (simp_all add: endpoint_ok_def t_def m_def word_less_nat_alt word_le_nat_alt)
  have prod: "unat (ep_maxp_mult d) * unat m \<le> 3 * 2047"
    by (rule mult_le_mono) (use r in simp_all)
  show b: "unat b = unat (ep_maxp_mult d) * unat m"
    unfolding b_def m_def [symmetric] by (subst unat_word_ariths(2)) (use prod in simp)
  with prod show bs: "unat b < 2 ^ 13" by simp
  show "unat t < 4" "unat m < 2 ^ 11" by (fact r)+
  show p: "unat p < 4" by (simp add: p_def max_active_requests_pow2_def)
  have pm: "p AND 0xf = p" by (simp add: p_def max_active_requests_pow2_def)
  have up: "unat (ucast p :: u32) < 2 ^ 4" using p by (subst unat_ucast_up) auto
  let ?a = "t OR push_bit 4 (ucast p) OR push_bit 16 m :: u32"
  have a: "(ucast ?a :: u64) = ucast t OR push_bit 4 (ucast p) OR push_bit 16 (ucast m)"
    using ucast_push_or [OF r(2), of 16 "t OR push_bit 4 (ucast p)"] ucast_push_or [OF up, of 4 t]
    by (simp add: or.assoc ucast_ucast_up)
  have na: "\<not> bit ?a 31"
    using bits_below [of t 2 31] bits_below [of m 11 15] bits_below [of "ucast p :: u32" 4 27] r up
    by (auto simp: bit_simps)
  have nb: "\<not> bit b 31" using bits_below [OF bs] by simp
  have ni: "\<not> bit (push_bit 8 (ucast (ep_interval d - 1)) :: u32) 31"
    by (auto simp: bit_simps dest: bit_imp_le_length)
  have "(ucast (push_bit 8 (ucast (ep_interval d - 1) :: u32)) :: u64) = push_bit 8 (ucast (ep_interval d - 1))"
    using ucast_push_or [of "ucast (ep_interval d - 1)" 8 8 0] unat_below [of "ep_interval d - 1"]
    by (simp add: unat_ucast_up ucast_ucast_up)
  then show "endpoint_config d = ucast t OR push_bit 4 (ucast p) OR push_bit 16 (ucast m)
      OR push_bit 32 (ucast b) OR push_bit 8 (ucast i)"
    using scast_nonneg [OF na] scast_nonneg [OF nb] scast_nonneg [OF ni] a pm pred_ucast [OF r(4)]
    by (simp add: endpoint_config_def Let_def t_def m_def b_def p_def i_def or.assoc)
qed

lemma field_extract:
  fixes t p i m b :: u64
  assumes "unat t < 2 ^ 4" "unat p < 2 ^ 4" "unat i < 2 ^ 8" "unat m < 2 ^ 16" "unat b < 2 ^ 32"
  defines "w \<equiv> t OR push_bit 4 p OR push_bit 16 m OR push_bit 32 b OR push_bit 8 i"
  shows "take_bit 4 w = t" and "take_bit 4 (drop_bit 4 w) = p" and "take_bit 8 (drop_bit 8 w) = i"
    and "take_bit 16 (drop_bit 16 w) = m" and "drop_bit 32 w = b"
proof -
  note z = bits_below [OF assms(1)] bits_below [OF assms(2)] bits_below [OF assms(3)]
    bits_below [OF assms(4)] bits_below [OF assms(5)]
  show "take_bit 4 w = t"
    by (rule bit_word_eqI) (use z in \<open>auto simp: w_def bit_simps not_less [symmetric]\<close>)
  show "take_bit 4 (drop_bit 4 w) = p"
    by (rule bit_word_eqI) (use z in \<open>auto simp: w_def bit_simps not_less [symmetric]\<close>)
  show "take_bit 8 (drop_bit 8 w) = i"
    by (rule bit_word_eqI) (use z in \<open>auto simp: w_def bit_simps not_less [symmetric]\<close>)
  show "take_bit 16 (drop_bit 16 w) = m"
    by (rule bit_word_eqI) (use z in \<open>auto simp: w_def bit_simps not_less [symmetric]\<close>)
  show "drop_bit 32 w = b"
    by (rule bit_word_eqI)
      (use z in \<open>auto simp: w_def bit_simps not_less [symmetric] dest: bit_word_below [OF _ assms(5)]\<close>)
qed

text \<open>
  The endpoint configuration sent to the device can be taken apart again: for a
  descriptor within the ranges of the USB core the five fields do not overlap, and the
  device reads the transfer type, the logarithm of the number of active requests, the
  interval minus one (zero for control and bulk endpoints), the packet size and the size of
  a burst without a carry or a sign extension reaching a neighbour.
\<close>

theorem endpoint_config_decodes:
  assumes "endpoint_ok d"
  shows "take_bit 4 (endpoint_config d) = ucast (ep_type d)
    \<and> take_bit 4 (drop_bit 4 (endpoint_config d)) = ucast (max_active_requests_pow2 (ep_type d))
    \<and> take_bit 8 (drop_bit 8 (endpoint_config d))
        = (if ep_type d = 3 \<or> ep_type d = 1 then ucast (ep_interval d - 1) else 0)
    \<and> take_bit 16 (drop_bit 16 (endpoint_config d)) = ucast (ep_maxp d)
    \<and> unat (drop_bit 32 (endpoint_config d)) = unat (ep_maxp_mult d) * unat (ep_maxp d)"
proof -
  note c = endpoint_config_fields [OF assms]
  let ?i = "if ep_type d = 3 \<or> ep_type d = 1 then ep_interval d - 1 else 0"
  have "unat (ucast ?i :: u64) < 2 ^ 8" using unat_below [of ?i] by (subst unat_ucast_up) simp_all
  moreover have "unat (ucast (max_active_requests_pow2 (ep_type d)) :: u64) < 2 ^ 4"
    using c(5) by (subst unat_ucast_up) simp_all
  ultimately have w: "take_bit 4 (endpoint_config d) = ucast (ep_type d)"
    "take_bit 4 (drop_bit 4 (endpoint_config d)) = ucast (max_active_requests_pow2 (ep_type d))"
    "take_bit 8 (drop_bit 8 (endpoint_config d)) = ucast ?i"
    "take_bit 16 (drop_bit 16 (endpoint_config d)) = ucast (ep_maxp d)"
    "drop_bit 32 (endpoint_config d) = ucast (ep_maxp_mult d * ep_maxp d)"
    unfolding c(1) using c(3,4,6) by (intro field_extract; simp add: unat_ucast_up)+
  have "(ucast ?i :: u64) = (if ep_type d = 3 \<or> ep_type d = 1 then ucast (ep_interval d - 1) else 0)"
    by simp
  moreover have "unat (drop_bit 32 (endpoint_config d)) = unat (ep_maxp_mult d) * unat (ep_maxp d)"
    unfolding w(5) using c(2) by (subst unat_ucast_up) simp_all
  ultimately show ?thesis using w(1-4) by metis
qed

theorem endpoint_config_decodes_witness:
  "take_bit 16 (drop_bit 16 (endpoint_config
     \<lparr>ep_address = 0x81, ep_type = 3, ep_maxp = 64, ep_maxp_mult = 1, ep_interval = 8\<rparr>)) = 64"
  using endpoint_config_decodes [of "\<lparr>ep_address = 0x81, ep_type = 3, ep_maxp = 64,
    ep_maxp_mult = 1, ep_interval = 8\<rparr>"]
  by (simp add: endpoint_ok_def)

end
