(* ===== verification/Vhci_Urb.thy ===== *)
theory Vhci_Urb
  imports Vhci_Command "HOL-Library.Monad_Syntax"
begin

text \<open>
  The requests on a transfer queue of the virtual host controller and their state machine
  (\<open>src/vhci/transfer.h\<close>, the functions on URBs of \<open>src/vhci/transfer.c\<close>).

  A URB is named by its address. The endpoint's list \<open>tq_urb_list\<close> holds addresses; \<open>tq_urb\<close>
  are the fields of the USB core's structure, \<open>tq_hcpriv\<close> the driver's structure behind
  \<open>urb->hcpriv\<close>, \<open>None\<close> for a NULL pointer. The rings are the queue objects behind \<open>sq_in\<close> and
  \<open>sq_out\<close>, again \<open>None\<close> for NULL, and \<open>tq_mq\<close> is the message queue \<open>bce_vhci_get_msg_queue\<close>
  selects. \<open>tq_given\<close> records the calls of \<open>usb_hcd_giveback_urb\<close>, \<open>tq_mmio\<close> the doorbell writes, and
  \<open>tq_w_reset\<close>, \<open>tq_w_resume\<close>, \<open>tq_w_flush\<close> whether the work was queued. All functions run under
  the queue's spinlock and never sleep. A dereference of a NULL pointer is the outcome \<open>None\<close>.
\<close>

section \<open>Data\<close>

abbreviation BCE_VHCI_CMD_TRANSFER_REQUEST :: u16 where "BCE_VHCI_CMD_TRANSFER_REQUEST \<equiv> 0x1000"
abbreviation BCE_VHCI_CMD_CONTROL_TRANSFER_STATUS :: u16
  where "BCE_VHCI_CMD_CONTROL_TRANSFER_STATUS \<equiv> 0x1005"

abbreviation BCE_VHCI_ENDPOINT_ACTIVE :: u32 where "BCE_VHCI_ENDPOINT_ACTIVE \<equiv> 0"
abbreviation BCE_VHCI_ENDPOINT_PAUSED :: u32 where "BCE_VHCI_ENDPOINT_PAUSED \<equiv> 1"
abbreviation BCE_VHCI_ENDPOINT_STALLED :: u32 where "BCE_VHCI_ENDPOINT_STALLED \<equiv> 2"

abbreviation BCE_VHCI_PAUSE_INTERNAL_WQ :: u32 where "BCE_VHCI_PAUSE_INTERNAL_WQ \<equiv> 1"
abbreviation BCE_VHCI_PAUSE_FIRMWARE :: u32 where "BCE_VHCI_PAUSE_FIRMWARE \<equiv> 2"
abbreviation BCE_VHCI_PAUSE_SUSPEND :: u32 where "BCE_VHCI_PAUSE_SUSPEND \<equiv> 4"
abbreviation BCE_VHCI_PAUSE_SHUTDOWN :: u32 where "BCE_VHCI_PAUSE_SHUTDOWN \<equiv> 8"

abbreviation DMA_BIDIRECTIONAL :: int where "DMA_BIDIRECTIONAL \<equiv> 0"

text \<open>\<open>sizeof(struct usb_ctrlrequest)\<close>.\<close>

abbreviation sizeof_ctrlrequest :: u64 where "sizeof_ctrlrequest \<equiv> 8"

datatype bce_vhci_urb_state =
    URB_INIT_PENDING
  | URB_WAITING_FOR_TRANSFER_REQUEST
  | URB_WAITING_FOR_COMPLETION
  | URB_DATA_TRANSFER_COMPLETE
  | URB_CONTROL_WAITING_FOR_SETUP_REQUEST
  | URB_CONTROL_WAITING_FOR_SETUP_COMPLETION
  | URB_CONTROL_COMPLETE
  | URB_CANCELLED

record urb =
  ur_dir_in :: bool
  ur_transfer_buffer_length :: u32
  ur_transfer_dma :: u64
  ur_setup_dma :: u64
  ur_number_of_packets :: nat
  ur_actual_length :: u32
  ur_status :: int
  ur_error_count :: int
  ur_iso_frame_desc :: "(u32 \<times> int) list"

record bce_vhci_urb =
  vu_dir :: int
  vu_is_control :: bool
  vu_state :: bce_vhci_urb_state
  vu_received_status :: int
  vu_send_offset :: u32
  vu_receive_offset :: u32

record bce_vhci_transfer_queue =
  tq_endp :: usb_endpoint
  tq_state :: u32
  tq_max_active_requests :: u32
  tq_remaining_active_requests :: u32
  tq_active :: bool
  tq_stalled :: bool
  tq_paused_by :: u32
  tq_dev_addr :: u8
  tq_endp_addr :: u8
  tq_sq_in :: "bce_queue_sq option"
  tq_sq_out :: "bce_queue_sq option"
  tq_evq :: "bce_vhci_message list"
  tq_giveback_urb_list :: "addr list"
  tq_flush_giveback_list :: "addr list"
  tq_sq_out_pending :: int
  tq_ghost_in_count :: int
  tq_ghost_out_count :: int
  tq_urb_list :: "addr list"
  tq_urb :: "addr \<Rightarrow> urb"
  tq_hcpriv :: "addr \<Rightarrow> bce_vhci_urb option"
  tq_mq :: bce_vhci_message_queue
  tq_given :: "(addr \<times> int) list"
  tq_mmio :: "(int \<times> u32) list"
  tq_w_reset :: bool
  tq_w_resume :: bool
  tq_w_flush :: bool

text \<open>Assignments to fields of the two structures behind an address.\<close>

definition set_urb :: "addr \<Rightarrow> (urb \<Rightarrow> urb) \<Rightarrow> bce_vhci_transfer_queue \<Rightarrow> bce_vhci_transfer_queue" where
  "set_urb a f q = q\<lparr>tq_urb := (tq_urb q)(a := f (tq_urb q a))\<rparr>"

definition set_vurb :: "addr \<Rightarrow> (bce_vhci_urb \<Rightarrow> bce_vhci_urb) \<Rightarrow> bce_vhci_transfer_queue
    \<Rightarrow> bce_vhci_transfer_queue" where
  "set_vurb a f q = q\<lparr>tq_hcpriv := (tq_hcpriv q)(a := map_option f (tq_hcpriv q a))\<rparr>"

abbreviation set_state :: "addr \<Rightarrow> bce_vhci_urb_state \<Rightarrow> bce_vhci_transfer_queue \<Rightarrow> bce_vhci_transfer_queue" where
  "set_state a s \<equiv> set_vurb a (\<lambda>v. v\<lparr>vu_state := s\<rparr>)"

text \<open>The number of the endpoint, \<open>usb_endpoint_num\<close>.\<close>

definition usb_endpoint_num :: "usb_endpoint \<Rightarrow> u8" where
  "usb_endpoint_num d = ep_address d AND 0x0f"

section \<open>Completing a request\<close>

definition bce_vhci_urb_complete :: "addr \<Rightarrow> int \<Rightarrow> bce_vhci_transfer_queue \<Rightarrow> bce_vhci_transfer_queue option" where
  "bce_vhci_urb_complete a status q =
     do {
       v \<leftarrow> tq_hcpriv q a;
       let q1 = set_urb a (\<lambda>u. u\<lparr>ur_status := status\<rparr>)
         (q\<lparr>tq_urb_list := remove1 a (tq_urb_list q), tq_hcpriv := (tq_hcpriv q)(a := None)\<rparr>);
       let q2 = (if vu_state v \<noteq> URB_INIT_PENDING
         then q1\<lparr>tq_remaining_active_requests := tq_remaining_active_requests q1 + 1\<rparr> else q1);
       Some (q2\<lparr>tq_giveback_urb_list := tq_giveback_urb_list q2 @ [a]\<rparr>)
     }"

text \<open>The lengths of the packets of an isochronous request.\<close>

fun iso_packets :: "nat \<Rightarrow> u32 \<Rightarrow> u32 \<Rightarrow> (u32 \<times> int) list" where
  "iso_packets 0 maxp remaining = []"
| "iso_packets (Suc n) maxp remaining =
     (let pkt_len = min maxp remaining in (pkt_len, 0) # iso_packets n maxp (remaining - pkt_len))"

definition bce_vhci_urb_iso_complete :: "addr \<Rightarrow> bce_vhci_transfer_queue \<Rightarrow> bce_vhci_transfer_queue option" where
  "bce_vhci_urb_iso_complete a q =
     bce_vhci_urb_complete a 0 (set_urb a (\<lambda>u. u\<lparr>ur_error_count := 0,
       ur_iso_frame_desc := iso_packets (ur_number_of_packets u) (ep_maxp (tq_endp q)) (ur_actual_length u)\<rparr>) q)"

definition bce_vhci_transfer_queue_request_reset :: "bce_vhci_transfer_queue \<Rightarrow> bce_vhci_transfer_queue" where
  "bce_vhci_transfer_queue_request_reset q = q\<lparr>tq_w_reset := True\<rparr>"

section \<open>Moving data\<close>

definition post_single :: "u64 \<Rightarrow> u64 \<Rightarrow> bce_queue_sq \<Rightarrow> (int \<times> u32) \<times> bce_queue_sq" where
  "post_single addr len sq =
     (let (s, sq1) = bce_next_submission sq;
          sq2 = sq_store s (El_submission (bce_set_submission_single addr len)) sq1
      in (bce_submit_to_device sq2, sq2))"

text \<open>All callers pass a NULL timeout.\<close>

definition bce_vhci_urb_data_transfer_in :: "addr \<Rightarrow> bce_vhci_transfer_queue
    \<Rightarrow> (int \<times> bce_vhci_transfer_queue) option" where
  "bce_vhci_urb_data_transfer_in a q =
     do {
       v \<leftarrow> tq_hcpriv q a;
       let (reservation1, t, msq) = bce_reserve_submission None [] (mq_sq (tq_mq q));
       let q1 = q\<lparr>tq_mq := (tq_mq q)\<lparr>mq_sq := msq\<rparr>\<rparr>;
       if reservation1 \<noteq> 0 then Some (- ENOMEM, q1)
       else do {
         sqi \<leftarrow> tq_sq_in q1;
         let (reservation2, t, sqi1) = bce_reserve_submission None [] sqi;
         let q2 = q1\<lparr>tq_sq_in := Some sqi1\<rparr>;
         if reservation2 \<noteq> 0
         then Some (- ENOMEM,
           q2\<lparr>tq_mq := (tq_mq q2)\<lparr>mq_sq := bce_cancel_submission_reservation (mq_sq (tq_mq q2))\<rparr>\<rparr>)
         else do {
           let send_offset = vu_receive_offset v;
           let tr_len = ur_transfer_buffer_length (tq_urb q2 a) - send_offset;
           let msg = vhci_cmd BCE_VHCI_CMD_TRANSFER_REQUEST (endpoint_param (tq_dev_addr q2) (tq_endp_addr q2))
             (ucast tr_len);
           let (bell1, mq) = bce_vhci_message_queue_write msg (tq_mq q2);
           let (bell2, sqi2) = post_single (ur_transfer_dma (tq_urb q2 a) + ucast send_offset) (ucast tr_len) sqi1;
           Some (0, set_vurb a (\<lambda>v. v\<lparr>vu_send_offset := send_offset, vu_state := URB_WAITING_FOR_COMPLETION\<rparr>)
             (q2\<lparr>tq_mq := mq, tq_sq_in := Some sqi2, tq_mmio := tq_mmio q2 @ [bell1, bell2]\<rparr>))
         }
       }
     }"

definition bce_vhci_urb_data_start :: "addr \<Rightarrow> bce_vhci_transfer_queue
    \<Rightarrow> (int \<times> bce_vhci_transfer_queue) option" where
  "bce_vhci_urb_data_start a q =
     do {
       v \<leftarrow> tq_hcpriv q a;
       if vu_dir v = DMA_TO_DEVICE
       then Some (0, set_state a (if ur_transfer_buffer_length (tq_urb q a) > 0
              then URB_WAITING_FOR_TRANSFER_REQUEST else URB_DATA_TRANSFER_COMPLETE) q)
       else bce_vhci_urb_data_transfer_in a q
     }"

definition bce_vhci_urb_send_out_data :: "u64 \<Rightarrow> u64 \<Rightarrow> bce_vhci_transfer_queue
    \<Rightarrow> (int \<times> bce_vhci_transfer_queue) option" where
  "bce_vhci_urb_send_out_data addr len q =
     do {
       sqo \<leftarrow> tq_sq_out q;
       let (st, t, sqo1) = bce_reserve_submission (Some 0) [] sqo;
       if st \<noteq> 0 then Some (- EPIPE, q\<lparr>tq_sq_out := Some sqo1\<rparr>)
       else do {
         let (bell, sqo2) = post_single addr len sqo1;
         Some (0, q\<lparr>tq_sq_out := Some sqo2, tq_sq_out_pending := tq_sq_out_pending q + 1,
                 tq_mmio := tq_mmio q @ [bell]\<rparr>)
       }
     }"

definition bce_vhci_urb_init :: "addr \<Rightarrow> bce_vhci_transfer_queue \<Rightarrow> (int \<times> bce_vhci_transfer_queue) option" where
  "bce_vhci_urb_init a q =
     do {
       v \<leftarrow> tq_hcpriv q a;
       if tq_remaining_active_requests q = 0 then Some (- EINVAL, q)
       else do {
         (st, q1) \<leftarrow> (if vu_is_control v
            then Some (0, set_state a URB_CONTROL_WAITING_FOR_SETUP_REQUEST q)
            else bce_vhci_urb_data_start a q);
         Some (st, if st = 0
           then q1\<lparr>tq_remaining_active_requests := tq_remaining_active_requests q1 - 1\<rparr> else q1)
       }
     }"

section \<open>Messages\<close>

definition bce_vhci_urb_data_update :: "addr \<Rightarrow> bce_vhci_message \<Rightarrow> bce_vhci_transfer_queue
    \<Rightarrow> (int \<times> bce_vhci_transfer_queue) option" where
  "bce_vhci_urb_data_update a msg q =
     do {
       v \<leftarrow> tq_hcpriv q a;
       if vu_state v = URB_WAITING_FOR_TRANSFER_REQUEST \<and> vm_cmd msg = BCE_VHCI_CMD_TRANSFER_REQUEST
       then do {
         let u = tq_urb q a;
         let tr_len = min (ur_transfer_buffer_length u - vu_send_offset v) (ucast (vm_param2 msg));
         (st, q1) \<leftarrow> bce_vhci_urb_send_out_data (ur_transfer_dma u + ucast (vu_send_offset v)) (ucast tr_len) q;
         if st \<noteq> 0 then Some (st, q1)
         else Some (0, set_vurb a (\<lambda>v. v\<lparr>vu_send_offset := vu_send_offset v + tr_len,
                vu_state := URB_WAITING_FOR_COMPLETION\<rparr>) q1)
       }
       else Some (- EAGAIN, q)
     }"

definition bce_vhci_urb_control_check_status :: "addr \<Rightarrow> bce_vhci_transfer_queue
    \<Rightarrow> (int \<times> bce_vhci_transfer_queue) option" where
  "bce_vhci_urb_control_check_status a q =
     do {
       v \<leftarrow> tq_hcpriv q a;
       let ok = int (unat BCE_VHCI_SUCCESS);
       if vu_received_status v = 0 then Some (0, q)
       else if vu_state v = URB_DATA_TRANSFER_COMPLETE \<or>
         (vu_received_status v \<noteq> ok \<and> vu_state v \<noteq> URB_CONTROL_WAITING_FOR_SETUP_REQUEST
           \<and> vu_state v \<noteq> URB_CONTROL_WAITING_FOR_SETUP_COMPLETION)
       then do {
         let q1 = set_state a URB_CONTROL_COMPLETE q;
         if vu_received_status v \<noteq> ok
         then do {
           q2 \<leftarrow> bce_vhci_urb_complete a (- EPIPE) (q1\<lparr>tq_active := False, tq_stalled := True\<rparr>);
           Some (- ENOENT, bce_vhci_transfer_queue_request_reset q2)
         }
         else do { q2 \<leftarrow> bce_vhci_urb_complete a 0 q1; Some (- ENOENT, q2) }
       }
       else Some (0, q)
     }"

definition bce_vhci_urb_control_update :: "addr \<Rightarrow> bce_vhci_message \<Rightarrow> bce_vhci_transfer_queue
    \<Rightarrow> (int \<times> bce_vhci_transfer_queue) option" where
  "bce_vhci_urb_control_update a msg q =
     do {
       v \<leftarrow> tq_hcpriv q a;
       if vm_cmd msg = BCE_VHCI_CMD_CONTROL_TRANSFER_STATUS
       then bce_vhci_urb_control_check_status a
         (set_vurb a (\<lambda>v. v\<lparr>vu_received_status := int (unat (vm_status msg))\<rparr>) q)
       else if vu_state v = URB_CONTROL_WAITING_FOR_SETUP_REQUEST
         \<and> vm_cmd msg = BCE_VHCI_CMD_TRANSFER_REQUEST
       then do {
         (st, q1) \<leftarrow> bce_vhci_urb_send_out_data (ur_setup_dma (tq_urb q a)) sizeof_ctrlrequest q;
         Some (0, if st \<noteq> 0 then q1 else set_state a URB_CONTROL_WAITING_FOR_SETUP_COMPLETION q1)
       }
       else if vu_state v = URB_WAITING_FOR_TRANSFER_REQUEST \<or> vu_state v = URB_WAITING_FOR_COMPLETION
       then do {
         (st, q1) \<leftarrow> bce_vhci_urb_data_update a msg q;
         if st \<noteq> 0 then Some (st, q1) else bce_vhci_urb_control_check_status a q1
       }
       else Some (- EAGAIN, q)
     }"

definition bce_vhci_urb_update :: "addr \<Rightarrow> bce_vhci_message \<Rightarrow> bce_vhci_transfer_queue
    \<Rightarrow> (int \<times> bce_vhci_transfer_queue) option" where
  "bce_vhci_urb_update a msg q =
     do {
       v \<leftarrow> tq_hcpriv q a;
       if vu_state v = URB_INIT_PENDING then Some (- EAGAIN, q)
       else if vu_is_control v then bce_vhci_urb_control_update a msg q
       else bce_vhci_urb_data_update a msg q
     }"

section \<open>Completions of transfers\<close>

definition bce_vhci_urb_data_transfer_completion :: "addr \<Rightarrow> bce_sq_completion_data \<Rightarrow> bce_vhci_transfer_queue
    \<Rightarrow> (int \<times> bce_vhci_transfer_queue) option" where
  "bce_vhci_urb_data_transfer_completion a c q =
     do {
       v \<leftarrow> tq_hcpriv q a;
       if vu_state v = URB_WAITING_FOR_COMPLETION
       then do {
         let received = vu_receive_offset v + ucast (cd_data_size c);
         let q1 = set_vurb a (\<lambda>v. v\<lparr>vu_receive_offset := received\<rparr>) q;
         if vu_dir v = DMA_FROM_DEVICE \<or> received \<ge> ur_transfer_buffer_length (tq_urb q a)
         then do {
           let q2 = set_urb a (\<lambda>u. u\<lparr>ur_actual_length := received\<rparr>) (set_state a URB_DATA_TRANSFER_COMPLETE q1);
           if vu_is_control v then Some (0, q2)
           else do {
             q3 \<leftarrow> (if ur_number_of_packets (tq_urb q a) > 0 then bce_vhci_urb_iso_complete a q2
                else bce_vhci_urb_complete a 0 q2);
             Some (- ENOENT, q3)
           }
         }
         else Some (0, q1)
       }
       else Some (0, q)
     }"

definition bce_vhci_urb_control_transfer_completion :: "addr \<Rightarrow> bce_sq_completion_data \<Rightarrow> bce_vhci_transfer_queue
    \<Rightarrow> (int \<times> bce_vhci_transfer_queue) option" where
  "bce_vhci_urb_control_transfer_completion a c q =
     do {
       v \<leftarrow> tq_hcpriv q a;
       if vu_state v = URB_CONTROL_WAITING_FOR_SETUP_COMPLETION
       then do {
         (st, q1) \<leftarrow> bce_vhci_urb_data_start a q;
         if st \<noteq> 0 then do { q2 \<leftarrow> bce_vhci_urb_complete a st q1; Some (- ENOENT, q2) }
         else bce_vhci_urb_control_check_status a q1
       }
       else if vu_state v = URB_WAITING_FOR_TRANSFER_REQUEST \<or> vu_state v = URB_WAITING_FOR_COMPLETION
       then do {
         (st, q1) \<leftarrow> bce_vhci_urb_data_transfer_completion a c q;
         if st \<noteq> 0 then Some (st, q1) else bce_vhci_urb_control_check_status a q1
       }
       else Some (0, q)
     }"

definition bce_vhci_urb_transfer_completion :: "addr \<Rightarrow> bce_sq_completion_data \<Rightarrow> bce_vhci_transfer_queue
    \<Rightarrow> (int \<times> bce_vhci_transfer_queue) option" where
  "bce_vhci_urb_transfer_completion a c q =
     do {
       v \<leftarrow> tq_hcpriv q a;
       if vu_is_control v then bce_vhci_urb_control_transfer_completion a c q
       else bce_vhci_urb_data_transfer_completion a c q
     }"

definition bce_vhci_urb_resume :: "addr \<Rightarrow> bce_vhci_transfer_queue \<Rightarrow> bce_vhci_transfer_queue option" where
  "bce_vhci_urb_resume a q =
     do {
       v \<leftarrow> tq_hcpriv q a;
       (st, q1) \<leftarrow> (if vu_state v = URB_WAITING_FOR_COMPLETION then bce_vhci_urb_data_transfer_in a q
          else Some (0, q));
       if st \<noteq> 0 then bce_vhci_urb_complete a st q1 else Some q1
     }"

end
