(* ===== verification/Vhci_Transfer.thy ===== *)
theory Vhci_Transfer
  imports Vhci_Urb
begin

text \<open>
  The transfer queues of the virtual host controller: submission, cancellation, events,
  completions, pause and resume, reset and flush, creation and destruction
  (the functions on queues of \<open>src/vhci/transfer.c\<close>).

  The handlers run under the queue's spinlock; the ends of the handlers, where the lock is
  dropped and finished requests are given back to the USB core, are part of them. Where a function
  sleeps, what other contexts do to the queue meanwhile is an argument.
\<close>

section \<open>Deferred events and finished requests\<close>

text \<open>\<open>mem\<close>: whether the allocation succeeds.\<close>

definition bce_vhci_transfer_queue_defer_event :: "bool \<Rightarrow> bce_vhci_message \<Rightarrow> bce_vhci_transfer_queue
    \<Rightarrow> bce_vhci_transfer_queue" where
  "bce_vhci_transfer_queue_defer_event mem msg q =
     (if \<not> mem then bce_vhci_transfer_queue_request_reset (q\<lparr>tq_stalled := True\<rparr>)
      else q\<lparr>tq_evq := tq_evq q @ [msg]\<rparr>)"

fun giveback_loop :: "addr list \<Rightarrow> bce_vhci_transfer_queue \<Rightarrow> bce_vhci_transfer_queue" where
  "giveback_loop [] q = q"
| "giveback_loop (a # as) q = giveback_loop as
     (q\<lparr>tq_giveback_urb_list := as, tq_given := tq_given q @ [(a, ur_status (tq_urb q a))]\<rparr>)"

definition bce_vhci_transfer_queue_giveback :: "bce_vhci_transfer_queue \<Rightarrow> bce_vhci_transfer_queue" where
  "bce_vhci_transfer_queue_giveback q = giveback_loop (tq_giveback_urb_list q) q"

definition bce_vhci_transfer_queue_can_init_urb :: "bce_vhci_transfer_queue \<Rightarrow> bool" where
  "bce_vhci_transfer_queue_can_init_urb q \<longleftrightarrow> tq_remaining_active_requests q > 0"

fun init_pending_loop :: "addr list \<Rightarrow> bce_vhci_transfer_queue \<Rightarrow> bce_vhci_transfer_queue option" where
  "init_pending_loop [] q = Some q"
| "init_pending_loop (a # as) q =
     do {
       v \<leftarrow> tq_hcpriv q a;
       if \<not> bce_vhci_transfer_queue_can_init_urb q then Some q
       else if vu_state v = URB_INIT_PENDING
       then do { (st, q1) \<leftarrow> bce_vhci_urb_init a q; init_pending_loop as q1 }
       else init_pending_loop as q
     }"

definition bce_vhci_transfer_queue_init_pending_urbs :: "bce_vhci_transfer_queue
    \<Rightarrow> bce_vhci_transfer_queue option" where
  "bce_vhci_transfer_queue_init_pending_urbs q = init_pending_loop (tq_urb_list q) q"

text \<open>The loop over the deferred events: it stops at the first one that is not taken.\<close>

fun deliver_loop :: "bce_vhci_message list \<Rightarrow> bce_vhci_transfer_queue \<Rightarrow> bce_vhci_transfer_queue option" where
  "deliver_loop [] q = Some q"
| "deliver_loop (m # ms) q =
     (case tq_urb_list q of
        [] \<Rightarrow> Some q
      | a # as \<Rightarrow> do {
          (st, q1) \<leftarrow> bce_vhci_urb_update a m q;
          if st = - EAGAIN then Some q1 else deliver_loop ms (q1\<lparr>tq_evq := ms\<rparr>)
        })"

definition bce_vhci_transfer_queue_deliver_pending :: "bce_vhci_transfer_queue
    \<Rightarrow> bce_vhci_transfer_queue option" where
  "bce_vhci_transfer_queue_deliver_pending q =
     do { q1 \<leftarrow> deliver_loop (tq_evq q) q; bce_vhci_transfer_queue_init_pending_urbs q1 }"

definition bce_vhci_transfer_queue_remove_pending :: "bce_vhci_transfer_queue \<Rightarrow> bce_vhci_transfer_queue" where
  "bce_vhci_transfer_queue_remove_pending q = q\<lparr>tq_evq := []\<rparr>"

fun complete_all :: "int \<Rightarrow> addr list \<Rightarrow> bce_vhci_transfer_queue \<Rightarrow> bce_vhci_transfer_queue option" where
  "complete_all st [] q = Some q"
| "complete_all st (a # as) q = do { q1 \<leftarrow> bce_vhci_urb_complete a st q; complete_all st as q1 }"

text \<open>The endpoint's pointer to the queue, cleared here as well, belongs to the endpoint.\<close>

definition bce_vhci_transfer_queue_cancel_all :: "bce_vhci_transfer_queue \<Rightarrow> bce_vhci_transfer_queue option" where
  "bce_vhci_transfer_queue_cancel_all q =
     do {
       q1 \<leftarrow> complete_all (- ECONNRESET) (tq_urb_list q) (q\<lparr>tq_active := False\<rparr>);
       Some (bce_vhci_transfer_queue_giveback q1)
     }"

section \<open>Events and completions\<close>

definition transfer_event :: "bool \<Rightarrow> bce_vhci_message \<Rightarrow> bce_vhci_transfer_queue
    \<Rightarrow> bce_vhci_transfer_queue option" where
  "transfer_event mem msg q =
     (if \<not> tq_active q then
        Some (if vm_cmd msg = BCE_VHCI_CMD_TRANSFER_REQUEST \<and> tq_endp_addr q = 0
                \<and> tq_paused_by q AND BCE_VHCI_PAUSE_INTERNAL_WQ \<noteq> 0
          then bce_vhci_transfer_queue_defer_event mem msg q else q)
      else do {
        q1 \<leftarrow> bce_vhci_transfer_queue_deliver_pending q;
        if vm_cmd msg = BCE_VHCI_CMD_TRANSFER_REQUEST \<and> (tq_evq q1 \<noteq> [] \<or> tq_urb_list q1 = [])
        then Some (bce_vhci_transfer_queue_defer_event mem msg q1)
        else case tq_urb_list q1 of
          [] \<Rightarrow> Some q1
        | a # as \<Rightarrow> do {
            (st, q2) \<leftarrow> bce_vhci_urb_update a msg q1;
            if st = - EAGAIN then Some (bce_vhci_transfer_queue_defer_event mem msg q2)
            else bce_vhci_transfer_queue_init_pending_urbs q2
          }
      })"

definition bce_vhci_transfer_queue_event :: "bool \<Rightarrow> bce_vhci_message \<Rightarrow> bce_vhci_transfer_queue
    \<Rightarrow> bce_vhci_transfer_queue option" where
  "bce_vhci_transfer_queue_event mem msg q =
     map_option bce_vhci_transfer_queue_giveback (transfer_event mem msg q)"

text \<open>The ring whose completions are handled: \<open>sq_out\<close> or \<open>sq_in\<close>.\<close>

definition tq_sq :: "bool \<Rightarrow> bce_vhci_transfer_queue \<Rightarrow> bce_queue_sq option" where
  "tq_sq out q = (if out then tq_sq_out q else tq_sq_in q)"

definition set_tq_sq :: "bool \<Rightarrow> bce_queue_sq \<Rightarrow> bce_vhci_transfer_queue \<Rightarrow> bce_vhci_transfer_queue" where
  "set_tq_sq out sq q = (if out then q\<lparr>tq_sq_out := Some sq\<rparr> else q\<lparr>tq_sq_in := Some sq\<rparr>)"

text \<open>The count of pending outputs goes down, and the completion's slot is freed.\<close>

definition retire_one :: "bool \<Rightarrow> bce_vhci_transfer_queue \<Rightarrow> bce_vhci_transfer_queue" where
  "retire_one out q =
     (let q1 = (if out then q\<lparr>tq_sq_out_pending := snd (atomic_dec_if_positive (tq_sq_out_pending q))\<rparr> else q)
      in case tq_sq out q1 of
           None \<Rightarrow> q1
         | Some sq \<Rightarrow> set_tq_sq out (bce_notify_submission_complete sq) q1)"

definition transfer_complete_one :: "bool \<Rightarrow> bce_sq_completion_data \<Rightarrow> bce_vhci_transfer_queue
    \<Rightarrow> bce_vhci_transfer_queue option" where
  "transfer_complete_one out c q =
     (if cd_status c = BCE_COMPLETION_ABORTED then Some (retire_one out q)
      else if \<not> out \<and> tq_ghost_in_count q > 0 then
        map_option (retire_one out) (bce_vhci_transfer_queue_init_pending_urbs
          (q\<lparr>tq_ghost_in_count := tq_ghost_in_count q - 1,
             tq_remaining_active_requests := tq_remaining_active_requests q + 1\<rparr>))
      else if out \<and> tq_ghost_out_count q > 0 then
        map_option (retire_one out) (bce_vhci_transfer_queue_init_pending_urbs
          (q\<lparr>tq_ghost_out_count := tq_ghost_out_count q - 1,
             tq_remaining_active_requests := tq_remaining_active_requests q + 1\<rparr>))
      else case tq_urb_list q of
        [] \<Rightarrow> Some (retire_one out q)
      | a # as \<Rightarrow> do {
          v \<leftarrow> tq_hcpriv q a;
          if vu_state v = URB_INIT_PENDING then Some (retire_one out q)
          else do {
            (st, q1) \<leftarrow> bce_vhci_urb_transfer_completion a c q;
            Some (retire_one out q1)
          }
        })"

definition transfer_next :: "bool \<Rightarrow> bce_vhci_transfer_queue option
    \<Rightarrow> bce_sq_completion_data option \<times> bce_vhci_transfer_queue option" where
  "transfer_next out s =
     (case s of
        None \<Rightarrow> (None, None)
      | Some q \<Rightarrow>
          (case tq_sq out q of
             None \<Rightarrow> (None, None)
           | Some sq \<Rightarrow> (case bce_next_completion sq of (c, sq') \<Rightarrow> (c, Some (set_tq_sq out sq' q)))))"

definition transfer_handle :: "bool \<Rightarrow> bce_sq_completion_data \<Rightarrow> bce_vhci_transfer_queue option
    \<Rightarrow> bce_vhci_transfer_queue option" where
  "transfer_handle out c s = Option.bind s (transfer_complete_one out c)"

text \<open>The outer option is the loop's termination, the inner one the absence of a fault.\<close>

definition bce_vhci_transfer_queue_completion :: "bool \<Rightarrow> bce_vhci_transfer_queue
    \<Rightarrow> bce_vhci_transfer_queue option option" where
  "bce_vhci_transfer_queue_completion out q =
     map_option (\<lambda>s. do {
         q1 \<leftarrow> s;
         q2 \<leftarrow> bce_vhci_transfer_queue_deliver_pending q1;
         Some (bce_vhci_transfer_queue_giveback q2)
       }) (completion_loop (transfer_next out) (transfer_handle out) (Some q))"

section \<open>Submission and cancellation\<close>

definition new_vurb :: "addr \<Rightarrow> bce_vhci_transfer_queue \<Rightarrow> bce_vhci_urb" where
  "new_vurb a q = \<lparr>vu_dir = (if ur_dir_in (tq_urb q a) then DMA_FROM_DEVICE else DMA_TO_DEVICE),
     vu_is_control = (usb_endpoint_num (tq_endp q) = 0), vu_state = URB_INIT_PENDING,
     vu_received_status = 0, vu_send_offset = 0, vu_receive_offset = 0\<rparr>"

text \<open>
  \<open>mem\<close>: whether the allocation succeeds; \<open>link\<close>: what \<open>usb_hcd_link_urb_to_ep\<close> returns, which
  appends the request to the endpoint's list when it is zero.
\<close>

definition bce_vhci_urb_create :: "bool \<Rightarrow> int \<Rightarrow> addr \<Rightarrow> bce_vhci_transfer_queue
    \<Rightarrow> (int \<times> bce_vhci_transfer_queue) option" where
  "bce_vhci_urb_create mem link a q =
     (if \<not> mem then Some (- ENOMEM, q)
      else if link \<noteq> 0 then Some (link, q\<lparr>tq_hcpriv := (tq_hcpriv q)(a := None)\<rparr>)
      else do {
        let q1 = q\<lparr>tq_hcpriv := (tq_hcpriv q)(a \<mapsto> new_vurb a q), tq_urb_list := tq_urb_list q @ [a]\<rparr>;
        (st, q2) \<leftarrow>
          (if tq_active q1 then
             (if bce_vhci_transfer_queue_can_init_urb q1 then bce_vhci_urb_init a q1 else Some (0, q1))
           else Some (0,
             if tq_stalled q1 then bce_vhci_transfer_queue_request_reset q1
             else if tq_paused_by q1 AND BCE_VHCI_PAUSE_INTERNAL_WQ \<noteq> 0 then q1\<lparr>tq_w_resume := True\<rparr>
             else q1));
        q3 \<leftarrow> (if st \<noteq> 0
          then Some (q2\<lparr>tq_urb_list := remove1 a (tq_urb_list q2), tq_hcpriv := (tq_hcpriv q2)(a := None)\<rparr>)
          else bce_vhci_transfer_queue_deliver_pending q2);
        Some (st, bce_vhci_transfer_queue_giveback q3)
      })"

text \<open>\<open>check\<close>: what \<open>usb_hcd_check_unlink_urb\<close> returns, zero only for a linked request.\<close>

definition bce_vhci_urb_request_cancel :: "int \<Rightarrow> addr \<Rightarrow> int \<Rightarrow> bce_vhci_transfer_queue
    \<Rightarrow> (int \<times> bce_vhci_transfer_queue) option" where
  "bce_vhci_urb_request_cancel check a status q =
     (if check \<noteq> 0 then Some (check, q)
      else do {
        v \<leftarrow> tq_hcpriv q a;
        let old_state = vu_state v;
        if old_state = URB_CANCELLED then Some (0, q)
        else do {
          let control_flush = (old_state \<noteq> URB_INIT_PENDING \<and> vu_is_control v);
          let q1 =
            (if old_state = URB_INIT_PENDING \<or> vu_is_control v then q
             else if old_state = URB_WAITING_FOR_COMPLETION then
               (if vu_dir v = DMA_FROM_DEVICE then q\<lparr>tq_ghost_in_count := tq_ghost_in_count q + 1\<rparr>
                else q\<lparr>tq_ghost_out_count := tq_ghost_out_count q + 1\<rparr>)
             else q\<lparr>tq_remaining_active_requests := tq_remaining_active_requests q + 1\<rparr>);
          let q2 = q1\<lparr>tq_urb_list := remove1 a (tq_urb_list q1), tq_hcpriv := (tq_hcpriv q1)(a := None)\<rparr>;
          if control_flush \<or> ((tq_ghost_in_count q2 > 0 \<or> tq_ghost_out_count q2 > 0) \<and> tq_urb_list q2 = [])
          then Some (0, set_urb a (\<lambda>u. u\<lparr>ur_status := status\<rparr>)
            (q2\<lparr>tq_flush_giveback_list := tq_flush_giveback_list q2 @ [a], tq_w_flush := True\<rparr>))
          else Some (0, q2\<lparr>tq_given := tq_given q2 @ [(a, status)]\<rparr>)
        }
      })"

section \<open>Pause and resume\<close>

text \<open>
  The surroundings of a pause or resume: whether a recovery runs, what happens to the queue
  while the pause waits for pending outputs and while the state command runs, the answers to
  that command, and the effect of the two flush commands with the completions they cause.
\<close>

record pause_env =
  pe_recovering :: bool
  pe_wait :: "bce_vhci_transfer_queue \<Rightarrow> bce_vhci_transfer_queue"
  pe_cmd :: exec_env
  pe_cmd_act :: "bce_vhci_transfer_queue \<Rightarrow> bce_vhci_transfer_queue"
  pe_flush_in :: "bce_vhci_transfer_queue \<Rightarrow> bce_vhci_transfer_queue"
  pe_flush_out :: "bce_vhci_transfer_queue \<Rightarrow> bce_vhci_transfer_queue"

definition flush_rings :: "pause_env \<Rightarrow> bce_vhci_transfer_queue \<Rightarrow> bce_vhci_transfer_queue" where
  "flush_rings env q =
     (let q1 = (if tq_sq_in q \<noteq> None then pe_flush_in env q else q)
      in if tq_sq_out q1 \<noteq> None then pe_flush_out env q1 else q1)"

text \<open>The state command with the store through its result pointer.\<close>

definition endpoint_set_state :: "(nat \<Rightarrow> nat) \<Rightarrow> pause_env \<Rightarrow> u32 \<Rightarrow> bce_vhci_transfer_queue \<Rightarrow> bce_vhci_command_queue
    \<Rightarrow> int \<times> bce_vhci_transfer_queue \<times> bce_vhci_command_queue" where
  "endpoint_set_state jif env s q cq =
     (case bce_vhci_cmd_endpoint_set_state jif (pe_cmd env) (tq_dev_addr q) (tq_endp_addr q) s cq of
        (st, res, cq') \<Rightarrow>
          let q1 = pe_cmd_act env q
          in (st, (case res of None \<Rightarrow> q1 | Some x \<Rightarrow> q1\<lparr>tq_state := x\<rparr>), cq'))"

definition bce_vhci_transfer_queue_do_pause :: "(nat \<Rightarrow> nat) \<Rightarrow> pause_env \<Rightarrow> bce_vhci_transfer_queue
    \<Rightarrow> bce_vhci_command_queue \<Rightarrow> int \<times> bce_vhci_transfer_queue \<times> bce_vhci_command_queue" where
  "bce_vhci_transfer_queue_do_pause jif env q cq =
     (let q1 = bce_vhci_transfer_queue_remove_pending (q\<lparr>tq_active := False\<rparr>) in
      if pe_recovering env then (0, q1, cq)
      else
        let q2 = (if tq_sq_out q1 \<noteq> None \<and> tq_sq_out_pending q1 > 0 then pe_wait env q1 else q1);
            (st, q3, cq1) = endpoint_set_state jif env BCE_VHCI_ENDPOINT_PAUSED q2 cq
        in if st = 0 \<and> tq_state q3 \<noteq> BCE_VHCI_ENDPOINT_PAUSED then (- EINVAL, q3, cq1)
           else (0, flush_rings env q3, cq1))"

fun resume_loop :: "addr list \<Rightarrow> bce_vhci_transfer_queue \<Rightarrow> bce_vhci_transfer_queue option" where
  "resume_loop [] q = Some q"
| "resume_loop (a # as) q =
     do {
       v \<leftarrow> tq_hcpriv q a;
       if vu_state v = URB_INIT_PENDING
       then (if \<not> bce_vhci_transfer_queue_can_init_urb q then Some q
             else do { (st, q1) \<leftarrow> bce_vhci_urb_init a q; resume_loop as q1 })
       else do { q1 \<leftarrow> bce_vhci_urb_resume a q; resume_loop as q1 }
     }"

definition bce_vhci_transfer_queue_do_resume :: "(nat \<Rightarrow> nat) \<Rightarrow> pause_env \<Rightarrow> bce_vhci_transfer_queue
    \<Rightarrow> bce_vhci_command_queue \<Rightarrow> (int \<times> bce_vhci_transfer_queue \<times> bce_vhci_command_queue) option" where
  "bce_vhci_transfer_queue_do_resume jif env q cq =
     (let (st, q1, cq1) = endpoint_set_state jif env BCE_VHCI_ENDPOINT_ACTIVE q cq in
      if st \<noteq> 0 then Some (st, q1, cq1)
      else if tq_state q1 \<noteq> BCE_VHCI_ENDPOINT_ACTIVE then Some (- EINVAL, q1, cq1)
      else do {
        q2 \<leftarrow> resume_loop (tq_urb_list q1) (q1\<lparr>tq_active := True\<rparr>);
        q3 \<leftarrow> bce_vhci_transfer_queue_deliver_pending q2;
        Some (0, q3, cq1)
      })"

definition bce_vhci_transfer_queue_pause :: "(nat \<Rightarrow> nat) \<Rightarrow> pause_env \<Rightarrow> u32 \<Rightarrow> bce_vhci_transfer_queue
    \<Rightarrow> bce_vhci_command_queue \<Rightarrow> int \<times> bce_vhci_transfer_queue \<times> bce_vhci_command_queue" where
  "bce_vhci_transfer_queue_pause jif env src q cq =
     (if tq_paused_by q AND src \<noteq> src then
        let (ret, q1, cq1) = (if tq_paused_by q = 0 then bce_vhci_transfer_queue_do_pause jif env q cq
              else (0, q, cq))
        in (ret, if ret = 0 then q1\<lparr>tq_paused_by := tq_paused_by q1 OR src\<rparr> else q1, cq1)
      else (0, q, cq))"

definition bce_vhci_transfer_queue_resume :: "(nat \<Rightarrow> nat) \<Rightarrow> pause_env \<Rightarrow> u32 \<Rightarrow> bce_vhci_transfer_queue
    \<Rightarrow> bce_vhci_command_queue \<Rightarrow> (int \<times> bce_vhci_transfer_queue \<times> bce_vhci_command_queue) option" where
  "bce_vhci_transfer_queue_resume jif env src q cq =
     (if tq_paused_by q AND src \<noteq> 0 then do {
        (ret, q1, cq1) \<leftarrow> (if tq_paused_by q AND NOT src = 0
           then bce_vhci_transfer_queue_do_resume jif env q cq else Some (0, q, cq));
        Some (ret, if ret = 0 then q1\<lparr>tq_paused_by := tq_paused_by q1 AND NOT src\<rparr> else q1, cq1)
      }
      else Some (0, q, cq))"

section \<open>Workers\<close>

text \<open>The reset worker. \<open>env1\<close> is around the reset command, \<open>env2\<close> around the resume.\<close>

definition bce_vhci_transfer_queue_reset_w :: "(nat \<Rightarrow> nat) \<Rightarrow> pause_env \<Rightarrow> pause_env \<Rightarrow> bce_vhci_transfer_queue
    \<Rightarrow> bce_vhci_command_queue \<Rightarrow> (bce_vhci_transfer_queue \<times> bce_vhci_command_queue) option" where
  "bce_vhci_transfer_queue_reset_w jif env1 env2 q cq =
     (if \<not> tq_stalled q then Some (q, cq)
      else
        let q1 = bce_vhci_transfer_queue_remove_pending
              (q\<lparr>tq_active := False, tq_paused_by := tq_paused_by q OR BCE_VHCI_PAUSE_INTERNAL_WQ\<rparr>);
            q2 = flush_rings env1 q1;
            (st, cq1) = bce_vhci_cmd_endpoint_reset jif (pe_cmd env1) (tq_dev_addr q2)
              (ep_address (tq_endp q2) AND 0x8F) cq;
            q3 = (pe_cmd_act env1 q2)\<lparr>tq_stalled := False\<rparr>
        in map_option snd (bce_vhci_transfer_queue_resume jif env2 BCE_VHCI_PAUSE_INTERNAL_WQ q3 cq1))"

definition bce_vhci_transfer_queue_deferred_resume_w :: "(nat \<Rightarrow> nat) \<Rightarrow> pause_env \<Rightarrow> bce_vhci_transfer_queue
    \<Rightarrow> bce_vhci_command_queue \<Rightarrow> (bce_vhci_transfer_queue \<times> bce_vhci_command_queue) option" where
  "bce_vhci_transfer_queue_deferred_resume_w jif env q cq =
     map_option snd (bce_vhci_transfer_queue_resume jif env BCE_VHCI_PAUSE_INTERNAL_WQ q cq)"

text \<open>The part of the flush worker under the lock, and the whole worker.\<close>

definition flush_slots :: "bce_vhci_transfer_queue \<Rightarrow> bce_vhci_transfer_queue" where
  "flush_slots q = q\<lparr>tq_ghost_in_count := 0, tq_ghost_out_count := 0,
     tq_remaining_active_requests := tq_max_active_requests q,
     tq_giveback_urb_list := tq_giveback_urb_list q @ tq_flush_giveback_list q,
     tq_flush_giveback_list := []\<rparr>"

definition bce_vhci_transfer_queue_flush_w :: "(nat \<Rightarrow> nat) \<Rightarrow> pause_env \<Rightarrow> pause_env \<Rightarrow> pause_env
    \<Rightarrow> bce_vhci_transfer_queue \<Rightarrow> bce_vhci_command_queue
    \<Rightarrow> (bce_vhci_transfer_queue \<times> bce_vhci_command_queue) option" where
  "bce_vhci_transfer_queue_flush_w jif env1 env2 env3 q cq =
     (let (ret, q1, cq1) = bce_vhci_transfer_queue_pause jif env1 BCE_VHCI_PAUSE_INTERNAL_WQ q cq;
          (q2, cq2) = (if tq_endp_addr q1 = 0
             then (pe_cmd_act env2 q1, snd (bce_vhci_cmd_endpoint_reset jif (pe_cmd env2) (tq_dev_addr q1) 0 cq1))
             else (q1, cq1))
      in do {
        (ret', q3, cq3) \<leftarrow> bce_vhci_transfer_queue_resume jif env3 BCE_VHCI_PAUSE_INTERNAL_WQ (flush_slots q2) cq2;
        Some (bce_vhci_transfer_queue_giveback q3, cq3)
      })"


section \<open>Creation and destruction\<close>

abbreviation BCE_VHCI_BULK_MAX_ACTIVE_URBS :: u32 where "BCE_VHCI_BULK_MAX_ACTIVE_URBS \<equiv> 8"
abbreviation BCE_VHCI_ISOC_MAX_ACTIVE_URBS :: u32 where "BCE_VHCI_ISOC_MAX_ACTIVE_URBS \<equiv> 4"

definition max_active_urbs :: "usb_endpoint \<Rightarrow> u32" where
  "max_active_urbs endp =
     (if ep_type endp = USB_ENDPOINT_XFER_BULK then BCE_VHCI_BULK_MAX_ACTIVE_URBS
      else if ep_type endp = USB_ENDPOINT_XFER_ISOC then BCE_VHCI_ISOC_MAX_ACTIVE_URBS else 1)"

text \<open>The assignments before the completion queue is created, and those up to the rings.\<close>

definition transfer_queue_fields :: "usb_endpoint \<Rightarrow> u8 \<Rightarrow> bce_vhci_transfer_queue \<Rightarrow> bce_vhci_transfer_queue" where
  "transfer_queue_fields endp dev_addr q =
     q\<lparr>tq_endp := endp, tq_state := BCE_VHCI_ENDPOINT_ACTIVE, tq_max_active_requests := max_active_urbs endp,
       tq_remaining_active_requests := max_active_urbs endp, tq_active := True, tq_stalled := False,
       tq_paused_by := 0, tq_dev_addr := dev_addr, tq_endp_addr := ep_address endp AND 0x8F,
       tq_evq := [], tq_giveback_urb_list := [], tq_sq_out_pending := 0\<rparr>"

definition transfer_queue_init :: "usb_endpoint \<Rightarrow> u8 \<Rightarrow> bce_vhci_transfer_queue \<Rightarrow> bce_vhci_transfer_queue" where
  "transfer_queue_init endp dev_addr q =
     (transfer_queue_fields endp dev_addr q)\<lparr>tq_w_reset := False, tq_w_resume := False, tq_w_flush := False,
       tq_flush_giveback_list := [], tq_ghost_in_count := 0, tq_ghost_out_count := 0, tq_sq_in := None, tq_sq_out := None\<rparr>"

text \<open>The name of a ring: \<open>VHC1-%i-%02x\<close>.\<close>

fun decimal :: "nat \<Rightarrow> u8 list" where
  "decimal n = (if n < 10 then [of_nat (48 + n)] else decimal (n div 10) @ [of_nat (48 + n mod 10)])"

definition hex_digit :: "nat \<Rightarrow> u8" where
  "hex_digit n = of_nat (if n < 10 then 48 + n else 87 + n)"

definition transfer_ring_name :: "u8 \<Rightarrow> u8 \<Rightarrow> u8 list" where
  "transfer_ring_name dev ep = [86, 72, 67, 49, 45] @ decimal (unat dev) @ [45]
     @ [hex_digit (unat ep div 16), hex_digit (unat ep mod 16)]"

record transfer_env =
  te_cq :: alloc_env
  te_in :: alloc_env
  te_out :: alloc_env
  te_undo :: cmd_env
  te_undo_res :: addr

record transfer_ptrs =
  tp_cq :: addr
  tp_in :: "addr option"
  tp_out :: "addr option"

text \<open>One of the two rings, if the direction asks for it; the first component tells success.\<close>

definition create_ring :: "ida_alloc \<Rightarrow> alloc_env \<Rightarrow> bool \<Rightarrow> addr \<Rightarrow> u8 list \<Rightarrow> int \<Rightarrow> addr \<Rightarrow> apple_bce_device
    \<Rightarrow> bool \<times> addr option \<times> apple_bce_device" where
  "create_ring ida al wanted cq name direction self dev =
     (if \<not> wanted then (True, None, dev)
      else case bce_create_sq ida al (Some cq) (Some name) 0x100 direction Cb_vhci_transfer_queue_completion self dev of
        (None, dev') \<Rightarrow> (False, None, dev')
      | (Some a, dev') \<Rightarrow> (True, Some a, dev'))"

definition destroy_ring :: "addr \<Rightarrow> cmd_env \<Rightarrow> addr option \<Rightarrow> apple_bce_device \<Rightarrow> apple_bce_device" where
  "destroy_ring r env sq dev = (case sq of None \<Rightarrow> dev | Some a \<Rightarrow> bce_destroy_sq r env a dev)"

definition bce_vhci_create_transfer_queue :: "ida_alloc \<Rightarrow> transfer_env \<Rightarrow> usb_endpoint \<Rightarrow> u8 \<Rightarrow> int \<Rightarrow> addr
    \<Rightarrow> apple_bce_device \<Rightarrow> bce_vhci_transfer_queue
    \<Rightarrow> int \<times> transfer_ptrs option \<times> bce_vhci_transfer_queue \<times> apple_bce_device" where
  "bce_vhci_create_transfer_queue ida env endp dev_addr dir self dev q =
     (let q1 = transfer_queue_init endp dev_addr q in
      case bce_create_cq ida (te_cq env) 0x100 dev of
        (None, dev1) \<Rightarrow> (- ENOMEM, None, transfer_queue_fields endp dev_addr q, dev1)
      | (Some cq, dev1) \<Rightarrow>
          (case create_ring ida (te_in env) (dir = DMA_FROM_DEVICE \<or> dir = DMA_BIDIRECTIONAL) cq
              (transfer_ring_name dev_addr (0x80 OR usb_endpoint_num endp)) DMA_FROM_DEVICE self dev1 of
             (ok, sq_in, dev2) \<Rightarrow>
               if \<not> ok then (- ENOMEM, None, q1, bce_destroy_cq (te_undo_res env) (te_undo env) cq dev2)
               else
                 (case create_ring ida (te_out env) (dir = DMA_TO_DEVICE \<or> dir = DMA_BIDIRECTIONAL) cq
                     (transfer_ring_name dev_addr (usb_endpoint_num endp)) DMA_TO_DEVICE self dev2 of
                    (ok', sq_out, dev3) \<Rightarrow>
                      if \<not> ok' then (- ENOMEM, None, q1, bce_destroy_cq (te_undo_res env) (te_undo env) cq
                          (destroy_ring (te_undo_res env) (te_undo env) sq_in dev3))
                      else (0, Some \<lparr>tp_cq = cq, tp_in = sq_in, tp_out = sq_out\<rparr>,
                        q1\<lparr>tq_sq_in := Option.bind sq_in (sq_at dev3), tq_sq_out := Option.bind sq_out (sq_at dev3)\<rparr>,
                        dev3))))"

text \<open>The host side of the destruction, and the rings.\<close>

definition transfer_queue_teardown :: "bce_vhci_transfer_queue \<Rightarrow> bce_vhci_transfer_queue" where
  "transfer_queue_teardown q =
     bce_vhci_transfer_queue_remove_pending (bce_vhci_transfer_queue_giveback
       (q\<lparr>tq_w_resume := False, tq_w_reset := False, tq_w_flush := False,
          tq_giveback_urb_list := tq_giveback_urb_list q @ tq_flush_giveback_list q,
          tq_flush_giveback_list := []\<rparr>))"

definition bce_vhci_destroy_transfer_queue :: "addr \<Rightarrow> cmd_env \<Rightarrow> transfer_ptrs \<Rightarrow> apple_bce_device
    \<Rightarrow> bce_vhci_transfer_queue \<Rightarrow> bce_vhci_transfer_queue \<times> apple_bce_device" where
  "bce_vhci_destroy_transfer_queue r env p dev q =
     (transfer_queue_teardown q,
      bce_destroy_cq r env (tp_cq p) (destroy_ring r env (tp_out p) (destroy_ring r env (tp_in p) dev)))"

end
