(* ===== verification/Vhci_Slots.thy ===== *)
theory Vhci_Slots
  imports Vhci_Transfer
begin

text \<open>
  The accounting of request slots on a transfer queue: an invariant of the queue, and that no
  operation of \<open>src/vhci/transfer.c\<close> on a well-formed queue dereferences a NULL pointer or breaks it.
\<close>

section \<open>Accounting of request slots\<close>

text \<open>
  A request that was started occupies one of the endpoint's slots until it completes; after a
  cancellation the slot stays taken by a ghost until the device completes it, or, for a
  control request, until the flush.
\<close>

definition is_control_queue :: "bce_vhci_transfer_queue \<Rightarrow> bool" where
  "is_control_queue q \<longleftrightarrow> usb_endpoint_num (tq_endp q) = 0"

definition pending_urb :: "bce_vhci_transfer_queue \<Rightarrow> addr \<Rightarrow> bool option" where
  "pending_urb q a = map_option (\<lambda>v. vu_state v = URB_INIT_PENDING) (tq_hcpriv q a)"

definition control_urb :: "bce_vhci_transfer_queue \<Rightarrow> addr \<Rightarrow> bool option" where
  "control_urb q a = map_option vu_is_control (tq_hcpriv q a)"

definition started_urbs :: "bce_vhci_transfer_queue \<Rightarrow> nat" where
  "started_urbs q = length (filter (\<lambda>a. pending_urb q a = Some False) (tq_urb_list q))"

definition slots_in_use :: "bce_vhci_transfer_queue \<Rightarrow> nat" where
  "slots_in_use q = started_urbs q + nat (tq_ghost_in_count q) + nat (tq_ghost_out_count q)
     + (if is_control_queue q then length (tq_flush_giveback_list q) else 0)"

definition lists_ok :: "bce_vhci_transfer_queue \<Rightarrow> bool" where
  "lists_ok q \<longleftrightarrow> distinct (tq_urb_list q @ tq_giveback_urb_list q @ tq_flush_giveback_list q)
     \<and> (\<forall>a. a \<in> set (tq_urb_list q) \<longleftrightarrow> pending_urb q a \<noteq> None)
     \<and> (\<forall>a. control_urb q a \<noteq> Some (\<not> is_control_queue q))"

definition slots_ok :: "bce_vhci_transfer_queue \<Rightarrow> bool" where
  "slots_ok q \<longleftrightarrow> 0 \<le> tq_ghost_in_count q \<and> 0 \<le> tq_ghost_out_count q
     \<and> (is_control_queue q \<longrightarrow> tq_ghost_in_count q = 0 \<and> tq_ghost_out_count q = 0)
     \<and> unat (tq_remaining_active_requests q) + slots_in_use q = unat (tq_max_active_requests q)
     \<and> unat (tq_max_active_requests q) \<le> 8"

definition tq_inv :: "bce_vhci_transfer_queue \<Rightarrow> bool" where
  "tq_inv q \<longleftrightarrow> lists_ok q \<and> slots_ok q"

text \<open>What the invariant depends on.\<close>

definition slot_view :: "bce_vhci_transfer_queue \<Rightarrow> _" where
  "slot_view q = (tq_urb_list q, pending_urb q, control_urb q,
     tq_remaining_active_requests q, tq_max_active_requests q, tq_ghost_in_count q, tq_ghost_out_count q,
     tq_giveback_urb_list q, tq_flush_giveback_list q, tq_endp q)"

lemma tq_inv_view:
  assumes "slot_view q' = slot_view q" and "tq_inv q"
  shows "tq_inv q'"
proof -
  have "is_control_queue q' = is_control_queue q" "slots_in_use q' = slots_in_use q"
    using assms(1) by (simp_all add: slot_view_def slots_in_use_def started_urbs_def is_control_queue_def)
  with assms show ?thesis by (simp add: slot_view_def tq_inv_def lists_ok_def slots_ok_def)
qed

text \<open>Changes of the driver's structure that leave a request started, or waiting.\<close>

lemma set_urb_view [simp]: "slot_view (set_urb a f q) = slot_view q"
  by (simp add: slot_view_def set_urb_def pending_urb_def [abs_def] control_urb_def [abs_def])

lemma set_vurb_view:
  assumes "\<And>v. tq_hcpriv q a = Some v
      \<Longrightarrow> (vu_state (f v) = URB_INIT_PENDING) = (vu_state v = URB_INIT_PENDING) \<and> vu_is_control (f v) = vu_is_control v"
  shows "slot_view (set_vurb a f q) = slot_view q"
  using assms by (auto simp: slot_view_def set_vurb_def pending_urb_def control_urb_def fun_eq_iff map_option_case
      split: option.splits)

lemma post_view [simp]:
  "slot_view (q\<lparr>tq_mq := m\<rparr>) = slot_view q" "slot_view (q\<lparr>tq_sq_in := x\<rparr>) = slot_view q"
  "slot_view (q\<lparr>tq_sq_out := x\<rparr>) = slot_view q" "slot_view (q\<lparr>tq_mmio := y\<rparr>) = slot_view q"
  "slot_view (q\<lparr>tq_sq_out_pending := n\<rparr>) = slot_view q" "slot_view (q\<lparr>tq_active := b\<rparr>) = slot_view q"
  "slot_view (q\<lparr>tq_stalled := b\<rparr>) = slot_view q" "slot_view (q\<lparr>tq_evq := e\<rparr>) = slot_view q"
  "slot_view (q\<lparr>tq_w_reset := b\<rparr>) = slot_view q" "slot_view (q\<lparr>tq_w_resume := b\<rparr>) = slot_view q"
  "slot_view (q\<lparr>tq_w_flush := b\<rparr>) = slot_view q" "slot_view (q\<lparr>tq_given := g\<rparr>) = slot_view q"
  "slot_view (q\<lparr>tq_paused_by := p\<rparr>) = slot_view q" "slot_view (q\<lparr>tq_state := s\<rparr>) = slot_view q"
  by (simp_all add: slot_view_def pending_urb_def [abs_def] control_urb_def [abs_def])

lemma hcpriv_set_vurb [simp]:
  "tq_hcpriv (set_vurb a f q) b = (if b = a then map_option f (tq_hcpriv q a) else tq_hcpriv q b)"
  "tq_hcpriv (set_urb a g q) = tq_hcpriv q"
  by (simp_all add: set_vurb_def set_urb_def)


lemma tq_invD:
  assumes "tq_inv q"
  shows "distinct (tq_urb_list q)" "a \<in> set (tq_urb_list q) \<longleftrightarrow> (\<exists>v. tq_hcpriv q a = Some v)"
    "tq_hcpriv q a = Some v \<Longrightarrow> vu_is_control v = is_control_queue q"
  using assms by (auto simp: tq_inv_def lists_ok_def pending_urb_def control_urb_def)

lemma filter_remove1_length:
  assumes "distinct xs" and "a \<in> set xs" and "\<And>x. x \<noteq> a \<Longrightarrow> P' x = P x"
  shows "length (filter P' (remove1 a xs)) + (if P a then 1 else 0) = length (filter P xs)"
  using assms(1,2)
proof (induction xs)
  case (Cons x xs)
  show ?case
  proof (cases "x = a")
    case True
    then have "filter P' xs = filter P xs" using Cons.prems(1) by (intro filter_cong refl assms(3)) auto
    with True show ?thesis by simp
  next
    case False
    with Cons assms(3) show ?thesis by simp
  qed
qed simp

text \<open>A request leaves the endpoint's list.\<close>

definition unlink_urb :: "addr \<Rightarrow> bce_vhci_transfer_queue \<Rightarrow> bce_vhci_transfer_queue" where
  "unlink_urb a q = q\<lparr>tq_urb_list := remove1 a (tq_urb_list q), tq_hcpriv := (tq_hcpriv q)(a := None)\<rparr>"

lemma unlink_started:
  assumes "tq_inv q" and "tq_hcpriv q a = Some v"
  shows "started_urbs (unlink_urb a q) + (if vu_state v \<noteq> URB_INIT_PENDING then 1 else 0) = started_urbs q"
proof -
  have "a \<in> set (tq_urb_list q)" using tq_invD(2) [OF assms(1)] assms(2) by blast
  from filter_remove1_length [OF tq_invD(1) [OF assms(1)] this,
      of "\<lambda>x. pending_urb (unlink_urb a q) x = Some False" "\<lambda>x. pending_urb q x = Some False"]
  show ?thesis using assms(2) by (simp add: started_urbs_def unlink_urb_def pending_urb_def)
qed

lemma lists_unlink:
  assumes "lists_ok q"
  shows "lists_ok (unlink_urb a q)" "a \<in> set (tq_urb_list q) \<Longrightarrow> a \<notin> set (tq_giveback_urb_list q)"
    "a \<in> set (tq_urb_list q) \<Longrightarrow> a \<notin> set (tq_flush_giveback_list q)" "a \<notin> set (tq_urb_list (unlink_urb a q))"
  using assms set_remove1_subset [of a "tq_urb_list q"]
  by (auto simp: lists_ok_def unlink_urb_def pending_urb_def control_urb_def is_control_queue_def
      distinct_remove1 set_remove1_eq)

lemma complete_unfold:
  assumes "tq_hcpriv q a = Some v"
  shows "bce_vhci_urb_complete a st q = Some ((set_urb a (\<lambda>u. u\<lparr>ur_status := st\<rparr>) (unlink_urb a q))
    \<lparr>tq_remaining_active_requests := (if vu_state v \<noteq> URB_INIT_PENDING then tq_remaining_active_requests q + 1
       else tq_remaining_active_requests q),
     tq_giveback_urb_list := tq_giveback_urb_list q @ [a]\<rparr>)"
  using assms by (simp add: bce_vhci_urb_complete_def unlink_urb_def set_urb_def Let_def)

text \<open>Freeing a slot does not wrap around.\<close>

lemma slot_freed:
  fixes r m :: u32
  assumes "unat r + n = unat m" and "0 < n"
  shows "unat (r + 1) = unat r + 1"
  using assms unat_below [of m] by (simp add: unat_word_ariths(1))

lemma complete_inv:
  assumes inv: "tq_inv q" and v: "tq_hcpriv q a = Some v"
  shows "\<exists>q'. bce_vhci_urb_complete a st q = Some q' \<and> tq_inv q'"
proof -
  let ?q = "(set_urb a (\<lambda>u. u\<lparr>ur_status := st\<rparr>) (unlink_urb a q))
    \<lparr>tq_remaining_active_requests := (if vu_state v \<noteq> URB_INIT_PENDING then tq_remaining_active_requests q + 1
       else tq_remaining_active_requests q), tq_giveback_urb_list := tq_giveback_urb_list q @ [a]\<rparr>"
  have l: "lists_ok q" and s: "slots_ok q" using inv by (simp_all add: tq_inv_def)
  have mem: "a \<in> set (tq_urb_list q)" using tq_invD(2) [OF inv] v by blast
  have st: "started_urbs ?q = started_urbs (unlink_urb a q)" and c: "is_control_queue ?q = is_control_queue q"
    by (simp_all add: started_urbs_def pending_urb_def set_urb_def unlink_urb_def is_control_queue_def)
  have g: "tq_ghost_in_count ?q = tq_ghost_in_count q" "tq_ghost_out_count ?q = tq_ghost_out_count q"
    "tq_flush_giveback_list ?q = tq_flush_giveback_list q" by (simp_all add: set_urb_def unlink_urb_def)
  have u: "slots_in_use ?q + (if vu_state v \<noteq> URB_INIT_PENDING then 1 else 0) = slots_in_use q"
    unfolding slots_in_use_def st c g using unlink_started [OF inv v] by simp
  have "slots_ok ?q"
    using s c u slot_freed [of "tq_remaining_active_requests q" "slots_in_use q"]
    by (auto simp: slots_ok_def set_urb_def unlink_urb_def split: if_splits)
  moreover have "lists_ok ?q"
    using lists_unlink [OF l] l mem
    by (simp add: lists_ok_def set_urb_def unlink_urb_def pending_urb_def control_urb_def is_control_queue_def)
  ultimately show ?thesis using complete_unfold [OF v] by (simp add: tq_inv_def)
qed


section \<open>Well-formed queues\<close>

text \<open>A request's direction and state fit the rings of its queue.\<close>

definition vurb_ok :: "bce_vhci_transfer_queue \<Rightarrow> bce_vhci_urb \<Rightarrow> bool" where
  "vurb_ok q v \<longleftrightarrow> (vu_dir v = DMA_TO_DEVICE \<or> vu_dir v = DMA_FROM_DEVICE)
     \<and> (vu_dir v = DMA_FROM_DEVICE \<longrightarrow> tq_sq_in q \<noteq> None)
     \<and> (vu_dir v = DMA_TO_DEVICE \<or> vu_is_control v \<longrightarrow> tq_sq_out q \<noteq> None)
     \<and> (vu_state v = URB_WAITING_FOR_TRANSFER_REQUEST \<longrightarrow> vu_dir v = DMA_TO_DEVICE)"

text \<open>The positions of the completions in the two rings, which only the completion handler moves.\<close>

definition ring_idx :: "bce_queue_sq \<Rightarrow> u32 \<times> u32 \<times> u32" where
  "ring_idx sq = (sq_completion_cidx sq, sq_completion_tail sq, sq_el_count sq)"

definition ring_pos :: "bce_vhci_transfer_queue \<Rightarrow> (u32 \<times> u32 \<times> u32) option \<times> (u32 \<times> u32 \<times> u32) option" where
  "ring_pos q = (map_option ring_idx (tq_sq_in q), map_option ring_idx (tq_sq_out q))"

text \<open>A well-formed queue whose rings are at the positions \<open>r\<close>.\<close>

definition tq_wf :: "(u32 \<times> u32 \<times> u32) option \<times> (u32 \<times> u32 \<times> u32) option \<Rightarrow> bce_vhci_transfer_queue \<Rightarrow> bool" where
  "tq_wf r q \<longleftrightarrow> tq_inv q \<and> (\<forall>a v. tq_hcpriv q a = Some v \<longrightarrow> vurb_ok q v) \<and> ring_pos q = r"

text \<open>A step that moves data through the rings and leaves the requests alone.\<close>

definition same_urbs :: "bce_vhci_transfer_queue \<Rightarrow> bce_vhci_transfer_queue \<Rightarrow> bool" where
  "same_urbs q q' \<longleftrightarrow> slot_view q' = slot_view q \<and> tq_hcpriv q' = tq_hcpriv q \<and> tq_urb q' = tq_urb q
     \<and> ring_pos q' = ring_pos q"

lemma ring_pos_None:
  assumes "ring_pos q' = ring_pos q"
  shows "(tq_sq_in q' = None) = (tq_sq_in q = None)" "(tq_sq_out q' = None) = (tq_sq_out q = None)"
  using assms by (auto simp: ring_pos_def)

lemma vurb_ok_pos: "ring_pos q' = ring_pos q \<Longrightarrow> vurb_ok q' v = vurb_ok q v"
  using ring_pos_None [of q' q] by (simp add: vurb_ok_def)

lemma ring_pos_frame [simp]:
  "ring_pos (set_urb a f q) = ring_pos q" "ring_pos (set_vurb a g q) = ring_pos q"
  "ring_pos (q\<lparr>tq_mq := m\<rparr>) = ring_pos q" "ring_pos (q\<lparr>tq_mmio := y\<rparr>) = ring_pos q"
  "ring_pos (q\<lparr>tq_active := b\<rparr>) = ring_pos q" "ring_pos (q\<lparr>tq_stalled := b\<rparr>) = ring_pos q"
  "ring_pos (q\<lparr>tq_sq_out_pending := n\<rparr>) = ring_pos q" "ring_pos (q\<lparr>tq_w_reset := b\<rparr>) = ring_pos q"
  "ring_pos (q\<lparr>tq_remaining_active_requests := k\<rparr>) = ring_pos q"
  "ring_pos (q\<lparr>tq_giveback_urb_list := l\<rparr>) = ring_pos q" "ring_pos (unlink_urb a q) = ring_pos q"
  by (simp_all add: ring_pos_def set_urb_def set_vurb_def unlink_urb_def)

lemma ring_pos_sq:
  "tq_sq_in q = Some sq \<Longrightarrow> ring_idx sq' = ring_idx sq \<Longrightarrow> ring_pos (q\<lparr>tq_sq_in := Some sq'\<rparr>) = ring_pos q"
  "tq_sq_out q = Some sq \<Longrightarrow> ring_idx sq' = ring_idx sq \<Longrightarrow> ring_pos (q\<lparr>tq_sq_out := Some sq'\<rparr>) = ring_pos q"
  by (simp_all add: ring_pos_def)

text \<open>Reserving and posting do not move the completions.\<close>

lemma reserve_idx:
  "bce_reserve_submission None [] sq = (st, t, sq') \<Longrightarrow> ring_idx sq' = ring_idx sq"
  "bce_reserve_submission (Some 0) [] sq = (st, t, sq') \<Longrightarrow> ring_idx sq' = ring_idx sq"
  by (auto simp: bce_reserve_submission.simps atomic_dec_if_positive_def ring_idx_def split: if_splits)

lemma post_idx: "post_single addr len sq = (b, sq') \<Longrightarrow> ring_idx sq' = ring_idx sq"
  by (auto simp: post_single_def bce_next_submission_def sq_store_def ring_idx_def Let_def)

lemma same_urbs_refl [simp]: "same_urbs q q" by (simp add: same_urbs_def)

lemma wf_same:
  assumes "tq_wf r q" and "same_urbs q q'"
  shows "tq_wf r q'"
  using assms tq_inv_view [of q' q] vurb_ok_pos [of q' q] by (auto simp: tq_wf_def same_urbs_def)

lemma wf_invD: "tq_wf r q \<Longrightarrow> tq_inv q" "tq_wf r q \<Longrightarrow> tq_hcpriv q a = Some v \<Longrightarrow> vurb_ok q v"
  by (simp_all add: tq_wf_def)

text \<open>An update of a request that keeps it started, or keeps it waiting.\<close>

lemma wf_set_vurb:
  assumes wf: "tq_wf r q" and v: "tq_hcpriv q a = Some v"
    and k: "(vu_state (f v) = URB_INIT_PENDING) = (vu_state v = URB_INIT_PENDING)" "vu_is_control (f v) = vu_is_control v"
    and ok: "vurb_ok q (f v)"
  shows "tq_wf r (set_vurb a f q)"
proof -
  have "slot_view (set_vurb a f q) = slot_view q" by (rule set_vurb_view) (use v k in simp)
  then have "tq_inv (set_vurb a f q)" using tq_inv_view wf_invD(1) [OF wf] by blast
  moreover have "vurb_ok (set_vurb a f q) w = vurb_ok q w" for w by (simp add: vurb_ok_def set_vurb_def)
  ultimately show ?thesis using wf v ok by (simp add: tq_wf_def)
qed

lemma wf_set_urb: "tq_wf r q \<Longrightarrow> tq_wf r (set_urb a f q)"
  using tq_inv_view [of "set_urb a f q" q] by (simp add: tq_wf_def vurb_ok_def) (simp add: set_urb_def)

lemma complete_wf:
  assumes "tq_wf r q" and "tq_hcpriv q a = Some v"
  shows "\<exists>q'. bce_vhci_urb_complete a st q = Some q' \<and> tq_wf r q'"
proof -
  obtain q' where q': "bce_vhci_urb_complete a st q = Some q'" "tq_inv q'"
    using complete_inv [OF wf_invD(1) [OF assms(1)] assms(2)] by blast
  moreover have "tq_hcpriv q' b = Some w \<Longrightarrow> tq_hcpriv q b = Some w" "vurb_ok q' w = vurb_ok q w" for b w
    using q'(1) complete_unfold [OF assms(2), of st]
    by (auto simp: set_urb_def unlink_urb_def vurb_ok_def split: if_splits)
  moreover have "ring_pos q' = ring_pos q" using q'(1) complete_unfold [OF assms(2), of st] by auto
  ultimately show ?thesis using assms(1) unfolding tq_wf_def by metis
qed

text \<open>Starting a waiting request takes a free slot.\<close>

lemma filter_start_length:
  assumes "distinct xs" and "a \<in> set xs" and "\<not> P a" and "P' a" and "\<And>x. x \<noteq> a \<Longrightarrow> P' x = P x"
  shows "length (filter P' xs) = Suc (length (filter P xs))"
  using assms(1,2)
proof (induction xs)
  case (Cons x xs)
  show ?case
  proof (cases "x = a")
    case True
    then have "filter P' xs = filter P xs" using Cons.prems(1) by (intro filter_cong refl assms(5)) auto
    with True assms(3,4) show ?thesis by simp
  next
    case False
    with Cons assms(5) show ?thesis by simp
  qed
qed simp

lemma start_wf:
  assumes wf: "tq_wf r q" and v: "tq_hcpriv q a = Some v" "vu_state v = URB_INIT_PENDING"
    and f: "vu_state (f v) \<noteq> URB_INIT_PENDING" "vu_is_control (f v) = vu_is_control v" "vurb_ok q (f v)"
    and r: "tq_remaining_active_requests q \<noteq> 0"
  shows "tq_wf r (set_vurb a f q\<lparr>tq_remaining_active_requests := tq_remaining_active_requests q - 1\<rparr>)"
proof -
  let ?q = "set_vurb a f q\<lparr>tq_remaining_active_requests := tq_remaining_active_requests q - 1\<rparr>"
  note inv = wf_invD(1) [OF wf]
  have mem: "a \<in> set (tq_urb_list q)" using tq_invD(2) [OF inv] v(1) by blast
  have l: "tq_urb_list ?q = tq_urb_list q" "tq_ghost_in_count ?q = tq_ghost_in_count q"
    "tq_ghost_out_count ?q = tq_ghost_out_count q" "tq_flush_giveback_list ?q = tq_flush_giveback_list q"
    "tq_max_active_requests ?q = tq_max_active_requests q" "is_control_queue ?q = is_control_queue q"
    "tq_giveback_urb_list ?q = tq_giveback_urb_list q"
    by (simp_all add: set_vurb_def is_control_queue_def)
  have "started_urbs ?q = Suc (started_urbs q)"
    unfolding started_urbs_def l using v f(1)
    by (intro filter_start_length [OF tq_invD(1) [OF inv] mem]) (simp_all add: pending_urb_def set_vurb_def)
  then have "slots_in_use ?q = Suc (slots_in_use q)" unfolding slots_in_use_def l by simp
  moreover have "unat (tq_remaining_active_requests q - 1) = unat (tq_remaining_active_requests q) - 1"
    "0 < unat (tq_remaining_active_requests q)"
    using r by (simp_all add: unat_minus_one unat_gt_0)
  ultimately have "slots_ok ?q" using inv l by (simp add: tq_inv_def slots_ok_def)
  moreover have "lists_ok ?q"
    using inv v(1) f(2) l
    by (auto simp: tq_inv_def lists_ok_def pending_urb_def control_urb_def set_vurb_def map_option_case
        split: option.splits if_splits)
  moreover have "vurb_ok ?q w = vurb_ok q w" for w by (simp add: vurb_ok_def set_vurb_def)
  ultimately show ?thesis using wf v f(3) by (simp add: tq_wf_def tq_inv_def)
qed


section \<open>Each step keeps the queue well-formed\<close>

text \<open>The result of an operation that neither faults nor breaks the queue.\<close>

definition keeps_wf :: "(u32 \<times> u32 \<times> u32) option \<times> (u32 \<times> u32 \<times> u32) option \<Rightarrow> (int \<times> bce_vhci_transfer_queue) option \<Rightarrow> bool" where
  "keeps_wf r x \<longleftrightarrow> (\<exists>st q'. x = Some (st, q') \<and> tq_wf r q')"

lemma keeps_wfI [intro]: "tq_wf r q' \<Longrightarrow> keeps_wf r (Some (st, q'))"
  by (simp add: keeps_wf_def)

lemma data_in_result:
  assumes v: "tq_hcpriv q a = Some v" and "tq_sq_in q \<noteq> None"
  shows "\<exists>q1. same_urbs q q1 \<and> (bce_vhci_urb_data_transfer_in a q = Some (- ENOMEM, q1)
    \<or> bce_vhci_urb_data_transfer_in a q = Some (0, set_vurb a (\<lambda>w. w\<lparr>vu_send_offset := vu_receive_offset v,
        vu_state := URB_WAITING_FOR_COMPLETION\<rparr>) q1))"
proof -
  obtain sq where sq: "tq_sq_in q = Some sq" using assms(2) by auto
  obtain r1 t1 m1 where m1: "bce_reserve_submission None [] (mq_sq (tq_mq q)) = (r1, t1, m1)"
    by (cases "bce_reserve_submission None [] (mq_sq (tq_mq q))")
  obtain r2 t2 s1 where s1: "bce_reserve_submission None [] sq = (r2, t2, s1)"
    by (cases "bce_reserve_submission None [] sq")
  let ?q1 = "q\<lparr>tq_mq := (tq_mq q)\<lparr>mq_sq := m1\<rparr>\<rparr>"
  show ?thesis
  proof (cases "r1 \<noteq> 0 \<or> r2 \<noteq> 0")
    case True
    then show ?thesis
      using v sq m1 s1 reserve_idx(1) [OF s1]
      by (cases "r1 = 0") (auto simp: bce_vhci_urb_data_transfer_in_def same_urbs_def ring_pos_sq)
  next
    case False
    let ?len = "ur_transfer_buffer_length (tq_urb q a) - vu_receive_offset v"
    obtain b1 m2 where m2: "bce_vhci_message_queue_write (vhci_cmd BCE_VHCI_CMD_TRANSFER_REQUEST
        (endpoint_param (tq_dev_addr q) (tq_endp_addr q)) (ucast ?len)) (tq_mq q\<lparr>mq_sq := m1\<rparr>) = (b1, m2)"
      by fastforce
    obtain b2 s2 where s2: "post_single (ur_transfer_dma (tq_urb q a) + ucast (vu_receive_offset v)) (ucast ?len) s1
        = (b2, s2)" by fastforce
    show ?thesis
      using False v sq m1 s1 m2 s2 reserve_idx(1) [OF s1] post_idx [OF s2]
      by (intro exI [of _ "q\<lparr>tq_mq := m2, tq_sq_in := Some s2, tq_mmio := tq_mmio q @ [b1, b2]\<rparr>"])
        (simp add: bce_vhci_urb_data_transfer_in_def same_urbs_def ring_pos_def)
  qed
qed


lemma send_out_result:
  assumes "tq_sq_out q \<noteq> None"
  shows "\<exists>st q1. bce_vhci_urb_send_out_data addr len q = Some (st, q1) \<and> same_urbs q q1"
proof -
  obtain sq where sq: "tq_sq_out q = Some sq" using assms by auto
  obtain r t s1 where s1: "bce_reserve_submission (Some 0) [] sq = (r, t, s1)"
    by (cases "bce_reserve_submission (Some 0) [] sq")
  obtain b2 s2 where s2: "post_single addr len s1 = (b2, s2)" by fastforce
  show ?thesis
    using sq s1 s2 reserve_idx(2) [OF s1] post_idx [OF s2]
    by (simp add: bce_vhci_urb_send_out_data_def same_urbs_def ring_pos_def)
qed

lemma hcpriv_same: "same_urbs q q1 \<Longrightarrow> tq_hcpriv q1 = tq_hcpriv q" "same_urbs q q1 \<Longrightarrow> tq_urb q1 = tq_urb q"
  by (simp_all add: same_urbs_def)

text \<open>The start of the data phase, of a request that is started already.\<close>

lemma data_start_wf:
  assumes wf: "tq_wf r q" and v: "tq_hcpriv q a = Some v" "vu_state v \<noteq> URB_INIT_PENDING"
  shows "\<exists>st q'. bce_vhci_urb_data_start a q = Some (st, q') \<and> tq_wf r q' \<and> pending_urb q' a = Some False"
proof (cases "vu_dir v = DMA_TO_DEVICE")
  case True
  then show ?thesis
    using wf_set_vurb [OF wf v(1)] v wf_invD(2) [OF wf v(1)]
    by (simp add: bce_vhci_urb_data_start_def vurb_ok_def pending_urb_def)
next
  case False
  then have "tq_sq_in q \<noteq> None" using wf_invD(2) [OF wf v(1)] by (auto simp: vurb_ok_def)
  from data_in_result [OF v(1) this] obtain q1 where q1: "same_urbs q q1"
    "bce_vhci_urb_data_transfer_in a q = Some (- ENOMEM, q1)
    \<or> bce_vhci_urb_data_transfer_in a q = Some (0, set_vurb a (\<lambda>w. w\<lparr>vu_send_offset := vu_receive_offset v,
        vu_state := URB_WAITING_FOR_COMPLETION\<rparr>) q1)" by blast
  have v1: "tq_hcpriv q1 a = Some v" using v(1) q1(1) by (simp add: hcpriv_same)
  have "tq_wf r (set_vurb a (\<lambda>w. w\<lparr>vu_send_offset := vu_receive_offset v, vu_state := URB_WAITING_FOR_COMPLETION\<rparr>) q1)"
    by (rule wf_set_vurb [OF wf_same [OF wf q1(1)] v1])
      (use v wf_invD(2) [OF wf_same [OF wf q1(1)] v1] in \<open>simp_all add: vurb_ok_def\<close>)
  with q1 v1 v(1) False wf_same [OF wf q1(1)] show ?thesis
    by (auto simp: bce_vhci_urb_data_start_def pending_urb_def v(2))
qed

lemma urb_init_wf:
  assumes wf: "tq_wf r q" and v: "tq_hcpriv q a = Some v" "vu_state v = URB_INIT_PENDING"
  shows "keeps_wf r (bce_vhci_urb_init a q)"
proof (cases "tq_remaining_active_requests q = 0")
  case True
  then show ?thesis using wf v by (auto simp: bce_vhci_urb_init_def)
next
  case r: False
  note ok = wf_invD(2) [OF wf v(1)]
  show ?thesis
  proof (cases "vu_is_control v \<or> vu_dir v = DMA_TO_DEVICE")
    case True
    then show ?thesis
      using start_wf [OF wf v _ _ _ r, of "\<lambda>w. w\<lparr>vu_state := URB_CONTROL_WAITING_FOR_SETUP_REQUEST\<rparr>"]
        start_wf [OF wf v _ _ _ r, of "\<lambda>w. w\<lparr>vu_state := URB_WAITING_FOR_TRANSFER_REQUEST\<rparr>"]
        start_wf [OF wf v _ _ _ r, of "\<lambda>w. w\<lparr>vu_state := URB_DATA_TRANSFER_COMPLETE\<rparr>"] ok v r
      by (cases "vu_is_control v") (auto simp: bce_vhci_urb_init_def bce_vhci_urb_data_start_def vurb_ok_def keeps_wf_def
          set_vurb_def)
  next
    case False
    then have "tq_sq_in q \<noteq> None" using ok by (auto simp: vurb_ok_def)
    from data_in_result [OF v(1) this] obtain q1 where q1: "same_urbs q q1"
      "bce_vhci_urb_data_transfer_in a q = Some (- ENOMEM, q1)
      \<or> bce_vhci_urb_data_transfer_in a q = Some (0, set_vurb a (\<lambda>w. w\<lparr>vu_send_offset := vu_receive_offset v,
          vu_state := URB_WAITING_FOR_COMPLETION\<rparr>) q1)" by blast
    have v1: "tq_hcpriv q1 a = Some v" using v(1) q1(1) by (simp add: hcpriv_same)
    have rem: "tq_remaining_active_requests q1 = tq_remaining_active_requests q"
      using q1(1) by (simp add: same_urbs_def slot_view_def)
    from q1(2) show ?thesis
    proof
      assume "bce_vhci_urb_data_transfer_in a q = Some (- ENOMEM, q1)"
      then show ?thesis using False v(1) r wf_same [OF wf q1(1)]
        by (auto simp: bce_vhci_urb_init_def bce_vhci_urb_data_start_def)
    next
      let ?f = "\<lambda>w. w\<lparr>vu_send_offset := vu_receive_offset v, vu_state := URB_WAITING_FOR_COMPLETION\<rparr>"
      assume d: "bce_vhci_urb_data_transfer_in a q = Some (0, set_vurb a ?f q1)"
      have "tq_wf r (set_vurb a ?f q1\<lparr>tq_remaining_active_requests := tq_remaining_active_requests q1 - 1\<rparr>)"
        by (rule start_wf [OF wf_same [OF wf q1(1)] v1 v(2)])
          (use wf_invD(2) [OF wf_same [OF wf q1(1)] v1] rem r in \<open>simp_all add: vurb_ok_def\<close>)
      with d False v(1) r rem show ?thesis
        by (auto simp: bce_vhci_urb_init_def bce_vhci_urb_data_start_def set_vurb_def)
    qed
  qed
qed


lemma data_update_wf:
  assumes wf: "tq_wf r q" and v: "tq_hcpriv q a = Some v" and s: "vu_state v \<noteq> URB_INIT_PENDING"
  shows "\<exists>st q'. bce_vhci_urb_data_update a msg q = Some (st, q') \<and> tq_wf r q' \<and> pending_urb q' a = Some False"
proof (cases "vu_state v = URB_WAITING_FOR_TRANSFER_REQUEST \<and> vm_cmd msg = BCE_VHCI_CMD_TRANSFER_REQUEST")
  case True
  let ?len = "min (ur_transfer_buffer_length (tq_urb q a) - vu_send_offset v) (ucast (vm_param2 msg)) :: u32"
  let ?addr = "ur_transfer_dma (tq_urb q a) + ucast (vu_send_offset v)"
  have "tq_sq_out q \<noteq> None" using wf_invD(2) [OF wf v] True by (auto simp: vurb_ok_def)
  from send_out_result [OF this, of ?addr "ucast ?len"]
  obtain st q1 where q1: "bce_vhci_urb_send_out_data ?addr (ucast ?len) q = Some (st, q1)" "same_urbs q q1" by blast
  note wf1 = wf_same [OF wf q1(2)]
  have v1: "tq_hcpriv q1 a = Some v" using v q1(2) by (simp add: hcpriv_same)
  have "tq_wf r (set_vurb a (\<lambda>v. v\<lparr>vu_send_offset := vu_send_offset v + ?len, vu_state := URB_WAITING_FOR_COMPLETION\<rparr>) q1)"
    by (rule wf_set_vurb [OF wf1 v1]) (use True wf_invD(2) [OF wf1 v1] in \<open>simp_all add: vurb_ok_def\<close>)
  with True v v1 q1(1) wf1 show ?thesis
    by (simp add: bce_vhci_urb_data_update_def Let_def pending_urb_def)
next
  case False
  then show ?thesis using wf v s by (auto simp: bce_vhci_urb_data_update_def pending_urb_def)
qed

lemma check_status_wf:
  assumes wf: "tq_wf r q" and p: "pending_urb q a = Some False"
  shows "keeps_wf r (bce_vhci_urb_control_check_status a q)"
proof -
  obtain v where v: "tq_hcpriv q a = Some v" "vu_state v \<noteq> URB_INIT_PENDING"
    using p by (auto simp: pending_urb_def)
  have wf1: "tq_wf r (set_state a URB_CONTROL_COMPLETE q)"
    by (rule wf_set_vurb [OF wf v(1)]) (use v wf_invD(2) [OF wf v(1)] in \<open>simp_all add: vurb_ok_def\<close>)
  let ?q2 = "(set_state a URB_CONTROL_COMPLETE q)\<lparr>tq_active := False, tq_stalled := True\<rparr>"
  have wf2: "tq_wf r ?q2" by (rule wf_same [OF wf1]) (simp add: same_urbs_def)
  have h: "tq_hcpriv (set_state a URB_CONTROL_COMPLETE q) a = Some (v\<lparr>vu_state := URB_CONTROL_COMPLETE\<rparr>)"
    using v(1) by simp
  have h2: "tq_hcpriv ?q2 a = Some (v\<lparr>vu_state := URB_CONTROL_COMPLETE\<rparr>)" using h by simp
  obtain q3 where q3: "bce_vhci_urb_complete a 0 (set_state a URB_CONTROL_COMPLETE q) = Some q3" "tq_wf r q3"
    using complete_wf [OF wf1 h] by blast
  obtain q4 where q4: "bce_vhci_urb_complete a (- EPIPE) ?q2 = Some q4" "tq_wf r q4"
    using complete_wf [OF wf2 h2] by blast
  have "tq_wf r (bce_vhci_transfer_queue_request_reset q4)"
    by (rule wf_same [OF q4(2)]) (simp add: same_urbs_def bce_vhci_transfer_queue_request_reset_def)
  then show ?thesis
    using v(1) wf q3 q4(1) unfolding bce_vhci_urb_control_check_status_def by (auto simp: Let_def)
qed

lemma control_update_wf:
  assumes wf: "tq_wf r q" and v: "tq_hcpriv q a = Some v" "vu_state v \<noteq> URB_INIT_PENDING" "vu_is_control v"
  shows "keeps_wf r (bce_vhci_urb_control_update a msg q)"
proof -
  note ok = wf_invD(2) [OF wf v(1)]
  have wf1: "tq_wf r (set_vurb a (\<lambda>v. v\<lparr>vu_received_status := x\<rparr>) q)" for x
    by (rule wf_set_vurb [OF wf v(1)]) (use ok in \<open>simp_all add: vurb_ok_def\<close>)
  have status: "keeps_wf r (bce_vhci_urb_control_check_status a (set_vurb a (\<lambda>v. v\<lparr>vu_received_status := x\<rparr>) q))" for x
    by (rule check_status_wf [OF wf1]) (use v in \<open>simp add: pending_urb_def\<close>)
  obtain st q1 where q1: "bce_vhci_urb_send_out_data (ur_setup_dma (tq_urb q a)) sizeof_ctrlrequest q = Some (st, q1)"
    "same_urbs q q1" using send_out_result ok v(3) unfolding vurb_ok_def by blast
  have h1: "tq_hcpriv q1 a = Some v" using v(1) q1(2) by (simp add: hcpriv_same)
  have wf2: "tq_wf r (set_state a URB_CONTROL_WAITING_FOR_SETUP_COMPLETION q1)"
    by (rule wf_set_vurb [OF wf_same [OF wf q1(2)] h1])
      (use v wf_invD(2) [OF wf_same [OF wf q1(2)] h1] in \<open>simp_all add: vurb_ok_def\<close>)
  obtain st' q2 where q2: "bce_vhci_urb_data_update a msg q = Some (st', q2)" "tq_wf r q2" "pending_urb q2 a = Some False"
    using data_update_wf [OF wf v(1,2)] by blast
  show ?thesis
    using v(1) wf status q1(1) wf2 wf_same [OF wf q1(2)] q2 check_status_wf [OF q2(2,3)]
    unfolding bce_vhci_urb_control_update_def by auto
qed

lemma urb_update_wf:
  assumes wf: "tq_wf r q" and v: "tq_hcpriv q a = Some v"
  shows "keeps_wf r (bce_vhci_urb_update a msg q)"
proof (cases "vu_state v = URB_INIT_PENDING")
  case False
  then show ?thesis
    using control_update_wf [OF wf v, of msg] data_update_wf [OF wf v, of msg] v
    by (auto simp: bce_vhci_urb_update_def keeps_wf_def)
qed (use wf v in \<open>auto simp: bce_vhci_urb_update_def\<close>)

text \<open>Completions: a request that is done leaves the list, others stay started.\<close>

lemma data_completion_wf:
  assumes wf: "tq_wf r q" and v: "tq_hcpriv q a = Some v" "vu_state v \<noteq> URB_INIT_PENDING"
  shows "\<exists>st q'. bce_vhci_urb_data_transfer_completion a c q = Some (st, q') \<and> tq_wf r q'
    \<and> (st = 0 \<longrightarrow> pending_urb q' a = Some False)"
proof (cases "vu_state v = URB_WAITING_FOR_COMPLETION")
  case w: True
  let ?r = "vu_receive_offset v + ucast (cd_data_size c) :: u32"
  let ?q1 = "set_vurb a (\<lambda>v. v\<lparr>vu_receive_offset := ?r\<rparr>) q"
  let ?q2 = "set_urb a (\<lambda>u. u\<lparr>ur_actual_length := ?r\<rparr>) (set_state a URB_DATA_TRANSFER_COMPLETE ?q1)"
  note ok = wf_invD(2) [OF wf v(1)]
  have wf1: "tq_wf r ?q1" by (rule wf_set_vurb [OF wf v(1)]) (use ok in \<open>simp_all add: vurb_ok_def\<close>)
  have h1: "tq_hcpriv ?q1 a = Some (v\<lparr>vu_receive_offset := ?r\<rparr>)" using v(1) by simp
  have "tq_wf r (set_state a URB_DATA_TRANSFER_COMPLETE ?q1)"
    by (rule wf_set_vurb [OF wf1 h1]) (use v(2) wf_invD(2) [OF wf1 h1] in \<open>simp_all add: vurb_ok_def\<close>)
  then have wf2: "tq_wf r ?q2" by (rule wf_set_urb)
  have h2: "tq_hcpriv ?q2 a = Some (v\<lparr>vu_receive_offset := ?r, vu_state := URB_DATA_TRANSFER_COMPLETE\<rparr>)"
    using v(1) by simp
  obtain q3 where q3: "bce_vhci_urb_complete a 0 ?q2 = Some q3" "tq_wf r q3" using complete_wf [OF wf2 h2] by blast
  let ?q4 = "set_urb a (\<lambda>u. u\<lparr>ur_error_count := 0, ur_iso_frame_desc := iso_packets (ur_number_of_packets u)
    (ep_maxp (tq_endp ?q2)) (ur_actual_length u)\<rparr>) ?q2"
  have "tq_hcpriv ?q4 a = Some (v\<lparr>vu_receive_offset := ?r, vu_state := URB_DATA_TRANSFER_COMPLETE\<rparr>)"
    using h2 by simp
  from complete_wf [OF wf_set_urb [OF wf2] this] obtain q5 where
    q5: "bce_vhci_urb_iso_complete a ?q2 = Some q5" "tq_wf r q5" by (auto simp: bce_vhci_urb_iso_complete_def)
  show ?thesis
    using v w wf1 wf2 q3 q5 by (auto simp: bce_vhci_urb_data_transfer_completion_def Let_def pending_urb_def)
next
  case False
  then show ?thesis using wf v by (auto simp: bce_vhci_urb_data_transfer_completion_def pending_urb_def)
qed

lemma control_completion_wf:
  assumes wf: "tq_wf r q" and v: "tq_hcpriv q a = Some v" "vu_state v \<noteq> URB_INIT_PENDING"
  shows "keeps_wf r (bce_vhci_urb_control_transfer_completion a c q)"
proof -
  obtain st q1 where q1: "bce_vhci_urb_data_start a q = Some (st, q1)" "tq_wf r q1" "pending_urb q1 a = Some False"
    using data_start_wf [OF wf v] by blast
  then obtain w where w: "tq_hcpriv q1 a = Some w" by (auto simp: pending_urb_def)
  obtain q2 where q2: "bce_vhci_urb_complete a st q1 = Some q2" "tq_wf r q2" using complete_wf [OF q1(2) w] by blast
  obtain st' q3 where q3: "bce_vhci_urb_data_transfer_completion a c q = Some (st', q3)" "tq_wf r q3"
    "st' = 0 \<longrightarrow> pending_urb q3 a = Some False" using data_completion_wf [OF wf v] by blast
  show ?thesis
    using v(1) wf q1 q2 q3 check_status_wf [OF q1(2,3)] check_status_wf [OF q3(2), of a]
    unfolding bce_vhci_urb_control_transfer_completion_def by auto
qed

lemma transfer_completion_wf:
  assumes wf: "tq_wf r q" and v: "tq_hcpriv q a = Some v" "vu_state v \<noteq> URB_INIT_PENDING"
  shows "keeps_wf r (bce_vhci_urb_transfer_completion a c q)"
  using control_completion_wf [OF wf v, of c] data_completion_wf [OF wf v, of c] v(1)
  by (auto simp: bce_vhci_urb_transfer_completion_def keeps_wf_def)

section \<open>The handlers\<close>

text \<open>The same for operations that return only the queue.\<close>

definition keeps_wfq :: "(u32 \<times> u32 \<times> u32) option \<times> (u32 \<times> u32 \<times> u32) option \<Rightarrow> bce_vhci_transfer_queue option \<Rightarrow> bool" where
  "keeps_wfq r x \<longleftrightarrow> (\<exists>q'. x = Some q' \<and> tq_wf r q')"

lemma keeps_wfqI [intro]: "tq_wf r q' \<Longrightarrow> keeps_wfq r (Some q')"
  by (simp add: keeps_wfq_def)

lemma keeps_bind:
  "keeps_wf r x \<Longrightarrow> (\<And>st q'. x = Some (st, q') \<Longrightarrow> tq_wf r q' \<Longrightarrow> keeps_wfq r (f (st, q')))
     \<Longrightarrow> keeps_wfq r (Option.bind x f)"
  "keeps_wfq r y \<Longrightarrow> (\<And>q'. y = Some q' \<Longrightarrow> tq_wf r q' \<Longrightarrow> keeps_wfq r (g q')) \<Longrightarrow> keeps_wfq r (Option.bind y g)"
  by (auto simp: keeps_wf_def keeps_wfq_def)

lemma urb_init_list:
  assumes wf: "tq_wf r q" and v: "tq_hcpriv q a = Some v" and i: "bce_vhci_urb_init a q = Some (st, q')"
  shows "tq_urb_list q' = tq_urb_list q"
proof (cases "vu_is_control v \<or> vu_dir v = DMA_TO_DEVICE")
  case True
  then show ?thesis
    using v i by (auto simp: bce_vhci_urb_init_def bce_vhci_urb_data_start_def set_vurb_def split: if_splits)
next
  case False
  then have "tq_sq_in q \<noteq> None" using wf_invD(2) [OF wf v] by (auto simp: vurb_ok_def)
  from data_in_result [OF v this] obtain q1 where q1: "same_urbs q q1"
    "bce_vhci_urb_data_transfer_in a q = Some (- ENOMEM, q1)
    \<or> bce_vhci_urb_data_transfer_in a q = Some (0, set_vurb a (\<lambda>w. w\<lparr>vu_send_offset := vu_receive_offset v,
        vu_state := URB_WAITING_FOR_COMPLETION\<rparr>) q1)" by blast
  have "tq_urb_list q1 = tq_urb_list q" using q1(1) by (simp add: same_urbs_def slot_view_def)
  with False v i q1(2) show ?thesis
    by (auto simp: bce_vhci_urb_init_def bce_vhci_urb_data_start_def set_vurb_def split: if_splits)
qed

lemma init_pending_loop_wf:
  assumes "tq_wf r q" and "set as \<subseteq> set (tq_urb_list q)"
  shows "keeps_wfq r (init_pending_loop as q)"
  using assms
proof (induction as arbitrary: q)
  case (Cons a as)
  obtain v where v: "tq_hcpriv q a = Some v"
    using Cons.prems(2) tq_invD(2) [OF wf_invD(1) [OF Cons.prems(1)]] by auto
  have "keeps_wfq r (Option.bind (bce_vhci_urb_init a q) (\<lambda>(st, q1). init_pending_loop as q1))"
    if "vu_state v = URB_INIT_PENDING"
    using Cons.IH Cons.prems(2)
    by (intro keeps_bind(1) urb_init_wf [OF Cons.prems(1) v that]) (auto dest: urb_init_list [OF Cons.prems(1) v])
  moreover have "keeps_wfq r (init_pending_loop as q)" using Cons.IH [OF Cons.prems(1)] Cons.prems(2) by simp
  ultimately show ?case using v Cons.prems(1) by auto
qed auto

lemma init_pending_wf: "tq_wf r q \<Longrightarrow> keeps_wfq r (bce_vhci_transfer_queue_init_pending_urbs q)"
  unfolding bce_vhci_transfer_queue_init_pending_urbs_def by (rule init_pending_loop_wf) simp_all

lemma first_urb:
  assumes "tq_wf r q" and "tq_urb_list q = a # as"
  obtains v where "tq_hcpriv q a = Some v"
  using tq_invD(2) [OF wf_invD(1) [OF assms(1)], of a] assms(2) by auto

lemma wf_cong:
  assumes "slot_view x = slot_view y" and "tq_hcpriv x = tq_hcpriv y" and "tq_sq_in x = tq_sq_in y"
    and "tq_sq_out x = tq_sq_out y"
  shows "tq_wf r x = tq_wf r y"
  using tq_inv_view [OF assms(1)] tq_inv_view [OF assms(1) [symmetric]] assms(2-4) by (auto simp: tq_wf_def vurb_ok_def ring_pos_def)

lemma wf_field_update:
  "tq_wf r (q\<lparr>tq_evq := e\<rparr>) = tq_wf r q" "tq_wf r (q\<lparr>tq_active := b\<rparr>) = tq_wf r q" "tq_wf r (q\<lparr>tq_stalled := b\<rparr>) = tq_wf r q"
  "tq_wf r (q\<lparr>tq_w_reset := b\<rparr>) = tq_wf r q" "tq_wf r (q\<lparr>tq_w_resume := b\<rparr>) = tq_wf r q" "tq_wf r (q\<lparr>tq_w_flush := b\<rparr>) = tq_wf r q"
  "tq_wf r (q\<lparr>tq_given := g\<rparr>) = tq_wf r q" "tq_wf r (q\<lparr>tq_paused_by := p\<rparr>) = tq_wf r q" "tq_wf r (q\<lparr>tq_state := s\<rparr>) = tq_wf r q"
  "tq_wf r (q\<lparr>tq_sq_out_pending := n\<rparr>) = tq_wf r q"
  by (rule wf_cong; simp)+

lemma deliver_loop_wf: "tq_wf r q \<Longrightarrow> keeps_wfq r (deliver_loop ms q)"
proof (induction ms arbitrary: q)
  case (Cons m ms)
  show ?case
  proof (cases "tq_urb_list q")
    case Nil
    then show ?thesis using Cons.prems by auto
  next
    case (Cons a as)
    obtain v where v: "tq_hcpriv q a = Some v" by (rule first_urb [OF Cons.prems Cons])
    have "keeps_wfq r (Option.bind (bce_vhci_urb_update a m q) (\<lambda>(st, q1).
        if st = - EAGAIN then Some q1 else deliver_loop ms (q1\<lparr>tq_evq := ms\<rparr>)))"
      by (intro keeps_bind(1) urb_update_wf [OF Cons.prems v]) (auto intro: Cons.IH simp: wf_field_update)
    with Cons show ?thesis by simp
  qed
qed auto

lemma deliver_pending_wf: "tq_wf r q \<Longrightarrow> keeps_wfq r (bce_vhci_transfer_queue_deliver_pending q)"
  unfolding bce_vhci_transfer_queue_deliver_pending_def by (intro keeps_bind(2) deliver_loop_wf init_pending_wf)

lemma defer_wf: "tq_wf r q \<Longrightarrow> tq_wf r (bce_vhci_transfer_queue_defer_event mem msg q)"
  by (simp add: bce_vhci_transfer_queue_defer_event_def bce_vhci_transfer_queue_request_reset_def wf_field_update)

lemma transfer_event_wf:
  assumes "tq_wf r q"
  shows "keeps_wfq r (transfer_event mem msg q)"
proof (cases "tq_active q")
  case True
  have step: "keeps_wfq r (case tq_urb_list q1 of [] \<Rightarrow> Some q1
      | a # as \<Rightarrow> Option.bind (bce_vhci_urb_update a msg q1) (\<lambda>(st, q2).
          if st = - EAGAIN then Some (bce_vhci_transfer_queue_defer_event mem msg q2)
          else bce_vhci_transfer_queue_init_pending_urbs q2))" if w: "tq_wf r q1" for q1
  proof (cases "tq_urb_list q1")
    case (Cons a as)
    obtain v where "tq_hcpriv q1 a = Some v" by (rule first_urb [OF w Cons])
    from urb_update_wf [OF w this, of msg] show ?thesis
      unfolding Cons list.case by (rule keeps_bind(1)) (auto intro: defer_wf init_pending_wf)
  qed (use w in auto)
  have "keeps_wfq r (Option.bind (bce_vhci_transfer_queue_deliver_pending q) (\<lambda>q1.
        if vm_cmd msg = BCE_VHCI_CMD_TRANSFER_REQUEST \<and> (tq_evq q1 \<noteq> [] \<or> tq_urb_list q1 = [])
        then Some (bce_vhci_transfer_queue_defer_event mem msg q1)
        else case tq_urb_list q1 of [] \<Rightarrow> Some q1
        | a # as \<Rightarrow> Option.bind (bce_vhci_urb_update a msg q1) (\<lambda>(st, q2).
            if st = - EAGAIN then Some (bce_vhci_transfer_queue_defer_event mem msg q2)
            else bce_vhci_transfer_queue_init_pending_urbs q2)))"
    by (rule keeps_bind(2) [OF deliver_pending_wf [OF assms]]) (simp add: step keeps_wfqI defer_wf)
  with True show ?thesis by (simp add: transfer_event_def)
qed (use assms defer_wf [OF assms, of mem msg] in \<open>auto simp: transfer_event_def\<close>)


lemma giveback_loop_wf:
  "tq_wf r q \<Longrightarrow> tq_giveback_urb_list q = as \<Longrightarrow> tq_wf r (giveback_loop as q)"
proof (induction as arbitrary: q)
  case (Cons a as)
  let ?q = "q\<lparr>tq_giveback_urb_list := as, tq_given := tq_given q @ [(a, ur_status (tq_urb q a))]\<rparr>"
  have "slots_in_use ?q = slots_in_use q"
    by (simp add: slots_in_use_def started_urbs_def pending_urb_def is_control_queue_def)
  then have "slots_ok ?q" using wf_invD(1) [OF Cons.prems(1)]
    by (simp add: tq_inv_def slots_ok_def is_control_queue_def)
  moreover have "lists_ok ?q"
    using wf_invD(1) [OF Cons.prems(1)] Cons.prems(2)
    by (simp add: tq_inv_def lists_ok_def pending_urb_def control_urb_def is_control_queue_def)
  moreover have "vurb_ok ?q w = vurb_ok q w" for w by (simp add: vurb_ok_def)
  moreover have "ring_pos ?q = ring_pos q" by (simp add: ring_pos_def)
  ultimately have "tq_wf r ?q" using Cons.prems(1) by (simp add: tq_wf_def tq_inv_def)
  from Cons.IH [OF this] show ?case by simp
qed simp

lemma giveback_wf: "tq_wf r q \<Longrightarrow> tq_wf r (bce_vhci_transfer_queue_giveback q)"
  unfolding bce_vhci_transfer_queue_giveback_def by (rule giveback_loop_wf) simp_all

lemma event_wf:
  assumes "tq_wf r q"
  shows "keeps_wfq r (bce_vhci_transfer_queue_event mem msg q)"
  using transfer_event_wf [OF assms, of mem msg]
  by (auto simp: bce_vhci_transfer_queue_event_def keeps_wfq_def giveback_wf)

text \<open>Cancelling everything.\<close>

lemma complete_all_wf:
  assumes "tq_wf r q" and "set as \<subseteq> set (tq_urb_list q)" and "distinct as"
  shows "keeps_wfq r (complete_all st as q)"
  using assms
proof (induction as arbitrary: q)
  case (Cons a as)
  obtain v where v: "tq_hcpriv q a = Some v"
    using Cons.prems(2) tq_invD(2) [OF wf_invD(1) [OF Cons.prems(1)]] by auto
  obtain q' where q': "bce_vhci_urb_complete a st q = Some q'" "tq_wf r q'"
    using complete_wf [OF Cons.prems(1) v] by blast
  have "tq_urb_list q' = remove1 a (tq_urb_list q)"
    using q'(1) complete_unfold [OF v, of st] by (auto simp: unlink_urb_def set_urb_def)
  then have "set as \<subseteq> set (tq_urb_list q')"
    using Cons.prems(2,3) tq_invD(1) [OF wf_invD(1) [OF Cons.prems(1)]] by auto
  with Cons.IH [OF q'(2)] Cons.prems(3) q'(1) show ?case by simp
qed auto

lemma cancel_all_wf:
  assumes "tq_wf r q"
  shows "keeps_wfq r (bce_vhci_transfer_queue_cancel_all q)"
proof -
  have "keeps_wfq r (complete_all (- ECONNRESET) (tq_urb_list q) (q\<lparr>tq_active := False\<rparr>))"
    using assms tq_invD(1) [OF wf_invD(1) [OF assms]] by (intro complete_all_wf) (simp_all add: wf_field_update)
  then show ?thesis
    unfolding bce_vhci_transfer_queue_cancel_all_def by (rule keeps_bind(2)) (auto intro: giveback_wf)
qed

text \<open>Completions of the device.\<close>

lemma wf_set_sq:
  assumes "tq_wf r q" and "tq_sq out q = Some sq0" and "ring_idx sq = ring_idx sq0"
  shows "tq_wf r (set_tq_sq out sq q)"
  by (rule wf_same [OF assms(1)])
    (use assms(2,3) in \<open>auto simp: same_urbs_def set_tq_sq_def tq_sq_def ring_pos_def split: if_splits\<close>)

lemma notify_idx: "ring_idx (bce_notify_submission_complete sq) = ring_idx sq"
  by (simp add: ring_idx_def bce_notify_submission_complete_def)

lemma retire_wf:
  assumes "tq_wf r q"
  shows "tq_wf r (retire_one out q)"
proof -
  let ?q = "if out then q\<lparr>tq_sq_out_pending := snd (atomic_dec_if_positive (tq_sq_out_pending q))\<rparr> else q"
  have wf: "tq_wf r ?q" using assms by (simp add: wf_field_update)
  show ?thesis
  proof (cases "tq_sq out ?q")
    case None
    with wf show ?thesis by (simp add: retire_one_def Let_def)
  next
    case (Some sq)
    with wf_set_sq [OF wf Some notify_idx] show ?thesis by (simp add: retire_one_def Let_def)
  qed
qed

lemma ghost_absorbed_wf:
  assumes wf: "tq_wf r q" and g: "0 < tq_ghost_in_count q + tq_ghost_out_count q - x - y"
    "x \<le> tq_ghost_in_count q" "y \<le> tq_ghost_out_count q" "x + y = tq_ghost_in_count q + tq_ghost_out_count q - 1"
    "0 \<le> x" "0 \<le> y"
  shows "tq_wf r (q\<lparr>tq_ghost_in_count := x, tq_ghost_out_count := y,
    tq_remaining_active_requests := tq_remaining_active_requests q + 1\<rparr>)"
proof -
  let ?q = "q\<lparr>tq_ghost_in_count := x, tq_ghost_out_count := y,
    tq_remaining_active_requests := tq_remaining_active_requests q + 1\<rparr>"
  have s: "slots_ok q" using wf_invD(1) [OF wf] by (simp add: tq_inv_def)
  have c: "is_control_queue ?q = is_control_queue q" "started_urbs ?q = started_urbs q"
    by (simp_all add: is_control_queue_def started_urbs_def pending_urb_def)
  have nc: "\<not> is_control_queue q" using s g by (auto simp: slots_ok_def)
  have "nat x + nat y + 1 = nat (tq_ghost_in_count q) + nat (tq_ghost_out_count q)" using g by linarith
  then have u: "slots_in_use ?q + 1 = slots_in_use q" using nc unfolding slots_in_use_def c by simp
  have "slots_ok ?q"
    using s u nc c g slot_freed [of "tq_remaining_active_requests q" "slots_in_use q"]
    by (simp add: slots_ok_def)
  moreover have "lists_ok ?q" using wf_invD(1) [OF wf]
    by (simp add: tq_inv_def lists_ok_def pending_urb_def control_urb_def is_control_queue_def)
  moreover have "vurb_ok ?q w = vurb_ok q w" for w by (simp add: vurb_ok_def)
  moreover have "ring_pos ?q = ring_pos q" by (simp add: ring_pos_def)
  ultimately show ?thesis using wf by (simp add: tq_wf_def tq_inv_def)
qed

lemma complete_one_wf:
  assumes wf: "tq_wf r q"
  shows "keeps_wfq r (transfer_complete_one out c q)"
proof -
  have g: "0 \<le> tq_ghost_in_count q" "0 \<le> tq_ghost_out_count q"
    using wf_invD(1) [OF wf] by (simp_all add: tq_inv_def slots_ok_def)
  have ret: "keeps_wfq r x \<Longrightarrow> keeps_wfq r (map_option (retire_one out) x)" for x
    by (auto simp: keeps_wfq_def retire_wf)
  have gin: "keeps_wfq r (bce_vhci_transfer_queue_init_pending_urbs (q\<lparr>tq_ghost_in_count := tq_ghost_in_count q - 1,
      tq_remaining_active_requests := tq_remaining_active_requests q + 1\<rparr>))" if "tq_ghost_in_count q > 0"
    using init_pending_wf [OF ghost_absorbed_wf [OF wf, of "tq_ghost_in_count q - 1" "tq_ghost_out_count q"]] that g by simp
  have gout: "keeps_wfq r (bce_vhci_transfer_queue_init_pending_urbs (q\<lparr>tq_ghost_out_count := tq_ghost_out_count q - 1,
      tq_remaining_active_requests := tq_remaining_active_requests q + 1\<rparr>))" if "tq_ghost_out_count q > 0"
    using init_pending_wf [OF ghost_absorbed_wf [OF wf, of "tq_ghost_in_count q" "tq_ghost_out_count q - 1"]] that g by simp
  have rest: "keeps_wfq r (case tq_urb_list q of [] \<Rightarrow> Some (retire_one out q)
      | a # as \<Rightarrow> Option.bind (tq_hcpriv q a) (\<lambda>v. if vu_state v = URB_INIT_PENDING then Some (retire_one out q)
          else Option.bind (bce_vhci_urb_transfer_completion a c q) (\<lambda>(st, q1). Some (retire_one out q1))))"
  proof (cases "tq_urb_list q")
    case (Cons a as)
    obtain v where v: "tq_hcpriv q a = Some v" by (rule first_urb [OF wf Cons])
    have "keeps_wfq r (Option.bind (bce_vhci_urb_transfer_completion a c q) (\<lambda>(st, q1). Some (retire_one out q1)))"
      if "vu_state v \<noteq> URB_INIT_PENDING"
      by (rule keeps_bind(1) [OF transfer_completion_wf [OF wf v that]]) (auto intro: retire_wf)
    with Cons v retire_wf [OF wf] show ?thesis by auto
  qed (use retire_wf [OF wf] in auto)
  show ?thesis
    unfolding transfer_complete_one_def using ret [OF gin] ret [OF gout] rest retire_wf [OF wf] by auto
qed


text \<open>The number of completions in a ring, and that taking one makes it smaller.\<close>

definition completions_left :: "u32 \<times> u32 \<times> u32 \<Rightarrow> nat" where
  "completions_left i = (case i of (c, t, n) \<Rightarrow> if c \<le> t then unat t - unat c else unat n + unat t - unat c)"

definition idx_ok :: "u32 \<times> u32 \<times> u32 \<Rightarrow> bool" where
  "idx_ok i \<longleftrightarrow> (case i of (c, t, n) \<Rightarrow> c < n \<and> t < n)"

lemma take_completion:
  assumes ok: "idx_ok (ring_idx sq)" and n: "bce_next_completion sq = (Some c, sq')"
  shows "idx_ok (ring_idx sq')" "completions_left (ring_idx sq') < completions_left (ring_idx sq)"
proof -
  let ?c = "sq_completion_cidx sq" let ?t = "sq_completion_tail sq" let ?n = "sq_el_count sq"
  have r: "ring_idx sq' = (ring_next ?n ?c, ?t, ?n)" "?c \<noteq> ?t"
    using n by (auto simp: bce_next_completion_def ring_idx_def split: if_splits)
  have b: "?c < ?n" "?t < ?n" using ok by (simp_all add: idx_ok_def ring_idx_def)
  have u: "unat (ring_next ?n ?c) = (unat ?c + 1) mod unat ?n" by (rule unat_ring_next [OF b(1)])
  have p: "0 < unat ?n" using b(1) by (simp add: word_less_nat_alt)
  show "idx_ok (ring_idx sq')"
    using b u p by (simp add: idx_ok_def r word_less_nat_alt)
  have ne: "unat ?c \<noteq> unat ?t" using r(2) by (simp add: word_unat_eq_iff)
  have lt: "unat ?c < unat ?n" "unat ?t < unat ?n" using b by (simp_all add: word_less_nat_alt)
  show "completions_left (ring_idx sq') < completions_left (ring_idx sq)"
  proof (cases "unat ?c + 1 = unat ?n")
    case True
    with u ne lt show ?thesis
      unfolding r(1) by (auto simp: completions_left_def ring_idx_def word_le_nat_alt)
  next
    case False
    with u ne lt show ?thesis
      unfolding r(1) by (auto simp: completions_left_def ring_idx_def word_le_nat_alt)
  qed
qed

lemma wf_pos: "tq_wf r q \<Longrightarrow> tq_wf (ring_pos q) q"
  by (simp add: tq_wf_def)

lemma completion_loop_wf:
  assumes "tq_wf r q" and "tq_sq out q = Some sq" and "idx_ok (ring_idx sq)"
  shows "\<exists>q'. completion_loop (transfer_next out) (transfer_handle out) (Some q) = Some (Some q') \<and> tq_wf (ring_pos q') q'"
  using assms
proof (induction "completions_left (ring_idx sq)" arbitrary: q r sq rule: less_induct)
  case less
  obtain x sq1 where n: "bce_next_completion sq = (x, sq1)" by fastforce
  show ?case
  proof (cases x)
    case None
    then have "sq1 = sq" using n by (auto simp: bce_next_completion_def split: if_splits)
    then have "transfer_next out (Some q) = (None, Some q)"
      using n None less.prems(2) by (auto simp: transfer_next_def set_tq_sq_def tq_sq_def)
    then show ?thesis using wf_pos [OF less.prems(1)] by (intro exI [of _ q]) (simp add: completion_loop_None)
  next
    case (Some c)
    note t = take_completion [OF less.prems(3) n [unfolded Some]]
    let ?q1 = "set_tq_sq out sq1 q"
    have "tq_inv ?q1" by (rule tq_inv_view [OF _ wf_invD(1) [OF less.prems(1)]]) (simp add: set_tq_sq_def)
    moreover have "vurb_ok ?q1 v = vurb_ok q v" for v
      using less.prems(2) by (auto simp: vurb_ok_def set_tq_sq_def tq_sq_def split: if_splits)
    moreover have "tq_hcpriv ?q1 = tq_hcpriv q" by (simp add: set_tq_sq_def)
    ultimately have wf1: "tq_wf (ring_pos ?q1) ?q1" using less.prems(1) by (simp add: tq_wf_def)
    obtain q2 where q2: "transfer_complete_one out c ?q1 = Some q2" "tq_wf (ring_pos ?q1) q2"
      using complete_one_wf [OF wf1] by (auto simp: keeps_wfq_def)
    have "tq_sq out ?q1 = Some sq1" by (simp add: tq_sq_def set_tq_sq_def)
    then obtain sq2 where sq2: "tq_sq out q2 = Some sq2" "ring_idx sq2 = ring_idx sq1"
      using q2(2) by (auto simp: tq_wf_def ring_pos_def tq_sq_def split: if_splits)
    have "completion_loop (transfer_next out) (transfer_handle out) (Some q)
        = completion_loop (transfer_next out) (transfer_handle out) (Some q2)"
      using n Some less.prems(2) q2(1) completion_loop_Some [of "transfer_next out" "Some q" c "Some ?q1" "transfer_handle out"]
      by (simp add: transfer_next_def transfer_handle_def)
    with less.hyps [OF _ q2(2) sq2(1)] t sq2(2) show ?thesis by simp
  qed
qed

lemma completion_wf:
  assumes "tq_wf r q" and "tq_sq out q = Some sq" and "idx_ok (ring_idx sq)"
  shows "\<exists>q'. bce_vhci_transfer_queue_completion out q = Some (Some q') \<and> tq_wf (ring_pos q') q'"
proof -
  obtain q1 where q1: "completion_loop (transfer_next out) (transfer_handle out) (Some q) = Some (Some q1)"
    "tq_wf (ring_pos q1) q1" using completion_loop_wf [OF assms] by blast
  obtain q2 where q2: "bce_vhci_transfer_queue_deliver_pending q1 = Some q2" "tq_wf (ring_pos q1) q2"
    using deliver_pending_wf [OF q1(2)] by (auto simp: keeps_wfq_def)
  from q1(1) q2(1) wf_pos [OF giveback_wf [OF q2(2)]] show ?thesis
    by (simp add: bce_vhci_transfer_queue_completion_def)
qed

section \<open>Submission and cancellation\<close>

text \<open>
  A request that may be submitted: it is on no list, and its direction fits the endpoint's rings,
  which the USB core checks before it calls the driver.
\<close>

definition urb_fresh :: "addr \<Rightarrow> bce_vhci_transfer_queue \<Rightarrow> bool" where
  "urb_fresh a q \<longleftrightarrow> a \<notin> set (tq_urb_list q) \<and> a \<notin> set (tq_giveback_urb_list q)
     \<and> a \<notin> set (tq_flush_giveback_list q) \<and> vurb_ok q (new_vurb a q)"

lemma link_wf:
  assumes wf: "tq_wf r q" and f: "urb_fresh a q"
  shows "tq_wf r (q\<lparr>tq_hcpriv := (tq_hcpriv q)(a \<mapsto> new_vurb a q), tq_urb_list := tq_urb_list q @ [a]\<rparr>)"
proof -
  let ?q = "q\<lparr>tq_hcpriv := (tq_hcpriv q)(a \<mapsto> new_vurb a q), tq_urb_list := tq_urb_list q @ [a]\<rparr>"
  have "filter (\<lambda>x. pending_urb ?q x = Some False) (tq_urb_list q) = filter (\<lambda>x. pending_urb q x = Some False) (tq_urb_list q)"
    using f by (intro filter_cong) (auto simp: pending_urb_def urb_fresh_def)
  then have "started_urbs ?q = started_urbs q" by (simp add: started_urbs_def) (simp add: pending_urb_def new_vurb_def)
  then have u: "slots_in_use ?q = slots_in_use q" by (simp add: slots_in_use_def is_control_queue_def)
  have "slots_ok ?q" using wf_invD(1) [OF wf] u by (simp add: tq_inv_def slots_ok_def is_control_queue_def)
  moreover have "lists_ok ?q"
    using wf_invD(1) [OF wf] f
    by (auto simp: tq_inv_def lists_ok_def pending_urb_def control_urb_def is_control_queue_def urb_fresh_def new_vurb_def)
  moreover have "vurb_ok ?q w = vurb_ok q w" for w by (simp add: vurb_ok_def)
  moreover have "ring_pos ?q = ring_pos q" by (simp add: ring_pos_def)
  ultimately show ?thesis using wf f by (auto simp: tq_wf_def tq_inv_def urb_fresh_def)
qed

text \<open>Taking a request off the list, with its slot freed, kept by a ghost or by the flush list.\<close>

lemma wf_unlink:
  assumes wf: "tq_wf r q" and v: "tq_hcpriv q a = Some v"
    and fl: "fl = tq_flush_giveback_list q \<or> fl = tq_flush_giveback_list q @ [a]"
    and g: "0 \<le> gi" "0 \<le> go" "is_control_queue q \<longrightarrow> gi = 0 \<and> go = 0"
    and n: "unat n + nat gi + nat go + (if is_control_queue q then length fl else 0)
      = unat (tq_remaining_active_requests q) + nat (tq_ghost_in_count q) + nat (tq_ghost_out_count q)
        + (if is_control_queue q then length (tq_flush_giveback_list q) else 0)
        + (if vu_state v \<noteq> URB_INIT_PENDING then 1 else 0)"
  shows "tq_wf r ((unlink_urb a q)\<lparr>tq_remaining_active_requests := n, tq_ghost_in_count := gi, tq_ghost_out_count := go,
    tq_flush_giveback_list := fl\<rparr>)"
proof -
  let ?q = "(unlink_urb a q)\<lparr>tq_remaining_active_requests := n, tq_ghost_in_count := gi, tq_ghost_out_count := go,
    tq_flush_giveback_list := fl\<rparr>"
  have l: "lists_ok q" and s: "slots_ok q" using wf_invD(1) [OF wf] by (simp_all add: tq_inv_def)
  have mem: "a \<in> set (tq_urb_list q)" using tq_invD(2) [OF wf_invD(1) [OF wf]] v by blast
  have st: "started_urbs ?q = started_urbs (unlink_urb a q)" and c: "is_control_queue ?q = is_control_queue q"
    by (simp_all add: started_urbs_def pending_urb_def unlink_urb_def is_control_queue_def)
  have "unat n + slots_in_use ?q = unat (tq_remaining_active_requests q) + slots_in_use q"
    unfolding slots_in_use_def st c using unlink_started [OF wf_invD(1) [OF wf] v] n
    by (cases "is_control_queue q"; simp)
  then have "slots_ok ?q" using s c g by (simp add: slots_ok_def) (simp add: unlink_urb_def)
  moreover have "lists_ok ?q"
    using lists_unlink(1) [OF l, of a] lists_unlink(2,3) [OF l mem] lists_unlink(4) [OF l, of a] fl
    by (auto simp: lists_ok_def unlink_urb_def pending_urb_def control_urb_def is_control_queue_def)
  moreover have "vurb_ok ?q w = vurb_ok q w" for w by (simp add: vurb_ok_def unlink_urb_def)
  moreover have "tq_hcpriv ?q b = Some w \<Longrightarrow> tq_hcpriv q b = Some w" for b w
    by (auto simp: unlink_urb_def split: if_splits)
  moreover have "ring_pos ?q = ring_pos q" by (simp add: ring_pos_def unlink_urb_def)
  ultimately show ?thesis using wf unfolding tq_wf_def tq_inv_def by metis
qed

lemma urb_init_fails:
  assumes wf: "tq_wf r q" and v: "tq_hcpriv q a = Some v" and i: "bce_vhci_urb_init a q = Some (st, q')" "st \<noteq> 0"
  shows "same_urbs q q'"
proof (cases "vu_is_control v \<or> vu_dir v = DMA_TO_DEVICE")
  case True
  then show ?thesis
    using v i by (auto simp: bce_vhci_urb_init_def bce_vhci_urb_data_start_def split: if_splits)
next
  case False
  then have "tq_sq_in q \<noteq> None" using wf_invD(2) [OF wf v] by (auto simp: vurb_ok_def)
  from data_in_result [OF v this] obtain q1 where q1: "same_urbs q q1"
    "bce_vhci_urb_data_transfer_in a q = Some (- ENOMEM, q1)
    \<or> bce_vhci_urb_data_transfer_in a q = Some (0, set_vurb a (\<lambda>w. w\<lparr>vu_send_offset := vu_receive_offset v,
        vu_state := URB_WAITING_FOR_COMPLETION\<rparr>) q1)" by blast
  with False v i show ?thesis
    by (auto simp: bce_vhci_urb_init_def bce_vhci_urb_data_start_def split: if_splits)
qed

lemma create_tail_wf:
  assumes "st = 0 \<longrightarrow> tq_wf r q2" and "st \<noteq> 0 \<longrightarrow> tq_wf r (unlink_urb a q2)"
  shows "keeps_wf r (Option.bind (if st \<noteq> 0 then Some (unlink_urb a q2) else bce_vhci_transfer_queue_deliver_pending q2)
     (\<lambda>q3. Some (st, bce_vhci_transfer_queue_giveback q3)))"
  using assms deliver_pending_wf [of r q2] giveback_wf [of r] by (auto simp: keeps_wf_def keeps_wfq_def)

lemma create_wf:
  assumes wf: "tq_wf r q" and f: "urb_fresh a q"
  shows "keeps_wf r (bce_vhci_urb_create mem link a q)"
proof -
  let ?q1 = "q\<lparr>tq_hcpriv := (tq_hcpriv q)(a \<mapsto> new_vurb a q), tq_urb_list := tq_urb_list q @ [a]\<rparr>"
  note wf1 = link_wf [OF wf f]
  have v1: "tq_hcpriv ?q1 a = Some (new_vurb a q)" "vu_state (new_vurb a q) = URB_INIT_PENDING"
    by (simp_all add: new_vurb_def)
  have "tq_hcpriv q a = None" using f tq_invD(2) [OF wf_invD(1) [OF wf], of a] by (auto simp: urb_fresh_def)
  then have same: "q\<lparr>tq_hcpriv := (tq_hcpriv q)(a := None)\<rparr> = q" by (simp add: fun_upd_idem)
  obtain st q2 where i: "bce_vhci_urb_init a ?q1 = Some (st, q2)" "tq_wf r q2"
    using urb_init_wf [OF wf1 v1] by (auto simp: keeps_wf_def)
  have un: "tq_wf r (unlink_urb a q2)" if "st \<noteq> 0"
  proof -
    have s: "same_urbs ?q1 q2" by (rule urb_init_fails [OF wf1 v1(1) i(1) that])
    have v2: "tq_hcpriv q2 a = Some (new_vurb a q)" using s v1 by (simp add: hcpriv_same)
    note d = wf_invD(1) [OF i(2), unfolded tq_inv_def slots_ok_def]
    have "tq_wf r ((unlink_urb a q2)\<lparr>tq_remaining_active_requests := tq_remaining_active_requests q2,
        tq_ghost_in_count := tq_ghost_in_count q2, tq_ghost_out_count := tq_ghost_out_count q2,
        tq_flush_giveback_list := tq_flush_giveback_list q2\<rparr>)"
      by (rule wf_unlink [OF i(2) v2]) (use d v1(2) in auto)
    then show ?thesis by (simp add: unlink_urb_def)
  qed
  have q1: "tq_wf r (bce_vhci_transfer_queue_request_reset ?q1)" "tq_wf r (?q1\<lparr>tq_w_resume := True\<rparr>)"
    using wf1 by (simp_all add: bce_vhci_transfer_queue_request_reset_def wf_field_update)
  show ?thesis
    using create_tail_wf [of st r q2 a] create_tail_wf [of 0 r _ a] i un wf1 q1 same wf
    by (auto simp: bce_vhci_urb_create_def unlink_urb_def [symmetric] Let_def)
qed

lemma unlink_fields:
  "unlink_urb a (q\<lparr>tq_ghost_in_count := x\<rparr>) = (unlink_urb a q)\<lparr>tq_ghost_in_count := x\<rparr>"
  "unlink_urb a (q\<lparr>tq_ghost_out_count := x\<rparr>) = (unlink_urb a q)\<lparr>tq_ghost_out_count := x\<rparr>"
  "unlink_urb a (q\<lparr>tq_remaining_active_requests := y\<rparr>) = (unlink_urb a q)\<lparr>tq_remaining_active_requests := y\<rparr>"
  by (simp_all add: unlink_urb_def)

lemma unlink_same [simp]:
  "(unlink_urb a q)\<lparr>tq_ghost_in_count := tq_ghost_in_count q\<rparr> = unlink_urb a q"
  "(unlink_urb a q)\<lparr>tq_ghost_out_count := tq_ghost_out_count q\<rparr> = unlink_urb a q"
  "tq_flush_giveback_list (unlink_urb a q) = tq_flush_giveback_list q" "tq_given (unlink_urb a q) = tq_given q"
  "tq_ghost_in_count (unlink_urb a q) = tq_ghost_in_count q" "tq_ghost_out_count (unlink_urb a q) = tq_ghost_out_count q"
  by (simp_all add: unlink_urb_def)

text \<open>The two ends of a cancellation: the flush list, or back to the USB core.\<close>

lemma cancel_ends:
  assumes "\<And>fl. fl = tq_flush_giveback_list q \<or> fl = tq_flush_giveback_list q @ [a]
    \<Longrightarrow> tq_wf r (q2\<lparr>tq_flush_giveback_list := fl\<rparr>)" and "tq_flush_giveback_list q2 = tq_flush_giveback_list q"
  shows "keeps_wf r (if b then Some (0, set_urb a (\<lambda>u. u\<lparr>ur_status := status\<rparr>)
        (q2\<lparr>tq_flush_giveback_list := tq_flush_giveback_list q2 @ [a], tq_w_flush := True\<rparr>))
      else Some (0, q2\<lparr>tq_given := tq_given q2 @ [(a, status)]\<rparr>))"
proof -
  have "tq_wf r (q2\<lparr>tq_flush_giveback_list := tq_flush_giveback_list q2 @ [a]\<rparr>)"
    using assms(1) [of "tq_flush_giveback_list q @ [a]"] assms(2) by simp
  then have "tq_wf r (set_urb a (\<lambda>u. u\<lparr>ur_status := status\<rparr>)
      (q2\<lparr>tq_flush_giveback_list := tq_flush_giveback_list q2 @ [a], tq_w_flush := True\<rparr>))"
    by (intro wf_set_urb) (simp add: wf_field_update)
  moreover have "q2\<lparr>tq_flush_giveback_list := tq_flush_giveback_list q\<rparr> = q2" using assms(2) by simp
  then have "tq_wf r q2" using assms(1) [of "tq_flush_giveback_list q"] by simp
  ultimately show ?thesis by (auto simp: wf_field_update)
qed

lemma keeps_cancel:
  assumes "\<And>fl. fl = tq_flush_giveback_list q \<or> fl = tq_flush_giveback_list q @ [a]
    \<Longrightarrow> tq_wf r ((unlink_urb a q1)\<lparr>tq_flush_giveback_list := fl\<rparr>)" and "tq_flush_giveback_list q1 = tq_flush_giveback_list q"
  shows "keeps_wf r (if (tq_ghost_in_count q1 > 0 \<or> tq_ghost_out_count q1 > 0) \<and> remove1 a (tq_urb_list q1) = []
      then Some (0, set_urb a (\<lambda>u. u\<lparr>ur_status := status\<rparr>)
        ((unlink_urb a q1)\<lparr>tq_flush_giveback_list := tq_flush_giveback_list q1 @ [a], tq_w_flush := True\<rparr>))
      else Some (0, (unlink_urb a q1)\<lparr>tq_given := tq_given q1 @ [(a, status)]\<rparr>))"
  using cancel_ends [of q a r "unlink_urb a q1" True status, OF assms(1)]
    cancel_ends [of q a r "unlink_urb a q1" False status, OF assms(1)] assms(2) by simp

lemma cancel_wf:
  assumes wf: "tq_wf r q" and l: "check = 0 \<longrightarrow> a \<in> set (tq_urb_list q)"
  shows "keeps_wf r (bce_vhci_urb_request_cancel check a status q)"
proof (cases "check = 0")
  case True
  then obtain v where v: "tq_hcpriv q a = Some v" using l tq_invD(2) [OF wf_invD(1) [OF wf]] by blast
  note d = wf_invD(1) [OF wf, unfolded tq_inv_def slots_ok_def]
  have ctl: "vu_is_control v = is_control_queue q" by (rule tq_invD(3) [OF wf_invD(1) [OF wf] v])
  have un: "tq_wf r ((unlink_urb a q)\<lparr>tq_remaining_active_requests := n, tq_ghost_in_count := gi, tq_ghost_out_count := go,
      tq_flush_giveback_list := fl\<rparr>)"
    if "fl = tq_flush_giveback_list q \<or> fl = tq_flush_giveback_list q @ [a]"
      "0 \<le> gi" "0 \<le> go" "is_control_queue q \<longrightarrow> gi = 0 \<and> go = 0"
      "unat n + nat gi + nat go + (if is_control_queue q then length fl else 0)
      = unat (tq_remaining_active_requests q) + nat (tq_ghost_in_count q) + nat (tq_ghost_out_count q)
        + (if is_control_queue q then length (tq_flush_giveback_list q) else 0)
        + (if vu_state v \<noteq> URB_INIT_PENDING then 1 else 0)" for fl gi go n
    by (rule wf_unlink [OF wf v that])
  note unfold = bce_vhci_urb_request_cancel_def True v Let_def unlink_urb_def
  consider (cancelled) "vu_state v = URB_CANCELLED"
    | (control) "vu_state v \<noteq> URB_CANCELLED" "vu_state v \<noteq> URB_INIT_PENDING" "is_control_queue q"
    | (pending) "vu_state v = URB_INIT_PENDING"
    | (waiting) "vu_state v = URB_WAITING_FOR_COMPLETION" "\<not> is_control_queue q"
    | (other) "vu_state v \<noteq> URB_CANCELLED" "vu_state v \<noteq> URB_INIT_PENDING" "vu_state v \<noteq> URB_WAITING_FOR_COMPLETION"
        "\<not> is_control_queue q" by auto
  then show ?thesis
  proof cases
    case cancelled
    with v True wf show ?thesis by (auto simp: bce_vhci_urb_request_cancel_def)
  next
    case control
    have "tq_wf r ((unlink_urb a q)\<lparr>tq_remaining_active_requests := tq_remaining_active_requests q,
        tq_ghost_in_count := tq_ghost_in_count q, tq_ghost_out_count := tq_ghost_out_count q,
        tq_flush_giveback_list := tq_flush_giveback_list q @ [a]\<rparr>)"
      by (rule un) (use d control in auto)
    then have "tq_wf r (set_urb a (\<lambda>u. u\<lparr>ur_status := status\<rparr>)
      ((unlink_urb a q)\<lparr>tq_flush_giveback_list := tq_flush_giveback_list q @ [a], tq_w_flush := True\<rparr>))"
      by (intro wf_set_urb) (simp add: wf_field_update unlink_urb_def)
    with control ctl v True show ?thesis by (auto simp: bce_vhci_urb_request_cancel_def unlink_urb_def)
  next
    case pending
    have e: "keeps_wf r (if b then Some (0, set_urb a (\<lambda>u. u\<lparr>ur_status := status\<rparr>)
        ((unlink_urb a q)\<lparr>tq_flush_giveback_list := tq_flush_giveback_list (unlink_urb a q) @ [a], tq_w_flush := True\<rparr>))
      else Some (0, (unlink_urb a q)\<lparr>tq_given := tq_given (unlink_urb a q) @ [(a, status)]\<rparr>))"
      if "\<not> is_control_queue q" for b
    proof (rule cancel_ends)
      fix fl assume "fl = tq_flush_giveback_list q \<or> fl = tq_flush_giveback_list q @ [a]"
      from un [OF this, of "tq_ghost_in_count q" "tq_ghost_out_count q" "tq_remaining_active_requests q"] that pending d
      show "tq_wf r ((unlink_urb a q)\<lparr>tq_flush_giveback_list := fl\<rparr>)" by (auto simp: unlink_urb_def)
    qed (simp add: unlink_urb_def)
    have "tq_wf r (unlink_urb a q)"
      using un [of "tq_flush_giveback_list q" "tq_ghost_in_count q" "tq_ghost_out_count q" "tq_remaining_active_requests q"]
        pending d by (auto simp: unlink_urb_def)
    then have "keeps_wf r (Some (0, (unlink_urb a q)\<lparr>tq_given := tq_given (unlink_urb a q) @ [(a, status)]\<rparr>))"
      by (auto simp: wf_field_update)
    with e [of True] pending d show ?thesis
      by (cases "is_control_queue q") (auto simp: bce_vhci_urb_request_cancel_def True v Let_def unlink_urb_def)
  next
    case waiting
    let ?gi = "tq_ghost_in_count q + (if vu_dir v = DMA_FROM_DEVICE then 1 else 0)"
    let ?go = "tq_ghost_out_count q + (if vu_dir v = DMA_FROM_DEVICE then 0 else 1)"
    let ?q1 = "if vu_dir v = DMA_FROM_DEVICE then q\<lparr>tq_ghost_in_count := tq_ghost_in_count q + 1\<rparr>
      else q\<lparr>tq_ghost_out_count := tq_ghost_out_count q + 1\<rparr>"
    have n: "nat ?gi + nat ?go = nat (tq_ghost_in_count q) + nat (tq_ghost_out_count q) + 1" "0 \<le> ?gi" "0 \<le> ?go"
      using d by (auto simp: nat_add_distrib)
    have eq: "(unlink_urb a ?q1)\<lparr>tq_flush_giveback_list := fl\<rparr> = (unlink_urb a q)\<lparr>tq_remaining_active_requests :=
        tq_remaining_active_requests q, tq_ghost_in_count := ?gi, tq_ghost_out_count := ?go, tq_flush_giveback_list := fl\<rparr>"
      for fl by (cases q) (simp add: unlink_urb_def)
    have "tq_wf r ((unlink_urb a ?q1)\<lparr>tq_flush_giveback_list := fl\<rparr>)"
      if "fl = tq_flush_giveback_list q \<or> fl = tq_flush_giveback_list q @ [a]" for fl
      unfolding eq by (rule un [OF that n(2,3)]) (use n(1) waiting in auto)
    from keeps_cancel [where q = q and a = a and ?q1.0 = ?q1 and status = status, OF this]
    show ?thesis using waiting ctl by (auto simp: bce_vhci_urb_request_cancel_def True v Let_def unlink_urb_def split: if_splits)
  next
    case other
    let ?q1 = "q\<lparr>tq_remaining_active_requests := tq_remaining_active_requests q + 1\<rparr>"
    have "0 < slots_in_use q"
      using unlink_started [OF wf_invD(1) [OF wf] v] other by (auto simp: slots_in_use_def)
    then have "unat (tq_remaining_active_requests q + 1) = unat (tq_remaining_active_requests q) + 1"
      using slot_freed d by blast
    note n = this
    have eq: "(unlink_urb a ?q1)\<lparr>tq_flush_giveback_list := fl\<rparr> = (unlink_urb a q)\<lparr>tq_remaining_active_requests :=
        tq_remaining_active_requests q + 1, tq_ghost_in_count := tq_ghost_in_count q,
        tq_ghost_out_count := tq_ghost_out_count q, tq_flush_giveback_list := fl\<rparr>"
      for fl by (cases q) (simp add: unlink_urb_def)
    have "tq_wf r ((unlink_urb a ?q1)\<lparr>tq_flush_giveback_list := fl\<rparr>)"
      if "fl = tq_flush_giveback_list q \<or> fl = tq_flush_giveback_list q @ [a]" for fl
      unfolding eq by (rule un [OF that]) (use n other d in auto)
    from keeps_cancel [where q = q and a = a and ?q1.0 = ?q1 and status = status, OF this]
    show ?thesis using other ctl by (auto simp: bce_vhci_urb_request_cancel_def True v Let_def unlink_urb_def split: if_splits)
  qed
qed (use wf in \<open>auto simp: bce_vhci_urb_request_cancel_def\<close>)

end
