(* ===== verification/Vhci_History.thy ===== *)
theory Vhci_History
  imports Vhci_Slots
begin

unbundle bit_operations_syntax

text \<open>
  Whole histories of a transfer queue: the resume and flush steps of the invariant, the step
  relation with its reachable states, the slot accounting, the pause sources, and what goes wrong on
  the less travelled paths of \<open>src/vhci/transfer.c\<close>.
\<close>

section \<open>Resuming and flushing\<close>

text \<open>No output is waiting for its completion.\<close>

definition no_output_waiting :: "bce_vhci_transfer_queue \<Rightarrow> bool" where
  "no_output_waiting q \<longleftrightarrow> (\<forall>a v. tq_hcpriv q a = Some v \<longrightarrow> vu_state v = URB_WAITING_FOR_COMPLETION
     \<longrightarrow> vu_dir v = DMA_FROM_DEVICE)"

text \<open>Steps that change the state of the request \<open>a\<close> only, or take it off the list.\<close>

definition only_urb :: "addr \<Rightarrow> bce_vhci_transfer_queue \<Rightarrow> bce_vhci_transfer_queue \<Rightarrow> bool" where
  "only_urb a q q' \<longleftrightarrow> (\<forall>b. b \<noteq> a \<longrightarrow> tq_hcpriv q' b = tq_hcpriv q b) \<and> set (tq_urb_list q) - {a} \<subseteq> set (tq_urb_list q')
     \<and> (\<forall>v. tq_hcpriv q a = Some v \<longrightarrow> (\<forall>w. tq_hcpriv q' a = Some w \<longrightarrow> vu_dir w = vu_dir v))"

lemma urb_init_only:
  assumes wf: "tq_wf r q" and v: "tq_hcpriv q a = Some v" and i: "bce_vhci_urb_init a q = Some (st, q')"
  shows "only_urb a q q'"
proof (cases "vu_is_control v \<or> vu_dir v = DMA_TO_DEVICE")
  case True
  then show ?thesis
    using v i by (auto simp: bce_vhci_urb_init_def bce_vhci_urb_data_start_def only_urb_def set_vurb_def split: if_splits)
next
  case False
  then have "tq_sq_in q \<noteq> None" using wf_invD(2) [OF wf v] by (auto simp: vurb_ok_def)
  from data_in_result [OF v this] obtain q1 where q1: "same_urbs q q1"
    "bce_vhci_urb_data_transfer_in a q = Some (- ENOMEM, q1)
    \<or> bce_vhci_urb_data_transfer_in a q = Some (0, set_vurb a (\<lambda>w. w\<lparr>vu_send_offset := vu_receive_offset v,
        vu_state := URB_WAITING_FOR_COMPLETION\<rparr>) q1)" by blast
  have "tq_urb_list q1 = tq_urb_list q" "tq_hcpriv q1 = tq_hcpriv q"
    using q1(1) by (simp_all add: same_urbs_def slot_view_def)
  with False v i q1(2) show ?thesis
    by (auto simp: bce_vhci_urb_init_def bce_vhci_urb_data_start_def only_urb_def set_vurb_def split: if_splits)
qed

lemma urb_resume_wf:
  assumes wf: "tq_wf r q" and v: "tq_hcpriv q a = Some v" "vu_state v \<noteq> URB_INIT_PENDING"
    and d: "vu_state v = URB_WAITING_FOR_COMPLETION \<longrightarrow> vu_dir v = DMA_FROM_DEVICE"
  shows "\<exists>q'. bce_vhci_urb_resume a q = Some q' \<and> tq_wf r q' \<and> only_urb a q q'"
proof (cases "vu_state v = URB_WAITING_FOR_COMPLETION")
  case w: True
  then have "tq_sq_in q \<noteq> None" using wf_invD(2) [OF wf v(1)] d by (auto simp: vurb_ok_def)
  from data_in_result [OF v(1) this] obtain q1 where q1: "same_urbs q q1"
    "bce_vhci_urb_data_transfer_in a q = Some (- ENOMEM, q1)
    \<or> bce_vhci_urb_data_transfer_in a q = Some (0, set_vurb a (\<lambda>w. w\<lparr>vu_send_offset := vu_receive_offset v,
        vu_state := URB_WAITING_FOR_COMPLETION\<rparr>) q1)" by blast
  note wf1 = wf_same [OF wf q1(1)]
  have l: "tq_urb_list q1 = tq_urb_list q" and h: "tq_hcpriv q1 = tq_hcpriv q"
    using q1(1) by (simp_all add: same_urbs_def slot_view_def)
  have v1: "tq_hcpriv q1 a = Some v" using v(1) h by simp
  let ?f = "\<lambda>w. w\<lparr>vu_send_offset := vu_receive_offset v, vu_state := URB_WAITING_FOR_COMPLETION\<rparr>"
  have wf2: "tq_wf r (set_vurb a ?f q1)"
    by (rule wf_set_vurb [OF wf1 v1]) (use v wf_invD(2) [OF wf1 v1] in \<open>simp_all add: vurb_ok_def\<close>)
  obtain q2 where q2: "bce_vhci_urb_complete a (- ENOMEM) q1 = Some q2" "tq_wf r q2" using complete_wf [OF wf1 v1] by blast
  have "only_urb a q q2"
    using q2(1) complete_unfold [OF v1, of "- ENOMEM"] l h
    by (auto simp: only_urb_def unlink_urb_def set_urb_def dest: in_set_remove1 [THEN iffD2, rotated])
  moreover have "only_urb a q (set_vurb a ?f q1)" using l h v(1) by (auto simp: only_urb_def set_vurb_def)
  ultimately show ?thesis using q1(2) w v(1) q2 wf2 by (auto simp: bce_vhci_urb_resume_def)
next
  case False
  then show ?thesis using wf v by (auto simp: bce_vhci_urb_resume_def only_urb_def)
qed

lemma resume_loop_wf:
  assumes "tq_wf r q" and "set as \<subseteq> set (tq_urb_list q)" and "distinct as"
    and "\<forall>a \<in> set as. \<forall>v. tq_hcpriv q a = Some v \<longrightarrow> vu_state v = URB_WAITING_FOR_COMPLETION \<longrightarrow> vu_dir v = DMA_FROM_DEVICE"
  shows "keeps_wfq r (resume_loop as q)"
  using assms
proof (induction as arbitrary: q)
  case (Cons a as)
  note wf = Cons.prems(1)
  obtain v where v: "tq_hcpriv q a = Some v" using Cons.prems(2) tq_invD(2) [OF wf_invD(1) [OF wf]] by auto
  have rest: "keeps_wfq r (resume_loop as q')" if "tq_wf r q'" "only_urb a q q'" for q'
  proof (rule Cons.IH [OF that(1)])
    show "set as \<subseteq> set (tq_urb_list q')" using that(2) Cons.prems(2,3) by (auto simp: only_urb_def)
    show "distinct as" using Cons.prems(3) by simp
    show "\<forall>a \<in> set as. \<forall>v. tq_hcpriv q' a = Some v \<longrightarrow> vu_state v = URB_WAITING_FOR_COMPLETION \<longrightarrow> vu_dir v = DMA_FROM_DEVICE"
    proof (intro ballI)
      fix b assume b: "b \<in> set as"
      then have "tq_hcpriv q' b = tq_hcpriv q b" using Cons.prems(3) that(2) by (auto simp: only_urb_def)
      with b Cons.prems(4) show "\<forall>v. tq_hcpriv q' b = Some v \<longrightarrow> vu_state v = URB_WAITING_FOR_COMPLETION
          \<longrightarrow> vu_dir v = DMA_FROM_DEVICE" by simp
    qed
  qed
  show ?case
  proof (cases "vu_state v = URB_INIT_PENDING")
    case True
    have "keeps_wfq r (Option.bind (bce_vhci_urb_init a q) (\<lambda>(st, q1). resume_loop as q1))"
      by (rule keeps_bind(1) [OF urb_init_wf [OF wf v True]]) (auto intro: rest urb_init_only [OF wf v])
    with True v wf show ?thesis by auto
  next
    case False
    obtain q' where "bce_vhci_urb_resume a q = Some q'" "tq_wf r q'" "only_urb a q q'"
      using urb_resume_wf [OF wf v False] Cons.prems(4) v by auto
    with rest False v show ?thesis by simp
  qed
qed auto

lemma resume_wf:
  assumes "tq_wf r q" and "no_output_waiting q"
  shows "keeps_wfq r (resume_loop (tq_urb_list q) (q\<lparr>tq_active := True\<rparr>))"
  using assms tq_invD(1) [OF wf_invD(1) [OF assms(1)]]
  by (intro resume_loop_wf) (auto simp: wf_field_update no_output_waiting_def)

lemma flush_slots_wf:
  assumes wf: "tq_wf r q" and s: "started_urbs q = 0"
  shows "tq_wf r (flush_slots q)"
proof -
  have "started_urbs (flush_slots q) = started_urbs q" "is_control_queue (flush_slots q) = is_control_queue q"
    by (simp_all add: started_urbs_def pending_urb_def is_control_queue_def flush_slots_def)
  then have "slots_in_use (flush_slots q) = 0" using s by (simp add: slots_in_use_def flush_slots_def)
  then have "slots_ok (flush_slots q)" using wf_invD(1) [OF wf] by (simp add: tq_inv_def slots_ok_def flush_slots_def)
  moreover have "lists_ok (flush_slots q)"
    using wf_invD(1) [OF wf]
    by (simp add: tq_inv_def lists_ok_def flush_slots_def pending_urb_def control_urb_def is_control_queue_def)
  moreover have "vurb_ok (flush_slots q) w = vurb_ok q w" for w by (simp add: vurb_ok_def flush_slots_def)
  moreover have "ring_pos (flush_slots q) = ring_pos q" "tq_hcpriv (flush_slots q) = tq_hcpriv q"
    by (simp_all add: ring_pos_def flush_slots_def)
  ultimately show ?thesis using wf by (simp add: tq_wf_def tq_inv_def)
qed

section \<open>Histories of a queue\<close>

text \<open>
  A transfer queue with everything that happens to it between the creation and the destruction:
  submissions, cancellations, events, completions, pauses, resumes, the flush, and the device, which
  fills the rings.
\<close>

inductive tq_step :: "bce_vhci_transfer_queue \<Rightarrow> bce_vhci_transfer_queue \<Rightarrow> bool" where
  ts_create: "urb_fresh a q \<Longrightarrow> bce_vhci_urb_create mem link a q = Some (st, q') \<Longrightarrow> tq_step q q'"
| ts_cancel: "(check = 0 \<longrightarrow> a \<in> set (tq_urb_list q)) \<Longrightarrow> bce_vhci_urb_request_cancel check a status q = Some (st, q')
    \<Longrightarrow> tq_step q q'"
| ts_event: "bce_vhci_transfer_queue_event mem msg q = Some q' \<Longrightarrow> tq_step q q'"
| ts_completion: "tq_sq out q = Some sq \<Longrightarrow> idx_ok (ring_idx sq)
    \<Longrightarrow> bce_vhci_transfer_queue_completion out q = Some (Some q') \<Longrightarrow> tq_step q q'"
| ts_cancel_all: "bce_vhci_transfer_queue_cancel_all q = Some q' \<Longrightarrow> tq_step q q'"
| ts_pause: "tq_step q (bce_vhci_transfer_queue_remove_pending (q\<lparr>tq_active := False\<rparr>))"
| ts_marks: "tq_step q (q\<lparr>tq_stalled := b, tq_paused_by := p, tq_state := s, tq_w_reset := w1, tq_w_resume := w2,
    tq_w_flush := w3\<rparr>)"
| ts_resume: "no_output_waiting q \<Longrightarrow> resume_loop (tq_urb_list q) (q\<lparr>tq_active := True\<rparr>) = Some q1
    \<Longrightarrow> bce_vhci_transfer_queue_deliver_pending q1 = Some q' \<Longrightarrow> tq_step q q'"
| ts_flush: "started_urbs q = 0 \<Longrightarrow> tq_step q (flush_slots q)"
| ts_giveback: "tq_step q (bce_vhci_transfer_queue_giveback q)"
| ts_device: "tq_sq out q \<noteq> None \<Longrightarrow> tq_step q (set_tq_sq out sq q)"

inductive tq_reachable :: "bce_vhci_transfer_queue \<Rightarrow> bool" where
  tr_init: "tq_urb_list q = [] \<Longrightarrow> tq_hcpriv q = Map.empty
    \<Longrightarrow> tq_reachable ((transfer_queue_init endp dev_addr q)\<lparr>tq_sq_in := si, tq_sq_out := so\<rparr>)"
| tr_step: "tq_reachable q \<Longrightarrow> tq_step q q' \<Longrightarrow> tq_reachable q'"

lemma tq_step_wf:
  assumes "tq_step q q'" and wf: "tq_wf r q"
  shows "tq_wf (ring_pos q') q'"
  using assms(1)
proof (cases rule: tq_step.cases)
  case (ts_create a mem link st)
  with create_wf [OF wf, of a mem link] show ?thesis by (auto simp: keeps_wf_def wf_pos)
next
  case (ts_cancel check a status st)
  with cancel_wf [OF wf, of check a status] show ?thesis by (auto simp: keeps_wf_def wf_pos)
next
  case (ts_event mem msg)
  with event_wf [OF wf, of mem msg] show ?thesis by (auto simp: keeps_wfq_def wf_pos)
next
  case (ts_completion out sq)
  with completion_wf [OF wf] show ?thesis by fastforce
next
  case ts_cancel_all
  with cancel_all_wf [OF wf] show ?thesis by (auto simp: keeps_wfq_def wf_pos)
next
  case ts_pause
  then have "tq_wf r q'" using wf by (simp add: bce_vhci_transfer_queue_remove_pending_def wf_field_update)
  then show ?thesis by (rule wf_pos)
next
  case (ts_marks b p s w1 w2 w3)
  then have "tq_wf r q'" using wf by (simp add: wf_field_update)
  then show ?thesis by (rule wf_pos)
next
  case (ts_resume q1)
  then have "tq_wf r q1" using resume_wf [OF wf] by (auto simp: keeps_wfq_def)
  from deliver_pending_wf [OF this] ts_resume(3) show ?thesis by (auto simp: keeps_wfq_def wf_pos)
next
  case ts_flush
  then show ?thesis using wf_pos [OF flush_slots_wf [OF wf]] by simp
next
  case ts_giveback
  then show ?thesis using wf_pos [OF giveback_wf [OF wf]] by simp
next
  case (ts_device out sq)
  have "tq_inv q'" unfolding ts_device(1) by (rule tq_inv_view [OF _ wf_invD(1) [OF wf]]) (simp add: set_tq_sq_def)
  moreover have "vurb_ok q' v = vurb_ok q v" for v
    using ts_device by (auto simp: vurb_ok_def set_tq_sq_def tq_sq_def split: if_splits)
  moreover have "tq_hcpriv q' = tq_hcpriv q" using ts_device(1) by (simp add: set_tq_sq_def)
  ultimately show ?thesis using wf by (simp add: tq_wf_def)
qed

lemma tq_reachable_wf: "tq_reachable q \<Longrightarrow> tq_wf (ring_pos q) q"
proof (induction rule: tq_reachable.induct)
  case (tr_init q endp dev_addr si so)
  then show ?case
    by (simp add: tq_wf_def tq_inv_def lists_ok_def slots_ok_def slots_in_use_def started_urbs_def pending_urb_def
        control_urb_def transfer_queue_init_def transfer_queue_fields_def max_active_urbs_def)
next
  case (tr_step q q')
  then show ?case by (blast intro: tq_step_wf)
qed


section \<open>Examples\<close>

text \<open>A bulk output endpoint with four-slot rings.\<close>

definition ex_endp :: usb_endpoint where
  "ex_endp = \<lparr>ep_address = 2, ep_type = USB_ENDPOINT_XFER_BULK, ep_maxp = 512, ep_maxp_mult = 1, ep_interval = 0\<rparr>"

definition ex_urb :: urb where
  "ex_urb = \<lparr>ur_dir_in = False, ur_transfer_buffer_length = 16, ur_transfer_dma = 0x100, ur_setup_dma = 0,
     ur_number_of_packets = 0, ur_actual_length = 0, ur_status = 0, ur_error_count = 0, ur_iso_frame_desc = []\<rparr>"

definition ex_tq0 :: bce_vhci_transfer_queue where
  "ex_tq0 = \<lparr>tq_endp = ex_endp, tq_state = 0, tq_max_active_requests = 0, tq_remaining_active_requests = 0,
     tq_active = False, tq_stalled = False, tq_paused_by = 0, tq_dev_addr = 0, tq_endp_addr = 0, tq_sq_in = None,
     tq_sq_out = None, tq_evq = [], tq_giveback_urb_list = [], tq_flush_giveback_list = [], tq_sq_out_pending = 0,
     tq_ghost_in_count = 0, tq_ghost_out_count = 0, tq_urb_list = [], tq_urb = (\<lambda>a. ex_urb), tq_hcpriv = Map.empty,
     tq_mq = ex_mq, tq_given = [], tq_mmio = [], tq_w_reset = False, tq_w_resume = False, tq_w_flush = False\<rparr>"

definition ex_tq :: bce_vhci_transfer_queue where
  "ex_tq = (transfer_queue_init ex_endp 1 ex_tq0)\<lparr>tq_sq_in := None, tq_sq_out := Some ex_vring\<rparr>"

lemma ex_tq_reachable: "tq_reachable ex_tq"
  unfolding ex_tq_def by (rule tr_init) (simp_all add: ex_tq0_def)

lemmas ex_tq_defs = ex_tq_def ex_tq0_def ex_endp_def ex_urb_def ex_mq_def ex_vring_def bce_alloc_sq_def
  transfer_queue_init_def transfer_queue_fields_def max_active_urbs_def

text \<open>The message that asks for the data of an output request.\<close>

definition ex_transfer_request :: bce_vhci_message where
  "ex_transfer_request = vhci_cmd BCE_VHCI_CMD_TRANSFER_REQUEST 0x201 512"

text \<open>The queue after an output was submitted, and after the device asked for its data.\<close>

definition ex_tq_created :: bce_vhci_transfer_queue where
  "ex_tq_created = snd (the (bce_vhci_urb_create True 0 7 ex_tq))"

definition ex_tq_sent :: bce_vhci_transfer_queue where
  "ex_tq_sent = the (bce_vhci_transfer_queue_event True ex_transfer_request ex_tq_created)"

lemmas ex_run_defs = bce_vhci_urb_create_def new_vurb_def bce_vhci_transfer_queue_can_init_urb_def
  bce_vhci_urb_init_def bce_vhci_urb_data_start_def set_vurb_def set_urb_def usb_endpoint_num_def
  bce_vhci_transfer_queue_deliver_pending_def bce_vhci_transfer_queue_init_pending_urbs_def
  bce_vhci_transfer_queue_giveback_def bce_vhci_transfer_queue_event_def transfer_event_def
  bce_vhci_urb_update_def bce_vhci_urb_data_update_def bce_vhci_urb_send_out_data_def
  ex_transfer_request_def vhci_cmd_def bce_vhci_urb_request_cancel_def

lemma ex_created_step: "bce_vhci_urb_create True 0 7 ex_tq = Some (0, ex_tq_created)"
  by (simp add: ex_tq_created_def ex_tq_defs ex_run_defs)


lemma ex_sent_step: "bce_vhci_transfer_queue_event True ex_transfer_request ex_tq_created = Some ex_tq_sent"
  by (simp add: ex_tq_sent_def ex_tq_created_def ex_tq_defs ex_run_defs bce_reserve_submission.simps
      atomic_dec_if_positive_def split: prod.split)

lemma ex_tq_created_reachable: "tq_reachable ex_tq_created"
proof (rule tr_step [OF ex_tq_reachable], rule ts_create [where a = 7, OF _ ex_created_step])
  show "urb_fresh 7 ex_tq" by (simp add: urb_fresh_def vurb_ok_def new_vurb_def ex_tq_defs)
qed

lemma ex_tq_sent_reachable: "tq_reachable ex_tq_sent"
  by (rule tr_step [OF ex_tq_created_reachable ts_event [OF ex_sent_step]])


section \<open>Pause sources\<close>

text \<open>
  The mask of pause sources is guarded by the queue's mutex, which a pause or a resume holds while
  it sleeps: what other contexts do meanwhile leaves it alone.
\<close>

definition keeps_sources :: "(bce_vhci_transfer_queue \<Rightarrow> bce_vhci_transfer_queue) \<Rightarrow> bool" where
  "keeps_sources f \<longleftrightarrow> (\<forall>q. tq_paused_by (f q) = tq_paused_by q)"

definition respects_pause_lock :: "pause_env \<Rightarrow> bool" where
  "respects_pause_lock env \<longleftrightarrow> keeps_sources (pe_wait env) \<and> keeps_sources (pe_cmd_act env)
     \<and> keeps_sources (pe_flush_in env) \<and> keeps_sources (pe_flush_out env)"

lemma respects_pause_lockD:
  assumes "respects_pause_lock env"
  shows "tq_paused_by (pe_wait env q) = tq_paused_by q" "tq_paused_by (pe_cmd_act env q) = tq_paused_by q"
    "tq_paused_by (pe_flush_in env q) = tq_paused_by q" "tq_paused_by (pe_flush_out env q) = tq_paused_by q"
  using assms by (simp_all add: respects_pause_lock_def keeps_sources_def)

lemma set_state_sources:
  assumes "respects_pause_lock env" and "endpoint_set_state jif env s q cq = (st, q', cq')"
  shows "tq_paused_by q' = tq_paused_by q"
  using assms by (auto simp: endpoint_set_state_def respects_pause_lockD Let_def split: prod.splits option.splits)

lemma flush_rings_sources: "respects_pause_lock env \<Longrightarrow> tq_paused_by (flush_rings env q) = tq_paused_by q"
  by (simp add: flush_rings_def respects_pause_lockD Let_def)

lemma do_pause_sources:
  assumes "respects_pause_lock env" and "bce_vhci_transfer_queue_do_pause jif env q cq = (st, q', cq')"
  shows "tq_paused_by q' = tq_paused_by q"
  using assms set_state_sources [OF assms(1)]
  by (auto simp: bce_vhci_transfer_queue_do_pause_def bce_vhci_transfer_queue_remove_pending_def Let_def
      flush_rings_sources respects_pause_lockD split: prod.splits if_splits)

text \<open>No operation under the queue's spinlock touches the mask either.\<close>

lemma urb_complete_mask: "bce_vhci_urb_complete a st q = Some q' \<Longrightarrow> tq_paused_by q' = tq_paused_by q"
  by (auto simp: bce_vhci_urb_complete_def set_urb_def Let_def split: Option.bind_splits if_splits)

lemma data_in_mask: "bce_vhci_urb_data_transfer_in a q = Some (st, q') \<Longrightarrow> tq_paused_by q' = tq_paused_by q"
  by (auto simp: bce_vhci_urb_data_transfer_in_def set_vurb_def Let_def split: Option.bind_splits if_splits prod.splits)

lemma data_start_mask: "bce_vhci_urb_data_start a q = Some (st, q') \<Longrightarrow> tq_paused_by q' = tq_paused_by q"
  by (auto simp: bce_vhci_urb_data_start_def set_vurb_def data_in_mask split: Option.bind_splits if_splits)

lemma urb_init_mask: "bce_vhci_urb_init a q = Some (st, q') \<Longrightarrow> tq_paused_by q' = tq_paused_by q"
  by (auto simp: bce_vhci_urb_init_def set_vurb_def dest!: data_start_mask split: Option.bind_splits if_splits)

lemma send_out_mask: "bce_vhci_urb_send_out_data d n q = Some (st, q') \<Longrightarrow> tq_paused_by q' = tq_paused_by q"
  by (auto simp: bce_vhci_urb_send_out_data_def Let_def split: Option.bind_splits if_splits prod.splits)

lemma check_status_mask: "bce_vhci_urb_control_check_status a q = Some (st, q') \<Longrightarrow> tq_paused_by q' = tq_paused_by q"
  by (auto simp: bce_vhci_urb_control_check_status_def set_vurb_def bce_vhci_transfer_queue_request_reset_def Let_def
      dest!: urb_complete_mask split: Option.bind_splits if_splits)

lemma data_update_mask: "bce_vhci_urb_data_update a m q = Some (st, q') \<Longrightarrow> tq_paused_by q' = tq_paused_by q"
  by (auto simp: bce_vhci_urb_data_update_def set_vurb_def Let_def dest!: send_out_mask split: Option.bind_splits if_splits)

lemma control_update_mask:
  assumes "bce_vhci_urb_control_update a m q = Some (st, q')"
  shows "tq_paused_by q' = tq_paused_by q"
proof -
  note * = check_status_mask [of a "set_vurb a (\<lambda>v. v\<lparr>vu_received_status := int (unat (vm_status m))\<rparr>) q" st q']
  show ?thesis
    using assms * by (auto simp: bce_vhci_urb_control_update_def set_vurb_def
        dest!: send_out_mask data_update_mask check_status_mask split: Option.bind_splits if_splits)
qed

lemma urb_update_mask: "bce_vhci_urb_update a m q = Some (st, q') \<Longrightarrow> tq_paused_by q' = tq_paused_by q"
  by (auto simp: bce_vhci_urb_update_def dest!: data_update_mask control_update_mask split: Option.bind_splits if_splits)

lemma urb_resume_mask: "bce_vhci_urb_resume a q = Some q' \<Longrightarrow> tq_paused_by q' = tq_paused_by q"
  by (auto simp: bce_vhci_urb_resume_def dest!: data_in_mask urb_complete_mask split: Option.bind_splits if_splits)

lemma init_loop_mask: "init_pending_loop as q = Some q' \<Longrightarrow> tq_paused_by q' = tq_paused_by q"
proof (induction as arbitrary: q)
  case (Cons a as)
  then show ?case by (auto dest!: urb_init_mask split: Option.bind_splits if_splits)
qed simp

lemma deliver_loop_mask: "deliver_loop ms q = Some q' \<Longrightarrow> tq_paused_by q' = tq_paused_by q"
proof (induction ms arbitrary: q)
  case (Cons m ms)
  then show ?case by (fastforce dest!: urb_update_mask split: Option.bind_splits if_splits list.splits)
qed simp

lemma resume_loop_mask: "resume_loop as q = Some q' \<Longrightarrow> tq_paused_by q' = tq_paused_by q"
proof (induction as arbitrary: q)
  case (Cons a as)
  then show ?case by (auto dest!: urb_init_mask urb_resume_mask split: Option.bind_splits if_splits)
qed simp

lemma deliver_pending_mask:
  "bce_vhci_transfer_queue_deliver_pending q = Some q' \<Longrightarrow> tq_paused_by q' = tq_paused_by q"
  by (auto simp: bce_vhci_transfer_queue_deliver_pending_def bce_vhci_transfer_queue_init_pending_urbs_def
      dest!: deliver_loop_mask init_loop_mask split: Option.bind_splits)

lemma do_resume_sources:
  assumes "respects_pause_lock env" and "bce_vhci_transfer_queue_do_resume jif env q cq = Some (st, q', cq')"
  shows "tq_paused_by q' = tq_paused_by q"
  using assms set_state_sources [OF assms(1)]
  by (auto simp: bce_vhci_transfer_queue_do_resume_def dest!: resume_loop_mask deliver_pending_mask
      split: prod.splits if_splits Option.bind_splits)


definition ex_quiet_env :: pause_env where
  "ex_quiet_env = \<lparr>pe_recovering = False, pe_wait = (\<lambda>q. q), pe_cmd = ex_cancelled, pe_cmd_act = (\<lambda>q. q),
     pe_flush_in = (\<lambda>q. q), pe_flush_out = (\<lambda>q. q)\<rparr>"


text \<open>
  The flush worker gives every slot back, whether or not a request was started
  after the cancellation that queued it: in a reachable queue with the flush queued and one started
  request, the flush leaves all eight slots free while the request still holds one.
\<close>

theorem transfer_flush_overcommits:
  "\<exists>q. tq_reachable q \<and> tq_w_flush q \<and> started_urbs q = 1
     \<and> tq_remaining_active_requests (flush_slots q) = tq_max_active_requests (flush_slots q)
     \<and> unat (tq_remaining_active_requests (flush_slots q)) + slots_in_use (flush_slots q)
        = unat (tq_max_active_requests (flush_slots q)) + 1"
proof -
  let ?c = "snd (the (bce_vhci_urb_request_cancel 0 7 (- ENOENT) ex_tq_sent))"
  let ?d = "snd (the (bce_vhci_urb_create True 0 8 ?c))"
  note run = ex_tq_sent_def ex_tq_created_def ex_tq_defs ex_run_defs bce_reserve_submission.simps
        atomic_dec_if_positive_def post_single_def
  have c: "bce_vhci_urb_request_cancel 0 7 (- ENOENT) ex_tq_sent = Some (0, ?c)"
    by (simp add: run split: prod.split)
  have "tq_reachable ?c"
    by (rule tr_step [OF ex_tq_sent_reachable ts_cancel [OF _ c]]) (simp add: run split: prod.split)
  moreover have "urb_fresh 8 ?c" by (simp add: urb_fresh_def vurb_ok_def run split: prod.split)
  moreover have "bce_vhci_urb_create True 0 8 ?c = Some (0, ?d)" by (simp add: run split: prod.split)
  ultimately have "tq_reachable ?d" by (blast intro: tr_step ts_create)
  moreover have "tq_w_flush ?d" by (simp add: run split: prod.split)
  moreover have "started_urbs ?d = 1" by (simp add: run started_urbs_def pending_urb_def split: prod.split)
  moreover have "started_urbs (flush_slots ?d) = started_urbs ?d"
    by (simp add: started_urbs_def pending_urb_def flush_slots_def)
  moreover have "\<not> is_control_queue ?d" by (simp add: run is_control_queue_def split: prod.split)
  ultimately show ?thesis
    by (intro exI [of _ ?d]) (simp add: slots_in_use_def flush_slots_def is_control_queue_def)
qed

text \<open>
  Resuming an endpoint restarts every request that waits for its completion as an
  input, whatever its direction: for an output on an endpoint that has no input ring, with room in
  the message queue, the resume dereferences the NULL ring.
\<close>

theorem transfer_resume_faults_on_output:
  assumes "tq_hcpriv q a = Some v" and "vu_state v = URB_WAITING_FOR_COMPLETION" and "tq_sq_in q = None"
    and "0 < sq_available_commands (mq_sq (tq_mq q))"
  shows "bce_vhci_urb_resume a q = None \<and> resume_loop (a # as) q = None"
proof -
  have "fst (bce_reserve_submission None [] (mq_sq (tq_mq q))) = 0"
    using assms(4) by (simp add: bce_reserve_submission.simps atomic_dec_if_positive_def)
  then have "bce_vhci_urb_data_transfer_in a q = None"
    using assms(1,3) by (simp add: bce_vhci_urb_data_transfer_in_def case_prod_beta)
  then show ?thesis using assms(1,2) by (simp add: bce_vhci_urb_resume_def)
qed

theorem transfer_resume_faults_on_output_witness:
  "tq_reachable ex_tq_sent \<and> tq_urb_list ex_tq_sent = [7] \<and> resume_loop (tq_urb_list ex_tq_sent) ex_tq_sent = None"
proof -
  note run = ex_tq_sent_def ex_tq_created_def ex_tq_defs ex_run_defs bce_reserve_submission.simps
        atomic_dec_if_positive_def post_single_def
  obtain v where "tq_hcpriv ex_tq_sent 7 = Some v" "vu_state v = URB_WAITING_FOR_COMPLETION"
    by (simp add: run split: prod.split)
  moreover have "tq_sq_in ex_tq_sent = None" "0 < sq_available_commands (mq_sq (tq_mq ex_tq_sent))"
    "tq_urb_list ex_tq_sent = [7]" by (simp_all add: run split: prod.split)
  ultimately show ?thesis
    using transfer_resume_faults_on_output [where q = ex_tq_sent and a = 7 and as = "[]"] ex_tq_sent_reachable by simp
qed

text \<open>
  An output request with no data is started and then never finished by the endpoint:
  no message from the device, no completion and no resume changes its state, which only a
  cancellation ends.
\<close>

theorem transfer_empty_output_never_completes:
  assumes "tq_hcpriv q a = Some v" and "\<not> vu_is_control v" and "vu_dir v = DMA_TO_DEVICE"
    and "ur_transfer_buffer_length (tq_urb q a) = 0" and "0 < tq_remaining_active_requests q"
  shows "\<exists>q'. bce_vhci_urb_init a q = Some (0, q') \<and> tq_remaining_active_requests q' = tq_remaining_active_requests q - 1
    \<and> (\<forall>msg. bce_vhci_urb_update a msg q' = Some (- EAGAIN, q'))
    \<and> (\<forall>c. bce_vhci_urb_transfer_completion a c q' = Some (0, q'))
    \<and> bce_vhci_urb_resume a q' = Some q'"
  using assms
  by (auto simp: bce_vhci_urb_init_def bce_vhci_urb_data_start_def set_vurb_def bce_vhci_urb_update_def
      bce_vhci_urb_data_update_def bce_vhci_urb_transfer_completion_def bce_vhci_urb_data_transfer_completion_def
      bce_vhci_urb_resume_def)

theorem transfer_empty_output_never_completes_witness:
  "\<exists>q'. bce_vhci_urb_init 7 (ex_tq\<lparr>tq_urb := (\<lambda>a. ex_urb\<lparr>ur_transfer_buffer_length := 0\<rparr>),
        tq_hcpriv := [7 \<mapsto> new_vurb 7 ex_tq]\<rparr>) = Some (0, q')
     \<and> bce_vhci_urb_update 7 ex_transfer_request q' = Some (- EAGAIN, q')"
  using transfer_empty_output_never_completes [where a = 7 and v = "new_vurb 7 ex_tq"
      and q = "ex_tq\<lparr>tq_urb := (\<lambda>a. ex_urb\<lparr>ur_transfer_buffer_length := 0\<rparr>), tq_hcpriv := [7 \<mapsto> new_vurb 7 ex_tq]\<rparr>"]
  by (auto simp: new_vurb_def ex_tq_defs usb_endpoint_num_def)

end
