(* ===== verification/Vhci_Device.thy ===== *)
theory Vhci_Device
  imports Vhci_History
begin

unbundle bit_operations_syntax

text \<open>
  The devices of the virtual host controller (\<open>src/vhci/vhci.h\<close> and the calls of the USB core on
  devices and endpoints in \<open>src/vhci/vhci.c\<close>): enable, free and reset a device, add, drop and
  reset an endpoint, submit and cancel a request.

  A device structure is named by its address; \<open>v_vdevs\<close> is the heap of those alive. \<open>v_endpoint\<close>
  are the descriptors of the USB core's endpoints and \<open>v_hcpriv\<close> their pointers to a transfer queue,
  that is a device and an index. A transfer queue carries the request list of its endpoint. The
  controller commands are answered by the environment. Leaving an array, dereferencing NULL and using a
  destroyed queue are the outcome \<open>None\<close>.
\<close>

section \<open>Data\<close>

text \<open>\<open>vd_ptrs\<close>: the queue objects of a created transfer queue, \<open>None\<close> before and after its life.\<close>

record bce_vhci_device =
  vd_tq :: "nat \<Rightarrow> bce_vhci_transfer_queue"
  vd_ptrs :: "nat \<Rightarrow> transfer_ptrs option"
  vd_endp :: "nat \<Rightarrow> addr option"
  vd_tq_mask :: u32

record bce_vhci =
  v_dev :: apple_bce_device
  v_cq :: bce_vhci_command_queue
  v_msg_system :: bce_vhci_message_queue
  v_msg_isochronous :: bce_vhci_message_queue
  v_msg_interrupt :: bce_vhci_message_queue
  v_msg_asynchronous :: bce_vhci_message_queue
  v_ev_commands :: bce_vhci_event_queue
  v_ev_system :: bce_vhci_event_queue
  v_ev_isochronous :: bce_vhci_event_queue
  v_ev_interrupt :: bce_vhci_event_queue
  v_ev_asynchronous :: bce_vhci_event_queue
  v_port_mask :: u16
  v_port_count :: u8
  v_port_power_mask :: u16
  v_port_to_device :: "u8 list"
  v_devices :: "addr option list"
  v_last_recovery_jiffies :: u64
  v_recovery_fail_count :: u32
  v_watchdog :: bool
  v_w_fw_events :: bool
  v_port_resume_mask :: u64
  v_port_reenumerate_mask :: u64
  v_port_suppress_connect_mask :: u64
  v_port_resume_skip_reset :: "u8 list"
  v_vdevs :: "addr \<rightharpoonup> bce_vhci_device"
  v_endpoint :: "addr \<Rightarrow> usb_endpoint"
  v_hcpriv :: "addr \<Rightarrow> (addr \<times> nat) option"
  v_polls :: nat

text \<open>
  What the surroundings of a handler answer: the conversion of milliseconds, the allocator of
  queue ids, the memory for a device, the \<open>n\<close>-th controller command, the command for the
  \<open>i\<close>-th endpoint, and the creation and the destruction of the \<open>i\<close>-th transfer queue.
\<close>

record vhci_env =
  ve_jif :: "nat \<Rightarrow> nat"
  ve_ida :: ida_alloc
  ve_vdev :: "addr option"
  ve_cmd :: "nat \<Rightarrow> exec_env"
  ve_ep :: "nat \<Rightarrow> exec_env"
  ve_tq :: "nat \<Rightarrow> transfer_env"
  ve_self :: "nat \<Rightarrow> addr"
  ve_destroy :: "nat \<Rightarrow> addr \<times> cmd_env"

text \<open>A zeroed device; the message queue is that of the controller whenever a queue runs.\<close>

definition zero_urb :: urb where
  "zero_urb = \<lparr>ur_dir_in = False, ur_transfer_buffer_length = 0, ur_transfer_dma = 0, ur_setup_dma = 0,
     ur_number_of_packets = 0, ur_actual_length = 0, ur_status = 0, ur_error_count = 0, ur_iso_frame_desc = []\<rparr>"

definition zero_endpoint :: usb_endpoint where
  "zero_endpoint = \<lparr>ep_address = 0, ep_type = 0, ep_maxp = 0, ep_maxp_mult = 0, ep_interval = 0\<rparr>"

definition zero_tq :: "bce_vhci_message_queue \<Rightarrow> bce_vhci_transfer_queue" where
  "zero_tq mq = \<lparr>tq_endp = zero_endpoint, tq_state = 0, tq_max_active_requests = 0, tq_remaining_active_requests = 0,
     tq_active = False, tq_stalled = False, tq_paused_by = 0, tq_dev_addr = 0, tq_endp_addr = 0, tq_sq_in = None,
     tq_sq_out = None, tq_evq = [], tq_giveback_urb_list = [], tq_flush_giveback_list = [], tq_sq_out_pending = 0,
     tq_ghost_in_count = 0, tq_ghost_out_count = 0, tq_urb_list = [], tq_urb = (\<lambda>a. zero_urb), tq_hcpriv = Map.empty,
     tq_mq = mq, tq_given = [], tq_mmio = [], tq_w_reset = False, tq_w_resume = False, tq_w_flush = False\<rparr>"

definition zero_device :: "bce_vhci_message_queue \<Rightarrow> bce_vhci_device" where
  "zero_device mq = \<lparr>vd_tq = (\<lambda>i. zero_tq mq), vd_ptrs = (\<lambda>i. None), vd_endp = (\<lambda>i. None), vd_tq_mask = 0\<rparr>"

definition bce_vhci_endpoint_index :: "u8 \<Rightarrow> u8" where
  "bce_vhci_endpoint_index addr = (if addr AND 0x80 \<noteq> 0 then 0x10 + (addr AND 0xf) else addr AND 0xf)"

definition usb_endpoint_dir_in :: "usb_endpoint \<Rightarrow> bool" where
  "usb_endpoint_dir_in d \<longleftrightarrow> ep_address d AND 0x80 \<noteq> 0"

section \<open>Transfer queues of a device\<close>

text \<open>
  Creating and destroying the queue \<open>i\<close> of a device. \<open>e\<close> is the address of the endpoint.
  Destroying a queue that does not live is a fault.
\<close>

definition tq_create :: "vhci_env \<Rightarrow> nat \<Rightarrow> addr \<Rightarrow> u8 \<Rightarrow> int \<Rightarrow> bce_vhci_device \<Rightarrow> bce_vhci
    \<Rightarrow> bool \<times> bce_vhci_device \<times> bce_vhci" where
  "tq_create env i e devid dir vd v =
     (case bce_vhci_create_transfer_queue (ve_ida env) (ve_tq env i) (v_endpoint v e) devid dir (ve_self env i)
         (v_dev v) (vd_tq vd i) of
        (st, p, q, dev) \<Rightarrow> (st = 0, vd\<lparr>vd_tq := (vd_tq vd)(i := q), vd_ptrs := (vd_ptrs vd)(i := p),
          vd_endp := (vd_endp vd)(i := Some e)\<rparr>, v\<lparr>v_dev := dev\<rparr>))"

definition tq_destroy :: "vhci_env \<Rightarrow> nat \<Rightarrow> bce_vhci_device \<Rightarrow> bce_vhci \<Rightarrow> (bce_vhci_device \<times> bce_vhci) option" where
  "tq_destroy env i vd v =
     do {
       p \<leftarrow> vd_ptrs vd i;
       let (q, dev) = bce_vhci_destroy_transfer_queue (fst (ve_destroy env i)) (snd (ve_destroy env i)) p (v_dev v) (vd_tq vd i);
       Some (vd\<lparr>vd_tq := (vd_tq vd)(i := q), vd_ptrs := (vd_ptrs vd)(i := None)\<rparr>, v\<lparr>v_dev := dev\<rparr>)
     }"

definition clear_hcpriv :: "addr option \<Rightarrow> bce_vhci \<Rightarrow> bce_vhci" where
  "clear_hcpriv e v = (case e of None \<Rightarrow> v | Some x \<Rightarrow> v\<lparr>v_hcpriv := (v_hcpriv v)(x := None)\<rparr>)"

text \<open>The loop over the endpoints of a device that is torn down.\<close>

fun destroy_tqs :: "vhci_env \<Rightarrow> nat list \<Rightarrow> bce_vhci_device \<Rightarrow> bce_vhci \<Rightarrow> (bce_vhci_device \<times> bce_vhci) option" where
  "destroy_tqs env [] vd v = Some (vd, v)"
| "destroy_tqs env (i # is) vd v =
     (if \<not> bit (vd_tq_mask vd) i then destroy_tqs env is vd v
      else do {
        (vd1, v1) \<leftarrow> tq_destroy env i vd (clear_hcpriv (vd_endp vd i) v);
        destroy_tqs env is vd1 v1
      })"

section \<open>Devices\<close>

definition device_destroy :: "vhci_env \<Rightarrow> nat \<Rightarrow> u8 \<Rightarrow> bce_vhci \<Rightarrow> bce_vhci" where
  "device_destroy env n devid v = v\<lparr>v_cq := snd (bce_vhci_cmd_device_destroy (ve_jif env) (ve_cmd env n) devid (v_cq v))\<rparr>"

definition bce_vhci_enable_device :: "vhci_env \<Rightarrow> u8 \<Rightarrow> addr \<Rightarrow> bce_vhci \<Rightarrow> (int \<times> bce_vhci) option" where
  "bce_vhci_enable_device env portnum ep0 v =
     do {
       old \<leftarrow> arr_get (v_port_to_device v) (unat portnum);
       if old \<noteq> 0 then Some (0, v)
       else do {
         let (st, res, cq) = bce_vhci_cmd_device_create (ve_jif env) (ve_cmd env 0) portnum (v_cq v);
         let v1 = v\<lparr>v_cq := cq\<rparr>;
         if st \<noteq> 0 then Some (- EIO, v1)
         else do {
           devid \<leftarrow> res;
           if devid \<ge> 16 then Some (- EIO, device_destroy env 1 devid v1)
           else case ve_vdev env of
             None \<Rightarrow> Some (- ENOMEM, device_destroy env 1 devid v1)
           | Some a \<Rightarrow> do {
               ports \<leftarrow> arr_set (v_port_to_device v1) (unat portnum) devid;
               devs \<leftarrow> arr_set (v_devices v1) (unat devid) (Some a);
               let (ok, vd, v2) = tq_create env 0 ep0 devid DMA_BIDIRECTIONAL (zero_device (v_msg_asynchronous v1))
                 (v1\<lparr>v_port_to_device := ports, v_devices := devs\<rparr>);
               if \<not> ok then Some (- ENOMEM, device_destroy env 1 devid
                 (v2\<lparr>v_devices := (v_devices v2)[unat devid := None], v_port_to_device := (v_port_to_device v2)[unat portnum := 0]\<rparr>))
               else Some (0, v2\<lparr>v_vdevs := (v_vdevs v2)(a \<mapsto> vd\<lparr>vd_tq_mask := set_bit 0 (vd_tq_mask vd)\<rparr>),
                   v_hcpriv := (v_hcpriv v2)(ep0 \<mapsto> (a, 0)),
                   v_cq := snd (bce_vhci_cmd_endpoint_create (ve_jif env) (ve_ep env 0) devid (v_endpoint v2 ep0) (v_cq v2))\<rparr>)
             }
         }
       }
     }"

definition bce_vhci_address_device :: "vhci_env \<Rightarrow> u8 \<Rightarrow> addr \<Rightarrow> bce_vhci \<Rightarrow> (int \<times> bce_vhci) option" where
  "bce_vhci_address_device env portnum ep0 v = bce_vhci_enable_device env portnum ep0 v"

text \<open>The end of both branches of the release: a port marked for re-enumeration reconnects.\<close>

definition signal_reconnect :: "u8 \<Rightarrow> bce_vhci \<Rightarrow> bce_vhci" where
  "signal_reconnect portnum v =
     (if bit (v_port_reenumerate_mask v) (unat portnum)
      then v\<lparr>v_port_reenumerate_mask := unset_bit (unat portnum) (v_port_reenumerate_mask v),
             v_port_resume_mask := set_bit (unat portnum) (v_port_resume_mask v), v_polls := Suc (v_polls v)\<rparr>
      else v)"

definition bce_vhci_free_device :: "vhci_env \<Rightarrow> u8 \<Rightarrow> bce_vhci \<Rightarrow> bce_vhci option" where
  "bce_vhci_free_device env portnum v =
     do {
       devid \<leftarrow> arr_get (v_port_to_device v) (unat portnum);
       if devid = 0 then Some (signal_reconnect portnum v)
       else do {
         p \<leftarrow> arr_get (v_devices v) (unat devid);
         a \<leftarrow> p;
         vd \<leftarrow> v_vdevs v a;
         (vd1, v1) \<leftarrow> destroy_tqs env [0..<32] vd
           (v\<lparr>v_devices := (v_devices v)[unat devid := None], v_port_to_device := (v_port_to_device v)[unat portnum := 0]\<rparr>);
         Some (signal_reconnect portnum ((device_destroy env 0 devid v1)\<lparr>v_vdevs := (v_vdevs v1)(a := None)\<rparr>))
       }
     }"

text \<open>The loop that rebuilds the queues after a reset.\<close>

fun recreate_tqs :: "vhci_env \<Rightarrow> u8 \<Rightarrow> addr \<Rightarrow> nat list \<Rightarrow> bce_vhci_device \<Rightarrow> bce_vhci
    \<Rightarrow> (bce_vhci_device \<times> bce_vhci) option" where
  "recreate_tqs env devid a [] vd v = Some (vd, v)"
| "recreate_tqs env devid a (i # is) vd v =
     (if \<not> bit (vd_tq_mask vd) i then recreate_tqs env devid a is vd v
      else do {
        e \<leftarrow> vd_endp vd i;
        let dir = (if i = 0 then DMA_BIDIRECTIONAL
          else if usb_endpoint_dir_in (v_endpoint v e) then DMA_FROM_DEVICE else DMA_TO_DEVICE);
        let (ok, vd1, v1) = tq_create env i e devid dir vd v;
        if \<not> ok then recreate_tqs env devid a is (vd1\<lparr>vd_tq_mask := unset_bit i (vd_tq_mask vd1)\<rparr>)
          (v1\<lparr>v_hcpriv := (v_hcpriv v1)(e := None)\<rparr>)
        else recreate_tqs env devid a is vd1 (v1\<lparr>v_hcpriv := (v_hcpriv v1)(e \<mapsto> (a, i)),
          v_cq := snd (bce_vhci_cmd_endpoint_create (ve_jif env) (ve_ep env i) devid (v_endpoint v1 e) (v_cq v1))\<rparr>)
      })"

text \<open>The first half of the reset: the device of the port, if any, is taken down.\<close>

definition reset_teardown :: "vhci_env \<Rightarrow> nat \<Rightarrow> bce_vhci \<Rightarrow> (addr option \<times> bce_vhci) option" where
  "reset_teardown env index v =
     do {
       devid \<leftarrow> arr_get (v_port_to_device v) index;
       if devid = 0 then Some (None, v)
       else do {
         p \<leftarrow> arr_get (v_devices v) (unat devid);
         a \<leftarrow> p;
         vd \<leftarrow> v_vdevs v a;
         (vd1, v1) \<leftarrow> destroy_tqs env [0..<32] vd v;
         Some (Some a, device_destroy env 0 devid (v1\<lparr>v_vdevs := (v_vdevs v1)(a \<mapsto> vd1),
           v_devices := (v_devices v1)[unat devid := None], v_port_to_device := (v_port_to_device v1)[index := 0]\<rparr>))
       }
     }"

definition bce_vhci_reset_device :: "vhci_env \<Rightarrow> nat \<Rightarrow> u16 \<Rightarrow> bce_vhci \<Rightarrow> (int \<times> bce_vhci) option" where
  "bce_vhci_reset_device env index timeout v =
     do {
       skip \<leftarrow> arr_get (v_port_resume_skip_reset v) index;
       if skip > 0 then Some (0, v\<lparr>v_port_resume_skip_reset := (v_port_resume_skip_reset v)[index := skip - 1]\<rparr>)
       else do {
         (dev, v1) \<leftarrow> reset_teardown env index v;
         let (st, cq) = bce_vhci_cmd_port_reset (ve_jif env) (ve_cmd env 1) (of_nat index) (ucast timeout) (v_cq v1);
         let v2 = v1\<lparr>v_cq := cq\<rparr>;
         case dev of
           None \<Rightarrow> Some (st, v2)
         | Some a \<Rightarrow> do {
             let (st, res, cq) = bce_vhci_cmd_device_create (ve_jif env) (ve_cmd env 2) (of_nat index) (v_cq v2);
             let v3 = v2\<lparr>v_cq := cq\<rparr>;
             if st \<noteq> 0 then Some (st, v3)
             else do {
               devid \<leftarrow> res;
               devs \<leftarrow> arr_set (v_devices v3) (unat devid) (Some a);
               ports \<leftarrow> arr_set (v_port_to_device v3) index devid;
               vd \<leftarrow> v_vdevs v3 a;
               (vd1, v4) \<leftarrow> recreate_tqs env devid a [0..<32] vd (v3\<lparr>v_devices := devs, v_port_to_device := ports\<rparr>);
               Some (st, v4\<lparr>v_vdevs := (v_vdevs v4)(a \<mapsto> vd1)\<rparr>)
             }
           }
       }
     }"

section \<open>Endpoints\<close>

definition bce_vhci_add_endpoint :: "vhci_env \<Rightarrow> u8 \<Rightarrow> bool \<Rightarrow> addr \<Rightarrow> bce_vhci \<Rightarrow> (int \<times> bce_vhci) option" where
  "bce_vhci_add_endpoint env portnum root_hub e v =
     do {
       let i = unat (bce_vhci_endpoint_index (ep_address (v_endpoint v e)));
       devid \<leftarrow> arr_get (v_port_to_device v) (unat portnum);
       p \<leftarrow> arr_get (v_devices v) (unat devid);
       if root_hub then Some (0, v)
       else case p of
         None \<Rightarrow> Some (- ENODEV, v)
       | Some a \<Rightarrow> do {
           vd \<leftarrow> v_vdevs v a;
           if bit (vd_tq_mask vd) i then Some (0, v\<lparr>v_hcpriv := (v_hcpriv v)(e \<mapsto> (a, i))\<rparr>)
           else do {
             let (ok, vd1, v1) = tq_create env i e devid
               (if usb_endpoint_dir_in (v_endpoint v e) then DMA_FROM_DEVICE else DMA_TO_DEVICE) vd v;
             if \<not> ok then Some (- ENOMEM, v1\<lparr>v_vdevs := (v_vdevs v1)(a \<mapsto> vd1)\<rparr>)
             else do {
               let (st, cq) = bce_vhci_cmd_endpoint_create (ve_jif env) (ve_ep env i) devid (v_endpoint v1 e) (v_cq v1);
               let v2 = v1\<lparr>v_cq := cq\<rparr>;
               if st \<noteq> 0 then do {
                 (vd2, v3) \<leftarrow> tq_destroy env i vd1 (v2\<lparr>v_hcpriv := (v_hcpriv v2)(e := None)\<rparr>);
                 Some (st, v3\<lparr>v_vdevs := (v_vdevs v3)(a \<mapsto> vd2)\<rparr>)
               }
               else Some (0, v2\<lparr>v_hcpriv := (v_hcpriv v2)(e \<mapsto> (a, i)),
                 v_vdevs := (v_vdevs v2)(a \<mapsto> vd1\<lparr>vd_tq_mask := set_bit i (vd_tq_mask vd1)\<rparr>)\<rparr>)
             }
           }
         }
     }"

text \<open>\<open>attached\<close>: the state of the USB device is not \<open>USB_STATE_NOTATTACHED\<close>.\<close>

definition bce_vhci_drop_endpoint :: "vhci_env \<Rightarrow> u8 \<Rightarrow> bool \<Rightarrow> addr \<Rightarrow> bce_vhci \<Rightarrow> (int \<times> bce_vhci) option" where
  "bce_vhci_drop_endpoint env portnum attached e v =
     do {
       let i = unat (bce_vhci_endpoint_index (ep_address (v_endpoint v e)));
       devid \<leftarrow> arr_get (v_port_to_device v) (unat portnum);
       p \<leftarrow> (if devid = 0 then Some None else arr_get (v_devices v) (unat devid));
       case p of
         None \<Rightarrow> Some (0, v\<lparr>v_hcpriv := (v_hcpriv v)(e := None)\<rparr>)
       | Some a \<Rightarrow> do {
           vd \<leftarrow> v_vdevs v a;
           case (case v_hcpriv v e of Some q \<Rightarrow> Some q | None \<Rightarrow> if bit (vd_tq_mask vd) i then Some (a, i) else None) of
             None \<Rightarrow> Some (0, v)
           | Some (a', i') \<Rightarrow> do {
               let v1 = (if attached
                 then v\<lparr>v_cq := snd (bce_vhci_cmd_endpoint_destroy (ve_jif env) (ve_cmd env 0) devid
                         (ep_address (v_endpoint v e) AND 0x8F) (v_cq v))\<rparr>
                 else v);
               let v2 = v1\<lparr>v_vdevs := (v_vdevs v1)(a \<mapsto> vd\<lparr>vd_tq_mask := unset_bit i (vd_tq_mask vd)\<rparr>)\<rparr>;
               vd' \<leftarrow> v_vdevs v2 a';
               (vd1, v3) \<leftarrow> tq_destroy env i' vd' v2;
               Some (0, v3\<lparr>v_vdevs := (v_vdevs v3)(a' \<mapsto> vd1), v_hcpriv := (v_hcpriv v3)(e := None)\<rparr>)
             }
         }
     }"

text \<open>
  An operation on the queue behind an endpoint: the queue must live; it uses the message
  queue of the controller that its endpoint type selects.
\<close>

definition bce_vhci_get_msg_queue :: "usb_endpoint \<Rightarrow> bce_vhci \<Rightarrow> bce_vhci_message_queue" where
  "bce_vhci_get_msg_queue d v =
     (if ep_type d = USB_ENDPOINT_XFER_ISOC then v_msg_isochronous v else v_msg_asynchronous v)"

definition set_msg_queue :: "usb_endpoint \<Rightarrow> bce_vhci_message_queue \<Rightarrow> bce_vhci \<Rightarrow> bce_vhci" where
  "set_msg_queue d mq v =
     (if ep_type d = USB_ENDPOINT_XFER_ISOC then v\<lparr>v_msg_isochronous := mq\<rparr> else v\<lparr>v_msg_asynchronous := mq\<rparr>)"

definition on_tq :: "addr \<Rightarrow> nat \<Rightarrow> (bce_vhci_transfer_queue \<Rightarrow> ('r \<times> bce_vhci_transfer_queue) option) \<Rightarrow> bce_vhci
    \<Rightarrow> ('r \<times> bce_vhci) option" where
  "on_tq a i f v =
     do {
       vd \<leftarrow> v_vdevs v a;
       p \<leftarrow> vd_ptrs vd i;
       let d = tq_endp (vd_tq vd i);
       (r, q) \<leftarrow> f ((vd_tq vd i)\<lparr>tq_mq := bce_vhci_get_msg_queue d v\<rparr>);
       Some (r, set_msg_queue d (tq_mq q) (v\<lparr>v_vdevs := (v_vdevs v)(a \<mapsto> vd\<lparr>vd_tq := (vd_tq vd)(i := q)\<rparr>)\<rparr>))
     }"

text \<open>\<open>u\<close>: the fields of the request when the USB core hands it over.\<close>

definition bce_vhci_urb_enqueue :: "bool \<Rightarrow> int \<Rightarrow> addr \<Rightarrow> addr \<Rightarrow> urb \<Rightarrow> bce_vhci \<Rightarrow> (int \<times> bce_vhci) option" where
  "bce_vhci_urb_enqueue mem link e urb u v =
     (case v_hcpriv v e of
        None \<Rightarrow> Some (- ENOENT, v)
      | Some (a, i) \<Rightarrow> on_tq a i (\<lambda>q. bce_vhci_urb_create mem link urb (set_urb urb (\<lambda>x. u) q)) v)"

definition bce_vhci_urb_dequeue :: "int \<Rightarrow> addr \<Rightarrow> addr \<Rightarrow> int \<Rightarrow> bce_vhci \<Rightarrow> (int \<times> bce_vhci) option" where
  "bce_vhci_urb_dequeue check e urb status v =
     (case v_hcpriv v e of
        None \<Rightarrow> Some (- ENOENT, v)
      | Some (a, i) \<Rightarrow> on_tq a i (bce_vhci_urb_request_cancel check urb status) v)"

definition bce_vhci_endpoint_reset :: "addr \<Rightarrow> bce_vhci \<Rightarrow> bce_vhci option" where
  "bce_vhci_endpoint_reset e v =
     (case v_hcpriv v e of
        None \<Rightarrow> Some v
      | Some (a, i) \<Rightarrow> map_option snd (on_tq a i (\<lambda>q. Some ((), bce_vhci_transfer_queue_request_reset q)) v))"

section \<open>What the building blocks leave alone\<close>

text \<open>The maps from ports to devices, with the devices and the endpoints.\<close>

definition port_view :: "bce_vhci \<Rightarrow> _" where
  "port_view v = (v_port_to_device v, v_devices v, v_vdevs v, v_endpoint v, v_port_resume_skip_reset v)"

lemma device_destroy_frame [simp]:
  "port_view (device_destroy env n d v) = port_view v" "v_hcpriv (device_destroy env n d v) = v_hcpriv v"
  "v_port_to_device (device_destroy env n d v) = v_port_to_device v" "v_devices (device_destroy env n d v) = v_devices v"
  "v_vdevs (device_destroy env n d v) = v_vdevs v"
  by (simp_all add: device_destroy_def port_view_def)

lemma create_tq_pointers:
  assumes "bce_vhci_create_transfer_queue ida env d devid dir s dev q = (st, p, q', dev')"
  shows "st = 0 \<longleftrightarrow> p \<noteq> None"
  using assms by (auto simp: bce_vhci_create_transfer_queue_def Let_def split: option.splits prod.splits if_splits)

lemma tq_create_frame:
  assumes "tq_create env i e devid dir vd v = (ok, vd', v')"
  shows "port_view v' = port_view v" "v_hcpriv v' = v_hcpriv v" "vd_tq_mask vd' = vd_tq_mask vd"
    "vd_endp vd' = (vd_endp vd)(i := Some e)" "vd_ptrs vd' = (vd_ptrs vd)(i := vd_ptrs vd' i)" "ok \<longleftrightarrow> vd_ptrs vd' i \<noteq> None"
  using assms create_tq_pointers
  by (auto simp: tq_create_def port_view_def split: prod.splits)

lemma tq_destroy_frame:
  assumes "vd_ptrs vd i = Some p"
  shows "\<exists>vd' v'. tq_destroy env i vd v = Some (vd', v') \<and> port_view v' = port_view v \<and> v_hcpriv v' = v_hcpriv v
    \<and> vd_tq_mask vd' = vd_tq_mask vd \<and> vd_endp vd' = vd_endp vd \<and> vd_ptrs vd' = (vd_ptrs vd)(i := None)"
  using assms by (simp add: tq_destroy_def port_view_def split_beta)

lemma clear_hcpriv_frame:
  "port_view (clear_hcpriv e v) = port_view v"
  "v_hcpriv (clear_hcpriv e v) x = (if e = Some x then None else v_hcpriv v x)"
  by (simp_all add: clear_hcpriv_def port_view_def split: option.split)

lemma destroy_tqs_frame:
  assumes "distinct js" and "\<forall>i \<in> set js. bit (vd_tq_mask vd) i \<longrightarrow> vd_ptrs vd i \<noteq> None"
  shows "\<exists>vd' v'. destroy_tqs env js vd v = Some (vd', v') \<and> port_view v' = port_view v
    \<and> vd_tq_mask vd' = vd_tq_mask vd \<and> vd_endp vd' = vd_endp vd
    \<and> v_hcpriv v' = (\<lambda>e. if \<exists>i \<in> set js. bit (vd_tq_mask vd) i \<and> vd_endp vd i = Some e then None else v_hcpriv v e)"
  using assms
proof (induction js arbitrary: vd v)
  case (Cons i js)
  show ?case
  proof (cases "bit (vd_tq_mask vd) i")
    case False
    then have "(\<exists>j \<in> set (i # js). bit (vd_tq_mask vd) j \<and> vd_endp vd j = Some e)
      = (\<exists>j \<in> set js. bit (vd_tq_mask vd) j \<and> vd_endp vd j = Some e)" for e by auto
    with False Cons.IH [of vd v] Cons.prems show ?thesis by simp
  next
    case True
    let ?v = "clear_hcpriv (vd_endp vd i) v"
    obtain p where "vd_ptrs vd i = Some p" using Cons.prems True by auto
    from tq_destroy_frame [OF this] obtain vd1 v1 where d: "tq_destroy env i vd ?v = Some (vd1, v1)" "port_view v1 = port_view ?v"
      "v_hcpriv v1 = v_hcpriv ?v" "vd_tq_mask vd1 = vd_tq_mask vd" "vd_endp vd1 = vd_endp vd"
      "vd_ptrs vd1 = (vd_ptrs vd)(i := None)" by blast
    have "\<forall>j \<in> set js. bit (vd_tq_mask vd1) j \<longrightarrow> vd_ptrs vd1 j \<noteq> None" using Cons.prems d by auto
    then obtain vd' v' where r: "destroy_tqs env js vd1 v1 = Some (vd', v')" "port_view v' = port_view v1"
      "vd_tq_mask vd' = vd_tq_mask vd1" "vd_endp vd' = vd_endp vd1"
      "v_hcpriv v' = (\<lambda>e. if \<exists>j \<in> set js. bit (vd_tq_mask vd1) j \<and> vd_endp vd1 j = Some e then None else v_hcpriv v1 e)"
      using Cons.IH [of vd1 v1] Cons.prems by auto
    have "v_hcpriv v' = (\<lambda>e. if \<exists>j \<in> set (i # js). bit (vd_tq_mask vd) j \<and> vd_endp vd j = Some e
        then None else v_hcpriv v e)"
      using True by (auto simp: r(5) d clear_hcpriv_frame(2) fun_eq_iff)
    then show ?thesis using True d r clear_hcpriv_frame(1) [of "vd_endp vd i" v] by simp
  qed
qed simp

lemma recreate_tqs_frame:
  assumes "distinct js" and "\<forall>i \<in> set js. bit (vd_tq_mask vd) i \<longrightarrow> vd_endp vd i \<noteq> None"
  shows "\<exists>vd' v'. recreate_tqs env devid a js vd v = Some (vd', v') \<and> port_view v' = port_view v
    \<and> vd_endp vd' = vd_endp vd
    \<and> (\<forall>j. j \<notin> set js \<longrightarrow> bit (vd_tq_mask vd') j = bit (vd_tq_mask vd) j \<and> vd_ptrs vd' j = vd_ptrs vd j)
    \<and> (\<forall>j \<in> set js. bit (vd_tq_mask vd') j \<longrightarrow> bit (vd_tq_mask vd) j \<and> vd_ptrs vd' j \<noteq> None)
    \<and> (\<forall>e b j. v_hcpriv v' e = Some (b, j) \<longrightarrow> v_hcpriv v e = Some (b, j)
        \<or> (b = a \<and> j \<in> set js \<and> bit (vd_tq_mask vd') j \<and> vd_endp vd j = Some e))"
  using assms
proof (induction js arbitrary: vd v)
  case (Cons i js)
  show ?case
  proof (cases "bit (vd_tq_mask vd) i")
    case False
    then show ?thesis using Cons.IH [of vd v] Cons.prems by fastforce
  next
    case True
    obtain e where e: "vd_endp vd i = Some e" using Cons.prems True by auto
    let ?dir = "if i = 0 then DMA_BIDIRECTIONAL else if usb_endpoint_dir_in (v_endpoint v e) then DMA_FROM_DEVICE else DMA_TO_DEVICE"
    obtain ok vd1 v1 where c: "tq_create env i e devid ?dir vd v = (ok, vd1, v1)" by (metis prod_cases3)
    note f = tq_create_frame [OF c]
    have endp: "vd_endp vd1 = vd_endp vd" using f(4) e by auto
    define m where "m = (if ok then vd_tq_mask vd1 else unset_bit i (vd_tq_mask vd1))"
    let ?vd = "vd1\<lparr>vd_tq_mask := m\<rparr>"
    define w where "w = (if ok then v1\<lparr>v_hcpriv := (v_hcpriv v1)(e \<mapsto> (a, i)),
        v_cq := snd (bce_vhci_cmd_endpoint_create (ve_jif env) (ve_ep env i) devid (v_endpoint v1 e) (v_cq v1))\<rparr>
      else v1\<lparr>v_hcpriv := (v_hcpriv v1)(e := None)\<rparr>)"
    have m: "bit m j = (bit (vd_tq_mask vd) j \<and> (j = i \<longrightarrow> ok))" for j
      using f(3) True by (auto simp: m_def bit_unset_bit_iff)
    have w: "port_view w = port_view v" "v_hcpriv w = (v_hcpriv v)(e := if ok then Some (a, i) else None)"
      using f(1,2) by (auto simp: w_def port_view_def)
    have "recreate_tqs env devid a (i # js) vd v = recreate_tqs env devid a js ?vd w"
      using True e c by (simp add: m_def w_def)
    moreover have "\<forall>j \<in> set js. bit (vd_tq_mask ?vd) j \<longrightarrow> vd_endp ?vd j \<noteq> None" using Cons.prems by (auto simp: m endp)
    then obtain vd' v' where r: "recreate_tqs env devid a js ?vd w = Some (vd', v')" "port_view v' = port_view w"
      "vd_endp vd' = vd_endp ?vd"
      "\<forall>j. j \<notin> set js \<longrightarrow> bit (vd_tq_mask vd') j = bit (vd_tq_mask ?vd) j \<and> vd_ptrs vd' j = vd_ptrs ?vd j"
      "\<forall>j \<in> set js. bit (vd_tq_mask vd') j \<longrightarrow> bit (vd_tq_mask ?vd) j \<and> vd_ptrs vd' j \<noteq> None"
      "\<forall>e b j. v_hcpriv v' e = Some (b, j) \<longrightarrow> v_hcpriv w e = Some (b, j)
        \<or> (b = a \<and> j \<in> set js \<and> bit (vd_tq_mask vd') j \<and> vd_endp ?vd j = Some e)"
      using Cons.IH [of ?vd w] Cons.prems(1) by auto
    have "\<forall>j. j \<notin> set (i # js) \<longrightarrow> bit (vd_tq_mask vd') j = bit (vd_tq_mask vd) j \<and> vd_ptrs vd' j = vd_ptrs vd j"
      using r(4) m f(5) by (metis bce_vhci_device.select_convs(2) bce_vhci_device.select_convs(4) bce_vhci_device.surjective
          bce_vhci_device.update_convs(4) fun_upd_apply insert_iff list.set(2))
    moreover have "\<forall>j \<in> set (i # js). bit (vd_tq_mask vd') j \<longrightarrow> bit (vd_tq_mask vd) j \<and> vd_ptrs vd' j \<noteq> None"
      using r(4,5) m f(6) Cons.prems(1) by auto
    moreover have "\<forall>x b j. v_hcpriv v' x = Some (b, j) \<longrightarrow> v_hcpriv v x = Some (b, j)
        \<or> (b = a \<and> j \<in> set (i # js) \<and> bit (vd_tq_mask vd') j \<and> vd_endp vd j = Some x)"
    proof (intro allI impI)
      fix x b j assume "v_hcpriv v' x = Some (b, j)"
      with r(6) consider "v_hcpriv w x = Some (b, j)" | "b = a \<and> j \<in> set js \<and> bit (vd_tq_mask vd') j \<and> vd_endp ?vd j = Some x" by blast
      then show "v_hcpriv v x = Some (b, j) \<or> (b = a \<and> j \<in> set (i # js) \<and> bit (vd_tq_mask vd') j \<and> vd_endp vd j = Some x)"
      proof cases
        case 1
        have "bit (vd_tq_mask vd') i = ok" using r(4) m True Cons.prems(1) by auto
        with 1 e show ?thesis by (auto simp: w(2) split: if_splits)
      qed (simp add: endp)
    qed
    ultimately show ?thesis using r(1-3) w(1) endp by auto
  qed
qed simp

section \<open>The maps of ports, devices and endpoints\<close>

text \<open>
  Every mapped port has a device, no two ports share one, every device belongs to a port, and
  \<open>live\<close> are exactly the devices of the table. Device number zero stands for no device.
\<close>

definition ports_ok :: "u8 list \<Rightarrow> addr option list \<Rightarrow> addr set \<Rightarrow> bool" where
  "ports_ok ptd devs live \<longleftrightarrow> length ptd = 16 \<and> length devs = 16
     \<and> (\<forall>p < 16. ptd ! p \<noteq> 0 \<longrightarrow> unat (ptd ! p) < 16 \<and> devs ! unat (ptd ! p) \<noteq> None)
     \<and> (\<forall>p < 16. \<forall>p' < 16. ptd ! p \<noteq> 0 \<longrightarrow> ptd ! p = ptd ! p' \<longrightarrow> p = p')
     \<and> (\<forall>d < 16. devs ! d \<noteq> None \<longrightarrow> d \<noteq> 0 \<and> (\<exists>p < 16. unat (ptd ! p) = d))
     \<and> (\<forall>d < 16. \<forall>d' < 16. devs ! d \<noteq> None \<longrightarrow> devs ! d = devs ! d' \<longrightarrow> d = d')
     \<and> live = {a. Some a \<in> set devs}"

text \<open>A set bit of a device's mask means a live queue, and an endpoint points to such a queue only.\<close>

definition queues_ok :: "(addr \<rightharpoonup> bce_vhci_device) \<Rightarrow> (addr \<Rightarrow> (addr \<times> nat) option) \<Rightarrow> bool" where
  "queues_ok vdevs hcpriv \<longleftrightarrow>
     (\<forall>a vd i. vdevs a = Some vd \<longrightarrow> bit (vd_tq_mask vd) i \<longrightarrow> vd_ptrs vd i \<noteq> None \<and> vd_endp vd i \<noteq> None)
     \<and> (\<forall>e a i. hcpriv e = Some (a, i) \<longrightarrow> (\<exists>vd. vdevs a = Some vd \<and> bit (vd_tq_mask vd) i \<and> vd_endp vd i = Some e))"

definition vhci_ok :: "bce_vhci \<Rightarrow> bool" where
  "vhci_ok v \<longleftrightarrow> ports_ok (v_port_to_device v) (v_devices v) (dom (v_vdevs v)) \<and> queues_ok (v_vdevs v) (v_hcpriv v)
     \<and> length (v_port_resume_skip_reset v) = 16"

lemma ports_okD:
  assumes "ports_ok ptd devs live"
  shows "length ptd = 16" "length devs = 16" "live = {a. Some a \<in> set devs}"
    "p < 16 \<Longrightarrow> ptd ! p \<noteq> 0 \<Longrightarrow> unat (ptd ! p) < 16"
    "p < 16 \<Longrightarrow> ptd ! p \<noteq> 0 \<Longrightarrow> devs ! unat (ptd ! p) \<noteq> None"
    "p < 16 \<Longrightarrow> q < 16 \<Longrightarrow> ptd ! p \<noteq> 0 \<Longrightarrow> ptd ! p = ptd ! q \<Longrightarrow> p = q"
    "d < 16 \<Longrightarrow> devs ! d \<noteq> None \<Longrightarrow> d \<noteq> 0"
    "d < 16 \<Longrightarrow> devs ! d \<noteq> None \<Longrightarrow> \<exists>p < 16. unat (ptd ! p) = d"
    "d < 16 \<Longrightarrow> x < 16 \<Longrightarrow> devs ! d \<noteq> None \<Longrightarrow> devs ! d = devs ! x \<Longrightarrow> d = x"
  using assms unfolding ports_ok_def by blast+

lemma ports_okI:
  assumes "length ptd = 16" "length devs = 16" "live = {a. Some a \<in> set devs}"
    "\<And>p. p < 16 \<Longrightarrow> ptd ! p \<noteq> 0 \<Longrightarrow> unat (ptd ! p) < 16 \<and> devs ! unat (ptd ! p) \<noteq> None"
    "\<And>p q. p < 16 \<Longrightarrow> q < 16 \<Longrightarrow> ptd ! p \<noteq> 0 \<Longrightarrow> ptd ! p = ptd ! q \<Longrightarrow> p = q"
    "\<And>d. d < 16 \<Longrightarrow> devs ! d \<noteq> None \<Longrightarrow> d \<noteq> 0 \<and> (\<exists>p < 16. unat (ptd ! p) = d)"
    "\<And>d x. d < 16 \<Longrightarrow> x < 16 \<Longrightarrow> devs ! d \<noteq> None \<Longrightarrow> devs ! d = devs ! x \<Longrightarrow> d = x"
  shows "ports_ok ptd devs live"
  using assms unfolding ports_ok_def by blast

lemma mapped_device:
  assumes ok: "ports_ok ptd devs live" and p: "p < 16" "ptd ! p \<noteq> 0"
  obtains a where "devs ! unat (ptd ! p) = Some a" "a \<in> live"
proof -
  obtain a where a: "devs ! unat (ptd ! p) = Some a" using ports_okD(5) [OF ok p] by auto
  have "unat (ptd ! p) < length devs" using ports_okD(2,4) [OF ok] p by simp
  then have "a \<in> live" using a ports_okD(3) [OF ok] by (metis mem_Collect_eq nth_mem)
  with a show thesis by (rule that)
qed

lemma live_update:
  assumes "length devs = 16" "d < 16" "devs ! d = None"
  shows "{b. Some b \<in> set (devs[d := Some a])} = insert a {b. Some b \<in> set devs}"
  using assms by (auto simp: in_set_conv_nth nth_list_update split: if_splits) (metis option.distinct(1))+

lemma ports_ok_add:
  assumes ok: "ports_ok ptd devs live" and p: "p < 16" "ptd ! p = 0" and d: "unat d < 16" "d \<noteq> 0" "devs ! unat d = None"
    and a: "a \<notin> live"
  shows "ports_ok (ptd[p := d]) (devs[unat d := Some a]) (insert a live)"
proof (rule ports_okI)
  note l = ports_okD(1,2) [OF ok]
  have new: "ptd ! q \<noteq> d" if "q < 16" for q using ports_okD(5) [OF ok that] d by auto
  have old: "devs ! q \<noteq> Some a" if "q < 16" for q
    using that l a ports_okD(3) [OF ok] by (metis (mono_tags, lifting) mem_Collect_eq nth_mem)
  show "length (ptd[p := d]) = 16" "length (devs[unat d := Some a]) = 16" using l by simp_all
  show "insert a live = {b. Some b \<in> set (devs[unat d := Some a])}"
    using live_update [of devs "unat d" a] l d ports_okD(3) [OF ok] by simp
  show "unat (ptd[p := d] ! q) < 16 \<and> devs[unat d := Some a] ! unat (ptd[p := d] ! q) \<noteq> None"
    if "q < 16" "ptd[p := d] ! q \<noteq> 0" for q
    using that ports_okD(4,5) [OF ok, of q] d l p by (cases "q = p") (auto simp: nth_list_update)
  show "q = q'" if "q < 16" "q' < 16" "ptd[p := d] ! q \<noteq> 0" "ptd[p := d] ! q = ptd[p := d] ! q'" for q q'
    using that ports_okD(6) [OF ok, of q q'] new [of q] new [of q'] l p by (cases "q = p"; cases "q' = p"; auto)
  show "x \<noteq> 0 \<and> (\<exists>q < 16. unat (ptd[p := d] ! q) = x)" if x: "x < 16" "devs[unat d := Some a] ! x \<noteq> None" for x
  proof (cases "x = unat d")
    case True
    then show ?thesis using p l d by (auto simp: unat_eq_zero intro!: exI [of _ p])
  next
    case False
    then have "devs ! x \<noteq> None" using x by simp
    then obtain q where q: "q < 16" "unat (ptd ! q) = x" "x \<noteq> 0" using ports_okD(7,8) [OF ok x(1)] by blast
    then have "q \<noteq> p" using p by auto
    with q show ?thesis by auto
  qed
  show "x = y" if "x < 16" "y < 16" "devs[unat d := Some a] ! x \<noteq> None" "devs[unat d := Some a] ! x = devs[unat d := Some a] ! y" for x y
    using that ports_okD(9) [OF ok, of x y] old [of x] old [of y] l d by (cases "x = unat d"; cases "y = unat d"; auto)
qed

lemma live_remove:
  assumes "length devs = 16" "d < 16" "devs ! d = Some a" "\<And>x. x < 16 \<Longrightarrow> devs ! x = Some a \<Longrightarrow> x = d"
  shows "{b. Some b \<in> set (devs[d := None])} = {b. Some b \<in> set devs} - {a}"
proof -
  have "Some b \<in> set (devs[d := None]) \<longleftrightarrow> (\<exists>x < 16. x \<noteq> d \<and> devs ! x = Some b)" for b
    using assms(1,2) by (auto simp: in_set_conv_nth nth_list_update)
  moreover have "Some b \<in> set devs \<longleftrightarrow> (\<exists>x < 16. devs ! x = Some b)" for b using assms(1) by (auto simp: in_set_conv_nth)
  moreover have "(\<exists>x < 16. x \<noteq> d \<and> devs ! x = Some b) \<longleftrightarrow> (\<exists>x < 16. devs ! x = Some b) \<and> b \<noteq> a" for b
    using assms(3,4) by (metis option.inject)
  ultimately show ?thesis by auto
qed

lemma ports_ok_remove:
  assumes ok: "ports_ok ptd devs live" and p: "p < 16" "ptd ! p \<noteq> 0" "devs ! unat (ptd ! p) = Some a"
  shows "ports_ok (ptd[p := 0]) (devs[unat (ptd ! p) := None]) (live - {a})"
proof (rule ports_okI)
  note l = ports_okD(1,2) [OF ok]
  let ?d = "unat (ptd ! p)"
  have d: "?d < 16" by (rule ports_okD(4) [OF ok p(1,2)])
  have u: "x = ?d" if "x < 16" "devs ! x = Some a" for x using ports_okD(9) [OF ok that(1) d] that p by simp
  show "length (ptd[p := 0]) = 16" "length (devs[?d := None]) = 16" using l by simp_all
  show "live - {a} = {b. Some b \<in> set (devs[?d := None])}"
    using live_remove [OF l(2) d p(3) u] ports_okD(3) [OF ok] by simp
  show "unat (ptd[p := 0] ! q) < 16 \<and> devs[?d := None] ! unat (ptd[p := 0] ! q) \<noteq> None"
    if q: "q < 16" "ptd[p := 0] ! q \<noteq> 0" for q
  proof -
    have n: "q \<noteq> p" "ptd ! q \<noteq> 0" using q l p by (auto simp: nth_list_update split: if_splits)
    then have "unat (ptd ! q) \<noteq> ?d" using ports_okD(6) [OF ok p(1) q(1) p(2)] by (metis word_unat_eq_iff)
    then show ?thesis using ports_okD(4,5) [OF ok q(1) n(2)] n by simp
  qed
  show "q = q'" if "q < 16" "q' < 16" "ptd[p := 0] ! q \<noteq> 0" "ptd[p := 0] ! q = ptd[p := 0] ! q'" for q q'
    using that ports_okD(6) [OF ok, of q q'] l by (cases "q = p"; cases "q' = p"; simp)
  show "x \<noteq> 0 \<and> (\<exists>q < 16. unat (ptd[p := 0] ! q) = x)" if x: "x < 16" "devs[?d := None] ! x \<noteq> None" for x
  proof -
    have n: "x \<noteq> ?d" "devs ! x \<noteq> None" using x l d by (auto simp: nth_list_update split: if_splits)
    then obtain q where q: "q < 16" "unat (ptd ! q) = x" "x \<noteq> 0" using ports_okD(7,8) [OF ok x(1)] by blast
    then have "q \<noteq> p" using n by auto
    with q show ?thesis by auto
  qed
  show "x = y" if "x < 16" "y < 16" "devs[?d := None] ! x \<noteq> None" "devs[?d := None] ! x = devs[?d := None] ! y" for x y
    using that ports_okD(9) [OF ok, of x y] l d by (auto simp: nth_list_update split: if_splits)
qed

lemma mask_bit_bound: "bit (m :: u32) j \<Longrightarrow> j < 32"
  using bit_imp_le_length [of m j] by simp

lemma vhci_ok_view:
  assumes "port_view v' = port_view v" "v_hcpriv v' = v_hcpriv v" "vhci_ok v"
  shows "vhci_ok v'"
  using assms by (simp add: vhci_ok_def port_view_def)

lemma queues_okD:
  assumes "queues_ok vdevs hc"
  shows "vdevs a = Some vd \<Longrightarrow> bit (vd_tq_mask vd) i \<Longrightarrow> vd_ptrs vd i \<noteq> None \<and> vd_endp vd i \<noteq> None"
    "hc e = Some (a, i) \<Longrightarrow> \<exists>vd. vdevs a = Some vd \<and> bit (vd_tq_mask vd) i \<and> vd_endp vd i = Some e"
  using assms unfolding queues_ok_def by blast+

text \<open>The endpoint pointers after the queues of a device were destroyed.\<close>

definition cleared :: "bce_vhci_device \<Rightarrow> (addr \<Rightarrow> (addr \<times> nat) option) \<Rightarrow> addr \<Rightarrow> (addr \<times> nat) option" where
  "cleared vd hc = (\<lambda>e. if \<exists>i \<in> set [0..<32]. bit (vd_tq_mask vd) i \<and> vd_endp vd i = Some e then None else hc e)"

lemma cleared_other:
  assumes "queues_ok vdevs hc" and "vdevs a = Some vd" and "cleared vd hc e = Some (b, j)"
  shows "b \<noteq> a" "hc e = Some (b, j)"
proof -
  show h: "hc e = Some (b, j)" using assms(3) by (auto simp: cleared_def split: if_splits)
  show "b \<noteq> a"
  proof
    assume "b = a"
    then have "bit (vd_tq_mask vd) j" "vd_endp vd j = Some e" using queues_okD(2) [OF assms(1) h] assms(2) by auto
    then show False using assms(3) mask_bit_bound [of "vd_tq_mask vd" j] by (auto simp: cleared_def split: if_splits)
  qed
qed

lemma queues_ok_remove:
  assumes "queues_ok vdevs hc" and "vdevs a = Some vd"
  shows "queues_ok (vdevs(a := None)) (cleared vd hc)"
  unfolding queues_ok_def
proof (intro conjI allI impI)
  fix b vd' i assume "(vdevs(a := None)) b = Some vd'" "bit (vd_tq_mask vd') i"
  then show "vd_ptrs vd' i \<noteq> None" "vd_endp vd' i \<noteq> None"
    using queues_okD(1) [OF assms(1), of b vd' i] by (auto split: if_splits)
next
  fix e b i assume "cleared vd hc e = Some (b, i)"
  with cleared_other [OF assms] have "b \<noteq> a" "hc e = Some (b, i)" by blast+
  with queues_okD(2) [OF assms(1) this(2)] show "\<exists>vd'. (vdevs(a := None)) b = Some vd' \<and> bit (vd_tq_mask vd') i \<and> vd_endp vd' i = Some e"
    by auto
qed

text \<open>Replacing a device by one whose queues are in order, with pointers to its own queues added.\<close>

lemma queues_ok_replace:
  assumes "queues_ok vdevs hc" and "\<And>i. bit (vd_tq_mask vd') i \<Longrightarrow> vd_ptrs vd' i \<noteq> None \<and> vd_endp vd' i \<noteq> None"
    and "\<And>e b j. hc' e = Some (b, j) \<Longrightarrow> (b \<noteq> a \<and> hc e = Some (b, j)) \<or> (b = a \<and> bit (vd_tq_mask vd') j \<and> vd_endp vd' j = Some e)"
  shows "queues_ok (vdevs(a \<mapsto> vd')) hc'"
  unfolding queues_ok_def
proof (intro conjI allI impI)
  fix b vd i assume "(vdevs(a \<mapsto> vd')) b = Some vd" "bit (vd_tq_mask vd) i"
  then show "vd_ptrs vd i \<noteq> None" "vd_endp vd i \<noteq> None"
    using queues_okD(1) [OF assms(1), of b vd i] assms(2) by (auto split: if_splits)
next
  fix e b i assume "hc' e = Some (b, i)"
  with assms(3) consider "b \<noteq> a \<and> hc e = Some (b, i)" | "b = a \<and> bit (vd_tq_mask vd') i \<and> vd_endp vd' i = Some e" by blast
  then show "\<exists>vd. (vdevs(a \<mapsto> vd')) b = Some vd \<and> bit (vd_tq_mask vd) i \<and> vd_endp vd i = Some e"
    by cases (use queues_okD(2) [OF assms(1)] in auto)
qed

lemma port_mapped:
  assumes "vhci_ok v" and "p < 16"
  shows "arr_get (v_port_to_device v) p = Some (v_port_to_device v ! p)"
    and "v_port_to_device v ! p \<noteq> 0 \<Longrightarrow> \<exists>a vd. arr_get (v_devices v) (unat (v_port_to_device v ! p)) = Some (Some a)
      \<and> v_devices v ! unat (v_port_to_device v ! p) = Some a \<and> v_vdevs v a = Some vd"
proof -
  note ok = assms(1) [unfolded vhci_ok_def, THEN conjunct1]
  note l = ports_okD(1,2) [OF ok]
  show "arr_get (v_port_to_device v) p = Some (v_port_to_device v ! p)" using l assms(2) by (simp add: arr_get_def)
  show "\<exists>a vd. arr_get (v_devices v) (unat (v_port_to_device v ! p)) = Some (Some a)
      \<and> v_devices v ! unat (v_port_to_device v ! p) = Some a \<and> v_vdevs v a = Some vd" if n: "v_port_to_device v ! p \<noteq> 0"
  proof -
    obtain a where "v_devices v ! unat (v_port_to_device v ! p) = Some a" "a \<in> dom (v_vdevs v)"
      using mapped_device [OF ok assms(2) n] .
    then show ?thesis using ports_okD(4) [OF ok assms(2) n] l by (auto simp: arr_get_def)
  qed
qed

lemma teardown_ok:
  assumes "queues_ok (v_vdevs v) hc" and "v_vdevs v a = Some vd"
  shows "\<exists>vd' v'. destroy_tqs env [0..<32] vd w = Some (vd', v') \<and> port_view v' = port_view w
    \<and> vd_tq_mask vd' = vd_tq_mask vd \<and> vd_endp vd' = vd_endp vd \<and> v_hcpriv v' = cleared vd (v_hcpriv w)"
  using destroy_tqs_frame [of "[0..<32]" vd env w] queues_okD(1) [OF assms] by (simp add: cleared_def)

lemma signal_reconnect_frame: "port_view (signal_reconnect p v) = port_view v" "v_hcpriv (signal_reconnect p v) = v_hcpriv v"
  by (simp_all add: signal_reconnect_def port_view_def)

lemma free_device_ok:
  assumes ok: "vhci_ok v" and p: "unat p < 16"
  shows "\<exists>v'. bce_vhci_free_device env p v = Some v' \<and> vhci_ok v' \<and> v_port_to_device v' ! unat p = 0"
proof (cases "v_port_to_device v ! unat p = 0")
  case True
  have "vhci_ok (signal_reconnect p v)" by (rule vhci_ok_view [OF signal_reconnect_frame ok])
  moreover have "v_port_to_device (signal_reconnect p v) = v_port_to_device v"
    using signal_reconnect_frame(1) [of p v] by (simp add: port_view_def)
  ultimately show ?thesis using True port_mapped(1) [OF ok p] by (simp add: bce_vhci_free_device_def)
next
  case n: False
  let ?d = "unat (v_port_to_device v ! unat p)"
  obtain a vd where a: "arr_get (v_devices v) ?d = Some (Some a)" "v_devices v ! ?d = Some a" "v_vdevs v a = Some vd"
    using port_mapped(2) [OF ok p n] by blast
  let ?w = "v\<lparr>v_devices := (v_devices v)[?d := None], v_port_to_device := (v_port_to_device v)[unat p := 0]\<rparr>"
  have q: "queues_ok (v_vdevs v) (v_hcpriv v)" using ok by (simp add: vhci_ok_def)
  obtain vd' v' where t: "destroy_tqs env [0..<32] vd ?w = Some (vd', v')" "port_view v' = port_view ?w"
    "v_hcpriv v' = cleared vd (v_hcpriv ?w)" using teardown_ok [OF q a(3), of env ?w] by blast
  let ?r = "(device_destroy env 0 (v_port_to_device v ! unat p) v')\<lparr>v_vdevs := (v_vdevs v')(a := None)\<rparr>"
  have r: "v_port_to_device ?r = (v_port_to_device v)[unat p := 0]" "v_devices ?r = (v_devices v)[?d := None]"
    "v_vdevs ?r = (v_vdevs v)(a := None)" "v_hcpriv ?r = cleared vd (v_hcpriv v)"
    "v_port_resume_skip_reset ?r = v_port_resume_skip_reset v"
    using t(2,3) by (simp_all add: port_view_def device_destroy_def)
  have "dom (v_vdevs ?r) = dom (v_vdevs v) - {a}" by (simp only: r) auto
  then have "vhci_ok ?r"
    unfolding vhci_ok_def r using ports_ok_remove [OF _ p n a(2)] queues_ok_remove [OF q a(3)] ok by (simp add: vhci_ok_def)
  then have "vhci_ok (signal_reconnect p ?r)" by (rule vhci_ok_view [OF signal_reconnect_frame])
  moreover have "v_port_to_device (signal_reconnect p ?r) ! unat p = 0"
    using signal_reconnect_frame(1) [of p ?r] r(1) ok p by (simp add: port_view_def vhci_ok_def ports_ok_def)
  ultimately show ?thesis using n a t port_mapped(1) [OF ok p] by (simp add: bce_vhci_free_device_def)
qed

text \<open>The device answers a creation with a number that is out of range or free; zero stands for none.\<close>

definition fresh_devid :: "u8 option \<Rightarrow> bce_vhci \<Rightarrow> bool" where
  "fresh_devid res v \<longleftrightarrow> (\<forall>d. res = Some d \<longrightarrow> 16 \<le> d \<or> (d \<noteq> 0 \<and> v_devices v ! unat d = None))"

lemma device_create_result:
  assumes "bce_vhci_cmd_device_create jif env port q = (st, res, q')"
  shows "st = 0 \<longleftrightarrow> res \<noteq> None"
  using assms by (auto simp: bce_vhci_cmd_device_create_def split: prod.splits if_splits)

lemma queues_ok_fresh:
  assumes "queues_ok vdevs hc" and "a \<notin> dom vdevs" and "hc e = Some (b, j)"
  shows "b \<noteq> a"
  using queues_okD(2) [OF assms(1,3)] assms(2) by auto

lemma enable_device_ok:
  assumes ok: "vhci_ok v" and p: "unat p < 16"
    and f: "fresh_devid (fst (snd (bce_vhci_cmd_device_create (ve_jif env) (ve_cmd env 0) p (v_cq v)))) v"
    and m: "\<And>x. ve_vdev env = Some x \<Longrightarrow> x \<notin> dom (v_vdevs v)"
  shows "\<exists>st v'. bce_vhci_enable_device env p ep0 v = Some (st, v') \<and> vhci_ok v'
    \<and> (if st = 0 then v_port_to_device v' ! unat p \<noteq> 0
       else v_port_to_device v' = v_port_to_device v \<and> v_devices v' = v_devices v \<and> v_vdevs v' = v_vdevs v)"
proof (cases "v_port_to_device v ! unat p = 0")
  case False
  then show ?thesis using ok port_mapped(1) [OF ok p] by (simp add: bce_vhci_enable_device_def)
next
  case z: True
  obtain st res cq where c: "bce_vhci_cmd_device_create (ve_jif env) (ve_cmd env 0) p (v_cq v) = (st, res, cq)"
    by (metis prod_cases3)
  let ?v1 = "v\<lparr>v_cq := cq\<rparr>"
  have v1: "port_view ?v1 = port_view v" "v_hcpriv ?v1 = v_hcpriv v" by (simp_all add: port_view_def)
  have keep: "vhci_ok w \<and> v_port_to_device w = v_port_to_device v \<and> v_devices w = v_devices v \<and> v_vdevs w = v_vdevs v"
    if "port_view w = port_view v" "v_hcpriv w = v_hcpriv v" for w
    using vhci_ok_view [OF that ok] that by (simp add: port_view_def)
  have fail: ?thesis if "bce_vhci_enable_device env p ep0 v = Some (st', w)" "st' \<noteq> 0" "port_view w = port_view v"
    "v_hcpriv w = v_hcpriv v" for st' w
    using keep [OF that(3,4)] that(1,2) by auto
  note start = port_mapped(1) [OF ok p] z c
  show ?thesis
  proof (cases "st = 0")
    case False
    then show ?thesis using start keep [OF v1] by (simp add: bce_vhci_enable_device_def)
  next
    case s: True
    then obtain d where d: "res = Some d" using device_create_result [OF c] by auto
    have dd: "port_view (device_destroy env 1 d ?v1) = port_view v" "v_hcpriv (device_destroy env 1 d ?v1) = v_hcpriv v"
      using v1 by simp_all
    show ?thesis
    proof (cases "16 \<le> d \<or> ve_vdev env = None")
      case True
      then have "bce_vhci_enable_device env p ep0 v
          = Some (if 16 \<le> d then - EIO else - ENOMEM, device_destroy env 1 d ?v1)"
        using start s d by (cases "16 \<le> d") (simp_all add: bce_vhci_enable_device_def)
      then show ?thesis using keep [OF dd] by simp
    next
      case False
      then obtain a where a: "ve_vdev env = Some a" "a \<notin> dom (v_vdevs v)" using m by auto
      have df: "d < 16" "d \<noteq> 0" "v_devices v ! unat d = None" using f False c d by (auto simp: fresh_devid_def)
      then have u: "unat d < 16" by (simp add: word_less_nat_alt)
      note pok = ok [unfolded vhci_ok_def, THEN conjunct1] and l = ports_okD(1,2) [OF ok [unfolded vhci_ok_def, THEN conjunct1]]
      let ?w = "?v1\<lparr>v_port_to_device := (v_port_to_device v)[unat p := d], v_devices := (v_devices v)[unat d := Some a]\<rparr>"
      have arr: "arr_set (v_port_to_device ?v1) (unat p) d = Some ((v_port_to_device v)[unat p := d])"
        "arr_set (v_devices ?v1) (unat d) (Some a) = Some ((v_devices v)[unat d := Some a])"
        using l p u by (simp_all add: arr_set_def)
      obtain ok' vd v2 where t: "tq_create env 0 ep0 d DMA_BIDIRECTIONAL (zero_device (v_msg_asynchronous ?v1)) ?w = (ok', vd, v2)"
        by (metis prod_cases3)
      note tf = tq_create_frame [OF t]
      note run = start s d df a arr t False
      show ?thesis
      proof (cases ok')
        case False
        let ?r = "device_destroy env 1 d (v2\<lparr>v_devices := (v_devices v2)[unat d := None], v_port_to_device := (v_port_to_device v2)[unat p := 0]\<rparr>)"
        have "(v_port_to_device v)[unat p := d, unat p := 0] = v_port_to_device v"
          "(v_devices v)[unat d := Some a, unat d := None] = v_devices v"
          using z df(3) by (metis list_update_id list_update_overwrite)+
        then have k: "port_view ?r = port_view v" "v_hcpriv ?r = v_hcpriv v"
          using tf(1,2) by (simp_all add: port_view_def device_destroy_def)
        have "bce_vhci_enable_device env p ep0 v = Some (- ENOMEM, ?r)" using run False by (simp add: bce_vhci_enable_device_def)
        then show ?thesis by (rule fail [OF _ _ k]) simp
      next
        case True
        let ?vd = "vd\<lparr>vd_tq_mask := set_bit 0 (vd_tq_mask vd)\<rparr>"
        let ?r = "v2\<lparr>v_vdevs := (v_vdevs v2)(a \<mapsto> ?vd), v_hcpriv := (v_hcpriv v2)(ep0 \<mapsto> (a, 0)),
          v_cq := snd (bce_vhci_cmd_endpoint_create (ve_jif env) (ve_ep env 0) d (v_endpoint v2 ep0) (v_cq v2))\<rparr>"
        have r: "v_port_to_device ?r = (v_port_to_device v)[unat p := d]" "v_devices ?r = (v_devices v)[unat d := Some a]"
          "v_vdevs ?r = (v_vdevs v)(a \<mapsto> ?vd)" "v_hcpriv ?r = (v_hcpriv v)(ep0 \<mapsto> (a, 0))"
          "v_port_resume_skip_reset ?r = v_port_resume_skip_reset v"
          using tf(1,2) by (simp_all add: port_view_def)
        have vd: "bit (vd_tq_mask ?vd) i \<longleftrightarrow> i = 0" "vd_endp ?vd 0 = Some ep0" "vd_ptrs ?vd 0 \<noteq> None" for i
          using tf(3,4,6) True by (auto simp: zero_device_def bit_1_iff)
        have qo: "queues_ok (v_vdevs v) (v_hcpriv v)" using ok by (simp add: vhci_ok_def)
        have "queues_ok ((v_vdevs v)(a \<mapsto> ?vd)) ((v_hcpriv v)(ep0 \<mapsto> (a, 0)))"
          by (rule queues_ok_replace [OF qo]) (use vd queues_ok_fresh [OF qo a(2)] in \<open>auto split: if_splits\<close>)
        moreover have "dom ((v_vdevs v)(a \<mapsto> ?vd)) = insert a (dom (v_vdevs v))" by simp
        ultimately have "vhci_ok ?r"
          unfolding vhci_ok_def r using ports_ok_add [OF pok p z u df(2,3) a(2)] ok by (simp add: vhci_ok_def)
        moreover have "v_port_to_device ?r ! unat p \<noteq> 0" using r(1) p l df by simp
        ultimately show ?thesis using run True by (simp add: bce_vhci_enable_device_def)
      qed
    qed
  qed
qed

lemma reset_teardown_ok:
  assumes ok: "vhci_ok v" and p: "p < 16" and n: "v_port_to_device v ! p \<noteq> 0"
  shows "\<exists>a vd vd1 v1. reset_teardown env p v = Some (Some a, v1)
    \<and> v_devices v ! unat (v_port_to_device v ! p) = Some a \<and> v_vdevs v a = Some vd
    \<and> v_vdevs v1 = (v_vdevs v)(a \<mapsto> vd1) \<and> vd_tq_mask vd1 = vd_tq_mask vd \<and> vd_endp vd1 = vd_endp vd
    \<and> v_port_to_device v1 = (v_port_to_device v)[p := 0]
    \<and> v_devices v1 = (v_devices v)[unat (v_port_to_device v ! p) := None]
    \<and> v_hcpriv v1 = cleared vd (v_hcpriv v) \<and> v_port_resume_skip_reset v1 = v_port_resume_skip_reset v"
proof -
  let ?d = "unat (v_port_to_device v ! p)"
  obtain a vd where a: "arr_get (v_devices v) ?d = Some (Some a)" "v_devices v ! ?d = Some a" "v_vdevs v a = Some vd"
    using port_mapped(2) [OF ok p n] by blast
  have q: "queues_ok (v_vdevs v) (v_hcpriv v)" using ok by (simp add: vhci_ok_def)
  obtain vd' v' where t: "destroy_tqs env [0..<32] vd v = Some (vd', v')" "port_view v' = port_view v"
    "vd_tq_mask vd' = vd_tq_mask vd" "vd_endp vd' = vd_endp vd" "v_hcpriv v' = cleared vd (v_hcpriv v)"
    using teardown_ok [OF q a(3), of env v] by blast
  let ?w = "device_destroy env 0 (v_port_to_device v ! p) (v'\<lparr>v_vdevs := (v_vdevs v')(a \<mapsto> vd'),
           v_devices := (v_devices v')[?d := None], v_port_to_device := (v_port_to_device v')[p := 0]\<rparr>)"
  have "reset_teardown env p v = Some (Some a, ?w)" using a n t(1) port_mapped(1) [OF ok p] by (simp add: reset_teardown_def)
  moreover have "v_vdevs ?w = (v_vdevs v)(a \<mapsto> vd')" "v_port_to_device ?w = (v_port_to_device v)[p := 0]"
    "v_devices ?w = (v_devices v)[?d := None]" "v_hcpriv ?w = cleared vd (v_hcpriv v)"
    "v_port_resume_skip_reset ?w = v_port_resume_skip_reset v"
    using t(2,5) by (simp_all add: port_view_def device_destroy_def)
  ultimately show ?thesis using a(2,3) t(3,4) by blast
qed

text \<open>What the device answers to the creation in the middle of a reset.\<close>

definition reset_answer :: "vhci_env \<Rightarrow> nat \<Rightarrow> u16 \<Rightarrow> bce_vhci \<Rightarrow> int \<times> u8 option" where
  "reset_answer env index timeout v =
     (case reset_teardown env index v of
        Some (Some a, v1) \<Rightarrow>
          (case bce_vhci_cmd_device_create (ve_jif env) (ve_cmd env 2) (of_nat index)
              (snd (bce_vhci_cmd_port_reset (ve_jif env) (ve_cmd env 1) (of_nat index) (ucast timeout) (v_cq v1))) of
             (st, res, cq) \<Rightarrow> (st, res))
      | _ \<Rightarrow> (0, None))"

lemma reset_answer_result:
  assumes "vhci_ok v" "p < 16" "v_port_to_device v ! p \<noteq> 0"
  shows "fst (reset_answer env p timeout v) = 0 \<longleftrightarrow> snd (reset_answer env p timeout v) \<noteq> None"
  using reset_teardown_ok [OF assms, of env] device_create_result
  by (auto simp: reset_answer_def split: prod.splits)

lemma reset_device_mapped:
  assumes ok: "vhci_ok v" and p: "p < 16" and n: "v_port_to_device v ! p \<noteq> 0" and s: "v_port_resume_skip_reset v ! p = 0"
    and ans: "reset_answer env p timeout v = (0, Some d)" "d < 16" "d \<noteq> 0"
      "v_devices v ! unat d = None \<or> d = v_port_to_device v ! p"
  shows "\<exists>v'. bce_vhci_reset_device env p timeout v = Some (0, v') \<and> vhci_ok v' \<and> v_port_to_device v' ! p = d"
proof -
  let ?o = "unat (v_port_to_device v ! p)"
  obtain a vd vd1 v1 where t: "reset_teardown env p v = Some (Some a, v1)" "v_devices v ! ?o = Some a" "v_vdevs v a = Some vd"
    "v_vdevs v1 = (v_vdevs v)(a \<mapsto> vd1)" "vd_tq_mask vd1 = vd_tq_mask vd" "vd_endp vd1 = vd_endp vd"
    "v_port_to_device v1 = (v_port_to_device v)[p := 0]" "v_devices v1 = (v_devices v)[?o := None]"
    "v_hcpriv v1 = cleared vd (v_hcpriv v)" "v_port_resume_skip_reset v1 = v_port_resume_skip_reset v"
    using reset_teardown_ok [OF ok p n, of env] by blast
  note pok = ok [unfolded vhci_ok_def, THEN conjunct1] and qok = ok [unfolded vhci_ok_def, THEN conjunct2, THEN conjunct1]
  note l = ports_okD(1,2) [OF pok]
  obtain st1 cq1 where r1: "bce_vhci_cmd_port_reset (ve_jif env) (ve_cmd env 1) (of_nat p) (ucast timeout) (v_cq v1) = (st1, cq1)"
    by (metis surj_pair)
  obtain cq2 where r2: "bce_vhci_cmd_device_create (ve_jif env) (ve_cmd env 2) (of_nat p) cq1 = (0, Some d, cq2)"
    using ans(1) t(1) r1 by (auto simp: reset_answer_def split: prod.splits)
  have u: "unat d < 16" using ans(2) by (simp add: word_less_nat_alt)
  let ?devs = "(v_devices v)[?o := None, unat d := Some a]" and ?ports = "(v_port_to_device v)[p := 0, p := d]"
  let ?w = "v1\<lparr>v_cq := cq1, v_cq := cq2, v_devices := ?devs, v_port_to_device := ?ports\<rparr>"
  have arr: "arr_set (v_devices v1) (unat d) (Some a) = Some ?devs" "arr_set (v_port_to_device v1) p d = Some ?ports"
    using l p u t(7,8) by (simp_all add: arr_set_def)
  have "\<forall>i \<in> set [0..<32]. bit (vd_tq_mask vd1) i \<longrightarrow> vd_endp vd1 i \<noteq> None"
    using queues_okD(1) [OF qok t(3)] t(5,6) by auto
  then obtain vd2 v2 where c: "recreate_tqs env d a [0..<32] vd1 ?w = Some (vd2, v2)" "port_view v2 = port_view ?w"
    "vd_endp vd2 = vd_endp vd1" "\<forall>j. j \<notin> set [0..<32] \<longrightarrow> bit (vd_tq_mask vd2) j = bit (vd_tq_mask vd1) j"
    "\<forall>j \<in> set [0..<32]. bit (vd_tq_mask vd2) j \<longrightarrow> bit (vd_tq_mask vd1) j \<and> vd_ptrs vd2 j \<noteq> None"
    "\<forall>e b j. v_hcpriv v2 e = Some (b, j) \<longrightarrow> v_hcpriv ?w e = Some (b, j)
        \<or> (b = a \<and> j \<in> set [0..<32] \<and> bit (vd_tq_mask vd2) j \<and> vd_endp vd1 j = Some e)"
    using recreate_tqs_frame [of "[0..<32]" vd1 env d a ?w] by auto
  let ?r = "v2\<lparr>v_vdevs := (v_vdevs v2)(a \<mapsto> vd2)\<rparr>"
  have run: "bce_vhci_reset_device env p timeout v = Some (0, ?r)"
    using s ok p t(1,4) r1 r2 arr c(1) by (simp add: bce_vhci_reset_device_def arr_get_def vhci_ok_def)
  have r: "v_port_to_device ?r = ?ports" "v_devices ?r = ?devs" "v_vdevs ?r = (v_vdevs v)(a \<mapsto> vd2)"
    "v_hcpriv ?r = v_hcpriv v2" "v_port_resume_skip_reset ?r = v_port_resume_skip_reset v"
    using c(2) t(4,10) by (simp_all add: port_view_def)
  have "queues_ok ((v_vdevs v)(a \<mapsto> vd2)) (v_hcpriv v2)"
  proof (rule queues_ok_replace [OF qok])
    fix i assume b: "bit (vd_tq_mask vd2) i"
    then have "i \<in> set [0..<32]" using mask_bit_bound by simp
    then have "bit (vd_tq_mask vd1) i \<and> vd_ptrs vd2 i \<noteq> None" using c(5) b by blast
    then show "vd_ptrs vd2 i \<noteq> None \<and> vd_endp vd2 i \<noteq> None" using c(3) t(5,6) queues_okD(1) [OF qok t(3)] by auto
  next
    fix e b j assume "v_hcpriv v2 e = Some (b, j)"
    with c(6) consider "v_hcpriv ?w e = Some (b, j)" | "b = a \<and> bit (vd_tq_mask vd2) j \<and> vd_endp vd1 j = Some e" by blast
    then show "b \<noteq> a \<and> v_hcpriv v e = Some (b, j) \<or> b = a \<and> bit (vd_tq_mask vd2) j \<and> vd_endp vd2 j = Some e"
    proof cases
      case 1
      then have "cleared vd (v_hcpriv v) e = Some (b, j)" using t(9) by simp
      with cleared_other [OF qok t(3)] show ?thesis by blast
    qed (simp add: c(3))
  qed
  moreover have "ports_ok ?ports ?devs (dom ((v_vdevs v)(a \<mapsto> vd2)))"
  proof -
    have "ports_ok ((v_port_to_device v)[p := 0]) ((v_devices v)[?o := None]) (dom (v_vdevs v) - {a})"
      by (rule ports_ok_remove [OF pok p n t(2)])
    moreover have "(v_devices v)[?o := None] ! unat d = None"
      using ans(4) l ports_okD(4) [OF pok p n] by (cases "unat d = ?o") auto
    ultimately have "ports_ok ?ports ?devs (insert a (dom (v_vdevs v) - {a}))"
      using ports_ok_add [of "(v_port_to_device v)[p := 0]" "(v_devices v)[?o := None]" "dom (v_vdevs v) - {a}" p d a] u ans(3) p l by simp
    then show ?thesis by (simp add: insert_Diff_single)
  qed
  ultimately have "vhci_ok ?r" unfolding vhci_ok_def r using ok by (simp add: vhci_ok_def)
  moreover have "v_port_to_device ?r ! p = d" using r(1) l p by simp
  ultimately show ?thesis using run by blast
qed

lemma reset_device_unmapped:
  assumes ok: "vhci_ok v" and p: "p < 16" and z: "v_port_to_device v ! p = 0 \<or> v_port_resume_skip_reset v ! p \<noteq> 0"
  shows "\<exists>st v'. bce_vhci_reset_device env p timeout v = Some (st, v') \<and> vhci_ok v' \<and> v_port_to_device v' = v_port_to_device v"
proof (cases "v_port_resume_skip_reset v ! p = 0")
  case True
  have "vhci_ok (v\<lparr>v_cq := cq\<rparr>)" for cq by (rule vhci_ok_view [OF _ _ ok]) (simp_all add: port_view_def)
  with True z ok p show ?thesis
    by (auto simp: bce_vhci_reset_device_def arr_get_def vhci_ok_def reset_teardown_def ports_ok_def split: prod.splits)
next
  case False
  then have "v_port_resume_skip_reset v ! p > 0" by (simp add: word_gt_0)
  then show ?thesis using ok p by (auto simp: bce_vhci_reset_device_def arr_get_def vhci_ok_def)
qed

lemma endpoint_index_bound: "unat (bce_vhci_endpoint_index x) < 32"
proof -
  have "x AND 0xf \<le> 0xf" by (rule word_and_le1)
  then have "unat (x AND 0xf) \<le> 15" by (simp add: word_le_nat_alt)
  then show ?thesis by (simp add: bce_vhci_endpoint_index_def unat_word_ariths)
qed

text \<open>The index of an endpoint, and the endpoints the USB core may pass for the device at a port.\<close>

abbreviation ep_index :: "bce_vhci \<Rightarrow> addr \<Rightarrow> nat" where
  "ep_index v e \<equiv> unat (bce_vhci_endpoint_index (ep_address (v_endpoint v e)))"

definition endpoint_of :: "bce_vhci \<Rightarrow> nat \<Rightarrow> addr \<Rightarrow> bool" where
  "endpoint_of v p e \<longleftrightarrow> (\<forall>a vd. v_devices v ! unat (v_port_to_device v ! p) = Some a \<longrightarrow> v_vdevs v a = Some vd \<longrightarrow>
     (bit (vd_tq_mask vd) (ep_index v e) \<longrightarrow> vd_endp vd (ep_index v e) = Some e)
     \<and> (\<forall>b j. v_hcpriv v e = Some (b, j) \<longrightarrow> b = a \<and> j = ep_index v e))"

lemma vhci_ok_replace:
  assumes ok: "vhci_ok v" and a: "v_vdevs v a = Some vd"
    and w: "v_port_to_device w = v_port_to_device v" "v_devices w = v_devices v" "v_vdevs w = (v_vdevs v)(a \<mapsto> vd')"
      "v_port_resume_skip_reset w = v_port_resume_skip_reset v"
    and l: "\<And>i. bit (vd_tq_mask vd') i \<Longrightarrow> vd_ptrs vd' i \<noteq> None \<and> vd_endp vd' i \<noteq> None"
    and h: "\<And>e b j. v_hcpriv w e = Some (b, j) \<Longrightarrow> (b \<noteq> a \<and> v_hcpriv v e = Some (b, j))
      \<or> (b = a \<and> bit (vd_tq_mask vd') j \<and> vd_endp vd' j = Some e)"
  shows "vhci_ok w"
proof -
  have "queues_ok (v_vdevs w) (v_hcpriv w)"
    unfolding w by (rule queues_ok_replace [where hc = "v_hcpriv v"]) (use ok l h in \<open>auto simp: vhci_ok_def\<close>)
  moreover have "dom (v_vdevs w) = dom (v_vdevs v)" using a w(3) by auto
  ultimately show ?thesis using ok w(1,2,4) by (simp add: vhci_ok_def)
qed

lemma own_queue:
  assumes "queues_ok vdevs hc" and "hc e = Some (b, j)" and "vdevs a = Some vd"
  shows "b \<noteq> a \<or> (bit (vd_tq_mask vd) j \<and> vd_endp vd j = Some e)"
  using queues_okD(2) [OF assms(1,2)] assms(3) by auto

lemma device_at:
  assumes ok: "vhci_ok v" and p: "p < 16"
  shows "arr_get (v_port_to_device v) p = Some (v_port_to_device v ! p)"
    and "arr_get (v_devices v) (unat (v_port_to_device v ! p)) = Some (v_devices v ! unat (v_port_to_device v ! p))"
    and "v_devices v ! unat (v_port_to_device v ! p) = Some a \<Longrightarrow> v_port_to_device v ! p \<noteq> 0 \<and> (\<exists>vd. v_vdevs v a = Some vd)"
proof -
  note pok = ok [unfolded vhci_ok_def, THEN conjunct1]
  note l = ports_okD(1,2) [OF pok]
  have u: "unat (v_port_to_device v ! p) < 16" using ports_okD(4) [OF pok p] by (cases "v_port_to_device v ! p = 0") auto
  show "arr_get (v_port_to_device v) p = Some (v_port_to_device v ! p)"
    "arr_get (v_devices v) (unat (v_port_to_device v ! p)) = Some (v_devices v ! unat (v_port_to_device v ! p))"
    using l p u by (simp_all add: arr_get_def)
  show "v_port_to_device v ! p \<noteq> 0 \<and> (\<exists>vd. v_vdevs v a = Some vd)" if s: "v_devices v ! unat (v_port_to_device v ! p) = Some a"
  proof -
    have "Some a \<in> set (v_devices v)" using s u l by (metis nth_mem)
    then have "a \<in> dom (v_vdevs v)" using ports_okD(3) [OF pok] by simp
    moreover have "unat (v_port_to_device v ! p) \<noteq> 0" using ports_okD(7) [OF pok u] s by simp
    ultimately show ?thesis by auto
  qed
qed

lemma add_endpoint_ok:
  assumes ok: "vhci_ok v" and p: "unat p < 16" and e: "endpoint_of v (unat p) e"
  shows "\<exists>st v'. bce_vhci_add_endpoint env p root e v = Some (st, v') \<and> vhci_ok v'"
proof (cases "root \<or> v_devices v ! unat (v_port_to_device v ! unat p) = None")
  case True
  then show ?thesis using device_at(1,2) [OF ok p] ok by (cases root) (simp_all add: bce_vhci_add_endpoint_def)
next
  case False
  let ?i = "ep_index v e" and ?d = "v_port_to_device v ! unat p"
  obtain a where a: "v_devices v ! unat ?d = Some a" using False by auto
  obtain vd where vd: "v_vdevs v a = Some vd" using device_at(3) [OF ok p a] by blast
  note live = queues_okD(1) [OF ok [unfolded vhci_ok_def, THEN conjunct2, THEN conjunct1] vd]
  note hc = own_queue [OF ok [unfolded vhci_ok_def, THEN conjunct2, THEN conjunct1] _ vd]
  note start = device_at(1,2) [OF ok p] a vd False
  show ?thesis
  proof (cases "bit (vd_tq_mask vd) ?i")
    case True
    let ?w = "v\<lparr>v_hcpriv := (v_hcpriv v)(e \<mapsto> (a, ?i))\<rparr>"
    have "vd_endp vd ?i = Some e" using e a vd True by (simp add: endpoint_of_def)
    then have "vhci_ok ?w"
      by (intro vhci_ok_replace [OF ok vd, where vd' = vd])
        (use vd live True hc in \<open>auto split: if_splits\<close>)
    then show ?thesis using start True by (simp add: bce_vhci_add_endpoint_def)
  next
    case nb: False
    let ?dir = "if usb_endpoint_dir_in (v_endpoint v e) then DMA_FROM_DEVICE else DMA_TO_DEVICE"
    obtain c vd1 v1 where t: "tq_create env ?i e ?d ?dir vd v = (c, vd1, v1)" by (metis prod_cases3)
    note tf = tq_create_frame [OF t]
    have pv: "v_port_to_device v1 = v_port_to_device v" "v_devices v1 = v_devices v" "v_vdevs v1 = v_vdevs v"
      "v_port_resume_skip_reset v1 = v_port_resume_skip_reset v" using tf(1) by (simp_all add: port_view_def)
    have other: "j \<noteq> ?i \<Longrightarrow> vd_ptrs vd1 j = vd_ptrs vd j" for j using tf(5) by (metis fun_upd_apply)
    show ?thesis
    proof (cases c)
      case False
      have "vhci_ok (v1\<lparr>v_vdevs := (v_vdevs v1)(a \<mapsto> vd1)\<rparr>)"
      proof (rule vhci_ok_replace [OF ok vd, where vd' = vd1])
        fix i assume "bit (vd_tq_mask vd1) i"
        then show "vd_ptrs vd1 i \<noteq> None \<and> vd_endp vd1 i \<noteq> None" using nb tf(3,4) other [of i] live [of i] by auto
      next
        fix x b j assume "v_hcpriv (v1\<lparr>v_vdevs := (v_vdevs v1)(a \<mapsto> vd1)\<rparr>) x = Some (b, j)"
        then have "v_hcpriv v x = Some (b, j)" using tf(2) by simp
        with hc [OF this] nb tf(3,4) show "b \<noteq> a \<and> v_hcpriv v x = Some (b, j) \<or> b = a \<and> bit (vd_tq_mask vd1) j \<and> vd_endp vd1 j = Some x"
          by auto
      qed (simp_all add: pv)
      then show ?thesis using start nb t False by (simp add: bce_vhci_add_endpoint_def)
    next
      case cr: True
      obtain st cq where k: "bce_vhci_cmd_endpoint_create (ve_jif env) (ve_ep env ?i) ?d (v_endpoint v1 e) (v_cq v1) = (st, cq)"
        by (metis surj_pair)
      let ?v2 = "v1\<lparr>v_cq := cq\<rparr>"
      show ?thesis
      proof (cases "st = 0")
        case True
        let ?vd = "vd1\<lparr>vd_tq_mask := set_bit ?i (vd_tq_mask vd1)\<rparr>"
        let ?w = "?v2\<lparr>v_hcpriv := (v_hcpriv ?v2)(e \<mapsto> (a, ?i)), v_vdevs := (v_vdevs ?v2)(a \<mapsto> ?vd)\<rparr>"
        have m: "bit (vd_tq_mask ?vd) j \<longleftrightarrow> bit (vd_tq_mask vd) j \<or> j = ?i" for j
          using tf(3) endpoint_index_bound by (auto simp: bit_set_bit_iff)
        have "vhci_ok ?w"
        proof (rule vhci_ok_replace [OF ok vd, where vd' = ?vd])
          fix i assume "bit (vd_tq_mask ?vd) i"
          then show "vd_ptrs ?vd i \<noteq> None \<and> vd_endp ?vd i \<noteq> None"
            using m tf(4,6) cr other [of i] live [of i] by (cases "i = ?i") auto
        next
          fix x b j assume "v_hcpriv ?w x = Some (b, j)"
          then show "b \<noteq> a \<and> v_hcpriv v x = Some (b, j) \<or> b = a \<and> bit (vd_tq_mask ?vd) j \<and> vd_endp ?vd j = Some x"
            using hc [of x b j] nb m tf(2,4) by (cases "x = e"; cases "j = ?i"; auto)
        qed (simp_all add: pv)
        then show ?thesis using start nb t cr k True by (simp add: bce_vhci_add_endpoint_def Let_def)
      next
        case False
        let ?v3 = "?v2\<lparr>v_hcpriv := (v_hcpriv ?v2)(e := None)\<rparr>"
        obtain q where "vd_ptrs vd1 ?i = Some q" using cr tf(6) by auto
        from tq_destroy_frame [OF this] obtain vd2 v4 where y: "tq_destroy env ?i vd1 ?v3 = Some (vd2, v4)" "port_view v4 = port_view ?v3"
          "v_hcpriv v4 = v_hcpriv ?v3" "vd_tq_mask vd2 = vd_tq_mask vd1" "vd_endp vd2 = vd_endp vd1" "vd_ptrs vd2 = (vd_ptrs vd1)(?i := None)"
          by blast
        have y': "v_port_to_device v4 = v_port_to_device v" "v_devices v4 = v_devices v" "v_vdevs v4 = v_vdevs v"
          "v_port_resume_skip_reset v4 = v_port_resume_skip_reset v" using y(2) pv by (simp_all add: port_view_def)
        have "vhci_ok (v4\<lparr>v_vdevs := (v_vdevs v4)(a \<mapsto> vd2)\<rparr>)"
        proof (rule vhci_ok_replace [OF ok vd, where vd' = vd2])
          fix i assume "bit (vd_tq_mask vd2) i"
          then show "vd_ptrs vd2 i \<noteq> None \<and> vd_endp vd2 i \<noteq> None"
            using nb tf(3,4) y(4,5,6) other [of i] live [of i] by auto
        next
          fix x b j assume "v_hcpriv (v4\<lparr>v_vdevs := (v_vdevs v4)(a \<mapsto> vd2)\<rparr>) x = Some (b, j)"
          then have "v_hcpriv v x = Some (b, j)" using tf(2) y(3) by (auto split: if_splits)
          with hc [OF this] nb tf(3,4) y(4,5) show "b \<noteq> a \<and> v_hcpriv v x = Some (b, j) \<or> b = a \<and> bit (vd_tq_mask vd2) j \<and> vd_endp vd2 j = Some x"
            by auto
        qed (simp_all add: y')
        then show ?thesis using start nb t cr k False y(1) by (simp add: bce_vhci_add_endpoint_def)
      qed
    qed
  qed
qed

lemma drop_endpoint_ok:
  assumes ok: "vhci_ok v" and p: "unat p < 16" and e: "endpoint_of v (unat p) e"
  shows "\<exists>v'. bce_vhci_drop_endpoint env p attached e v = Some (0, v') \<and> vhci_ok v' \<and> (v_port_to_device v ! unat p \<noteq> 0 \<longrightarrow> v_hcpriv v' e = None)"
proof (cases "v_devices v ! unat (v_port_to_device v ! unat p) = None")
  case True
  let ?w = "v\<lparr>v_hcpriv := (v_hcpriv v)(e := None)\<rparr>"
  have "queues_ok (v_vdevs v) ((v_hcpriv v)(e := None))"
    using ok unfolding vhci_ok_def queues_ok_def by (metis fun_upd_apply option.distinct(1))
  then have "vhci_ok ?w" using ok by (simp add: vhci_ok_def)
  then show ?thesis using True device_at(1,2) [OF ok p]
    by (cases "v_port_to_device v ! unat p = 0") (simp_all add: bce_vhci_drop_endpoint_def)
next
  case False
  let ?i = "ep_index v e" and ?d = "v_port_to_device v ! unat p"
  obtain a where a: "v_devices v ! unat ?d = Some a" using False by auto
  obtain vd where vd: "v_vdevs v a = Some vd" and dz: "?d \<noteq> 0" using device_at(3) [OF ok p a] by blast
  note qok = ok [unfolded vhci_ok_def, THEN conjunct2, THEN conjunct1]
  note live = queues_okD(1) [OF qok vd] and hc = own_queue [OF qok _ vd]
  have own: "bit (vd_tq_mask vd) ?i \<Longrightarrow> vd_endp vd ?i = Some e" "v_hcpriv v e = Some (b, j) \<Longrightarrow> b = a \<and> j = ?i" for b j
    using e a vd by (auto simp: endpoint_of_def)
  note start = device_at(1,2) [OF ok p] a vd dz
  show ?thesis
  proof (cases "bit (vd_tq_mask vd) ?i")
    case False
    then have "v_hcpriv v e = None" using own(2) hc by (metis not_Some_eq surj_pair)
    then show ?thesis using start False ok by (simp add: bce_vhci_drop_endpoint_def)
  next
    case True
    have tgt: "(case v_hcpriv v e of Some q \<Rightarrow> Some q | None \<Rightarrow> if bit (vd_tq_mask vd) ?i then Some (a, ?i) else None) = Some (a, ?i)"
      using True own(2) by (cases "v_hcpriv v e") auto
    define v1 where "v1 = (if attached then v\<lparr>v_cq := snd (bce_vhci_cmd_endpoint_destroy (ve_jif env) (ve_cmd env 0) ?d
                         (ep_address (v_endpoint v e) AND 0x8F) (v_cq v))\<rparr> else v)"
    have v1: "port_view v1 = port_view v" "v_hcpriv v1 = v_hcpriv v" by (simp_all add: v1_def port_view_def)
    let ?vd = "vd\<lparr>vd_tq_mask := unset_bit ?i (vd_tq_mask vd)\<rparr>"
    let ?v2 = "v1\<lparr>v_vdevs := (v_vdevs v1)(a \<mapsto> ?vd)\<rparr>"
    obtain q where "vd_ptrs ?vd ?i = Some q" using live [OF True] by auto
    from tq_destroy_frame [OF this] obtain vd2 v4 where y: "tq_destroy env ?i ?vd ?v2 = Some (vd2, v4)" "port_view v4 = port_view ?v2"
      "v_hcpriv v4 = v_hcpriv ?v2" "vd_tq_mask vd2 = vd_tq_mask ?vd" "vd_endp vd2 = vd_endp ?vd" "vd_ptrs vd2 = (vd_ptrs ?vd)(?i := None)"
      by blast
    have y': "v_port_to_device v4 = v_port_to_device v" "v_devices v4 = v_devices v" "v_vdevs v4 = (v_vdevs v)(a \<mapsto> ?vd)"
      "v_port_resume_skip_reset v4 = v_port_resume_skip_reset v" "v_hcpriv v4 = v_hcpriv v" using y(2,3) v1 by (simp_all add: port_view_def)
    have m: "bit (vd_tq_mask vd2) j \<longleftrightarrow> bit (vd_tq_mask vd) j \<and> j \<noteq> ?i" for j
      using y(4) by (auto simp: bit_unset_bit_iff)
    let ?w = "v4\<lparr>v_vdevs := (v_vdevs v4)(a \<mapsto> vd2), v_hcpriv := (v_hcpriv v4)(e := None)\<rparr>"
    have "vhci_ok ?w"
    proof (rule vhci_ok_replace [OF ok vd, where vd' = vd2])
      fix i assume "bit (vd_tq_mask vd2) i"
      then show "vd_ptrs vd2 i \<noteq> None \<and> vd_endp vd2 i \<noteq> None" using m live [of i] y(5,6) by auto
    next
      fix x b j assume "v_hcpriv ?w x = Some (b, j)"
      then have x: "x \<noteq> e" "v_hcpriv v x = Some (b, j)" using y'(5) by (auto split: if_splits)
      then have "j \<noteq> ?i" if "b = a" using hc [OF x(2)] own(1) [OF True] that by auto
      with hc [OF x(2)] m y(5) x
      show "b \<noteq> a \<and> v_hcpriv v x = Some (b, j) \<or> b = a \<and> bit (vd_tq_mask vd2) j \<and> vd_endp vd2 j = Some x" by auto
    qed (simp_all add: y')
    moreover have "bce_vhci_drop_endpoint env p attached e v = Some (0, ?w)"
      using start tgt y(1) unfolding v1_def by (simp add: bce_vhci_drop_endpoint_def)
    ultimately show ?thesis by simp
  qed
qed

section \<open>Histories of the controller's devices\<close>

lemma on_tq_ok:
  assumes ok: "vhci_ok v" and e: "v_hcpriv v e = Some (a, i)"
  shows "\<exists>vd. v_vdevs v a = Some vd \<and> vd_ptrs vd i \<noteq> None \<and> bit (vd_tq_mask vd) i \<and> vd_endp vd i = Some e
    \<and> (on_tq a i f v = None \<longleftrightarrow> f ((vd_tq vd i)\<lparr>tq_mq := bce_vhci_get_msg_queue (tq_endp (vd_tq vd i)) v\<rparr>) = None)"
    and "on_tq a i f v = Some (r, v') \<Longrightarrow> vhci_ok v'"
proof -
  note qok = ok [unfolded vhci_ok_def, THEN conjunct2, THEN conjunct1]
  obtain vd where vd: "v_vdevs v a = Some vd" "bit (vd_tq_mask vd) i" "vd_endp vd i = Some e"
    using queues_okD(2) [OF qok e] by blast
  then obtain p where p: "vd_ptrs vd i = Some p" using queues_okD(1) [OF qok vd(1,2)] by auto
  show "\<exists>vd. v_vdevs v a = Some vd \<and> vd_ptrs vd i \<noteq> None \<and> bit (vd_tq_mask vd) i \<and> vd_endp vd i = Some e
    \<and> (on_tq a i f v = None \<longleftrightarrow> f ((vd_tq vd i)\<lparr>tq_mq := bce_vhci_get_msg_queue (tq_endp (vd_tq vd i)) v\<rparr>) = None)"
    using vd p by (auto simp: on_tq_def Let_def split: Option.bind_splits)
  show "vhci_ok v'" if o: "on_tq a i f v = Some (r, v')"
  proof -
    obtain q where v': "v' = set_msg_queue (tq_endp (vd_tq vd i)) (tq_mq q) (v\<lparr>v_vdevs := (v_vdevs v)(a \<mapsto> vd\<lparr>vd_tq := (vd_tq vd)(i := q)\<rparr>)\<rparr>)"
      using o vd(1) p by (auto simp: on_tq_def Let_def split: Option.bind_splits)
    show ?thesis
    proof (rule vhci_ok_replace [OF ok vd(1), where vd' = "vd\<lparr>vd_tq := (vd_tq vd)(i := q)\<rparr>"])
      fix j assume "bit (vd_tq_mask (vd\<lparr>vd_tq := (vd_tq vd)(i := q)\<rparr>)) j"
      then show "vd_ptrs (vd\<lparr>vd_tq := (vd_tq vd)(i := q)\<rparr>) j \<noteq> None \<and> vd_endp (vd\<lparr>vd_tq := (vd_tq vd)(i := q)\<rparr>) j \<noteq> None"
        using queues_okD(1) [OF qok vd(1)] by simp
    next
      fix x b j assume "v_hcpriv v' x = Some (b, j)"
      then have "v_hcpriv v x = Some (b, j)" by (simp add: v' set_msg_queue_def split: if_splits)
      with own_queue [OF qok this vd(1)]
      show "b \<noteq> a \<and> v_hcpriv v x = Some (b, j) \<or> b = a \<and> bit (vd_tq_mask (vd\<lparr>vd_tq := (vd_tq vd)(i := q)\<rparr>)) j
          \<and> vd_endp (vd\<lparr>vd_tq := (vd_tq vd)(i := q)\<rparr>) j = Some x" by auto
    qed (simp_all add: v' set_msg_queue_def)
  qed
qed

text \<open>
  The calls of the USB core, with what it and the device promise: port numbers below sixteen, the
  endpoints of the device at the port, fresh memory, and device numbers that are not in use. A reset
  is taken in only when the device is created again.
\<close>

inductive usb_step :: "bce_vhci \<Rightarrow> bce_vhci \<Rightarrow> bool" where
  us_enable: "unat p < 16 \<Longrightarrow> fresh_devid (fst (snd (bce_vhci_cmd_device_create (ve_jif env) (ve_cmd env 0) p (v_cq v)))) v
    \<Longrightarrow> (\<forall>x. ve_vdev env = Some x \<longrightarrow> x \<notin> dom (v_vdevs v)) \<Longrightarrow> bce_vhci_enable_device env p ep0 v = Some (st, v') \<Longrightarrow> usb_step v v'"
| us_free: "unat p < 16 \<Longrightarrow> bce_vhci_free_device env p v = Some v' \<Longrightarrow> usb_step v v'"
| us_reset_mapped: "p < 16 \<Longrightarrow> v_port_to_device v ! p \<noteq> 0 \<Longrightarrow> v_port_resume_skip_reset v ! p = 0
    \<Longrightarrow> reset_answer env p timeout v = (0, Some d) \<Longrightarrow> d < 16 \<Longrightarrow> d \<noteq> 0
    \<Longrightarrow> v_devices v ! unat d = None \<or> d = v_port_to_device v ! p
    \<Longrightarrow> bce_vhci_reset_device env p timeout v = Some (st, v') \<Longrightarrow> usb_step v v'"
| us_reset: "p < 16 \<Longrightarrow> v_port_to_device v ! p = 0 \<or> v_port_resume_skip_reset v ! p \<noteq> 0
    \<Longrightarrow> bce_vhci_reset_device env p timeout v = Some (st, v') \<Longrightarrow> usb_step v v'"
| us_add: "unat p < 16 \<Longrightarrow> endpoint_of v (unat p) e \<Longrightarrow> bce_vhci_add_endpoint env p root e v = Some (st, v') \<Longrightarrow> usb_step v v'"
| us_drop: "unat p < 16 \<Longrightarrow> endpoint_of v (unat p) e \<Longrightarrow> bce_vhci_drop_endpoint env p attached e v = Some (st, v') \<Longrightarrow> usb_step v v'"
| us_enqueue: "bce_vhci_urb_enqueue mem link e urb u v = Some (st, v') \<Longrightarrow> usb_step v v'"
| us_dequeue: "bce_vhci_urb_dequeue check e urb status v = Some (st, v') \<Longrightarrow> usb_step v v'"
| us_endpoint_reset: "bce_vhci_endpoint_reset e v = Some v' \<Longrightarrow> usb_step v v'"
| us_queue: "v_hcpriv v e = Some (a, i) \<Longrightarrow> on_tq a i f v = Some ((r :: int), v') \<Longrightarrow> usb_step v v'"
| us_other: "port_view v' = port_view v \<Longrightarrow> v_hcpriv v' = v_hcpriv v \<Longrightarrow> usb_step v v'"

inductive vhci_reachable :: "bce_vhci \<Rightarrow> bool" where
  vr_init: "v_port_to_device v = replicate 16 0 \<Longrightarrow> v_devices v = replicate 16 None \<Longrightarrow> v_vdevs v = Map.empty
    \<Longrightarrow> v_hcpriv v = Map.empty \<Longrightarrow> v_port_resume_skip_reset v = replicate 16 0 \<Longrightarrow> vhci_reachable v"
| vr_step: "vhci_reachable v \<Longrightarrow> usb_step v v' \<Longrightarrow> vhci_reachable v'"

lemma usb_step_ok:
  assumes "usb_step v v'" and ok: "vhci_ok v"
  shows "vhci_ok v'"
  using assms(1)
proof (cases rule: usb_step.cases)
  case (us_enable p env ep0 st)
  then show ?thesis using enable_device_ok [OF ok, of p env ep0] by auto
next
  case (us_free p env)
  then show ?thesis using free_device_ok [OF ok, of p env] by auto
next
  case (us_reset_mapped p env timeout d st)
  then show ?thesis using reset_device_mapped [OF ok us_reset_mapped(1-7)] by auto
next
  case (us_reset p env timeout st)
  then show ?thesis using reset_device_unmapped [OF ok us_reset(1,2), of env timeout] by auto
next
  case (us_add p e env root st)
  then show ?thesis using add_endpoint_ok [OF ok us_add(1,2), of env root] by auto
next
  case (us_drop p e env attached st)
  then show ?thesis using drop_endpoint_ok [OF ok us_drop(1,2), of env attached] by auto
next
  case (us_enqueue mem link e urb u st)
  then show ?thesis using ok on_tq_ok(2) [OF ok] by (auto simp: bce_vhci_urb_enqueue_def split: option.splits)
next
  case (us_dequeue check e urb status st)
  then show ?thesis using ok on_tq_ok(2) [OF ok] by (auto simp: bce_vhci_urb_dequeue_def split: option.splits)
next
  case (us_endpoint_reset e)
  then show ?thesis using ok on_tq_ok(2) [OF ok] by (auto simp: bce_vhci_endpoint_reset_def split: option.splits)
next
  case (us_queue e a i f r)
  then show ?thesis by (blast intro: on_tq_ok(2) [OF ok])
next
  case us_other
  then show ?thesis by (rule vhci_ok_view [OF _ _ ok])
qed

lemma vhci_reachable_ok: "vhci_reachable v \<Longrightarrow> vhci_ok v"
proof (induction rule: vhci_reachable.induct)
  case (vr_init v)
  then show ?case by (simp add: vhci_ok_def ports_ok_def queues_ok_def)
next
  case (vr_step v v')
  then show ?case by (blast intro: usb_step_ok)
qed


text \<open>
  The reset of a port takes its device down before it asks for a new one. When the
  device refuses, the function returns the status with the structure of the old device in no table:
  no later call can find or free it. When the device answers with a number beyond the table, the
  function writes behind the end of the array.
\<close>

theorem vhci_reset_loses_device:
  assumes ok: "vhci_ok v" and p: "p < 16" "v_port_to_device v ! p \<noteq> 0" "v_port_resume_skip_reset v ! p = 0"
  shows "(fst (reset_answer env p timeout v) \<noteq> 0 \<longrightarrow>
      (\<exists>v' a. bce_vhci_reset_device env p timeout v = Some (fst (reset_answer env p timeout v), v')
        \<and> a \<in> dom (v_vdevs v') \<and> Some a \<notin> set (v_devices v')))
    \<and> (\<forall>d. reset_answer env p timeout v = (0, Some d) \<longrightarrow> 16 \<le> d \<longrightarrow> bce_vhci_reset_device env p timeout v = None)"
proof -
  let ?o = "unat (v_port_to_device v ! p)"
  obtain a vd1 v1 where t: "reset_teardown env p v = Some (Some a, v1)" "v_devices v ! ?o = Some a"
    "v_vdevs v1 = (v_vdevs v)(a \<mapsto> vd1)" "v_devices v1 = (v_devices v)[?o := None]"
    "v_port_resume_skip_reset v1 = v_port_resume_skip_reset v"
    using reset_teardown_ok [OF ok p(1,2), of env] by blast
  note pok = ok [unfolded vhci_ok_def, THEN conjunct1]
  have gone: "Some a \<notin> set ((v_devices v)[?o := None])"
    using ports_okD(3) [OF ports_ok_remove [OF pok p(1,2) t(2)]] by blast
  obtain st1 cq1 where r1: "bce_vhci_cmd_port_reset (ve_jif env) (ve_cmd env 1) (of_nat p) (ucast timeout) (v_cq v1) = (st1, cq1)"
    by (metis surj_pair)
  obtain st res cq2 where r2: "bce_vhci_cmd_device_create (ve_jif env) (ve_cmd env 2) (of_nat p) cq1 = (st, res, cq2)"
    by (metis prod_cases3)
  have ans: "reset_answer env p timeout v = (st, res)" using t(1) r1 r2 by (simp add: reset_answer_def)
  have sk: "arr_get (v_port_resume_skip_reset v) p = Some 0" using ok p by (simp add: arr_get_def vhci_ok_def)
  have "bce_vhci_reset_device env p timeout v = Some (st, v1\<lparr>v_cq := cq1, v_cq := cq2\<rparr>)" if "st \<noteq> 0"
    using that sk t(1) r1 r2 by (simp add: bce_vhci_reset_device_def)
  moreover have "bce_vhci_reset_device env p timeout v = None" if "st = 0" "res = Some d" "16 \<le> d" for d
  proof -
    have "length (v_devices v1) = 16" using t(4) ports_okD(2) [OF pok] by simp
    then have "arr_set (v_devices v1) (unat d) (Some a) = None" using that(3) by (simp add: arr_set_def word_le_nat_alt)
    then show ?thesis using that sk t(1) r1 r2 by (simp add: bce_vhci_reset_device_def)
  qed
  ultimately show ?thesis using ans t(3,4) gone by auto
qed

section \<open>Examples\<close>

text \<open>A controller without devices, and one with the device 2 at port 1, whose queues are gone.\<close>

definition ex_vhci :: bce_vhci where
  "ex_vhci = \<lparr>v_dev = ex_dev, v_cq = ex_vcq, v_msg_system = ex_mq, v_msg_isochronous = ex_mq, v_msg_interrupt = ex_mq,
     v_msg_asynchronous = ex_mq, v_ev_commands = ex_eq, v_ev_system = ex_eq, v_ev_isochronous = ex_eq,
     v_ev_interrupt = ex_eq, v_ev_asynchronous = ex_eq, v_port_mask = 2, v_port_count = 2, v_port_power_mask = 0,
     v_port_to_device = replicate 16 0, v_devices = replicate 16 None, v_last_recovery_jiffies = 0,
     v_recovery_fail_count = 0, v_watchdog = False, v_w_fw_events = False, v_port_resume_mask = 0, v_port_reenumerate_mask = 0,
     v_port_suppress_connect_mask = 0, v_port_resume_skip_reset = replicate 16 0, v_vdevs = Map.empty,
     v_endpoint = (\<lambda>e. ex_endp), v_hcpriv = Map.empty, v_polls = 0\<rparr>"

definition ex_vhci_mapped :: bce_vhci where
  "ex_vhci_mapped = ex_vhci\<lparr>v_port_to_device := (replicate 16 0)[1 := 2], v_devices := (replicate 16 None)[2 := Some 5],
     v_vdevs := [5 \<mapsto> zero_device ex_mq]\<rparr>"

text \<open>A device that answers each command with success; a creation gets the number \<open>d\<close>.\<close>

definition ex_answer_cmd :: "u16 \<Rightarrow> u64 \<Rightarrow> exec_env" where
  "ex_answer_cmd c d = \<lparr>ex_reserve = [], ex_reply = [\<lparr>vm_cmd = c OR 0x8000, vm_status = BCE_VHCI_SUCCESS, vm_param1 = 0, vm_param2 = d\<rparr>],
     ex_ring = (\<lambda>q. q), ex_reserve_cancel = [], ex_cancel_reply = [], ex_ring_cancel = (\<lambda>q. q), ex_late = []\<rparr>"

definition ex_vhci_env :: "u64 \<Rightarrow> vhci_env" where
  "ex_vhci_env d = \<lparr>ve_jif = (\<lambda>n. n), ve_ida = (\<lambda>s lo hi. int lo), ve_vdev = Some 9,
     ve_cmd = (\<lambda>n. if n = 0 then ex_answer_cmd BCE_VHCI_CMD_DEVICE_DESTROY 0
       else if n = 1 then ex_answer_cmd BCE_VHCI_CMD_PORT_RESET 0 else ex_answer_cmd BCE_VHCI_CMD_DEVICE_CREATE d),
     ve_ep = (\<lambda>n. ex_answer_cmd BCE_VHCI_CMD_ENDPOINT_CREATE 0),
     ve_tq = (\<lambda>n. \<lparr>te_cq = ex_alloc, te_in = ex_alloc, te_out = ex_alloc, te_undo = al_cmd ex_alloc, te_undo_res = 0\<rparr>),
     ve_self = (\<lambda>n. n), ve_destroy = (\<lambda>n. (0, al_cmd ex_alloc))\<rparr>"

lemma ex_vhci_reachable: "vhci_reachable ex_vhci"
  by (rule vr_init) (simp_all add: ex_vhci_def)

lemma ex_vhci_mapped_ok: "vhci_ok ex_vhci_mapped"
proof -
  have "ports_ok (replicate 16 0) (replicate 16 None) {}" "queues_ok Map.empty Map.empty"
    using vhci_reachable_ok [OF ex_vhci_reachable] by (simp_all add: vhci_ok_def ex_vhci_def)
  from ports_ok_add [OF this(1), of 1 2 5] queues_ok_replace [OF this(2), of "zero_device ex_mq" Map.empty 5]
  show ?thesis by (simp add: vhci_ok_def ex_vhci_mapped_def ex_vhci_def zero_device_def)
qed


text \<open>An answered command succeeds on a queue with room, and takes one slot of the ring.\<close>

lemma answered_execute:
  fixes t :: nat
  assumes "\<not> vc_controller_dead q" and "0 < sq_available_commands (mq_sq (vc_mq q))"
    and c: "(c OR 0x8000) AND NOT 0x8000 = c"
  shows "\<exists>q'. bce_vhci_command_queue_execute (ex_answer_cmd c d) (vhci_cmd c p1 p2) t q = (0, q')
    \<and> \<not> vc_controller_dead q' \<and> sq_available_commands (mq_sq (vc_mq q')) = sq_available_commands (mq_sq (vc_mq q)) - 1
    \<and> vm_param2 (vc_res q') = d"
  using assms
  by (simp add: bce_vhci_command_queue_execute_def ex_answer_cmd_def vc_reserve_def bce_reserve_submission.simps
      atomic_dec_if_positive_def vc_write_def bce_vhci_message_queue_write_def bce_next_submission_def sq_store_def
      wait_delivered_def deliver_all_def bce_vhci_command_queue_deliver_completion_def vhci_cmd_def exec_status_def
      reply_cmd_def split_beta Let_def)

theorem vhci_reset_loses_device_witness:
  "(\<exists>st v' a. bce_vhci_reset_device (ex_vhci_env 3) 1 4 (ex_vhci_mapped\<lparr>v_cq := ex_vcq\<lparr>vc_controller_dead := True\<rparr>\<rparr>) = Some (st, v')
     \<and> st \<noteq> 0 \<and> a \<in> dom (v_vdevs v') \<and> Some a \<notin> set (v_devices v'))
   \<and> bce_vhci_reset_device (ex_vhci_env 16) 1 4 ex_vhci_mapped = None"
proof -
  let ?v = "ex_vhci_mapped\<lparr>v_cq := ex_vcq\<lparr>vc_controller_dead := True\<rparr>\<rparr>"
  have ok: "vhci_ok ?v" by (rule vhci_ok_view [OF _ _ ex_vhci_mapped_ok]) (simp_all add: port_view_def)
  have p: "(1 :: nat) < 16" "v_port_to_device ex_vhci_mapped ! 1 \<noteq> 0" "v_port_resume_skip_reset ex_vhci_mapped ! 1 = 0"
    by (simp_all add: ex_vhci_mapped_def ex_vhci_def)
  then have p': "v_port_to_device ?v ! 1 \<noteq> 0" "v_port_resume_skip_reset ?v ! 1 = 0" by simp_all
  have m: "bit (vd_tq_mask (zero_device q)) i = False" for i q by (simp add: zero_device_def)
  have empty: "destroy_tqs env js (zero_device q) w = Some (zero_device q, w)" for env js w q
    by (induction js) (simp_all add: m)
  have "reset_answer (ex_vhci_env 3) 1 4 ?v = (- ENODEV, None)"
    by (simp add: reset_answer_def reset_teardown_def arr_get_def empty device_destroy_def ex_vhci_mapped_def ex_vhci_def
        bce_vhci_cmd_device_destroy_def bce_vhci_cmd_port_reset_def bce_vhci_cmd_device_create_def bce_vhci_command_queue_execute_def)
  then have 1: "\<exists>v' a. bce_vhci_reset_device (ex_vhci_env 3) 1 4 ?v = Some (- ENODEV, v') \<and> a \<in> dom (v_vdevs v') \<and> Some a \<notin> set (v_devices v')"
    using vhci_reset_loses_device [OF ok p(1) p', of "ex_vhci_env 3" 4] by simp
  have q0: "\<not> vc_controller_dead (v_cq ex_vhci_mapped)" "sq_available_commands (mq_sq (vc_mq (v_cq ex_vhci_mapped))) = 3"
    by (simp_all add: ex_vhci_mapped_def ex_vhci_def ex_vcq_def ex_mq_def ex_vring_available)
  obtain q1 where q1: "bce_vhci_cmd_device_destroy (\<lambda>n. n) (ex_answer_cmd BCE_VHCI_CMD_DEVICE_DESTROY 0) 2 (v_cq ex_vhci_mapped) = (0, q1)"
    "\<not> vc_controller_dead q1" "sq_available_commands (mq_sq (vc_mq q1)) = 2"
    using answered_execute [where q = "v_cq ex_vhci_mapped" and c = BCE_VHCI_CMD_DEVICE_DESTROY and d = 0 and ?p1.0 = 2 and ?p2.0 = 0 and t = 5000] q0
    by (auto simp: bce_vhci_cmd_device_destroy_def)
  obtain q2 where q2: "bce_vhci_cmd_port_reset (\<lambda>n. n) (ex_answer_cmd BCE_VHCI_CMD_PORT_RESET 0) 1 4 q1 = (0, q2)"
    "\<not> vc_controller_dead q2" "sq_available_commands (mq_sq (vc_mq q2)) = 1"
    using answered_execute [where q = q1 and c = BCE_VHCI_CMD_PORT_RESET and d = 0 and ?p1.0 = 1 and ?p2.0 = 4 and t = 2000] q1 by (auto simp: bce_vhci_cmd_port_reset_def)
  obtain q3 where q3: "bce_vhci_cmd_device_create (\<lambda>n. n) (ex_answer_cmd BCE_VHCI_CMD_DEVICE_CREATE 16) 1 q2 = (0, Some 16, q3)"
    using answered_execute [where q = q2 and c = BCE_VHCI_CMD_DEVICE_CREATE and d = 16 and ?p1.0 = 1 and ?p2.0 = 0 and t = 2000] q2 by (auto simp: bce_vhci_cmd_device_create_def split: prod.splits)
  have "\<exists>v1. reset_teardown (ex_vhci_env 16) 1 ex_vhci_mapped = Some (Some 5, v1) \<and> v_cq v1 = q1"
    using q1(1) by (simp add: reset_teardown_def arr_get_def empty device_destroy_def ex_vhci_mapped_def ex_vhci_def ex_vhci_env_def)
  then have "reset_answer (ex_vhci_env 16) 1 4 ex_vhci_mapped = (0, Some 16)"
    using q2(1) q3 by (auto simp: reset_answer_def ex_vhci_env_def)
  then have 2: "bce_vhci_reset_device (ex_vhci_env 16) 1 4 ex_vhci_mapped = None"
    using vhci_reset_loses_device [OF ex_vhci_mapped_ok p, of "ex_vhci_env 16" 4] by simp
  show ?thesis using 1 2 by (intro conjI exI [of _ "- ENODEV"]) simp_all
qed

end
