(* ===== verification/Vhci_Hub.thy ===== *)
theory Vhci_Hub
  imports Vhci_Device
begin

unbundle bit_operations_syntax

text \<open>
  Start and stop of the virtual host controller and its root hub: the change bitmap, the status of a
  port and the requests of the USB core (\<open>bce_vhci_start\<close>, \<open>bce_vhci_stop\<close>,
  \<open>bce_vhci_hub_status_data\<close> and \<open>bce_vhci_hub_control\<close> in \<open>src/vhci/vhci.c\<close>).

  A request returns the status, the bytes it stores at the start of the caller's buffer, and the
  controller. The numbers of the USB core's requests and the sizes of its structures are constants.
\<close>

section \<open>Start and stop\<close>

text \<open>The loop that counts the bits up to the highest port.\<close>

function count_ports :: "u16 \<Rightarrow> u8 \<Rightarrow> u8" where
  "count_ports port_mask port_no = (if port_mask = 0 then port_no else count_ports (drop_bit 1 port_mask) (port_no + 1))"
  by pat_completeness auto
termination
proof (relation "measure (\<lambda>(m, n). unat m)")
  fix m :: u16 assume "m \<noteq> 0"
  then have "0 < unat m" by (simp add: unat_gt_0)
  then have "unat (drop_bit 1 m) < unat m" by (simp add: drop_bit_eq_div unat_div)
  then show "((drop_bit 1 m, n + 1), (m, n)) \<in> measure (\<lambda>(m, n). unat m)" for n :: u8 by simp
qed simp

declare count_ports.simps [simp del]

definition bce_vhci_start :: "vhci_env \<Rightarrow> bce_vhci \<Rightarrow> (int \<times> bce_vhci) option" where
  "bce_vhci_start env v =
     (case bce_vhci_cmd_controller_enable (ve_jif env) (ve_cmd env 0) 1 (v_cq v) of
        (st, res, cq) \<Rightarrow>
          if st \<noteq> 0 then Some (st, v\<lparr>v_cq := cq\<rparr>)
          else do {
            port_mask \<leftarrow> res;
            let v1 = v\<lparr>v_cq := cq, v_port_mask := port_mask, v_port_power_mask := 0\<rparr>;
            let (st', cq') = bce_vhci_cmd_controller_start (ve_jif env) (ve_cmd env 1) (v_cq v1);
            let v2 = v1\<lparr>v_cq := cq'\<rparr>;
            if st' \<noteq> 0 then Some (st', v2)
            else Some (0, v2\<lparr>v_port_count := count_ports (v_port_mask v2) 0, v_watchdog := True\<rparr>)
          })"

definition bce_vhci_stop :: "vhci_env \<Rightarrow> bce_vhci \<Rightarrow> bce_vhci" where
  "bce_vhci_stop env v =
     v\<lparr>v_watchdog := False, v_cq := snd (bce_vhci_cmd_controller_disable (ve_jif env) (ve_cmd env 0) (v_cq v))\<rparr>"

section \<open>The root hub\<close>

text \<open>Requests, features and status bits of the USB core.\<close>

abbreviation GetHubDescriptor :: u16 where "GetHubDescriptor \<equiv> 0xa006"
abbreviation GetHubStatus :: u16 where "GetHubStatus \<equiv> 0xa000"
abbreviation GetPortStatus :: u16 where "GetPortStatus \<equiv> 0xa300"
abbreviation SetPortFeature :: u16 where "SetPortFeature \<equiv> 0x2303"
abbreviation ClearPortFeature :: u16 where "ClearPortFeature \<equiv> 0x2301"
abbreviation USB_PORT_FEAT_ENABLE :: u16 where "USB_PORT_FEAT_ENABLE \<equiv> 1"
abbreviation USB_PORT_FEAT_SUSPEND :: u16 where "USB_PORT_FEAT_SUSPEND \<equiv> 2"
abbreviation USB_PORT_FEAT_RESET :: u16 where "USB_PORT_FEAT_RESET \<equiv> 4"
abbreviation USB_PORT_FEAT_POWER :: u16 where "USB_PORT_FEAT_POWER \<equiv> 8"
abbreviation USB_PORT_FEAT_C_CONNECTION :: u16 where "USB_PORT_FEAT_C_CONNECTION \<equiv> 16"
abbreviation USB_PORT_FEAT_C_RESET :: u16 where "USB_PORT_FEAT_C_RESET \<equiv> 20"
abbreviation USB_PORT_STAT_CONNECTION :: u16 where "USB_PORT_STAT_CONNECTION \<equiv> 1"
abbreviation USB_PORT_STAT_ENABLE :: u16 where "USB_PORT_STAT_ENABLE \<equiv> 2"
abbreviation USB_PORT_STAT_SUSPEND :: u16 where "USB_PORT_STAT_SUSPEND \<equiv> 4"
abbreviation USB_PORT_STAT_OVERCURRENT :: u16 where "USB_PORT_STAT_OVERCURRENT \<equiv> 8"
abbreviation USB_PORT_STAT_RESET :: u16 where "USB_PORT_STAT_RESET \<equiv> 0x10"
abbreviation USB_PORT_STAT_POWER :: u16 where "USB_PORT_STAT_POWER \<equiv> 0x100"
abbreviation USB_PORT_STAT_HIGH_SPEED :: u16 where "USB_PORT_STAT_HIGH_SPEED \<equiv> 0x400"
abbreviation USB_PORT_STAT_C_CONNECTION :: u16 where "USB_PORT_STAT_C_CONNECTION \<equiv> 1"
abbreviation USB_DT_HUB :: u8 where "USB_DT_HUB \<equiv> 0x29"

text \<open>The sizes of the structures of the USB core.\<close>

abbreviation sizeof_hub_descriptor :: nat where "sizeof_hub_descriptor \<equiv> 15"
abbreviation sizeof_hub_status :: nat where "sizeof_hub_status \<equiv> 4"

text \<open>A 16-bit little-endian field.\<close>

definition le16 :: "u16 \<Rightarrow> u8 list" where
  "le16 x = [ucast x, ucast (drop_bit 8 x)]"

text \<open>The change bitmap of the hub: bit \<open>i\<close> of the bytes for the port \<open>i\<close>.\<close>

definition status_byte :: "u64 \<Rightarrow> nat \<Rightarrow> nat \<Rightarrow> u8" where
  "status_byte m port_count b =
     fold (\<lambda>i x. if i div 8 = b \<and> bit m i then x OR push_bit (i mod 8) 1 else x) [1..<Suc port_count] 0"

definition bce_vhci_hub_status_data :: "bce_vhci \<Rightarrow> nat \<times> u8 list" where
  "bce_vhci_hub_status_data v =
     (if v_port_resume_mask v = 0 then (0, [])
      else let ret_len = (unat (v_port_count v) + 8) div 8
           in (ret_len, map (status_byte (v_port_resume_mask v) (unat (v_port_count v))) [0..<ret_len]))"

definition bce_vhci_cmd_status_to_errno :: "int \<Rightarrow> int" where
  "bce_vhci_cmd_status_to_errno status = (if status > 0 then - EIO else status)"

text \<open>
  The status of a port: the two words, with the status of the device's answer. \<open>pm\<close> is the module
  parameter \<open>vhci_port_mask\<close>.
\<close>

definition port_bits :: "u32 \<Rightarrow> u16" where
  "port_bits s =
     (if s AND 16 \<noteq> 0 then USB_PORT_STAT_ENABLE OR USB_PORT_STAT_HIGH_SPEED else 0)
     OR (if s AND 4 \<noteq> 0 then USB_PORT_STAT_CONNECTION else 0)
     OR (if s AND 2 \<noteq> 0 then USB_PORT_STAT_OVERCURRENT else 0)
     OR (if s AND 8 \<noteq> 0 then USB_PORT_STAT_RESET else 0)
     OR (if s AND 0x60 \<noteq> 0 then USB_PORT_STAT_SUSPEND else 0)"

definition get_port_status :: "u16 \<Rightarrow> vhci_env \<Rightarrow> u16 \<Rightarrow> bce_vhci \<Rightarrow> (int \<times> u8 list \<times> bce_vhci) option" where
  "get_port_status pm env wIndex v =
     (let i = unat wIndex;
          power = (if bit (v_port_power_mask v) i then USB_PORT_STAT_POWER else 0)
      in if \<not> bit pm i \<or> vc_controller_dead (v_cq v) then Some (0, le16 power @ le16 0, v)
         else if bit (v_port_reenumerate_mask v) i then Some (0, le16 power @ le16 USB_PORT_STAT_C_CONNECTION, v)
         else
           case bce_vhci_cmd_port_status (ve_jif env) (ve_cmd env 0) (ucast wIndex) 0 (v_cq v) of
             (st, res, cq) \<Rightarrow>
               let v1 = v\<lparr>v_cq := cq\<rparr> in
               if st \<noteq> 0 then Some (bce_vhci_cmd_status_to_errno st, [], v1)
               else do {
                 s \<leftarrow> res;
                 Some (0, le16 (power OR port_bits s)
                   @ le16 (if s AND 0x40000 \<noteq> 0 \<or> bit (v_port_resume_mask v1) i then USB_PORT_STAT_C_CONNECTION else 0), v1)
               })"

text \<open>A command whose status is returned to the USB core.\<close>

definition hub_cmd :: "(bce_vhci_command_queue \<Rightarrow> int \<times> bce_vhci_command_queue) \<Rightarrow> bce_vhci
    \<Rightarrow> int \<times> bce_vhci" where
  "hub_cmd f v = (case f (v_cq v) of (st, cq) \<Rightarrow> (st, v\<lparr>v_cq := cq\<rparr>))"

definition hub_result :: "int \<times> bce_vhci \<Rightarrow> (int \<times> u8 list \<times> bce_vhci) option" where
  "hub_result r = Some (bce_vhci_cmd_status_to_errno (fst r), [], snd r)"

definition set_port_feature :: "vhci_env \<Rightarrow> u16 \<Rightarrow> u16 \<Rightarrow> bce_vhci \<Rightarrow> (int \<times> u8 list \<times> bce_vhci) option" where
  "set_port_feature env wValue wIndex v =
     (let port = ucast wIndex :: u8; jif = ve_jif env; c = ve_cmd env 0 in
      if wValue = USB_PORT_FEAT_POWER then
        let (st, v1) = hub_cmd (bce_vhci_cmd_port_power_on jif c port) v
        in hub_result (st, if st = 0 then v1\<lparr>v_port_power_mask := set_bit (unat wIndex) (v_port_power_mask v1)\<rparr> else v1)
      else if wValue = USB_PORT_FEAT_RESET then
        Option.bind (bce_vhci_reset_device env (unat wIndex) wValue v) hub_result
      else if wValue = USB_PORT_FEAT_SUSPEND then hub_result (hub_cmd (bce_vhci_cmd_port_suspend jif c port) v)
      else Some (- EIO, [], v))"

definition clear_port_feature :: "vhci_env \<Rightarrow> u16 \<Rightarrow> u16 \<Rightarrow> bce_vhci \<Rightarrow> (int \<times> u8 list \<times> bce_vhci) option" where
  "clear_port_feature env wValue wIndex v =
     (let port = ucast wIndex :: u8; jif = ve_jif env; c = ve_cmd env 0 in
      if wValue = USB_PORT_FEAT_ENABLE then hub_result (hub_cmd (bce_vhci_cmd_port_disable jif c port) v)
      else if wValue = USB_PORT_FEAT_POWER then
        let (st, v1) = hub_cmd (bce_vhci_cmd_port_power_off jif c port) v
        in hub_result (st, if st = 0 then v1\<lparr>v_port_power_mask := unset_bit (unat wIndex) (v_port_power_mask v1)\<rparr> else v1)
      else if wValue = USB_PORT_FEAT_C_CONNECTION then
        let v1 = v\<lparr>v_port_resume_mask := unset_bit (unat wIndex) (v_port_resume_mask v)\<rparr>;
            (st, res, cq) = bce_vhci_cmd_port_status jif c port 0x40000 (v_cq v1)
        in hub_result (st, v1\<lparr>v_cq := cq\<rparr>)
      else if wValue = USB_PORT_FEAT_C_RESET then Some (0, [], v)
      else if wValue = USB_PORT_FEAT_SUSPEND then
        if bit (v_port_reenumerate_mask v) (unat wIndex) then Some (0, [], v)
        else hub_result (hub_cmd (bce_vhci_cmd_port_resume jif c port) v)
      else Some (- EIO, [], v))"

text \<open>The result has the bytes stored at the start of the buffer.\<close>

definition bce_vhci_hub_control :: "u16 \<Rightarrow> vhci_env \<Rightarrow> u16 \<Rightarrow> u16 \<Rightarrow> u16 \<Rightarrow> nat \<Rightarrow> bce_vhci
    \<Rightarrow> (int \<times> u8 list \<times> bce_vhci) option" where
  "bce_vhci_hub_control pm env typeReq wValue wIndex wLength v =
     (if (typeReq = GetPortStatus \<or> typeReq = SetPortFeature \<or> typeReq = ClearPortFeature)
           \<and> (wIndex < 1 \<or> wIndex > ucast (v_port_count v)) then Some (- EPIPE, [], v)
      else if typeReq = GetHubDescriptor \<and> wLength \<ge> sizeof_hub_descriptor then
        Some (0, [of_nat sizeof_hub_descriptor, USB_DT_HUB, v_port_count v] @ le16 (0x0001 OR 0x0008)
          @ replicate (sizeof_hub_descriptor - 5) 0, v)
      else if typeReq = GetHubStatus \<and> wLength \<ge> sizeof_hub_status then Some (0, replicate sizeof_hub_status 0, v)
      else if typeReq = GetPortStatus \<and> wLength \<ge> 4 then get_port_status pm env wIndex v
      else if typeReq = SetPortFeature then set_port_feature env wValue wIndex v
      else if typeReq = ClearPortFeature then clear_port_feature env wValue wIndex v
      else Some (- EIO, [], v))"

section \<open>The number of ports\<close>

text \<open>The loop returns the position behind the highest bit of the mask.\<close>

lemma count_ports_width:
  assumes "unat m < 2 ^ k" and "unat n + k < 256"
  shows "\<exists>c \<le> k. unat (count_ports m n) = unat n + c \<and> unat m < 2 ^ c \<and> (if m = 0 then c = 0 else 0 < c \<and> 2 ^ (c - 1) \<le> unat m)"
  using assms
proof (induction k arbitrary: m n)
  case 0
  then have "m = 0" by (simp add: unat_eq_zero)
  then show ?case by (simp add: count_ports.simps)
next
  case (Suc k)
  show ?case
  proof (cases "m = 0")
    case True
    then show ?thesis by (simp add: count_ports.simps)
  next
    case False
    let ?m = "drop_bit 1 m"
    have u: "unat ?m = unat m div 2" by (simp add: drop_bit_eq_div unat_div)
    have n: "unat (n + 1) = unat n + 1" using Suc.prems(2) by (subst unat_plus_simple [THEN iffD1]) (auto simp: word_le_nat_alt unat_word_ariths)
    obtain c where c: "c \<le> k" "unat (count_ports ?m (n + 1)) = unat n + 1 + c" "unat m div 2 < 2 ^ c"
      "if ?m = 0 then c = 0 else 0 < c \<and> 2 ^ (c - 1) \<le> unat m div 2"
    proof -
      have "unat ?m < 2 ^ k" "unat (n + 1) + k < 256" using Suc.prems u n by auto
      from Suc.IH [OF this] obtain c where "c \<le> k" "unat (count_ports ?m (n + 1)) = unat (n + 1) + c" "unat ?m < 2 ^ c"
        "if ?m = 0 then c = 0 else 0 < c \<and> 2 ^ (c - 1) \<le> unat ?m" by blast
      then show thesis unfolding u n by (rule that)
    qed
    have "unat m < 2 ^ Suc c" using c(3) by simp
    moreover have "2 ^ c \<le> unat m"
    proof (cases "?m = 0")
      case True
      then show ?thesis using c(4) False by (simp add: Suc_le_eq unat_gt_0)
    next
      case False
      then have "2 ^ (c - 1) \<le> unat m div 2" "0 < c" using c(4) by auto
      then have "2 ^ (c - 1) * 2 \<le> unat m" by linarith
      then show ?thesis using \<open>0 < c\<close> by (cases c) (simp_all add: mult.commute)
    qed
    ultimately show ?thesis using False c(1,2) by (intro exI [of _ "Suc c"]) (simp add: count_ports.simps [of m])
  qed
qed

lemma port_count_width:
  "unat (count_ports m 0) \<le> 16 \<and> unat m < 2 ^ unat (count_ports m 0)
    \<and> (m \<noteq> 0 \<longrightarrow> 0 < unat (count_ports m 0) \<and> 2 ^ (unat (count_ports m 0) - 1) \<le> unat m)"
proof -
  have "unat m < 2 ^ 16" using unat_below [of m] by simp
  then obtain c where "c \<le> 16" "unat (count_ports m 0) = c" "unat m < 2 ^ c" "if m = 0 then c = 0 else 0 < c \<and> 2 ^ (c - 1) \<le> unat m"
    using count_ports_width [of m 16 0] by auto
  then show ?thesis by (cases "m = 0") auto
qed

section \<open>What the hub answers\<close>

lemma errno_nonpositive: "bce_vhci_cmd_status_to_errno st \<le> 0"
  by (simp add: bce_vhci_cmd_status_to_errno_def)

lemma get_port_status_ok:
  "\<exists>st bytes v'. get_port_status pm env w v = Some (st, bytes, v') \<and> st \<le> 0"
proof -
  obtain st res cq where c: "bce_vhci_cmd_port_status (ve_jif env) (ve_cmd env 0) (ucast w) 0 (v_cq v) = (st, res, cq)"
    by (metis prod_cases3)
  then have "st = 0 \<Longrightarrow> \<exists>s. res = Some s" by (auto simp: bce_vhci_cmd_port_status_def split: prod.splits if_splits)
  then show ?thesis using c errno_nonpositive [of st] by (auto simp: get_port_status_def Let_def)
qed

text \<open>No request of the USB core but a reset can fault.\<close>

lemma set_port_feature_ok:
  assumes "wValue = USB_PORT_FEAT_RESET \<Longrightarrow> bce_vhci_reset_device env (unat w) wValue v \<noteq> None"
  shows "\<exists>st bytes v'. set_port_feature env wValue w v = Some (st, bytes, v') \<and> st \<le> 0"
  using assms errno_nonpositive
  by (auto simp: set_port_feature_def hub_result_def Let_def split: prod.splits)

lemma clear_port_feature_ok: "\<exists>st bytes v'. clear_port_feature env wValue w v = Some (st, bytes, v') \<and> st \<le> 0"
  using errno_nonpositive by (auto simp: clear_port_feature_def hub_result_def Let_def split: prod.splits)

text \<open>
  Property C25. Every request of the root hub returns, and never with a positive status: a
  failure the device reports becomes an error number, which the USB core tells from success. Requests
  for ports outside the range the controller has are refused with \<open>-EPIPE\<close> and change nothing. Only
  a reset of a port whose device cannot be replaced, or of port sixteen, is excepted.
\<close>

theorem hub_control_status:
  assumes "typeReq = SetPortFeature \<Longrightarrow> wValue = USB_PORT_FEAT_RESET \<Longrightarrow> bce_vhci_reset_device env (unat wIndex) wValue v \<noteq> None"
  shows "\<exists>st bytes v'. bce_vhci_hub_control pm env typeReq wValue wIndex wLength v = Some (st, bytes, v') \<and> st \<le> 0
    \<and> (typeReq \<in> {GetPortStatus, SetPortFeature, ClearPortFeature} \<longrightarrow> wIndex < 1 \<or> unat (v_port_count v) < unat wIndex
        \<longrightarrow> st = - EPIPE \<and> v' = v)"
proof -
  have u: "unat (ucast (v_port_count v) :: u16) = unat (v_port_count v)" by (rule unat_ucast_up) simp
  have s: "\<exists>st bytes v'. set_port_feature env wValue wIndex v = Some (st, bytes, v') \<and> st \<le> 0" if "typeReq = SetPortFeature"
    by (rule set_port_feature_ok) (rule assms [OF that])
  show ?thesis
  proof (cases "(typeReq = GetPortStatus \<or> typeReq = SetPortFeature \<or> typeReq = ClearPortFeature)
           \<and> (wIndex < 1 \<or> wIndex > ucast (v_port_count v))")
    case True
    then show ?thesis by (simp add: bce_vhci_hub_control_def)
  next
    case False
    then have g: "typeReq \<in> {GetPortStatus, SetPortFeature, ClearPortFeature} \<Longrightarrow> \<not> (wIndex < 1 \<or> unat (v_port_count v) < unat wIndex)"
      using u by (auto simp: word_less_nat_alt)
    have "\<exists>st bytes v'. bce_vhci_hub_control pm env typeReq wValue wIndex wLength v = Some (st, bytes, v') \<and> st \<le> 0"
      unfolding bce_vhci_hub_control_def if_not_P [OF False]
      using s clear_port_feature_ok [of env wValue wIndex v] get_port_status_ok [of pm env wIndex v]
      by (auto split: if_splits)
    with g show ?thesis by blast
  qed
qed

text \<open>
  A mask with bit fifteen makes the controller report sixteen ports, and then a reset of
  port sixteen passes the range check of the hub and reads behind the end of the arrays of sixteen
  ports.
\<close>

theorem hub_port_sixteen:
  assumes "bit (v_port_mask v) 15" and "v_port_count v = count_ports (v_port_mask v) 0"
    and "length (v_port_resume_skip_reset v) = 16"
  shows "v_port_count v = 16 \<and> bce_vhci_hub_control pm env SetPortFeature USB_PORT_FEAT_RESET 16 wLength v = None"
proof -
  have "unat (count_ports (v_port_mask v) 0) = 16"
  proof (rule ccontr)
    assume n: "unat (count_ports (v_port_mask v) 0) \<noteq> 16"
    then have "unat (count_ports (v_port_mask v) 0) \<le> 15" using port_count_width [of "v_port_mask v"] by simp
    then have "unat (v_port_mask v) < 2 ^ 15"
      using port_count_width [of "v_port_mask v"] power_increasing [of "unat (count_ports (v_port_mask v) 0)" 15 "2 :: nat"] by linarith
    then have "\<not> bit (v_port_mask v) 15" using bits_below by blast
    with assms(1) show False by simp
  qed
  then have c: "v_port_count v = 16" using assms(2) by (simp add: word_unat_eq_iff)
  then show ?thesis
    by (simp add: bce_vhci_hub_control_def set_port_feature_def bce_vhci_reset_device_def arr_get_def assms(3))
qed

theorem hub_control_status_witness:
  "\<exists>st bytes v'. bce_vhci_hub_control 0xffff (ex_vhci_env 3) SetPortFeature USB_PORT_FEAT_RESET 1 0 ex_vhci = Some (st, bytes, v') \<and> st \<le> 0"
proof -
  have "bce_vhci_reset_device (ex_vhci_env 3) (unat (1 :: u16)) USB_PORT_FEAT_RESET ex_vhci \<noteq> None"
    using reset_device_unmapped [OF vhci_reachable_ok [OF ex_vhci_reachable], of 1 "ex_vhci_env 3" USB_PORT_FEAT_RESET]
    by (auto simp: ex_vhci_def)
  then show ?thesis
    using hub_control_status [where typeReq = SetPortFeature and wValue = USB_PORT_FEAT_RESET and wIndex = 1
        and env = "ex_vhci_env 3" and v = ex_vhci and pm = "0xffff" and wLength = 0] by blast
qed

theorem hub_port_sixteen_witness:
  "bce_vhci_hub_control 0xffff (ex_vhci_env 3) SetPortFeature USB_PORT_FEAT_RESET 16 0
     (ex_vhci\<lparr>v_port_mask := 0x8000, v_port_count := count_ports 0x8000 0\<rparr>) = None"
  by (rule hub_port_sixteen [THEN conjunct2]) (simp_all add: ex_vhci_def)

end
