(* ===== verification/Vhci_Events.thy ===== *)
theory Vhci_Events
  imports Vhci_Hub
begin

unbundle bit_operations_syntax

text \<open>
  The events of the firmware in \<open>src/vhci/vhci.c\<close>: the requests that pause, resume or stall an endpoint,
  which a worker takes from their ring, handles and answers; the system events; the USB events that
  are handed to the transfer queues. The worker is shown to terminate.
\<close>

section \<open>Operations on a transfer queue of the controller\<close>

abbreviation BCE_VHCI_BAD_ARGUMENT :: u16 where "BCE_VHCI_BAD_ARGUMENT \<equiv> 5"
abbreviation BCE_VHCI_CMD_ENDPOINT_REQUEST_STATE :: u16 where "BCE_VHCI_CMD_ENDPOINT_REQUEST_STATE \<equiv> 0x43"
abbreviation BCE_VHCI_CMD_PORT_STATUS_CHANGE :: u16 where "BCE_VHCI_CMD_PORT_STATUS_CHANGE \<equiv> 0x18"
abbreviation BCE_VHCI_CMD_CONTROLLER_RESET_NOTIFY :: u16 where "BCE_VHCI_CMD_CONTROLLER_RESET_NOTIFY \<equiv> 0x50"

text \<open>As \<open>on_tq\<close>, for the operations that run controller commands.\<close>

definition on_tq_cq :: "addr \<Rightarrow> nat \<Rightarrow> (bce_vhci_transfer_queue \<Rightarrow> bce_vhci_command_queue
      \<Rightarrow> ('r \<times> bce_vhci_transfer_queue \<times> bce_vhci_command_queue) option) \<Rightarrow> bce_vhci \<Rightarrow> ('r \<times> bce_vhci) option" where
  "on_tq_cq a i f v =
     do {
       vd \<leftarrow> v_vdevs v a;
       p \<leftarrow> vd_ptrs vd i;
       let d = tq_endp (vd_tq vd i);
       (r, q, cq) \<leftarrow> f ((vd_tq vd i)\<lparr>tq_mq := bce_vhci_get_msg_queue d v\<rparr>) (v_cq v);
       Some (r, set_msg_queue d (tq_mq q)
         (v\<lparr>v_vdevs := (v_vdevs v)(a \<mapsto> vd\<lparr>vd_tq := (vd_tq vd)(i := q)\<rparr>), v_cq := cq\<rparr>))
     }"

section \<open>Events of the firmware\<close>

text \<open>
  The destination of an event: the device number and the endpoint in the first parameter. The
  outer option is the absence of a fault, the inner one whether the destination exists.
\<close>

definition event_target :: "u32 \<Rightarrow> bce_vhci \<Rightarrow> (addr \<times> nat) option option" where
  "event_target param1 v =
     (let devid = unat (param1 AND 0xff);
          endp = unat (bce_vhci_endpoint_index (ucast (drop_bit 8 param1 AND 0xff)))
      in if devid \<ge> 16 then Some None
         else do {
           p \<leftarrow> arr_get (v_devices v) devid;
           case p of
             None \<Rightarrow> Some None
           | Some a \<Rightarrow> do { vd \<leftarrow> v_vdevs v a; Some (if bit (vd_tq_mask vd) endp then Some (a, endp) else None) }
         })"

record fw_env =
  fe_jif :: "nat \<Rightarrow> nat"
  fe_pause :: pause_env
  fe_reserve :: "wakeup list"

definition bce_vhci_send_fw_event_response :: "fw_env \<Rightarrow> bce_vhci_message \<Rightarrow> u16 \<Rightarrow> bce_vhci \<Rightarrow> bce_vhci" where
  "bce_vhci_send_fw_event_response env req status v =
     (let r = req\<lparr>vm_cmd := vm_cmd req OR 0x8000, vm_status := status, vm_param2 := 0\<rparr>;
          (st, t, sq) = bce_reserve_submission (Some 1000) (fe_reserve env) (mq_sq (v_msg_system v));
          q = (v_msg_system v)\<lparr>mq_sq := sq\<rparr>
      in v\<lparr>v_msg_system := (if st \<noteq> 0 then q else snd (bce_vhci_message_queue_write r q))\<rparr>)"

text \<open>The firmware reports that an endpoint stalled.\<close>

definition stall_reported :: "bce_vhci_transfer_queue \<Rightarrow> bce_vhci_transfer_queue" where
  "stall_reported q = bce_vhci_transfer_queue_request_reset
     (q\<lparr>tq_state := BCE_VHCI_ENDPOINT_STALLED, tq_active := False, tq_stalled := True\<rparr>)"

definition bce_vhci_handle_firmware_event :: "fw_env \<Rightarrow> bce_vhci_message \<Rightarrow> bce_vhci \<Rightarrow> (u16 \<times> bce_vhci) option" where
  "bce_vhci_handle_firmware_event env msg v =
     (if vm_cmd msg = BCE_VHCI_CMD_ENDPOINT_REQUEST_STATE \<or> vm_cmd msg = BCE_VHCI_CMD_ENDPOINT_SET_STATE then do {
        t \<leftarrow> event_target (vm_param1 msg) v;
        case t of
          None \<Rightarrow> Some (BCE_VHCI_BAD_ARGUMENT, v)
        | Some (a, i) \<Rightarrow>
            if vm_cmd msg = BCE_VHCI_CMD_ENDPOINT_REQUEST_STATE then
              if vm_param2 msg = ucast BCE_VHCI_ENDPOINT_ACTIVE then do {
                (r, v1) \<leftarrow> on_tq_cq a i (bce_vhci_transfer_queue_resume (fe_jif env) (fe_pause env) BCE_VHCI_PAUSE_FIRMWARE) v;
                Some (BCE_VHCI_SUCCESS, v1)
              }
              else if vm_param2 msg = ucast BCE_VHCI_ENDPOINT_PAUSED then do {
                (r, v1) \<leftarrow> on_tq_cq a i (\<lambda>q cq. Some (bce_vhci_transfer_queue_pause (fe_jif env) (fe_pause env)
                    BCE_VHCI_PAUSE_FIRMWARE q cq)) v;
                Some (BCE_VHCI_SUCCESS, v1)
              }
              else Some (BCE_VHCI_BAD_ARGUMENT, v)
            else if vm_param2 msg = ucast BCE_VHCI_ENDPOINT_STALLED then do {
              (r, v1) \<leftarrow> on_tq a i (\<lambda>q. Some ((), stall_reported q)) v;
              Some (BCE_VHCI_SUCCESS, v1)
            }
            else Some (BCE_VHCI_BAD_ARGUMENT, v)
      }
      else Some (BCE_VHCI_BAD_ARGUMENT, v))"

text \<open>The ring of the firmware events: its next completion, the retirement of an element, its buffers.\<close>

definition fw_take :: "bce_vhci \<Rightarrow> bce_sq_completion_data option \<times> bce_vhci" where
  "fw_take v = (case bce_next_completion (eq_sq (v_ev_commands v)) of
     (c, sq) \<Rightarrow> (c, v\<lparr>v_ev_commands := (v_ev_commands v)\<lparr>eq_sq := sq\<rparr>\<rparr>))"

definition fw_retire :: "bce_vhci \<Rightarrow> bce_vhci" where
  "fw_retire v = v\<lparr>v_ev_commands := (v_ev_commands v)\<lparr>eq_sq :=
     bce_notify_submission_complete (eq_sq (v_ev_commands v))\<rparr>\<rparr>"

definition fw_buffer :: "u32 \<Rightarrow> bce_vhci \<Rightarrow> bce_vhci_message option" where
  "fw_buffer i v = arr_get (eq_data (v_ev_commands v)) (unat i)"

text \<open>The end of an iteration: the message is handled, answered and retired.\<close>

definition fw_handle_one :: "fw_env \<Rightarrow> bce_vhci_message \<Rightarrow> bce_vhci \<Rightarrow> bce_vhci option" where
  "fw_handle_one env msg v =
     do {
       (result, v1) \<leftarrow> bce_vhci_handle_firmware_event env msg v;
       Some (fw_retire (bce_vhci_send_fw_event_response env msg result v1))
     }"

text \<open>
  One iteration for the message at hand, after the first completion was taken: a look at the next
  completion, which may be the cancellation of the message. The result is the next message, the
  number of elements retired, and the controller.
\<close>

definition fw_message :: "fw_env \<Rightarrow> bce_vhci_message \<Rightarrow> bce_vhci \<Rightarrow> (bce_vhci_message option \<times> nat \<times> bce_vhci) option" where
  "fw_message env msg v =
     (case fw_take v of
        (None, v1) \<Rightarrow> map_option (\<lambda>v2. (None, 1, v2)) (fw_handle_one env msg v1)
      | (Some c, v1) \<Rightarrow> do {
          let sq = eq_sq (v_ev_commands v1);
          msg2 \<leftarrow> fw_buffer ((sq_head sq + 1) mod sq_el_count sq) v1;
          if cd_status c \<noteq> BCE_COMPLETION_ABORTED \<and> vm_cmd msg2 = vm_cmd msg OR 0x4000 \<and> vm_param1 msg2 = vm_param1 msg
          then Some (None, 2, fw_retire (fw_retire (bce_vhci_send_fw_event_response env msg BCE_VHCI_ABORT v1)))
          else map_option (\<lambda>v2. (Some msg2, 1, v2)) (fw_handle_one env msg v1)
        })"

text \<open>
  One iteration of the worker: \<open>Inr\<close> ends the loop. The environments are those of the iterations, by
  their number.
\<close>

definition fw_step :: "fw_env \<Rightarrow> bce_vhci_message option \<Rightarrow> nat \<Rightarrow> bce_vhci
    \<Rightarrow> ((bce_vhci_message option \<times> nat \<times> bce_vhci) + (nat \<times> bce_vhci)) option" where
  "fw_step env msg2 cnt v =
     (case msg2 of
        Some msg \<Rightarrow> map_option (\<lambda>(m, k, v1). Inl (m, cnt + k, v1)) (fw_message env msg v)
      | None \<Rightarrow>
          (case fw_take v of
             (None, v1) \<Rightarrow> Some (Inr (cnt, v1))
           | (Some c, v1) \<Rightarrow>
               if cd_status c = BCE_COMPLETION_ABORTED then Some (Inl (None, cnt, fw_retire v1))
               else do {
                 msg \<leftarrow> fw_buffer (sq_head (eq_sq (v_ev_commands v1))) v1;
                 map_option (\<lambda>(m, k, v2). Inl (m, cnt + k, v2)) (fw_message env msg v1)
               }))"

partial_function (option) fw_loop :: "(nat \<Rightarrow> fw_env) \<Rightarrow> nat \<Rightarrow> bce_vhci_message option \<Rightarrow> nat \<Rightarrow> bce_vhci
    \<Rightarrow> (nat \<times> bce_vhci) option option" where
  "fw_loop env n msg2 cnt v =
     (case fw_step (env n) msg2 cnt v of
        None \<Rightarrow> Some None
      | Some (Inr r) \<Rightarrow> Some (Some r)
      | Some (Inl (m, cnt', v')) \<Rightarrow> fw_loop env (Suc n) m cnt' v')"

text \<open>The worker. The outer option is its termination, the inner one the absence of a fault.\<close>

definition bce_vhci_handle_firmware_events_w :: "(nat \<Rightarrow> fw_env) \<Rightarrow> bce_vhci \<Rightarrow> bce_vhci option option" where
  "bce_vhci_handle_firmware_events_w env v =
     map_option (map_option (\<lambda>(cnt, v1).
       let q = snd (bce_vhci_event_queue_submit_pending cnt (v_ev_commands v1))
       in v1\<lparr>v_ev_commands := if event_queue_drained q then q\<lparr>eq_queue_empty_completion := True\<rparr> else q\<rparr>))
     (fw_loop env 0 None 0 v)"

definition bce_vhci_firmware_event_completion :: "bce_vhci \<Rightarrow> bce_vhci" where
  "bce_vhci_firmware_event_completion v = v\<lparr>v_w_fw_events := True\<rparr>"

section \<open>System and USB events\<close>

definition schedule_recovery :: "bce_vhci \<Rightarrow> bce_vhci" where
  "schedule_recovery v = v\<lparr>v_cq := (v_cq v)\<lparr>vc_recovery_scheduled := True\<rparr>\<rparr>"

text \<open>\<open>hcd\<close>: whether the host controller of the USB core exists already.\<close>

definition bce_vhci_handle_system_event :: "bool \<Rightarrow> bce_vhci_message \<Rightarrow> bce_vhci \<Rightarrow> bce_vhci" where
  "bce_vhci_handle_system_event hcd msg v =
     (let port = ucast (vm_param1 msg AND 0xff) :: u8;
          poll = (\<lambda>v. if hcd then v\<lparr>v_polls := Suc (v_polls v)\<rparr> else v)
      in if vm_cmd msg AND 0x8000 \<noteq> 0 then v\<lparr>v_cq := bce_vhci_command_queue_deliver_completion msg (v_cq v)\<rparr>
         else if vm_cmd msg = BCE_VHCI_CMD_PORT_STATUS_CHANGE then
           if port = 0 \<or> port > v_port_count v then v
           else if bit (v_port_suppress_connect_mask v) (unat port) then v
           else poll (v\<lparr>v_port_resume_mask := set_bit (unat port) (v_port_resume_mask v)\<rparr>)
         else if vm_cmd msg = BCE_VHCI_CMD_PORT_RESUME then poll v
         else if vm_cmd msg = BCE_VHCI_CMD_PORT_SUSPEND then v
         else if vm_cmd msg = BCE_VHCI_CMD_CONTROLLER_RESET_NOTIFY then schedule_recovery v
         else v)"

definition bce_vhci_handle_usb_event :: "bool \<Rightarrow> bce_vhci_message \<Rightarrow> bce_vhci \<Rightarrow> bce_vhci option" where
  "bce_vhci_handle_usb_event mem msg v =
     (if vm_cmd msg AND 0x8000 \<noteq> 0 then Some (v\<lparr>v_cq := bce_vhci_command_queue_deliver_completion msg (v_cq v)\<rparr>)
      else if vm_cmd msg = BCE_VHCI_CMD_TRANSFER_REQUEST \<or> vm_cmd msg = BCE_VHCI_CMD_CONTROL_TRANSFER_STATUS then do {
        t \<leftarrow> event_target (vm_param1 msg) v;
        case t of
          None \<Rightarrow> Some v
        | Some (a, i) \<Rightarrow> map_option snd (on_tq a i (\<lambda>q. map_option (Pair ()) (bce_vhci_transfer_queue_event mem msg q)) v)
      }
      else Some v)"

section \<open>The worker terminates\<close>

abbreviation fw_ring :: "bce_vhci \<Rightarrow> u32 \<times> u32 \<times> u32" where
  "fw_ring v \<equiv> ring_idx (eq_sq (v_ev_commands v))"

lemma set_msg_queue_events [simp]: "v_ev_commands (set_msg_queue d q v) = v_ev_commands v"
  by (simp add: set_msg_queue_def)

lemma on_tq_events: "on_tq a i f v = Some (r, v') \<Longrightarrow> v_ev_commands v' = v_ev_commands v"
  by (auto simp: on_tq_def Let_def split: Option.bind_splits)

lemma on_tq_cq_events: "on_tq_cq a i f v = Some (r, v') \<Longrightarrow> v_ev_commands v' = v_ev_commands v"
  by (auto simp: on_tq_cq_def Let_def split: Option.bind_splits)

lemma handle_event_events:
  "bce_vhci_handle_firmware_event env msg v = Some (st, v') \<Longrightarrow> v_ev_commands v' = v_ev_commands v"
  by (auto simp: bce_vhci_handle_firmware_event_def dest!: on_tq_events on_tq_cq_events
      split: Option.bind_splits option.splits if_splits)

lemma respond_events [simp]: "v_ev_commands (bce_vhci_send_fw_event_response env req st v) = v_ev_commands v"
  by (simp add: bce_vhci_send_fw_event_response_def split_beta Let_def)

lemma retire_ring [simp]: "fw_ring (fw_retire v) = fw_ring v"
  by (simp add: fw_retire_def ring_idx_def bce_notify_submission_complete_def)

lemma handle_one_ring: "fw_handle_one env msg v = Some v' \<Longrightarrow> fw_ring v' = fw_ring v"
  by (auto simp: fw_handle_one_def dest: handle_event_events split: Option.bind_splits)

lemma fw_take_ring:
  assumes "idx_ok (fw_ring v)" and "fw_take v = (Some c, v')"
  shows "idx_ok (fw_ring v')" "completions_left (fw_ring v') < completions_left (fw_ring v)"
proof -
  obtain sq where sq: "bce_next_completion (eq_sq (v_ev_commands v)) = (Some c, sq)" "eq_sq (v_ev_commands v') = sq"
    using assms(2) by (auto simp: fw_take_def split: prod.splits)
  from take_completion [OF assms(1) sq(1)] show "idx_ok (fw_ring v')" "completions_left (fw_ring v') < completions_left (fw_ring v)"
    by (simp_all add: sq(2))
qed

lemma fw_take_none: "fw_take v = (None, v') \<Longrightarrow> v' = v"
  by (auto simp: fw_take_def bce_next_completion_def split: prod.splits if_splits)

text \<open>What is left to do: two for each completion, and one for a message at hand.\<close>

definition fw_left :: "bce_vhci_message option \<Rightarrow> bce_vhci \<Rightarrow> nat" where
  "fw_left m v = 2 * completions_left (fw_ring v) + (if m = None then 0 else 1)"

lemma fw_message_left:
  assumes ok: "idx_ok (fw_ring v)" and m: "fw_message env msg v = Some (m, k, v')"
  shows "idx_ok (fw_ring v') \<and> fw_left m v' < fw_left (Some msg) v"
proof (cases "fw_take v")
  case (Pair c v1)
  show ?thesis
  proof (cases c)
    case None
    then have "v1 = v" using fw_take_none Pair by blast
    with m Pair None ok show ?thesis by (auto simp: fw_message_def fw_left_def dest!: handle_one_ring)
  next
    case (Some cd)
    note t = fw_take_ring [OF ok Pair [unfolded Some]]
    have r: "fw_ring v' = fw_ring v1"
      using m Pair Some by (auto simp: fw_message_def Let_def dest!: handle_one_ring split: Option.bind_splits if_splits)
    have "fw_left m v' \<le> 2 * completions_left (fw_ring v1) + 1" by (simp add: fw_left_def r)
    then show ?thesis using t r by (simp add: fw_left_def)
  qed
qed

lemma fw_step_left:
  assumes ok: "idx_ok (fw_ring v)" and s: "fw_step env m cnt v = Some (Inl (m', cnt', v'))"
  shows "idx_ok (fw_ring v') \<and> fw_left m' v' < fw_left m v"
proof (cases m)
  case (Some msg)
  with s obtain k where "fw_message env msg v = Some (m', k, v')" by (auto simp: fw_step_def)
  from fw_message_left [OF ok this] Some show ?thesis by simp
next
  case None
  obtain c v1 where t: "fw_take v = (c, v1)" by (cases "fw_take v")
  then obtain cd where cd: "c = Some cd" using s None by (cases c) (auto simp: fw_step_def)
  note ring = fw_take_ring [OF ok t [unfolded cd]]
  show ?thesis
  proof (cases "cd_status cd = BCE_COMPLETION_ABORTED")
    case True
    with s t cd None ring show ?thesis by (auto simp: fw_step_def fw_left_def)
  next
    case False
    with s t cd None obtain msg k where "fw_message env msg v1 = Some (m', k, v')"
      by (auto simp: fw_step_def split: Option.bind_splits)
    from fw_message_left [OF ring(1) this] ring None show ?thesis by (auto simp: fw_left_def split: if_splits)
  qed
qed

lemma fw_loop_terminates:
  assumes "idx_ok (fw_ring v)"
  shows "fw_loop env n m cnt v \<noteq> None"
  using assms
proof (induction "fw_left m v" arbitrary: n m cnt v rule: less_induct)
  case less
  show ?case
  proof (cases "fw_step (env n) m cnt v")
    case None
    then show ?thesis by (simp add: fw_loop.simps [of env n m])
  next
    case (Some r)
    show ?thesis
    proof (cases r)
      case (Inl p)
      obtain m' cnt' v' where p: "p = (m', cnt', v')" by (cases p)
      have "idx_ok (fw_ring v') \<and> fw_left m' v' < fw_left m v" using fw_step_left [OF less.prems] Some Inl p by blast
      from less.hyps [OF _ this [THEN conjunct1], of m' "Suc n" cnt'] this
      show ?thesis using Some Inl p by (simp add: fw_loop.simps [of env n m])
    next
      case (Inr x)
      then show ?thesis using Some by (simp add: fw_loop.simps [of env n m])
    qed
  qed
qed

text \<open>
  Property C26. The worker for the firmware's events terminates, whatever the events ask for and
  however the endpoints and the device behave meanwhile: with both positions of the ring
  inside it, each iteration takes a completion or uses up the message it looked ahead at.
\<close>

theorem firmware_events_terminate:
  assumes "idx_ok (ring_idx (eq_sq (v_ev_commands v)))"
  shows "\<exists>r. bce_vhci_handle_firmware_events_w env v = Some r"
  using fw_loop_terminates [OF assms, of env 0 None 0] by (auto simp: bce_vhci_handle_firmware_events_w_def)

text \<open>
  A request of the firmware that is followed by its cancellation is answered with
  ABORT and nothing else: two elements are retired, one response is sent, and no endpoint is touched.
\<close>

lemma firmware_event_cancelled:
  assumes "fw_take v = (Some c1, v1)" and "cd_status c1 \<noteq> BCE_COMPLETION_ABORTED"
    and "fw_buffer (sq_head (eq_sq (v_ev_commands v1))) v1 = Some msg"
    and "fw_take v1 = (Some c2, v2)" and "cd_status c2 \<noteq> BCE_COMPLETION_ABORTED"
    and "fw_buffer ((sq_head (eq_sq (v_ev_commands v2)) + 1) mod sq_el_count (eq_sq (v_ev_commands v2))) v2 = Some msg2"
    and "vm_cmd msg2 = vm_cmd msg OR 0x4000" and "vm_param1 msg2 = vm_param1 msg"
  shows "\<exists>v'. fw_step env None cnt v = Some (Inl (None, cnt + 2, v'))
    \<and> v_vdevs v' = v_vdevs v \<and> v_cq v' = v_cq v \<and> v_port_to_device v' = v_port_to_device v
    \<and> v_msg_system v' = v_msg_system (bce_vhci_send_fw_event_response env msg BCE_VHCI_ABORT v)
    \<and> sq_available_commands (eq_sq (v_ev_commands v')) = sq_available_commands (eq_sq (v_ev_commands v)) + 2"
proof -
  have t: "v_vdevs w = v_vdevs u \<and> v_cq w = v_cq u \<and> v_port_to_device w = v_port_to_device u \<and> v_msg_system w = v_msg_system u
      \<and> sq_available_commands (eq_sq (v_ev_commands w)) = sq_available_commands (eq_sq (v_ev_commands u))"
    if "fw_take u = (c, w)" for u c w
    using that by (auto simp: fw_take_def bce_next_completion_def Let_def split: prod.splits if_splits)
  let ?r = "bce_vhci_send_fw_event_response env msg BCE_VHCI_ABORT v2"
  have r: "v_vdevs ?r = v_vdevs v2" "v_cq ?r = v_cq v2" "v_port_to_device ?r = v_port_to_device v2"
    "v_msg_system ?r = v_msg_system (bce_vhci_send_fw_event_response env msg BCE_VHCI_ABORT v)"
    using t [OF assms(1)] t [OF assms(4)] by (simp_all add: bce_vhci_send_fw_event_response_def split_beta Let_def)
  have "fw_step env None cnt v = Some (Inl (None, cnt + 2, fw_retire (fw_retire ?r)))"
    using assms by (simp add: fw_step_def fw_message_def)
  then show ?thesis using t [OF assms(1)] t [OF assms(4)] r
    by (simp add: fw_retire_def bce_notify_submission_complete_def)
qed

theorem firmware_events_terminate_witness:
  "\<exists>r. bce_vhci_handle_firmware_events_w (\<lambda>n. \<lparr>fe_jif = id, fe_pause = ex_quiet_env, fe_reserve = []\<rparr>) ex_vhci = Some r"
proof -
  have "idx_ok (ring_idx (eq_sq (v_ev_commands ex_vhci)))"
    by (simp add: ex_vhci_def ex_eq_def ex_completed_def sq_push_completion_def sq_post_unfold ex_reserved_def
        ex_vring_def bce_alloc_sq_def ring_idx_def idx_ok_def)
  from firmware_events_terminate [OF this] show ?thesis .
qed

section \<open>The worker and a queue that is being drained\<close>

text \<open>
  The worker posts a buffer for each message it handled, also while the queue is being
  drained for a suspend: afterwards the device owns as many buffers as before and the queue is not
  empty, so the pause times out. The handler of the other event queues posts none while they drain
  (\<open>event_completion_delivers\<close>).
\<close>

lemma fw_take_some:
  assumes "bce_next_completion (eq_sq (v_ev_commands v)) = (c, sq)"
  shows "fw_take v = (c, v\<lparr>v_ev_commands := (v_ev_commands v)\<lparr>eq_sq := sq\<rparr>\<rparr>)"
  using assms by (simp add: fw_take_def)

theorem firmware_worker_ignores_drain:
  assumes r: "sq_refines s (eq_sq (v_ev_commands v))" and c: "sp_completions s = [c]" and h: "sp_handled s = 0"
    and st: "cd_status c \<noteq> BCE_COMPLETION_ABORTED" and run: "bce_vhci_handle_firmware_events_w env v = Some (Some v')"
  shows "\<exists>s'. sq_refines s' (eq_sq (v_ev_commands v')) \<and> length (sp_inflight s') = length (sp_inflight s)
    \<and> \<not> event_queue_drained (v_ev_commands v')
    \<and> eq_queue_empty_completion (v_ev_commands v') = eq_queue_empty_completion (v_ev_commands v)"
proof -
  obtain sq where sq: "bce_next_completion (eq_sq (v_ev_commands v)) = (Some c, sq)"
    "sq_refines (s\<lparr>sp_completions := [], sp_handled := 1\<rparr>) sq"
    using sq_refines_take(2) [OF r c] h by auto
  let ?v1 = "v\<lparr>v_ev_commands := (v_ev_commands v)\<lparr>eq_sq := sq\<rparr>\<rparr>"
  note t1 = fw_take_some [OF sq(1)]
  have t2: "fw_take ?v1 = (None, ?v1)"
    using sq_refines_take(1) [OF sq(2)] fw_take_some [of ?v1 None sq] by simp
  obtain cnt w where w: "fw_loop env 0 None 0 v = Some (Some (cnt, w))"
    using run by (auto simp: bce_vhci_handle_firmware_events_w_def)
  then obtain msg v2 where m: "fw_buffer (sq_head sq) ?v1 = Some msg" "fw_handle_one (env 0) msg ?v1 = Some v2"
    using st t1 t2 by (subst (asm) fw_loop.simps)
      (auto simp: fw_step_def fw_message_def split: option.splits sum.splits Option.bind_splits)
  obtain st x where x: "bce_vhci_handle_firmware_event (env 0) msg ?v1 = Some (st, x)"
      "v2 = fw_retire (bce_vhci_send_fw_event_response (env 0) msg st x)"
    using m(2) by (auto simp: fw_handle_one_def split: Option.bind_splits)
  have e2: "v_ev_commands v2 = (v_ev_commands v)\<lparr>eq_sq := bce_notify_submission_complete sq\<rparr>"
    using handle_event_events [OF x(1)] by (simp add: x(2) fw_retire_def)
  have s0: "s\<lparr>sp_completions := [], sp_inflight := tl (sp_inflight s), sp_handled := 0\<rparr>
      = s\<lparr>sp_completions := [], sp_inflight := tl (sp_inflight s)\<rparr>" using h by (cases s) simp
  have r2: "sq_refines (s\<lparr>sp_completions := [], sp_inflight := tl (sp_inflight s)\<rparr>) (eq_sq (v_ev_commands v2))"
    using sq_ring.retire_refines [OF sq(2)] by (simp add: e2 s0)
  have t3: "fw_take v2 = (None, v2)"
    using sq_refines_take(1) [OF r2] by (simp add: fw_take_def)
  have "fw_loop env 0 None 0 v = Some (Some (1, v2))"
    using m t1 t2 t3 st by (simp add: fw_loop.simps fw_step_def fw_message_def)
  then have cw: "cnt = 1" "w = v2" using w by auto
  obtain els where els: "sq_refines (s\<lparr>sp_completions := [], sp_inflight := tl (sp_inflight s) @ els\<rparr>)
      (eq_sq (submit_loop 1 (v_ev_commands v2)))"
      "length els = min 1 (sq_capacity (eq_sq (v_ev_commands v2)) - (sp_reserved s + length (tl (sp_inflight s))))"
    using eq_fill.fills [OF r2, of 1] by auto
  have "sp_inflight s \<noteq> []" using r c by (auto simp: sq_refines_def)
  moreover have "sp_reserved s + length (sp_inflight s) \<le> sq_capacity (eq_sq (v_ev_commands v2))"
    using sq_ring.within_capacity [OF r] sq(1)
    by (auto simp: e2 sq_capacity_def bce_next_completion_def bce_notify_submission_complete_def split: if_splits)
  ultimately have len: "length (tl (sp_inflight s) @ els) = length (sp_inflight s)" "sp_inflight s \<noteq> []"
    using els(2) by (cases "sp_inflight s"; auto)+
  have nd: "\<not> event_queue_drained (submit_loop 1 (v_ev_commands v2))"
  proof -
    have "tl (sp_inflight s) @ els \<noteq> []" using len by (metis length_0_conv)
    then show ?thesis unfolding event_queue_drained_iff [OF els(1)] by simp
  qed
  have v': "v' = v2\<lparr>v_ev_commands := submit_loop 1 (v_ev_commands v2)\<rparr>"
    using run nd by (simp add: bce_vhci_handle_firmware_events_w_def w cw bce_vhci_event_queue_submit_pending_def Let_def)
  have k: "eq_queue_empty_completion (submit_loop n q) = eq_queue_empty_completion q" for n q
    by (induction n arbitrary: q) (auto simp: submit_one_def Let_def split_beta split: option.splits if_splits)
  have ev: "v_ev_commands v' = submit_loop 1 (v_ev_commands v2)" unfolding v' by (simp del: submit_loop.simps)
  let ?s' = "s\<lparr>sp_completions := [], sp_inflight := tl (sp_inflight s) @ els\<rparr>"
  have "length (sp_inflight ?s') = length (sp_inflight s)" using len(1) by simp
  moreover have "eq_queue_empty_completion (v_ev_commands v') = eq_queue_empty_completion (v_ev_commands v)"
    by (simp only: ev k) (simp add: e2)
  ultimately show ?thesis using els(1) nd unfolding ev [symmetric] by blast
qed

end
