(* ===== verification/Vhci_Power.thy ===== *)
theory Vhci_Power
  imports Vhci_Events
begin

unbundle bit_operations_syntax

text \<open>
  Suspend, resume, recovery and watchdog of the virtual host controller (\<open>bce_vhci_bus_suspend\<close>,
  \<open>bce_vhci_bus_resume\<close>, \<open>bce_vhci_recovery_w\<close>, \<open>bce_vhci_watchdog_w\<close> in \<open>src/vhci/vhci.c\<close>), and
  the proof that a resume keeps the maps of ports, devices and endpoints consistent.
  The fields \<open>reset_resume\<close> and \<open>persist_enabled\<close> of the USB core's device, which the resume
  sets, are not modelled.
\<close>

section \<open>Surroundings\<close>

text \<open>
  What the surroundings answer and do: the clock, the two controller commands, the command of a port,
  the state command of an endpoint with the activity around it, the commands and allocations of a
  port that is checked and refreshed, the flush commands of the event queues and of the three rings
  of transfer messages with the completions they cause, the waits for the event queues, and the work
  that runs while the work queue is flushed. The event queues are numbered in the order of the fields.
\<close>

record pm_env =
  pm_jif :: "nat \<Rightarrow> nat"
  pm_now :: u64
  pm_pause_cmd :: exec_env
  pm_start_cmd :: exec_env
  pm_port :: "nat \<Rightarrow> exec_env"
  pm_endpoint :: "nat \<Rightarrow> nat \<Rightarrow> pause_env"
  pm_dev :: "nat \<Rightarrow> vhci_env"
  pm_eq_pause :: "nat \<Rightarrow> bce_vhci_event_queue \<Rightarrow> bce_vhci_event_queue"
  pm_eq_wait :: "nat \<Rightarrow> (nat \<times> (bce_vhci_event_queue \<Rightarrow> bce_vhci_event_queue)) list"
  pm_eq_resume :: "nat \<Rightarrow> bce_vhci_event_queue \<Rightarrow> bce_vhci_event_queue"
  pm_mq_flush :: "nat \<Rightarrow> bce_vhci_message_queue \<Rightarrow> bce_vhci_message_queue"
  pm_works :: "bce_vhci \<Rightarrow> bce_vhci"

definition pause_event_queues :: "pm_env \<Rightarrow> bce_vhci \<Rightarrow> bce_vhci" where
  "pause_event_queues env v =
     (let p = (\<lambda>k. bce_vhci_event_queue_pause (pm_eq_pause env k) (pm_eq_wait env k)) in
      v\<lparr>v_ev_commands := p 0 (v_ev_commands v), v_ev_system := p 1 (v_ev_system v),
        v_ev_isochronous := p 2 (v_ev_isochronous v), v_ev_interrupt := p 3 (v_ev_interrupt v),
        v_ev_asynchronous := p 4 (v_ev_asynchronous v)\<rparr>)"

definition resume_event_queues :: "pm_env \<Rightarrow> bce_vhci \<Rightarrow> bce_vhci" where
  "resume_event_queues env v =
     (let r = (\<lambda>k. bce_vhci_event_queue_resume (pm_eq_resume env k)) in
      v\<lparr>v_ev_commands := r 0 (v_ev_commands v), v_ev_system := r 1 (v_ev_system v),
        v_ev_asynchronous := r 4 (v_ev_asynchronous v), v_ev_isochronous := r 2 (v_ev_isochronous v),
        v_ev_interrupt := r 3 (v_ev_interrupt v)\<rparr>)"

definition flush_message_queues :: "pm_env \<Rightarrow> bce_vhci \<Rightarrow> bce_vhci" where
  "flush_message_queues env v =
     v\<lparr>v_msg_asynchronous := pm_mq_flush env 0 (v_msg_asynchronous v),
       v_msg_isochronous := pm_mq_flush env 1 (v_msg_isochronous v),
       v_msg_interrupt := pm_mq_flush env 2 (v_msg_interrupt v)\<rparr>"

text \<open>A loop over the ports that have a device; its body gets the port and the device number.\<close>

fun each_mapped :: "(nat \<Rightarrow> u8 \<Rightarrow> bce_vhci \<Rightarrow> bce_vhci option) \<Rightarrow> nat list \<Rightarrow> bce_vhci \<Rightarrow> bce_vhci option" where
  "each_mapped f [] v = Some v"
| "each_mapped f (i # is) v =
     do {
       devid \<leftarrow> arr_get (v_port_to_device v) i;
       v1 \<leftarrow> (if devid = 0 then Some v else f i devid v);
       each_mapped f is v1
     }"

text \<open>The ports that have a device, as a mask.\<close>

definition mapped_mask :: "bce_vhci \<Rightarrow> u64" where
  "mapped_mask v = fold (\<lambda>i m. if v_port_to_device v ! i \<noteq> 0 then set_bit i m else m) [0..<16] 0"

definition run_cmd :: "(bce_vhci_command_queue \<Rightarrow> int \<times> bce_vhci_command_queue) \<Rightarrow> bce_vhci \<Rightarrow> int \<times> bce_vhci" where
  "run_cmd f v = (case f (v_cq v) of (st, cq) \<Rightarrow> (st, v\<lparr>v_cq := cq\<rparr>))"

section \<open>Suspend\<close>

definition suspend_endpoint :: "(nat \<Rightarrow> nat) \<Rightarrow> pause_env \<Rightarrow> bce_vhci_transfer_queue \<Rightarrow> bce_vhci_command_queue
    \<Rightarrow> (unit \<times> bce_vhci_transfer_queue \<times> bce_vhci_command_queue) option" where
  "suspend_endpoint jif env q cq =
     (let (q1, cq1) = (if tq_paused_by q = 0
           then snd (endpoint_set_state jif env BCE_VHCI_ENDPOINT_PAUSED (q\<lparr>tq_active := False\<rparr>) cq) else (q, cq))
      in Some ((), q1\<lparr>tq_paused_by := tq_paused_by q1 OR BCE_VHCI_PAUSE_SUSPEND\<rparr>, cq1))"

text \<open>A loop over the transfer queues of the device \<open>a\<close>.\<close>

fun each_tq :: "(nat \<Rightarrow> bce_vhci \<Rightarrow> bce_vhci option) \<Rightarrow> addr \<Rightarrow> nat list \<Rightarrow> bce_vhci \<Rightarrow> bce_vhci option" where
  "each_tq f a [] v = Some v"
| "each_tq f a (j # js) v =
     do {
       vd \<leftarrow> v_vdevs v a;
       v1 \<leftarrow> (if bit (vd_tq_mask vd) j then f j v else Some v);
       each_tq f a js v1
     }"

definition suspend_device :: "pm_env \<Rightarrow> nat \<Rightarrow> u8 \<Rightarrow> bce_vhci \<Rightarrow> bce_vhci option" where
  "suspend_device env i devid v =
     do {
       p \<leftarrow> arr_get (v_devices v) (unat devid);
       a \<leftarrow> p;
       each_tq (\<lambda>j v. map_option snd (on_tq_cq a j (suspend_endpoint (pm_jif env) (pm_endpoint env i j)) v)) a [0..<32] v
     }"

definition suspend_port :: "pm_env \<Rightarrow> nat \<Rightarrow> bce_vhci \<Rightarrow> bce_vhci" where
  "suspend_port env i v = snd (run_cmd (bce_vhci_cmd_port_suspend (pm_jif env) (pm_port env i) (of_nat i)) v)"

definition bce_vhci_bus_suspend :: "pm_env \<Rightarrow> bce_vhci \<Rightarrow> (int \<times> bce_vhci) option" where
  "bce_vhci_bus_suspend env v =
     do {
       let v1 = v\<lparr>v_watchdog := False, v_port_resume_skip_reset := replicate (length (v_port_resume_skip_reset v)) 0,
                  v_port_resume_mask := 0, v_port_reenumerate_mask := 0\<rparr>;
       v2 \<leftarrow> each_mapped (suspend_device env) [0..<16] v1;
       v3 \<leftarrow> each_mapped (\<lambda>i d v. Some (suspend_port env i v)) [0..<16] (pm_works env v2);
       let (st, v4) = run_cmd (bce_vhci_cmd_controller_pause (pm_jif env) (pm_pause_cmd env)) v3;
       if st \<noteq> 0 then Some (st, v4)
       else Some (0, pause_event_queues env (v4\<lparr>v_port_suppress_connect_mask := mapped_mask v4\<rparr>))
     }"

section \<open>Resume\<close>

definition bce_vhci_device_persistable :: "bce_vhci \<Rightarrow> bce_vhci_device \<Rightarrow> bool" where
  "bce_vhci_device_persistable v vd \<longleftrightarrow>
     list_all (\<lambda>j. \<not> bit (vd_tq_mask vd) j
       \<or> (case vd_endp vd j of None \<Rightarrow> True | Some e \<Rightarrow> ep_type (v_endpoint v e) = USB_ENDPOINT_XFER_INT)) [1..<32]"

text \<open>The queues of a device are resumed until one fails; the result tells whether none did.\<close>

fun resume_endpoints :: "pm_env \<Rightarrow> nat \<Rightarrow> addr \<Rightarrow> nat list \<Rightarrow> bce_vhci \<Rightarrow> (bool \<times> bce_vhci) option" where
  "resume_endpoints env i a [] v = Some (True, v)"
| "resume_endpoints env i a (j # js) v =
     do {
       vd \<leftarrow> v_vdevs v a;
       if \<not> bit (vd_tq_mask vd) j then resume_endpoints env i a js v
       else do {
         (st, v1) \<leftarrow> on_tq_cq a j (bce_vhci_transfer_queue_resume (pm_jif env) (pm_endpoint env i j) BCE_VHCI_PAUSE_SUSPEND) v;
         if st \<noteq> 0 then Some (False, v1) else resume_endpoints env i a js v1
       }
     }"

text \<open>All queues of a device are cancelled and destroyed.\<close>

definition refresh_tq :: "vhci_env \<Rightarrow> addr \<Rightarrow> nat \<Rightarrow> bce_vhci \<Rightarrow> bce_vhci option" where
  "refresh_tq env a j v =
     do {
       (r, v1) \<leftarrow> on_tq a j (\<lambda>q. map_option (Pair ()) (bce_vhci_transfer_queue_cancel_all q)) v;
       vd \<leftarrow> v_vdevs v1 a;
       (vd1, v2) \<leftarrow> tq_destroy env j vd (clear_hcpriv (vd_endp vd j) v1);
       Some (v2\<lparr>v_vdevs := (v_vdevs v2)(a \<mapsto> vd1)\<rparr>)
     }"

definition kfree_device :: "addr \<Rightarrow> bce_vhci \<Rightarrow> bce_vhci" where
  "kfree_device a v = v\<lparr>v_vdevs := (v_vdevs v)(a := None)\<rparr>"

text \<open>
  The refresh of a surviving device \<open>a\<close> at the port \<open>i\<close>: its queues go, the device is created again with
  the control endpoint only. The result tells whether the port has to be enumerated again. The commands
  are numbered in their order, behind the two of the status query.
\<close>

definition refresh_teardown :: "vhci_env \<Rightarrow> nat \<Rightarrow> u8 \<Rightarrow> addr \<Rightarrow> bce_vhci \<Rightarrow> bce_vhci option" where
  "refresh_teardown env i devid a v =
     do {
       v1 \<leftarrow> each_tq (refresh_tq env a) a [0..<32] v;
       vd1 \<leftarrow> v_vdevs v1 a;
       devs \<leftarrow> arr_set (v_devices v1) (unat devid) None;
       ports \<leftarrow> arr_set (v_port_to_device v1) i 0;
       Some (v1\<lparr>v_vdevs := (v_vdevs v1)(a \<mapsto> vd1\<lparr>vd_tq_mask := 0\<rparr>), v_devices := devs, v_port_to_device := ports\<rparr>)
     }"

definition refresh_ep0 :: "vhci_env \<Rightarrow> nat \<Rightarrow> u8 \<Rightarrow> addr \<Rightarrow> addr option \<Rightarrow> bce_vhci \<Rightarrow> (bool \<times> bce_vhci) option" where
  "refresh_ep0 env i new_devid a ep0_endp v =
     do {
       devs \<leftarrow> arr_set (v_devices v) (unat new_devid) (Some a);
       ports \<leftarrow> arr_set (v_port_to_device v) i new_devid;
       vd \<leftarrow> v_vdevs v a;
       e \<leftarrow> ep0_endp;
       let (ok, vd1, v1) = tq_create env 0 e new_devid DMA_BIDIRECTIONAL vd (v\<lparr>v_devices := devs, v_port_to_device := ports\<rparr>);
       if \<not> ok then Some (True, kfree_device a (device_destroy env 5 new_devid
           (v1\<lparr>v_devices := (v_devices v1)[unat new_devid := None], v_port_to_device := (v_port_to_device v1)[i := 0]\<rparr>)))
       else do {
         skips \<leftarrow> arr_set (v_port_resume_skip_reset v1) i 2;
         Some (False, v1\<lparr>v_hcpriv := (v_hcpriv v1)(e \<mapsto> (a, 0)), v_vdevs := (v_vdevs v1)(a \<mapsto> vd1\<lparr>vd_tq_mask := 1\<rparr>),
           v_cq := snd (bce_vhci_cmd_endpoint_create (ve_jif env) (ve_ep env 0) new_devid (v_endpoint v1 e) (v_cq v1)),
           v_port_resume_skip_reset := skips\<rparr>)
       }
     }"

definition refresh_device :: "vhci_env \<Rightarrow> nat \<Rightarrow> u8 \<Rightarrow> addr \<Rightarrow> bce_vhci \<Rightarrow> (bool \<times> bce_vhci) option" where
  "refresh_device env i devid a v =
     do {
       vd \<leftarrow> v_vdevs v a;
       let ep0_endp = vd_endp vd 0;
       v1 \<leftarrow> refresh_teardown env i devid a v;
       let (st, v2) = run_cmd (bce_vhci_cmd_device_destroy (ve_jif env) (ve_cmd env 2) devid) v1;
       if st \<noteq> 0 then Some (True, kfree_device a v2)
       else do {
         let (st, v3) = run_cmd (bce_vhci_cmd_port_reset (ve_jif env) (ve_cmd env 3) (of_nat i) 0) v2;
         if st \<noteq> 0 then Some (True, kfree_device a v3)
         else do {
           let (st, res, cq) = bce_vhci_cmd_device_create (ve_jif env) (ve_cmd env 4) (of_nat i) (v_cq v3);
           let v4 = v3\<lparr>v_cq := cq\<rparr>;
           if st \<noteq> 0 then Some (True, kfree_device a v4)
           else do { new_devid \<leftarrow> res; refresh_ep0 env i new_devid a ep0_endp v4 }
         }
       }
     }"

text \<open>The classification of a port. The result tells whether the port has to be enumerated again.\<close>

definition resume_device :: "pm_env \<Rightarrow> nat \<Rightarrow> u8 \<Rightarrow> bce_vhci \<Rightarrow> (bool \<times> bce_vhci) option" where
  "resume_device env i devid v =
     do {
       p \<leftarrow> arr_get (v_devices v) (unat devid);
       let e = pm_dev env i;
       let (st, res, cq) = bce_vhci_cmd_port_status (ve_jif e) (ve_cmd e 0) (of_nat i) 0 (v_cq v);
       let v1 = v\<lparr>v_cq := cq\<rparr>;
       if st \<noteq> 0 then Some (True, v1)
       else do {
         port_status \<leftarrow> res;
         if port_status AND 0x40000 \<noteq> 0
         then Some (True, v1\<lparr>v_cq := snd (snd (bce_vhci_cmd_port_status (ve_jif e) (ve_cmd e 1) (of_nat i) 0x40000 (v_cq v1)))\<rparr>)
         else if port_status AND 4 = 0 then Some (True, v1)
         else do {
           a \<leftarrow> p;
           vd \<leftarrow> v_vdevs v1 a;
           (ok, v2) \<leftarrow> (if bce_vhci_device_persistable v1 vd then resume_endpoints env i a [0..<32] v1 else Some (False, v1));
           if ok then Some (False, v2) else refresh_device e i devid a v2
         }
       }
     }"

definition mark_reenumerate :: "nat \<Rightarrow> bce_vhci \<Rightarrow> bce_vhci" where
  "mark_reenumerate i v = v\<lparr>v_port_reenumerate_mask := set_bit i (v_port_reenumerate_mask v),
     v_port_resume_mask := set_bit i (v_port_resume_mask v)\<rparr>"

text \<open>The loop over the ports; the result tells whether the USB core has to poll.\<close>

fun resume_devices :: "pm_env \<Rightarrow> nat list \<Rightarrow> bool \<Rightarrow> bce_vhci \<Rightarrow> (bool \<times> bce_vhci) option" where
  "resume_devices env [] need_poll v = Some (need_poll, v)"
| "resume_devices env (i # is) need_poll v =
     do {
       devid \<leftarrow> arr_get (v_port_to_device v) i;
       if devid = 0 then resume_devices env is need_poll v
       else do {
         (reenumerate, v1) \<leftarrow> resume_device env i devid v;
         if reenumerate then resume_devices env is True (mark_reenumerate i v1)
         else resume_devices env is need_poll v1
       }
     }"

definition resume_port :: "pm_env \<Rightarrow> nat \<Rightarrow> bce_vhci \<Rightarrow> bce_vhci" where
  "resume_port env i v = snd (run_cmd (bce_vhci_cmd_port_resume (pm_jif env) (pm_port env i) (of_nat i)) v)"

definition poll_rh_status :: "bce_vhci \<Rightarrow> bce_vhci" where
  "poll_rh_status v = v\<lparr>v_polls := Suc (v_polls v)\<rparr>"

definition bce_vhci_bus_resume :: "pm_env \<Rightarrow> bce_vhci \<Rightarrow> (int \<times> bce_vhci) option" where
  "bce_vhci_bus_resume env v =
     (if vc_recovering (v_cq v) then Some (0, v)
      else do {
        let (st, v1) = run_cmd (bce_vhci_cmd_controller_start (pm_jif env) (pm_start_cmd env)) (resume_event_queues env v);
        if st \<noteq> 0 then Some (0, schedule_recovery (v1\<lparr>v_port_suppress_connect_mask := 0, v_port_reenumerate_mask := 0\<rparr>))
        else do {
          v2 \<leftarrow> each_mapped (\<lambda>i d v. Some (resume_port env i v)) [0..<16] (flush_message_queues env v1);
          (need_poll, v3) \<leftarrow> resume_devices env [0..<16] False v2;
          let v4 = v3\<lparr>v_port_suppress_connect_mask := 0\<rparr>;
          Some (0, (if need_poll then poll_rh_status v4 else v4)\<lparr>v_watchdog := True\<rparr>)
        }
      })"

section \<open>Recovery and watchdog\<close>

abbreviation BCE_VHCI_MAX_RECOVERY_FAILURES :: u32 where "BCE_VHCI_MAX_RECOVERY_FAILURES \<equiv> 3"

text \<open>The comparison of the kernel's clock, on 64-bit words.\<close>

definition time_before :: "u64 \<Rightarrow> u64 \<Rightarrow> bool" where
  "time_before a b \<longleftrightarrow> sint (a - b) < 0"

definition in_cooldown :: "pm_env \<Rightarrow> bce_vhci \<Rightarrow> bool" where
  "in_cooldown env v \<longleftrightarrow> v_last_recovery_jiffies v \<noteq> 0
     \<and> time_before (pm_now env) (v_last_recovery_jiffies v + of_nat (pm_jif env 10000))"

definition cancel_device :: "nat \<Rightarrow> u8 \<Rightarrow> bce_vhci \<Rightarrow> bce_vhci option" where
  "cancel_device i devid v =
     do {
       p \<leftarrow> arr_get (v_devices v) (unat devid);
       case p of
         None \<Rightarrow> Some v
       | Some a \<Rightarrow> each_tq (\<lambda>j v. map_option snd (on_tq a j
           (\<lambda>q. map_option (Pair ()) (bce_vhci_transfer_queue_cancel_all (q\<lparr>tq_active := False\<rparr>))) v)) a [0..<32] v
     }"

definition set_recovering :: "bool \<Rightarrow> bce_vhci \<Rightarrow> bce_vhci" where
  "set_recovering b v = v\<lparr>v_cq := (v_cq v)\<lparr>vc_recovering := b\<rparr>\<rparr>"

definition controller_cmd :: "u16 \<Rightarrow> nat \<Rightarrow> exec_env \<Rightarrow> bce_vhci \<Rightarrow> int \<times> bce_vhci" where
  "controller_cmd c timeout env v = run_cmd (bce_vhci_command_queue_execute env (vhci_cmd c 0 0) timeout) v"

text \<open>A start that failed is counted; the third in a row makes the controller dead.\<close>

definition recovery_failed :: "bce_vhci \<Rightarrow> bce_vhci" where
  "recovery_failed v =
     (let n = v_recovery_fail_count v + 1; v1 = v\<lparr>v_recovery_fail_count := n\<rparr>
      in if n \<ge> BCE_VHCI_MAX_RECOVERY_FAILURES then v1\<lparr>v_cq := (v_cq v1)\<lparr>vc_controller_dead := True\<rparr>\<rparr> else v1)"

text \<open>The restart of the controller and its end.\<close>

definition recovery_restart :: "pm_env \<Rightarrow> bce_vhci \<Rightarrow> bce_vhci option" where
  "recovery_restart env v =
     do {
       let (st, v1) = controller_cmd BCE_VHCI_CMD_CONTROLLER_START (pm_jif env 5000) (pm_start_cmd env) v;
       v2 \<leftarrow> (if st \<noteq> 0 then Some (recovery_failed v1)
              else map_option poll_rh_status
                (each_mapped (\<lambda>i d v. Some (mark_reenumerate i v)) [0..<16] (v1\<lparr>v_recovery_fail_count := 0\<rparr>)));
       let v3 = set_recovering False v2;
       Some (if vc_controller_dead (v_cq v3) then v3 else v3\<lparr>v_watchdog := True\<rparr>)
     }"

definition bce_vhci_recovery_w :: "pm_env \<Rightarrow> bce_vhci \<Rightarrow> bce_vhci option" where
  "bce_vhci_recovery_w env v =
     (if vc_controller_dead (v_cq v) then Some v
      else if in_cooldown env v then Some v
      else if vc_recovering (v_cq v) then Some v
      else do {
        v1 \<leftarrow> each_mapped cancel_device [0..<16] ((set_recovering True v)\<lparr>v_last_recovery_jiffies := pm_now env\<rparr>);
        let (st, v2) = controller_cmd BCE_VHCI_CMD_CONTROLLER_PAUSE (pm_jif env 2000) (pm_pause_cmd env) (pm_works env v1);
        recovery_restart env (resume_event_queues env (flush_message_queues env (pause_event_queues env v2)))
      })"

text \<open>The watchdog runs, so it is no longer pending; it arms itself again at its end.\<close>

definition bce_vhci_watchdog_w :: "(nat \<Rightarrow> nat) \<Rightarrow> exec_env \<Rightarrow> bce_vhci \<Rightarrow> bce_vhci" where
  "bce_vhci_watchdog_w jif env v =
     (let v1 = v\<lparr>v_watchdog := False\<rparr> in
      if vc_recovering (v_cq v1) then v1\<lparr>v_watchdog := True\<rparr>
      else if vc_controller_dead (v_cq v1) then v1
      else
        let (st, res, cq) = bce_vhci_cmd_port_status jif env 0 0 (v_cq v1);
            v2 = v1\<lparr>v_cq := cq\<rparr>
        in if st = - ETIMEDOUT then schedule_recovery v2 else v2\<lparr>v_watchdog := True\<rparr>)"

section \<open>What the operations leave alone\<close>

text \<open>The maps of ports, without the devices' contents.\<close>

definition map_view :: "bce_vhci \<Rightarrow> _" where
  "map_view v = (v_port_to_device v, v_devices v, v_port_resume_skip_reset v, v_endpoint v)"

text \<open>An operation on a queue of the device \<open>a\<close>: the maps stay, and which queues live.\<close>

definition tq_frame :: "addr \<Rightarrow> bce_vhci \<Rightarrow> bce_vhci \<Rightarrow> bool" where
  "tq_frame a v v' \<longleftrightarrow> map_view v' = map_view v \<and> v_hcpriv v' = v_hcpriv v
     \<and> (\<exists>vd vd'. v_vdevs v a = Some vd \<and> v_vdevs v' = (v_vdevs v)(a \<mapsto> vd')
         \<and> vd_tq_mask vd' = vd_tq_mask vd \<and> vd_endp vd' = vd_endp vd \<and> vd_ptrs vd' = vd_ptrs vd)"

lemma tq_frame_refl: "v_vdevs v a = Some vd \<Longrightarrow> tq_frame a v v"
  unfolding tq_frame_def by (intro conjI refl exI [of _ vd]) (simp_all add: map_upd_triv)

lemma tq_frame_trans: "tq_frame a u v \<Longrightarrow> tq_frame a v w \<Longrightarrow> tq_frame a u w"
  by (auto simp: tq_frame_def)

lemma tq_frame_ok:
  assumes "tq_frame a v v'" and ok: "vhci_ok v"
  shows "vhci_ok v'"
proof -
  obtain vd vd' where d: "v_vdevs v a = Some vd" "v_vdevs v' = (v_vdevs v)(a \<mapsto> vd')"
    "vd_tq_mask vd' = vd_tq_mask vd" "vd_endp vd' = vd_endp vd" "vd_ptrs vd' = vd_ptrs vd"
    and m: "map_view v' = map_view v" "v_hcpriv v' = v_hcpriv v"
    using assms(1) by (auto simp: tq_frame_def)
  note q = ok [unfolded vhci_ok_def, THEN conjunct2, THEN conjunct1]
  show ?thesis
  proof (rule vhci_ok_replace [OF ok d(1), where vd' = vd'])
    fix e b j assume "v_hcpriv v' e = Some (b, j)"
    with m(2) own_queue [OF q _ d(1), of e b j]
    show "b \<noteq> a \<and> v_hcpriv v e = Some (b, j) \<or> b = a \<and> bit (vd_tq_mask vd') j \<and> vd_endp vd' j = Some e"
      by (auto simp: d)
  qed (use m(1) d queues_okD(1) [OF q d(1)] in \<open>simp_all add: map_view_def\<close>)
qed

lemma on_tq_frame:
  assumes "on_tq a i f v = Some (r, v')"
  shows "tq_frame a v v'"
  using assms by (auto simp: on_tq_def tq_frame_def map_view_def set_msg_queue_def Let_def split: Option.bind_splits)

lemma on_tq_cq_frame:
  assumes "on_tq_cq a i f v = Some (r, v')"
  shows "tq_frame a v v'"
  using assms by (auto simp: on_tq_cq_def tq_frame_def map_view_def set_msg_queue_def Let_def split: Option.bind_splits)

lemma each_tq_frame:
  assumes "\<And>j v v'. f j v = Some v' \<Longrightarrow> tq_frame a v v'" and "each_tq f a js v = Some v'" and "v_vdevs v a = Some vd"
  shows "tq_frame a v v'"
  using assms(2,3)
proof (induction js arbitrary: v vd)
  case Nil
  then show ?case by (simp add: tq_frame_refl)
next
  case (Cons j js)
  then obtain v1 where v1: "v1 = v \<or> f j v = Some v1" "each_tq f a js v1 = Some v'"
    by (auto split: if_splits Option.bind_splits)
  then have f: "tq_frame a v v1" using assms(1) tq_frame_refl [OF Cons.prems(2)] by blast
  then obtain vd1 where "v_vdevs v1 a = Some vd1" by (auto simp: tq_frame_def)
  from Cons.IH [OF v1(2) this] f show ?case by (blast intro: tq_frame_trans)
qed

lemma each_mapped_keeps:
  assumes "\<And>i d v v'. f i d v = Some v' \<Longrightarrow> P v \<Longrightarrow> P v'" and "each_mapped f is v = Some v'" and "P v"
  shows "P v'"
  using assms(2,3)
proof (induction "is" arbitrary: v)
  case (Cons i "is")
  then obtain d v1 where v1: "v1 = v \<or> f i d v = Some v1" "each_mapped f is v1 = Some v'"
    by (auto split: if_splits Option.bind_splits)
  then have "P v1" using assms(1) Cons.prems(2) by blast
  with v1(2) show ?case by (rule Cons.IH)
qed simp

lemma resume_endpoints_frame:
  assumes "resume_endpoints env i a js v = Some (ok, v')" and "v_vdevs v a = Some vd"
  shows "tq_frame a v v'"
  using assms
proof (induction js arbitrary: v vd)
  case Nil
  then show ?case by (simp add: tq_frame_refl)
next
  case (Cons j js)
  show ?case
  proof (cases "bit (vd_tq_mask vd) j")
    case False
    with Cons show ?thesis by simp
  next
    case True
    with Cons.prems obtain st v1 where v1: "on_tq_cq a j (bce_vhci_transfer_queue_resume (pm_jif env) (pm_endpoint env i j) BCE_VHCI_PAUSE_SUSPEND) v = Some (st, v1)"
      "v' = v1 \<or> resume_endpoints env i a js v1 = Some (ok, v')"
      by (auto split: if_splits Option.bind_splits)
    have f: "tq_frame a v v1" by (rule on_tq_cq_frame [OF v1(1)])
    then obtain vd1 where "v_vdevs v1 a = Some vd1" by (auto simp: tq_frame_def)
    with v1(2) f Cons.IH show ?thesis by (blast intro: tq_frame_trans)
  qed
qed

text \<open>The teardown of a refresh: the endpoints of the destroyed queues lose their pointers.\<close>

lemma refresh_tq_frame:
  assumes "refresh_tq env a j v = Some v'" and "v_vdevs v a = Some vd"
  shows "map_view v' = map_view v \<and> v_hcpriv v' = (\<lambda>e. if vd_endp vd j = Some e then None else v_hcpriv v e)
    \<and> (\<exists>vd'. v_vdevs v' = (v_vdevs v)(a \<mapsto> vd') \<and> vd_tq_mask vd' = vd_tq_mask vd \<and> vd_endp vd' = vd_endp vd)"
proof -
  obtain r v1 vd1 vd2 v2 where o: "on_tq a j (\<lambda>q. map_option (Pair ()) (bce_vhci_transfer_queue_cancel_all q)) v = Some (r, v1)"
    "v_vdevs v1 a = Some vd1" "tq_destroy env j vd1 (clear_hcpriv (vd_endp vd1 j) v1) = Some (vd2, v2)"
    "v' = v2\<lparr>v_vdevs := (v_vdevs v2)(a \<mapsto> vd2)\<rparr>"
    using assms(1) by (auto simp: refresh_tq_def split: Option.bind_splits)
  have f: "tq_frame a v v1" by (rule on_tq_frame [OF o(1)])
  then have v1: "map_view v1 = map_view v" "v_hcpriv v1 = v_hcpriv v" "vd_tq_mask vd1 = vd_tq_mask vd" "vd_endp vd1 = vd_endp vd"
      "\<exists>vdx. v_vdevs v1 = (v_vdevs v)(a \<mapsto> vdx)"
    using assms(2) o(2) by (auto simp: tq_frame_def)
  obtain p where "vd_ptrs vd1 j = Some p" using o(3) by (auto simp: tq_destroy_def split: Option.bind_splits)
  note d = tq_destroy_frame [OF this, of env "clear_hcpriv (vd_endp vd1 j) v1"]
  have "map_view v' = map_view v1" "v_vdevs v' = (v_vdevs v1)(a \<mapsto> vd2)" "vd_tq_mask vd2 = vd_tq_mask vd1" "vd_endp vd2 = vd_endp vd1"
      "v_hcpriv v' = v_hcpriv (clear_hcpriv (vd_endp vd1 j) v1)"
    using d o(3,4) clear_hcpriv_frame(1) [of "vd_endp vd1 j" v1] by (auto simp: map_view_def port_view_def)
  with v1 show ?thesis by (auto simp: clear_hcpriv_frame(2) fun_eq_iff)
qed

lemma refresh_tqs_frame:
  assumes "each_tq (refresh_tq env a) a js v = Some v'" and "v_vdevs v a = Some vd"
  shows "map_view v' = map_view v
    \<and> v_hcpriv v' = (\<lambda>e. if \<exists>j \<in> set js. bit (vd_tq_mask vd) j \<and> vd_endp vd j = Some e then None else v_hcpriv v e)
    \<and> (\<exists>vd'. v_vdevs v' = (v_vdevs v)(a \<mapsto> vd') \<and> vd_tq_mask vd' = vd_tq_mask vd \<and> vd_endp vd' = vd_endp vd)"
  using assms
proof (induction js arbitrary: v vd)
  case Nil
  then have v: "v' = v" by simp
  have "v_vdevs v = (v_vdevs v)(a \<mapsto> vd)" using Nil by (intro map_upd_triv [symmetric]) simp
  then show ?case unfolding v by (intro conjI exI [of _ vd]) simp_all
next
  case (Cons j js)
  show ?case
  proof (cases "bit (vd_tq_mask vd) j")
    case False
    then have "(\<exists>x \<in> set (j # js). bit (vd_tq_mask vd) x \<and> vd_endp vd x = Some e)
      = (\<exists>x \<in> set js. bit (vd_tq_mask vd) x \<and> vd_endp vd x = Some e)" for e by auto
    with False Cons show ?thesis by simp
  next
    case True
    with Cons.prems obtain v1 where v1: "refresh_tq env a j v = Some v1" "each_tq (refresh_tq env a) a js v1 = Some v'"
      by (auto split: Option.bind_splits)
    obtain vd1 where f: "map_view v1 = map_view v" "v_hcpriv v1 = (\<lambda>e. if vd_endp vd j = Some e then None else v_hcpriv v e)"
      "v_vdevs v1 = (v_vdevs v)(a \<mapsto> vd1)" "vd_tq_mask vd1 = vd_tq_mask vd" "vd_endp vd1 = vd_endp vd"
      using refresh_tq_frame [OF v1(1) Cons.prems(2)] by blast
    have "v_vdevs v1 a = Some vd1" by (simp add: f(3))
    from Cons.IH [OF v1(2) this] True f show ?thesis by (auto simp: fun_eq_iff)
  qed
qed

lemma run_cmd_frame:
  assumes "run_cmd f v = (st, v')"
  shows "port_view v' = port_view v" "v_hcpriv v' = v_hcpriv v"
  using assms by (auto simp: run_cmd_def port_view_def split: prod.splits)

section \<open>The maps stay consistent across a resume\<close>

text \<open>The device number that the port gets when its device is created again.\<close>

definition answers_create :: "vhci_env \<Rightarrow> nat \<Rightarrow> u8 \<Rightarrow> bool" where
  "answers_create env i x \<longleftrightarrow>
     (\<forall>cq st d cq'. bce_vhci_cmd_device_create (ve_jif env) (ve_cmd env 4) (of_nat i) cq = (st, Some d, cq') \<longrightarrow> d = x)"

lemma refresh_teardown_ok:
  assumes ok: "vhci_ok v" and p: "i < 16" and n: "v_port_to_device v ! i \<noteq> 0"
    and a: "v_devices v ! unat (v_port_to_device v ! i) = Some a" and vd: "v_vdevs v a = Some vd"
    and run: "refresh_teardown env i (v_port_to_device v ! i) a v = Some v1"
  shows "v_port_to_device v1 = (v_port_to_device v)[i := 0] \<and> v_hcpriv v1 = cleared vd (v_hcpriv v)
    \<and> v_devices v1 = (v_devices v)[unat (v_port_to_device v ! i) := None]
    \<and> v_port_resume_skip_reset v1 = v_port_resume_skip_reset v
    \<and> (\<exists>vd'. v_vdevs v1 = (v_vdevs v)(a \<mapsto> vd'))
    \<and> ports_ok (v_port_to_device v1) (v_devices v1) (dom (v_vdevs v) - {a})
    \<and> queues_ok ((v_vdevs v)(a := None)) (v_hcpriv v1)"
proof -
  note pok = ok [unfolded vhci_ok_def, THEN conjunct1] and qok = ok [unfolded vhci_ok_def, THEN conjunct2, THEN conjunct1]
  obtain v0 vd0 where v0: "each_tq (refresh_tq env a) a [0..<32] v = Some v0"
    and v1: "v_vdevs v1 = (v_vdevs v0)(a \<mapsto> vd0\<lparr>vd_tq_mask := 0\<rparr>)" "v_devices v1 = (v_devices v0)[unat (v_port_to_device v ! i) := None]"
      "v_port_to_device v1 = (v_port_to_device v0)[i := 0]" "v_hcpriv v1 = v_hcpriv v0" "v_port_resume_skip_reset v1 = v_port_resume_skip_reset v0"
    using run by (auto simp: refresh_teardown_def arr_set_def split: Option.bind_splits if_splits)
  have f: "map_view v0 = map_view v" "v_hcpriv v0 = cleared vd (v_hcpriv v)" "\<exists>vd'. v_vdevs v0 = (v_vdevs v)(a \<mapsto> vd')"
    using refresh_tqs_frame [OF v0 vd] by (auto simp: cleared_def)
  then have "v_port_to_device v1 = (v_port_to_device v)[i := 0]" "v_hcpriv v1 = cleared vd (v_hcpriv v)"
    "v_devices v1 = (v_devices v)[unat (v_port_to_device v ! i) := None]" "v_port_resume_skip_reset v1 = v_port_resume_skip_reset v"
    "\<exists>vd'. v_vdevs v1 = (v_vdevs v)(a \<mapsto> vd')"
    using v1 by (auto simp: map_view_def)
  with ports_ok_remove [OF pok p n a] queues_ok_remove [OF qok vd] show ?thesis by simp
qed

lemma port_view_eq:
  assumes "port_view w = port_view v"
  shows "v_port_to_device w = v_port_to_device v" "v_devices w = v_devices v" "v_vdevs w = v_vdevs v"
    "v_port_resume_skip_reset w = v_port_resume_skip_reset v" "v_endpoint w = v_endpoint v"
  using assms by (simp_all add: port_view_def)

text \<open>The device is gone, or it lives on with its control endpoint.\<close>

lemma gone_ok:
  assumes "ports_ok (v_port_to_device v) (v_devices v) (dom (v_vdevs v) - {a})" and "queues_ok ((v_vdevs v)(a := None)) (v_hcpriv v)"
    and "length (v_port_resume_skip_reset v) = 16" and "port_view w = port_view v" and "v_hcpriv w = v_hcpriv v"
  shows "vhci_ok (kfree_device a w)"
proof -
  have "dom ((v_vdevs v)(a := None)) = dom (v_vdevs v) - {a}" by auto
  then show ?thesis using assms(1-3) port_view_eq [OF assms(4)] assms(5) by (simp add: vhci_ok_def kfree_device_def)
qed

lemma alive_ok:
  assumes pok: "ports_ok (v_port_to_device v) (v_devices v) (dom (v_vdevs v) - {a})" and qok: "queues_ok ((v_vdevs v)(a := None)) (v_hcpriv v)"
    and len: "length (v_port_resume_skip_reset w) = 16"
    and x: "i < 16" "v_port_to_device v ! i = 0" "unat x < 16" "x \<noteq> 0" "v_devices v ! unat x = None"
    and w: "v_port_to_device w = (v_port_to_device v)[i := x]" "v_devices w = (v_devices v)[unat x := Some a]"
      "v_hcpriv w = (v_hcpriv v)(e \<mapsto> (a, 0))" "v_vdevs w = (v_vdevs v)(a \<mapsto> vd)"
    and vd: "vd_tq_mask vd = 1" "vd_ptrs vd 0 \<noteq> None" "vd_endp vd 0 = Some e"
  shows "vhci_ok w"
proof -
  have "ports_ok (v_port_to_device w) (v_devices w) (insert a (dom (v_vdevs v) - {a}))"
    unfolding w by (rule ports_ok_add [OF pok x]) simp
  moreover have "queues_ok (((v_vdevs v)(a := None))(a \<mapsto> vd)) ((v_hcpriv v)(e \<mapsto> (a, 0)))"
  proof (rule queues_ok_replace [OF qok])
    fix k assume "bit (vd_tq_mask vd) k"
    then have "k = 0" by (simp add: vd bit_1_iff)
    then show "vd_ptrs vd k \<noteq> None \<and> vd_endp vd k \<noteq> None" using vd by simp
  next
    fix e' b j assume h: "((v_hcpriv v)(e \<mapsto> (a, 0))) e' = Some (b, j)"
    show "b \<noteq> a \<and> v_hcpriv v e' = Some (b, j) \<or> b = a \<and> bit (vd_tq_mask vd) j \<and> vd_endp vd j = Some e'"
    proof (cases "e' = e")
      case True
      then show ?thesis using h vd by simp
    next
      case False
      then show ?thesis using h queues_okD(2) [OF qok, of e' b j] by (auto split: if_splits)
    qed
  qed
  moreover have "insert a (dom (v_vdevs v) - {a}) = dom (v_vdevs w)" by (auto simp: w)
  ultimately show ?thesis using len by (simp add: vhci_ok_def w)
qed

lemma refresh_ep0_ok:
  assumes pok: "ports_ok (v_port_to_device v) (v_devices v) (dom (v_vdevs v) - {a})" and qok: "queues_ok ((v_vdevs v)(a := None)) (v_hcpriv v)"
    and len: "length (v_port_resume_skip_reset v) = 16"
    and x: "i < 16" "v_port_to_device v ! i = 0" "unat x < 16" "x \<noteq> 0" "v_devices v ! unat x = None"
    and run: "refresh_ep0 env i x a ep0 v = Some (r, v')"
  shows "vhci_ok v' \<and> (\<exists>y \<in> {0, x}. v_port_to_device v' = (v_port_to_device v)[i := y])"
proof -
  let ?D2 = "(v_devices v)[unat x := Some a]" and ?P2 = "(v_port_to_device v)[i := x]"
  let ?w = "v\<lparr>v_devices := ?D2, v_port_to_device := ?P2\<rparr>"
  note l = ports_okD(1,2) [OF pok]
  obtain vd1 e where vd1: "v_vdevs v a = Some vd1" "ep0 = Some e"
    using run by (auto simp: refresh_ep0_def split: Option.bind_splits)
  obtain okc vd2 v5 where c: "tq_create env 0 e x DMA_BIDIRECTIONAL vd1 ?w = (okc, vd2, v5)" by (metis prod_cases3)
  note cf = tq_create_frame [OF c]
  note v5 = port_view_eq [OF cf(1)] cf(2)
  let ?f = "v5\<lparr>v_devices := ?D2[unat x := None], v_port_to_device := ?P2[i := 0]\<rparr>"
  have run': "(if \<not> okc then Some (True, kfree_device a (device_destroy env 5 x ?f))
       else Some (False, v5\<lparr>v_hcpriv := (v_hcpriv v5)(e \<mapsto> (a, 0)), v_vdevs := (v_vdevs v5)(a \<mapsto> vd2\<lparr>vd_tq_mask := 1\<rparr>),
           v_cq := snd (bce_vhci_cmd_endpoint_create (ve_jif env) (ve_ep env 0) x (v_endpoint v5 e) (v_cq v5)),
           v_port_resume_skip_reset := (v_port_resume_skip_reset v)[i := 2]\<rparr>)) = Some (r, v')"
    using run vd1 c v5 l x len by (cases okc) (simp_all add: refresh_ep0_def arr_set_def)
  show ?thesis
  proof (cases okc)
    case False
    have undo: "(v_devices v)[unat x := None] = v_devices v" "(v_port_to_device v)[i := 0] = v_port_to_device v"
      using x(2,5) by (metis list_update_id)+
    have "port_view (device_destroy env 5 x ?f) = port_view v" "v_hcpriv (device_destroy env 5 x ?f) = v_hcpriv v"
      using v5 by (simp_all add: undo port_view_def device_destroy_def)
    from gone_ok [OF pok qok len this] port_view_eq(1) [OF this(1)] run' False x(2)
    show ?thesis by (auto simp: kfree_device_def intro: list_update_id [symmetric])
  next
    case True
    have "vhci_ok v'"
      by (rule alive_ok [OF pok qok _ x, where e = e and vd = "vd2\<lparr>vd_tq_mask := 1\<rparr>"]) (use run' True v5 cf len in auto)
    moreover have "v_port_to_device v' = ?P2" using run' True v5 by auto
    ultimately show ?thesis by auto
  qed
qed

lemma refresh_device_ok:
  assumes ok: "vhci_ok v" and p: "i < 16" and n: "v_port_to_device v ! i \<noteq> 0"
    and a: "v_devices v ! unat (v_port_to_device v ! i) = Some a" and vd: "v_vdevs v a = Some vd"
    and ans: "answers_create env i x" and x: "x \<noteq> 0" "unat x < 16" "\<And>k. k < 16 \<Longrightarrow> k \<noteq> i \<Longrightarrow> v_port_to_device v ! k \<noteq> x"
    and run: "refresh_device env i (v_port_to_device v ! i) a v = Some (r, v')"
  shows "vhci_ok v' \<and> (\<exists>y \<in> {0, x}. v_port_to_device v' = (v_port_to_device v)[i := y])"
proof -
  obtain v1 where t: "refresh_teardown env i (v_port_to_device v ! i) a v = Some v1"
    using run by (auto simp: refresh_device_def Let_def split: Option.bind_splits)
  note f = refresh_teardown_ok [OF ok p n a vd t]
  obtain vd1 where vs: "v_vdevs v1 = (v_vdevs v)(a \<mapsto> vd1)" using f by blast
  have "dom (v_vdevs v1) - {a} = dom (v_vdevs v) - {a}" "(v_vdevs v1)(a := None) = (v_vdevs v)(a := None)" by (auto simp: vs)
  then have pok: "ports_ok (v_port_to_device v1) (v_devices v1) (dom (v_vdevs v1) - {a})"
    and qok: "queues_ok ((v_vdevs v1)(a := None)) (v_hcpriv v1)" and len: "length (v_port_resume_skip_reset v1) = 16"
    using f ok by (auto simp: vhci_ok_def)
  have pt: "v_port_to_device v1 = (v_port_to_device v)[i := 0]" using f by blast
  have z: "v_port_to_device v1 ! i = 0" using pt ports_okD(1) [OF pok] p by simp
  have free: "v_devices v1 ! unat x = None"
  proof (rule ccontr)
    assume "v_devices v1 ! unat x \<noteq> None"
    from ports_okD(8) [OF pok x(2) this] obtain q where q: "q < 16" "v_port_to_device v1 ! q = x" by (metis word_unat_eq_iff)
    then show False using z x pt by (cases "q = i") auto
  qed
  have kfree: "vhci_ok (kfree_device a w) \<and> (\<exists>y \<in> {0, x}. v_port_to_device (kfree_device a w) = (v_port_to_device v)[i := y])"
    if w: "port_view w = port_view v1" "v_hcpriv w = v_hcpriv v1" for w
    using gone_ok [OF pok qok len w] port_view_eq(1) [OF w(1)] pt by (simp add: kfree_device_def)
  obtain st2 v2 where r2: "run_cmd (bce_vhci_cmd_device_destroy (ve_jif env) (ve_cmd env 2) (v_port_to_device v ! i)) v1 = (st2, v2)"
    by (metis surj_pair)
  note w2 = run_cmd_frame [OF r2]
  obtain st3 v3 where r3: "run_cmd (bce_vhci_cmd_port_reset (ve_jif env) (ve_cmd env 3) (of_nat i) 0) v2 = (st3, v3)"
    by (metis surj_pair)
  note w3 = run_cmd_frame [OF r3, unfolded w2]
  obtain st4 res cq where r4: "bce_vhci_cmd_device_create (ve_jif env) (ve_cmd env 4) (of_nat i) (v_cq v3) = (st4, res, cq)"
    by (metis prod_cases3)
  let ?v4 = "v3\<lparr>v_cq := cq\<rparr>"
  have w4: "port_view ?v4 = port_view v1" "v_hcpriv ?v4 = v_hcpriv v1" using w3 by (simp_all add: port_view_def)
  have "v' = kfree_device a v2 \<or> v' = kfree_device a v3 \<or> v' = kfree_device a ?v4
    \<or> (\<exists>d. res = Some d \<and> refresh_ep0 env i d a (vd_endp vd 0) ?v4 = Some (r, v'))"
    using run unfolding refresh_device_def vd Let_def t r2 Option.bind.simps
    by (simp add: r3 r4 split: if_splits Option.bind_splits)
  then consider w where "port_view w = port_view v1" "v_hcpriv w = v_hcpriv v1" "v' = kfree_device a w"
    | d where "res = Some d" "refresh_ep0 env i d a (vd_endp vd 0) ?v4 = Some (r, v')"
    using w2 w3 w4 by blast
  then show ?thesis
  proof cases
    case 1
    then show ?thesis using kfree by blast
  next
    case 2
    then have d: "d = x" using ans r4 by (auto simp: answers_create_def)
    note e = port_view_eq [OF w4(1)]
    have "vhci_ok v' \<and> (\<exists>y \<in> {0, x}. v_port_to_device v' = (v_port_to_device ?v4)[i := y])"
      by (rule refresh_ep0_ok [OF _ _ _ p _ x(2,1) _ 2(2) [unfolded d]]) (use pok qok len z free in \<open>simp_all only: e w4(2)\<close>)
    then show ?thesis unfolding e(1) pt by simp
  qed
qed

lemma resume_device_ok:
  assumes ok: "vhci_ok v" and p: "i < 16" and n: "v_port_to_device v ! i \<noteq> 0"
    and ans: "answers_create (pm_dev env i) i x" and x: "x \<noteq> 0" "unat x < 16" "\<And>k. k < 16 \<Longrightarrow> k \<noteq> i \<Longrightarrow> v_port_to_device v ! k \<noteq> x"
    and run: "resume_device env i (v_port_to_device v ! i) v = Some (r, v')"
  shows "vhci_ok v' \<and> (\<exists>y \<in> {0, x, v_port_to_device v ! i}. v_port_to_device v' = (v_port_to_device v)[i := y])"
proof -
  obtain a vd where a: "arr_get (v_devices v) (unat (v_port_to_device v ! i)) = Some (Some a)"
    "v_devices v ! unat (v_port_to_device v ! i) = Some a" "v_vdevs v a = Some vd"
    using port_mapped(2) [OF ok p n] by blast
  have cq: "vhci_ok (v\<lparr>v_cq := c\<rparr>)" for c by (rule vhci_ok_view [OF _ _ ok]) (simp_all add: port_view_def)
  obtain st res c where s: "bce_vhci_cmd_port_status (ve_jif (pm_dev env i)) (ve_cmd (pm_dev env i) 0) (of_nat i) 0 (v_cq v) = (st, res, c)"
    by (metis prod_cases3)
  let ?v1 = "v\<lparr>v_cq := c\<rparr>"
  consider c' where "v' = v\<lparr>v_cq := c'\<rparr>"
    | v2 where "tq_frame a ?v1 v2" "v' = v2 \<or> refresh_device (pm_dev env i) i (v_port_to_device v ! i) a v2 = Some (r, v')"
  proof -
    have f: "tq_frame a ?v1 ?v1" by (rule tq_frame_refl) (simp add: a)
    have e: "tq_frame a ?v1 w" if "resume_endpoints env i a [0..<32] ?v1 = Some (b, w)" for b w
      using resume_endpoints_frame [OF that] a(3) by simp
    show thesis
      using run a s that f e by (auto simp: resume_device_def Let_def split: Option.bind_splits if_splits)
  qed
  then show ?thesis
  proof cases
    case 1
    then show ?thesis using cq by auto
  next
    case 2
    have v2: "vhci_ok v2" "v_port_to_device v2 = v_port_to_device v" "v_devices v2 = v_devices v"
      using tq_frame_ok [OF 2(1) cq] 2(1) by (auto simp: tq_frame_def map_view_def)
    obtain vd2 where vd2: "v_vdevs v2 a = Some vd2" using 2(1) by (auto simp: tq_frame_def)
    from 2(2) show ?thesis
    proof
      assume "v' = v2"
      then show ?thesis using v2 by simp
    next
      assume run': "refresh_device (pm_dev env i) i (v_port_to_device v ! i) a v2 = Some (r, v')"
      have "vhci_ok v' \<and> (\<exists>y \<in> {0, x}. v_port_to_device v' = (v_port_to_device v2)[i := y])"
        by (rule refresh_device_ok [where vd = vd2 and env = "pm_dev env i" and a = a]) (use v2 p n a vd2 ans x run' in auto)
      then show ?thesis using v2 by auto
    qed
  qed
qed

lemma event_queues_frame [simp]:
  "port_view (pause_event_queues env v) = port_view v" "v_hcpriv (pause_event_queues env v) = v_hcpriv v"
  "port_view (resume_event_queues env v) = port_view v" "v_hcpriv (resume_event_queues env v) = v_hcpriv v"
  "port_view (flush_message_queues env v) = port_view v" "v_hcpriv (flush_message_queues env v) = v_hcpriv v"
  "v_cq (pause_event_queues env v) = v_cq v" "v_cq (resume_event_queues env v) = v_cq v" "v_cq (flush_message_queues env v) = v_cq v"
  by (simp_all add: pause_event_queues_def resume_event_queues_def flush_message_queues_def port_view_def Let_def)

lemma mark_reenumerate_frame: "port_view (mark_reenumerate i v) = port_view v" "v_hcpriv (mark_reenumerate i v) = v_hcpriv v"
  by (simp_all add: mark_reenumerate_def port_view_def)

text \<open>
  The numbers of the devices that are created again: in range, different from each other, and
  not those of other ports.
\<close>

definition fresh_numbers :: "(nat \<Rightarrow> u8) \<Rightarrow> nat set \<Rightarrow> u8 list \<Rightarrow> bool" where
  "fresh_numbers new I ptd \<longleftrightarrow> (\<forall>i \<in> I. ptd ! i \<noteq> 0 \<longrightarrow> new i \<noteq> 0 \<and> unat (new i) < 16
     \<and> (\<forall>k < 16. k \<noteq> i \<longrightarrow> ptd ! k \<noteq> new i) \<and> (\<forall>k \<in> I. k \<noteq> i \<longrightarrow> ptd ! k \<noteq> 0 \<longrightarrow> new k \<noteq> new i))"

lemma fresh_numbers_update:
  assumes f: "fresh_numbers new (insert i I) ptd" and i: "i \<notin> I" "i < 16" "length ptd = 16" "I \<subseteq> {..<16}"
    and y: "y = 0 \<or> y = ptd ! i \<or> (y = new i \<and> ptd ! i \<noteq> 0)"
  shows "fresh_numbers new I (ptd[i := y])"
  unfolding fresh_numbers_def
proof (intro ballI impI)
  fix j assume j: "j \<in> I" "ptd[i := y] ! j \<noteq> 0"
  from j(1) i(1) have n1: "j \<noteq> i" by blast
  with j(2) have n: "j \<noteq> i" "ptd ! j \<noteq> 0" by simp_all
  with f j have g: "new j \<noteq> 0" "unat (new j) < 16" "\<forall>k < 16. k \<noteq> j \<longrightarrow> ptd ! k \<noteq> new j"
    "\<forall>k \<in> insert i I. k \<noteq> j \<longrightarrow> ptd ! k \<noteq> 0 \<longrightarrow> new k \<noteq> new j"
    unfolding fresh_numbers_def by blast+
  have "y \<noteq> new j" using y g n i by auto
  then show "new j \<noteq> 0 \<and> unat (new j) < 16 \<and> (\<forall>k < 16. k \<noteq> j \<longrightarrow> ptd[i := y] ! k \<noteq> new j)
     \<and> (\<forall>k \<in> I. k \<noteq> j \<longrightarrow> ptd[i := y] ! k \<noteq> 0 \<longrightarrow> new k \<noteq> new j)"
    using g i by (auto simp: nth_list_update)
qed

lemma resume_devices_ok:
  assumes "vhci_ok v" and "set js \<subseteq> {..<16}" and "distinct js" and "\<And>i. i \<in> set js \<Longrightarrow> answers_create (pm_dev env i) i (new i)"
    and "fresh_numbers new (set js) (v_port_to_device v)" and "resume_devices env js poll v = Some (r, v')"
  shows "vhci_ok v'"
  using assms
proof (induction js arbitrary: v poll)
  case Nil
  then show ?case by simp
next
  case (Cons i js)
  note ok = Cons.prems(1)
  have p: "i < 16" and l: "length (v_port_to_device v) = 16" using Cons.prems(2) ok by (auto simp: vhci_ok_def ports_ok_def)
  have step: "vhci_ok v'" if "resume_devices env js b w = Some (r, v')" "vhci_ok w" "v_port_to_device w = (v_port_to_device v)[i := y]"
    "y = 0 \<or> y = v_port_to_device v ! i \<or> (y = new i \<and> v_port_to_device v ! i \<noteq> 0)" for b w y
  proof (rule Cons.IH [OF that(2) _ _ _ _ that(1)])
    show "fresh_numbers new (set js) (v_port_to_device w)"
      unfolding that(3)
    proof (rule fresh_numbers_update)
      show "fresh_numbers new (insert i (set js)) (v_port_to_device v)" using Cons.prems(5) by simp
    qed (use p l that(4) Cons.prems(2,3) in auto)
  qed (use Cons.prems in auto)
  show ?case
  proof (cases "v_port_to_device v ! i = 0")
    case True
    then have "resume_devices env js poll v = Some (r, v')" using Cons.prems(6) port_mapped(1) [OF ok p] by simp
    from step [OF this ok, of 0] True show ?thesis by (metis list_update_id)
  next
    case False
    obtain b v1 where v1: "resume_device env i (v_port_to_device v ! i) v = Some (b, v1)"
      "resume_devices env js (b \<or> poll) (if b then mark_reenumerate i v1 else v1) = Some (r, v')"
      using Cons.prems(6) port_mapped(1) [OF ok p] False by (auto split: Option.bind_splits if_splits)
    have x: "new i \<noteq> 0" "unat (new i) < 16" "\<And>k. k < 16 \<Longrightarrow> k \<noteq> i \<Longrightarrow> v_port_to_device v ! k \<noteq> new i"
      using Cons.prems(5) False by (auto simp: fresh_numbers_def)
    have a: "answers_create (pm_dev env i) i (new i)" using Cons.prems(4) by simp
    obtain y where y: "vhci_ok v1" "y \<in> {0, new i, v_port_to_device v ! i}" "v_port_to_device v1 = (v_port_to_device v)[i := y]"
      using resume_device_ok [OF ok p False a x v1(1)] by blast
    let ?w = "if b then mark_reenumerate i v1 else v1"
    have w: "vhci_ok ?w" "v_port_to_device ?w = v_port_to_device v1"
      using vhci_ok_view [OF mark_reenumerate_frame y(1)] y(1) port_view_eq(1) [OF mark_reenumerate_frame(1)] by auto
    show ?thesis by (rule step [OF v1(2) w(1), of y]) (use w y False in auto)
  qed
qed

lemma each_port_frame:
  assumes "\<And>i v. port_view (f i v) = port_view v \<and> v_hcpriv (f i v) = v_hcpriv v"
    and "each_mapped (\<lambda>i d v. Some (f i v)) js v = Some v'"
  shows "port_view v' = port_view v" "v_hcpriv v' = v_hcpriv v"
proof -
  have "port_view v' = port_view v \<and> v_hcpriv v' = v_hcpriv v"
    by (rule each_mapped_keeps [OF _ assms(2), where P = "\<lambda>w. port_view w = port_view v \<and> v_hcpriv w = v_hcpriv v"])
      (use assms(1) in auto)
  then show "port_view v' = port_view v" "v_hcpriv v' = v_hcpriv v" by simp_all
qed

lemma resume_port_frame: "port_view (resume_port env i v) = port_view v" "v_hcpriv (resume_port env i v) = v_hcpriv v"
  by (simp_all add: resume_port_def run_cmd_def port_view_def split: prod.split)

lemma suspend_port_frame: "port_view (suspend_port env i v) = port_view v" "v_hcpriv (suspend_port env i v) = v_hcpriv v"
  by (simp_all add: suspend_port_def run_cmd_def port_view_def split: prod.split)


end
