(* ===== verification/Vhci_Recovery.thy ===== *)
theory Vhci_Recovery
  imports Vhci_Power
begin

unbundle bit_operations_syntax

text \<open>
  The suspend and the recovery of the virtual host controller: a suspend pauses every queue whatever
  fails, a silent controller is given up after three recoveries, and what a recovery leaves undone.
  The definitions are those of \<open>Vhci_Power\<close>.
\<close>

section \<open>Suspend\<close>

abbreviation suspended :: "bce_vhci_transfer_queue \<Rightarrow> bool" where
  "suspended q \<equiv> tq_paused_by q AND BCE_VHCI_PAUSE_SUSPEND \<noteq> 0"

text \<open>The queue \<open>j\<close> of the device \<open>a\<close> is paused for the suspend.\<close>

definition tq_suspended :: "addr \<Rightarrow> nat \<Rightarrow> bce_vhci \<Rightarrow> bool" where
  "tq_suspended a j v \<longleftrightarrow> (\<exists>vd. v_vdevs v a = Some vd \<and> suspended (vd_tq vd j))"

lemma or_source: "(x OR s) AND s \<noteq> 0 \<longleftrightarrow> s \<noteq> (0 :: u32)"
proof -
  have "(x OR s) AND s = s" by (rule bit_word_eqI) (auto simp: bit_simps)
  then show ?thesis by simp
qed

lemma suspend_endpoint_sets:
  "suspend_endpoint jif env q cq = Some (r, q', cq') \<Longrightarrow> suspended q'"
  by (auto simp: suspend_endpoint_def or_source split: prod.splits)

lemma suspend_tq:
  assumes "on_tq_cq a j (suspend_endpoint jif env) v = Some (r, v')"
  shows "tq_suspended a j v'" and "tq_suspended b k v \<Longrightarrow> tq_suspended b k v'"
proof -
  obtain vd p q cq where o: "v_vdevs v a = Some vd"
    "suspend_endpoint jif env ((vd_tq vd j)\<lparr>tq_mq := bce_vhci_get_msg_queue (tq_endp (vd_tq vd j)) v\<rparr>) (v_cq v) = Some (r, q, cq)"
    "v_vdevs v' = (v_vdevs v)(a \<mapsto> vd\<lparr>vd_tq := (vd_tq vd)(j := q)\<rparr>)"
    using assms by (auto simp: on_tq_cq_def set_msg_queue_def Let_def split: Option.bind_splits)
  then show "tq_suspended a j v'" "tq_suspended b k v \<Longrightarrow> tq_suspended b k v'"
    using suspend_endpoint_sets [OF o(2)] by (auto simp: tq_suspended_def)
qed

lemma suspend_tqs:
  assumes "each_tq (\<lambda>j v. map_option snd (on_tq_cq a j (suspend_endpoint jif (e j)) v)) a js v = Some v'"
    and "v_vdevs v a = Some vd"
  shows "\<forall>j \<in> set js. bit (vd_tq_mask vd) j \<longrightarrow> tq_suspended a j v'" and "tq_suspended b k v \<Longrightarrow> tq_suspended b k v'"
proof -
  have "(\<forall>j \<in> set js. bit (vd_tq_mask vd) j \<longrightarrow> tq_suspended a j v') \<and> (\<forall>b k. tq_suspended b k v \<longrightarrow> tq_suspended b k v')"
    using assms
  proof (induction js arbitrary: v vd)
    case (Cons j js)
    show ?case
    proof (cases "bit (vd_tq_mask vd) j")
      case True
      with Cons.prems obtain r v1 where v1: "on_tq_cq a j (suspend_endpoint jif (e j)) v = Some (r, v1)"
        "each_tq (\<lambda>j v. map_option snd (on_tq_cq a j (suspend_endpoint jif (e j)) v)) a js v1 = Some v'"
        by (auto split: Option.bind_splits)
      obtain vd1 where vd1: "v_vdevs v1 a = Some vd1" "vd_tq_mask vd1 = vd_tq_mask vd"
        using on_tq_cq_frame [OF v1(1)] Cons.prems(2) by (auto simp: tq_frame_def)
      show ?thesis using Cons.IH [OF v1(2) vd1(1)] suspend_tq [OF v1(1)] vd1(2) by auto
    next
      case False
      with Cons show ?thesis by auto
    qed
  qed simp
  then show "\<forall>j \<in> set js. bit (vd_tq_mask vd) j \<longrightarrow> tq_suspended a j v'" "tq_suspended b k v \<Longrightarrow> tq_suspended b k v'" by blast+
qed

lemma suspend_device_watchdog:
  assumes "suspend_device env i d v = Some v'"
  shows "v_watchdog v' = v_watchdog v"
proof -
  have "v_watchdog v' = v_watchdog v" if "each_tq (\<lambda>j v. map_option snd (on_tq_cq a j (suspend_endpoint jif (e j)) v)) a js v = Some v'"
    for a jif e js
    using that
    by (induction js arbitrary: v)
      (auto simp: on_tq_cq_def set_msg_queue_def Let_def split: Option.bind_splits if_splits)
  then show ?thesis using assms by (auto simp: suspend_device_def split: Option.bind_splits)
qed

text \<open>A device at a mapped port, with one of its queues.\<close>

definition port_queue :: "bce_vhci \<Rightarrow> nat \<Rightarrow> addr \<Rightarrow> nat \<Rightarrow> bool" where
  "port_queue v i a j \<longleftrightarrow> v_port_to_device v ! i \<noteq> 0 \<and> v_devices v ! unat (v_port_to_device v ! i) = Some a
     \<and> (\<exists>vd. v_vdevs v a = Some vd \<and> bit (vd_tq_mask vd) j)"

lemma port_queue_frame:
  assumes "tq_frame b v v'"
  shows "port_queue v' i a j \<longleftrightarrow> port_queue v i a j"
proof -
  obtain vd vd' where d: "v_vdevs v b = Some vd" "v_vdevs v' = (v_vdevs v)(b \<mapsto> vd')" "vd_tq_mask vd' = vd_tq_mask vd"
    and m: "map_view v' = map_view v" using assms by (auto simp: tq_frame_def)
  then show ?thesis by (auto simp: port_queue_def map_view_def)
qed

lemma suspend_devices_sets:
  assumes "each_mapped (suspend_device env) js v = Some v'" and "vhci_ok v" and "set js \<subseteq> {..<16}"
  shows "vhci_ok v' \<and> (\<forall>i a j. port_queue v' i a j = port_queue v i a j) \<and> v_port_to_device v' = v_port_to_device v
    \<and> (\<forall>b k. tq_suspended b k v \<longrightarrow> tq_suspended b k v')
    \<and> (\<forall>i \<in> set js. \<forall>a j. port_queue v i a j \<longrightarrow> tq_suspended a j v')"
  using assms
proof (induction js arbitrary: v)
  case (Cons i js)
  have p: "i < 16" using Cons.prems(3) by simp
  note ok = Cons.prems(2)
  show ?case
  proof (cases "v_port_to_device v ! i = 0")
    case True
    then have "each_mapped (suspend_device env) js v = Some v'" using Cons.prems(1) port_mapped(1) [OF ok p] by simp
    moreover have "\<not> port_queue v i a j" for a j by (simp add: port_queue_def True)
    ultimately show ?thesis using Cons.IH [of v] ok Cons.prems(3) by auto
  next
    case False
    let ?d = "v_port_to_device v ! i"
    obtain a vd where a: "arr_get (v_devices v) (unat ?d) = Some (Some a)" "v_devices v ! unat ?d = Some a" "v_vdevs v a = Some vd"
      using port_mapped(2) [OF ok p False] by blast
    let ?f = "\<lambda>j v. map_option snd (on_tq_cq a j (suspend_endpoint (pm_jif env) (pm_endpoint env i j)) v)"
    obtain v1 where v1: "each_tq ?f a [0..<32] v = Some v1" "each_mapped (suspend_device env) js v1 = Some v'"
    proof -
      have "suspend_device env i ?d v = each_tq ?f a [0..<32] v" by (simp add: suspend_device_def a)
      then show thesis using that Cons.prems(1) port_mapped(1) [OF ok p] False by (auto split: Option.bind_splits)
    qed
    have f: "tq_frame a v v1" by (rule each_tq_frame [OF _ v1(1) a(3)]) (auto intro: on_tq_cq_frame)
    have ok1: "vhci_ok v1" by (rule tq_frame_ok [OF f ok])
    have m: "v_port_to_device v1 = v_port_to_device v" using f by (simp add: tq_frame_def map_view_def)
    note s = suspend_tqs [OF v1(1) a(3)]
    have "tq_suspended b k v1" if "port_queue v i b k" for b k
    proof -
      have "b = a" "bit (vd_tq_mask vd) k" using that a by (auto simp: port_queue_def)
      then show ?thesis using s(1) mask_bit_bound by simp
    qed
    with Cons.IH [OF v1(2) ok1] Cons.prems(3) s(2) port_queue_frame [OF f] m show ?thesis by auto
  qed
qed simp

text \<open>A suspend never faults: every device of a port is there, and the queues of its mask live.\<close>

lemma suspend_endpoint_total: "\<exists>q' cq'. suspend_endpoint jif env q cq = Some ((), q', cq')"
  by (simp add: suspend_endpoint_def split_beta)

lemma suspend_tqs_total:
  assumes "v_vdevs v a = Some vd" and "\<forall>j. bit (vd_tq_mask vd) j \<longrightarrow> vd_ptrs vd j \<noteq> None"
  shows "\<exists>v'. each_tq (\<lambda>j v. map_option snd (on_tq_cq a j (suspend_endpoint jif (e j)) v)) a js v = Some v'"
  using assms
proof (induction js arbitrary: v vd)
  case (Cons j js)
  show ?case
  proof (cases "bit (vd_tq_mask vd) j")
    case True
    then obtain p where "vd_ptrs vd j = Some p" using Cons.prems(2) by auto
    then have "\<exists>r v1. on_tq_cq a j (suspend_endpoint jif (e j)) v = Some (r, v1)"
      using Cons.prems(1) suspend_endpoint_total [of jif "e j" "(vd_tq vd j)\<lparr>tq_mq := bce_vhci_get_msg_queue (tq_endp (vd_tq vd j)) v\<rparr>" "v_cq v"]
      by (auto simp: on_tq_cq_def Let_def)
    then obtain r v1 where v1: "on_tq_cq a j (suspend_endpoint jif (e j)) v = Some (r, v1)" by blast
    obtain vd1 where "v_vdevs v1 a = Some vd1" "vd_tq_mask vd1 = vd_tq_mask vd" "vd_ptrs vd1 = vd_ptrs vd"
      using on_tq_cq_frame [OF v1] Cons.prems(1) by (auto simp: tq_frame_def)
    then have "\<exists>v'. each_tq (\<lambda>j v. map_option snd (on_tq_cq a j (suspend_endpoint jif (e j)) v)) a js v1 = Some v'"
      using Cons.IH [of v1 vd1] Cons.prems(2) by simp
    then show ?thesis using Cons.prems(1) True v1 by simp
  next
    case False
    then show ?thesis using Cons by simp
  qed
qed simp

lemma each_mapped_total:
  assumes "\<And>i v. i < 16 \<Longrightarrow> P v \<Longrightarrow> v_port_to_device v ! i \<noteq> 0 \<Longrightarrow> \<exists>v'. f i (v_port_to_device v ! i) v = Some v' \<and> P v'"
    and "\<And>v. P v \<Longrightarrow> length (v_port_to_device v) = 16" and "P v" and "set js \<subseteq> {..<16}"
  shows "\<exists>v'. each_mapped f js v = Some v' \<and> P v'"
  using assms(3,4)
proof (induction js arbitrary: v)
  case (Cons i js)
  have g: "arr_get (v_port_to_device v) i = Some (v_port_to_device v ! i)"
    using assms(2) [OF Cons.prems(1)] Cons.prems(2) by (simp add: arr_get_def)
  show ?case
  proof (cases "v_port_to_device v ! i = 0")
    case True
    then show ?thesis using Cons g by simp
  next
    case False
    then obtain v1 where v1: "f i (v_port_to_device v ! i) v = Some v1" "P v1"
      using assms(1) [OF _ Cons.prems(1) False] Cons.prems(2) by auto
    from Cons.IH [OF this(2)] Cons.prems(2) show ?thesis using False v1(1) g by simp
  qed
qed simp

lemma vhci_ok_length: "vhci_ok v \<Longrightarrow> length (v_port_to_device v) = 16"
  by (simp add: vhci_ok_def ports_ok_def)

lemma suspend_device_total:
  assumes ok: "vhci_ok v" and p: "i < 16" "v_port_to_device v ! i \<noteq> 0"
  shows "\<exists>v'. suspend_device env i (v_port_to_device v ! i) v = Some v' \<and> vhci_ok v'"
proof -
  obtain a vd where a: "arr_get (v_devices v) (unat (v_port_to_device v ! i)) = Some (Some a)" "v_vdevs v a = Some vd"
    using port_mapped(2) [OF ok p] by blast
  have "\<forall>j. bit (vd_tq_mask vd) j \<longrightarrow> vd_ptrs vd j \<noteq> None"
    using queues_okD(1) [OF ok [unfolded vhci_ok_def, THEN conjunct2, THEN conjunct1] a(2)] by blast
  with suspend_tqs_total [OF a(2)] obtain v' where
    v': "each_tq (\<lambda>j v. map_option snd (on_tq_cq a j (suspend_endpoint (pm_jif env) (pm_endpoint env i j)) v)) a [0..<32] v = Some v'"
    by blast
  have "tq_frame a v v'" by (rule each_tq_frame [OF _ v' a(2)]) (auto intro: on_tq_cq_frame)
  then have "vhci_ok v'" using tq_frame_ok ok by blast
  then show ?thesis using v' by (simp add: suspend_device_def a)
qed


section \<open>Recovery\<close>

lemma execute_flags [simp]:
  "vc_recovering (snd (bce_vhci_command_queue_execute env req t c)) = vc_recovering c"
  "vc_controller_dead (snd (bce_vhci_command_queue_execute env req t c)) = vc_controller_dead c"
proof -
  have w: "vc_controller_dead (snd (wait_delivered act ms x)) = vc_controller_dead x" for act ms x
    by (simp add: wait_delivered_def Let_def)
  have r: "vc_controller_dead (snd (snd (vc_reserve t' ws x))) = vc_controller_dead x" for t' ws x
    by (simp add: vc_reserve_def split: prod.split)
  have m: "vc_controller_dead (vc_write q x) = vc_controller_dead x" for q x by (simp add: vc_write_def)
  show "vc_recovering (snd (bce_vhci_command_queue_execute env req t c)) = vc_recovering c"
    "vc_controller_dead (snd (bce_vhci_command_queue_execute env req t c)) = vc_controller_dead c"
    by (simp_all add: bce_vhci_command_queue_execute_def split_beta Let_def w r m)
qed

text \<open>A command that nobody answers fails.\<close>

definition silent :: "exec_env \<Rightarrow> bool" where
  "silent env \<longleftrightarrow> ex_reply env = [] \<and> ex_cancel_reply env = []"

lemma silent_fails:
  assumes "silent env"
  shows "fst (bce_vhci_command_queue_execute env req t c) \<noteq> 0"
proof -
  have "\<not> fst (wait_delivered act [] x)" if "\<not> vc_completion x" for act x
    using that by (simp add: wait_delivered_def deliver_all_def Let_def)
  moreover have "\<not> vc_completion (snd (wait_delivered act ms x))" for act ms x
    by (simp add: wait_delivered_def Let_def)
  ultimately show ?thesis using assms
    by (simp add: bce_vhci_command_queue_execute_def silent_def split_beta Let_def)
qed

lemma controller_cmd_frame:
  assumes "controller_cmd c t env v = (st, v')"
  shows "v_recovery_fail_count v' = v_recovery_fail_count v" "v_last_recovery_jiffies v' = v_last_recovery_jiffies v"
    "vc_recovering (v_cq v') = vc_recovering (v_cq v)" "vc_controller_dead (v_cq v') = vc_controller_dead (v_cq v)"
    "v_port_to_device v' = v_port_to_device v" "v_port_suppress_connect_mask v' = v_port_suppress_connect_mask v"
    "v_watchdog v' = v_watchdog v" "v_port_count v' = v_port_count v"
  using assms execute_flags [of env "vhci_cmd c 0 0" t "v_cq v"]
  by (auto simp: controller_cmd_def run_cmd_def simp del: execute_flags split: prod.splits)

lemma marked_ports:
  assumes "each_mapped (\<lambda>i d v. Some (mark_reenumerate i v)) js v = Some v'"
  shows "v_port_to_device v' = v_port_to_device v \<and> v_cq v' = v_cq v \<and> v_recovery_fail_count v' = v_recovery_fail_count v
    \<and> v_port_suppress_connect_mask v' = v_port_suppress_connect_mask v \<and> v_watchdog v' = v_watchdog v
    \<and> v_last_recovery_jiffies v' = v_last_recovery_jiffies v \<and> v_port_count v' = v_port_count v
    \<and> (\<forall>i. i < 64 \<longrightarrow> bit (v_port_reenumerate_mask v) i \<or> (i \<in> set js \<and> v_port_to_device v ! i \<noteq> 0) \<longrightarrow> bit (v_port_reenumerate_mask v') i)
    \<and> (\<forall>i. i < 64 \<longrightarrow> bit (v_port_resume_mask v) i \<or> (i \<in> set js \<and> v_port_to_device v ! i \<noteq> 0) \<longrightarrow> bit (v_port_resume_mask v') i)"
  using assms
proof (induction js arbitrary: v)
  case (Cons i js)
  then have l: "i < length (v_port_to_device v)" by (auto simp: arr_get_def split: Option.bind_splits if_splits)
  show ?case
  proof (cases "v_port_to_device v ! i = 0")
    case True
    with Cons.prems l have "each_mapped (\<lambda>i d v. Some (mark_reenumerate i v)) js v = Some v'" by (simp add: arr_get_def)
    from Cons.IH [OF this] True show ?thesis by auto
  next
    case False
    with Cons.prems l have "each_mapped (\<lambda>i d v. Some (mark_reenumerate i v)) js (mark_reenumerate i v) = Some v'" by (simp add: arr_get_def)
    from Cons.IH [OF this] show ?thesis by (auto simp: mark_reenumerate_def bit_set_bit_iff)
  qed
qed simp

text \<open>
  The end of a recovery, by the answer of the device to the start of the controller. The suppressed
  ports stay suppressed.
\<close>

lemma recovery_restart_outcome:
  assumes "recovery_restart env v = Some v'"
  defines "st \<equiv> fst (controller_cmd BCE_VHCI_CMD_CONTROLLER_START (pm_jif env 5000) (pm_start_cmd env) v)"
  shows "\<not> vc_recovering (v_cq v') \<and> v_port_to_device v' = v_port_to_device v
    \<and> v_port_suppress_connect_mask v' = v_port_suppress_connect_mask v \<and> v_last_recovery_jiffies v' = v_last_recovery_jiffies v
    \<and> v_port_count v' = v_port_count v
    \<and> (v_watchdog v' \<longleftrightarrow> v_watchdog v \<or> \<not> vc_controller_dead (v_cq v'))
    \<and> v_recovery_fail_count v' = (if st = 0 then 0 else v_recovery_fail_count v + 1)
    \<and> (vc_controller_dead (v_cq v') \<longleftrightarrow> vc_controller_dead (v_cq v) \<or> (st \<noteq> 0 \<and> 3 \<le> v_recovery_fail_count v + 1))
    \<and> (st = 0 \<longrightarrow> (\<forall>i < 16. v_port_to_device v ! i \<noteq> 0 \<longrightarrow> bit (v_port_reenumerate_mask v') i \<and> bit (v_port_resume_mask v') i))"
proof -
  obtain s v1 where s: "controller_cmd BCE_VHCI_CMD_CONTROLLER_START (pm_jif env 5000) (pm_start_cmd env) v = (s, v1)"
    by (metis surj_pair)
  note f = controller_cmd_frame [OF s]
  have st: "st = s" by (simp add: st_def s)
  show ?thesis
  proof (cases "s = 0")
    case True
    then obtain v2 where m: "each_mapped (\<lambda>i d v. Some (mark_reenumerate i v)) [0..<16] (v1\<lparr>v_recovery_fail_count := 0\<rparr>) = Some v2"
      "v' = (if vc_controller_dead (v_cq v2) then set_recovering False (poll_rh_status v2)
        else (set_recovering False (poll_rh_status v2))\<lparr>v_watchdog := True\<rparr>)"
      using assms(1) s by (auto simp: recovery_restart_def set_recovering_def poll_rh_status_def Let_def split: Option.bind_splits)
    show ?thesis using marked_ports [OF m(1)] f True by (simp add: m(2) st set_recovering_def poll_rh_status_def)
  next
    case False
    then show ?thesis using assms(1) s f
      by (auto simp: recovery_restart_def recovery_failed_def set_recovering_def st Let_def split: if_splits)
  qed
qed

text \<open>Consecutive runs of the recovery worker; the environments are those of the runs.\<close>

primrec recoveries :: "(nat \<Rightarrow> pm_env) \<Rightarrow> nat \<Rightarrow> bce_vhci \<Rightarrow> bce_vhci option" where
  "recoveries env 0 v = Some v"
| "recoveries env (Suc n) v = Option.bind (recoveries env n v) (bce_vhci_recovery_w (env n))"

text \<open>The part of the state that decides whether the recovery goes on.\<close>

definition recovery_view :: "bce_vhci \<Rightarrow> u32 \<times> u64 \<times> bool \<times> bool" where
  "recovery_view v = (v_recovery_fail_count v, v_last_recovery_jiffies v, vc_recovering (v_cq v), vc_controller_dead (v_cq v))"

lemma on_tq_recovery_view: "on_tq a j f v = Some (r, v') \<Longrightarrow> recovery_view v' = recovery_view v"
  by (auto simp: on_tq_def recovery_view_def set_msg_queue_def Let_def split: Option.bind_splits if_splits)

lemma cancel_device_view:
  assumes "cancel_device i d v = Some v'"
  shows "recovery_view v' = recovery_view v"
proof -
  have "recovery_view v' = recovery_view v" if "each_tq (\<lambda>j v. map_option snd (on_tq a j f v)) a js v = Some v'" for a f js
    using that
    by (induction js arbitrary: v) (auto dest!: on_tq_recovery_view split: Option.bind_splits if_splits)
  then show ?thesis using assms by (auto simp: cancel_device_def split: Option.bind_splits option.splits)
qed

lemma recovery_run:
  assumes "\<not> vc_controller_dead (v_cq v)" "\<not> in_cooldown env v" "\<not> vc_recovering (v_cq v)"
    and works: "\<And>w. recovery_view (pm_works env w) = recovery_view w"
    and s: "silent (pm_start_cmd env)" and run: "bce_vhci_recovery_w env v = Some v'"
  shows "v_recovery_fail_count v' = v_recovery_fail_count v + 1 \<and> v_last_recovery_jiffies v' = pm_now env
    \<and> \<not> vc_recovering (v_cq v') \<and> (vc_controller_dead (v_cq v') \<longleftrightarrow> 3 \<le> v_recovery_fail_count v + 1)"
proof -
  let ?v0 = "(set_recovering True v)\<lparr>v_last_recovery_jiffies := pm_now env\<rparr>"
  obtain v1 st v2 where r: "each_mapped cancel_device [0..<16] ?v0 = Some v1"
    "controller_cmd BCE_VHCI_CMD_CONTROLLER_PAUSE (pm_jif env 2000) (pm_pause_cmd env) (pm_works env v1) = (st, v2)"
    "recovery_restart env (resume_event_queues env (flush_message_queues env (pause_event_queues env v2))) = Some v'"
    using run assms(1-3) by (auto simp: bce_vhci_recovery_w_def Let_def split: Option.bind_splits prod.splits)
  have "recovery_view v1 = recovery_view ?v0"
    by (rule each_mapped_keeps [OF _ r(1), where P = "\<lambda>w. recovery_view w = recovery_view ?v0"]) (auto simp: cancel_device_view)
  then have v1: "recovery_view (pm_works env v1) = (v_recovery_fail_count v, pm_now env, True, vc_controller_dead (v_cq v))"
    by (simp add: works) (simp add: recovery_view_def set_recovering_def)
  let ?u = "resume_event_queues env (flush_message_queues env (pause_event_queues env v2))"
  have u: "v_recovery_fail_count ?u = v_recovery_fail_count v" "v_last_recovery_jiffies ?u = pm_now env"
    "vc_controller_dead (v_cq ?u) = vc_controller_dead (v_cq v)"
    using controller_cmd_frame [OF r(2)] v1
    by (simp_all add: recovery_view_def resume_event_queues_def flush_message_queues_def pause_event_queues_def Let_def)
  have "fst (controller_cmd BCE_VHCI_CMD_CONTROLLER_START (pm_jif env 5000) (pm_start_cmd env) ?u) \<noteq> 0"
    using silent_fails [OF s] by (simp add: controller_cmd_def run_cmd_def split_beta)
  with recovery_restart_outcome [OF r(3)] u assms(1) show ?thesis by auto
qed

text \<open>
  Property C29. A controller whose device stays silent is given up: the third recovery in a row whose restart
  is not answered, each tried after the cooldown of the one before, marks the controller dead. From
  then on every command returns at once with \<open>-ENODEV\<close> and another recovery does nothing, so nobody
  waits for the device any more.
\<close>

theorem recovery_gives_up:
  assumes fresh: "\<not> vc_controller_dead (v_cq v)" "\<not> vc_recovering (v_cq v)" "v_recovery_fail_count v = 0" "\<not> in_cooldown (env 0) v"
    and silent: "\<And>k. silent (pm_start_cmd (env k))"
    and clock: "\<And>k. \<not> time_before (pm_now (env (Suc k))) (pm_now (env k) + of_nat (pm_jif (env (Suc k)) 10000))"
    and works: "\<And>k w. recovery_view (pm_works (env k) w) = recovery_view w"
    and run: "recoveries env 3 v = Some v'"
  shows "vc_controller_dead (v_cq v') \<and> bce_vhci_recovery_w e v' = Some v'
    \<and> bce_vhci_command_queue_execute x req t (v_cq v') = (- ENODEV, v_cq v')"
proof -
  obtain v1 v2 where r: "bce_vhci_recovery_w (env 0) v = Some v1" "bce_vhci_recovery_w (env 1) v1 = Some v2"
    "bce_vhci_recovery_w (env 2) v2 = Some v'"
    using run by (auto simp: numeral_3_eq_3 numeral_2_eq_2 split: Option.bind_splits)
  have cool: "\<not> in_cooldown (env (Suc k)) w" if "v_last_recovery_jiffies w = pm_now (env k)" for k w
    using clock [of k] that by (simp add: in_cooldown_def)
  have 1: "v_recovery_fail_count v1 = 1" "v_last_recovery_jiffies v1 = pm_now (env 0)" "\<not> vc_recovering (v_cq v1)"
    "\<not> vc_controller_dead (v_cq v1)"
    using recovery_run [OF fresh(1,4,2) works silent r(1)] fresh(3) by (auto simp: word_le_nat_alt)
  have 2: "v_recovery_fail_count v2 = 2" "v_last_recovery_jiffies v2 = pm_now (env 1)" "\<not> vc_recovering (v_cq v2)"
    "\<not> vc_controller_dead (v_cq v2)"
    using recovery_run [OF 1(4) _ 1(3) works silent r(2)] cool [OF 1(2)] 1(1) by (auto simp: word_le_nat_alt)
  have "vc_controller_dead (v_cq v')"
    using recovery_run [OF 2(4) _ 2(3) works silent r(3)] cool [OF 2(2)] 2(1) by (auto simp: numeral_2_eq_2 word_le_nat_alt)
  then show ?thesis by (simp add: bce_vhci_recovery_w_def bce_vhci_command_queue_execute_def)
qed

section \<open>What a recovery does not repair\<close>

text \<open>
  The watchdog leaves its next run to the recovery it schedules. A recovery within the cooldown of
  the one before returns at once, and then the watchdog is not armed again, although the controller
  is not dead and no recovery runs.
\<close>

theorem watchdog_lost_in_cooldown:
  assumes "\<not> vc_controller_dead (v_cq v)" and "\<not> vc_recovering (v_cq v)"
    and "fst (bce_vhci_cmd_port_status jif x 0 0 (v_cq v)) = - ETIMEDOUT"
    and "in_cooldown env (bce_vhci_watchdog_w jif x v)"
  shows "bce_vhci_recovery_w env (bce_vhci_watchdog_w jif x v) = Some (bce_vhci_watchdog_w jif x v)
    \<and> \<not> v_watchdog (bce_vhci_watchdog_w jif x v)
    \<and> \<not> vc_controller_dead (v_cq (bce_vhci_watchdog_w jif x v)) \<and> \<not> vc_recovering (v_cq (bce_vhci_watchdog_w jif x v))"
proof -
  obtain st res cq where c: "bce_vhci_cmd_port_status jif x 0 0 (v_cq v) = (st, res, cq)" by (metis prod_cases3)
  then have f: "vc_controller_dead cq = vc_controller_dead (v_cq v)" "vc_recovering cq = vc_recovering (v_cq v)"
    using execute_flags [of x _ _ "v_cq v"] by (auto simp: bce_vhci_cmd_port_status_def simp del: execute_flags split: prod.splits) (metis snd_conv)+
  have w: "bce_vhci_watchdog_w jif x v = schedule_recovery (v\<lparr>v_watchdog := False, v_cq := cq\<rparr>)"
    using assms(1-3) c by (simp add: bce_vhci_watchdog_w_def Let_def)
  show ?thesis using assms(1,2,4) f unfolding w by (simp add: bce_vhci_recovery_w_def schedule_recovery_def)
qed

text \<open>
  A resume that finds a recovery running returns at once and leaves it to the recovery. The recovery
  does not lift the suppression of the ports, so the changes the device reports for them
  are dropped afterwards.
\<close>

theorem deferred_resume_keeps_suppression:
  assumes "vc_recovering (v_cq v)" and "bit (v_port_suppress_connect_mask v) (unat port)" and "0 < port" and "port \<le> v_port_count v"
    and "recovery_restart env v = Some v'"
    and "vm_cmd msg = BCE_VHCI_CMD_PORT_STATUS_CHANGE" and "ucast (vm_param1 msg AND 0xff) = port"
  shows "bce_vhci_bus_resume env' v = Some (0, v) \<and> bce_vhci_handle_system_event hcd msg v' = v'"
  using assms recovery_restart_outcome [OF assms(5)]
  by (auto simp: bce_vhci_bus_resume_def bce_vhci_handle_system_event_def Let_def)

section \<open>Examples\<close>

text \<open>Surroundings in which nobody answers, the event queues are silent and time passes.\<close>

definition ex_silent :: exec_env where
  "ex_silent = \<lparr>ex_reserve = [], ex_reply = [], ex_ring = (\<lambda>q. q), ex_reserve_cancel = [], ex_cancel_reply = [],
     ex_ring_cancel = (\<lambda>q. q), ex_late = []\<rparr>"

definition ex_pm_env :: "u64 \<Rightarrow> exec_env \<Rightarrow> pm_env" where
  "ex_pm_env t c = \<lparr>pm_jif = (\<lambda>n. n), pm_now = t, pm_pause_cmd = c, pm_start_cmd = c,
     pm_port = (\<lambda>i. ex_answer_cmd BCE_VHCI_CMD_PORT_RESUME 0), pm_endpoint = (\<lambda>i j. ex_quiet_env),
     pm_dev = (\<lambda>i. (ex_vhci_env 3)\<lparr>ve_cmd := (\<lambda>n. if n = 0 then ex_answer_cmd BCE_VHCI_CMD_PORT_STATUS 4 else ex_silent)\<rparr>),
     pm_eq_pause = (\<lambda>k q. q), pm_eq_wait = (\<lambda>k. []), pm_eq_resume = (\<lambda>k q. q), pm_mq_flush = (\<lambda>k q. q), pm_works = (\<lambda>v. v)\<rparr>"

lemma each_mapped_none:
  assumes "v_port_to_device v = replicate 16 0" and "set js \<subseteq> {..<16}"
  shows "each_mapped f js v = Some v"
  using assms(2) by (induction js) (simp_all add: assms(1) arr_get_def)

lemma recovery_total:
  assumes p: "v_port_to_device v = replicate 16 0" and works: "\<And>w. v_port_to_device (pm_works env w) = v_port_to_device w"
  shows "\<exists>v'. bce_vhci_recovery_w env v = Some v' \<and> v_port_to_device v' = replicate 16 0"
proof -
  have sub: "set [0..<16] \<subseteq> {..<16 :: nat}" by auto
  have "\<exists>v'. recovery_restart env w = Some v'" if w: "v_port_to_device w = replicate 16 0" for w
  proof -
    obtain s w1 where s: "controller_cmd BCE_VHCI_CMD_CONTROLLER_START (pm_jif env 5000) (pm_start_cmd env) w = (s, w1)"
      by (metis surj_pair)
    have "v_port_to_device (w1\<lparr>v_recovery_fail_count := 0\<rparr>) = replicate 16 0" using controller_cmd_frame [OF s] w by simp
    from each_mapped_none [OF this sub] show ?thesis using s by (cases "s = 0") (simp_all add: recovery_restart_def Let_def)
  qed
  then have restart: "\<exists>v'. recovery_restart env w = Some v' \<and> v_port_to_device v' = replicate 16 0"
    if "v_port_to_device w = replicate 16 0" for w
    using that recovery_restart_outcome by metis
  let ?v0 = "(set_recovering True v)\<lparr>v_last_recovery_jiffies := pm_now env\<rparr>"
  have "each_mapped cancel_device [0..<16] ?v0 = Some ?v0"
    by (rule each_mapped_none [OF _ sub]) (simp add: p set_recovering_def)
  moreover obtain st v2 where c: "controller_cmd BCE_VHCI_CMD_CONTROLLER_PAUSE (pm_jif env 2000) (pm_pause_cmd env) (pm_works env ?v0) = (st, v2)"
    by (metis surj_pair)
  moreover have "v_port_to_device (resume_event_queues env (flush_message_queues env (pause_event_queues env v2))) = replicate 16 0"
    using controller_cmd_frame [OF c] works [of ?v0] p
    by (simp add: resume_event_queues_def flush_message_queues_def pause_event_queues_def set_recovering_def Let_def)
  from restart [OF this] calculation show ?thesis using p
    by (auto simp: bce_vhci_recovery_w_def Let_def)
qed

theorem recovery_gives_up_witness:
  "\<exists>v'. recoveries (\<lambda>k. ex_pm_env (of_nat (10000 * Suc k)) ex_silent) 3 ex_vhci = Some v' \<and> vc_controller_dead (v_cq v')"
proof -
  let ?e = "\<lambda>k. ex_pm_env (of_nat (10000 * Suc k)) ex_silent"
  have w: "pm_works (?e k) w = w" "pm_start_cmd (?e k) = ex_silent" "pm_now (?e k) = of_nat (10000 * Suc k)" "pm_jif (?e k) n = n" for k w n
    by (simp_all add: ex_pm_env_def)
  have "\<exists>v'. recoveries ?e n ex_vhci = Some v' \<and> v_port_to_device v' = replicate 16 0" for n
  proof (induction n)
    case 0
    then show ?case by (simp add: ex_vhci_def)
  next
    case (Suc n)
    then obtain u where "recoveries ?e n ex_vhci = Some u" "v_port_to_device u = replicate 16 0" by blast
    then show ?case using recovery_total [of u "?e n"] w(1) by simp
  qed
  then obtain v' where v': "recoveries ?e 3 ex_vhci = Some v'" by blast
  have "silent ex_silent" by (simp add: silent_def ex_silent_def)
  then have "vc_controller_dead (v_cq v') \<and> bce_vhci_recovery_w (?e 3) v' = Some v'
      \<and> bce_vhci_command_queue_execute ex_silent ex_req 1 (v_cq v') = (- ENODEV, v_cq v')"
    by (intro recovery_gives_up [where v = ex_vhci and env = ?e, OF _ _ _ _ _ _ _ v'])
      (simp_all add: ex_vhci_def ex_vcq_def in_cooldown_def ex_pm_env_def time_before_def algebra_simps)
  then show ?thesis using v' by blast
qed

text \<open>A device with its control endpoint, on a controller that answers nothing any more.\<close>

definition ex_vhci_queue :: bce_vhci where
  "ex_vhci_queue = ex_vhci_mapped\<lparr>v_cq := ex_vcq\<lparr>vc_controller_dead := True\<rparr>, v_hcpriv := [7 \<mapsto> (5, 0)],
     v_vdevs := [5 \<mapsto> (zero_device ex_mq)\<lparr>vd_tq_mask := 1, vd_ptrs := (\<lambda>i. Some \<lparr>tp_cq = 1, tp_in = None, tp_out = None\<rparr>),
       vd_endp := (\<lambda>i. Some 7)\<rparr>]\<rparr>"

lemma ex_vhci_queue_ok: "vhci_ok ex_vhci_queue"
proof -
  have "ports_ok (v_port_to_device ex_vhci_queue) (v_devices ex_vhci_queue) (dom (v_vdevs ex_vhci_queue))"
    using ex_vhci_mapped_ok by (simp add: vhci_ok_def ex_vhci_queue_def) (simp add: ex_vhci_mapped_def ex_vhci_def)
  moreover have "queues_ok (v_vdevs ex_vhci_queue) (v_hcpriv ex_vhci_queue)"
    by (auto simp: queues_ok_def ex_vhci_queue_def)
  ultimately show ?thesis by (simp add: vhci_ok_def ex_vhci_queue_def ex_vhci_mapped_def ex_vhci_def)
qed

lemma mapped_list: "(replicate 16 (0 :: u8))[1 := 2] = [0, 2, 0, 0, 0, 0, 0, 0, 0, 0, 0, 0, 0, 0, 0, 0]"
  by (simp add: numeral_eq_Suc)

lemma upt_sixteen: "[0..<16] = [0 :: nat, 1, 2, 3, 4, 5, 6, 7, 8, 9, 10, 11, 12, 13, 14, 15]"
  by (simp add: upt_rec)

lemma each_mapped_one:
  assumes "v_port_to_device v = (replicate 16 0)[1 := 2]" and "f 1 2 v = Some v'" and "v_port_to_device v' = v_port_to_device v"
  shows "each_mapped f [0..<16] v = Some v'"
  using assms unfolding upt_sixteen by (simp add: arr_get_def mapped_list)



end
