(* ===== verification/Vhci_Setup.thy ===== *)
theory Vhci_Setup
  imports Vhci_Hub
begin

text \<open>
  Creation and destruction of the virtual host controller with its queues (\<open>bce_vhci_create\<close>,
  \<open>bce_vhci_destroy\<close> and the functions for the message and event queues in \<open>src/vhci/vhci.c\<close>), and the
  shutdown of the driver (\<open>apple_bce_shutdown\<close> in \<open>src/apple_bce.c\<close>).

  The queues are destroyed in the order of their creation, so the first part follows the tables of the device
  through creations and destructions in any order. The coherent memory of a queue comes and goes with
  its submission queue.
\<close>

section \<open>Queues on the device table\<close>

text \<open>
  \<open>holds dev0 C Q dev\<close>: the tables of \<open>dev\<close> are those of \<open>dev0\<close> with the completion queues \<open>C\<close> and the
  submission queues \<open>Q\<close> added, in whatever order.
\<close>

definition holds :: "apple_bce_device \<Rightarrow> addr set \<Rightarrow> addr set \<Rightarrow> apple_bce_device \<Rightarrow> bool" where
  "holds dev0 C Q dev \<longleftrightarrow> lc_ok dev0 \<and> lc_ok dev
     \<and> (\<forall>k. dev_queue_at dev k = dev_queue_at dev0 k
          \<or> 2 \<le> k \<and> dev_queue_at dev0 k = None \<and> (\<exists>a \<in> C \<union> Q. dev_queue_at dev k = Some a))
     \<and> (\<forall>a \<in> C \<union> Q. dev_heap dev0 a = None \<and> dev_heap dev a \<noteq> None)
     \<and> C \<subseteq> set (dev_cq_list dev) \<and> Q \<inter> set (dev_cq_list dev) = {}
     \<and> filter (\<lambda>a. a \<notin> C) (dev_cq_list dev) = dev_cq_list dev0"

lemma holds_refl: "lc_ok dev \<Longrightarrow> holds dev {} {} dev"
  by (simp add: holds_def)

lemma holds_lc: "holds dev0 C Q dev \<Longrightarrow> lc_ok dev"
  by (simp add: holds_def)

lemma holds_same:
  assumes "holds dev0 {} {} dev"
  shows "same_tables dev0 dev"
proof -
  have lc: "lc_ok dev0" "lc_ok dev" and at: "\<And>k. dev_queue_at dev k = dev_queue_at dev0 k"
    and l: "dev_cq_list dev = dev_cq_list dev0" using assms by (auto simp: holds_def)
  have len: "length (dev_queues dev) = 256" "length (dev_queues dev0) = 256"
    using dev_okD(1) lc_okD(1) lc by blast+
  have "dev_queues dev = dev_queues dev0"
  proof (rule nth_equalityI)
    fix k assume "k < length (dev_queues dev)"
    then show "dev_queues dev ! k = dev_queues dev0 ! k" using at [of k] len by (simp add: dev_queue_at_def)
  qed (simp add: len)
  moreover have "dev_queue_ida dev = dev_queue_ida dev0" using lc_okD(3) [OF lc(1)] lc_okD(3) [OF lc(2)] at by simp
  ultimately show ?thesis using l by (simp add: same_tables_def)
qed

lemma holds_similar:
  assumes h: "holds dev0 C Q dev" and s: "dev_similar dev dev'"
  shows "holds dev0 C Q dev'"
proof -
  have t: "dev_queues dev' = dev_queues dev" "dev_cq_list dev' = dev_cq_list dev"
    and heap: "heap_similar (dev_heap dev) (dev_heap dev')" using s by (simp_all add: dev_similar_def)
  have "lc_ok dev'" using lc_ok_similar [OF holds_lc [OF h] s] .
  then show ?thesis using h t queue_at_cong [OF t(1)] heap_similarD(1) [OF heap] by (simp add: holds_def)
qed

lemma holds_fresh:
  assumes h: "holds dev0 C Q dev" and "dev_heap dev0 a = None" "a \<notin> C \<union> Q"
  shows "dev_heap dev a = None"
proof (rule ccontr)
  assume "dev_heap dev a \<noteq> None"
  then obtain k where k: "dev_queue_at dev k = Some a" using lc_okD(2) [OF holds_lc [OF h]] by blast
  then have "dev_queue_at dev0 k = Some a" using h assms(3) unfolding holds_def by (metis option.inject)
  then show False using lc_okD(2) [of dev0 a] h assms(2) by (auto simp: holds_def)
qed

lemma holds_create:
  assumes h: "holds dev0 C Q dev" and c: "creation_outcome listed dev (Some a) dev'" and a: "dev_heap dev0 a = None"
  shows "listed a = [a] \<Longrightarrow> holds dev0 (insert a C) Q dev'" "listed a = [] \<Longrightarrow> holds dev0 C (insert a Q) dev'"
proof -
  obtain k where k: "2 \<le> k" "k < 256" "dev_queue_at dev k = None" "dev_queues dev' = (dev_queues dev)[k := Some a]"
    and lc: "lc_ok dev'" and free: "dev_heap dev a = None" and l: "dev_cq_list dev' = dev_cq_list dev @ listed a"
    using c by (auto simp: creation_outcome_def)
  have len: "k < length (dev_queues dev)" using k(2) dev_okD(1) [OF lc_okD(1) [OF holds_lc [OF h]]] by simp
  have at: "dev_queue_at dev' j = (if j = k then Some a else dev_queue_at dev j)" for j
    by (rule queue_at_update [OF k(4) len])
  have "b \<in> C \<union> Q \<Longrightarrow> dev_heap dev b \<noteq> None" for b using h unfolding holds_def by blast
  then have new: "a \<notin> C \<union> Q" using free by blast
  have out: "a \<notin> set (dev_cq_list dev)" using dev_okD(5) [OF lc_okD(1) [OF holds_lc [OF h]], of a] free by auto
  have k0: "dev_queue_at dev0 k = None" using h k(3) by (auto simp: holds_def dest: spec [of _ k])
  have live: "dev_heap dev' b \<noteq> None" if b: "b = a \<or> dev_heap dev b \<noteq> None" for b
  proof (cases "b = a")
    case True
    then show ?thesis using at [of k] lc_okD(2) [OF lc, of a] by auto
  next
    case False
    then obtain j where j: "dev_queue_at dev j = Some b" using b lc_okD(2) [OF holds_lc [OF h], of b] by blast
    then have "dev_queue_at dev' j = Some b" using at [of j] k(3) by (cases "j = k") simp_all
    then show ?thesis using lc_okD(2) [OF lc, of b] by blast
  qed
  have pos: "dev_queue_at dev' j = dev_queue_at dev0 j
      \<or> 2 \<le> j \<and> dev_queue_at dev0 j = None \<and> (\<exists>b \<in> insert a (C \<union> Q). dev_queue_at dev' j = Some b)" for j
    using h at [of j] k(1) k0 by (auto simp: holds_def dest: spec [of _ j])
  have heaps: "\<forall>b \<in> insert a (C \<union> Q). dev_heap dev0 b = None \<and> dev_heap dev' b \<noteq> None"
    using h a live by (auto simp: holds_def)
  have filt: "filter (\<lambda>b. b \<notin> insert a C) (dev_cq_list dev) = filter (\<lambda>b. b \<notin> C) (dev_cq_list dev)"
    using out by (intro filter_cong) auto
  show "holds dev0 (insert a C) Q dev'" if "listed a = [a]"
    using h lc pos heaps filt new out l that by (auto simp: holds_def)
  show "holds dev0 C (insert a Q) dev'" if "listed a = []"
    using h lc pos heaps new out l that by (auto simp: holds_def)
qed

lemma holds_destroyed:
  assumes h: "holds dev0 C Q dev" and k: "dev_queue_at dev k = Some a" "a \<in> C \<union> Q" and d: "destroyed k a dev dev'"
  shows "holds dev0 (C - {a}) (Q - {a}) dev'"
proof -
  have lc: "lc_ok dev'" and q: "dev_queues dev' = (dev_queues dev)[k := None]" and l: "dev_cq_list dev' = remove1 a (dev_cq_list dev)"
    using d by (simp_all add: destroyed_def)
  note ok = dev_okD [OF lc_okD(1) [OF holds_lc [OF h]]]
  have len: "k < length (dev_queues dev)" using k(1) by (auto simp: dev_queue_at_def split: if_splits)
  have at: "dev_queue_at dev' j = (if j = k then None else dev_queue_at dev j)" for j by (rule queue_at_update [OF q len])
  have only: "dev_queue_at dev j = Some a \<Longrightarrow> j = k" for j
    using queue_at_inj [OF lc_okD(1) [OF holds_lc [OF h]] _ k(1)] by blast
  have k0: "dev_queue_at dev0 k = None"
  proof (rule ccontr)
    assume "dev_queue_at dev0 k \<noteq> None"
    then have "dev_queue_at dev0 k = Some a" using h k(1) by (auto simp: holds_def dest: spec [of _ k])
    then have "dev_heap dev0 a \<noteq> None" using lc_okD(2) [of dev0 a] h by (auto simp: holds_def)
    then show False using h k(2) by (auto simp: holds_def)
  qed
  have pos: "dev_queue_at dev' j = dev_queue_at dev0 j
      \<or> 2 \<le> j \<and> dev_queue_at dev0 j = None \<and> (\<exists>b \<in> (C - {a}) \<union> (Q - {a}). dev_queue_at dev' j = Some b)" for j
  proof (cases "j = k")
    case False
    then have "dev_queue_at dev j \<noteq> Some a" using only by blast
    then show ?thesis using h at [of j] False by (auto simp: holds_def dest: spec [of _ j])
  qed (use at k0 in simp)
  have live: "dev_heap dev' b \<noteq> None" if b: "b \<noteq> a" "dev_heap dev b \<noteq> None" for b
  proof -
    obtain j where "dev_queue_at dev j = Some b" using b(2) lc_okD(2) [OF holds_lc [OF h]] by blast
    then have "dev_queue_at dev' j = Some b" using at [of j] k(1) b(1) by (cases "j = k") auto
    then show ?thesis using lc_okD(2) [OF lc] by blast
  qed
  have dist: "distinct (dev_cq_list dev)" by (rule ok(4))
  have sets: "set (dev_cq_list dev') = set (dev_cq_list dev) - {a}" using l dist by simp
  have "filter (\<lambda>b. b \<notin> C - {a}) (dev_cq_list dev') = filter (\<lambda>b. b \<notin> C) (dev_cq_list dev')"
    using sets by (intro filter_cong) auto
  also have "\<dots> = dev_cq_list dev0"
  proof (cases "a \<in> C")
    case True
    then have "filter (\<lambda>b. b \<notin> C) (remove1 a (dev_cq_list dev)) = filter (\<lambda>b. b \<notin> C) (dev_cq_list dev)"
      using dist by (simp add: distinct_remove1_removeAll removeAll_filter_not_eq filter_filter) (intro filter_cong; auto)
    then show ?thesis using h l by (simp add: holds_def)
  next
    case False
    then have "a \<notin> set (dev_cq_list dev)" using h k(2) by (auto simp: holds_def)
    then show ?thesis using h l by (simp add: holds_def remove1_idem)
  qed
  finally show ?thesis using h lc pos live sets by (auto simp: holds_def)
qed

lemma holds_place:
  assumes h: "holds dev0 C Q dev" and a: "a \<in> C \<union> Q"
  obtains k where "dev_queue_at dev k = Some a" "2 \<le> k"
proof -
  have "dev_heap dev a \<noteq> None" "dev_heap dev0 a = None" using h a by (auto simp: holds_def)
  then obtain k where k: "dev_queue_at dev k = Some a" using lc_okD(2) [OF holds_lc [OF h]] by blast
  have "dev_queue_at dev0 k \<noteq> Some a" using \<open>dev_heap dev0 a = None\<close> lc_okD(2) [of dev0 a] h by (auto simp: holds_def)
  then have "2 \<le> k" using h k by (auto simp: holds_def dest: spec [of _ k])
  with k show ?thesis by (rule that)
qed

lemma holds_destroy_cq:
  assumes h: "holds dev0 C Q dev" and a: "a \<in> C" and env: "env_ok env"
  shows "holds dev0 (C - {a}) Q (bce_destroy_cq r env a dev)"
proof -
  obtain k where k: "dev_queue_at dev k = Some a" "2 \<le> k" using holds_place [OF h] a by blast
  have l: "a \<in> set (dev_cq_list dev)" "a \<notin> Q" using h a by (auto simp: holds_def)
  then obtain cq where "dev_heap dev a = Some (Queue_CQ cq)"
    using dev_okD(5) [OF lc_okD(1) [OF holds_lc [OF h]]] by blast
  then have "destroyed k a dev (bce_destroy_cq r env a dev)"
    using destroy_queue_effect [OF holds_lc [OF h] k env, of r] by simp
  from holds_destroyed [OF h k(1) _ this] a l show ?thesis by simp
qed

lemma holds_destroy_sq:
  assumes h: "holds dev0 C Q dev" and a: "a \<in> Q" and env: "env_ok env"
  shows "holds dev0 C (Q - {a}) (bce_destroy_sq r env a dev)"
proof -
  obtain k where k: "dev_queue_at dev k = Some a" "2 \<le> k" using holds_place [OF h] a by blast
  have l: "a \<notin> set (dev_cq_list dev)" "a \<notin> C" using h a by (auto simp: holds_def)
  then have "dev_heap dev a \<noteq> Some (Queue_CQ cq)" for cq using lc_okD(4) [OF holds_lc [OF h]] by blast
  then have "(case dev_heap dev a of Some (Queue_CQ cq) \<Rightarrow> bce_destroy_cq r env a dev
      | _ \<Rightarrow> bce_destroy_sq r env a dev) = bce_destroy_sq r env a dev"
    by (auto split: option.split bce_queue.split)
  then have "destroyed k a dev (bce_destroy_sq r env a dev)"
    using destroy_queue_effect [OF holds_lc [OF h] k env, of r] by simp
  from holds_destroyed [OF h k(1) _ this] a l show ?thesis by simp
qed

section \<open>The queues of the controller\<close>

text \<open>The objects that the allocator returns for a message queue.\<close>

definition mq_objs :: "mq_env \<Rightarrow> addr list" where
  "mq_objs e = (case al_obj (me_cq e) of None \<Rightarrow> [] | Some a \<Rightarrow> [a]) @ (case al_obj (me_sq e) of None \<Rightarrow> [] | Some a \<Rightarrow> [a])"

definition mq_commands_ok :: "mq_env \<Rightarrow> bool" where
  "mq_commands_ok e \<longleftrightarrow> env_ok (al_cmd (me_cq e)) \<and> env_ok (al_cmd (me_sq e)) \<and> env_ok (me_undo e)"

definition unused :: "apple_bce_device \<Rightarrow> addr set \<Rightarrow> addr list \<Rightarrow> bool" where
  "unused dev0 S as \<longleftrightarrow> distinct as \<and> set as \<inter> S = {} \<and> (\<forall>a \<in> set as. dev_heap dev0 a = None)"

lemma holds_create_cq:
  assumes h: "holds dev0 C Q dev" and ida: "ida_ok ida" and e: "env_ok (al_cmd al)" and n: "0 < n"
    and f: "unused dev0 (C \<union> Q) (case al_obj al of None \<Rightarrow> [] | Some a \<Rightarrow> [a])" and r: "bce_create_cq ida al n dev = (r, dev')"
  shows "case r of None \<Rightarrow> holds dev0 C Q dev' | Some a \<Rightarrow> al_obj al = Some a \<and> holds dev0 (insert a C) Q dev'"
proof -
  have "fresh_alloc al dev" using holds_fresh [OF h] f by (auto simp: fresh_alloc_def unused_def split: option.splits)
  from create_cq_keeps [OF holds_lc [OF h] ida e this n r] have c: "creation_outcome (\<lambda>a. [a]) dev r dev'" .
  show ?thesis
  proof (cases r)
    case None
    then show ?thesis using c holds_similar [OF h] by (simp add: creation_outcome_def)
  next
    case (Some a)
    have "al_obj al = Some a" using create_cq_object r Some by blast
    then show ?thesis using holds_create(1) [OF h, of "\<lambda>a. [a]"] c Some f by (simp add: unused_def)
  qed
qed

lemma create_sq_object:
  "bce_create_sq ida env cq name n dir compl ud dev = (Some a, dev') \<Longrightarrow> al_obj env = Some a"
  by (auto simp: bce_create_sq_def bce_create_sq_with_flags_def Let_def split: prod.splits if_splits option.splits)

lemma holds_create_sq:
  assumes h: "holds dev0 C Q dev" and ida: "ida_ok ida" and e: "env_ok (al_cmd al)"
    and f: "unused dev0 (C \<union> Q) (case al_obj al of None \<Rightarrow> [] | Some a \<Rightarrow> [a])"
    and r: "bce_create_sq ida al cq name n dir compl ud dev = (r, dev')"
  shows "case r of None \<Rightarrow> holds dev0 C Q dev' | Some a \<Rightarrow> al_obj al = Some a \<and> holds dev0 C (insert a Q) dev'"
proof -
  have "fresh_alloc al dev" using holds_fresh [OF h] f by (auto simp: fresh_alloc_def unused_def split: option.splits)
  from create_sq_keeps [OF holds_lc [OF h] ida e this r] have c: "creation_outcome (\<lambda>a. []) dev r dev'" by blast
  show ?thesis
  proof (cases r)
    case None
    then show ?thesis using c holds_similar [OF h] by (simp add: creation_outcome_def)
  next
    case (Some a)
    have "al_obj al = Some a" using create_sq_object r Some by blast
    then show ?thesis using holds_create(2) [OF h, of "\<lambda>a. []"] c Some f by (simp add: unused_def)
  qed
qed

lemma holds_undo:
  assumes "holds dev0 (insert c C) Q dev" and "c \<notin> C" and "env_ok env"
  shows "holds dev0 C Q (bce_destroy_cq r env c dev)"
  using holds_destroy_cq [OF assms(1) _ assms(3), of c] assms(2) by simp

lemma holds_undo_sq:
  assumes "holds dev0 C (insert s Q) dev" and "s \<notin> Q" and "env_ok env"
  shows "holds dev0 C Q (bce_destroy_sq r env s dev)"
  using holds_destroy_sq [OF assms(1) _ assms(3), of s] assms(2) by simp

lemma holds_message_queue:
  assumes h: "holds dev0 C Q dev" and ida: "ida_ok ida" and e: "mq_commands_ok e" and f: "unused dev0 (C \<union> Q) (mq_objs e)"
    and r: "bce_vhci_message_queue_create ida e name self dev = (st, q, dev')"
  shows "st \<noteq> 0 \<and> q = None \<and> holds dev0 C Q dev'
    \<or> (\<exists>c s d. st = 0 \<and> q = Some (c, s, d) \<and> mq_objs e = [c, s] \<and> holds dev0 (insert c C) (insert s Q) dev')"
proof -
  have fc: "unused dev0 (C \<union> Q) (case al_obj (me_cq e) of None \<Rightarrow> [] | Some a \<Rightarrow> [a])"
    using f by (auto simp: unused_def mq_objs_def split: option.splits)
  obtain rc dev1 where c: "bce_create_cq ida (me_cq e) VHCI_EVENT_QUEUE_EL_COUNT dev = (rc, dev1)" by (metis prod.exhaust)
  have hc: "case rc of None \<Rightarrow> holds dev0 C Q dev1 | Some a \<Rightarrow> al_obj (me_cq e) = Some a \<and> holds dev0 (insert a C) Q dev1"
    by (rule holds_create_cq [OF h ida _ _ fc c]) (use e in \<open>simp_all add: mq_commands_ok_def\<close>)
  show ?thesis
  proof (cases rc)
    case None
    then show ?thesis using r c hc by (auto simp: bce_vhci_message_queue_create_def)
  next
    case (Some a)
    then have a: "al_obj (me_cq e) = Some a" "holds dev0 (insert a C) Q dev1" "a \<notin> C"
      using hc f by (auto simp: unused_def mq_objs_def)
    have fs: "unused dev0 (insert a C \<union> Q) (case al_obj (me_sq e) of None \<Rightarrow> [] | Some a \<Rightarrow> [a])"
      using f a(1) by (auto simp: unused_def mq_objs_def split: option.splits)
    obtain rs dev2 where s: "bce_create_sq ida (me_sq e) (Some a) (Some name) VHCI_EVENT_QUEUE_EL_COUNT
      DMA_TO_DEVICE Cb_vhci_message_queue_completion self dev1 = (rs, dev2)" by (metis prod.exhaust)
    have hs: "case rs of None \<Rightarrow> holds dev0 (insert a C) Q dev2
        | Some b \<Rightarrow> al_obj (me_sq e) = Some b \<and> holds dev0 (insert a C) (insert b Q) dev2"
      by (rule holds_create_sq [OF a(2) ida _ fs s]) (use e in \<open>simp add: mq_commands_ok_def\<close>)
    have u: "env_ok (me_undo e)" using e by (simp add: mq_commands_ok_def)
    show ?thesis
    proof (cases rs)
      case None
      then show ?thesis using r c s Some hs holds_undo [OF _ a(3) u] by (auto simp: bce_vhci_message_queue_create_def)
    next
      case (Some b)
      then have b: "al_obj (me_sq e) = Some b" "holds dev0 (insert a C) (insert b Q) dev2" "b \<notin> Q"
        using hs f by (auto simp: unused_def mq_objs_def)
      have "holds dev0 C Q (bce_destroy_cq (me_undo_res e) (me_undo e) a (bce_destroy_sq (me_undo_res e) (me_undo e) b dev2))"
        by (intro holds_undo [OF holds_undo_sq [OF b(2,3) u] a(3) u])
      then show ?thesis using r c s \<open>rc = Some a\<close> Some a(1) b
        by (auto simp: bce_vhci_message_queue_create_def mq_objs_def split: option.splits)
    qed
  qed
qed

lemma submit_loop_qid: "sq_qid (eq_sq (submit_loop n q)) = sq_qid (eq_sq q)"
proof (induction n arbitrary: q)
  case (Suc n)
  show ?case
  proof (cases "submit_one q")
    case (Some q')
    obtain st t sq where r: "bce_reserve_submission None [] (eq_sq q) = (st, t, sq)" by (metis prod_cases3)
    have "sq_qid sq = sq_qid (eq_sq q)" by (rule reserve_keeps_qid [OF r]) (simp_all add: wakeups_keep_def)
    then have "sq_qid (eq_sq q') = sq_qid (eq_sq q)"
      using Some r by (auto simp: submit_one_def Let_def bce_next_submission_def sq_store_def split: if_splits)
    with Suc Some show ?thesis by simp
  qed simp
qed simp

lemma holds_event_queue:
  assumes h: "holds dev0 C Q dev" and ida: "ida_ok ida" and e: "mq_commands_ok e"
    and f: "unused dev0 (C \<union> Q) (case al_obj (me_sq e) of None \<Rightarrow> [] | Some a \<Rightarrow> [a])"
    and r: "bce_vhci_event_queue_create ida e cq name compl self dev = (st, q, dev')"
  shows "st \<noteq> 0 \<and> q = None \<and> holds dev0 C Q dev'
    \<or> (\<exists>s eq. st = 0 \<and> q = Some (s, eq) \<and> al_obj (me_sq e) = Some s \<and> holds dev0 C (insert s Q) dev')"
proof -
  obtain rs dev1 where s: "bce_create_sq ida (me_sq e) cq (Some name) VHCI_EVENT_QUEUE_EL_COUNT
    DMA_FROM_DEVICE compl self dev = (rs, dev1)" by (metis prod.exhaust)
  have hs: "case rs of None \<Rightarrow> holds dev0 C Q dev1 | Some b \<Rightarrow> al_obj (me_sq e) = Some b \<and> holds dev0 C (insert b Q) dev1"
    by (rule holds_create_sq [OF h ida _ f s]) (use e in \<open>simp add: mq_commands_ok_def\<close>)
  show ?thesis
  proof (cases rs)
    case None
    then show ?thesis using r s hs by (auto simp: bce_vhci_event_queue_create_def)
  next
    case (Some b)
    then have b: "al_obj (me_sq e) = Some b" "holds dev0 C (insert b Q) dev1" "b \<notin> Q"
      using hs f by (auto simp: unused_def)
    have "b \<notin> set (dev_cq_list dev1)" "dev_heap dev1 b \<noteq> None" using b(2) by (auto simp: holds_def)
    then obtain sq where sq: "dev_heap dev1 b = Some (Queue_SQ sq)"
      using lc_okD(4) [OF holds_lc [OF b(2)], of b] by (metis bce_queue.exhaust option.exhaust)
    show ?thesis
    proof (cases "me_dma e")
      case None
      have "holds dev0 C Q (bce_destroy_sq (me_undo_res e) (me_undo e) b dev1)"
        by (rule holds_undo_sq [OF b(2,3)]) (use e in \<open>simp add: mq_commands_ok_def\<close>)
      then show ?thesis using r s Some None by (auto simp: bce_vhci_event_queue_create_def)
    next
      case dma: (Some dma)
      let ?q = "eq_sq (event_queue_init sq dma)"
      have "sq_qid ?q = sq_qid sq"
        by (simp add: event_queue_init_def bce_vhci_event_queue_submit_pending_def Let_def submit_loop_qid)
      then have "dev_similar dev1 (set_sq b ?q dev1)"
        using sq by (auto simp: dev_similar_def set_sq_def heap_similar_def split: option.splits bce_queue.splits)
      from holds_similar [OF b(2) this] show ?thesis
        using r s Some dma sq b(1) by (auto simp: bce_vhci_event_queue_create_def sq_at_def Let_def)
    qed
  qed
qed

section \<open>The set-up\<close>

text \<open>
  What the surroundings answer: the error of \<open>device_create\<close>, the allocations and commands of the \<open>i\<close>-th
  message queue and the \<open>i\<close>-th event queue, the commands that unregister a queue, the workqueue and the
  structure of the USB core, and what happens to the controller while the USB core adds and removes it.
\<close>

record vhci_setup_env =
  vs_ida :: ida_alloc
  vs_vdev :: int
  vs_msg :: "nat \<Rightarrow> mq_env"
  vs_ev_cq :: alloc_env
  vs_ev :: "nat \<Rightarrow> mq_env"
  vs_undo_msg :: "nat \<Rightarrow> addr \<times> cmd_env"
  vs_undo_ev :: "nat \<Rightarrow> addr \<times> cmd_env"
  vs_undo_ev_cq :: "addr \<times> cmd_env"
  vs_self_msg :: "nat \<Rightarrow> addr"
  vs_self_ev :: "nat \<Rightarrow> addr"
  vs_wq :: bool
  vs_hcd :: bool

text \<open>
  The part of \<open>struct bce_vhci\<close> that the set-up fills. A message queue is given by the addresses of its queues
  and of its memory; \<open>su_vdev\<close>, \<open>su_wq\<close> and \<open>su_hcd\<close> say what is held.
\<close>

record vhci_setup =
  su_dev :: apple_bce_device
  su_vdev :: bool
  su_msgs :: "(addr \<times> addr \<times> u64) option list"
  su_cq :: bce_vhci_command_queue
  su_ev_cq :: "addr option"
  su_evs :: "(addr \<times> bce_vhci_event_queue) option list"
  su_wq :: bool
  su_hcd :: bool
  su_fw_events :: bool
  su_watchdog :: bool
  su_last_recovery_jiffies :: u64
  su_recovery_fail_count :: u32

type_synonym add_hcd = "vhci_setup \<Rightarrow> int \<times> vhci_setup"

definition name_bytes :: "string \<Rightarrow> u8 list" where
  "name_bytes s = map (\<lambda>c. of_char c) s"

definition message_queues :: "(nat \<times> u8 list) list" where
  "message_queues = enumerate 0 (map name_bytes [''VHC1HostCommands'', ''VHC1HostSystemEvents'', ''VHC1HostIsochronousEvents'',
     ''VHC1HostInterruptEvents'', ''VHC1HostAsynchronousEvents''])"

definition event_queues :: "(nat \<times> u8 list \<times> bce_sq_completion) list" where
  "event_queues = enumerate 0 [(name_bytes ''VHC1FirmwareCommands'', Cb_vhci_firmware_event_completion),
     (name_bytes ''VHC1FirmwareSystemEvents'', Cb_vhci_event_queue_completion),
     (name_bytes ''VHC1FirmwareIsochronousEvents'', Cb_vhci_event_queue_completion),
     (name_bytes ''VHC1FirmwareInterruptEvents'', Cb_vhci_event_queue_completion),
     (name_bytes ''VHC1FirmwareAsynchronousEvents'', Cb_vhci_event_queue_completion)]"

text \<open>The chain of creations: the first failure ends it, and the queues behind stay NULL.\<close>

fun create_msgs :: "vhci_setup_env \<Rightarrow> (nat \<times> u8 list) list \<Rightarrow> apple_bce_device
    \<Rightarrow> bool \<times> (addr \<times> addr \<times> u64) option list \<times> apple_bce_device" where
  "create_msgs env [] dev = (True, [], dev)"
| "create_msgs env ((i, name) # xs) dev =
     (let (st, q, dev1) = bce_vhci_message_queue_create (vs_ida env) (vs_msg env i) name (vs_self_msg env i) dev
      in if st \<noteq> 0 then (False, map (\<lambda>_. None) ((i, name) # xs), dev1)
         else let (ok, qs, dev2) = create_msgs env xs dev1 in (ok, q # qs, dev2))"

fun destroy_msgs :: "(nat \<Rightarrow> addr \<times> cmd_env) \<Rightarrow> (nat \<times> (addr \<times> addr \<times> u64) option) list \<Rightarrow> apple_bce_device \<Rightarrow> apple_bce_device" where
  "destroy_msgs undo [] dev = dev"
| "destroy_msgs undo ((i, q) # qs) dev =
     destroy_msgs undo qs (bce_vhci_message_queue_destroy (fst (undo i)) (snd (undo i)) q dev)"

definition bce_vhci_destroy_message_queues :: "vhci_setup_env \<Rightarrow> vhci_setup \<Rightarrow> vhci_setup" where
  "bce_vhci_destroy_message_queues env v =
     v\<lparr>su_cq := bce_vhci_command_queue_destroy (su_cq v),
       su_dev := destroy_msgs (vs_undo_msg env) (enumerate 0 (su_msgs v)) (su_dev v)\<rparr>"

text \<open>The command queue works on the first message queue, whose memory is zeroed.\<close>

definition attach_command_queue :: "vhci_setup \<Rightarrow> vhci_setup" where
  "attach_command_queue v =
     (case su_msgs v of
        Some (cq, sq, dma) # qs \<Rightarrow>
          (case sq_at (su_dev v) sq of
             Some q \<Rightarrow> v\<lparr>su_cq := bce_vhci_command_queue_create
               \<lparr>mq_sq = q, mq_data = replicate (unat VHCI_EVENT_QUEUE_EL_COUNT) zero_message, mq_dma_addr = dma\<rparr> (su_cq v)\<rparr>
           | None \<Rightarrow> v)
      | _ \<Rightarrow> v)"

definition bce_vhci_create_message_queues :: "vhci_setup_env \<Rightarrow> vhci_setup \<Rightarrow> int \<times> vhci_setup" where
  "bce_vhci_create_message_queues env v =
     (let (ok, qs, dev) = create_msgs env message_queues (su_dev v); v1 = v\<lparr>su_msgs := qs, su_dev := dev\<rparr>
      in if \<not> ok then (- EINVAL, bce_vhci_destroy_message_queues env v1) else (0, attach_command_queue v1))"

fun create_evs :: "vhci_setup_env \<Rightarrow> addr \<Rightarrow> (nat \<times> u8 list \<times> bce_sq_completion) list \<Rightarrow> apple_bce_device
    \<Rightarrow> bool \<times> (addr \<times> bce_vhci_event_queue) option list \<times> apple_bce_device" where
  "create_evs env cq [] dev = (True, [], dev)"
| "create_evs env cq ((i, name, compl) # xs) dev =
     (let (st, q, dev1) = bce_vhci_event_queue_create (vs_ida env) (vs_ev env i) (Some cq) name compl (vs_self_ev env i) dev
      in if st \<noteq> 0 then (False, map (\<lambda>_. None) ((i, name, compl) # xs), dev1)
         else let (ok, qs, dev2) = create_evs env cq xs dev1 in (ok, q # qs, dev2))"

fun destroy_evs :: "(nat \<Rightarrow> addr \<times> cmd_env) \<Rightarrow> (nat \<times> (addr \<times> bce_vhci_event_queue) option) list \<Rightarrow> apple_bce_device \<Rightarrow> apple_bce_device" where
  "destroy_evs undo [] dev = dev"
| "destroy_evs undo ((i, q) # qs) dev =
     destroy_evs undo qs (bce_vhci_event_queue_destroy (fst (undo i)) (snd (undo i)) (map_option fst q) dev)"

definition bce_vhci_destroy_event_queues :: "vhci_setup_env \<Rightarrow> vhci_setup \<Rightarrow> vhci_setup" where
  "bce_vhci_destroy_event_queues env v =
     (let dev = destroy_evs (vs_undo_ev env) (enumerate 0 (su_evs v)) (su_dev v) in
      v\<lparr>su_dev := (case su_ev_cq v of
          None \<Rightarrow> dev | Some cq \<Rightarrow> bce_destroy_cq (fst (vs_undo_ev_cq env)) (snd (vs_undo_ev_cq env)) cq dev)\<rparr>)"

definition bce_vhci_create_event_queues :: "vhci_setup_env \<Rightarrow> vhci_setup \<Rightarrow> int \<times> vhci_setup" where
  "bce_vhci_create_event_queues env v =
     (case bce_create_cq (vs_ida env) (vs_ev_cq env) 0x100 (su_dev v) of
        (None, dev) \<Rightarrow> (- EINVAL, v\<lparr>su_ev_cq := None, su_dev := dev\<rparr>)
      | (Some cq, dev) \<Rightarrow>
          (let (ok, qs, dev1) = create_evs env cq event_queues dev;
               v1 = v\<lparr>su_ev_cq := Some cq, su_evs := qs, su_dev := dev1\<rparr>
           in if \<not> ok then (- EINVAL, bce_vhci_destroy_event_queues env v1) else (0, v1)))"

text \<open>The labels of the error path, the last one first.\<close>

definition fail_mq :: "vhci_setup \<Rightarrow> vhci_setup" where
  "fail_mq v = v\<lparr>su_vdev := False\<rparr>"

definition fail_eq :: "vhci_setup_env \<Rightarrow> vhci_setup \<Rightarrow> vhci_setup" where
  "fail_eq env v = fail_mq (bce_vhci_destroy_message_queues env v)"

definition fail_wq :: "vhci_setup_env \<Rightarrow> vhci_setup \<Rightarrow> vhci_setup" where
  "fail_wq env v = fail_eq env (bce_vhci_destroy_event_queues env v)"

definition fail_hcd :: "vhci_setup_env \<Rightarrow> vhci_setup \<Rightarrow> vhci_setup" where
  "fail_hcd env v = fail_wq env (v\<lparr>su_wq := False\<rparr>)"

definition fail_add_hcd :: "vhci_setup_env \<Rightarrow> vhci_setup \<Rightarrow> vhci_setup" where
  "fail_add_hcd env v = fail_hcd env (v\<lparr>su_hcd := False\<rparr>)"

definition setup_status :: "int \<Rightarrow> int" where
  "setup_status st = (if st = 0 then - EINVAL else st)"

definition bce_vhci_create :: "vhci_setup_env \<Rightarrow> add_hcd \<Rightarrow> vhci_setup \<Rightarrow> int \<times> vhci_setup" where
  "bce_vhci_create env usb_add_hcd v =
     (if vs_vdev env \<noteq> 0 then (setup_status (vs_vdev env), v\<lparr>su_vdev := False\<rparr>)
      else
        let (st1, v1) = bce_vhci_create_message_queues env (v\<lparr>su_vdev := True\<rparr>) in
        if st1 \<noteq> 0 then (setup_status st1, fail_mq v1)
        else
          let (st2, v2) = bce_vhci_create_event_queues env v1 in
          if st2 \<noteq> 0 then (setup_status st2, fail_eq env v2)
          else if \<not> vs_wq env then (setup_status (- ENOMEM), fail_wq env v2)
          else
            let v3 = v2\<lparr>su_wq := True, su_fw_events := False, su_watchdog := False, su_last_recovery_jiffies := 0,
                  su_recovery_fail_count := 0, su_cq := (su_cq v2)\<lparr>vc_recovery_scheduled := False, vc_recovering := False,
                  vc_controller_dead := False\<rparr>\<rparr>
            in if \<not> vs_hcd env then (setup_status (- ENOMEM), fail_hcd env v3)
               else
                 let (st4, v4) = usb_add_hcd (v3\<lparr>su_hcd := True\<rparr>) in
                 if st4 \<noteq> 0 then (setup_status st4, fail_add_hcd env v4) else (0, v4))"

definition bce_vhci_destroy :: "vhci_setup_env \<Rightarrow> (vhci_setup \<Rightarrow> vhci_setup) \<Rightarrow> vhci_setup \<Rightarrow> vhci_setup" where
  "bce_vhci_destroy env usb_remove_hcd v =
     (let v1 = usb_remove_hcd v;
          v2 = v1\<lparr>su_cq := (su_cq v1)\<lparr>vc_controller_dead := True, vc_recovery_scheduled := False\<rparr>, su_watchdog := False,
            su_fw_events := False, su_wq := False\<rparr>;
          v3 = bce_vhci_destroy_message_queues env (bce_vhci_destroy_event_queues env v2)
      in v3\<lparr>su_vdev := False, su_hcd := False\<rparr>)"

section \<open>Sequences of queues\<close>

fun msg_addrs :: "(addr \<times> addr \<times> u64) option list \<Rightarrow> addr list" where
  "msg_addrs [] = []"
| "msg_addrs (None # qs) = msg_addrs qs"
| "msg_addrs (Some (c, s, d) # qs) = c # s # msg_addrs qs"

fun msg_cqs :: "(addr \<times> addr \<times> u64) option list \<Rightarrow> addr set" where
  "msg_cqs [] = {}"
| "msg_cqs (None # qs) = msg_cqs qs"
| "msg_cqs (Some (c, s, d) # qs) = insert c (msg_cqs qs)"

fun msg_sqs :: "(addr \<times> addr \<times> u64) option list \<Rightarrow> addr set" where
  "msg_sqs [] = {}"
| "msg_sqs (None # qs) = msg_sqs qs"
| "msg_sqs (Some (c, s, d) # qs) = insert s (msg_sqs qs)"

lemma msg_addrs_none [simp]: "msg_addrs (map (\<lambda>_. None) xs) = []" "msg_cqs (map (\<lambda>_. None) xs) = {}" "msg_sqs (map (\<lambda>_. None) xs) = {}"
  by (induction xs) simp_all

lemma set_msg_addrs: "set (msg_addrs qs) = msg_cqs qs \<union> msg_sqs qs"
  by (induction qs rule: msg_addrs.induct) auto

definition msg_objs :: "vhci_setup_env \<Rightarrow> (nat \<times> u8 list) list \<Rightarrow> addr list" where
  "msg_objs env xs = concat (map (\<lambda>x. mq_objs (vs_msg env (fst x))) xs)"

lemma unused_append: "unused d S (xs @ ys) \<Longrightarrow> unused d S xs \<and> unused d (S \<union> set xs) ys"
  by (auto simp: unused_def)

lemma holds_msgs:
  assumes "holds dev0 C Q dev" and "ida_ok (vs_ida env)" and "\<forall>i. mq_commands_ok (vs_msg env i)"
    and "unused dev0 (C \<union> Q) (msg_objs env xs)" and "create_msgs env xs dev = (ok, qs, dev')"
  shows "holds dev0 (C \<union> msg_cqs qs) (Q \<union> msg_sqs qs) dev' \<and> length qs = length xs
    \<and> distinct (msg_addrs qs) \<and> set (msg_addrs qs) \<subseteq> set (msg_objs env xs)"
  using assms
proof (induction xs arbitrary: C Q dev ok qs)
  case (Cons x xs)
  obtain i name where x: "x = (i, name)" by (cases x)
  obtain st q dev1 where r: "bce_vhci_message_queue_create (vs_ida env) (vs_msg env i) name (vs_self_msg env i) dev = (st, q, dev1)"
    by (metis prod_cases3)
  have objs: "msg_objs env (x # xs) = mq_objs (vs_msg env i) @ msg_objs env xs" by (simp add: msg_objs_def x)
  note u = unused_append [OF Cons.prems(4) [unfolded objs]]
  from holds_message_queue [OF Cons.prems(1,2) _ _ r, OF Cons.prems(3) [rule_format]] u
  consider (fail) "st \<noteq> 0" "holds dev0 C Q dev1"
    | (ok) c s d where "st = 0" "q = Some (c, s, d)" "mq_objs (vs_msg env i) = [c, s]" "holds dev0 (insert c C) (insert s Q) dev1"
    by blast
  then show ?case
  proof cases
    case fail
    then show ?thesis using Cons.prems(5) r x by auto
  next
    case ok
    obtain ok' qs' where r2: "create_msgs env xs dev1 = (ok', qs', dev')" and qs: "qs = q # qs'"
      using Cons.prems(5) r x ok(1) by (auto split: prod.splits)
    have u2: "unused dev0 (insert c C \<union> insert s Q) (msg_objs env xs)" using u ok(3) by (simp add: unused_def)
    note IH = Cons.IH [OF ok(4) Cons.prems(2,3) u2 r2]
    have "distinct [c, s]" "c \<notin> set (msg_objs env xs)" "s \<notin> set (msg_objs env xs)"
      using u ok(3) by (auto simp: unused_def)
    then show ?thesis using IH ok(2,3) unfolding qs objs by auto
  qed
qed (simp add: msg_objs_def)

lemma holds_destroy_msgs:
  assumes "holds dev0 C Q dev" and "\<forall>i. env_ok (snd (undo i))" and "distinct (msg_addrs qs)" and "msg_cqs qs \<subseteq> C" "msg_sqs qs \<subseteq> Q"
  shows "holds dev0 (C - msg_cqs qs) (Q - msg_sqs qs) (destroy_msgs undo (enumerate n qs) dev)"
  using assms
proof (induction qs arbitrary: C Q dev n rule: msg_addrs.induct)
  case (3 c s d qs)
  have e: "env_ok (snd (undo n))" using "3.prems"(2) by simp
  let ?d = "bce_vhci_message_queue_destroy (fst (undo n)) (snd (undo n)) (Some (c, s, d)) dev"
  have "holds dev0 (C - {c}) (Q - {s}) ?d"
    unfolding bce_vhci_message_queue_destroy_def option.case prod.case
    by (intro holds_destroy_cq holds_destroy_sq) (use "3.prems" e in auto)
  moreover have "c \<notin> msg_cqs qs" "s \<notin> msg_sqs qs" using "3.prems"(3) set_msg_addrs [of qs] by auto
  ultimately have "holds dev0 (C - {c} - msg_cqs qs) (Q - {s} - msg_sqs qs) (destroy_msgs undo (enumerate (Suc n) qs) ?d)"
    using "3.prems" by (intro "3.IH") auto
  moreover have "C - {c} - msg_cqs qs = C - msg_cqs (Some (c, s, d) # qs)" "Q - {s} - msg_sqs qs = Q - msg_sqs (Some (c, s, d) # qs)"
    by auto
  ultimately show ?case by simp
qed (simp_all add: bce_vhci_message_queue_destroy_def)

definition ev_objs :: "vhci_setup_env \<Rightarrow> (nat \<times> u8 list \<times> bce_sq_completion) list \<Rightarrow> addr list" where
  "ev_objs env xs = concat (map (\<lambda>x. case al_obj (me_sq (vs_ev env (fst x))) of None \<Rightarrow> [] | Some a \<Rightarrow> [a]) xs)"

definition ev_addrs :: "(addr \<times> bce_vhci_event_queue) option list \<Rightarrow> addr list" where
  "ev_addrs qs = map fst (concat (map (\<lambda>q. case q of None \<Rightarrow> [] | Some x \<Rightarrow> [x]) qs))"

lemma ev_addrs_simps [simp]:
  "ev_addrs [] = []" "ev_addrs (None # qs) = ev_addrs qs" "ev_addrs (Some x # qs) = fst x # ev_addrs qs"
  "ev_addrs (map (\<lambda>_. None) xs) = []"
proof -
  show "ev_addrs (map (\<lambda>_. None) xs) = []" by (induction xs) (simp_all add: ev_addrs_def)
qed (simp_all add: ev_addrs_def)

lemma holds_evs:
  assumes "holds dev0 C Q dev" and "ida_ok (vs_ida env)" and "\<forall>i. mq_commands_ok (vs_ev env i)"
    and "unused dev0 (C \<union> Q) (ev_objs env xs)" and "create_evs env cq xs dev = (ok, qs, dev')"
  shows "holds dev0 C (Q \<union> set (ev_addrs qs)) dev' \<and> length qs = length xs
    \<and> distinct (ev_addrs qs) \<and> set (ev_addrs qs) \<subseteq> set (ev_objs env xs)"
  using assms
proof (induction xs arbitrary: Q dev ok qs)
  case (Cons x xs)
  obtain i name compl where x: "x = (i, name, compl)" by (cases x)
  obtain st q dev1 where r: "bce_vhci_event_queue_create (vs_ida env) (vs_ev env i) (Some cq) name compl (vs_self_ev env i) dev = (st, q, dev1)"
    by (metis prod_cases3)
  let ?o = "case al_obj (me_sq (vs_ev env i)) of None \<Rightarrow> [] | Some a \<Rightarrow> [a]"
  have objs: "ev_objs env (x # xs) = ?o @ ev_objs env xs" by (simp add: ev_objs_def x)
  note u = unused_append [OF Cons.prems(4) [unfolded objs]]
  from holds_event_queue [OF Cons.prems(1,2) _ _ r, OF Cons.prems(3) [rule_format]] u
  consider (fail) "st \<noteq> 0" "holds dev0 C Q dev1"
    | (ok) s eq where "st = 0" "q = Some (s, eq)" "al_obj (me_sq (vs_ev env i)) = Some s" "holds dev0 C (insert s Q) dev1"
    by blast
  then show ?case
  proof cases
    case fail
    then show ?thesis using Cons.prems(5) r x by auto
  next
    case ok
    obtain ok' qs' where r2: "create_evs env cq xs dev1 = (ok', qs', dev')" and qs: "qs = q # qs'"
      using Cons.prems(5) r x ok(1) by (auto split: prod.splits)
    have u2: "unused dev0 (C \<union> insert s Q) (ev_objs env xs)" using u ok(3) by (simp add: unused_def)
    note IH = Cons.IH [OF ok(4) Cons.prems(2,3) u2 r2]
    have "s \<notin> set (ev_objs env xs)" using u ok(3) by (auto simp: unused_def)
    then show ?thesis using IH ok(2,3) unfolding qs objs by auto
  qed
qed (simp add: ev_objs_def)

lemma holds_destroy_evs:
  assumes "holds dev0 C Q dev" and "\<forall>i. env_ok (snd (undo i))" and "distinct (ev_addrs qs)" and "set (ev_addrs qs) \<subseteq> Q"
  shows "holds dev0 C (Q - set (ev_addrs qs)) (destroy_evs undo (enumerate n qs) dev)"
  using assms
proof (induction qs arbitrary: Q dev n)
  case (Cons q qs)
  show ?case
  proof (cases q)
    case None
    then show ?thesis using Cons by (simp add: bce_vhci_event_queue_destroy_def)
  next
    case (Some x)
    let ?d = "bce_vhci_event_queue_destroy (fst (undo n)) (snd (undo n)) (Some (fst x)) dev"
    have "holds dev0 C (Q - {fst x}) ?d"
      unfolding bce_vhci_event_queue_destroy_def option.case
      by (intro holds_destroy_sq) (use Cons.prems Some in auto)
    then have "holds dev0 C (Q - {fst x} - set (ev_addrs qs)) (destroy_evs undo (enumerate (Suc n) qs) ?d)"
      using Cons.prems Some by (intro Cons.IH) auto
    moreover have "Q - {fst x} - set (ev_addrs qs) = Q - set (ev_addrs (q # qs))" using Some by auto
    ultimately show ?thesis using Some by simp
  qed
qed simp

section \<open>The set-up is balanced\<close>

text \<open>
  The allocator returns no live object and none twice, commands of other contexts keep the ids of the queues,
  and adding or removing the controller at the USB core works on its queues without creating or
  destroying any.
\<close>

definition setup_objs :: "vhci_setup_env \<Rightarrow> addr list" where
  "setup_objs env = msg_objs env message_queues @ (case al_obj (vs_ev_cq env) of None \<Rightarrow> [] | Some a \<Rightarrow> [a]) @ ev_objs env event_queues"

definition undo_env_ok :: "vhci_setup_env \<Rightarrow> bool" where
  "undo_env_ok env \<longleftrightarrow> (\<forall>i. env_ok (snd (vs_undo_msg env i))) \<and> (\<forall>i. env_ok (snd (vs_undo_ev env i)))
     \<and> env_ok (snd (vs_undo_ev_cq env))"

definition setup_env_ok :: "vhci_setup_env \<Rightarrow> apple_bce_device \<Rightarrow> bool" where
  "setup_env_ok env dev \<longleftrightarrow> ida_ok (vs_ida env) \<and> (\<forall>i. mq_commands_ok (vs_msg env i)) \<and> (\<forall>i. mq_commands_ok (vs_ev env i))
     \<and> env_ok (al_cmd (vs_ev_cq env)) \<and> undo_env_ok env \<and> unused dev {} (setup_objs env)"

definition hcd_frame :: "vhci_setup \<Rightarrow> vhci_setup \<Rightarrow> bool" where
  "hcd_frame v v' \<longleftrightarrow> dev_similar (su_dev v) (su_dev v') \<and> su_msgs v' = su_msgs v \<and> su_ev_cq v' = su_ev_cq v
     \<and> map (map_option fst) (su_evs v') = map (map_option fst) (su_evs v)
     \<and> su_vdev v' = su_vdev v \<and> su_wq v' = su_wq v \<and> su_hcd v' = su_hcd v"

lemma ev_addrs_cong: "map (map_option fst) qs' = map (map_option fst) qs \<Longrightarrow> ev_addrs qs' = ev_addrs qs"
proof (induction qs arbitrary: qs')
  case (Cons q qs)
  obtain q' r where r: "qs' = q' # r" using Cons.prems by (cases qs') simp_all
  then have q: "map_option fst q' = map_option fst q" and "map (map_option fst) r = map (map_option fst) qs"
    using Cons.prems by simp_all
  with Cons.IH have "ev_addrs r = ev_addrs qs" by blast
  with r q show ?case by (cases q; cases q') simp_all
qed simp

text \<open>The queues a controller has.\<close>

definition has_queues :: "apple_bce_device \<Rightarrow> vhci_setup \<Rightarrow> bool" where
  "has_queues dev0 v \<longleftrightarrow> holds dev0 (msg_cqs (su_msgs v) \<union> set_option (su_ev_cq v)) (msg_sqs (su_msgs v) \<union> set (ev_addrs (su_evs v))) (su_dev v)
     \<and> distinct (msg_addrs (su_msgs v) @ (case su_ev_cq v of None \<Rightarrow> [] | Some a \<Rightarrow> [a]) @ ev_addrs (su_evs v))"

lemma has_queues_frame:
  assumes "has_queues dev0 v" and "hcd_frame v v'"
  shows "has_queues dev0 v'"
  using assms holds_similar ev_addrs_cong [of "su_evs v'" "su_evs v"] by (auto simp: has_queues_def hcd_frame_def)

lemma undo_event_queues:
  assumes q: "has_queues dev0 v" and u: "undo_env_ok env"
  shows "holds dev0 (msg_cqs (su_msgs v)) (msg_sqs (su_msgs v)) (su_dev (bce_vhci_destroy_event_queues env v))"
proof -
  have e: "\<forall>i. env_ok (snd (vs_undo_ev env i))" "env_ok (snd (vs_undo_ev_cq env))" using u by (simp_all add: undo_env_ok_def)
  let ?C = "msg_cqs (su_msgs v)" and ?Q = "msg_sqs (su_msgs v)" and ?d = "destroy_evs (vs_undo_ev env) (enumerate 0 (su_evs v)) (su_dev v)"
  have h: "holds dev0 (?C \<union> set_option (su_ev_cq v)) (?Q \<union> set (ev_addrs (su_evs v))) (su_dev v)"
    and d: "distinct (msg_addrs (su_msgs v) @ (case su_ev_cq v of None \<Rightarrow> [] | Some a \<Rightarrow> [a]) @ ev_addrs (su_evs v))"
    using q by (simp_all add: has_queues_def)
  have "holds dev0 (?C \<union> set_option (su_ev_cq v)) (?Q \<union> set (ev_addrs (su_evs v)) - set (ev_addrs (su_evs v))) ?d"
    by (rule holds_destroy_evs [OF h e(1)]) (use d in auto)
  moreover have "?Q \<union> set (ev_addrs (su_evs v)) - set (ev_addrs (su_evs v)) = ?Q"
    using d set_msg_addrs [of "su_msgs v"] by auto
  ultimately have h1: "holds dev0 (?C \<union> set_option (su_ev_cq v)) ?Q ?d" by simp
  show ?thesis
  proof (cases "su_ev_cq v")
    case None
    then show ?thesis using h1 by (simp add: bce_vhci_destroy_event_queues_def Let_def)
  next
    case (Some cq)
    have "cq \<notin> ?C" using d Some set_msg_addrs [of "su_msgs v"] by auto
    then show ?thesis using h1 Some holds_undo [OF _ _ e(2)] by (simp add: bce_vhci_destroy_event_queues_def Let_def)
  qed
qed

lemma undo_message_queues:
  assumes h: "holds dev0 (msg_cqs (su_msgs v)) (msg_sqs (su_msgs v)) (su_dev v)" and d: "distinct (msg_addrs (su_msgs v))"
    and e: "undo_env_ok env"
  shows "same_tables dev0 (su_dev (bce_vhci_destroy_message_queues env v))"
  using holds_same holds_destroy_msgs [OF h _ d subset_refl subset_refl, of "vs_undo_msg env" 0] e
  by (simp add: bce_vhci_destroy_message_queues_def undo_env_ok_def)

lemma undo_frame [simp]:
  "su_msgs (bce_vhci_destroy_event_queues env v) = su_msgs v" "su_vdev (bce_vhci_destroy_event_queues env v) = su_vdev v"
  "su_wq (bce_vhci_destroy_event_queues env v) = su_wq v" "su_hcd (bce_vhci_destroy_event_queues env v) = su_hcd v"
  "su_cq (bce_vhci_destroy_event_queues env v) = su_cq v" "su_watchdog (bce_vhci_destroy_event_queues env v) = su_watchdog v"
  "su_fw_events (bce_vhci_destroy_event_queues env v) = su_fw_events v"
  "su_msgs (bce_vhci_destroy_message_queues env v) = su_msgs v" "su_vdev (bce_vhci_destroy_message_queues env v) = su_vdev v"
  "su_wq (bce_vhci_destroy_message_queues env v) = su_wq v" "su_hcd (bce_vhci_destroy_message_queues env v) = su_hcd v"
  "su_watchdog (bce_vhci_destroy_message_queues env v) = su_watchdog v"
  "su_fw_events (bce_vhci_destroy_message_queues env v) = su_fw_events v"
  by (simp_all add: bce_vhci_destroy_event_queues_def bce_vhci_destroy_message_queues_def Let_def)

lemma attach_frame [simp]:
  "su_dev (attach_command_queue v) = su_dev v" "su_msgs (attach_command_queue v) = su_msgs v"
  "su_vdev (attach_command_queue v) = su_vdev v" "su_wq (attach_command_queue v) = su_wq v" "su_hcd (attach_command_queue v) = su_hcd v"
  "su_ev_cq (attach_command_queue v) = su_ev_cq v" "su_evs (attach_command_queue v) = su_evs v"
  by (auto simp: attach_command_queue_def split: list.splits option.splits)

text \<open>Everything the controller held is given back.\<close>

definition nothing_held :: "apple_bce_device \<Rightarrow> vhci_setup \<Rightarrow> bool" where
  "nothing_held dev0 v \<longleftrightarrow> same_tables dev0 (su_dev v) \<and> \<not> su_vdev v \<and> \<not> su_wq v \<and> \<not> su_hcd v"

lemma undo_all_queues:
  assumes "has_queues dev0 v" and "undo_env_ok env"
  shows "same_tables dev0 (su_dev (bce_vhci_destroy_message_queues env (bce_vhci_destroy_event_queues env v)))"
proof -
  let ?v = "bce_vhci_destroy_event_queues env v"
  have "holds dev0 (msg_cqs (su_msgs ?v)) (msg_sqs (su_msgs ?v)) (su_dev ?v)"
    using undo_event_queues [OF assms] by simp
  then show ?thesis by (rule undo_message_queues) (use assms in \<open>simp_all add: has_queues_def\<close>)
qed

lemma fail_wq_undoes:
  assumes "has_queues dev0 v" and "undo_env_ok env" and "\<not> su_wq v" "\<not> su_hcd v"
  shows "nothing_held dev0 (fail_wq env v)"
  using undo_all_queues [OF assms(1,2)] assms(3,4) by (simp add: nothing_held_def fail_wq_def fail_eq_def fail_mq_def)

lemma message_queues_created:
  assumes lc: "lc_ok (su_dev v)" and e: "setup_env_ok env (su_dev v)" and r: "bce_vhci_create_message_queues env v = (st, v')"
  shows "su_vdev v' = su_vdev v" "su_wq v' = su_wq v" "su_hcd v' = su_hcd v" "su_ev_cq v' = su_ev_cq v" "su_evs v' = su_evs v"
    and "st \<noteq> 0 \<Longrightarrow> same_tables (su_dev v) (su_dev v')"
    and "st = 0 \<Longrightarrow> holds (su_dev v) (msg_cqs (su_msgs v')) (msg_sqs (su_msgs v')) (su_dev v') \<and> distinct (msg_addrs (su_msgs v'))
      \<and> set (msg_addrs (su_msgs v')) \<subseteq> set (msg_objs env message_queues)"
proof -
  obtain ok qs dev where c: "create_msgs env message_queues (su_dev v) = (ok, qs, dev)" by (metis prod_cases3)
  have "unused (su_dev v) ({} \<union> {}) (msg_objs env message_queues)"
    using e unused_append by (auto simp: setup_env_ok_def setup_objs_def)
  from holds_msgs [OF holds_refl [OF lc] _ _ this c] e
  have h: "holds (su_dev v) (msg_cqs qs) (msg_sqs qs) dev" "distinct (msg_addrs qs)" "set (msg_addrs qs) \<subseteq> set (msg_objs env message_queues)"
    by (simp_all add: setup_env_ok_def)
  let ?v = "v\<lparr>su_msgs := qs, su_dev := dev\<rparr>"
  have v': "(st, v') = (if ok then (0, attach_command_queue ?v) else (- EINVAL, bce_vhci_destroy_message_queues env ?v))"
    using r c by (simp add: bce_vhci_create_message_queues_def Let_def split: if_splits)
  have d: "su_ev_cq (bce_vhci_destroy_message_queues env ?v) = su_ev_cq v" "su_evs (bce_vhci_destroy_message_queues env ?v) = su_evs v"
    by (simp_all add: bce_vhci_destroy_message_queues_def)
  show "su_vdev v' = su_vdev v" "su_wq v' = su_wq v" "su_hcd v' = su_hcd v" "su_ev_cq v' = su_ev_cq v" "su_evs v' = su_evs v"
    using v' d by (cases ok; simp)+
  have "same_tables (su_dev v) (su_dev (bce_vhci_destroy_message_queues env ?v))"
    using e by (intro undo_message_queues) (use h in \<open>simp_all add: setup_env_ok_def\<close>)
  then show "st \<noteq> 0 \<Longrightarrow> same_tables (su_dev v) (su_dev v')" using v' by (cases ok) simp_all
  show "st = 0 \<Longrightarrow> holds (su_dev v) (msg_cqs (su_msgs v')) (msg_sqs (su_msgs v')) (su_dev v') \<and> distinct (msg_addrs (su_msgs v'))
      \<and> set (msg_addrs (su_msgs v')) \<subseteq> set (msg_objs env message_queues)"
    using v' h by (cases ok) simp_all
qed

lemma event_queues_created:
  assumes h: "holds dev0 (msg_cqs (su_msgs v)) (msg_sqs (su_msgs v)) (su_dev v)" "distinct (msg_addrs (su_msgs v))"
      "set (msg_addrs (su_msgs v)) \<subseteq> set (msg_objs env message_queues)"
    and e: "setup_env_ok env dev0" and r: "bce_vhci_create_event_queues env v = (st, v')"
  shows "su_vdev v' = su_vdev v" "su_wq v' = su_wq v" "su_hcd v' = su_hcd v" "su_msgs v' = su_msgs v"
    and "st \<noteq> 0 \<Longrightarrow> holds dev0 (msg_cqs (su_msgs v')) (msg_sqs (su_msgs v')) (su_dev v')" and "st = 0 \<Longrightarrow> has_queues dev0 v'"
proof -
  let ?C = "msg_cqs (su_msgs v)" and ?Q = "msg_sqs (su_msgs v)"
  let ?o = "case al_obj (vs_ev_cq env) of None \<Rightarrow> [] | Some a \<Rightarrow> [a]"
  have u: "unused dev0 {} (msg_objs env message_queues @ ?o @ ev_objs env event_queues)"
    using e by (simp add: setup_env_ok_def setup_objs_def)
  have uc: "unused dev0 (?C \<union> ?Q) ?o" and ue: "unused dev0 (?C \<union> ?Q \<union> set ?o) (ev_objs env event_queues)"
    using u h(3) by (auto simp: unused_def set_msg_addrs)
  obtain rc dev where c: "bce_create_cq (vs_ida env) (vs_ev_cq env) 0x100 (su_dev v) = (rc, dev)" by (metis prod.exhaust)
  have hc: "case rc of None \<Rightarrow> holds dev0 ?C ?Q dev | Some a \<Rightarrow> al_obj (vs_ev_cq env) = Some a \<and> holds dev0 (insert a ?C) ?Q dev"
    by (rule holds_create_cq [OF h(1) _ _ _ uc c]) (use e in \<open>simp_all add: setup_env_ok_def\<close>)
  have "su_vdev v' = su_vdev v \<and> su_wq v' = su_wq v \<and> su_hcd v' = su_hcd v \<and> su_msgs v' = su_msgs v
    \<and> (st \<noteq> 0 \<longrightarrow> holds dev0 ?C ?Q (su_dev v')) \<and> (st = 0 \<longrightarrow> has_queues dev0 v')"
  proof (cases rc)
    case None
    then show ?thesis using r c hc by (auto simp: bce_vhci_create_event_queues_def)
  next
    case (Some a)
    then have a: "al_obj (vs_ev_cq env) = Some a" "holds dev0 (insert a ?C) ?Q dev" using hc by auto
    obtain ok qs dev1 where ce: "create_evs env a event_queues dev = (ok, qs, dev1)" by (metis prod_cases3)
    have "unused dev0 (insert a ?C \<union> ?Q) (ev_objs env event_queues)" using ue a(1) by (simp add: unused_def)
    from holds_evs [OF a(2) _ _ this ce] e
    have he: "holds dev0 (insert a ?C) (?Q \<union> set (ev_addrs qs)) dev1" "distinct (ev_addrs qs)"
      "set (ev_addrs qs) \<subseteq> set (ev_objs env event_queues)" by (simp_all add: setup_env_ok_def)
    let ?v = "v\<lparr>su_ev_cq := Some a, su_evs := qs, su_dev := dev1\<rparr>"
    have "a \<notin> set (msg_addrs (su_msgs v))" "a \<notin> set (ev_addrs qs)" "set (msg_addrs (su_msgs v)) \<inter> set (ev_addrs qs) = {}"
      using uc ue he(3) a(1) by (auto simp: unused_def set_msg_addrs)
    then have q: "has_queues dev0 ?v" using he(1,2) h(2) by (auto simp: has_queues_def)
    have "holds dev0 ?C ?Q (su_dev (bce_vhci_destroy_event_queues env ?v))"
      using undo_event_queues [OF q] e by (simp add: setup_env_ok_def)
    then show ?thesis using r c Some ce q by (cases ok) (auto simp: bce_vhci_create_event_queues_def Let_def)
  qed
  then show "su_vdev v' = su_vdev v" "su_wq v' = su_wq v" "su_hcd v' = su_hcd v" "su_msgs v' = su_msgs v"
    "st \<noteq> 0 \<Longrightarrow> holds dev0 (msg_cqs (su_msgs v')) (msg_sqs (su_msgs v')) (su_dev v')" "st = 0 \<Longrightarrow> has_queues dev0 v'" by auto
qed

lemma setup_status_nonzero [simp]: "setup_status st \<noteq> 0"
  by (simp add: setup_status_def)

lemma has_queues_cong:
  "su_dev v' = su_dev v \<Longrightarrow> su_msgs v' = su_msgs v \<Longrightarrow> su_ev_cq v' = su_ev_cq v \<Longrightarrow> su_evs v' = su_evs v
    \<Longrightarrow> has_queues dev0 v \<Longrightarrow> has_queues dev0 v'"
  by (simp add: has_queues_def)

lemma destroy_undoes:
  assumes q: "has_queues dev0 v" and u: "undo_env_ok env" and f: "hcd_frame v (remove v)"
  shows "nothing_held dev0 (bce_vhci_destroy env remove v)" and "\<not> su_watchdog (bce_vhci_destroy env remove v)"
    "\<not> su_fw_events (bce_vhci_destroy env remove v)" "\<not> vc_recovery_scheduled (su_cq (bce_vhci_destroy env remove v))"
proof -
  let ?v = "(remove v)\<lparr>su_cq := (su_cq (remove v))\<lparr>vc_controller_dead := True, vc_recovery_scheduled := False\<rparr>, su_watchdog := False,
            su_fw_events := False, su_wq := False\<rparr>"
  have "has_queues dev0 ?v" by (rule has_queues_cong [OF _ _ _ _ has_queues_frame [OF q f]]) simp_all
  from undo_all_queues [OF this u] show "nothing_held dev0 (bce_vhci_destroy env remove v)"
    by (simp add: nothing_held_def bce_vhci_destroy_def Let_def)
  show "\<not> su_watchdog (bce_vhci_destroy env remove v)" "\<not> su_fw_events (bce_vhci_destroy env remove v)"
    by (simp_all add: bce_vhci_destroy_def Let_def)
  show "\<not> vc_recovery_scheduled (su_cq (bce_vhci_destroy env remove v))"
    by (simp add: bce_vhci_destroy_def Let_def bce_vhci_destroy_message_queues_def bce_vhci_command_queue_destroy_def)
qed


text \<open>
  The error path does not cancel the works that adding the controller may have queued: a start that timed out
  has scheduled the recovery worker, and it stays scheduled when the set-up fails.
\<close>

lemma vhci_create_leaves_recovery:
  assumes "bce_vhci_create env add_hcd v = (st, v')" and "vs_vdev env = 0" and "vs_wq env" "vs_hcd env"
    and m: "bce_vhci_create_message_queues env (v\<lparr>su_vdev := True\<rparr>) = (0, v1)" and e: "bce_vhci_create_event_queues env v1 = (0, v2)"
    and add: "\<And>x. fst (add_hcd x) \<noteq> 0 \<and> vc_recovery_scheduled (su_cq (snd (add_hcd x)))"
  shows "st \<noteq> 0 \<and> vc_recovery_scheduled (su_cq v')"
  using assms add
  by (auto simp: bce_vhci_create_def Let_def split_beta fail_add_hcd_def fail_hcd_def fail_wq_def fail_eq_def fail_mq_def
      bce_vhci_destroy_message_queues_def bce_vhci_command_queue_destroy_def split: if_splits)

section \<open>Shutdown\<close>

text \<open>\<open>running\<close> is the callback of the timestamp timer that may run while it is deleted; \<open>drvdata\<close> may be NULL.\<close>

definition apple_bce_shutdown :: "vhci_env \<Rightarrow> (bce_timestamp \<Rightarrow> bce_timestamp) \<Rightarrow> bce_vhci option \<Rightarrow> bce_vhci option" where
  "apple_bce_shutdown env running drvdata =
     (case drvdata of
        None \<Rightarrow> None
      | Some v \<Rightarrow>
          let v1 = v\<lparr>v_dev := (v_dev v)\<lparr>dev_is_being_removed := True\<rparr>,
                v_cq := (v_cq v)\<lparr>vc_controller_dead := True, vc_recovery_scheduled := False\<rparr>\<rparr>;
              v2 = bce_vhci_stop env v1
          in Some (v2\<lparr>v_dev := (v_dev v2)\<lparr>dev_timestamp := snd (bce_timestamp_stop running (dev_timestamp (v_dev v2)))\<rparr>\<rparr>))"

text \<open>
  After a shutdown no worker and no timer is left. But the controller counts as dead before it is stopped, so the
  command that disables it is never sent: the message queue is as before.
\<close>

lemma shutdown_outcome:
  assumes "apple_bce_shutdown env running (Some v) = Some v'"
  shows "\<not> v_watchdog v'" "\<not> vc_recovery_scheduled (v_cq v')" "ts_timer (dev_timestamp (v_dev v')) = None"
    "vc_mq (v_cq v') = vc_mq (v_cq v)"
  using assms
  by (auto simp: apple_bce_shutdown_def bce_vhci_stop_def bce_vhci_cmd_controller_disable_def
      bce_vhci_command_queue_execute_def bce_timestamp_stop_def Let_def)

section \<open>An example\<close>

definition ex_setup_env :: vhci_setup_env where
  "ex_setup_env = \<lparr>vs_ida = first_free, vs_vdev = 0,
     vs_msg = (\<lambda>i. ex_mq_env\<lparr>me_cq := ex_alloc\<lparr>al_obj := Some (20 + 2 * i)\<rparr>, me_sq := ex_alloc\<lparr>al_obj := Some (21 + 2 * i)\<rparr>\<rparr>),
     vs_ev_cq = ex_alloc\<lparr>al_obj := Some 40\<rparr>, vs_ev = (\<lambda>i. ex_mq_env\<lparr>me_sq := ex_alloc\<lparr>al_obj := Some (50 + i)\<rparr>\<rparr>),
     vs_undo_msg = (\<lambda>i. (77, quiet_env)), vs_undo_ev = (\<lambda>i. (77, quiet_env)), vs_undo_ev_cq = (77, quiet_env),
     vs_self_msg = (\<lambda>i. 5), vs_self_ev = (\<lambda>i. 6), vs_wq = True, vs_hcd = True\<rparr>"

definition ex_setup :: vhci_setup where
  "ex_setup = \<lparr>su_dev = ex_dev, su_vdev = False, su_msgs = replicate 5 None, su_cq = ex_vcq, su_ev_cq = None,
     su_evs = replicate 5 None, su_wq = False, su_hcd = False, su_fw_events = False, su_watchdog = False,
     su_last_recovery_jiffies = 0, su_recovery_fail_count = 0\<rparr>"

lemma ex_setup_env_ok: "setup_env_ok ex_setup_env ex_dev" "undo_env_ok ex_setup_env"
proof -
  show u: "undo_env_ok ex_setup_env" by (simp add: undo_env_ok_def ex_setup_env_def quiet_env_ok)
  have "setup_objs ex_setup_env = [20, 21, 22, 23, 24, 25, 26, 27, 28, 29, 40, 50, 51, 52, 53, 54]"
    by (simp add: setup_objs_def msg_objs_def ev_objs_def mq_objs_def message_queues_def event_queues_def ex_setup_env_def)
  then have "unused ex_dev {} (setup_objs ex_setup_env)" by (simp add: unused_def ex_dev_def)
  with u show "setup_env_ok ex_setup_env ex_dev"
    by (simp add: setup_env_ok_def) (simp add: ex_setup_env_def mq_commands_ok_def ex_mq_env_def ex_alloc_def quiet_env_ok first_free_ok)
qed


end
