(* ===== verification/Audio_Protocol.thy ===== *)
theory Audio_Protocol
  imports Bce_Prelude
begin

text \<open>
  The messages of the audio protocol (\<open>src/audio/protocol.h\<close>, \<open>src/audio/protocol.c\<close>): the
  readers of replies and notifications and the writers of commands.

  A message is the memory area behind its \<open>data\<close> pointer, as a list of bytes, and its \<open>size\<close>
  field. The two are independent: the area has the size of its allocation, the field is what
  the device announced. An access outside the area is the outcome \<open>Fault\<close> of a reader and
  \<open>None\<close> of a writer; pointers into the area are offsets. Values are little-endian.
\<close>

section \<open>Bytes\<close>

fun le_bytes :: "nat \<Rightarrow> nat \<Rightarrow> u8 list" where
  "le_bytes 0 v = []"
| "le_bytes (Suc n) v = of_nat (v mod 256) # le_bytes n (v div 256)"

fun le_val :: "u8 list \<Rightarrow> nat" where
  "le_val [] = 0"
| "le_val (b # bs) = unat b + 256 * le_val bs"

definition u32_bytes :: "u32 \<Rightarrow> u8 list" where "u32_bytes v = le_bytes 4 (unat v)"
definition u64_bytes :: "u64 \<Rightarrow> u8 list" where "u64_bytes v = le_bytes 8 (unat v)"

lemma length_le_bytes [simp]: "length (le_bytes n v) = n"
  by (induction n arbitrary: v) simp_all

lemma length_word_bytes [simp]: "length (u32_bytes a) = 4" "length (u64_bytes b) = 8"
  by (simp_all add: u32_bytes_def u64_bytes_def)

lemma le_val_bytes: "le_val (le_bytes n v) = v mod 256 ^ n"
proof (induction n arbitrary: v)
  case (Suc n)
  have "unat (of_nat (v mod 256) :: u8) = v mod 256" by (simp add: unat_of_nat)
  then show ?case using Suc.IH [of "v div 256"] by (simp add: mod_mult2_eq)
qed simp

lemma word_bytes_roundtrip [simp]:
  "of_nat (le_val (u32_bytes a)) = a" "of_nat (le_val (u64_bytes b)) = b"
proof -
  show "of_nat (le_val (u32_bytes a)) = a"
    using unat_below [of a] by (simp add: u32_bytes_def le_val_bytes of_nat_unat)
  show "of_nat (le_val (u64_bytes b)) = b"
    using unat_below [of b] by (simp add: u64_bytes_def le_val_bytes of_nat_unat)
qed

section \<open>Messages\<close>

record aaudio_msg =
  am_data :: "u8 list"
  am_size :: u64

record aaudio_msg_base =
  ab_msg :: u32
  ab_status :: u32

record aaudio_prop_addr =
  pa_scope :: u32
  pa_selector :: u32
  pa_element :: u32

type_synonym aaudio_device_id_t = u64
type_synonym aaudio_object_id_t = u64

abbreviation sizeof_header :: nat where "sizeof_header \<equiv> 13"
abbreviation sizeof_base :: nat where "sizeof_base \<equiv> 8"
abbreviation AAUDIO_STATUS_UNSUPPORTED :: u32 where "AAUDIO_STATUS_UNSUPPORTED \<equiv> 4"
abbreviation AAUDIO_MSG_TYPE_COMMAND :: u8 where "AAUDIO_MSG_TYPE_COMMAND \<equiv> 1"
abbreviation AAUDIO_MSG_TYPE_RESPONSE :: u8 where "AAUDIO_MSG_TYPE_RESPONSE \<equiv> 2"
abbreviation AAUDIO_MSG_TYPE_NOTIFICATION :: u8 where "AAUDIO_MSG_TYPE_NOTIFICATION \<equiv> 3"

abbreviation AAUDIO_MSG_START_IO :: u32 where "AAUDIO_MSG_START_IO \<equiv> 0"
abbreviation AAUDIO_MSG_START_IO_RESPONSE :: u32 where "AAUDIO_MSG_START_IO_RESPONSE \<equiv> 1"
abbreviation AAUDIO_MSG_STOP_IO :: u32 where "AAUDIO_MSG_STOP_IO \<equiv> 2"
abbreviation AAUDIO_MSG_STOP_IO_RESPONSE :: u32 where "AAUDIO_MSG_STOP_IO_RESPONSE \<equiv> 3"
abbreviation AAUDIO_MSG_UPDATE_TIMESTAMP :: u32 where "AAUDIO_MSG_UPDATE_TIMESTAMP \<equiv> 4"
abbreviation AAUDIO_MSG_GET_PROPERTY :: u32 where "AAUDIO_MSG_GET_PROPERTY \<equiv> 7"
abbreviation AAUDIO_MSG_GET_PROPERTY_RESPONSE :: u32 where "AAUDIO_MSG_GET_PROPERTY_RESPONSE \<equiv> 8"
abbreviation AAUDIO_MSG_SET_PROPERTY :: u32 where "AAUDIO_MSG_SET_PROPERTY \<equiv> 9"
abbreviation AAUDIO_MSG_SET_PROPERTY_RESPONSE :: u32 where "AAUDIO_MSG_SET_PROPERTY_RESPONSE \<equiv> 10"
abbreviation AAUDIO_MSG_PROPERTY_LISTENER :: u32 where "AAUDIO_MSG_PROPERTY_LISTENER \<equiv> 11"
abbreviation AAUDIO_MSG_PROPERTY_LISTENER_RESPONSE :: u32
  where "AAUDIO_MSG_PROPERTY_LISTENER_RESPONSE \<equiv> 12"
abbreviation AAUDIO_MSG_PROPERTY_CHANGED :: u32 where "AAUDIO_MSG_PROPERTY_CHANGED \<equiv> 13"
abbreviation AAUDIO_MSG_SET_INPUT_STREAM_ADDRESS_RANGES :: u32
  where "AAUDIO_MSG_SET_INPUT_STREAM_ADDRESS_RANGES \<equiv> 18"
abbreviation AAUDIO_MSG_SET_INPUT_STREAM_ADDRESS_RANGES_RESPONSE :: u32
  where "AAUDIO_MSG_SET_INPUT_STREAM_ADDRESS_RANGES_RESPONSE \<equiv> 19"
abbreviation AAUDIO_MSG_GET_INPUT_STREAM_LIST :: u32 where "AAUDIO_MSG_GET_INPUT_STREAM_LIST \<equiv> 24"
abbreviation AAUDIO_MSG_GET_INPUT_STREAM_LIST_RESPONSE :: u32
  where "AAUDIO_MSG_GET_INPUT_STREAM_LIST_RESPONSE \<equiv> 25"
abbreviation AAUDIO_MSG_GET_OUTPUT_STREAM_LIST :: u32 where "AAUDIO_MSG_GET_OUTPUT_STREAM_LIST \<equiv> 26"
abbreviation AAUDIO_MSG_GET_OUTPUT_STREAM_LIST_RESPONSE :: u32
  where "AAUDIO_MSG_GET_OUTPUT_STREAM_LIST_RESPONSE \<equiv> 27"
abbreviation AAUDIO_MSG_GET_CONTROL_LIST :: u32 where "AAUDIO_MSG_GET_CONTROL_LIST \<equiv> 28"
abbreviation AAUDIO_MSG_GET_CONTROL_LIST_RESPONSE :: u32
  where "AAUDIO_MSG_GET_CONTROL_LIST_RESPONSE \<equiv> 29"
abbreviation AAUDIO_MSG_SET_REMOTE_ACCESS :: u32 where "AAUDIO_MSG_SET_REMOTE_ACCESS \<equiv> 32"
abbreviation AAUDIO_MSG_SET_REMOTE_ACCESS_RESPONSE :: u32
  where "AAUDIO_MSG_SET_REMOTE_ACCESS_RESPONSE \<equiv> 33"
abbreviation AAUDIO_MSG_UPDATE_TIMESTAMP_RESPONSE :: u32
  where "AAUDIO_MSG_UPDATE_TIMESTAMP_RESPONSE \<equiv> 34"
abbreviation AAUDIO_MSG_NOTIFICATION_ALIVE :: u32 where "AAUDIO_MSG_NOTIFICATION_ALIVE \<equiv> 100"
abbreviation AAUDIO_MSG_GET_DEVICE_LIST :: u32 where "AAUDIO_MSG_GET_DEVICE_LIST \<equiv> 101"
abbreviation AAUDIO_MSG_GET_DEVICE_LIST_RESPONSE :: u32
  where "AAUDIO_MSG_GET_DEVICE_LIST_RESPONSE \<equiv> 102"
abbreviation AAUDIO_MSG_NOTIFICATION_BOOT :: u32 where "AAUDIO_MSG_NOTIFICATION_BOOT \<equiv> 104"

section \<open>Readers\<close>

datatype 'a rd = Fault | Err int | Ok 'a

fun rbind :: "'a rd \<Rightarrow> ('a \<Rightarrow> 'b rd) \<Rightarrow> 'b rd" where
  "rbind Fault f = Fault"
| "rbind (Err e) f = Err e"
| "rbind (Ok x) f = f x"

text \<open>A value of the type's width at an offset.\<close>

definition read_val :: "nat \<Rightarrow> aaudio_msg \<Rightarrow> 'a::len word rd" where
  "read_val off msg =
     (let n = LENGTH('a) div 8 in
      if off + n \<le> length (am_data msg) then Ok (of_nat (le_val (take n (drop off (am_data msg)))))
      else Fault)"

definition read_base_at :: "aaudio_msg \<Rightarrow> aaudio_msg_base rd" where
  "read_base_at msg =
     rbind (read_val sizeof_header msg) (\<lambda>m. rbind (read_val (sizeof_header + 4) msg) (\<lambda>st.
       Ok \<lparr>ab_msg = m, ab_status = st\<rparr>))"

definition aaudio_msg_read_base :: "aaudio_msg \<Rightarrow> aaudio_msg_base rd" where
  "aaudio_msg_read_base msg =
     (if am_size msg < of_nat (sizeof_header + sizeof_base * 2) then Err (- EINVAL)
      else read_base_at msg)"

definition aaudio_msg_verify :: "aaudio_msg \<Rightarrow> u32 \<Rightarrow> bool \<Rightarrow> unit rd" where
  "aaudio_msg_verify msg type fatal_status =
     (if am_size msg < of_nat (sizeof_header + sizeof_base) then Err (- EINVAL)
      else rbind (read_base_at msg) (\<lambda>base.
        if ab_msg base \<noteq> type then Err (- EINVAL)
        else if ab_status base = 0 then Ok ()
        else if fatal_status
          then Err (if ab_status base = AAUDIO_STATUS_UNSUPPORTED then - EOPNOTSUPP else - EREMOTEIO)
        else Ok ()))"

text \<open>\<open>READ_START\<close> and \<open>READ_START_STATUS\<close>: verify, then read from the offset behind the base.\<close>

abbreviation read_start :: nat where "read_start \<equiv> sizeof_header + sizeof_base"

definition READ_START :: "u32 \<Rightarrow> aaudio_msg \<Rightarrow> 'a rd \<Rightarrow> 'a rd" where
  "READ_START type msg k = rbind (aaudio_msg_verify msg type False) (\<lambda>_. k)"

definition READ_START_STATUS :: "u32 \<Rightarrow> aaudio_msg \<Rightarrow> 'a rd \<Rightarrow> 'a rd" where
  "READ_START_STATUS type msg k = rbind (aaudio_msg_verify msg type True) (\<lambda>_. k)"

text \<open>\<open>READ_DEVID_VAR\<close>: the device id of the header, behind the tag and the type.\<close>

definition read_devid :: "aaudio_msg \<Rightarrow> u64 rd" where
  "read_devid msg = read_val 5 msg"

text \<open>Object, element, scope and selector, in the order of the wire.\<close>

definition read_obj_prop :: "nat \<Rightarrow> aaudio_msg \<Rightarrow> (u64 \<times> aaudio_prop_addr) rd" where
  "read_obj_prop off msg =
     rbind (read_val off msg) (\<lambda>obj.
     rbind (read_val (off + 8) msg) (\<lambda>el.
     rbind (read_val (off + 12) msg) (\<lambda>sc.
     rbind (read_val (off + 16) msg) (\<lambda>sel.
       Ok (obj, \<lparr>pa_scope = sc, pa_selector = sel, pa_element = el\<rparr>)))))"

definition aaudio_msg_read_start_io_response :: "aaudio_msg \<Rightarrow> unit rd" where
  "aaudio_msg_read_start_io_response msg = READ_START AAUDIO_MSG_START_IO_RESPONSE msg (Ok ())"

definition aaudio_msg_read_stop_io_response :: "aaudio_msg \<Rightarrow> unit rd" where
  "aaudio_msg_read_stop_io_response msg = READ_START AAUDIO_MSG_STOP_IO_RESPONSE msg (Ok ())"

definition aaudio_msg_read_update_timestamp :: "aaudio_msg \<Rightarrow> (u64 \<times> u64 \<times> u64) rd" where
  "aaudio_msg_read_update_timestamp msg = READ_START AAUDIO_MSG_UPDATE_TIMESTAMP msg
     (rbind (read_devid msg) (\<lambda>devid.
      rbind (read_val read_start msg) (\<lambda>timestamp.
      rbind (read_val (read_start + 8) msg) (\<lambda>update_seed.
        Ok (devid, timestamp, update_seed)))))"

text \<open>The last components are the offset of the data and its announced size.\<close>

definition aaudio_msg_read_get_property_response ::
  "aaudio_msg \<Rightarrow> (u64 \<times> aaudio_prop_addr \<times> nat \<times> u64) rd" where
  "aaudio_msg_read_get_property_response msg = READ_START_STATUS AAUDIO_MSG_GET_PROPERTY_RESPONSE msg
     (rbind (read_obj_prop read_start msg) (\<lambda>(obj, prop).
      rbind (read_val (read_start + 20) msg) (\<lambda>data_size.
        Ok (obj, prop, read_start + 28, data_size))))"

definition aaudio_msg_read_set_property_response :: "aaudio_msg \<Rightarrow> u64 rd" where
  "aaudio_msg_read_set_property_response msg = READ_START_STATUS AAUDIO_MSG_SET_PROPERTY_RESPONSE msg
     (read_val read_start msg)"

definition aaudio_msg_read_property_listener_response :: "aaudio_msg \<Rightarrow> (u64 \<times> aaudio_prop_addr) rd" where
  "aaudio_msg_read_property_listener_response msg =
     READ_START AAUDIO_MSG_PROPERTY_LISTENER_RESPONSE msg (read_obj_prop read_start msg)"

definition aaudio_msg_read_property_changed :: "aaudio_msg \<Rightarrow> (u64 \<times> u64 \<times> aaudio_prop_addr) rd" where
  "aaudio_msg_read_property_changed msg = READ_START AAUDIO_MSG_PROPERTY_CHANGED msg
     (rbind (read_devid msg) (\<lambda>devid.
      rbind (read_obj_prop read_start msg) (\<lambda>(obj, prop). Ok (devid, obj, prop))))"

definition aaudio_msg_read_set_input_stream_address_ranges_response :: "aaudio_msg \<Rightarrow> unit rd" where
  "aaudio_msg_read_set_input_stream_address_ranges_response msg =
     READ_START AAUDIO_MSG_SET_INPUT_STREAM_ADDRESS_RANGES_RESPONSE msg (Ok ())"

text \<open>A counted list: the offset of its first element and the announced count.\<close>

definition read_list :: "aaudio_msg \<Rightarrow> (nat \<times> u64) rd" where
  "read_list msg = rbind (read_val read_start msg) (\<lambda>cnt. Ok (read_start + 8, cnt))"

definition aaudio_msg_read_get_input_stream_list_response :: "aaudio_msg \<Rightarrow> (nat \<times> u64) rd" where
  "aaudio_msg_read_get_input_stream_list_response msg =
     READ_START AAUDIO_MSG_GET_INPUT_STREAM_LIST_RESPONSE msg (read_list msg)"

definition aaudio_msg_read_get_output_stream_list_response :: "aaudio_msg \<Rightarrow> (nat \<times> u64) rd" where
  "aaudio_msg_read_get_output_stream_list_response msg =
     READ_START AAUDIO_MSG_GET_OUTPUT_STREAM_LIST_RESPONSE msg (read_list msg)"

abbreviation SIZE_MAX :: u64 where "SIZE_MAX \<equiv> 0xffffffffffffffff"

definition aaudio_msg_read_get_control_list_response ::
  "aaudio_msg \<Rightarrow> (nat \<times> nat \<times> nat \<times> u64) rd" where
  "aaudio_msg_read_get_control_list_response msg = READ_START AAUDIO_MSG_GET_CONTROL_LIST_RESPONSE msg
     (if am_size msg < of_nat read_start + 8 then Err (- EINVAL)
      else rbind (read_val read_start msg) (\<lambda>cnt.
        if cnt > (SIZE_MAX - 16) div 24 then Err (- EINVAL)
        else
          let need = cnt * 3 * 8 + 16; offset = read_start + 8; n = unat cnt in
          if am_size msg - of_nat offset < need then Err (- EINVAL)
          else
            rbind (read_val (offset + n * 8) msg) (\<lambda>n1.
              if n1 \<noteq> cnt then Err (- EINVAL)
              else rbind (read_val (offset + n * 8 + 8 + n * 8) msg) (\<lambda>n2.
                if n2 \<noteq> cnt then Err (- EINVAL)
                else Ok (offset, offset + n * 8 + 8, offset + n * 8 + 8 + n * 8 + 8, cnt)))))"

definition aaudio_msg_read_set_remote_access_response :: "aaudio_msg \<Rightarrow> unit rd" where
  "aaudio_msg_read_set_remote_access_response msg =
     READ_START AAUDIO_MSG_SET_REMOTE_ACCESS_RESPONSE msg (Ok ())"

definition aaudio_msg_read_get_device_list_response :: "aaudio_msg \<Rightarrow> (nat \<times> u64) rd" where
  "aaudio_msg_read_get_device_list_response msg =
     READ_START AAUDIO_MSG_GET_DEVICE_LIST_RESPONSE msg (read_list msg)"

section \<open>Writers\<close>

text \<open>\<open>WRITE_VAL\<close> and \<open>WRITE_BIN\<close>: store bytes at the offset and advance it.\<close>

definition put_bytes :: "u8 list \<Rightarrow> nat \<times> u8 list \<Rightarrow> (nat \<times> u8 list) option" where
  "put_bytes bs s = (case s of (off, d) \<Rightarrow>
     if off + length bs \<le> length d then Some (off + length bs, take off d @ bs @ drop (off + length bs) d)
     else None)"

fun write_fields :: "u8 list list \<Rightarrow> nat \<times> u8 list \<Rightarrow> (nat \<times> u8 list) option" where
  "write_fields [] s = Some s"
| "write_fields (f # fs) s = (case put_bytes f s of None \<Rightarrow> None | Some s' \<Rightarrow> write_fields fs s')"

text \<open>
  \<open>WRITE_START_OF_TYPE\<close>, the fields and \<open>WRITE_END\<close>. The type and the device id follow the
  four bytes of the tag, which the writer leaves alone.
\<close>

definition write_msg :: "u8 \<Rightarrow> u64 \<Rightarrow> u8 list list \<Rightarrow> aaudio_msg \<Rightarrow> aaudio_msg option" where
  "write_msg typev devid fs msg =
     (case put_bytes [typev] (4, am_data msg) of None \<Rightarrow> None
      | Some s1 \<Rightarrow> (case put_bytes (u64_bytes devid) s1 of None \<Rightarrow> None
      | Some s2 \<Rightarrow> (case write_fields fs s2 of None \<Rightarrow> None
      | Some (off, d) \<Rightarrow> Some \<lparr>am_data = d, am_size = of_nat off\<rparr>)))"

abbreviation WRITE_COMMAND :: "u64 \<Rightarrow> u8 list list \<Rightarrow> aaudio_msg \<Rightarrow> aaudio_msg option" where
  "WRITE_COMMAND devid \<equiv> write_msg AAUDIO_MSG_TYPE_COMMAND devid"

abbreviation WRITE_BASE :: "u32 \<Rightarrow> u8 list list" where
  "WRITE_BASE type \<equiv> [u32_bytes type, u32_bytes 0]"

abbreviation WRITE_OBJ_PROP :: "u64 \<Rightarrow> aaudio_prop_addr \<Rightarrow> u8 list list" where
  "WRITE_OBJ_PROP obj prop \<equiv> [u64_bytes obj, u32_bytes (pa_element prop), u32_bytes (pa_scope prop),
     u32_bytes (pa_selector prop)]"

text \<open>Binary data with its length in front.\<close>

abbreviation WRITE_SIZED :: "u8 list \<Rightarrow> u8 list list" where
  "WRITE_SIZED bin \<equiv> [u64_bytes (of_nat (length bin)), bin]"

definition aaudio_msg_write_start_io where
  "aaudio_msg_write_start_io dev = WRITE_COMMAND dev (WRITE_BASE AAUDIO_MSG_START_IO)"

definition aaudio_msg_write_stop_io where
  "aaudio_msg_write_stop_io dev = WRITE_COMMAND dev (WRITE_BASE AAUDIO_MSG_STOP_IO)"

definition aaudio_msg_write_get_property where
  "aaudio_msg_write_get_property dev obj prop qualifier =
     WRITE_COMMAND dev (WRITE_BASE AAUDIO_MSG_GET_PROPERTY @ WRITE_OBJ_PROP obj prop @ WRITE_SIZED qualifier)"

definition aaudio_msg_write_set_property where
  "aaudio_msg_write_set_property dev obj prop data qualifier =
     WRITE_COMMAND dev (WRITE_BASE AAUDIO_MSG_SET_PROPERTY @ WRITE_OBJ_PROP obj prop @ WRITE_SIZED data
       @ WRITE_SIZED qualifier)"

definition aaudio_msg_write_property_listener where
  "aaudio_msg_write_property_listener dev obj prop =
     WRITE_COMMAND dev (WRITE_BASE AAUDIO_MSG_PROPERTY_LISTENER @ WRITE_OBJ_PROP obj prop)"

definition aaudio_msg_write_set_input_stream_address_ranges where
  "aaudio_msg_write_set_input_stream_address_ranges devid =
     WRITE_COMMAND devid (WRITE_BASE AAUDIO_MSG_SET_INPUT_STREAM_ADDRESS_RANGES)"

definition aaudio_msg_write_get_input_stream_list where
  "aaudio_msg_write_get_input_stream_list devid =
     WRITE_COMMAND devid (WRITE_BASE AAUDIO_MSG_GET_INPUT_STREAM_LIST)"

definition aaudio_msg_write_get_output_stream_list where
  "aaudio_msg_write_get_output_stream_list devid =
     WRITE_COMMAND devid (WRITE_BASE AAUDIO_MSG_GET_OUTPUT_STREAM_LIST)"

definition aaudio_msg_write_get_control_list where
  "aaudio_msg_write_get_control_list devid =
     WRITE_COMMAND devid (WRITE_BASE AAUDIO_MSG_GET_CONTROL_LIST)"

definition aaudio_msg_write_set_remote_access where
  "aaudio_msg_write_set_remote_access mode =
     WRITE_COMMAND 0 (WRITE_BASE AAUDIO_MSG_SET_REMOTE_ACCESS @ [u64_bytes mode])"

definition aaudio_msg_write_alive_notification where
  "aaudio_msg_write_alive_notification proto_ver msg_ver =
     write_msg AAUDIO_MSG_TYPE_NOTIFICATION 0
       (WRITE_BASE AAUDIO_MSG_NOTIFICATION_ALIVE @ [u32_bytes proto_ver, u32_bytes msg_ver])"

definition aaudio_msg_write_update_timestamp_response where
  "aaudio_msg_write_update_timestamp_response =
     write_msg AAUDIO_MSG_TYPE_RESPONSE 0 (WRITE_BASE AAUDIO_MSG_UPDATE_TIMESTAMP_RESPONSE)"

definition aaudio_msg_write_get_device_list where
  "aaudio_msg_write_get_device_list = WRITE_COMMAND 0 (WRITE_BASE AAUDIO_MSG_GET_DEVICE_LIST)"

lemmas aaudio_msg_write_defs =
  aaudio_msg_write_start_io_def aaudio_msg_write_stop_io_def aaudio_msg_write_get_property_def
  aaudio_msg_write_set_property_def aaudio_msg_write_property_listener_def
  aaudio_msg_write_set_input_stream_address_ranges_def aaudio_msg_write_get_input_stream_list_def
  aaudio_msg_write_get_output_stream_list_def aaudio_msg_write_get_control_list_def
  aaudio_msg_write_set_remote_access_def aaudio_msg_write_alive_notification_def
  aaudio_msg_write_update_timestamp_response_def aaudio_msg_write_get_device_list_def

section \<open>The wire format\<close>

text \<open>A message on the wire: tag, type, device id, message number, status, payload.\<close>

definition wire :: "u8 list \<Rightarrow> u8 \<Rightarrow> u64 \<Rightarrow> u32 \<Rightarrow> u32 \<Rightarrow> u8 list \<Rightarrow> u8 list" where
  "wire tag typ dev m st payload =
     tag @ [typ] @ u64_bytes dev @ u32_bytes m @ u32_bytes st @ payload"

text \<open>The message holds these bytes at the start of its area and announces exactly them.\<close>

definition carries :: "aaudio_msg \<Rightarrow> u8 list \<Rightarrow> bool" where
  "carries msg bs \<longleftrightarrow> take (length bs) (am_data msg) = bs \<and> am_size msg = of_nat (length bs)"

definition prop_bytes :: "u64 \<Rightarrow> aaudio_prop_addr \<Rightarrow> u8 list" where
  "prop_bytes obj prop = u64_bytes obj @ u32_bytes (pa_element prop) @ u32_bytes (pa_scope prop)
     @ u32_bytes (pa_selector prop)"

definition sized :: "u8 list \<Rightarrow> u8 list" where
  "sized bin = u64_bytes (of_nat (length bin)) @ bin"

lemma length_prop_bytes [simp]: "length (prop_bytes obj prop) = 20"
  by (simp add: prop_bytes_def)

lemma length_sized [simp]: "length (sized bin) = 8 + length bin"
  by (simp add: sized_def)

lemma write_fields_concat:
  assumes "off + length (concat fs) \<le> length d"
  shows "write_fields fs (off, d)
    = Some (off + length (concat fs), take off d @ concat fs @ drop (off + length (concat fs)) d)"
  using assms
proof (induction fs arbitrary: off d)
  case (Cons f fs)
  let ?d = "take off d @ f @ drop (off + length f) d"
  have "write_fields fs (off + length f, ?d) = Some (off + length f + length (concat fs),
      take (off + length f) ?d @ concat fs @ drop (off + length f + length (concat fs)) ?d)"
    using Cons.prems by (intro Cons.IH) simp
  moreover have "take (off + length f) ?d = take off d @ f" using Cons.prems by simp
  moreover have "drop (off + length f + length (concat fs)) ?d
      = drop (off + length (concat (f # fs))) d"
    using Cons.prems by (simp add: ac_simps)
  ultimately show ?case using Cons.prems by (simp add: put_bytes_def ac_simps)
qed simp

text \<open>The writer succeeds, keeps the area's size and leaves the bytes \<open>bs\<close>.\<close>

definition writes :: "aaudio_msg \<Rightarrow> aaudio_msg option \<Rightarrow> u8 list \<Rightarrow> bool" where
  "writes msg w bs \<longleftrightarrow> (case w of None \<Rightarrow> False
     | Some m \<Rightarrow> length (am_data m) = length (am_data msg) \<and> carries m bs)"

lemma write_msg_writes:
  assumes "sizeof_header + length (concat fs) \<le> length (am_data msg)"
    and "concat fs = u32_bytes m @ u32_bytes st @ payload"
  shows "writes msg (write_msg typ dev fs msg) (wire (take 4 (am_data msg)) typ dev m st payload)"
proof -
  let ?d = "take 4 (am_data msg) @ [typ] @ u64_bytes dev @ drop 13 (am_data msg)"
  let ?n = "13 + length (concat fs)"
  have "write_msg typ dev fs msg = (case write_fields fs (13, ?d) of None \<Rightarrow> None
      | Some (off, d) \<Rightarrow> Some \<lparr>am_data = d, am_size = of_nat off\<rparr>)"
    using assms(1) by (auto simp: write_msg_def put_bytes_def)
  also have "write_fields fs (13, ?d) = Some (?n, take 13 ?d @ concat fs @ drop ?n ?d)"
    using assms(1) by (intro write_fields_concat) simp
  finally have w: "write_msg typ dev fs msg
      = Some \<lparr>am_data = take 13 ?d @ concat fs @ drop ?n ?d, am_size = of_nat ?n\<rparr>"
    by simp
  define bs where "bs = wire (take 4 (am_data msg)) typ dev m st payload"
  have "take 13 ?d = take 4 (am_data msg) @ [typ] @ u64_bytes dev" using assms(1) by simp
  then have bs: "take 13 ?d @ concat fs = bs" using assms(2) by (simp add: bs_def wire_def)
  have len: "length bs = ?n" unfolding bs [symmetric] using assms(1) by simp
  have "length ?d = length (am_data msg)" using assms(1) by auto
  then have rest: "length bs + length (drop ?n ?d) = length (am_data msg)"
    using len assms(1) unfolding length_drop by linarith
  define r where "r = drop ?n ?d"
  have "write_msg typ dev fs msg = Some \<lparr>am_data = bs @ r, am_size = of_nat (length bs)\<rparr>"
    using w len bs r_def by (metis append_assoc)
  then show ?thesis
    using rest unfolding bs_def [symmetric] r_def [symmetric] by (simp add: writes_def carries_def)
qed

text \<open>
  Every command the driver builds is laid out as the wire format says: header with the caller's
  device id, message number, zero status, then object, element, scope, selector and the sized
  data in this order, and the size field covers exactly these bytes. The tag already in the
  buffer is kept and the buffer is not overrun, provided the message fits in it.
\<close>

theorem audio_writers_wire:
  assumes "57 + length data + length qual \<le> length (am_data msg)"
  defines "tag \<equiv> take 4 (am_data msg)"
  shows "writes msg (aaudio_msg_write_start_io dev msg) (wire tag 1 dev 0 0 [])
    \<and> writes msg (aaudio_msg_write_stop_io dev msg) (wire tag 1 dev 2 0 [])
    \<and> writes msg (aaudio_msg_write_get_property dev obj prop qual msg)
        (wire tag 1 dev 7 0 (prop_bytes obj prop @ sized qual))
    \<and> writes msg (aaudio_msg_write_set_property dev obj prop data qual msg)
        (wire tag 1 dev 9 0 (prop_bytes obj prop @ sized data @ sized qual))
    \<and> writes msg (aaudio_msg_write_property_listener dev obj prop msg)
        (wire tag 1 dev 11 0 (prop_bytes obj prop))
    \<and> writes msg (aaudio_msg_write_set_remote_access mode msg) (wire tag 1 0 32 0 (u64_bytes mode))
    \<and> writes msg (aaudio_msg_write_alive_notification v1 v2 msg)
        (wire tag 3 0 100 0 (u32_bytes v1 @ u32_bytes v2))
    \<and> writes msg (aaudio_msg_write_update_timestamp_response msg) (wire tag 2 0 34 0 [])"
  unfolding tag_def aaudio_msg_write_defs
  by (intro conjI write_msg_writes) (use assms(1) in \<open>simp_all add: prop_bytes_def sized_def\<close>)

section \<open>Reading the wire format\<close>

lemma read_val_at:
  fixes msg :: aaudio_msg
  assumes "take n (am_data msg) = xs @ ys @ zs" and "length ys = LENGTH('a::len) div 8"
  shows "(read_val (length xs) msg :: 'a word rd) = Ok (of_nat (le_val ys))"
proof -
  have "length xs + length ys \<le> length (am_data msg)"
    using arg_cong [OF assms(1), of length] by simp
  moreover have "take (length ys) (drop (length xs) (am_data msg)) = ys"
  proof -
    have "length xs + length ys \<le> n"
      using arg_cong [OF assms(1), of length] by simp
    then have "take (length ys) (drop (length xs) (am_data msg))
        = take (length ys) (drop (length xs) (take n (am_data msg)))"
      by (simp add: drop_take take_drop [symmetric])
    then show ?thesis unfolding assms(1) by simp
  qed
  ultimately show ?thesis using assms(2) by (simp add: read_val_def Let_def)
qed

lemma carries_read:
  assumes "carries msg (wire tag typ dev m st (xs @ ys @ zs))" and "length tag = 4"
    and "length ys = LENGTH('a::len) div 8" and "off = 21 + length xs"
  shows "(read_val off msg :: 'a word rd) = Ok (of_nat (le_val ys))"
proof -
  let ?h = "tag @ [typ] @ u64_bytes dev @ u32_bytes m @ u32_bytes st @ xs"
  have "length ?h = off" using assms(2,4) by simp
  moreover have "take (length (?h @ ys @ zs)) (am_data msg) = ?h @ ys @ zs"
    using assms(1) by (simp add: carries_def wire_def)
  ultimately show ?thesis using read_val_at [OF _ assms(3), of _ msg ?h zs] by metis
qed

lemma carries_header:
  assumes c: "carries msg (wire tag typ dev m st payload)" and "length tag = 4"
  shows "read_devid msg = Ok dev" and "read_base_at msg = Ok \<lparr>ab_msg = m, ab_status = st\<rparr>"
proof -
  have a: "take (length (wire tag typ dev m st payload)) (am_data msg)
      = wire tag typ dev m st payload" using c by (simp add: carries_def)
  have w: "wire tag typ dev m st payload = (tag @ [typ]) @ u64_bytes dev @ (u32_bytes m @ u32_bytes st @ payload)"
    "wire tag typ dev m st payload
       = (tag @ [typ] @ u64_bytes dev) @ u32_bytes m @ (u32_bytes st @ payload)"
    "wire tag typ dev m st payload
       = (tag @ [typ] @ u64_bytes dev @ u32_bytes m) @ u32_bytes st @ payload"
    by (simp_all add: wire_def)
  have l: "length (tag @ [typ]) = 5" "length (tag @ [typ] @ u64_bytes dev) = 13"
    "length (tag @ [typ] @ u64_bytes dev @ u32_bytes m) = 17"
    using assms(2) by simp_all
  show "read_devid msg = Ok dev"
    using read_val_at [OF a [unfolded w(1)], where 'a = 64] unfolding l by (simp add: read_devid_def)
  show "read_base_at msg = Ok \<lparr>ab_msg = m, ab_status = st\<rparr>"
    using read_val_at [OF a [unfolded w(2)], where 'a = 32] read_val_at [OF a [unfolded w(3)], where 'a = 32]
    unfolding l by (simp add: read_base_at_def)
qed


lemma carries_size:
  assumes "carries msg bs" and "length (am_data msg) < 2 ^ 64" 
  shows "unat (am_size msg) = length bs" and "length bs \<le> length (am_data msg)"
proof -
  show l: "length bs \<le> length (am_data msg)"
    using assms(1) by (metis carries_def length_take min.cobounded1)
  show "unat (am_size msg) = length bs"
    using assms l by (simp add: carries_def unat_of_nat)
qed

lemma verify_carries:
  assumes "carries msg (wire tag typ dev m st payload)" and "length tag = 4"
    and "length (am_data msg) < 2 ^ 64"
  shows "aaudio_msg_verify msg type fatal = (if m \<noteq> type then Err (- EINVAL)
     else if st = 0 \<or> \<not> fatal then Ok () else Err (if st = 4 then - EOPNOTSUPP else - EREMOTEIO))"
proof -
  have "unat (am_size msg) = 21 + length payload"
    using carries_size [OF assms(1,3)] assms(2) by (simp add: wire_def)
  then have "\<not> am_size msg < 21" by (simp add: word_less_nat_alt)
  then show ?thesis
    using carries_header(2) [OF assms(1,2)] by (simp add: aaudio_msg_verify_def)
qed

lemma read_obj_prop_carries:
  assumes "carries msg (wire tag typ dev m st (prop_bytes obj prop @ rest))" and "length tag = 4"
  shows "read_obj_prop 21 msg = Ok (obj, prop)"
proof -
  let ?o = "u64_bytes obj" and ?e = "u32_bytes (pa_element prop)"
    and ?c = "u32_bytes (pa_scope prop)" and ?l = "u32_bytes (pa_selector prop)"
  have w: "prop_bytes obj prop @ rest = [] @ ?o @ (?e @ ?c @ ?l @ rest)"
    "prop_bytes obj prop @ rest = ?o @ ?e @ (?c @ ?l @ rest)"
    "prop_bytes obj prop @ rest = (?o @ ?e) @ ?c @ (?l @ rest)"
    "prop_bytes obj prop @ rest = (?o @ ?e @ ?c) @ ?l @ rest"
    by (simp_all add: prop_bytes_def)
  have "(read_val 21 msg :: u64 rd) = Ok obj"
    using carries_read [OF assms(1) [unfolded w(1)] assms(2), where 'a = 64 and off = 21] by simp
  moreover have "(read_val 29 msg :: u32 rd) = Ok (pa_element prop)"
    using carries_read [OF assms(1) [unfolded w(2)] assms(2), where 'a = 32 and off = 29] by simp
  moreover have "(read_val 33 msg :: u32 rd) = Ok (pa_scope prop)"
    using carries_read [OF assms(1) [unfolded w(3)] assms(2), where 'a = 32 and off = 33] by simp
  moreover have "(read_val 37 msg :: u32 rd) = Ok (pa_selector prop)"
    using carries_read [OF assms(1) [unfolded w(4)] assms(2), where 'a = 32 and off = 37] by simp
  ultimately show ?thesis by (simp add: read_obj_prop_def)
qed

lemma property_roundtrip:
  assumes "length tag = 4" and "length (am_data msg) < 2 ^ 64"
  shows "(carries msg (wire tag 2 dev 8 st (prop_bytes obj prop @ sized data)) \<longrightarrow>
      aaudio_msg_read_get_property_response msg =
        (if st = 0 then Ok (obj, prop, 49, of_nat (length data))
         else Err (if st = 4 then - EOPNOTSUPP else - EREMOTEIO))
      \<and> take (length data) (drop 49 (am_data msg)) = data)
    \<and> (carries msg (wire tag 2 dev 10 st (u64_bytes obj)) \<longrightarrow>
      aaudio_msg_read_set_property_response msg =
        (if st = 0 then Ok obj else Err (if st = 4 then - EOPNOTSUPP else - EREMOTEIO)))
    \<and> (carries msg (wire tag 3 dev 13 st (prop_bytes obj prop)) \<longrightarrow>
      aaudio_msg_read_property_changed msg = Ok (dev, obj, prop))"
proof (intro conjI impI)
  assume c: "carries msg (wire tag 2 dev 8 st (prop_bytes obj prop @ sized data))"
  have d: "read_val 41 msg = Ok (of_nat (length data) :: u64)"
    using carries_read [where xs = "prop_bytes obj prop" and ys = "u64_bytes (of_nat (length data))"
        and zs = data and off = 41 and 'a = 64] c assms(1) by (simp add: sized_def)
  show "aaudio_msg_read_get_property_response msg =
        (if st = 0 then Ok (obj, prop, 49, of_nat (length data))
         else Err (if st = 4 then - EOPNOTSUPP else - EREMOTEIO))"
    using verify_carries [OF c assms] read_obj_prop_carries [OF c assms(1)] d
    by (simp add: aaudio_msg_read_get_property_response_def READ_START_STATUS_def)
  have "take (49 + length data) (am_data msg) = wire tag 2 dev 8 st (prop_bytes obj prop @ sized data)"
    using c assms(1) by (simp add: carries_def wire_def)
  then have "drop 49 (take (49 + length data) (am_data msg)) = data"
    using assms(1) by (simp add: wire_def sized_def)
  then show "take (length data) (drop 49 (am_data msg)) = data"
    by (simp add: drop_take)
next
  assume c: "carries msg (wire tag 2 dev 10 st (u64_bytes obj))"
  have "read_val 21 msg = Ok obj"
    using carries_read [where xs = "[]" and ys = "u64_bytes obj" and zs = "[]" and off = 21
        and 'a = 64] c assms(1) by simp
  with verify_carries [OF c assms] show "aaudio_msg_read_set_property_response msg =
      (if st = 0 then Ok obj else Err (if st = 4 then - EOPNOTSUPP else - EREMOTEIO))"
    by (simp add: aaudio_msg_read_set_property_response_def READ_START_STATUS_def)
next
  assume c: "carries msg (wire tag 3 dev 13 st (prop_bytes obj prop))"
  then show "aaudio_msg_read_property_changed msg = Ok (dev, obj, prop)"
    using verify_carries [OF c assms] carries_header(1) [OF c assms(1)] assms(1)
      read_obj_prop_carries [where rest = "[]" and msg = msg]
    by (simp add: aaudio_msg_read_property_changed_def READ_START_def)
qed


section \<open>Staying inside the buffer\<close>

lemma read_val_in_area:
  "off + LENGTH('a::len) div 8 \<le> length (am_data msg) \<Longrightarrow> \<exists>v. (read_val off msg :: 'a word rd) = Ok v"
  by (simp add: read_val_def Let_def)

lemma read_base_in_area:
  assumes "21 \<le> length (am_data msg)"
  shows "\<exists>b. read_base_at msg = Ok b"
  using assms by (simp add: read_base_at_def read_val_def Let_def)

lemma verify_no_fault:
  assumes "21 \<le> length (am_data msg)"
  shows "aaudio_msg_verify msg type fatal \<noteq> Fault"
  using read_base_in_area [OF assms] by (auto simp: aaudio_msg_verify_def split: if_splits)

lemma rbind_no_fault: "m \<noteq> Fault \<Longrightarrow> (\<And>x. m = Ok x \<Longrightarrow> f x \<noteq> Fault) \<Longrightarrow> rbind m f \<noteq> Fault"
  by (cases m) simp_all

lemma read_start_no_fault:
  assumes "21 \<le> length (am_data msg)" and "k \<noteq> Fault"
  shows "READ_START type msg k \<noteq> Fault" and "READ_START_STATUS type msg k \<noteq> Fault"
  using verify_no_fault [OF assms(1)] assms(2)
  by (simp_all add: READ_START_def READ_START_STATUS_def rbind_no_fault)

lemma verify_size: "aaudio_msg_verify msg type fatal = Ok x \<Longrightarrow> 21 \<le> unat (am_size msg)"
  by (auto simp: aaudio_msg_verify_def word_less_nat_alt split: if_splits)

text \<open>The space three counted arrays of a control list need behind the first count.\<close>

lemma control_need:
  fixes cnt :: u64
  assumes "\<not> cnt > (SIZE_MAX - 16) div 24"
  shows "unat (cnt * 3 * 8 + 16) = unat cnt * 24 + 16"
proof -
  have "unat cnt \<le> (2 ^ 64 - 17) div 24"
    using assms by (simp add: word_less_nat_alt unat_div_distrib)
  then have "unat cnt * 24 + 16 < 2 ^ 64" by simp
  then have "unat (of_nat (unat cnt * 24 + 16) :: u64) = unat cnt * 24 + 16"
    unfolding unat_of_nat by simp
  moreover have "cnt * 3 * 8 + 16 = of_nat (unat cnt * 24 + 16)"
    by (simp add: of_nat_unat)
  ultimately show ?thesis by metis
qed

lemma control_list_cases:
  assumes "29 \<le> length (am_data msg)"
  obtains (refused) e where "aaudio_msg_read_get_control_list_response msg = Err e"
  | (counted) cnt where "29 + unat cnt * 24 + 16 \<le> unat (am_size msg)"
      "aaudio_msg_read_get_control_list_response msg =
         rbind (read_val (29 + unat cnt * 8) msg) (\<lambda>n1. if n1 \<noteq> cnt then Err (- EINVAL)
           else rbind (read_val (29 + unat cnt * 8 + 8 + unat cnt * 8) msg) (\<lambda>n2.
             if n2 \<noteq> cnt then Err (- EINVAL)
             else Ok (29, 29 + unat cnt * 8 + 8, 29 + unat cnt * 8 + 8 + unat cnt * 8 + 8, cnt)))"
proof (cases "aaudio_msg_verify msg 29 False")
  case Fault
  with verify_no_fault [of msg] assms show ?thesis by simp
next
  case (Err e)
  then show ?thesis using refused by (simp add: aaudio_msg_read_get_control_list_response_def READ_START_def)
next
  case (Ok u)
  obtain cnt where c: "read_val 21 msg = Ok (cnt :: u64)"
    using read_val_in_area [of 21 msg, where 'a = 64] assms by auto
  note body = aaudio_msg_read_get_control_list_response_def READ_START_def
  show ?thesis
  proof (cases "am_size msg < 29 \<or> cnt > (SIZE_MAX - 16) div 24 \<or> am_size msg - 29 < cnt * 3 * 8 + 16")
    case True
    then have "aaudio_msg_read_get_control_list_response msg = Err (- EINVAL)"
      using Ok c by (auto simp: body Let_def)
    then show ?thesis by (rule refused)
  next
    case False
    then have s: "29 \<le> unat (am_size msg)" by (simp add: word_less_nat_alt)
    then have "unat (am_size msg - 29) = unat (am_size msg) - 29"
      by (simp add: unat_sub_if_size word_le_nat_alt)
    then have "29 + unat cnt * 24 + 16 \<le> unat (am_size msg)"
      using False s control_need [of cnt] unfolding word_less_nat_alt by linarith
    moreover have "aaudio_msg_read_get_control_list_response msg =
         rbind (read_val (29 + unat cnt * 8) msg) (\<lambda>n1. if n1 \<noteq> cnt then Err (- EINVAL)
           else rbind (read_val (29 + unat cnt * 8 + 8 + unat cnt * 8) msg) (\<lambda>n2.
             if n2 \<noteq> cnt then Err (- EINVAL)
             else Ok (29, 29 + unat cnt * 8 + 8, 29 + unat cnt * 8 + 8 + unat cnt * 8 + 8, cnt)))"
      using False Ok c by (simp add: body Let_def)
    ultimately show ?thesis by (rule counted)
  qed
qed

lemma readers_inside:
  assumes area: "49 \<le> length (am_data msg)"
  shows "aaudio_msg_read_base msg \<noteq> Fault
    \<and> aaudio_msg_read_update_timestamp msg \<noteq> Fault
    \<and> aaudio_msg_read_get_property_response msg \<noteq> Fault
    \<and> aaudio_msg_read_set_property_response msg \<noteq> Fault
    \<and> aaudio_msg_read_property_listener_response msg \<noteq> Fault
    \<and> aaudio_msg_read_property_changed msg \<noteq> Fault
    \<and> aaudio_msg_read_get_input_stream_list_response msg \<noteq> Fault
    \<and> aaudio_msg_read_get_output_stream_list_response msg \<noteq> Fault
    \<and> aaudio_msg_read_get_device_list_response msg \<noteq> Fault
    \<and> (unat (am_size msg) \<le> length (am_data msg) \<longrightarrow>
        aaudio_msg_read_get_control_list_response msg \<noteq> Fault)
    \<and> (case aaudio_msg_read_get_control_list_response msg of
          Ok (ctrl, elem, scope, cnt) \<Rightarrow> ctrl + unat cnt * 8 \<le> elem \<and> elem + unat cnt * 8 \<le> scope
            \<and> scope + unat cnt * 8 \<le> unat (am_size msg)
        | _ \<Rightarrow> True)"
proof -
  have a: "21 \<le> length (am_data msg)" using area by simp
  have op: "read_obj_prop 21 msg \<noteq> Fault" and l: "read_list msg \<noteq> Fault"
    and d: "read_devid msg \<noteq> Fault"
    using area by (simp_all add: read_obj_prop_def read_list_def read_devid_def read_val_def Let_def)
  have ctl: "(unat (am_size msg) \<le> length (am_data msg) \<longrightarrow>
        aaudio_msg_read_get_control_list_response msg \<noteq> Fault)
    \<and> (case aaudio_msg_read_get_control_list_response msg of
          Ok (ctrl, elem, scope, cnt) \<Rightarrow> ctrl + unat cnt * 8 \<le> elem \<and> elem + unat cnt * 8 \<le> scope
            \<and> scope + unat cnt * 8 \<le> unat (am_size msg)
        | _ \<Rightarrow> True)"
  proof -
    have "29 \<le> length (am_data msg)" using area by simp
    then show ?thesis
    proof (cases rule: control_list_cases)
      case (counted cnt)
      then show ?thesis by (simp add: read_val_def Let_def)
    qed simp
  qed
  have "aaudio_msg_read_base msg \<noteq> Fault"
    using read_base_in_area [OF a] by (auto simp: aaudio_msg_read_base_def)
  moreover have "aaudio_msg_read_update_timestamp msg \<noteq> Fault"
    unfolding aaudio_msg_read_update_timestamp_def using a area
    by (intro read_start_no_fault) (simp_all add: read_devid_def read_val_def Let_def)
  moreover have "aaudio_msg_read_get_property_response msg \<noteq> Fault"
    unfolding aaudio_msg_read_get_property_response_def using a area op
    by (intro read_start_no_fault rbind_no_fault) (auto simp: read_val_def Let_def)
  moreover have "aaudio_msg_read_set_property_response msg \<noteq> Fault"
    unfolding aaudio_msg_read_set_property_response_def using a area
    by (intro read_start_no_fault) (simp_all add: read_val_def Let_def)
  moreover have "aaudio_msg_read_property_changed msg \<noteq> Fault"
    unfolding aaudio_msg_read_property_changed_def using a d op
    by (intro read_start_no_fault rbind_no_fault) auto
  ultimately show ?thesis
    using ctl read_start_no_fault(1) [OF a op] read_start_no_fault(1) [OF a l]
    by (simp add: aaudio_msg_read_property_listener_response_def
        aaudio_msg_read_get_input_stream_list_response_def
        aaudio_msg_read_get_output_stream_list_response_def
        aaudio_msg_read_get_device_list_response_def)
qed

text \<open>
  No reader leaves the buffer it was given, whatever the message says. The readers
  of fixed fields need 49 bytes behind the pointer, however small or large the announced size
  is; the reader of control lists needs an announced size within the buffer, and the three
  arrays it accepts lie inside the announced size.
\<close>

theorem audio_readers_stay_inside:
  assumes area: "49 \<le> length (am_data msg)"
  shows "aaudio_msg_read_base msg \<noteq> Fault
    \<and> aaudio_msg_read_update_timestamp msg \<noteq> Fault
    \<and> aaudio_msg_read_get_property_response msg \<noteq> Fault
    \<and> aaudio_msg_read_set_property_response msg \<noteq> Fault
    \<and> aaudio_msg_read_property_listener_response msg \<noteq> Fault
    \<and> aaudio_msg_read_property_changed msg \<noteq> Fault
    \<and> aaudio_msg_read_get_input_stream_list_response msg \<noteq> Fault
    \<and> aaudio_msg_read_get_output_stream_list_response msg \<noteq> Fault
    \<and> aaudio_msg_read_get_device_list_response msg \<noteq> Fault
    \<and> (unat (am_size msg) \<le> length (am_data msg) \<longrightarrow>
        aaudio_msg_read_get_control_list_response msg \<noteq> Fault)
    \<and> (case aaudio_msg_read_get_control_list_response msg of
          Ok (ctrl, elem, scope, cnt) \<Rightarrow> ctrl + unat cnt * 8 \<le> elem \<and> elem + unat cnt * 8 \<le> scope
            \<and> scope + unat cnt * 8 \<le> unat (am_size msg)
        | _ \<Rightarrow> True)"
  by (rule readers_inside [OF area])

section \<open>Examples\<close>

definition ex_prop :: aaudio_prop_addr where
  "ex_prop = \<lparr>pa_scope = 0x676c6f62, pa_selector = 0x6c746e63, pa_element = 0\<rparr>"

definition ex_reply :: aaudio_msg where
  "ex_reply = (let bs = wire [83, 48, 48, 49] 2 5 8 0 (prop_bytes 9 ex_prop @ sized [1, 2])
     in \<lparr>am_data = bs, am_size = of_nat (length bs)\<rparr>)"

lemma ex_reply_carries:
  "carries ex_reply (wire [83, 48, 48, 49] 2 5 8 0 (prop_bytes 9 ex_prop @ sized [1, 2]))"
  "length (am_data ex_reply) = 51"
  by (simp_all add: ex_reply_def carries_def Let_def wire_def)

theorem audio_writers_wire_witness:
  "writes \<lparr>am_data = replicate 57 0, am_size = 0\<rparr>
     (aaudio_msg_write_start_io 5 \<lparr>am_data = replicate 57 0, am_size = 0\<rparr>)
     (wire (replicate 4 0) 1 5 0 0 [])"
  using audio_writers_wire [of "[]" "[]" "\<lparr>am_data = replicate 57 0, am_size = 0\<rparr>" 5] by simp


theorem audio_readers_stay_inside_witness:
  "aaudio_msg_read_property_changed ex_reply \<noteq> Fault"
  using audio_readers_stay_inside [of ex_reply] ex_reply_carries(2) by simp

end
