(* ===== verification/Audio_Bce.thy ===== *)
theory Audio_Bce
  imports Bce_Lifecycle Audio_Protocol
begin

text \<open>
  The transport of the audio protocol over two queues of the coprocessor
  (\<open>src/audio/protocol_bce.h\<close>, \<open>src/audio/protocol_bce.c\<close>): a ring of twenty message buffers
  per direction, the tags that match replies with callers, and the synchronous commands.

  The record \<open>aaudio_bce\<close> holds what the senders and the reply handler share under the
  spinlock: the outgoing queue, the tag counter and the table of waiting callers. A waiting
  caller's entry lives on its stack; \<open>ba_entries\<close> maps the addresses of live entries to their
  contents. The incoming queue is a state of its own, owned by the completion thread. What
  other contexts do while a caller sleeps is an argument. A memory access outside a buffer is
  the outcome \<open>None\<close>.
\<close>

section \<open>Data\<close>

abbreviation AAUDIO_BCE_QUEUE_ELEMENT_SIZE :: nat where "AAUDIO_BCE_QUEUE_ELEMENT_SIZE \<equiv> 0x1000"
abbreviation AAUDIO_BCE_QUEUE_ELEMENT_COUNT :: nat where "AAUDIO_BCE_QUEUE_ELEMENT_COUNT \<equiv> 20"
abbreviation AAUDIO_BCE_QUEUE_TAG_COUNT :: nat where "AAUDIO_BCE_QUEUE_TAG_COUNT \<equiv> 100"

record aaudio_bce_queue_entry =
  en_msg :: aaudio_msg
  en_done :: bool

record aaudio_bce_queue =
  aq_sq :: bce_queue_sq
  aq_data :: "u8 list list"
  aq_dma_addr :: u64
  aq_data_head :: nat
  aq_data_tail :: nat

record aaudio_bce =
  ba_qout :: aaudio_bce_queue
  ba_tag_num :: nat
  ba_pending :: "addr option list"
  ba_entries :: "addr \<Rightarrow> aaudio_bce_queue_entry option"

text \<open>The message of a send context is the buffer of the outgoing queue with this index.\<close>

record aaudio_send_ctx =
  sc_tag_n :: nat
  sc_index :: nat
  sc_size :: u64
  sc_timeout :: nat

section \<open>Sending\<close>

text \<open>\<open>snprintf(tag_zero, 5, "S%03d", n)\<close> for a tag below a thousand.\<close>

definition tag_bytes :: "nat \<Rightarrow> u8 list" where
  "tag_bytes n = [83, of_nat (48 + n div 100 mod 10), of_nat (48 + n div 10 mod 10),
     of_nat (48 + n mod 10)]"

definition aaudio_send_create_tag :: "aaudio_bce \<Rightarrow> nat \<times> u8 list \<times> aaudio_bce" where
  "aaudio_send_create_tag b =
     (let n = (ba_tag_num b + 1) mod AAUDIO_BCE_QUEUE_TAG_COUNT
      in (n, tag_bytes n, b\<lparr>ba_tag_num := n\<rparr>))"

definition set_qout_data :: "nat \<Rightarrow> u8 list \<Rightarrow> aaudio_bce \<Rightarrow> aaudio_bce" where
  "set_qout_data i d b = b\<lparr>ba_qout := (ba_qout b)\<lparr>aq_data := (aq_data (ba_qout b))[i := d]\<rparr>\<rparr>"

text \<open>Reserve a slot, take the buffer at the tail and put the tag into it.\<close>

definition aaudio_send_prepare :: "wakeup list \<Rightarrow> u8 list option \<Rightarrow> nat \<Rightarrow> aaudio_bce
    \<Rightarrow> int \<times> aaudio_send_ctx \<times> aaudio_bce" where
  "aaudio_send_prepare ws tag timeout b =
     (case bce_reserve_submission (Some timeout) ws (aq_sq (ba_qout b)) of (st, t, sq) \<Rightarrow>
        let b1 = b\<lparr>ba_qout := (ba_qout b)\<lparr>aq_sq := sq\<rparr>\<rparr>;
            left = (case t of Some n \<Rightarrow> n | None \<Rightarrow> 0);
            index = aq_data_tail (ba_qout b1);
            ctx = \<lparr>sc_tag_n = 0, sc_index = index, sc_size = 0, sc_timeout = left\<rparr>
        in if st \<noteq> 0 then (st, ctx, b1)
           else case tag of
             Some tg \<Rightarrow> (0, ctx, set_qout_data index (tg @ drop 4 (aq_data (ba_qout b1) ! index)) b1)
           | None \<Rightarrow>
               let (n, tg, b2) = aaudio_send_create_tag b1
               in (0, ctx\<lparr>sc_tag_n := n\<rparr>,
                   set_qout_data index (tg @ drop 4 (aq_data (ba_qout b2) ! index)) b2))"

text \<open>The call of the writer on the prepared buffer.\<close>

definition write_prepared :: "(aaudio_msg \<Rightarrow> aaudio_msg option) \<Rightarrow> aaudio_send_ctx \<Rightarrow> aaudio_bce
    \<Rightarrow> (aaudio_send_ctx \<times> aaudio_bce) option" where
  "write_prepared w ctx b =
     (case w \<lparr>am_data = aq_data (ba_qout b) ! sc_index ctx, am_size = sc_size ctx\<rparr> of
        None \<Rightarrow> None
      | Some m \<Rightarrow> Some (ctx\<lparr>sc_size := am_size m\<rparr>, set_qout_data (sc_index ctx) (am_data m) b))"

definition buffer_submission :: "u64 \<Rightarrow> nat \<Rightarrow> u64 \<Rightarrow> sq_element" where
  "buffer_submission dma i sz = El_submission (bce_set_submission_single
     (dma + of_nat (i * AAUDIO_BCE_QUEUE_ELEMENT_SIZE)) sz)"

definition aaudio_send_msg :: "aaudio_send_ctx \<Rightarrow> aaudio_bce \<Rightarrow> (int \<times> u32) \<times> aaudio_bce" where
  "aaudio_send_msg ctx b =
     (let q = ba_qout b; (s, sq) = bce_next_submission (aq_sq q);
          sq' = sq_store s (buffer_submission (aq_dma_addr q) (sc_index ctx) (sc_size ctx)) sq
      in (bce_submit_to_device sq',
          b\<lparr>ba_qout := q\<lparr>aq_sq := sq',
              aq_data_tail := (aq_data_tail q + 1) mod AAUDIO_BCE_QUEUE_ELEMENT_COUNT\<rparr>\<rparr>))"

text \<open>\<open>aaudio_send_with_tag\<close>, and \<open>aaudio_send\<close> when no tag is given.\<close>

definition aaudio_send :: "wakeup list \<Rightarrow> u8 list option \<Rightarrow> nat \<Rightarrow> (aaudio_msg \<Rightarrow> aaudio_msg option)
    \<Rightarrow> aaudio_bce \<Rightarrow> (int \<times> aaudio_bce) option" where
  "aaudio_send ws tag timeout w b =
     (let (st, ctx, b1) = aaudio_send_prepare ws tag timeout b in
      if st \<noteq> 0 then Some (st, b1)
      else case write_prepared w ctx b1 of
        None \<Rightarrow> None
      | Some (ctx', b2) \<Rightarrow> Some (0, snd (aaudio_send_msg ctx' b2)))"

section \<open>Synchronous commands\<close>

text \<open>Registering the caller's entry and sending, up to the wait.\<close>

definition send_cmd_begin :: "addr \<Rightarrow> aaudio_msg \<Rightarrow> aaudio_send_ctx \<Rightarrow> aaudio_bce \<Rightarrow> aaudio_bce" where
  "send_cmd_begin a reply ctx b =
     snd (aaudio_send_msg ctx (b\<lparr>ba_entries := (ba_entries b)(a \<mapsto> \<lparr>en_msg = reply, en_done = False\<rparr>),
       ba_pending := (ba_pending b)[sc_tag_n ctx := Some a]\<rparr>))"

text \<open>The cleanup after a timeout: only the caller's own entry is removed.\<close>

definition send_cmd_timeout :: "addr \<Rightarrow> nat \<Rightarrow> aaudio_bce \<Rightarrow> aaudio_bce" where
  "send_cmd_timeout a n b =
     (if ba_pending b ! n = Some a then b\<lparr>ba_pending := (ba_pending b)[n := None]\<rparr> else b)"

text \<open>The return of the caller: its entry leaves the stack.\<close>

definition pop_entry :: "addr \<Rightarrow> aaudio_bce \<Rightarrow> aaudio_bce" where
  "pop_entry a b = b\<lparr>ba_entries := (ba_entries b)(a := None)\<rparr>"

definition entry_msg :: "addr \<Rightarrow> aaudio_msg \<Rightarrow> aaudio_bce \<Rightarrow> aaudio_msg" where
  "entry_msg a reply b = (case ba_entries b a of Some e \<Rightarrow> en_msg e | None \<Rightarrow> reply)"

definition entry_done :: "addr \<Rightarrow> aaudio_bce \<Rightarrow> bool" where
  "entry_done a b = (case ba_entries b a of Some e \<Rightarrow> en_done e | None \<Rightarrow> False)"

text \<open>\<open>wait\<close> is what happens until the wait ends, \<open>relock\<close> until the lock is taken again.\<close>

definition aaudio_send_cmd_wait :: "(aaudio_bce \<Rightarrow> aaudio_bce) \<Rightarrow> (aaudio_bce \<Rightarrow> aaudio_bce) \<Rightarrow> addr
    \<Rightarrow> aaudio_msg \<Rightarrow> aaudio_send_ctx \<Rightarrow> aaudio_bce \<Rightarrow> int \<times> aaudio_msg \<times> aaudio_bce" where
  "aaudio_send_cmd_wait wait relock a reply ctx b =
     (let b1 = wait (send_cmd_begin a reply ctx b) in
      if entry_done a b1 then (0, entry_msg a reply b1, pop_entry a b1)
      else
        let b2 = relock b1; b3 = send_cmd_timeout a (sc_tag_n ctx) b2
        in (- ETIMEDOUT, entry_msg a reply b3, pop_entry a b3))"

record acmd_env =
  ae_reserve :: "wakeup list"
  ae_wait :: "aaudio_bce \<Rightarrow> aaudio_bce"
  ae_relock :: "aaudio_bce \<Rightarrow> aaudio_bce"
  ae_entry :: addr

definition aaudio_send_cmd_sync :: "acmd_env \<Rightarrow> nat \<Rightarrow> (aaudio_msg \<Rightarrow> aaudio_msg option) \<Rightarrow> aaudio_msg
    \<Rightarrow> aaudio_bce \<Rightarrow> (int \<times> aaudio_msg \<times> aaudio_bce) option" where
  "aaudio_send_cmd_sync env timeout w reply b =
     (let (st, ctx, b1) = aaudio_send_prepare (ae_reserve env) None timeout b in
      if st \<noteq> 0 then Some (st, reply, b1)
      else case write_prepared w ctx b1 of
        None \<Rightarrow> None
      | Some (ctx', b2) \<Rightarrow>
          Some (aaudio_send_cmd_wait (ae_wait env) (ae_relock env) (ae_entry env) reply ctx' b2))"

text \<open>\<open>aaudio_reply_alloc\<close>: the contents of the allocation, or a NULL pointer.\<close>

definition aaudio_reply_alloc :: "u8 list option \<Rightarrow> aaudio_msg option" where
  "aaudio_reply_alloc mem =
     map_option (\<lambda>d. \<lparr>am_data = d, am_size = of_nat AAUDIO_BCE_QUEUE_ELEMENT_SIZE\<rparr>) mem"

section \<open>Receiving\<close>

text \<open>\<open>kstrtoint(s, 10, &n)\<close> on the bytes up to the terminator: \<open>None\<close> when it fails.\<close>

type_synonym kstrtoint = "u8 list \<Rightarrow> int option"

definition deliver_reply :: "aaudio_msg \<Rightarrow> aaudio_bce_queue_entry \<Rightarrow> aaudio_bce_queue_entry option" where
  "deliver_reply reply e =
     (let m = en_msg e; size = (if am_size reply < am_size m then am_size reply else am_size m);
          n = unat size
      in if n \<le> length (am_data reply) \<and> n \<le> length (am_data m)
         then Some \<lparr>en_msg = \<lparr>am_data = take n (am_data reply) @ drop n (am_data m), am_size = size\<rparr>,
                    en_done = True\<rparr>
         else None)"

definition aaudio_handle_reply :: "kstrtoint \<Rightarrow> aaudio_msg \<Rightarrow> aaudio_bce \<Rightarrow> aaudio_bce option" where
  "aaudio_handle_reply kstr reply b =
     (if length (am_data reply) < 4 then None
      else if am_data reply ! 0 \<noteq> 83 then Some b
      else case kstr (take 3 (drop 1 (am_data reply))) of
        None \<Rightarrow> Some b
      | Some n \<Rightarrow>
          if n < 0 \<or> n \<ge> int AAUDIO_BCE_QUEUE_TAG_COUNT then Some b
          else (case ba_pending b ! nat n of
             None \<Rightarrow> Some b
           | Some a \<Rightarrow>
               (case ba_entries b a of
                  None \<Rightarrow> None
                | Some e \<Rightarrow>
                    (case deliver_reply reply e of
                       None \<Rightarrow> None
                     | Some e' \<Rightarrow> Some (b\<lparr>ba_entries := (ba_entries b)(a \<mapsto> e'),
                         ba_pending := (ba_pending b)[nat n := None]\<rparr>)))))"

definition aaudio_bce_out_queue_completion :: "bce_queue_sq \<Rightarrow> bce_queue_sq option" where
  "aaudio_bce_out_queue_completion sq =
     completion_loop bce_next_completion (\<lambda>c. bce_notify_submission_complete) sq"

text \<open>The dispatch by the type byte; commands and notifications go to the device's handlers.\<close>

definition aaudio_bce_in_queue_handle_msg ::
  "(aaudio_msg \<Rightarrow> 'w \<Rightarrow> 'w) \<Rightarrow> (aaudio_msg \<Rightarrow> 'w \<Rightarrow> 'w) \<Rightarrow> (aaudio_msg \<Rightarrow> 'w \<Rightarrow> 'w)
     \<Rightarrow> aaudio_msg \<Rightarrow> 'w \<Rightarrow> 'w" where
  "aaudio_bce_in_queue_handle_msg on_reply on_command on_notification msg w =
     (if am_size msg < of_nat sizeof_header then w
      else
        let type = am_data msg ! 4 in
        if type = AAUDIO_MSG_TYPE_RESPONSE then on_reply msg w
        else if type = AAUDIO_MSG_TYPE_COMMAND then on_command msg w
        else if type = AAUDIO_MSG_TYPE_NOTIFICATION then on_notification msg w
        else w)"

definition in_submit_one :: "aaudio_bce_queue \<Rightarrow> aaudio_bce_queue option" where
  "in_submit_one q =
     (case bce_reserve_submission None [] (aq_sq q) of (st, t, sq) \<Rightarrow>
        if st \<noteq> 0 then None
        else
          let (s, sq') = bce_next_submission sq;
              el = buffer_submission (aq_dma_addr q) (aq_data_tail q) (of_nat AAUDIO_BCE_QUEUE_ELEMENT_SIZE)
          in Some (q\<lparr>aq_sq := sq_store s el sq',
               aq_data_tail := (aq_data_tail q + 1) mod AAUDIO_BCE_QUEUE_ELEMENT_COUNT\<rparr>))"

fun in_submit_loop :: "nat \<Rightarrow> aaudio_bce_queue \<Rightarrow> aaudio_bce_queue" where
  "in_submit_loop 0 q = q"
| "in_submit_loop (Suc n) q = (case in_submit_one q of None \<Rightarrow> q | Some q' \<Rightarrow> in_submit_loop n q')"

definition aaudio_bce_in_queue_submit_pending ::
  "nat \<Rightarrow> aaudio_bce_queue \<Rightarrow> (int \<times> u32) \<times> aaudio_bce_queue" where
  "aaudio_bce_in_queue_submit_pending count q =
     (let q' = in_submit_loop count q in (bce_submit_to_device (aq_sq q'), q'))"

record 'w in_state =
  is_cnt :: nat
  is_queue :: aaudio_bce_queue
  is_world :: 'w

definition in_next :: "'w in_state \<Rightarrow> bce_sq_completion_data option \<times> 'w in_state" where
  "in_next s = (case bce_next_completion (aq_sq (is_queue s)) of
     (c, sq) \<Rightarrow> (c, s\<lparr>is_queue := (is_queue s)\<lparr>aq_sq := sq\<rparr>\<rparr>))"

definition in_handle :: "(aaudio_msg \<Rightarrow> 'w \<Rightarrow> 'w) \<Rightarrow> bce_sq_completion_data \<Rightarrow> 'w in_state \<Rightarrow> 'w in_state" where
  "in_handle cb c s =
     (let q = is_queue s;
          msg = \<lparr>am_data = aq_data q ! aq_data_head q, am_size = cd_data_size c\<rparr>
      in s\<lparr>is_world := cb msg (is_world s),
           is_queue := q\<lparr>aq_data_head := (aq_data_head q + 1) mod AAUDIO_BCE_QUEUE_ELEMENT_COUNT,
             aq_sq := bce_notify_submission_complete (aq_sq q)\<rparr>,
           is_cnt := Suc (is_cnt s)\<rparr>)"

definition aaudio_bce_in_queue_completion ::
  "(aaudio_msg \<Rightarrow> 'w \<Rightarrow> 'w) \<Rightarrow> aaudio_bce_queue \<Rightarrow> 'w \<Rightarrow> (aaudio_bce_queue \<times> 'w) option" where
  "aaudio_bce_in_queue_completion cb q w =
     (case completion_loop in_next (in_handle cb) \<lparr>is_cnt = 0, is_queue = q, is_world = w\<rparr> of
        None \<Rightarrow> None
      | Some s \<Rightarrow> Some (snd (aaudio_bce_in_queue_submit_pending (is_cnt s) (is_queue s)), is_world s))"

section \<open>Set-up and release\<close>

record audio_ptrs =
  ap_cq :: "addr option"
  ap_qout :: "(addr \<times> u64) option"
  ap_qin :: "(addr \<times> u64) option"

record audio_env =
  av_cq :: alloc_env
  av_out :: alloc_env
  av_in :: alloc_env
  av_out_dma :: "u64 option"
  av_in_dma :: "u64 option"
  av_undo :: cmd_env
  av_undo_res :: addr

definition aaudio_bce_queue_init :: "ida_alloc \<Rightarrow> audio_env \<Rightarrow> alloc_env \<Rightarrow> u64 option \<Rightarrow> addr
    \<Rightarrow> u8 list \<Rightarrow> int \<Rightarrow> bce_sq_completion \<Rightarrow> addr \<Rightarrow> apple_bce_device
    \<Rightarrow> int \<times> (addr \<times> u64) option \<times> apple_bce_device" where
  "aaudio_bce_queue_init ida env al dma cq name direction cfn self dev =
     (case bce_create_sq ida al (Some cq) (Some name) (of_nat (AAUDIO_BCE_QUEUE_ELEMENT_COUNT + 1))
         direction cfn self dev of
        (None, dev1) \<Rightarrow> (- EINVAL, None, dev1)
      | (Some sq, dev1) \<Rightarrow>
          (case dma of
             None \<Rightarrow> (- EINVAL, None, bce_destroy_sq (av_undo_res env) (av_undo env) sq dev1)
           | Some d \<Rightarrow> (0, Some (sq, d), dev1)))"

text \<open>The new incoming queue, and the first batch of buffers posted on it.\<close>

definition in_queue_init :: "bce_queue_sq \<Rightarrow> u64 \<Rightarrow> aaudio_bce_queue" where
  "in_queue_init sq dma = \<lparr>aq_sq = sq, aq_data = replicate AAUDIO_BCE_QUEUE_ELEMENT_COUNT
       (replicate AAUDIO_BCE_QUEUE_ELEMENT_SIZE 0),
     aq_dma_addr = dma, aq_data_head = 0, aq_data_tail = 0\<rparr>"

definition in_queue_start :: "(addr \<times> u64) option \<Rightarrow> apple_bce_device \<Rightarrow> apple_bce_device" where
  "in_queue_start qin dev =
     (case qin of None \<Rightarrow> dev
      | Some (a, dma) \<Rightarrow>
          (case sq_at dev a of None \<Rightarrow> dev
           | Some sq \<Rightarrow> set_sq a (aq_sq (snd (aaudio_bce_in_queue_submit_pending
               AAUDIO_BCE_QUEUE_ELEMENT_COUNT (in_queue_init sq dma)))) dev))"

text \<open>A failure leaves what was created to \<open>aaudio_bce_free\<close>, which the caller runs.\<close>

definition aaudio_bce_init :: "ida_alloc \<Rightarrow> audio_env \<Rightarrow> u8 list \<Rightarrow> u8 list \<Rightarrow> addr \<Rightarrow> apple_bce_device
    \<Rightarrow> int \<times> audio_ptrs \<times> apple_bce_device" where
  "aaudio_bce_init ida env out_name in_name self dev =
     (case bce_create_cq ida (av_cq env) 0x80 dev of
        (None, dev1) \<Rightarrow> (- EINVAL, \<lparr>ap_cq = None, ap_qout = None, ap_qin = None\<rparr>, dev1)
      | (Some cq, dev1) \<Rightarrow>
          (case aaudio_bce_queue_init ida env (av_out env) (av_out_dma env) cq out_name DMA_TO_DEVICE
              Cb_aaudio_out_queue_completion self dev1 of
             (st, qout, dev2) \<Rightarrow>
               if st \<noteq> 0 then (st, \<lparr>ap_cq = Some cq, ap_qout = qout, ap_qin = None\<rparr>, dev2)
               else
                 (case aaudio_bce_queue_init ida env (av_in env) (av_in_dma env) cq in_name
                     DMA_FROM_DEVICE Cb_aaudio_in_queue_completion self dev2 of
                    (st', qin, dev3) \<Rightarrow> (st', \<lparr>ap_cq = Some cq, ap_qout = qout, ap_qin = qin\<rparr>,
                       in_queue_start qin dev3))))"

definition free_queue_of :: "addr \<Rightarrow> cmd_env \<Rightarrow> (addr \<times> u64) option \<Rightarrow> apple_bce_device \<Rightarrow> apple_bce_device" where
  "free_queue_of r env q dev = (case q of None \<Rightarrow> dev | Some (a, dma) \<Rightarrow> bce_destroy_sq r env a dev)"

definition aaudio_bce_free :: "addr \<Rightarrow> cmd_env \<Rightarrow> audio_ptrs \<Rightarrow> apple_bce_device \<Rightarrow> apple_bce_device" where
  "aaudio_bce_free r env p dev =
     (let dev1 = free_queue_of r env (ap_qin p) dev;
          dev2 = free_queue_of r env (ap_qout p) dev1
      in case ap_cq p of None \<Rightarrow> dev2 | Some cq \<Rightarrow> bce_destroy_cq r env cq dev2)"

section \<open>The window of buffers in flight\<close>

text \<open>
  The elements in flight use the data buffers in ring order from \<open>h\<close> on, one buffer each, up
  to the buffer at the tail. The ring of slots is one larger than the ring of buffers.
\<close>

definition aq_window :: "nat \<Rightarrow> sq_spec \<Rightarrow> aaudio_bce_queue \<Rightarrow> bool" where
  "aq_window h s q \<longleftrightarrow> sq_refines s (aq_sq q) \<and> sq_size (aq_sq q) = 21 \<and> h < 20
     \<and> aq_data_tail q = (h + length (sp_inflight s)) mod 20
     \<and> (\<forall>i < length (sp_inflight s). \<exists>sz. sp_inflight s ! i
          = buffer_submission (aq_dma_addr q) ((h + i) mod 20) sz)"

lemma aq_windowD:
  assumes "aq_window h s q"
  shows "sq_refines s (aq_sq q)" "sp_reserved s + length (sp_inflight s) \<le> 20" "h < 20"
    "aq_data_tail q = (h + length (sp_inflight s)) mod 20"
  using assms by (auto simp: aq_window_def sq_refines_def)

lemma window_tail_free:
  assumes "aq_window h s q" and "0 < sp_reserved s" and "i < length (sp_inflight s)"
  shows "(h + i) mod 20 \<noteq> aq_data_tail q"
proof
  assume eq: "(h + i) mod 20 = aq_data_tail q"
  have "h + i = h + length (sp_inflight s)"
    by (rule mod_eq_window [of _ 20]) (use eq aq_windowD [OF assms(1)] assms(2,3) in linarith)+
  with assms(3) show False by simp
qed

lemma window_post:
  fixes sz :: u64
  assumes w: "aq_window h s q" and r: "0 < sp_reserved s"
  defines "el \<equiv> buffer_submission (aq_dma_addr q) (aq_data_tail q) sz"
  shows "aq_window h (s\<lparr>sp_reserved := sp_reserved s - 1, sp_inflight := sp_inflight s @ [el]\<rparr>)
    (q\<lparr>aq_sq := sq_post el (aq_sq q), aq_data_tail := (aq_data_tail q + 1) mod 20\<rparr>)"
proof -
  have "sq_size (sq_post el (aq_sq q)) = 21" using w by (simp add: aq_window_def sq_post_unfold)
  moreover have "((h + length (sp_inflight s)) mod 20 + 1) mod 20 = (h + Suc (length (sp_inflight s))) mod 20"
    by (simp add: mod_Suc_eq)
  ultimately show ?thesis
    using w sq_refines_post [OF aq_windowD(1) [OF w] r, of el]
    by (auto simp: aq_window_def nth_append less_Suc_eq el_def)
qed

lemma window_retire:
  assumes w: "aq_window h s q" and ne: "sp_inflight s \<noteq> []"
    and r: "sq_refines (s\<lparr>sp_completions := cs, sp_inflight := tl (sp_inflight s)\<rparr>) sq"
    and sz: "sq_size sq = 21"
  shows "aq_window ((h + 1) mod 20) (s\<lparr>sp_completions := cs, sp_inflight := tl (sp_inflight s)\<rparr>)
    (q\<lparr>aq_sq := sq, aq_data_head := x\<rparr>)"
proof -
  obtain e es where e: "sp_inflight s = e # es" using ne by (cases "sp_inflight s") auto
  have m: "((h + 1) mod 20 + i) mod 20 = (h + Suc i) mod 20" for i by (simp add: mod_add_left_eq)
  have "\<exists>sz. es ! i = buffer_submission (aq_dma_addr q) ((h + Suc i) mod 20) sz" if "i < length es" for i
    using w that e by (auto simp: aq_window_def dest!: spec [of _ "Suc i"])
  then show ?thesis using w r sz e m by (simp add: aq_window_def)
qed

text \<open>
  The buffer a sender fills belongs to it alone: while it holds a reservation, the
  buffer at the tail is none of the buffers the device may still be reading, and sending
  keeps the window of buffers consistent with one more element in flight, so twenty buffers
  serve a ring of twenty-one slots without a buffer ever being written while in flight.
\<close>

theorem audio_send_buffer_exclusive:
  assumes w: "aq_window h s (ba_qout b)" and r: "0 < sp_reserved s"
    and i: "sc_index ctx = aq_data_tail (ba_qout b)"
  shows "(\<forall>i < length (sp_inflight s). \<exists>sz. sp_inflight s ! i
        = buffer_submission (aq_dma_addr (ba_qout b)) ((h + i) mod 20) sz \<and> (h + i) mod 20 \<noteq> sc_index ctx)
    \<and> (\<exists>s'. aq_window h s' (ba_qout (snd (aaudio_send_msg ctx b)))
        \<and> sp_inflight s' = sp_inflight s @ [buffer_submission (aq_dma_addr (ba_qout b)) (sc_index ctx) (sc_size ctx)]
        \<and> sp_reserved s' = sp_reserved s - 1)"
proof -
  have "ba_qout (snd (aaudio_send_msg ctx b)) = (ba_qout b)
      \<lparr>aq_sq := sq_post (buffer_submission (aq_dma_addr (ba_qout b)) (sc_index ctx) (sc_size ctx))
           (aq_sq (ba_qout b)),
       aq_data_tail := (aq_data_tail (ba_qout b) + 1) mod 20\<rparr>"
    by (simp add: aaudio_send_msg_def sq_post_def Let_def split_beta)
  then have "\<exists>s'. aq_window h s' (ba_qout (snd (aaudio_send_msg ctx b)))
        \<and> sp_inflight s' = sp_inflight s @ [buffer_submission (aq_dma_addr (ba_qout b)) (sc_index ctx) (sc_size ctx)]
        \<and> sp_reserved s' = sp_reserved s - 1"
    using window_post [OF w r, of "sc_size ctx"] i by (intro exI conjI) (simp, simp_all)
  moreover have "\<forall>i < length (sp_inflight s). \<exists>sz. sp_inflight s ! i
        = buffer_submission (aq_dma_addr (ba_qout b)) ((h + i) mod 20) sz \<and> (h + i) mod 20 \<noteq> sc_index ctx"
    using w window_tail_free [OF w r] i by (auto simp: aq_window_def)
  ultimately show ?thesis by blast
qed

section \<open>The incoming queue\<close>

definition in_window :: "sq_spec \<Rightarrow> aaudio_bce_queue \<Rightarrow> bool" where
  "in_window s q \<longleftrightarrow> aq_window (aq_data_head q) s q \<and> sp_reserved s = 0 \<and> sp_handled s = 0"

text \<open>The messages a run of completions brings, from the buffers in ring order.\<close>

fun received :: "(nat \<Rightarrow> u8 list) \<Rightarrow> bce_sq_completion_data list \<Rightarrow> aaudio_msg list" where
  "received f [] = []"
| "received f (c # cs) = \<lparr>am_data = f 0, am_size = cd_data_size c\<rparr> # received (\<lambda>i. f (Suc i)) cs"

abbreviation in_buffers :: "aaudio_bce_queue \<Rightarrow> nat \<Rightarrow> u8 list" where
  "in_buffers q \<equiv> (\<lambda>i. aq_data q ! ((aq_data_head q + i) mod 20))"

lemma length_received [simp]: "length (received f cs) = length cs"
  by (induction cs arbitrary: f) simp_all

lemma in_submit_one_window:
  assumes w: "aq_window h s q" and room: "sp_reserved s = 0" "length (sp_inflight s) < 20"
  shows "\<exists>q' el. in_submit_one q = Some q' \<and> aq_window h (s\<lparr>sp_inflight := sp_inflight s @ [el]\<rparr>) q'
    \<and> aq_data q' = aq_data q \<and> aq_data_head q' = aq_data_head q"
proof -
  note r = aq_windowD(1) [OF w]
  have av: "0 < sq_available_commands (aq_sq q)"
    using w r room by (auto simp: sq_refines_def aq_window_def)
  let ?q1 = "q\<lparr>aq_sq := (aq_sq q)\<lparr>sq_available_commands := sq_available_commands (aq_sq q) - 1\<rparr>\<rparr>"
  have w1: "aq_window h (s\<lparr>sp_reserved := Suc (sp_reserved s)\<rparr>) ?q1"
    using w sq_refines_reserve [OF r av] by (simp add: aq_window_def)
  let ?el = "buffer_submission (aq_dma_addr q) (aq_data_tail q) 0x1000"
  have "in_submit_one q = Some (?q1\<lparr>aq_sq := sq_post ?el (aq_sq ?q1),
      aq_data_tail := (aq_data_tail ?q1 + 1) mod 20\<rparr>)"
    using av by (simp add: in_submit_one_def reserve_available sq_post_def Let_def split_beta)
  moreover have "aq_window h (s\<lparr>sp_inflight := sp_inflight s @ [?el]\<rparr>)
      (?q1\<lparr>aq_sq := sq_post ?el (aq_sq ?q1), aq_data_tail := (aq_data_tail ?q1 + 1) mod 20\<rparr>)"
    using window_post [OF w1, where sz = "0x1000"] by (cases s) simp
  ultimately show ?thesis by (intro exI conjI) (assumption, assumption, simp_all)
qed

lemma in_submit_loop_window:
  assumes "aq_window h s q" and "sp_reserved s = 0" and "length (sp_inflight s) + n \<le> 20"
  shows "\<exists>els. aq_window h (s\<lparr>sp_inflight := sp_inflight s @ els\<rparr>) (in_submit_loop n q)
    \<and> length els = n \<and> aq_data (in_submit_loop n q) = aq_data q
    \<and> aq_data_head (in_submit_loop n q) = aq_data_head q"
  using assms
proof (induction n arbitrary: s q)
  case 0
  then show ?case by (intro exI [of _ "[]"]) simp
next
  case (Suc n)
  obtain q' el where q': "in_submit_one q = Some q'"
    "aq_window h (s\<lparr>sp_inflight := sp_inflight s @ [el]\<rparr>) q'"
    "aq_data q' = aq_data q" "aq_data_head q' = aq_data_head q"
    using in_submit_one_window [OF Suc.prems(1)] Suc.prems(2,3) by auto
  obtain els where "aq_window h (s\<lparr>sp_inflight := (sp_inflight s @ [el]) @ els\<rparr>) (in_submit_loop n q')"
    "length els = n" "aq_data (in_submit_loop n q') = aq_data q'"
    "aq_data_head (in_submit_loop n q') = aq_data_head q'"
    using Suc.IH [OF q'(2)] Suc.prems(2,3) by auto
  with q' show ?case by (intro exI [of _ "el # els"]) simp
qed

lemma in_loop_receives:
  assumes "in_window s (is_queue e)"
  shows "\<exists>e' s'. completion_loop in_next (in_handle cb) e = Some e' \<and> in_window s' (is_queue e')
    \<and> sp_completions s' = [] \<and> sp_inflight s' = drop (length (sp_completions s)) (sp_inflight s)
    \<and> is_world e' = fold cb (received (in_buffers (is_queue e)) (sp_completions s)) (is_world e)
    \<and> is_cnt e' = is_cnt e + length (sp_completions s)
    \<and> aq_data (is_queue e') = aq_data (is_queue e)"
  using assms
proof (induction "sp_completions s" arbitrary: s e)
  case Nil
  have "in_next e = (None, e)"
    using sq_refines_take(1) [of s "aq_sq (is_queue e)"] Nil
    by (simp add: in_next_def in_window_def aq_window_def)
  then show ?case using Nil by (intro exI [of _ e] exI [of _ s]) (simp add: completion_loop_None)
next
  case (Cons x xs)
  let ?q = "is_queue e"
  have w: "aq_window (aq_data_head ?q) s ?q" and sr: "sp_reserved s = 0" "sp_handled s = 0"
    using Cons.prems by (simp_all add: in_window_def)
  obtain sq where sq: "bce_next_completion (aq_sq ?q) = (Some x, sq)"
    "sq_refines (s\<lparr>sp_completions := xs, sp_inflight := tl (sp_inflight s)\<rparr>)
       (bce_notify_submission_complete sq)"
    using sq_ring.take_retire [OF aq_windowD(1) [OF w] Cons.hyps(2) [symmetric]] by blast
  let ?s1 = "s\<lparr>sp_completions := xs, sp_inflight := tl (sp_inflight s)\<rparr>"
  let ?e1 = "e\<lparr>is_queue := ?q\<lparr>aq_sq := sq\<rparr>\<rparr>"
  let ?e2 = "in_handle cb x ?e1"
  have ne: "sp_inflight s \<noteq> []"
    using aq_windowD(1) [OF w] Cons.hyps(2) [symmetric] by (auto simp: sq_refines_def)
  have "sq_el_count sq = sq_el_count (aq_sq ?q)"
    using sq(1) by (auto simp: bce_next_completion_def split: if_splits)
  then have size: "sq_size (bce_notify_submission_complete sq) = 21"
    using w by (simp add: aq_window_def bce_notify_submission_complete_def)
  have q2: "is_queue ?e2 = ?q\<lparr>aq_sq := bce_notify_submission_complete sq,
      aq_data_head := (aq_data_head ?q + 1) mod 20\<rparr>"
    by (simp add: in_handle_def Let_def)
  have w2: "in_window ?s1 (is_queue ?e2)"
    using window_retire [OF w ne sq(2) size] sr by (simp add: in_window_def q2)
  have bufs: "in_buffers (is_queue ?e2) = (\<lambda>i. in_buffers ?q (Suc i))"
    by (simp add: q2 mod_add_left_eq mod_Suc_eq)
  have h: "aq_data_head ?q mod 20 = aq_data_head ?q" using aq_windowD(3) [OF w] by simp
  have step: "is_world ?e2 = cb \<lparr>am_data = in_buffers ?q 0, am_size = cd_data_size x\<rparr> (is_world e)"
    "is_cnt ?e2 = Suc (is_cnt e)" "aq_data (is_queue ?e2) = aq_data ?q"
    using h by (simp_all add: in_handle_def Let_def)
  from Cons.hyps(1) [OF _ w2] obtain e' s' where
    e': "completion_loop in_next (in_handle cb) ?e2 = Some e'" "in_window s' (is_queue e')"
    "sp_completions s' = []" "sp_inflight s' = drop (length xs) (tl (sp_inflight s))"
    "is_world e' = fold cb (received (in_buffers (is_queue ?e2)) xs) (is_world ?e2)"
    "is_cnt e' = is_cnt ?e2 + length xs" "aq_data (is_queue e') = aq_data (is_queue ?e2)"
    by auto
  have "in_next e = (Some x, ?e1)" using sq(1) by (simp add: in_next_def)
  then have "completion_loop in_next (in_handle cb) e = Some e'"
    using e'(1) by (simp add: completion_loop_Some)
  moreover have "sp_inflight s' = drop (length (sp_completions s)) (sp_inflight s)"
    using e'(4) ne Cons.hyps(2) [symmetric] by (cases "sp_inflight s") simp_all
  ultimately show ?case
    using e'(2,3,5-7) step Cons.hyps(2) [symmetric] unfolding bufs
    by (intro exI [of _ e'] exI [of _ s']) simp
qed

text \<open>
  Property C20. The completion handler of the incoming queue terminates and hands every received
  message to the dispatcher once, in order, each from the buffer it was received in and with
  the size the device reported. It posts as many buffers as it took, so the number of
  buffers the device can fill never shrinks, and the window of buffers stays consistent.
\<close>

theorem audio_in_queue_receives:
  assumes "in_window s q"
  shows "\<exists>q' s'. aaudio_bce_in_queue_completion cb q w
      = Some (q', fold cb (received (in_buffers q) (sp_completions s)) w)
    \<and> in_window s' q' \<and> sp_completions s' = []
    \<and> length (sp_inflight s') = length (sp_inflight s) \<and> aq_data q' = aq_data q"
proof -
  let ?e = "\<lparr>is_cnt = 0, is_queue = q, is_world = w\<rparr>"
  obtain e' s' where e': "completion_loop in_next (in_handle cb) ?e = Some e'"
    "in_window s' (is_queue e')" "sp_completions s' = []"
    "sp_inflight s' = drop (length (sp_completions s)) (sp_inflight s)"
    "is_world e' = fold cb (received (in_buffers q) (sp_completions s)) w"
    "is_cnt e' = length (sp_completions s)" "aq_data (is_queue e') = aq_data q"
    using in_loop_receives [of s ?e cb] assms by auto
  have r: "aq_window (aq_data_head q) s q" using assms by (simp add: in_window_def)
  have le: "length (sp_completions s) \<le> length (sp_inflight s)" "length (sp_inflight s) \<le> 20"
    using aq_windowD(1,2) [OF r] by (auto simp: sq_refines_def)
  have w': "aq_window (aq_data_head (is_queue e')) s' (is_queue e')" "sp_reserved s' = 0" "sp_handled s' = 0"
    using e'(2) by (simp_all add: in_window_def)
  obtain els where els: "aq_window (aq_data_head (is_queue e')) (s'\<lparr>sp_inflight := sp_inflight s' @ els\<rparr>)
      (in_submit_loop (is_cnt e') (is_queue e'))" "length els = is_cnt e'"
    "aq_data (in_submit_loop (is_cnt e') (is_queue e')) = aq_data (is_queue e')"
    "aq_data_head (in_submit_loop (is_cnt e') (is_queue e')) = aq_data_head (is_queue e')"
    using in_submit_loop_window [OF w'(1,2), of "is_cnt e'"] e'(4,6) le by auto
  have "aaudio_bce_in_queue_completion cb q w
      = Some (in_submit_loop (is_cnt e') (is_queue e'), is_world e')"
    using e'(1) by (simp add: aaudio_bce_in_queue_completion_def aaudio_bce_in_queue_submit_pending_def Let_def)
  then show ?thesis
    using els e' le w'(2,3)
    by (intro exI [of _ "in_submit_loop (is_cnt e') (is_queue e')"]
        exI [of _ "s'\<lparr>sp_inflight := sp_inflight s' @ els\<rparr>"]) (auto simp: in_window_def)
qed

section \<open>Tags\<close>

text \<open>The parser returns the value of three decimal digits.\<close>

definition kstrtoint_ok :: "kstrtoint \<Rightarrow> bool" where
  "kstrtoint_ok kstr \<longleftrightarrow> (\<forall>i < 10. \<forall>j < 10. \<forall>k < 10.
     kstr [of_nat (48 + i), of_nat (48 + j), of_nat (48 + k)] = Some (int (100 * i + 10 * j + k)))"

lemma kstrtoint_okD:
  "kstrtoint_ok kstr \<Longrightarrow> i < 10 \<Longrightarrow> j < 10 \<Longrightarrow> k < 10
     \<Longrightarrow> kstr [of_nat (48 + i), of_nat (48 + j), of_nat (48 + k)] = Some (int (100 * i + 10 * j + k))"
  by (simp add: kstrtoint_ok_def)

lemma tag_parses:
  assumes "kstrtoint_ok kstr" and "n < 1000"
  shows "kstr (take 3 (drop 1 (tag_bytes n @ rest))) = Some (int n)"
proof -
  have "n div 100 < 10" "n div 10 div 10 = n div 100" using assms(2) by (simp_all add: div_mult2_eq [symmetric])
  moreover have "n div 100 mod 10 = n div 100" using calculation(1) by simp
  ultimately have "100 * (n div 100 mod 10) + 10 * (n div 10 mod 10) + n mod 10 = n"
    using div_mult_mod_eq [of n 10] div_mult_mod_eq [of "n div 10" 10] by linarith
  then have "int (100 * (n div 100 mod 10) + 10 * (n div 10 mod 10) + n mod 10) = int n" by (rule arg_cong)
  moreover have "kstr [of_nat (48 + n div 100 mod 10), of_nat (48 + n div 10 mod 10), of_nat (48 + n mod 10)]
      = Some (int (100 * (n div 100 mod 10) + 10 * (n div 10 mod 10) + n mod 10))"
    by (rule kstrtoint_okD [OF assms(1)]) simp_all
  ultimately have "kstr [of_nat (48 + n div 100 mod 10), of_nat (48 + n div 10 mod 10), of_nat (48 + n mod 10)]
      = Some (int n)" by (simp only:)
  then show ?thesis by (simp add: tag_bytes_def)
qed

text \<open>A reply with the tag \<open>n\<close> reaches the caller that waits under \<open>n\<close>.\<close>

lemma handle_reply_tag:
  assumes "kstrtoint_ok kstr" and "n < 100" and "am_data reply = tag_bytes n @ rest"
  shows "aaudio_handle_reply kstr reply b =
    (case ba_pending b ! n of
       None \<Rightarrow> Some b
     | Some a \<Rightarrow> (case ba_entries b a of
         None \<Rightarrow> None
       | Some e \<Rightarrow> (case deliver_reply reply e of
           None \<Rightarrow> None
         | Some e' \<Rightarrow> Some (b\<lparr>ba_entries := (ba_entries b)(a \<mapsto> e'),
             ba_pending := (ba_pending b)[n := None]\<rparr>))))"
proof -
  have "kstr (take 3 (drop 1 (am_data reply))) = Some (int n)"
    unfolding assms(3) by (rule tag_parses [OF assms(1)]) (use assms(2) in simp)
  moreover have "\<not> length (am_data reply) < 4" "am_data reply ! 0 = 83"
    using assms(3) by (simp_all add: tag_bytes_def)
  ultimately show ?thesis
    using assms(2) by (simp add: aaudio_handle_reply_def cong: option.case_cong)
qed

section \<open>Waiting callers\<close>

text \<open>
  The transport with its callers: \<open>au_callers\<close> gives the tag of every caller between the
  registration of its entry and its return.
\<close>

record audio_sys =
  au_bce :: aaudio_bce
  au_callers :: "addr \<Rightarrow> nat option"

text \<open>The caller's reply buffer announces no more than it has, and at most one element.\<close>

definition buffer_ok :: "aaudio_msg \<Rightarrow> bool" where
  "buffer_ok m \<longleftrightarrow> unat (am_size m) \<le> length (am_data m) \<and> unat (am_size m) \<le> 0x1000"

inductive audio_step :: "kstrtoint \<Rightarrow> audio_sys \<Rightarrow> audio_sys \<Rightarrow> bool" for kstr where
  as_begin: "ba_entries (au_bce s) a = None \<Longrightarrow> sc_tag_n ctx < 100 \<Longrightarrow> buffer_ok reply
    \<Longrightarrow> audio_step kstr s (s\<lparr>au_bce := send_cmd_begin a reply ctx (au_bce s),
          au_callers := (au_callers s)(a \<mapsto> sc_tag_n ctx)\<rparr>)"
| as_reply: "length (am_data m) = 0x1000 \<Longrightarrow> aaudio_handle_reply kstr m (au_bce s) = Some b
    \<Longrightarrow> audio_step kstr s (s\<lparr>au_bce := b\<rparr>)"
| as_return: "au_callers s a = Some n \<Longrightarrow> entry_done a (au_bce s)
    \<Longrightarrow> audio_step kstr s (s\<lparr>au_bce := pop_entry a (au_bce s), au_callers := (au_callers s)(a := None)\<rparr>)"
| as_timeout: "au_callers s a = Some n
    \<Longrightarrow> audio_step kstr s (s\<lparr>au_bce := pop_entry a (send_cmd_timeout a n (au_bce s)),
          au_callers := (au_callers s)(a := None)\<rparr>)"
| as_queue: "audio_step kstr s (s\<lparr>au_bce := (au_bce s)\<lparr>ba_qout := q, ba_tag_num := t\<rparr>\<rparr>)"

inductive audio_reachable :: "kstrtoint \<Rightarrow> audio_sys \<Rightarrow> bool" for kstr where
  ar_init: "ba_pending b = replicate 100 None \<Longrightarrow> ba_entries b = Map.empty
    \<Longrightarrow> audio_reachable kstr \<lparr>au_bce = b, au_callers = Map.empty\<rparr>"
| ar_step: "audio_reachable kstr s \<Longrightarrow> audio_step kstr s s' \<Longrightarrow> audio_reachable kstr s'"

definition pending_inv :: "audio_sys \<Rightarrow> bool" where
  "pending_inv s \<longleftrightarrow> length (ba_pending (au_bce s)) = 100
     \<and> (\<forall>a. ba_entries (au_bce s) a \<noteq> None \<longleftrightarrow> au_callers s a \<noteq> None)
     \<and> (\<forall>a e. ba_entries (au_bce s) a = Some e \<longrightarrow> buffer_ok (en_msg e))
     \<and> (\<forall>n a. n < 100 \<longrightarrow> ba_pending (au_bce s) ! n = Some a \<longrightarrow>
          au_callers s a = Some n \<and> \<not> entry_done a (au_bce s))"

lemma pending_invD:
  assumes "pending_inv s"
  shows "length (ba_pending (au_bce s)) = 100"
    "ba_entries (au_bce s) a \<noteq> None \<longleftrightarrow> au_callers s a \<noteq> None"
    "ba_entries (au_bce s) a = Some e \<Longrightarrow> buffer_ok (en_msg e)"
    "n < 100 \<Longrightarrow> ba_pending (au_bce s) ! n = Some a
       \<Longrightarrow> au_callers s a = Some n \<and> \<not> entry_done a (au_bce s)"
  using assms by (auto simp: pending_inv_def)

lemma deliver_reply_ok:
  assumes "buffer_ok (en_msg e)" and "length (am_data m) = 0x1000"
  shows "\<exists>e'. deliver_reply m e = Some e' \<and> buffer_ok (en_msg e') \<and> en_done e'"
proof -
  let ?n = "unat (if am_size m < am_size (en_msg e) then am_size m else am_size (en_msg e))"
  have "?n \<le> unat (am_size (en_msg e))" by (simp add: word_less_nat_alt)
  with assms show ?thesis by (auto simp: deliver_reply_def Let_def buffer_ok_def)
qed

lemma handle_reply_cases:
  assumes inv: "pending_inv s" and m: "length (am_data m) = 0x1000"
  shows "aaudio_handle_reply kstr m (au_bce s) = Some (au_bce s)
    \<or> (\<exists>n a e'. n < 100 \<and> ba_pending (au_bce s) ! n = Some a \<and> buffer_ok (en_msg e')
        \<and> aaudio_handle_reply kstr m (au_bce s) = Some ((au_bce s)
            \<lparr>ba_entries := (ba_entries (au_bce s))(a \<mapsto> e'), ba_pending := (ba_pending (au_bce s))[n := None]\<rparr>))"
proof (cases "aaudio_handle_reply kstr m (au_bce s) = Some (au_bce s)")
  case False
  then obtain k a where k: "am_data m ! 0 = 83" "kstr (take 3 (drop 1 (am_data m))) = Some k"
    "\<not> k < 0" "\<not> k \<ge> 100" "ba_pending (au_bce s) ! nat k = Some a"
    using m by (auto simp: aaudio_handle_reply_def split: if_splits option.splits)
  then have n: "nat k < 100" by simp
  then obtain e where e: "ba_entries (au_bce s) a = Some e"
    using pending_invD(2,4) [OF inv] k(5) by blast
  then obtain e' where "deliver_reply m e = Some e'" "buffer_ok (en_msg e')"
    using deliver_reply_ok [OF pending_invD(3) [OF inv e] m] by blast
  then show ?thesis
    using k e n m by (auto simp: aaudio_handle_reply_def)
qed simp

lemma pending_inv_init:
  "ba_pending b = replicate 100 None \<Longrightarrow> ba_entries b = Map.empty
     \<Longrightarrow> pending_inv \<lparr>au_bce = b, au_callers = Map.empty\<rparr>"
  by (simp add: pending_inv_def)

lemma pending_inv_begin:
  assumes inv: "pending_inv s" and "ba_entries (au_bce s) a = None" and "sc_tag_n ctx < 100"
    and "buffer_ok reply"
  shows "pending_inv (s\<lparr>au_bce := send_cmd_begin a reply ctx (au_bce s),
    au_callers := (au_callers s)(a \<mapsto> sc_tag_n ctx)\<rparr>)"
proof -
  have "au_callers s a = None" using pending_invD(2) [OF inv] assms(2) by blast
  then have "ba_pending (au_bce s) ! n \<noteq> Some a" if "n < 100" for n
    using pending_invD(4) [OF inv that] by fastforce
  then show ?thesis
    using assms pending_invD [OF inv]
    by (auto simp: pending_inv_def send_cmd_begin_def aaudio_send_msg_def Let_def split_beta
        entry_done_def nth_list_update)
qed

lemma pending_inv_clear:
  assumes inv: "pending_inv s" and "n < 100" and "ba_pending (au_bce s) ! n = Some a"
    and "buffer_ok (en_msg e')"
  shows "pending_inv (s\<lparr>au_bce := (au_bce s)\<lparr>ba_entries := (ba_entries (au_bce s))(a \<mapsto> e'),
    ba_pending := (ba_pending (au_bce s))[n := None]\<rparr>\<rparr>)"
proof -
  have a: "au_callers s a = Some n" using pending_invD(4) [OF inv assms(2,3)] by blast
  have "a' \<noteq> a" if "k < 100" "k \<noteq> n" "ba_pending (au_bce s) ! k = Some a'" for k a'
    using pending_invD(4) [OF inv that(1,3)] a that(2) by auto
  then show ?thesis
    using assms pending_invD [OF inv] a
    by (auto simp: pending_inv_def entry_done_def nth_list_update)
qed

text \<open>A caller may return when no slot of the table names it.\<close>

lemma pending_inv_pop:
  assumes inv: "pending_inv s" and "\<And>n. n < 100 \<Longrightarrow> ba_pending (au_bce s) ! n \<noteq> Some a"
  shows "pending_inv (s\<lparr>au_bce := pop_entry a (au_bce s), au_callers := (au_callers s)(a := None)\<rparr>)"
  using assms(2) pending_invD [OF inv] by (auto simp: pending_inv_def pop_entry_def entry_done_def)

lemma nth_clearedD: "xs[n := None] ! k = Some a \<Longrightarrow> k < length xs \<Longrightarrow> xs ! k = Some a"
  by (cases "k = n") simp_all

lemma pending_inv_timeout:
  assumes inv: "pending_inv s" and a: "au_callers s a = Some n"
  defines "b \<equiv> send_cmd_timeout a n (au_bce s)"
  shows "pending_inv (s\<lparr>au_bce := b\<rparr>)" and "k < 100 \<Longrightarrow> ba_pending b ! k \<noteq> Some a"
proof -
  note d = pending_invD [OF inv]
  have en: "ba_entries b = ba_entries (au_bce s)" by (simp add: b_def send_cmd_timeout_def)
  have other: "ba_pending (au_bce s) ! k \<noteq> Some a" if "k < 100" "k \<noteq> n" for k
    using d(4) [OF that(1), of a] a that(2) by auto
  show "k < 100 \<Longrightarrow> ba_pending b ! k \<noteq> Some a"
    using other [of k] d(1) by (cases "k = n") (auto simp: b_def send_cmd_timeout_def nth_list_update)
  show "pending_inv (s\<lparr>au_bce := b\<rparr>)"
    using d by (auto simp: pending_inv_def en entry_done_def b_def send_cmd_timeout_def
        split: if_splits dest!: nth_clearedD)
qed

lemma audio_step_inv:
  assumes "audio_step kstr s s'" and inv: "pending_inv s"
  shows "pending_inv s'"
  using assms(1)
proof (cases rule: audio_step.cases)
  case (as_begin a ctx reply)
  then show ?thesis using pending_inv_begin [OF inv] by simp
next
  case (as_reply m b)
  then show ?thesis
    using handle_reply_cases [OF inv as_reply(2), of kstr] pending_inv_clear [OF inv] inv by auto
next
  case (as_return a n)
  then have "ba_pending (au_bce s) ! k \<noteq> Some a" if "k < 100" for k
    using pending_invD(4) [OF inv that] by blast
  with as_return show ?thesis using pending_inv_pop [OF inv] by simp
next
  case (as_timeout a n)
  note t = pending_inv_timeout [OF inv as_timeout(2)]
  from pending_inv_pop [OF t(1), of a] t(2) as_timeout(1) show ?thesis by simp
next
  case (as_queue q t)
  then show ?thesis using inv by (simp add: pending_inv_def entry_done_def)
qed

lemma audio_reachable_inv: "audio_reachable kstr s \<Longrightarrow> pending_inv s"
  by (induction rule: audio_reachable.induct) (auto intro: pending_inv_init audio_step_inv)

text \<open>
  Property C19. However commands, replies, timeouts and returns interleave, every pointer in the
  table of pending entries names the entry of a caller that still waits, under that caller's own
  tag, and that has not been completed. So a reply is never written into the stack frame of a
  caller that has returned, and handling any message from a full buffer stays inside the
  caller's reply buffer.
\<close>

theorem audio_pending_live:
  assumes "audio_reachable kstr s"
  shows "(\<forall>n < 100. \<forall>a. ba_pending (au_bce s) ! n = Some a \<longrightarrow>
      au_callers s a = Some n
      \<and> (\<exists>e. ba_entries (au_bce s) a = Some e \<and> \<not> en_done e \<and> buffer_ok (en_msg e)))
    \<and> (\<forall>m. length (am_data m) = 0x1000 \<longrightarrow> aaudio_handle_reply kstr m (au_bce s) \<noteq> None)"
proof -
  note inv = audio_reachable_inv [OF assms]
  have "\<exists>e. ba_entries (au_bce s) a = Some e \<and> \<not> en_done e \<and> buffer_ok (en_msg e)"
    if "n < 100" "ba_pending (au_bce s) ! n = Some a" for n a
  proof -
    note c = pending_invD(4) [OF inv that]
    then obtain e where e: "ba_entries (au_bce s) a = Some e"
      using pending_invD(2) [OF inv, of a] by auto
    with c pending_invD(3) [OF inv e] show ?thesis by (simp add: entry_done_def)
  qed
  moreover have "aaudio_handle_reply kstr m (au_bce s) \<noteq> None" if "length (am_data m) = 0x1000" for m
    using handle_reply_cases [OF inv that, of kstr] by auto
  ultimately show ?thesis by (simp add: pending_invD(4) [OF inv])
qed

section \<open>Commands and their replies\<close>

lemma prepare_available:
  fixes b :: aaudio_bce
  assumes "0 < sq_available_commands (aq_sq (ba_qout b))"
  shows "\<exists>b1. aaudio_send_prepare ws None t b = (0, \<lparr>sc_tag_n = (ba_tag_num b + 1) mod 100,
      sc_index = aq_data_tail (ba_qout b), sc_size = 0, sc_timeout = t\<rparr>, b1)
    \<and> ba_pending b1 = ba_pending b \<and> ba_entries b1 = ba_entries b
    \<and> ba_tag_num b1 = (ba_tag_num b + 1) mod 100
    \<and> aq_data (ba_qout b1) = (aq_data (ba_qout b))[aq_data_tail (ba_qout b) :=
        tag_bytes ((ba_tag_num b + 1) mod 100) @ drop 4 (aq_data (ba_qout b) ! aq_data_tail (ba_qout b))]"
  using assms
  by (simp add: aaudio_send_prepare_def reserve_available aaudio_send_create_tag_def set_qout_data_def Let_def)

lemma write_prepared_frame:
  assumes "write_prepared w ctx b = Some (ctx', b')"
  shows "ba_pending b' = ba_pending b" "ba_entries b' = ba_entries b" "ba_tag_num b' = ba_tag_num b"
    "sc_tag_n ctx' = sc_tag_n ctx"
  using assms by (auto simp: write_prepared_def set_qout_data_def split: option.splits)

lemma send_cmd_begin_frame:
  "ba_pending (send_cmd_begin a reply ctx b) = (ba_pending b)[sc_tag_n ctx := Some a]"
  "ba_entries (send_cmd_begin a reply ctx b) = (ba_entries b)(a \<mapsto> \<lparr>en_msg = reply, en_done = False\<rparr>)"
  "ba_tag_num (send_cmd_begin a reply ctx b) = ba_tag_num b"
  by (simp_all add: send_cmd_begin_def aaudio_send_msg_def Let_def split_beta)

text \<open>What a caller waiting for the tag \<open>n\<close> sees of a reply with this tag.\<close>

lemma wait_reply:
  fixes ctx :: aaudio_send_ctx and a :: addr
  assumes "kstrtoint_ok kstr" and "sc_tag_n ctx < 100" and "length (ba_pending b) = 100"
    and "am_data m = tag_bytes (sc_tag_n ctx) @ rest" and "deliver_reply m \<lparr>en_msg = reply, en_done = False\<rparr> = Some e"
  defines "b1 \<equiv> send_cmd_begin a reply ctx b"
  shows "aaudio_handle_reply kstr m b1 = Some (b1\<lparr>ba_entries := (ba_entries b1)(a \<mapsto> e),
    ba_pending := (ba_pending b1)[sc_tag_n ctx := None]\<rparr>)"
  using assms by (simp add: handle_reply_tag [OF assms(1,2,4)] send_cmd_begin_frame)

text \<open>
  The surroundings of a caller when the reply \<open>r\<close> arrives while it waits, or none: there is
  room in the ring, the caller's tag is free, the reply carries it in a full buffer.
\<close>

definition answered :: "kstrtoint \<Rightarrow> acmd_env \<Rightarrow> aaudio_msg option \<Rightarrow> aaudio_bce \<Rightarrow> bool" where
  "answered kstr env r b \<longleftrightarrow> kstrtoint_ok kstr \<and> 0 < sq_available_commands (aq_sq (ba_qout b))
     \<and> aq_data_tail (ba_qout b) < length (aq_data (ba_qout b))
     \<and> (\<forall>d \<in> set (aq_data (ba_qout b)). length d = 0x1000)
     \<and> length (ba_pending b) = 100 \<and> ba_pending b ! ((ba_tag_num b + 1) mod 100) = None
     \<and> (\<forall>m. r = Some m \<longrightarrow> length (am_data m) = 0x1000
          \<and> (\<exists>rest. am_data m = tag_bytes ((ba_tag_num b + 1) mod 100) @ rest))
     \<and> ae_wait env = (case r of None \<Rightarrow> (\<lambda>b. b) | Some m \<Rightarrow> (\<lambda>b. the (aaudio_handle_reply kstr m b)))
     \<and> ae_relock env = (\<lambda>b. b)"

lemma cmd_sync_outcome:
  fixes b :: aaudio_bce and r :: "aaudio_msg option"
  assumes ans: "answered kstr env r b" and wr: "\<And>m. length (am_data m) = 0x1000 \<Longrightarrow> w m \<noteq> None"
    and buf: "buffer_ok reply"
  shows "\<exists>b'. ba_pending b' = ba_pending b \<and> ba_tag_num b' = (ba_tag_num b + 1) mod 100
    \<and> aaudio_send_cmd_sync env timeout w reply b =
        (case r of
           None \<Rightarrow> Some (- ETIMEDOUT, reply, b')
         | Some m \<Rightarrow> (let size = min (am_size m) (am_size reply); n = unat size in
             Some (0, \<lparr>am_data = take n (am_data m) @ drop n (am_data reply), am_size = size\<rparr>, b')))"
proof -
  have room: "0 < sq_available_commands (aq_sq (ba_qout b))" and k: "kstrtoint_ok kstr"
    and len: "length (ba_pending b) = 100" and free: "ba_pending b ! ((ba_tag_num b + 1) mod 100) = None"
    and wait: "ae_wait env = (case r of None \<Rightarrow> (\<lambda>b. b)
      | Some m \<Rightarrow> (\<lambda>b. the (aaudio_handle_reply kstr m b)))" and re: "ae_relock env = (\<lambda>b. b)"
    and area: "aq_data_tail (ba_qout b) < length (aq_data (ba_qout b))"
      "\<forall>d \<in> set (aq_data (ba_qout b)). length d = 0x1000"
    using ans by (simp_all add: answered_def)
  have m: "length (am_data m) = 0x1000 \<and> (\<exists>rest. am_data m = tag_bytes ((ba_tag_num b + 1) mod 100) @ rest)"
    if "r = Some m" for m using ans that by (simp add: answered_def)
  let ?n = "(ba_tag_num b + 1) mod 100" let ?a = "ae_entry env"
  let ?ctx = "\<lparr>sc_tag_n = ?n, sc_index = aq_data_tail (ba_qout b), sc_size = 0, sc_timeout = timeout\<rparr>"
  obtain b1 where b1: "aaudio_send_prepare (ae_reserve env) None timeout b = (0, ?ctx, b1)"
    "ba_pending b1 = ba_pending b" "ba_tag_num b1 = ?n"
    "aq_data (ba_qout b1) = (aq_data (ba_qout b))[aq_data_tail (ba_qout b) :=
        tag_bytes ?n @ drop 4 (aq_data (ba_qout b) ! aq_data_tail (ba_qout b))]"
    using prepare_available [OF room, of "ae_reserve env" timeout] by blast
  have "length (aq_data (ba_qout b1) ! sc_index ?ctx) = 0x1000"
    using b1(4) area by (simp add: tag_bytes_def)
  then obtain ctx b2 where b2: "write_prepared w ?ctx b1 = Some (ctx, b2)"
    using wr [of "\<lparr>am_data = aq_data (ba_qout b1) ! sc_index ?ctx, am_size = sc_size ?ctx\<rparr>"]
    by (auto simp: write_prepared_def split: option.splits)
  note fr = write_prepared_frame [OF b2]
  have t: "sc_tag_n ctx = ?n" using fr(4) by simp
  have p: "ba_pending b2 = ba_pending b" using fr(1) b1(2) by simp
  let ?b3 = "send_cmd_begin ?a reply ctx b2"
  have restore: "(ba_pending b)[?n := x, ?n := None] = ba_pending b" for x
    using free by (metis list_update_id list_update_overwrite)
  have run: "aaudio_send_cmd_sync env timeout w reply b
      = Some (aaudio_send_cmd_wait (ae_wait env) (ae_relock env) ?a reply ctx b2)"
    using b1(1) b2 by (simp add: aaudio_send_cmd_sync_def)
  show ?thesis
  proof (cases r)
    case None
    have "ba_pending ?b3 ! ?n = Some ?a" using len t p by (simp add: send_cmd_begin_frame)
    then have "aaudio_send_cmd_wait (ae_wait env) (ae_relock env) ?a reply ctx b2
        = (- ETIMEDOUT, reply, pop_entry ?a (?b3\<lparr>ba_pending := (ba_pending ?b3)[?n := None]\<rparr>))"
      using wait re None t
      by (simp add: aaudio_send_cmd_wait_def entry_done_def entry_msg_def send_cmd_timeout_def
          send_cmd_begin_frame Let_def)
    moreover have "ba_pending (pop_entry ?a (?b3\<lparr>ba_pending := (ba_pending ?b3)[?n := None]\<rparr>)) = ba_pending b"
      using t p restore by (simp add: pop_entry_def send_cmd_begin_frame)
    moreover have "ba_tag_num (pop_entry ?a (?b3\<lparr>ba_pending := (ba_pending ?b3)[?n := None]\<rparr>)) = ?n"
      using fr(3) b1(3) by (simp add: pop_entry_def send_cmd_begin_frame)
    ultimately show ?thesis using run None by auto
  next
    case (Some m0)
    let ?s = "min (am_size m0) (am_size reply)"
    let ?e = "\<lparr>en_msg = \<lparr>am_data = take (unat ?s) (am_data m0) @ drop (unat ?s) (am_data reply),
      am_size = ?s\<rparr>, en_done = True\<rparr>"
    have size: "(if am_size m0 < am_size reply then am_size m0 else am_size reply) = ?s"
      by (auto simp: min_def)
    have "unat ?s \<le> unat (am_size reply)" by (simp add: min_def word_le_nat_alt)
    then have del: "deliver_reply m0 \<lparr>en_msg = reply, en_done = False\<rparr> = Some ?e"
      using buf m [OF Some] size by (simp add: deliver_reply_def buffer_ok_def Let_def)
    obtain rest where "am_data m0 = tag_bytes (sc_tag_n ctx) @ rest" using m [OF Some] t by auto
    from wait_reply [OF k _ _ this del, of b2 ?a] t p len
    have "the (aaudio_handle_reply kstr m0 ?b3) = ?b3\<lparr>ba_entries := (ba_entries ?b3)(?a \<mapsto> ?e),
        ba_pending := (ba_pending ?b3)[?n := None]\<rparr>" by simp
    then have "aaudio_send_cmd_wait (ae_wait env) (ae_relock env) ?a reply ctx b2
        = (0, en_msg ?e, pop_entry ?a (?b3\<lparr>ba_entries := (ba_entries ?b3)(?a \<mapsto> ?e),
            ba_pending := (ba_pending ?b3)[?n := None]\<rparr>))"
      using wait Some by (simp add: aaudio_send_cmd_wait_def entry_done_def entry_msg_def Let_def)
    then show ?thesis
      using run Some t p restore fr(3) b1(3)
      by (auto simp: pop_entry_def send_cmd_begin_frame Let_def)
  qed
qed


text \<open>
  A reply buffer that is used again can only shrink: after a first reply of a
  smaller size, a second reply is cut to that size and the bytes behind it are those the
  buffer held before. The device set-up reads three lists into one buffer, so a longer reply
  after a shorter one loses its tail.
\<close>

theorem audio_reply_reuse_truncates:
  assumes "deliver_reply r1 \<lparr>en_msg = buf, en_done = False\<rparr> = Some e1"
    and "deliver_reply r2 \<lparr>en_msg = en_msg e1, en_done = False\<rparr> = Some e2"
    and "am_size r1 \<le> am_size r2"
  shows "am_size (en_msg e2) = am_size (en_msg e1) \<and> am_size (en_msg e2) \<le> am_size r1
    \<and> drop (unat (am_size r1)) (am_data (en_msg e2)) = drop (unat (am_size r1)) (am_data buf)"
proof -
  let ?n1 = "unat (min (am_size r1) (am_size buf))"
  have e1: "en_msg e1 = \<lparr>am_data = take ?n1 (am_data r1) @ drop ?n1 (am_data buf),
      am_size = min (am_size r1) (am_size buf)\<rparr>" and l1: "?n1 \<le> length (am_data r1)"
    using assms(1) by (auto simp: deliver_reply_def Let_def min_def split: if_splits)
  have "min (am_size r2) (am_size (en_msg e1)) = am_size (en_msg e1)"
    using assms(3) by (auto simp: e1 min_def)
  then have e2: "en_msg e2 = \<lparr>am_data = take ?n1 (am_data r2) @ drop ?n1 (am_data (en_msg e1)),
      am_size = am_size (en_msg e1)\<rparr>" and l2: "?n1 \<le> length (am_data r2)"
    using assms(2) e1 by (auto simp: deliver_reply_def Let_def min_def split: if_splits)
  have le: "?n1 \<le> unat (am_size r1)" by (simp add: min_def word_le_nat_alt)
  have "drop ?n1 (am_data (en_msg e1)) = drop ?n1 (am_data buf)" using e1 l1 by simp
  then have "drop (unat (am_size r1)) (am_data (en_msg e2)) = drop (unat (am_size r1)) (am_data buf)"
    using e2 l2 le by simp
  then show ?thesis using e1 e2 by (metis aaudio_msg.select_convs(2) min.cobounded1)
qed

section \<open>Examples\<close>

definition ex_aring :: bce_queue_sq where
  "ex_aring = the (bce_alloc_sq 5 32 21 Cb_aaudio_out_queue_completion 0 True (Some 0x1000) True)"

definition ex_aqueue :: aaudio_bce_queue where
  "ex_aqueue = in_queue_init ex_aring 0x100000"

definition ex_audio :: aaudio_bce where
  "ex_audio = \<lparr>ba_qout = ex_aqueue, ba_tag_num = 7, ba_pending = replicate 100 None, ba_entries = Map.empty\<rparr>"

text \<open>A parser of three decimal digits.\<close>

definition parse3 :: kstrtoint where
  "parse3 s = (if length s = 3 \<and> (\<forall>c \<in> set s. 48 \<le> c \<and> c \<le> 57)
     then Some (100 * (uint (s ! 0) - 48) + 10 * (uint (s ! 1) - 48) + (uint (s ! 2) - 48)) else None)"

lemma ex_aring_refines: "sq_refines empty_spec ex_aring"
  by (rule sq_refines_alloc [where qid = 5 and el_size = 32 and el_count = 21
        and compl = Cb_aaudio_out_queue_completion and ud = 0 and a = True
        and b = "Some 0x1000" and c = True])
    (simp_all add: ex_aring_def bce_alloc_sq_def)

lemma ex_aring_size: "sq_size ex_aring = 21" "sq_available_commands ex_aring = 20"
  by (simp_all add: ex_aring_def bce_alloc_sq_def)

lemma parse3_ok: "kstrtoint_ok parse3"
proof -
  have b: "(of_nat (48 + i) :: u8) \<le> 57" "48 \<le> (of_nat (48 + i) :: u8)" "uint (of_nat (48 + i) :: u8) = 48 + int i"
    if "i < 10" for i
  proof -
    have u: "unat (of_nat (48 + i) :: u8) = 48 + i" using that by (simp add: unsigned_of_nat take_bit_nat_def del: of_nat_add)
    then show "uint (of_nat (48 + i) :: u8) = 48 + int i" by (simp add: uint_nat)
    show "(of_nat (48 + i) :: u8) \<le> 57" "48 \<le> (of_nat (48 + i) :: u8)"
      using u that by (simp_all add: word_le_nat_alt)
  qed
  show ?thesis by (simp add: kstrtoint_ok_def parse3_def b del: of_nat_add)
qed

lemma ex_window: "aq_window 0 empty_spec ex_aqueue"
  using ex_aring_refines by (simp add: aq_window_def ex_aqueue_def in_queue_init_def ex_aring_size empty_spec_def)

theorem audio_send_buffer_exclusive_witness:
  "\<exists>s'. aq_window 0 s' (ba_qout (snd (aaudio_send_msg \<lparr>sc_tag_n = 8, sc_index = 0, sc_size = 64, sc_timeout = 5\<rparr>
       (ex_audio\<lparr>ba_qout := ex_aqueue\<lparr>aq_sq := ex_aring\<lparr>sq_available_commands := 19\<rparr>\<rparr>\<rparr>))))
     \<and> length (sp_inflight s') = 1"
proof -
  let ?b = "ex_audio\<lparr>ba_qout := ex_aqueue\<lparr>aq_sq := ex_aring\<lparr>sq_available_commands := 19\<rparr>\<rparr>\<rparr>"
  have "sq_refines (empty_spec\<lparr>sp_reserved := 1\<rparr>) (ex_aring\<lparr>sq_available_commands := 19\<rparr>)"
    using sq_refines_reserve [OF ex_aring_refines] by (simp add: ex_aring_size empty_spec_def)
  then have "aq_window 0 (empty_spec\<lparr>sp_reserved := 1\<rparr>) (ba_qout ?b)"
    using ex_window by (simp add: aq_window_def empty_spec_def ex_aring_size)
  from audio_send_buffer_exclusive [OF this, of "\<lparr>sc_tag_n = 8, sc_index = 0, sc_size = 64, sc_timeout = 5\<rparr>"]
  show ?thesis by (auto simp: empty_spec_def ex_aqueue_def in_queue_init_def)
qed

text \<open>The incoming queue with one buffer posted, and filled by the device.\<close>

lemma ex_filled:
  "\<exists>q s. in_window s q \<and> sp_completions s = [zero_completion_data] \<and> aq_data_head q = 0
     \<and> aq_data q = aq_data ex_aqueue"
proof -
  obtain q el where q: "aq_window 0 (empty_spec\<lparr>sp_inflight := [el]\<rparr>) q"
    "aq_data q = aq_data ex_aqueue" "aq_data_head q = aq_data_head ex_aqueue"
    using in_submit_one_window [OF ex_window] by (auto simp: empty_spec_def)
  let ?s = "empty_spec\<lparr>sp_inflight := [el]\<rparr>"
  let ?q = "q\<lparr>aq_sq := sq_push_completion (zero_completion\<lparr>ce_completion_index := ucast (sq_completion_tail (aq_sq q))\<rparr>) (aq_sq q)\<rparr>"
  let ?s1 = "?s\<lparr>sp_completions := [zero_completion_data]\<rparr>"
  have "unat (sq_completion_tail (aq_sq q)) < 2 ^ 16"
    using aq_windowD(1) [OF q(1)] q(1) mod_less_divisor [of 21 "unat (sq_head (aq_sq q))"]
    by (simp add: sq_refines_def empty_spec_def sq_slot_def aq_window_def)
  then have "ucast (ucast (sq_completion_tail (aq_sq q)) :: u16) = sq_completion_tail (aq_sq q)"
    by (simp add: word_unat_eq_iff unsigned_ucast_eq unsigned_take_bit_eq take_bit_nat_eq_self)
  then have "sq_refines ?s1 (aq_sq ?q)"
    using sq_refines_push [of ?s "aq_sq q" "zero_completion\<lparr>ce_completion_index := ucast (sq_completion_tail (aq_sq q))\<rparr>"]
      aq_windowD(1) [OF q(1)] by (simp add: empty_spec_def zero_completion_def zero_completion_data_def)
  then have "in_window ?s1 ?q"
    using q by (simp add: in_window_def aq_window_def empty_spec_def ex_aqueue_def in_queue_init_def
        sq_push_completion_def Let_def)
  then show ?thesis using q by (intro exI [of _ ?q] exI [of _ ?s1]) (simp add: ex_aqueue_def in_queue_init_def)
qed

theorem audio_in_queue_receives_witness:
  "\<exists>q q'. aaudio_bce_in_queue_completion (\<lambda>m w. w @ [m]) q []
     = Some (q', [\<lparr>am_data = replicate 0x1000 0, am_size = 0\<rparr>])"
proof -
  obtain q s where q: "in_window s q" "sp_completions s = [zero_completion_data]" "aq_data_head q = 0"
    "aq_data q = aq_data ex_aqueue" using ex_filled by blast
  have "received (in_buffers q) (sp_completions s) = [\<lparr>am_data = replicate 0x1000 0, am_size = 0\<rparr>]"
    using q(2-4) by (simp add: zero_completion_data_def ex_aqueue_def in_queue_init_def)
  with audio_in_queue_receives [OF q(1), of "\<lambda>m w. w @ [m]" "[]"] show ?thesis by auto
qed

definition ex_buf :: aaudio_msg where
  "ex_buf = \<lparr>am_data = replicate 0x1000 0, am_size = 0x1000\<rparr>"

definition ex_ctx :: aaudio_send_ctx where
  "ex_ctx = \<lparr>sc_tag_n = 8, sc_index = 0, sc_size = 64, sc_timeout = 5\<rparr>"

lemma ex_begun:
  "audio_reachable parse3 \<lparr>au_bce = send_cmd_begin 9 ex_buf ex_ctx ex_audio, au_callers = [9 \<mapsto> 8]\<rparr>"
proof -
  have "audio_reachable parse3 \<lparr>au_bce = ex_audio, au_callers = Map.empty\<rparr>"
    by (rule ar_init) (simp_all add: ex_audio_def)
  moreover have "audio_step parse3 \<lparr>au_bce = ex_audio, au_callers = Map.empty\<rparr>
      (\<lparr>au_bce = ex_audio, au_callers = Map.empty\<rparr>\<lparr>au_bce := send_cmd_begin 9 ex_buf ex_ctx
        (au_bce \<lparr>au_bce = ex_audio, au_callers = Map.empty\<rparr>),
        au_callers := (au_callers \<lparr>au_bce = ex_audio, au_callers = Map.empty\<rparr>)(9 \<mapsto> sc_tag_n ex_ctx)\<rparr>)"
    by (rule as_begin) (simp_all add: ex_audio_def ex_ctx_def buffer_ok_def ex_buf_def)
  ultimately show ?thesis using ar_step by (fastforce simp: ex_ctx_def)
qed

theorem audio_pending_live_witness:
  "ba_pending (send_cmd_begin 9 ex_buf ex_ctx ex_audio) ! 8 = Some 9
     \<and> aaudio_handle_reply parse3 \<lparr>am_data = replicate 0x1000 0x53, am_size = 64\<rparr>
         (send_cmd_begin 9 ex_buf ex_ctx ex_audio) \<noteq> None"
proof -
  have "ba_pending (send_cmd_begin 9 ex_buf ex_ctx ex_audio) ! 8 = Some 9"
    by (simp add: send_cmd_begin_frame ex_ctx_def ex_audio_def)
  with audio_pending_live [OF ex_begun] show ?thesis by simp
qed

definition ex_answer :: aaudio_msg where
  "ex_answer = \<lparr>am_data = tag_bytes 8 @ replicate 0xffc 1, am_size = 32\<rparr>"

definition ex_acmd_env :: acmd_env where
  "ex_acmd_env = \<lparr>ae_reserve = [], ae_wait = (\<lambda>b. the (aaudio_handle_reply parse3 ex_answer b)),
     ae_relock = (\<lambda>b. b), ae_entry = 9\<rparr>"

lemma ex_answered: "answered parse3 ex_acmd_env (Some ex_answer) ex_audio"
  by (simp add: answered_def ex_audio_def ex_aqueue_def in_queue_init_def ex_aring_size parse3_ok
      ex_acmd_env_def ex_answer_def tag_bytes_def)


theorem audio_reply_reuse_truncates_witness:
  "\<exists>e1 e2. deliver_reply (ex_answer\<lparr>am_size := 16\<rparr>) \<lparr>en_msg = ex_buf, en_done = False\<rparr> = Some e1
     \<and> deliver_reply ex_answer \<lparr>en_msg = en_msg e1, en_done = False\<rparr> = Some e2
     \<and> am_size (en_msg e2) \<le> 16"
proof -
  have ok: "buffer_ok (en_msg \<lparr>en_msg = ex_buf, en_done = False\<rparr>)" by (simp add: buffer_ok_def ex_buf_def)
  have l: "length (am_data ex_answer) = 0x1000" by (simp add: ex_answer_def tag_bytes_def)
  obtain e1 where e1: "deliver_reply (ex_answer\<lparr>am_size := 16\<rparr>) \<lparr>en_msg = ex_buf, en_done = False\<rparr> = Some e1"
    "buffer_ok (en_msg e1)" using deliver_reply_ok [OF ok, of "ex_answer\<lparr>am_size := 16\<rparr>"] l by auto
  obtain e2 where e2: "deliver_reply ex_answer \<lparr>en_msg = en_msg e1, en_done = False\<rparr> = Some e2"
    using deliver_reply_ok [of "\<lparr>en_msg = en_msg e1, en_done = False\<rparr>" ex_answer] e1(2) l by auto
  have "am_size (ex_answer\<lparr>am_size := 16\<rparr>) \<le> am_size ex_answer" by (simp add: ex_answer_def)
  from audio_reply_reuse_truncates [OF e1(1) e2 this] e1 e2 show ?thesis by auto
qed

end
