(* ===== verification/Audio_Command.thy ===== *)
theory Audio_Command
  imports Audio_Bce
begin

text \<open>
  The commands of the audio protocol (\<open>src/audio/protocol.c\<close>, from \<open>CMD_SHARED_VARS\<close> on): each
  sends one message with the matching writer, waits for the reply and parses it with the
  matching reader.

  A command that fills the caller's buffer returns it beside the outcome; pointers into it are
  offsets. The others allocate a reply buffer, whose contents are the argument \<open>mem\<close>. Times are
  in milliseconds. An access outside a buffer is the outcome \<open>Fault\<close>.
\<close>

section \<open>Commands\<close>

text \<open>\<open>CMD_SEND_REQUEST\<close> followed by \<open>CMD_HNDL_REPLY_NO_FREE\<close>, on the caller's buffer.\<close>

definition CMD_SEND_REQUEST :: "acmd_env \<Rightarrow> (aaudio_msg \<Rightarrow> aaudio_msg option) \<Rightarrow> (aaudio_msg \<Rightarrow> 'a rd)
    \<Rightarrow> aaudio_msg \<Rightarrow> aaudio_bce \<Rightarrow> 'a rd \<times> aaudio_msg \<times> aaudio_bce" where
  "CMD_SEND_REQUEST env w rdr buf b =
     (case aaudio_send_cmd_sync env 500 w buf b of
        None \<Rightarrow> (Fault, buf, b)
      | Some (st, buf', b') \<Rightarrow> if st \<noteq> 0 then (Err st, buf', b') else (rdr buf', buf', b'))"

text \<open>\<open>CMD_DEF_SHARED_AND_SEND\<close> followed by \<open>CMD_HNDL_REPLY_AND_FREE\<close>.\<close>

definition CMD_DEF_SHARED_AND_SEND :: "acmd_env \<Rightarrow> u8 list option \<Rightarrow> (aaudio_msg \<Rightarrow> aaudio_msg option)
    \<Rightarrow> (aaudio_msg \<Rightarrow> 'a rd) \<Rightarrow> aaudio_bce \<Rightarrow> 'a rd \<times> aaudio_bce" where
  "CMD_DEF_SHARED_AND_SEND env mem w rdr b =
     (case aaudio_reply_alloc mem of
        None \<Rightarrow> (Err (- ENOMEM), b)
      | Some reply \<Rightarrow> (case CMD_SEND_REQUEST env w rdr reply b of (r, buf, b') \<Rightarrow> (r, b')))"

definition aaudio_cmd_start_io where
  "aaudio_cmd_start_io env mem devid =
     CMD_DEF_SHARED_AND_SEND env mem (aaudio_msg_write_start_io devid) aaudio_msg_read_start_io_response"

definition aaudio_cmd_stop_io where
  "aaudio_cmd_stop_io env mem devid =
     CMD_DEF_SHARED_AND_SEND env mem (aaudio_msg_write_stop_io devid) aaudio_msg_read_stop_io_response"

definition aaudio_cmd_get_property where
  "aaudio_cmd_get_property env devid obj paddr qualifier =
     CMD_SEND_REQUEST env (aaudio_msg_write_get_property devid obj paddr qualifier)
       (\<lambda>m. rbind (aaudio_msg_read_get_property_response m) (\<lambda>(obj', paddr', off, size). Ok (off, size)))"

text \<open>The bytes the reader's pointer and size name.\<close>

definition copy_out :: "aaudio_msg \<Rightarrow> nat \<Rightarrow> nat \<Rightarrow> u8 list rd" where
  "copy_out m off n = (if off + n \<le> length (am_data m) then Ok (take n (drop off (am_data m))) else Fault)"

definition aaudio_cmd_get_primitive_property :: "acmd_env \<Rightarrow> u8 list option \<Rightarrow> u64 \<Rightarrow> u64 \<Rightarrow> aaudio_prop_addr
    \<Rightarrow> u8 list \<Rightarrow> u64 \<Rightarrow> aaudio_bce \<Rightarrow> u8 list rd \<times> aaudio_bce" where
  "aaudio_cmd_get_primitive_property env mem devid obj paddr qualifier data_size b =
     (case aaudio_reply_alloc mem of
        None \<Rightarrow> (Err (- ENOMEM), b)
      | Some reply \<Rightarrow>
          (case aaudio_cmd_get_property env devid obj paddr qualifier reply b of
             (r, buf, b') \<Rightarrow>
               (rbind r (\<lambda>(r_data, r_data_size).
                  if r_data_size \<noteq> data_size then Err (- EINVAL)
                  else copy_out buf r_data (unat data_size)), b')))"

definition aaudio_cmd_set_property where
  "aaudio_cmd_set_property env mem devid obj paddr qualifier data =
     CMD_DEF_SHARED_AND_SEND env mem (aaudio_msg_write_set_property devid obj paddr data qualifier)
       aaudio_msg_read_set_property_response"

definition aaudio_cmd_property_listener where
  "aaudio_cmd_property_listener env mem devid obj paddr =
     CMD_DEF_SHARED_AND_SEND env mem (aaudio_msg_write_property_listener devid obj paddr)
       aaudio_msg_read_property_listener_response"

definition aaudio_cmd_set_input_stream_address_ranges where
  "aaudio_cmd_set_input_stream_address_ranges env mem devid =
     CMD_DEF_SHARED_AND_SEND env mem (aaudio_msg_write_set_input_stream_address_ranges devid)
       aaudio_msg_read_set_input_stream_address_ranges_response"

definition aaudio_cmd_get_input_stream_list where
  "aaudio_cmd_get_input_stream_list env devid =
     CMD_SEND_REQUEST env (aaudio_msg_write_get_input_stream_list devid)
       aaudio_msg_read_get_input_stream_list_response"

definition aaudio_cmd_get_output_stream_list where
  "aaudio_cmd_get_output_stream_list env devid =
     CMD_SEND_REQUEST env (aaudio_msg_write_get_output_stream_list devid)
       aaudio_msg_read_get_output_stream_list_response"

definition aaudio_cmd_get_control_list where
  "aaudio_cmd_get_control_list env devid =
     CMD_SEND_REQUEST env (aaudio_msg_write_get_control_list devid)
       aaudio_msg_read_get_control_list_response"

definition aaudio_cmd_set_remote_access where
  "aaudio_cmd_set_remote_access env mem mode =
     CMD_DEF_SHARED_AND_SEND env mem (aaudio_msg_write_set_remote_access mode)
       aaudio_msg_read_set_remote_access_response"

definition aaudio_cmd_get_device_list where
  "aaudio_cmd_get_device_list env =
     CMD_SEND_REQUEST env aaudio_msg_write_get_device_list aaudio_msg_read_get_device_list_response"

section \<open>A property over the transport\<close>

lemma writes_some: "writes msg w bs \<Longrightarrow> w \<noteq> None"
  by (cases w) (simp_all add: writes_def)

lemma get_property_writes:
  assumes "49 + length qualifier \<le> length (am_data m)"
  shows "aaudio_msg_write_get_property dev obj paddr qualifier m \<noteq> None"
  unfolding aaudio_msg_write_get_property_def
  by (rule writes_some, rule write_msg_writes [where m = 7 and st = 0
        and payload = "prop_bytes obj paddr @ sized qualifier"])
    (use assms in \<open>simp_all add: prop_bytes_def sized_def\<close>)

text \<open>The allocated buffer after the reply was copied into it.\<close>

definition filled :: "u8 list \<Rightarrow> aaudio_msg \<Rightarrow> aaudio_msg" where
  "filled d m = (let size = min (am_size m) 0x1000; n = unat size in
     \<lparr>am_data = take n (am_data m) @ drop n d, am_size = size\<rparr>)"

lemma filled_carries:
  assumes "carries m bs" and "length (am_data m) = 0x1000" and "length d = 0x1000"
  shows "filled d m = \<lparr>am_data = bs @ drop (length bs) d, am_size = of_nat (length bs)\<rparr>"
    and "carries (filled d m) bs" and "length bs \<le> 0x1000" and "length (am_data (filled d m)) = 0x1000"
proof -
  show le: "length bs \<le> 0x1000"
    using assms(1,2) by (metis carries_def length_take min.cobounded1 min.commute)
  have s: "am_size m = of_nat (length bs)" "take (length bs) (am_data m) = bs"
    using assms(1) by (simp_all add: carries_def)
  have u: "unat (am_size m) = length bs"
    using le by (simp add: s(1) unsigned_of_nat take_bit_nat_eq_self)
  have "min (am_size m) 0x1000 = am_size m"
    using le u by (simp add: min_def word_le_nat_alt)
  then show f: "filled d m = \<lparr>am_data = bs @ drop (length bs) d, am_size = of_nat (length bs)\<rparr>"
    using u s by (simp add: filled_def Let_def)
  then show "carries (filled d m) bs" by (simp add: carries_def)
  show "length (am_data (filled d m)) = 0x1000" using f le assms(3) by simp
qed

text \<open>A request for a property that is answered: what the reader and the copy see.\<close>

lemma primitive_property_answered:
  assumes ans: "answered kstr env (Some m) b" and q: "49 + length qual \<le> 0x1000" and d: "length d = 0x1000"
  shows "\<exists>b'. ba_pending b' = ba_pending b
    \<and> aaudio_cmd_get_primitive_property env (Some d) devid obj paddr qual n b
      = (rbind (aaudio_msg_read_get_property_response (filled d m)) (\<lambda>(obj', paddr', off, size).
           if size \<noteq> n then Err (- EINVAL) else copy_out (filled d m) off (unat n)), b')"
proof -
  let ?r = "\<lparr>am_data = d, am_size = 0x1000\<rparr>"
  have ok: "buffer_ok ?r" using d by (simp add: buffer_ok_def)
  have w: "aaudio_msg_write_get_property devid obj paddr qual x \<noteq> None" if "length (am_data x) = 0x1000" for x
    using q that by (intro get_property_writes) simp
  obtain b' where b': "ba_pending b' = ba_pending b"
    "aaudio_send_cmd_sync env 500 (aaudio_msg_write_get_property devid obj paddr qual) ?r b = Some (0, filled d m, b')"
    using cmd_sync_outcome [OF ans _ ok, where timeout = 500
        and w = "aaudio_msg_write_get_property devid obj paddr qual"] w by (auto simp: filled_def Let_def)
  show ?thesis
    using b' by (intro exI [of _ b'], cases "aaudio_msg_read_get_property_response (filled d m)")
      (simp_all add: aaudio_cmd_get_primitive_property_def aaudio_reply_alloc_def
      aaudio_cmd_get_property_def CMD_SEND_REQUEST_def split: prod.splits)
qed


text \<open>
  The announced size of a property is trusted without a look at the size of the
  reply: a reply that ends right behind the announced size is accepted, and the caller gets
  the bytes its freshly allocated buffer happened to hold.
\<close>

theorem audio_property_short_reply:
  assumes "answered kstr env (Some m) b" and "49 + length qual \<le> 0x1000" and "length d = 0x1000"
    and "length tag = 4" and "49 + unat n \<le> 0x1000"
    and "carries m (wire tag 2 dev 8 0 (prop_bytes obj' paddr' @ u64_bytes n))"
  shows "\<exists>b'. aaudio_cmd_get_primitive_property env (Some d) devid obj paddr qual n b
      = (Ok (take (unat n) (drop 49 d)), b')"
proof -
  let ?bs = "wire tag 2 dev 8 0 (prop_bytes obj' paddr' @ u64_bytes n)"
  have len: "length (am_data m) = 0x1000" using assms(1) by (simp add: answered_def)
  note f = filled_carries [OF assms(6) len assms(3)]
  have lb: "length ?bs = 49" using assms(4) by (simp add: wire_def)
  have area: "length (am_data (filled d m)) < 2 ^ 64" using f(4) by simp
  have n: "read_val 41 (filled d m) = Ok n"
    using carries_read [where xs = "prop_bytes obj' paddr'" and ys = "u64_bytes n" and zs = "[]" and off = 41
        and 'a = 64 and msg = "filled d m"] f(2) assms(4) by simp
  have "aaudio_msg_read_get_property_response (filled d m) = Ok (obj', paddr', 49, n)"
    using verify_carries [OF f(2) assms(4) area] read_obj_prop_carries [OF f(2) assms(4)] n
    by (simp add: aaudio_msg_read_get_property_response_def READ_START_STATUS_def)
  moreover have "copy_out (filled d m) 49 (unat n) = Ok (take (unat n) (drop 49 d))"
    using f(1) lb assms(3,5) f(4) by (simp add: copy_out_def)
  ultimately show ?thesis
    using primitive_property_answered [OF assms(1-3), of devid obj "paddr" n] by auto
qed

definition ex_property_reply :: "u8 list \<Rightarrow> aaudio_msg" where
  "ex_property_reply payload = (let bs = wire (tag_bytes 8) 2 5 8 0 (prop_bytes 9 ex_prop @ payload)
     in \<lparr>am_data = bs @ replicate (0x1000 - length bs) 0, am_size = of_nat (length bs)\<rparr>)"

definition ex_property_env :: "u8 list \<Rightarrow> acmd_env" where
  "ex_property_env payload = ex_acmd_env\<lparr>ae_wait :=
     (\<lambda>b. the (aaudio_handle_reply parse3 (ex_property_reply payload) b))\<rparr>"

lemma ex_property_answered:
  assumes "length payload < 100"
  shows "answered parse3 (ex_property_env payload) (Some (ex_property_reply payload)) ex_audio"
    "carries (ex_property_reply payload) (wire (tag_bytes 8) 2 5 8 0 (prop_bytes 9 ex_prop @ payload))"
proof -
  have "length (am_data (ex_property_reply payload)) = 0x1000"
    using assms by (simp add: ex_property_reply_def Let_def wire_def tag_bytes_def)
  then show "answered parse3 (ex_property_env payload) (Some (ex_property_reply payload)) ex_audio"
    using ex_answered
    by (simp add: answered_def ex_property_env_def ex_audio_def ex_property_reply_def Let_def wire_def)
qed (simp add: ex_property_reply_def Let_def carries_def)


theorem audio_property_short_reply_witness:
  "\<exists>b'. aaudio_cmd_get_primitive_property (ex_property_env (u64_bytes 2)) (Some (replicate 0x1000 0xa5)) 5 9 ex_prop
     [] 2 ex_audio = (Ok (replicate 2 0xa5), b')"
  using audio_property_short_reply [OF ex_property_answered(1) _ _ _ _ ex_property_answered(2), where n = 2
      and qual = "[]" and d = "replicate 0x1000 0xa5" and devid = 5 and obj = 9 and paddr = ex_prop]
  by (simp add: tag_bytes_def)

end
