(* ===== verification/Audio_Math.thy ===== *)
theory Audio_Math
  imports Audio_Command "HOL-Library.Signed_Division"
begin

unbundle bit_operations_syntax

text \<open>
  The conversions of floating-point numbers that the audio driver does in integers: the sample rate
  (\<open>aaudio_double_to_u64\<close> of \<open>src/audio/description.h\<close>) and the decibels of the volume controls
  (\<open>aaudio_f32_milli\<close>, \<open>aaudio_f64_milli\<close> and \<open>aaudio_f32_from_milli\<close> of \<open>src/audio/audio.c\<close>), with the
  arithmetic of the volume callbacks.
\<close>

section \<open>Sample rates\<close>

text \<open>
  \<open>aaudio_double_to_u64\<close> of \<open>description.h\<close>. A shift by a negative number of bits or out of the width
  of the type is undefined in C: the outcome \<open>None\<close>.
\<close>

definition aaudio_double_to_u64 :: "u64 \<Rightarrow> u64 option" where
  "aaudio_double_to_u64 d =
     (let sign = drop_bit 63 d AND 1;
          e = int (unat (drop_bit 52 d AND 0x7ff)) - 1023;
          fr = d AND mask 52
      in if sign \<noteq> 0 \<or> e < 0 then Some 0
         else if e > 52 then None
         else Some (push_bit (nat e) 1 + drop_bit (nat (52 - e)) fr))"

section \<open>Thousandths\<close>

text \<open>
  The 64-bit integers of these functions are \<open>int\<close>s: the bounds below show that nothing leaves
  the type. A right shift of a value that is not negative is a division.
\<close>

definition aaudio_f32_milli :: "u32 \<Rightarrow> int" where
  "aaudio_f32_milli bits =
     (let e = int (unat (drop_bit 23 bits AND 0xff));
          m = int (unat ((bits AND 0x7fffff) OR 0x800000)) * 1000;
          shift = 23 - (e - 127);
          signed = (\<lambda>m. if bits AND 0x80000000 \<noteq> 0 then - m else m)
      in if e = 0 then 0
         else if shift \<ge> 0 then (if shift > 62 then 0 else signed (m div 2 ^ nat shift))
         else (if shift < -29 then 0 else signed (m * 2 ^ nat (- shift))))"

definition aaudio_f64_milli :: "u64 \<Rightarrow> int" where
  "aaudio_f64_milli bits =
     (let e = int (unat (drop_bit 52 bits AND 0x7ff));
          frac = int (unat ((bits AND mask 52) OR push_bit 52 1));
          shift = 52 - (e - 1023)
      in if e = 0 then 0
         else if shift < 0 \<or> shift > 62 then 0
         else let m = frac * 1000 div 2 ^ nat shift in if bit bits 63 then - m else m)"

text \<open>The position of the highest bit, from one; zero for zero.\<close>

fun fls64 :: "nat \<Rightarrow> nat" where
  "fls64 n = (if n = 0 then 0 else Suc (fls64 (n div 2)))"

declare fls64.simps [simp del]

definition aaudio_f32_from_milli :: "int \<Rightarrow> u32" where
  "aaudio_f32_from_milli milli =
     (if milli = 0 then 0
      else
        let sign = (if milli < 0 then 0x80000000 else 0);
            q = (nat \<bar>milli\<bar> * 2 ^ 23) mod 2 ^ 64 div 1000
        in if q = 0 then 0
           else
             let e = fls64 q - 1;
                 q' = (if e > 23 then q div 2 ^ (e - 23) else q * 2 ^ (23 - e))
             in sign OR push_bit 23 (word_of_int (int e - 23 + 127)) OR (of_nat q' AND 0x7fffff))"

section \<open>The value of a volume control\<close>

abbreviation AAUDIO_CTL_DB_STEP_MILLI :: int where "AAUDIO_CTL_DB_STEP_MILLI \<equiv> 500"

record aaudio_control =
  ac_id :: u64
  ac_class_id :: u32
  ac_scope :: u32
  ac_element :: u32
  ac_min_milli :: int
  ac_max_milli :: int

text \<open>A conversion to \<open>s32\<close>.\<close>

definition s32 :: "int \<Rightarrow> int" where
  "s32 x = signed_take_bit 31 x"

definition volume_max :: "aaudio_control \<Rightarrow> int" where
  "volume_max c = s32 (ac_max_milli c - ac_min_milli c) sdiv AAUDIO_CTL_DB_STEP_MILLI"

definition clamp :: "int \<Rightarrow> int \<Rightarrow> int \<Rightarrow> int" where
  "clamp x lo hi = (if x < lo then lo else if x > hi then hi else x)"

definition volume_value :: "aaudio_control \<Rightarrow> u32 \<Rightarrow> int" where
  "volume_value c raw =
     (clamp (aaudio_f32_milli raw) (ac_min_milli c) (ac_max_milli c) - ac_min_milli c) sdiv AAUDIO_CTL_DB_STEP_MILLI"

definition volume_raw :: "aaudio_control \<Rightarrow> int \<Rightarrow> u32" where
  "volume_raw c v = aaudio_f32_from_milli (ac_min_milli c + v * AAUDIO_CTL_DB_STEP_MILLI)"

section \<open>A conversion equal to its reference\<close>

text \<open>The integral part of a finite double that is not negative, by its fields.\<close>

definition double_floor :: "nat \<Rightarrow> nat \<Rightarrow> nat" where
  "double_floor e fr = (if e < 1023 then 0
     else if e \<le> 1075 then (2 ^ 52 + fr) div 2 ^ (1075 - e) else (2 ^ 52 + fr) * 2 ^ (e - 1075))"

definition double_bits :: "bool \<Rightarrow> nat \<Rightarrow> nat \<Rightarrow> u64" where
  "double_bits s e fr = push_bit 63 (of_bool s) OR push_bit 52 (of_nat e) OR of_nat fr"

lemma nat_bit_bound: "bit (x :: nat) n \<Longrightarrow> x < 2 ^ k \<Longrightarrow> n < k"
proof (rule ccontr)
  assume b: "bit x n" and x: "x < 2 ^ k" and k: "\<not> n < k"
  then have "x < 2 ^ n" by (meson linorder_not_less order_less_le_trans one_le_numeral power_increasing)
  then show False using b by (simp add: bit_iff_odd)
qed

lemma unat_of_nat_small: "x < 2 ^ LENGTH('a) \<Longrightarrow> unat (of_nat x :: 'a :: len word) = x"
  by (simp add: unsigned_of_nat take_bit_nat_eq_self)

lemma drop_bit_of_nat_small:
  assumes "x < 2 ^ LENGTH('a :: len)"
  shows "drop_bit n (of_nat x :: 'a word) = of_nat (x div 2 ^ n)"
proof -
  have "x div 2 ^ n < 2 ^ LENGTH('a)" using assms by (meson div_le_dividend order_le_less_trans)
  then have "unat (of_nat (x div 2 ^ n) :: 'a word) = x div 2 ^ n" by (rule unat_of_nat_small)
  moreover have "unat (drop_bit n (of_nat x :: 'a word)) = x div 2 ^ n"
    by (subst unat_drop_bit_eq) (simp only: unat_of_nat_small [OF assms] drop_bit_eq_div)
  ultimately show ?thesis by (simp add: word_unat_eq_iff)
qed

lemma double_fields:
  assumes "e < 2 ^ 11" and "fr < 2 ^ 52"
  shows "drop_bit 63 (double_bits s e fr) AND 1 = of_bool s"
    and "drop_bit 52 (double_bits s e fr) AND 0x7ff = of_nat e"
    and "double_bits s e fr AND mask 52 = of_nat fr"
proof -
  have be: "n < 11" if "bit e n" for n using nat_bit_bound that assms(1) by blast
  have bf: "n < 52" if "bit fr n" for n using nat_bit_bound that assms(2) by blast
  have m: "(0x7ff :: u64) = mask 11" by (simp add: mask_eq_exp_minus_1)
  show "drop_bit 63 (double_bits s e fr) AND 1 = of_bool s"
    by (rule bit_word_eqI) (auto simp: double_bits_def bit_simps dest: be bf)
  show "drop_bit 52 (double_bits s e fr) AND 0x7ff = of_nat e"
    unfolding m by (rule bit_word_eqI) (auto simp: double_bits_def bit_simps dest: be bf)
  show "double_bits s e fr AND mask 52 = of_nat fr"
    by (rule bit_word_eqI) (auto simp: double_bits_def bit_simps dest: be bf)
qed

text \<open>
  Property C34. For every finite double below \<open>2^53\<close> the function returns its integral part, and zero for the
  negative ones; for larger ones its shift is undefined. The fields are the sign, the exponent and the
  fraction of the bits.
\<close>

theorem double_to_u64_floor:
  assumes "e < 2 ^ 11" and "fr < 2 ^ 52"
  shows "aaudio_double_to_u64 (double_bits s e fr) =
    (if s then Some 0 else if e \<le> 1075 then Some (of_nat (double_floor e fr)) else None)"
proof -
  note f = double_fields [OF assms]
  have u: "unat (of_nat e :: u64) = e" by (rule unat_of_nat_small) (use assms(1) in simp)
  have run: "aaudio_double_to_u64 (double_bits s e fr) = (if s \<or> e < 1023 then Some 0 else if 1075 < e then None
      else Some (push_bit (e - 1023) 1 + drop_bit (1075 - e) (of_nat fr)))"
  proof -
    have n: "nat (int e - 1023) = e - 1023" "nat (52 - (int e - 1023)) = 1075 - e" by auto
    show ?thesis unfolding aaudio_double_to_u64_def f u Let_def n by auto
  qed
  show ?thesis
  proof (cases "\<not> s \<and> 1023 \<le> e \<and> e \<le> 1075")
    case False
    then show ?thesis unfolding run by (auto simp: double_floor_def)
  next
    case True
    define k where "k = e - 1023"
    have k: "e - 1023 = k" "1075 - e = 52 - k" "k \<le> 52" using True by (auto simp: k_def)
    have "(2 ^ 52 + fr) div 2 ^ (52 - k) = 2 ^ k + fr div 2 ^ (52 - k)"
    proof -
      have "(2 :: nat) ^ 52 = 2 ^ k * 2 ^ (52 - k)" using k(3) by (simp flip: power_add)
      then show ?thesis by (metis div_mult_self3 power_not_zero zero_neq_numeral add.commute)
    qed
    then have fl: "double_floor e fr = 2 ^ k + fr div 2 ^ (52 - k)"
      unfolding double_floor_def using True k by (simp del: power_numeral)
    have "drop_bit (52 - k) (of_nat fr :: u64) = of_nat (fr div 2 ^ (52 - k))"
      by (rule drop_bit_of_nat_small) (use assms(2) in simp)
    moreover have "push_bit k (1 :: u64) = of_nat (2 ^ k)" by (simp add: push_bit_eq_mult)
    ultimately show ?thesis unfolding run fl k using True by simp
  qed
qed

theorem double_to_u64_floor_witness: "aaudio_double_to_u64 (double_bits False 1038 0x7700000000000) = Some 48000"
  using double_to_u64_floor [of 1038 "0x7700000000000" False] by (simp add: double_floor_def)

section \<open>A volume that is written is read back\<close>

lemma fls64_bounds:
  assumes "0 < n"
  shows "0 < fls64 n" "2 ^ (fls64 n - 1) \<le> n" "n < 2 ^ fls64 n"
proof -
  have "0 < fls64 n \<and> 2 ^ (fls64 n - 1) \<le> n \<and> n < 2 ^ fls64 n"
    using assms
  proof (induction n rule: fls64.induct)
    case (1 n)
    show ?case
    proof (cases "n div 2 = 0")
      case True
      then have "n = 1" using 1 by auto
      then show ?thesis by (simp add: fls64.simps)
    next
      case False
      then have i: "0 < fls64 (n div 2)" "2 ^ (fls64 (n div 2) - 1) \<le> n div 2" "n div 2 < 2 ^ fls64 (n div 2)" using 1 by auto
      have "(2 :: nat) ^ fls64 (n div 2) = 2 * 2 ^ (fls64 (n div 2) - 1)" using i(1) by (simp flip: power_Suc)
      with i have "2 ^ fls64 (n div 2) \<le> n" "n < 2 * 2 ^ fls64 (n div 2)" by linarith+
      moreover have "fls64 n = Suc (fls64 (n div 2))" using 1(2) by (subst fls64.simps) simp
      ultimately show ?thesis by simp
    qed
  qed
  then show "0 < fls64 n" "2 ^ (fls64 n - 1) \<le> n" "n < 2 ^ fls64 n" by simp_all
qed

text \<open>The fields of a single-precision number.\<close>

lemma float_fields:
  fixes s :: bool and e y :: nat
  assumes "e < 2 ^ 8" and "y < 2 ^ 23"
  defines "w \<equiv> push_bit 31 (of_bool s) OR push_bit 23 (of_nat e) OR of_nat y :: u32"
  shows "drop_bit 23 w AND 0xff = of_nat e" and "w AND 0x7fffff = of_nat y" and "w AND 0x80000000 = push_bit 31 (of_bool s)"
proof -
  have be: "n < 8" if "bit e n" for n using nat_bit_bound that assms(1) by blast
  have bf: "n < 23" if "bit y n" for n using nat_bit_bound that assms(2) by blast
  have m: "(0xff :: u32) = mask 8" "(0x7fffff :: u32) = mask 23" "(0x80000000 :: u32) = push_bit 31 (of_bool True)"
    by (simp_all add: mask_eq_exp_minus_1)
  show "drop_bit 23 w AND 0xff = of_nat e"
    unfolding m w_def by (rule bit_word_eqI) (auto simp: bit_simps dest: be bf)
  show "w AND 0x7fffff = of_nat y"
    unfolding m w_def by (rule bit_word_eqI) (auto simp: bit_simps dest: be bf)
  show "w AND 0x80000000 = push_bit 31 (of_bool s)"
    unfolding m w_def by (rule bit_word_eqI) (auto simp: bit_simps simp del: of_bool_eq dest: be bf)
qed

text \<open>The magnitude of a number with the mantissa \<open>2^23 + y\<close>, read in thousandths.\<close>

lemma f32_milli_fields:
  assumes "0 < e" "e < 2 ^ 8" "y < 2 ^ 23" "e \<le> 150"
  shows "aaudio_f32_milli (push_bit 31 (of_bool s) OR push_bit 23 (of_nat e) OR of_nat y)
    = (if 150 - e > 62 then 0 else (if s then -1 else 1) * int ((2 ^ 23 + y) * 1000 div 2 ^ (150 - e)))"
proof -
  let ?w = "push_bit 31 (of_bool s) OR push_bit 23 (of_nat e) OR of_nat y :: u32"
  note f = float_fields [OF assms(2,3), of s]
  have ue: "unat (of_nat e :: u32) = e" by (rule unat_of_nat_small) (use assms(2) in simp)
  have uy: "unat ((of_nat y :: u32) OR 0x800000) = 2 ^ 23 + y"
  proof -
    have b: "n < 23" if "bit y n" for n using nat_bit_bound that assms(3) by blast
    have m: "(0x800000 :: u32) = push_bit 23 (of_bool True)" by simp
    have "of_nat y AND (0x800000 :: u32) = 0"
      unfolding m by (rule bit_word_eqI) (auto simp: bit_simps simp del: of_bool_eq dest: b)
    then have "(of_nat y :: u32) OR 0x800000 = of_nat y + 0x800000" by (rule disjunctive_add_eq_or [symmetric])
    then have "(of_nat y :: u32) OR 0x800000 = of_nat (2 ^ 23 + y)" by simp
    then show ?thesis using unat_of_nat_small [of "2 ^ 23 + y", where 'a = 32] assms(3) by simp
  qed
  have s: "?w AND 0x80000000 \<noteq> 0 \<longleftrightarrow> s" unfolding f(3) by simp
  have n: "nat (23 - (int e - 127)) = 150 - e" "0 \<le> 23 - (int e - 127)" "(62 < 23 - (int e - 127)) = (62 < 150 - e)"
    using assms(4) by auto
  show ?thesis
    unfolding aaudio_f32_milli_def Let_def f(1,2) ue uy s n(1)
    using assms(1) n(2,3) by (simp add: zdiv_int)
qed

text \<open>The arithmetic of the two conversions on a magnitude.\<close>

definition mantissa :: "nat \<Rightarrow> nat" where
  "mantissa q = (let e = fls64 q - 1 in if e > 23 then q div 2 ^ (e - 23) else q * 2 ^ (23 - e))"

lemma scaled_bounds:
  assumes "0 < a" and "a < 2 ^ 30"
  defines "q \<equiv> a * 2 ^ 23 div 1000"
  shows "0 < q" "a * 2 ^ 23 mod 2 ^ 64 = a * 2 ^ 23" "13 \<le> fls64 q - 1" "fls64 q - 1 \<le> 43"
    "2 ^ 23 \<le> mantissa q" "mantissa q < 2 ^ 24" "q * 1000 \<le> a * 2 ^ 23" "a * 2 ^ 23 < q * 1000 + 1000"
proof -
  show q: "q * 1000 \<le> a * 2 ^ 23" "a * 2 ^ 23 < q * 1000 + 1000" by (simp_all add: q_def)
  have lo: "2 ^ 13 \<le> q" using q(2) assms(1) by simp
  have hi: "q < 2 ^ 44" using q(1) assms(2) by simp
  show pos: "0 < q" using lo by simp
  note f = fls64_bounds [OF pos]
  show "a * 2 ^ 23 mod 2 ^ 64 = a * 2 ^ 23" using assms(2) by simp
  have "(2 :: nat) ^ 13 < 2 ^ fls64 q" using lo f(3) by (rule order_le_less_trans)
  then have "13 < fls64 q" by (rule power_less_imp_less_exp [rotated]) simp
  then show e1: "13 \<le> fls64 q - 1" by simp
  have "(2 :: nat) ^ (fls64 q - 1) < 2 ^ 44" using f(2) hi by (rule order_le_less_trans)
  then have "fls64 q - 1 < 44" by (rule power_less_imp_less_exp [rotated]) simp
  then show e2: "fls64 q - 1 \<le> 43" by simp
  let ?e = "fls64 q - 1"
  have fe: "q < 2 ^ Suc ?e" using f(1,3) by simp
  show "2 ^ 23 \<le> mantissa q" "mantissa q < 2 ^ 24"
  proof -
    have "2 ^ 23 \<le> mantissa q \<and> mantissa q < 2 ^ 24"
    proof (cases "?e > 23")
      case True
      then obtain k where k: "?e = 23 + k" by (metis less_imp_add_positive)
      have p: "(2 :: nat) ^ ?e = 2 ^ 23 * 2 ^ k" by (simp only: k power_add)
      have "2 ^ 23 * 2 ^ k \<le> q" using f(2) unfolding p .
      moreover have "q < 2 ^ 24 * 2 ^ k" using fe unfolding power_Suc p by simp
      ultimately have "2 ^ 23 * 2 ^ k \<le> q" "q < 2 ^ 24 * 2 ^ k" by blast+
      then have "2 ^ 23 \<le> q div 2 ^ k" "q div 2 ^ k < 2 ^ 24"
        by (simp_all only: less_eq_div_iff_mult_less_eq div_less_iff_less_mult zero_less_power zero_less_numeral)
      then show ?thesis using True k by (simp add: mantissa_def)
    next
      case False
      then obtain k where k: "23 = ?e + k" by (metis le_Suc_ex not_less)
      have p: "2 ^ ?e * 2 ^ k = (2 :: nat) ^ 23" unfolding k by (rule power_add [symmetric])
      have "2 ^ ?e * 2 ^ k \<le> q * 2 ^ k" using f(2) by (rule mult_le_mono1)
      then have "2 ^ 23 \<le> q * 2 ^ k" unfolding p .
      moreover have "q * 2 ^ k < 2 ^ Suc ?e * 2 ^ k" using fe by simp
      then have "q * 2 ^ k < 2 * (2 ^ ?e * 2 ^ k)" by (simp only: power_Suc mult.assoc)
      then have "q * 2 ^ k < 2 ^ 24" unfolding p by simp
      ultimately have "2 ^ 23 \<le> q * 2 ^ k \<and> q * 2 ^ k < 2 ^ 24" by blast
      moreover have "23 - ?e = k" using k by simp
      ultimately show ?thesis using False by (simp only: mantissa_def Let_def if_False)
    qed
    then show "2 ^ 23 \<le> mantissa q" "mantissa q < 2 ^ 24" by blast+
  qed
qed

lemma milli_magnitude:
  assumes "0 < a" and "a < 2 ^ 30"
  defines "q \<equiv> a * 2 ^ 23 div 1000"
  defines "r \<equiv> mantissa q * 1000 div 2 ^ (46 - (fls64 q - 1))"
  shows "r \<le> a" "a \<le> r + 250" "125 dvd a \<Longrightarrow> r = a"
proof -
  let ?e = "fls64 q - 1"
  note b = scaled_bounds [OF assms(1,2), folded q_def]
  have "r \<le> a \<and> a \<le> r + 250 \<and> (125 dvd a \<longrightarrow> r = a)"
  proof (cases "?e > 23")
    case True
    then obtain k where k: "?e = 23 + k" by (metis less_imp_add_positive)
    then have k20: "k \<le> 20" using b(4) by simp
    let ?m = "q div 2 ^ k"
    have r: "r = ?m * 1000 div 2 ^ (23 - k)" using True k by (simp add: r_def mantissa_def)
    have split: "(2 :: nat) ^ 23 = 2 ^ (23 - k) * 2 ^ k" using k20 by (simp flip: power_add)
    have m: "?m * 2 ^ k \<le> q" "q < ?m * 2 ^ k + 2 ^ k"
    proof -
      have "q mod 2 ^ k < 2 ^ k" by simp
      then show "?m * 2 ^ k \<le> q" "q < ?m * 2 ^ k + 2 ^ k" using div_mult_mod_eq [of q "2 ^ k"] by linarith+
    qed
    have "(2 :: nat) ^ k \<le> 2 ^ 20" using k20 by (rule power_increasing) simp
    then have k2: "(2 :: nat) ^ k \<le> 1048576" by simp
    have "?m * 1000 * 2 ^ k = ?m * 2 ^ k * 1000" by simp
    also have "\<dots> \<le> q * 1000" using m(1) by (rule mult_le_mono1)
    also have "\<dots> \<le> a * 2 ^ 23" by (rule b(7))
    also have "\<dots> = a * 2 ^ (23 - k) * 2 ^ k" by (simp only: split mult.assoc)
    finally have "?m * 1000 \<le> a * 2 ^ (23 - k)" by simp
    then have le: "r \<le> a" unfolding r by (metis div_le_mono nonzero_mult_div_cancel_right power_not_zero zero_neq_numeral)
    have "1000 * (?m * 2 ^ k) + 1000 * 2 ^ k \<ge> q * 1000 + 1000" using m(2) by linarith
    moreover have "(250 :: nat) * 2 ^ 23 = 2097152000" by simp
    ultimately have "a * 2 ^ 23 < 1000 * (?m * 2 ^ k) + 250 * 2 ^ 23" using b(8) k2 by linarith
    then have "a * 2 ^ 23 < ?m * 1000 * 2 ^ k + 250 * 2 ^ 23" by (simp only: mult_ac)
    then have "a * 2 ^ (23 - k) * 2 ^ k < (?m * 1000 + 250 * 2 ^ (23 - k)) * 2 ^ k"
      unfolding split by (simp add: algebra_simps)
    then have "a * 2 ^ (23 - k) < ?m * 1000 + 250 * 2 ^ (23 - k)" by simp
    then have "a * 2 ^ (23 - k) div 2 ^ (23 - k) \<le> (?m * 1000 + 250 * 2 ^ (23 - k)) div 2 ^ (23 - k)"
      by (intro div_le_mono) simp
    then have ge: "a \<le> r + 250" by (simp add: r)
    have "r = a" if d: "125 dvd a"
    proof -
      obtain c where c: "a = 125 * c" using d by blast
      have "q = c * 2 ^ 20" by (simp add: q_def c)
      moreover have "(2 :: nat) ^ 20 = 2 ^ (20 - k) * 2 ^ k" using k20 by (simp flip: power_add)
      ultimately have "q = c * 2 ^ (20 - k) * 2 ^ k" by (simp only: mult.assoc)
      then have "?m = c * 2 ^ (20 - k)" by simp
      moreover have "23 - k = (20 - k) + 3" using k20 by simp
      then have p: "(2 :: nat) ^ (23 - k) = 2 ^ (20 - k) * 2 ^ 3" by (simp only: power_add)
      have "c * 2 ^ (20 - k) * 1000 = 125 * c * (2 ^ (20 - k) * 2 ^ 3)" by simp
      ultimately have "r = 125 * c * (2 ^ (20 - k) * 2 ^ 3) div (2 ^ (20 - k) * 2 ^ 3)" unfolding r p by simp
      also have "\<dots> = 125 * c" by (rule nonzero_mult_div_cancel_right) simp
      finally show ?thesis unfolding c .
    qed
    with le ge show ?thesis by blast
  next
    case False
    then obtain k where k: "23 = ?e + k" by (metis le_Suc_ex not_less)
    have e: "46 - ?e = k + 23" "23 - ?e = k" using k by simp_all
    have "mantissa q = q * 2 ^ k" using False by (simp only: mantissa_def Let_def if_False e(2))
    then have "r = q * 2 ^ k * 1000 div (2 ^ k * 2 ^ 23)" unfolding r_def e(1) power_add by (simp only:)
    also have "\<dots> = 2 ^ k * (q * 1000) div (2 ^ k * 2 ^ 23)" by (simp add: mult_ac)
    also have "\<dots> = q * 1000 div 2 ^ 23" by (rule div_mult_mult1) simp
    finally have r: "r = q * 1000 div 2 ^ 23" .
    have "r = a" if d: "125 dvd a"
    proof -
      obtain c where c: "a = 125 * c" using d by blast
      show ?thesis unfolding r q_def c by simp
    qed
    moreover have "r \<le> a" "a \<le> r + 250"
    proof -
      have "q * 1000 mod 8388608 < 8388608" by simp
      moreover have "q * 1000 div 8388608 * 8388608 + q * 1000 mod 8388608 = q * 1000" by (rule div_mult_mod_eq)
      moreover have "r = q * 1000 div 8388608" unfolding r by simp
      moreover have "q * 1000 \<le> a * 8388608" "a * 8388608 < q * 1000 + 1000" using b(7,8) by simp_all
      ultimately show "r \<le> a" "a \<le> r + 250" by linarith+
    qed
    ultimately show ?thesis by blast
  qed
  then show "r \<le> a" "a \<le> r + 250" "125 dvd a \<Longrightarrow> r = a" by blast+
qed

text \<open>A value that is written and read again: the sign stays, the magnitude loses less than a quarter.\<close>

lemma from_milli_fields:
  fixes milli :: int
  defines "a \<equiv> nat \<bar>milli\<bar>"
  defines "q \<equiv> a * 2 ^ 23 div 1000"
  assumes "milli \<noteq> 0" and "a < 2 ^ 30"
  shows "aaudio_f32_from_milli milli
    = push_bit 31 (of_bool (milli < 0)) OR push_bit 23 (of_nat (fls64 q - 1 + 104)) OR of_nat (mantissa q - 2 ^ 23)"
proof -
  have pos: "0 < a" using assms(3) by (simp add: a_def)
  note b = scaled_bounds [OF pos assms(4), folded q_def]
  have sign: "(if milli < 0 then 0x80000000 else 0 :: u32) = push_bit 31 (of_bool (milli < 0))" by simp
  have e: "(word_of_int (int (fls64 q - 1) - 23 + 127) :: u32) = of_nat (fls64 q - 1 + 104)" by simp
  have m: "(of_nat (mantissa q) :: u32) AND 0x7fffff = of_nat (mantissa q - 2 ^ 23)"
  proof -
    have k: "(0x7fffff :: u32) = mask 23" by (simp add: mask_eq_exp_minus_1)
    have "(of_nat (mantissa q) :: u32) AND mask 23 = of_nat (take_bit 23 (mantissa q))"
      by (simp only: take_bit_eq_mask [symmetric] take_bit_of_nat)
    moreover have "take_bit 23 (mantissa q) = mantissa q - 2 ^ 23"
      using b(5,6) by (simp add: take_bit_eq_mod mod_if)
    ultimately show ?thesis unfolding k by simp
  qed
  have "aaudio_f32_from_milli milli = (if milli < 0 then 0x80000000 else 0)
      OR push_bit 23 (word_of_int (int (fls64 q - 1) - 23 + 127)) OR (of_nat (mantissa q) AND 0x7fffff)"
    using assms(3) b(1) by (simp only: aaudio_f32_from_milli_def Let_def a_def [symmetric] b(2) q_def [symmetric]
        mantissa_def if_False) simp
  then show ?thesis by (simp only: sign e m)
qed

lemma f32_milli_roundtrip:
  fixes milli :: int
  defines "r \<equiv> aaudio_f32_milli (aaudio_f32_from_milli milli)"
  assumes "\<bar>milli\<bar> < 2 ^ 30"
  shows "0 \<le> milli \<Longrightarrow> 0 \<le> r \<and> r \<le> milli \<and> milli \<le> r + 250"
    and "milli \<le> 0 \<Longrightarrow> milli \<le> r \<and> r \<le> 0 \<and> r - 250 \<le> milli"
    and "125 dvd milli \<Longrightarrow> r = milli"
proof -
  have "(0 \<le> milli \<longrightarrow> 0 \<le> r \<and> r \<le> milli \<and> milli \<le> r + 250) \<and> (milli \<le> 0 \<longrightarrow> milli \<le> r \<and> r \<le> 0 \<and> r - 250 \<le> milli)
      \<and> (125 dvd milli \<longrightarrow> r = milli)"
  proof (cases "milli = 0")
    case True
    have "aaudio_f32_from_milli 0 = 0" by (simp add: aaudio_f32_from_milli_def)
    moreover have "aaudio_f32_milli 0 = 0" by (simp add: aaudio_f32_milli_def)
    ultimately show ?thesis by (simp add: r_def True)
  next
    case False
    define a where "a = nat \<bar>milli\<bar>"
    define q where "q = a * 2 ^ 23 div 1000"
    have a: "0 < a" "a < 2 ^ 30" "\<bar>milli\<bar> = int a" using False assms(2) by (simp_all add: a_def)
    note b = scaled_bounds [OF a(1,2), folded q_def]
    note g = milli_magnitude [OF a(1,2), folded q_def]
    have sub: "2 ^ 23 + (mantissa q - 2 ^ 23) = mantissa q" using b(5) by simp
    have x: "150 - (fls64 q - 1 + 104) = 46 - (fls64 q - 1)" by simp
    have r: "r = (if milli < 0 then -1 else 1) * int (mantissa q * 1000 div 2 ^ (46 - (fls64 q - 1)))"
      unfolding r_def from_milli_fields [OF False a(2) [unfolded a_def], folded a_def, folded q_def]
      using b(3,4,5,6) by (subst f32_milli_fields) (simp_all only: sub x, simp_all)
    have d: "125 dvd milli \<longleftrightarrow> 125 dvd a"
    proof -
      have "125 dvd milli \<longleftrightarrow> 125 dvd \<bar>milli\<bar>" by simp
      also have "\<dots> \<longleftrightarrow> int 125 dvd int a" by (simp add: a(3))
      also have "\<dots> \<longleftrightarrow> 125 dvd a" by (rule int_dvd_int_iff)
      finally show ?thesis .
    qed
    define s where "s = mantissa q * 1000 div 2 ^ (46 - (fls64 q - 1))"
    have g: "s \<le> a" "a \<le> s + 250" "125 dvd a \<Longrightarrow> s = a" using g unfolding s_def .
    show ?thesis
      unfolding r s_def [symmetric] d using g a(3) False by auto
  qed
  then show "0 \<le> milli \<Longrightarrow> 0 \<le> r \<and> r \<le> milli \<and> milli \<le> r + 250"
    and "milli \<le> 0 \<Longrightarrow> milli \<le> r \<and> r \<le> 0 \<and> r - 250 \<le> milli"
    and "125 dvd milli \<Longrightarrow> r = milli" by blast+
qed

lemma sdiv_nonneg: "0 \<le> (x :: int) \<Longrightarrow> 0 < y \<Longrightarrow> x sdiv y = x div y"
  by (simp add: signed_divide_int_def sgn_if)



end
