(* ===== verification/Audio_Pcm.thy ===== *)
theory Audio_Pcm
  imports Audio_Math
begin

unbundle bit_operations_syntax

text \<open>
  The PCM streams of the audio driver (\<open>src/audio/pcm.c\<close>, \<open>src/audio/description.h\<close> and the stream
  structures of \<open>src/audio/audio.h\<close>): the translation of a stream description into ALSA's hardware
  description, the callbacks of a substream and the timestamps of the device.

  The callbacks work on the stream and on ALSA's runtime of the substream; \<open>ps_area\<close> is the memory
  of the ring. Times are arguments. A record of ALSA has the fields the driver reads or sets.
\<close>

section \<open>Data\<close>

record aaudio_apple_description =
  ad_sample_rate_double :: u64
  ad_format_id :: u32
  ad_format_flags :: u32
  ad_bytes_per_packet :: u32
  ad_frames_per_packet :: u32
  ad_bytes_per_frame :: u32
  ad_channels_per_frame :: u32
  ad_bits_per_channel :: u32
  ad_reserved :: u32

abbreviation AAUDIO_FORMAT_LPCM :: u32 where "AAUDIO_FORMAT_LPCM \<equiv> 0x6c70636d"
abbreviation AAUDIO_FORMAT_FLAG_FLOAT :: u32 where "AAUDIO_FORMAT_FLAG_FLOAT \<equiv> 1"
abbreviation AAUDIO_FORMAT_FLAG_BIG_ENDIAN :: u32 where "AAUDIO_FORMAT_FLAG_BIG_ENDIAN \<equiv> 2"
abbreviation AAUDIO_FORMAT_FLAG_SIGNED :: u32 where "AAUDIO_FORMAT_FLAG_SIGNED \<equiv> 4"
abbreviation AAUDIO_FORMAT_FLAG_PACKED :: u32 where "AAUDIO_FORMAT_FLAG_PACKED \<equiv> 8"
abbreviation AAUDIO_FORMAT_FLAG_ALIGNED_HIGH :: u32 where "AAUDIO_FORMAT_FLAG_ALIGNED_HIGH \<equiv> 16"
abbreviation AAUDIO_FORMAT_FLAG_NON_INTERLEAVED :: u32 where "AAUDIO_FORMAT_FLAG_NON_INTERLEAVED \<equiv> 32"

definition flag :: "u32 \<Rightarrow> aaudio_apple_description \<Rightarrow> bool" where
  "flag f d \<longleftrightarrow> ad_format_flags d AND f \<noteq> 0"

text \<open>The fields of \<open>snd_pcm_hardware\<close>; \<open>hw_fifo_size\<close> is one that the driver does not set.\<close>

record snd_pcm_hardware =
  hw_info :: u32
  hw_formats :: u64
  hw_rates :: u32
  hw_rate_min :: u32
  hw_rate_max :: u32
  hw_channels_min :: u32
  hw_channels_max :: u32
  hw_buffer_bytes_max :: u64
  hw_period_bytes_min :: u64
  hw_period_bytes_max :: u64
  hw_periods_min :: u32
  hw_periods_max :: u32
  hw_fifo_size :: u64

record aaudio_dma_buf =
  db_dma_addr :: u64
  db_ptr :: u64
  db_size :: u64

text \<open>
  Times are \<open>int\<close>s in nanoseconds. The timer and the work of a stream are represented by whether they
  are pending.
\<close>

record aaudio_stream =
  st_id :: u64
  st_buffer_cnt :: nat
  st_buffers :: "aaudio_dma_buf list option"
  st_desc :: aaudio_apple_description
  st_alsa_hw_desc :: "snd_pcm_hardware option"
  st_latency :: u32
  st_host_allocated :: bool
  st_waiting_for_first_ts :: bool
  st_buffer_time_ns :: int
  st_remote_timestamp :: int
  st_frame_min :: int
  st_started :: bool
  st_period_timer :: bool
  st_period_work :: bool
  st_period_time_ns :: u64

section \<open>Formats\<close>

text \<open>The format masks of ALSA, by the number of the format.\<close>

abbreviation SNDRV_PCM_FMTBIT_S8 :: u64 where "SNDRV_PCM_FMTBIT_S8 \<equiv> push_bit 0 1"
abbreviation SNDRV_PCM_FMTBIT_U8 :: u64 where "SNDRV_PCM_FMTBIT_U8 \<equiv> push_bit 1 1"
abbreviation SNDRV_PCM_FMTBIT_S16_LE :: u64 where "SNDRV_PCM_FMTBIT_S16_LE \<equiv> push_bit 2 1"
abbreviation SNDRV_PCM_FMTBIT_S16_BE :: u64 where "SNDRV_PCM_FMTBIT_S16_BE \<equiv> push_bit 3 1"
abbreviation SNDRV_PCM_FMTBIT_U16_LE :: u64 where "SNDRV_PCM_FMTBIT_U16_LE \<equiv> push_bit 4 1"
abbreviation SNDRV_PCM_FMTBIT_U16_BE :: u64 where "SNDRV_PCM_FMTBIT_U16_BE \<equiv> push_bit 5 1"
abbreviation SNDRV_PCM_FMTBIT_S24_LE :: u64 where "SNDRV_PCM_FMTBIT_S24_LE \<equiv> push_bit 6 1"
abbreviation SNDRV_PCM_FMTBIT_S24_BE :: u64 where "SNDRV_PCM_FMTBIT_S24_BE \<equiv> push_bit 7 1"
abbreviation SNDRV_PCM_FMTBIT_U24_LE :: u64 where "SNDRV_PCM_FMTBIT_U24_LE \<equiv> push_bit 8 1"
abbreviation SNDRV_PCM_FMTBIT_U24_BE :: u64 where "SNDRV_PCM_FMTBIT_U24_BE \<equiv> push_bit 9 1"
abbreviation SNDRV_PCM_FMTBIT_S32_LE :: u64 where "SNDRV_PCM_FMTBIT_S32_LE \<equiv> push_bit 10 1"
abbreviation SNDRV_PCM_FMTBIT_S32_BE :: u64 where "SNDRV_PCM_FMTBIT_S32_BE \<equiv> push_bit 11 1"
abbreviation SNDRV_PCM_FMTBIT_U32_LE :: u64 where "SNDRV_PCM_FMTBIT_U32_LE \<equiv> push_bit 12 1"
abbreviation SNDRV_PCM_FMTBIT_U32_BE :: u64 where "SNDRV_PCM_FMTBIT_U32_BE \<equiv> push_bit 13 1"
abbreviation SNDRV_PCM_FMTBIT_FLOAT_LE :: u64 where "SNDRV_PCM_FMTBIT_FLOAT_LE \<equiv> push_bit 14 1"
abbreviation SNDRV_PCM_FMTBIT_FLOAT_BE :: u64 where "SNDRV_PCM_FMTBIT_FLOAT_BE \<equiv> push_bit 15 1"
abbreviation SNDRV_PCM_FMTBIT_FLOAT64_LE :: u64 where "SNDRV_PCM_FMTBIT_FLOAT64_LE \<equiv> push_bit 16 1"
abbreviation SNDRV_PCM_FMTBIT_FLOAT64_BE :: u64 where "SNDRV_PCM_FMTBIT_FLOAT64_BE \<equiv> push_bit 17 1"
abbreviation SNDRV_PCM_FMTBIT_S24_3LE :: u64 where "SNDRV_PCM_FMTBIT_S24_3LE \<equiv> push_bit 32 1"
abbreviation SNDRV_PCM_FMTBIT_S24_3BE :: u64 where "SNDRV_PCM_FMTBIT_S24_3BE \<equiv> push_bit 33 1"
abbreviation SNDRV_PCM_FMTBIT_U24_3LE :: u64 where "SNDRV_PCM_FMTBIT_U24_3LE \<equiv> push_bit 34 1"
abbreviation SNDRV_PCM_FMTBIT_U24_3BE :: u64 where "SNDRV_PCM_FMTBIT_U24_3BE \<equiv> push_bit 35 1"

text \<open>\<open>DEFINE_BPC_OPTION\<close>: the four formats of one width.\<close>

definition bpc_option :: "aaudio_apple_description \<Rightarrow> u64 \<Rightarrow> u64 \<Rightarrow> u64 \<Rightarrow> u64 \<Rightarrow> u64" where
  "bpc_option d sbe ube sle ule =
     (if flag AAUDIO_FORMAT_FLAG_BIG_ENDIAN d then (if flag AAUDIO_FORMAT_FLAG_SIGNED d then sbe else ube)
      else (if flag AAUDIO_FORMAT_FLAG_SIGNED d then sle else ule))"

definition aaudio_get_alsa_fmtbit :: "aaudio_apple_description \<Rightarrow> u64" where
  "aaudio_get_alsa_fmtbit d =
     (let bpc = ad_bits_per_channel d in
      if flag AAUDIO_FORMAT_FLAG_FLOAT d then
        (if bpc = 32 then
           (if flag AAUDIO_FORMAT_FLAG_BIG_ENDIAN d then SNDRV_PCM_FMTBIT_FLOAT_BE else SNDRV_PCM_FMTBIT_FLOAT_LE)
         else if bpc = 64 then
           (if flag AAUDIO_FORMAT_FLAG_BIG_ENDIAN d then SNDRV_PCM_FMTBIT_FLOAT64_BE else SNDRV_PCM_FMTBIT_FLOAT64_LE)
         else 0)
      else if flag AAUDIO_FORMAT_FLAG_PACKED d \<and> bpc = 24 then
        bpc_option d SNDRV_PCM_FMTBIT_S24_3BE SNDRV_PCM_FMTBIT_U24_3BE SNDRV_PCM_FMTBIT_S24_3LE SNDRV_PCM_FMTBIT_U24_3LE
      else if flag AAUDIO_FORMAT_FLAG_PACKED d \<and> \<not> (bpc = 8 \<or> bpc = 16 \<or> bpc = 32) then 0
      else if flag AAUDIO_FORMAT_FLAG_ALIGNED_HIGH d then
        (if bpc = 24 then
           bpc_option d SNDRV_PCM_FMTBIT_S32_BE SNDRV_PCM_FMTBIT_U32_BE SNDRV_PCM_FMTBIT_S32_LE SNDRV_PCM_FMTBIT_U32_LE
         else 0)
      else if bpc = 8 then
        (if flag AAUDIO_FORMAT_FLAG_SIGNED d then SNDRV_PCM_FMTBIT_S8 else SNDRV_PCM_FMTBIT_U8)
      else if bpc = 16 then
        bpc_option d SNDRV_PCM_FMTBIT_S16_BE SNDRV_PCM_FMTBIT_U16_BE SNDRV_PCM_FMTBIT_S16_LE SNDRV_PCM_FMTBIT_U16_LE
      else if bpc = 24 then
        bpc_option d SNDRV_PCM_FMTBIT_S24_BE SNDRV_PCM_FMTBIT_U24_BE SNDRV_PCM_FMTBIT_S24_LE SNDRV_PCM_FMTBIT_U24_LE
      else if bpc = 32 then
        bpc_option d SNDRV_PCM_FMTBIT_S32_BE SNDRV_PCM_FMTBIT_U32_BE SNDRV_PCM_FMTBIT_S32_LE SNDRV_PCM_FMTBIT_U32_LE
      else 0)"

abbreviation SNDRV_PCM_INFO_MMAP :: u32 where "SNDRV_PCM_INFO_MMAP \<equiv> 0x1"
abbreviation SNDRV_PCM_INFO_MMAP_VALID :: u32 where "SNDRV_PCM_INFO_MMAP_VALID \<equiv> 0x2"
abbreviation SNDRV_PCM_INFO_DOUBLE :: u32 where "SNDRV_PCM_INFO_DOUBLE \<equiv> 0x4"
abbreviation SNDRV_PCM_INFO_INTERLEAVED :: u32 where "SNDRV_PCM_INFO_INTERLEAVED \<equiv> 0x100"
abbreviation SNDRV_PCM_INFO_BLOCK_TRANSFER :: u32 where "SNDRV_PCM_INFO_BLOCK_TRANSFER \<equiv> 0x10000"
abbreviation SNDRV_PCM_INFO_NO_PERIOD_WAKEUP :: u32 where "SNDRV_PCM_INFO_NO_PERIOD_WAKEUP \<equiv> 0x800000"

text \<open>
  \<open>hw\<close> is what the memory of the result held before. \<open>rate_bit\<close> is \<open>snd_pcm_rate_to_rate_bit\<close>.
  \<open>None\<close> is the undefined shift of \<open>aaudio_double_to_u64\<close>.
\<close>

definition aaudio_create_hw_info :: "(u32 \<Rightarrow> u32) \<Rightarrow> aaudio_apple_description \<Rightarrow> snd_pcm_hardware \<Rightarrow> u64
    \<Rightarrow> (int \<times> snd_pcm_hardware) option" where
  "aaudio_create_hw_info rate_bit d hw buf_size =
     (if ad_bytes_per_packet d = 0 \<or> ad_frames_per_packet d = 0 \<or> ad_channels_per_frame d = 0 then Some (- EINVAL, hw)
      else
        let info = SNDRV_PCM_INFO_MMAP OR SNDRV_PCM_INFO_BLOCK_TRANSFER OR SNDRV_PCM_INFO_MMAP_VALID
              OR SNDRV_PCM_INFO_NO_PERIOD_WAKEUP OR SNDRV_PCM_INFO_DOUBLE;
            hw1 = hw\<lparr>hw_info := (if flag AAUDIO_FORMAT_FLAG_NON_INTERLEAVED d then info
              else info OR SNDRV_PCM_INFO_INTERLEAVED), hw_formats := aaudio_get_alsa_fmtbit d\<rparr>
        in if hw_formats hw1 = 0 then Some (- EINVAL, hw1)
           else case aaudio_double_to_u64 (ad_sample_rate_double d) of
             None \<Rightarrow> None
           | Some r \<Rightarrow>
               let rate = ucast r :: u32 in
               if rate = 0 then Some (- EINVAL, hw1)
               else Some (0, hw1\<lparr>hw_rates := rate_bit rate, hw_rate_min := rate, hw_rate_max := rate,
                 hw_channels_min := ad_channels_per_frame d, hw_channels_max := ad_channels_per_frame d,
                 hw_buffer_bytes_max := buf_size, hw_period_bytes_min := ucast (ad_bytes_per_packet d),
                 hw_period_bytes_max := buf_size div 2, hw_periods_min := 2,
                 hw_periods_max := ucast (buf_size div ucast (ad_bytes_per_packet d))\<rparr>))"

section \<open>What a format bit says\<close>

text \<open>
  The formats of ALSA by their attributes: floating point, significant bits, bits in memory, signed,
  big-endian. The order of the bytes of a single byte is not an attribute.
\<close>

record sample_format =
  sf_float :: bool
  sf_width :: nat
  sf_physical :: nat
  sf_signed :: bool
  sf_big :: bool

definition alsa_formats :: "(nat \<times> sample_format) list" where
  "alsa_formats =
     (let i = (\<lambda>w p s b. \<lparr>sf_float = False, sf_width = w, sf_physical = p, sf_signed = s, sf_big = b\<rparr>);
          f = (\<lambda>w b. \<lparr>sf_float = True, sf_width = w, sf_physical = w, sf_signed = True, sf_big = b\<rparr>)
      in [(0, i 8 8 True False), (1, i 8 8 False False),
          (2, i 16 16 True False), (3, i 16 16 True True), (4, i 16 16 False False), (5, i 16 16 False True),
          (6, i 24 32 True False), (7, i 24 32 True True), (8, i 24 32 False False), (9, i 24 32 False True),
          (10, i 32 32 True False), (11, i 32 32 True True), (12, i 32 32 False False), (13, i 32 32 False True),
          (14, f 32 False), (15, f 32 True), (16, f 64 False), (17, f 64 True),
          (32, i 24 24 True False), (33, i 24 24 True True), (34, i 24 24 False False), (35, i 24 24 False True)])"

text \<open>
  The samples a description announces. A sample that is aligned high fills a larger container from
  above, so that the whole container is significant.
\<close>

definition described :: "aaudio_apple_description \<Rightarrow> sample_format option" where
  "described d =
     (let w = unat (ad_bits_per_channel d); big = flag AAUDIO_FORMAT_FLAG_BIG_ENDIAN d;
          sgn = flag AAUDIO_FORMAT_FLAG_SIGNED d; packed = flag AAUDIO_FORMAT_FLAG_PACKED d;
          high = flag AAUDIO_FORMAT_FLAG_ALIGNED_HIGH d;
          i = (\<lambda>w p b. Some \<lparr>sf_float = False, sf_width = w, sf_physical = p, sf_signed = sgn, sf_big = b\<rparr>)
      in if flag AAUDIO_FORMAT_FLAG_FLOAT d then
           (if w \<in> {32, 64} then Some \<lparr>sf_float = True, sf_width = w, sf_physical = w, sf_signed = True, sf_big = big\<rparr>
            else None)
         else if w = 24 then (if packed then i 24 24 big else if high then i 32 32 big else i 24 32 big)
         else if w \<in> {8, 16, 32} \<and> \<not> high then i w w (big \<and> w \<noteq> 8)
         else None)"

text \<open>
  The format bit is the one of the format with the attributes that the description announces.
\<close>

theorem fmtbit_described:
  "aaudio_get_alsa_fmtbit d = (case described d of None \<Rightarrow> 0
     | Some f \<Rightarrow> (case find (\<lambda>x. snd x = f) alsa_formats of None \<Rightarrow> 0 | Some (n, g) \<Rightarrow> push_bit n 1))"
proof -
  let ?b = "ad_bits_per_channel d"
  have w: "unat ?b = n \<longleftrightarrow> ?b = of_nat n" if "n < 2 ^ 32" for n
    using that unat_of_nat_small [of n, where 'a = 32] by (auto simp: of_nat_unat)
  have e: "unat ?b = 8 \<longleftrightarrow> ?b = 8" "unat ?b = 16 \<longleftrightarrow> ?b = 16" "unat ?b = 24 \<longleftrightarrow> ?b = 24"
    "unat ?b = 32 \<longleftrightarrow> ?b = 32" "unat ?b = 64 \<longleftrightarrow> ?b = 64" by (simp_all add: w)
  note defs = aaudio_get_alsa_fmtbit_def described_def alsa_formats_def bpc_option_def Let_def
  show ?thesis
  proof (cases "flag AAUDIO_FORMAT_FLAG_FLOAT d")
    case True
    then show ?thesis
      unfolding defs insert_iff empty_iff e by (cases "?b = 32"; cases "?b = 64"; cases "flag AAUDIO_FORMAT_FLAG_BIG_ENDIAN d") simp_all
  next
    case False
    consider "?b = 8" | "?b = 16" | "?b = 24" | "?b = 32" | "?b \<noteq> 8" "?b \<noteq> 16" "?b \<noteq> 24" "?b \<noteq> 32" by blast
    then show ?thesis
      unfolding defs insert_iff empty_iff e using False
      by cases (cases "flag AAUDIO_FORMAT_FLAG_BIG_ENDIAN d"; cases "flag AAUDIO_FORMAT_FLAG_SIGNED d";
        cases "flag AAUDIO_FORMAT_FLAG_PACKED d"; cases "flag AAUDIO_FORMAT_FLAG_ALIGNED_HIGH d"; simp)+
  qed
qed

section \<open>Well-formed hardware descriptions\<close>

text \<open>What ALSA relies on: one format, one rate, one number of channels, periods that exist.\<close>

definition wf_hw :: "snd_pcm_hardware \<Rightarrow> bool" where
  "wf_hw h \<longleftrightarrow> (\<exists>n < 36. hw_formats h = push_bit n 1) \<and> hw_rate_min h = hw_rate_max h \<and> 0 < hw_rate_min h
     \<and> hw_channels_min h = hw_channels_max h \<and> 0 < hw_channels_min h \<and> 0 < hw_period_bytes_min h
     \<and> hw_period_bytes_max h \<le> hw_buffer_bytes_max h \<and> hw_periods_min h = 2"

definition none_or_bit :: "u64 \<Rightarrow> bool" where
  "none_or_bit x \<longleftrightarrow> x \<noteq> 0 \<longrightarrow> (\<exists>n < 36. x = push_bit n 1)"

lemma none_or_bit_intros:
  "none_or_bit 0" "n < 36 \<Longrightarrow> none_or_bit (push_bit n 1)"
  "none_or_bit x \<Longrightarrow> none_or_bit y \<Longrightarrow> none_or_bit (if b then x else y)"
  by (auto simp: none_or_bit_def)

lemma fmtbit_one:
  assumes "aaudio_get_alsa_fmtbit d \<noteq> 0"
  shows "\<exists>n < 36. aaudio_get_alsa_fmtbit d = push_bit n 1"
proof -
  have "none_or_bit (aaudio_get_alsa_fmtbit d)"
    unfolding aaudio_get_alsa_fmtbit_def bpc_option_def Let_def by (intro none_or_bit_intros) simp_all
  with assms show ?thesis by (simp only: none_or_bit_def simp_thms)
qed

lemma hw_info_result:
  assumes "aaudio_create_hw_info rate_bit d hw n = Some (st, h)"
  shows "st \<in> {0, - EINVAL} \<and> hw_fifo_size h = hw_fifo_size hw
    \<and> (st = 0 \<longleftrightarrow> ad_bytes_per_packet d \<noteq> 0 \<and> ad_frames_per_packet d \<noteq> 0 \<and> ad_channels_per_frame d \<noteq> 0
         \<and> aaudio_get_alsa_fmtbit d \<noteq> 0
         \<and> (\<exists>r. aaudio_double_to_u64 (ad_sample_rate_double d) = Some r \<and> (ucast r :: u32) \<noteq> 0))
    \<and> (st = 0 \<longrightarrow> wf_hw h \<and> hw_formats h = aaudio_get_alsa_fmtbit d \<and> hw_channels_min h = ad_channels_per_frame d
        \<and> hw_buffer_bytes_max h = n)"
proof (cases "st = 0")
  case True
  then obtain r where r: "aaudio_double_to_u64 (ad_sample_rate_double d) = Some r" "(ucast r :: u32) \<noteq> 0"
    and z: "ad_bytes_per_packet d \<noteq> 0" "ad_frames_per_packet d \<noteq> 0" "ad_channels_per_frame d \<noteq> 0"
      "aaudio_get_alsa_fmtbit d \<noteq> 0"
    and h: "hw_formats h = aaudio_get_alsa_fmtbit d" "hw_rate_min h = ucast r" "hw_rate_max h = ucast r"
      "hw_channels_min h = ad_channels_per_frame d" "hw_channels_max h = ad_channels_per_frame d"
      "hw_period_bytes_min h = ucast (ad_bytes_per_packet d)" "hw_period_bytes_max h = n div 2"
      "hw_buffer_bytes_max h = n" "hw_periods_min h = 2" "hw_fifo_size h = hw_fifo_size hw"
    using assms by (auto simp: aaudio_create_hw_info_def Let_def split: if_splits option.splits)
  have "unat (ucast (ad_bytes_per_packet d) :: u64) = unat (ad_bytes_per_packet d)" by (rule unat_ucast_up) simp
  then have "(ucast (ad_bytes_per_packet d) :: u64) \<noteq> 0" using z(1) by (auto simp: word_unat_eq_iff)
  then have "wf_hw h"
    using h z fmtbit_one [OF z(4)] r(2) by (simp add: wf_hw_def word_neq_0_conv word_le_nat_alt unat_div)
  then show ?thesis using True r z h by simp
next
  case False
  then show ?thesis using assms by (auto simp: aaudio_create_hw_info_def Let_def split: if_splits option.splits)
qed


definition ex_desc :: aaudio_apple_description where
  "ex_desc = \<lparr>ad_sample_rate_double = 0x40e7700000000000, ad_format_id = AAUDIO_FORMAT_LPCM, ad_format_flags = 1,
     ad_bytes_per_packet = 8, ad_frames_per_packet = 1, ad_bytes_per_frame = 8, ad_channels_per_frame = 2,
     ad_bits_per_channel = 32, ad_reserved = 0\<rparr>"

definition ex_hw :: snd_pcm_hardware where
  "ex_hw = snd_pcm_hardware.make 0 0 0 0 0 0 0 0 0 0 0 0 7"


section \<open>Streams and devices\<close>

text \<open>
  Of ALSA's runtime of an open substream: what the driver reads and sets. \<open>rt_step\<close> and \<open>rt_single\<close> are
  the constraints on the period size and on the size of the buffer.
\<close>

record snd_pcm_runtime =
  rt_hw :: "snd_pcm_hardware option"
  rt_step :: "u32 option"
  rt_single :: "u64 option"
  rt_delay :: int
  rt_buffer_size :: u64
  rt_period_size :: u64
  rt_rate :: u32
  rt_appl_ptr :: u64
  rt_frame_bytes :: nat
  rt_no_period_wakeup :: bool
  rt_dma_area :: u64
  rt_dma_addr :: u64
  rt_dma_bytes :: u64

record snd_pcm_substream =
  ss_number :: nat
  ss_runtime :: "snd_pcm_runtime option"

record snd_pcm =
  pc_playback :: "snd_pcm_substream option"
  pc_capture :: "snd_pcm_substream option"

text \<open>
  A subdevice. \<open>sd_uid\<close> is the character array with its terminator; \<open>sd_ts_work\<close> says whether the work
  is queued, \<open>sd_jack\<close> what was reported last when there is a jack.
\<close>

record aaudio_subdevice =
  sd_dev_id :: u64
  sd_ts_work :: bool
  sd_ts_time_os :: int
  sd_in_latency :: u32
  sd_out_latency :: u32
  sd_buf_id :: u8
  sd_alsa_id :: int
  sd_uid :: "u8 list"
  sd_in_stream_cnt :: nat
  sd_in_streams :: "aaudio_stream list"
  sd_out_stream_cnt :: nat
  sd_out_streams :: "aaudio_stream list"
  sd_is_pcm :: bool
  sd_pcm :: "snd_pcm option"
  sd_jack :: "bool option"
  sd_control_cnt :: nat
  sd_controls :: "aaudio_control list"

text \<open>\<open>aaudio_pcm_stream\<close> as a place: reading it and storing into it.\<close>

definition aaudio_pcm_stream :: "bool \<Rightarrow> nat \<Rightarrow> aaudio_subdevice \<Rightarrow> aaudio_stream option" where
  "aaudio_pcm_stream playback n sdev = arr_get (if playback then sd_out_streams sdev else sd_in_streams sdev) n"

definition put_pcm_stream :: "bool \<Rightarrow> nat \<Rightarrow> aaudio_stream \<Rightarrow> aaudio_subdevice \<Rightarrow> aaudio_subdevice" where
  "put_pcm_stream playback n st sdev =
     (if playback then sdev\<lparr>sd_out_streams := (sd_out_streams sdev)[n := st]\<rparr>
      else sdev\<lparr>sd_in_streams := (sd_in_streams sdev)[n := st]\<rparr>)"

section \<open>Callbacks\<close>

text \<open>A conversion to a signed integer of 64 bits.\<close>

definition s64 :: "int \<Rightarrow> int" where
  "s64 x = signed_take_bit 63 x"

abbreviation NSEC_PER_SEC :: u64 where "NSEC_PER_SEC \<equiv> 1000000000"

text \<open>The work: whether it reports the end of a period.\<close>

definition aaudio_pcm_period_work :: "aaudio_stream \<Rightarrow> bool \<times> aaudio_stream" where
  "aaudio_pcm_period_work st = (st_started st, st\<lparr>st_period_work := False\<rparr>)"

text \<open>The timer, which restarts itself.\<close>

definition aaudio_pcm_period_timer :: "aaudio_stream \<Rightarrow> aaudio_stream" where
  "aaudio_pcm_period_timer st =
     (if \<not> st_started st then st\<lparr>st_period_timer := False\<rparr>
      else st\<lparr>st_period_work := True, st_period_timer := True\<rparr>)"

text \<open>\<open>None\<close>: a description without a buffer.\<close>

definition aaudio_pcm_open :: "snd_pcm_runtime \<Rightarrow> aaudio_stream \<Rightarrow> (int \<times> snd_pcm_runtime \<times> aaudio_stream) option" where
  "aaudio_pcm_open rt st =
     (case st_alsa_hw_desc st of
        None \<Rightarrow> Some (- ENXIO, rt, st)
      | Some hw \<Rightarrow>
          (case st_buffers st of
             Some (b # bs) \<Rightarrow> Some (0, rt\<lparr>rt_hw := Some hw, rt_step := Some (ad_frames_per_packet (st_desc st)),
                 rt_single := Some (db_size b)\<rparr>, st\<lparr>st_period_work := False, st_period_timer := False\<rparr>)
           | _ \<Rightarrow> None))"

definition aaudio_pcm_close :: "aaudio_stream \<Rightarrow> int \<times> aaudio_stream" where
  "aaudio_pcm_close st = (0, st\<lparr>st_period_timer := False, st_period_work := False\<rparr>)"

text \<open>\<open>None\<close>: a division by zero.\<close>

definition aaudio_pcm_prepare :: "snd_pcm_runtime \<Rightarrow> aaudio_stream \<Rightarrow> (int \<times> snd_pcm_runtime \<times> aaudio_stream) option" where
  "aaudio_pcm_prepare rt st =
     (if rt_rate rt = 0 then None
      else Some (0, rt\<lparr>rt_delay := int (unat (st_latency st))\<rparr>,
        st\<lparr>st_buffer_time_ns := sint (NSEC_PER_SEC * rt_buffer_size rt div ucast (rt_rate rt)),
           st_period_time_ns := rt_period_size rt * NSEC_PER_SEC div ucast (rt_rate rt)\<rparr>))"

definition aaudio_pcm_hw_params :: "snd_pcm_runtime \<Rightarrow> aaudio_stream \<Rightarrow> int \<times> snd_pcm_runtime" where
  "aaudio_pcm_hw_params rt st =
     (if st_buffer_cnt st = 0 then (- EINVAL, rt)
      else case st_buffers st of
        Some (b # bs) \<Rightarrow> (0, rt\<lparr>rt_dma_area := db_ptr b, rt_dma_addr := db_dma_addr b, rt_dma_bytes := db_size b\<rparr>)
      | _ \<Rightarrow> (- EINVAL, rt))"

text \<open>
  What starting and stopping touch: the stream, the bytes of the buffer, the transport. \<open>io\<close> is what the
  device does to the buffer when it starts.
\<close>

record pcm_state =
  ps_stream :: aaudio_stream
  ps_area :: "u8 list"
  ps_bce :: aaudio_bce

record pcm_env =
  pe_cmd :: acmd_env
  pe_mem :: "u8 list option"
  pe_kvmalloc :: bool
  pe_io :: "u8 list \<Rightarrow> u8 list"

definition io_cmd :: "'a rd \<times> aaudio_bce \<Rightarrow> pcm_state \<Rightarrow> pcm_state option" where
  "io_cmd r s = (case r of (Fault, b) \<Rightarrow> None | (_, b) \<Rightarrow> Some (s\<lparr>ps_bce := b\<rparr>))"

definition pcm_start_io :: "pcm_env \<Rightarrow> u64 \<Rightarrow> pcm_state \<Rightarrow> pcm_state option" where
  "pcm_start_io e devid s =
     map_option (\<lambda>s. s\<lparr>ps_area := pe_io e (ps_area s)\<rparr>)
       (io_cmd (aaudio_cmd_start_io (pe_cmd e) (pe_mem e) devid (ps_bce s)) s)"

definition aaudio_pcm_start :: "pcm_env \<Rightarrow> u64 \<Rightarrow> bool \<Rightarrow> snd_pcm_runtime \<Rightarrow> pcm_state \<Rightarrow> pcm_state option" where
  "aaudio_pcm_start e devid playback rt s =
     (let s1 = s\<lparr>ps_stream := (ps_stream s)\<lparr>st_waiting_for_first_ts := True, st_frame_min := 0\<rparr>\<rparr>;
          n = unat (rt_appl_ptr rt * of_nat (rt_frame_bytes rt))
      in if playback \<and> pe_kvmalloc e then
           (if length (ps_area s1) < n then None
            else case pcm_start_io e devid s1 of
              None \<Rightarrow> None
            | Some s2 \<Rightarrow>
                if length (ps_area s2) < n then None
                else Some (s2\<lparr>ps_area := take n (ps_area s1) @ drop n (ps_area s2)\<rparr>))
         else pcm_start_io e devid s1)"

abbreviation SNDRV_PCM_TRIGGER_STOP :: int where "SNDRV_PCM_TRIGGER_STOP \<equiv> 0"
abbreviation SNDRV_PCM_TRIGGER_START :: int where "SNDRV_PCM_TRIGGER_START \<equiv> 1"
abbreviation SNDRV_PCM_TRIGGER_SUSPEND :: int where "SNDRV_PCM_TRIGGER_SUSPEND \<equiv> 5"

definition upd_stream :: "(aaudio_stream \<Rightarrow> aaudio_stream) \<Rightarrow> pcm_state \<Rightarrow> pcm_state" where
  "upd_stream f s = s\<lparr>ps_stream := f (ps_stream s)\<rparr>"

definition aaudio_pcm_trigger :: "pcm_env \<Rightarrow> u64 \<Rightarrow> bool \<Rightarrow> nat \<Rightarrow> snd_pcm_runtime \<Rightarrow> int \<Rightarrow> pcm_state
    \<Rightarrow> (int \<times> pcm_state) option" where
  "aaudio_pcm_trigger e devid playback number rt cmd s =
     (if number \<noteq> 0 then Some (0, s)
      else if cmd = SNDRV_PCM_TRIGGER_START then
        map_option (\<lambda>s. (0, upd_stream (\<lambda>st. (let st1 = st\<lparr>st_started := True\<rparr> in
            if \<not> rt_no_period_wakeup rt then st1\<lparr>st_period_timer := True\<rparr> else st1)) s))
          (aaudio_pcm_start e devid playback rt s)
      else if cmd = SNDRV_PCM_TRIGGER_STOP then
        map_option (\<lambda>s. (0, upd_stream (\<lambda>st. st\<lparr>st_started := False, st_period_timer := False\<rparr>) s))
          (io_cmd (aaudio_cmd_stop_io (pe_cmd e) (pe_mem e) devid (ps_bce s)) s)
      else if cmd = SNDRV_PCM_TRIGGER_SUSPEND then Some (0, upd_stream (\<lambda>st. st\<lparr>st_period_timer := False\<rparr>) s)
      else Some (- EINVAL, s))"

definition aaudio_pcm_pointer :: "int \<Rightarrow> snd_pcm_runtime \<Rightarrow> aaudio_stream \<Rightarrow> u64 \<times> aaudio_stream" where
  "aaudio_pcm_pointer now rt st =
     (if \<not> st_started st \<or> st_waiting_for_first_ts st then (0, st)
      else
        let t = s64 (now - st_remote_timestamp st) in
        if t < 0 then (0, st)
        else
          let len = st_buffer_time_ns st in
          if len \<le> 0 then (0, st)
          else
            let frames = s64 (t mod len * sint (rt_buffer_size rt)) sdiv len in
            if t < len then
              (if frames < st_frame_min st then (word_of_int (st_frame_min st), st)
               else (word_of_int frames, st\<lparr>st_frame_min := 0\<rparr>))
            else (word_of_int frames, st\<lparr>st_frame_min := (if t < s64 (2 * len) then frames else 0)\<rparr>))"

text \<open>How the buffer is mapped into a process: through the DMA interface or with write combining.\<close>

datatype pcm_mapping =
    Dma_mmap_coherent u64 u64 u64
  | Vm_iomap_writecombine u64 u64

definition aaudio_pcm_mmap :: "snd_pcm_runtime \<Rightarrow> aaudio_stream \<Rightarrow> pcm_mapping option" where
  "aaudio_pcm_mmap rt st =
     (if st_host_allocated st then
        (case st_buffers st of
           Some (b # bs) \<Rightarrow> Some (Dma_mmap_coherent (db_ptr b) (db_dma_addr b) (db_size b))
         | _ \<Rightarrow> None)
      else Some (Vm_iomap_writecombine (rt_dma_addr rt) (rt_dma_bytes rt)))"

section \<open>Timestamps\<close>

text \<open>The first component: whether a period is reported.\<close>

definition aaudio_handle_stream_timestamp :: "snd_pcm_runtime option \<Rightarrow> int \<Rightarrow> aaudio_stream \<Rightarrow> bool \<times> aaudio_stream" where
  "aaudio_handle_stream_timestamp rt ts st =
     (case rt of
        None \<Rightarrow> (False, st)
      | Some _ \<Rightarrow>
          let st1 = st\<lparr>st_remote_timestamp := ts\<rparr> in
          if st_waiting_for_first_ts st1 then (False, st1\<lparr>st_waiting_for_first_ts := False\<rparr>) else (True, st1))"

text \<open>The directions in which a period was reported, in order. \<open>None\<close>: a substream without a stream.\<close>

definition substream_timestamp :: "bool \<Rightarrow> int \<Rightarrow> snd_pcm_substream option \<Rightarrow> bool list \<times> aaudio_subdevice
    \<Rightarrow> (bool list \<times> aaudio_subdevice) option" where
  "substream_timestamp playback ts ss r =
     (case ss of
        None \<Rightarrow> Some r
      | Some s \<Rightarrow>
          (case aaudio_pcm_stream playback (ss_number s) (snd r) of
             None \<Rightarrow> None
           | Some st \<Rightarrow>
               let (el, st') = aaudio_handle_stream_timestamp (ss_runtime s) ts st
               in Some (fst r @ (if el then [playback] else []), put_pcm_stream playback (ss_number s) st' (snd r))))"

definition aaudio_handle_timestamp :: "int \<Rightarrow> aaudio_subdevice \<Rightarrow> (bool list \<times> aaudio_subdevice) option" where
  "aaudio_handle_timestamp ts sdev =
     (case sd_pcm sdev of
        None \<Rightarrow> Some ([], sdev)
      | Some pcm \<Rightarrow>
          (case substream_timestamp True ts (pc_playback pcm) ([], sdev) of
             None \<Rightarrow> None
           | Some r \<Rightarrow> substream_timestamp False ts (pc_capture pcm) r))"

section \<open>Creation\<close>

text \<open>A C string: the bytes up to the terminator.\<close>

definition cstr :: "u8 list \<Rightarrow> u8 list" where
  "cstr bs = takeWhile (\<lambda>b. b \<noteq> 0) bs"

definition str :: "string \<Rightarrow> u8 list" where
  "str s = map of_char s"

definition aaudio_alsa_id_mappings :: "(u8 list \<times> int) list" where
  "aaudio_alsa_id_mappings =
     [(str ''Speaker'', 0), (str ''Digital Mic'', 1), (str ''Codec Output'', 2), (str ''Codec Input'', 3),
      (str ''Bridge Loopback'', 4)]"

text \<open>
  \<open>snd_pcm_new\<close> is the answer of ALSA: an error, or success. It makes one substream for each stream
  of a direction; the first is number zero. The second component is the device's counter.
\<close>

definition aaudio_create_pcm :: "int \<Rightarrow> int \<Rightarrow> aaudio_subdevice \<Rightarrow> int \<times> int \<times> aaudio_subdevice" where
  "aaudio_create_pcm snd_pcm_new next_alsa_id sdev =
     (if \<not> sd_is_pcm sdev \<or> (sd_in_stream_cnt sdev = 0 \<and> sd_out_stream_cnt sdev = 0) then (- EINVAL, next_alsa_id, sdev)
      else
        let (nid, sdev1) = (case map_of aaudio_alsa_id_mappings (cstr (sd_uid sdev)) of
                Some i \<Rightarrow> (next_alsa_id, sdev\<lparr>sd_alsa_id := i\<rparr>)
              | None \<Rightarrow> (next_alsa_id + 1, sdev\<lparr>sd_alsa_id := next_alsa_id\<rparr>));
            sub = (\<lambda>cnt. if cnt = 0 then None else Some \<lparr>ss_number = 0, ss_runtime = None\<rparr>)
        in if snd_pcm_new < 0 then (snd_pcm_new, nid, sdev1)
           else (0, nid, sdev1\<lparr>sd_pcm := Some \<lparr>pc_playback = sub (sd_out_stream_cnt sdev1),
             pc_capture = sub (sd_in_stream_cnt sdev1)\<rparr>\<rparr>))"

section \<open>The hardware pointer\<close>

text \<open>The position inside the buffer after \<open>t\<close> nanoseconds of a stream with buffers of \<open>len\<close> nanoseconds.\<close>

definition position :: "int \<Rightarrow> int \<Rightarrow> int \<Rightarrow> int" where
  "position n len t = (t mod len * n) div len"

definition pcm_running :: "int \<Rightarrow> snd_pcm_runtime \<Rightarrow> aaudio_stream \<Rightarrow> bool" where
  "pcm_running now rt st \<longleftrightarrow> st_started st \<and> \<not> st_waiting_for_first_ts st
     \<and> 0 < st_buffer_time_ns st \<and> 2 * st_buffer_time_ns st < 2 ^ 63 \<and> 0 < unat (rt_buffer_size rt)
     \<and> st_buffer_time_ns st * int (unat (rt_buffer_size rt)) < 2 ^ 63
     \<and> 0 \<le> st_frame_min st \<and> st_frame_min st < int (unat (rt_buffer_size rt))
     \<and> 0 \<le> now - st_remote_timestamp st \<and> now - st_remote_timestamp st < 2 ^ 63"

lemma s64_id: "0 \<le> x \<Longrightarrow> x < 2 ^ 63 \<Longrightarrow> s64 x = x"
  unfolding s64_def by (rule signed_take_bit_int_eq_self) simp_all

lemma position_range:
  assumes "0 < len" "0 < n"
  shows "0 \<le> position n len t" "position n len t < n"
proof -
  have m: "0 \<le> t mod len" "t mod len < len" using assms(1) by simp_all
  then have "0 \<le> t mod len * n" using assms(2) by simp
  then show "0 \<le> position n len t" unfolding position_def using assms(1) by (rule pos_imp_zdiv_nonneg_iff [THEN iffD2, rotated])
  have "t mod len * n < n * len" using m(2) assms(2) by (simp add: mult.commute)
  moreover have "t mod len * n div len * len \<le> t mod len * n"
    using div_mult_mod_eq [of "t mod len * n" len] pos_mod_sign [OF assms(1), of "t mod len * n"] by linarith
  ultimately have "t mod len * n div len * len < n * len" by linarith
  then show "position n len t < n" using assms(1) by (simp add: position_def)
qed

lemma position_mono:
  assumes "0 \<le> t" "t \<le> u" "u < len" "0 < n"
  shows "position n len t \<le> position n len u"
  using assms by (simp add: position_def zdiv_mono1)

lemma buffer_size_below:
  assumes "pcm_running now rt st"
  shows "int (unat (rt_buffer_size rt)) < 2 ^ 63" "sint (rt_buffer_size rt) = int (unat (rt_buffer_size rt))"
proof -
  let ?n = "int (unat (rt_buffer_size rt))"
  have "1 * ?n \<le> st_buffer_time_ns st * ?n" using assms by (intro mult_right_mono) (auto simp: pcm_running_def)
  then have "?n \<le> st_buffer_time_ns st * ?n" by simp
  also have "\<dots> < 2 ^ 63" using assms by (simp only: pcm_running_def)
  finally show lt: "?n < 2 ^ 63" .
  have "sint (word_of_int ?n :: u64) = ?n"
    using lt by (subst signed_of_int) (auto intro: signed_take_bit_int_eq_self)
  then show "sint (rt_buffer_size rt) = ?n" by (simp add: of_nat_unat)
qed

lemma pcm_pointer_eq:
  fixes rt :: snd_pcm_runtime
  assumes r: "pcm_running now rt st"
  defines "n \<equiv> int (unat (rt_buffer_size rt))" and "t \<equiv> now - st_remote_timestamp st"
  shows "aaudio_pcm_pointer now rt st =
    (let f = position n (st_buffer_time_ns st) t in
     if t < st_buffer_time_ns st then
       (if f < st_frame_min st then (word_of_int (st_frame_min st), st) else (word_of_int f, st\<lparr>st_frame_min := 0\<rparr>))
     else (word_of_int f, st\<lparr>st_frame_min := (if t < 2 * st_buffer_time_ns st then f else 0)\<rparr>))"
proof -
  let ?len = "st_buffer_time_ns st"
  have p: "0 < ?len" "0 < n" "2 * ?len < 2 ^ 63" "?len * n < 2 ^ 63" "0 \<le> t" "t < 2 ^ 63"
    "st_started st" "\<not> st_waiting_for_first_ts st"
    using r by (simp_all add: pcm_running_def n_def t_def)
  have m: "0 \<le> t mod ?len * n" "t mod ?len * n < 2 ^ 63"
  proof -
    have "t mod ?len * n \<le> ?len * n" using p(1,2) by (intro mult_right_mono) (simp_all add: less_imp_le)
    also have "\<dots> < 2 ^ 63" by (rule p(4))
    finally show "t mod ?len * n < 2 ^ 63" .
    show "0 \<le> t mod ?len * n" using p(1,2) by simp
  qed
  have f: "s64 (t mod ?len * n) sdiv ?len = position n ?len t"
    using s64_id [OF m] m(1) p(1) by (simp add: position_def signed_divide_int_def sgn_if)
  have t: "s64 t = t" using p(5,6) by (rule s64_id)
  have l: "s64 (2 * ?len) = 2 * ?len" using p(1,3) by (intro s64_id) simp_all
  show ?thesis
    unfolding aaudio_pcm_pointer_def t_def [symmetric] t buffer_size_below(2) [OF r] n_def [symmetric] Let_def f l
    using p by (simp del: of_int_eq_iff)
qed

lemma unat_position: "0 \<le> x \<Longrightarrow> x < 2 ^ 63 \<Longrightarrow> int (unat (word_of_int x :: u64)) = x"
  by (simp add: unsigned_of_int take_bit_int_eq_self)

lemma pcm_pointer_step:
  fixes rt :: snd_pcm_runtime
  assumes r: "pcm_running now rt st"
  defines "n \<equiv> int (unat (rt_buffer_size rt))" and "len \<equiv> st_buffer_time_ns st" and "t \<equiv> now - st_remote_timestamp st"
  defines "f \<equiv> position n len t"
  obtains m where "snd (aaudio_pcm_pointer now rt st) = st\<lparr>st_frame_min := m\<rparr>" "0 \<le> m" "m < n"
    "int (unat (fst (aaudio_pcm_pointer now rt st))) = (if t < len then max f m else f)"
    "t < len \<Longrightarrow> st_frame_min st \<le> max f m"
    "len \<le> t \<Longrightarrow> t < 2 * len \<Longrightarrow> m = f"
proof -
  define m where "m = (if t < len then (if f < st_frame_min st then st_frame_min st else 0) else if t < 2 * len then f else 0)"
  have p: "0 < len" "0 < n" "0 \<le> st_frame_min st" "st_frame_min st < n"
    using r by (simp_all add: pcm_running_def n_def len_def)
  have b: "0 \<le> f" "f < n" unfolding f_def by (rule position_range [OF p(1,2)])+
  have n63: "n < 2 ^ 63" using buffer_size_below(1) [OF r] by (simp only: n_def)
  have m: "0 \<le> m" "m < n" using p b by (auto simp: m_def)
  have eq: "aaudio_pcm_pointer now rt st = (word_of_int (if t < len then max f m else f), st\<lparr>st_frame_min := m\<rparr>)"
    unfolding pcm_pointer_eq [OF r, folded n_def t_def, folded len_def, folded f_def] Let_def m_def using b(1) by (auto simp: max_def)
  have "int (unat (word_of_int (if t < len then max f m else f) :: u64)) = (if t < len then max f m else f)"
    using b m n63 by (intro unat_position) auto
  then show thesis using m p(3) by (intro that [of m]) (auto simp: eq m_def)
qed

text \<open>
  Property C30. The position of a running stream lies inside the buffer. Within one pass over the buffer it does
  not go backwards. When the timestamp of the next pass is late, so that the position
  has run past the end of the buffer by less than a pass, the first position after the
  timestamp is not behind the last one before it.
\<close>

theorem pcm_pointer_never_back:
  fixes rt :: snd_pcm_runtime and st :: aaudio_stream
  assumes r: "pcm_running now rt st"
  defines "a \<equiv> aaudio_pcm_pointer now rt st"
  shows "fst a < rt_buffer_size rt \<and> pcm_running now rt (snd a)
    \<and> (\<forall>now' \<ge> now. now' - st_remote_timestamp st < st_buffer_time_ns st
         \<longrightarrow> fst a \<le> fst (aaudio_pcm_pointer now' rt (snd a)))
    \<and> (\<forall>ts now'. st_buffer_time_ns st \<le> now - st_remote_timestamp st \<and> now - st_remote_timestamp st < 2 * st_buffer_time_ns st
         \<and> ts \<le> now' \<and> now' - ts < st_buffer_time_ns st
         \<longrightarrow> fst a \<le> fst (aaudio_pcm_pointer now' rt (snd (aaudio_handle_stream_timestamp (Some rt) ts (snd a)))))"
proof -
  define n where "n = int (unat (rt_buffer_size rt))"
  define len where "len = st_buffer_time_ns st"
  define t where "t = now - st_remote_timestamp st"
  obtain m where m: "snd a = st\<lparr>st_frame_min := m\<rparr>" "0 \<le> m" "m < n"
    "int (unat (fst a)) = (if t < len then max (position n len t) m else position n len t)"
    "len \<le> t \<Longrightarrow> t < 2 * len \<Longrightarrow> m = position n len t"
    by (rule pcm_pointer_step [OF r, folded a_def n_def len_def t_def]) (rule that)
  have pos: "0 < len" "0 < n" "2 * len < 2 ^ 63" "0 \<le> t"
    using r by (simp_all add: pcm_running_def n_def len_def t_def)
  have run: "pcm_running now' rt ((snd a)\<lparr>st_remote_timestamp := ts\<rparr>)" if "ts \<le> now'" "now' - ts < len" for now' ts
    using r m(2,3) that pos(3) by (simp add: m(1) pcm_running_def n_def len_def)
  have later: "m \<le> int (unat (fst (aaudio_pcm_pointer now' rt ((snd a)\<lparr>st_remote_timestamp := ts\<rparr>))))
      \<and> position n len (now' - ts) \<le> int (unat (fst (aaudio_pcm_pointer now' rt ((snd a)\<lparr>st_remote_timestamp := ts\<rparr>))))"
    if "ts \<le> now'" "now' - ts < len" for now' ts
    using pcm_pointer_step [OF run [OF that], folded n_def] that
    by (simp add: m(1) flip: len_def) (smt (verit) max.bounded_iff order_refl)
  have lt: "fst a < rt_buffer_size rt"
  proof -
    have "int (unat (fst a)) < n" using m(2,3,4) position_range [OF pos(1,2)] by simp
    then show ?thesis by (simp add: word_less_nat_alt n_def)
  qed
  moreover have "pcm_running now rt (snd a)" using r m(2,3) by (simp add: m(1) pcm_running_def n_def)
  moreover have "fst a \<le> fst (aaudio_pcm_pointer now' rt (snd a))"
    if "now \<le> now'" "now' - st_remote_timestamp st < len" for now'
  proof -
    have "t < len" using that by (simp add: t_def)
    have s: "(snd a)\<lparr>st_remote_timestamp := st_remote_timestamp st\<rparr> = snd a" by (simp add: m(1))
    have "position n len t \<le> position n len (now' - st_remote_timestamp st)"
      using pos that by (intro position_mono) (simp_all add: t_def)
    moreover have "int (unat (fst a)) = max (position n len t) m" using m(4) \<open>t < len\<close> by simp
    moreover have "m \<le> int (unat (fst (aaudio_pcm_pointer now' rt (snd a))))
      \<and> position n len (now' - st_remote_timestamp st) \<le> int (unat (fst (aaudio_pcm_pointer now' rt (snd a))))"
      using later [of "st_remote_timestamp st" now'] that pos(4) by (simp add: s t_def)
    ultimately have "int (unat (fst a)) \<le> int (unat (fst (aaudio_pcm_pointer now' rt (snd a))))" by linarith
    then show ?thesis by (simp add: word_le_nat_alt)
  qed
  moreover have "fst a \<le> fst (aaudio_pcm_pointer now' rt (snd (aaudio_handle_stream_timestamp (Some rt) ts (snd a))))"
    if "len \<le> t" "t < 2 * len" "ts \<le> now'" "now' - ts < len" for ts now'
  proof -
    have "snd (aaudio_handle_stream_timestamp (Some rt) ts (snd a)) = (snd a)\<lparr>st_remote_timestamp := ts\<rparr>"
      using r by (simp add: aaudio_handle_stream_timestamp_def m(1) pcm_running_def Let_def)
    then show ?thesis using later [OF that(3,4)] m(4) m(5) [OF that(1,2)] that(1) by (simp add: word_le_nat_alt)
  qed
  ultimately show ?thesis by (simp only: flip: len_def t_def) blast
qed

definition ex_stream :: aaudio_stream where
  "ex_stream = \<lparr>st_id = 7, st_buffer_cnt = 1, st_buffers = Some [\<lparr>db_dma_addr = 0x1000, db_ptr = 0x2000, db_size = 0x20800\<rparr>],
     st_desc = ex_desc, st_alsa_hw_desc = Some ex_hw, st_latency = 0, st_host_allocated = False,
     st_waiting_for_first_ts = False, st_buffer_time_ns = 346666666, st_remote_timestamp = 1000, st_frame_min = 0,
     st_started = True, st_period_timer = True, st_period_work = False, st_period_time_ns = 0\<rparr>"

definition ex_runtime :: snd_pcm_runtime where
  "ex_runtime = \<lparr>rt_hw = None, rt_step = None, rt_single = None, rt_delay = 0, rt_buffer_size = 16640, rt_period_size = 4160,
     rt_rate = 48000, rt_appl_ptr = 2, rt_frame_bytes = 8, rt_no_period_wakeup = False, rt_dma_area = 0, rt_dma_addr = 0,
     rt_dma_bytes = 0\<rparr>"

theorem pcm_pointer_never_back_witness:
  "fst (aaudio_pcm_pointer 346667766 ex_runtime ex_stream)
     \<le> fst (aaudio_pcm_pointer 346668100 ex_runtime
         (snd (aaudio_handle_stream_timestamp (Some ex_runtime) 346668000 (snd (aaudio_pcm_pointer 346667766 ex_runtime ex_stream)))))"
proof -
  have "pcm_running 346667766 ex_runtime ex_stream" by (simp add: pcm_running_def ex_runtime_def ex_stream_def)
  from pcm_pointer_never_back [OF this] show ?thesis by (auto simp: ex_stream_def)
qed

section \<open>Starting a stream\<close>

text \<open>
  Property C31. A playback stream that starts keeps the audio that the application has written: whatever the device
  does to the buffer while it starts, its first bytes, up to the position of the application, are
  those from before, and the rest is what the device left. Without memory for the backup, and for
  a capture stream, the buffer is what the device left. In every case the stream then is started,
  waits for its first timestamp and reports position zero until it arrives.
\<close>

theorem pcm_start_keeps_prefill:
  fixes rt :: snd_pcm_runtime
  assumes "aaudio_pcm_trigger e devid playback 0 rt SNDRV_PCM_TRIGGER_START s = Some (st, s')"
  defines "n \<equiv> unat (rt_appl_ptr rt * of_nat (rt_frame_bytes rt))"
  shows "st = 0 \<and> st_started (ps_stream s')
    \<and> (st_period_timer (ps_stream s') \<longleftrightarrow> \<not> rt_no_period_wakeup rt \<or> st_period_timer (ps_stream s))
    \<and> (\<forall>now. aaudio_pcm_pointer now rt (ps_stream s') = (0, ps_stream s'))
    \<and> (if playback \<and> pe_kvmalloc e
       then take n (ps_area s') = take n (ps_area s) \<and> drop n (ps_area s') = drop n (pe_io e (ps_area s))
       else ps_area s' = pe_io e (ps_area s))"
proof -
  obtain s1 where s1: "aaudio_pcm_start e devid playback rt s = Some s1"
    and s': "st = 0" "s' = upd_stream (\<lambda>st. (let st1 = st\<lparr>st_started := True\<rparr> in
        if \<not> rt_no_period_wakeup rt then st1\<lparr>st_period_timer := True\<rparr> else st1)) s1"
    using assms(1) by (auto simp: aaudio_pcm_trigger_def)
  let ?s0 = "s\<lparr>ps_stream := (ps_stream s)\<lparr>st_waiting_for_first_ts := True, st_frame_min := 0\<rparr>\<rparr>"
  have io: "ps_stream s2 = ps_stream ?s0 \<and> ps_area s2 = pe_io e (ps_area s)" if "pcm_start_io e devid ?s0 = Some s2" for s2
    using that by (auto simp: pcm_start_io_def io_cmd_def split: prod.splits rd.splits)
  have r: "ps_stream s1 = ps_stream ?s0 \<and> (if playback \<and> pe_kvmalloc e
       then take n (ps_area s1) = take n (ps_area s) \<and> drop n (ps_area s1) = drop n (pe_io e (ps_area s))
       else ps_area s1 = pe_io e (ps_area s))"
  proof (cases "playback \<and> pe_kvmalloc e")
    case True
    then obtain s2 where s2: "pcm_start_io e devid ?s0 = Some s2" "n \<le> length (ps_area s)"
      "s1 = s2\<lparr>ps_area := take n (ps_area s) @ drop n (ps_area s2)\<rparr>"
      using s1 by (auto simp: aaudio_pcm_start_def Let_def n_def split: if_splits option.splits)
    with io [OF s2(1)] True show ?thesis by simp
  next
    case False
    then have "pcm_start_io e devid ?s0 = Some s1" using s1 by (auto simp: aaudio_pcm_start_def Let_def)
    from io [OF this] False show ?thesis by auto
  qed
  then have str: "ps_stream s1 = ps_stream ?s0" and area: "if playback \<and> pe_kvmalloc e
       then take n (ps_area s1) = take n (ps_area s) \<and> drop n (ps_area s1) = drop n (pe_io e (ps_area s))
       else ps_area s1 = pe_io e (ps_area s)" by blast+
  show ?thesis
    using s'(1) area str by (auto simp: s'(2) upd_stream_def aaudio_pcm_pointer_def Let_def)
qed

text \<open>A command whose reply is delivered: the reader's answer on the reply in the allocated buffer.\<close>

lemma cmd_answered:
  assumes ans: "answered kstr env (Some m) b" and d: "length d = 0x1000"
    and w: "\<And>x. length (am_data x) = 0x1000 \<Longrightarrow> w x \<noteq> None"
  shows "\<exists>b'. ba_pending b' = ba_pending b \<and> CMD_DEF_SHARED_AND_SEND env (Some d) w rdr b = (rdr (filled d m), b')"
proof -
  have ok: "buffer_ok \<lparr>am_data = d, am_size = 0x1000\<rparr>" using d by (simp add: buffer_ok_def)
  obtain b' where "ba_pending b' = ba_pending b"
    "aaudio_send_cmd_sync env 500 w \<lparr>am_data = d, am_size = 0x1000\<rparr> b = Some (0, filled d m, b')"
    using cmd_sync_outcome [OF ans _ ok, where timeout = 500 and w = w] w by (auto simp: filled_def Let_def)
  then show ?thesis by (simp add: CMD_DEF_SHARED_AND_SEND_def aaudio_reply_alloc_def CMD_SEND_REQUEST_def)
qed

lemma start_io_answered:
  assumes ans: "answered kstr env (Some m) b" and d: "length d = 0x1000"
  shows "\<exists>r b'. aaudio_cmd_start_io env (Some d) devid b = (r, b') \<and> r \<noteq> Fault"
proof -
  have len: "length (am_data m) = 0x1000" using ans by (simp add: answered_def)
  have w: "aaudio_msg_write_start_io devid x \<noteq> None" if "length (am_data x) = 0x1000" for x
    unfolding aaudio_msg_write_start_io_def
    by (rule writes_some, rule write_msg_writes [where m = 0 and st = 0 and payload = "[]"]) (use that in simp_all)
  have "0x1000 \<le> length (am_data (filled d m))" using d len by (simp add: filled_def Let_def min_def)
  then have "aaudio_msg_read_start_io_response (filled d m) \<noteq> Fault"
    by (simp add: aaudio_msg_read_start_io_response_def READ_START_def aaudio_msg_verify_def read_base_at_def read_val_def Let_def)
  then show ?thesis
    using cmd_answered [OF ans d, where rdr = aaudio_msg_read_start_io_response and w = "aaudio_msg_write_start_io devid"] w
    unfolding aaudio_cmd_start_io_def by blast
qed

text \<open>A start during which the device clears the whole buffer: the two frames of audio in it survive.\<close>

definition ex_pcm_env :: pcm_env where
  "ex_pcm_env = \<lparr>pe_cmd = ex_acmd_env, pe_mem = Some (replicate 0x1000 0), pe_kvmalloc = True, pe_io = map (\<lambda>b. 0)\<rparr>"

definition ex_pcm :: pcm_state where
  "ex_pcm = \<lparr>ps_stream = ex_stream, ps_area = replicate 16 5 @ replicate 8 6, ps_bce = ex_audio\<rparr>"

theorem pcm_start_keeps_prefill_witness:
  "\<exists>s'. aaudio_pcm_trigger ex_pcm_env 3 True 0 ex_runtime SNDRV_PCM_TRIGGER_START ex_pcm = Some (0, s')
     \<and> take 16 (ps_area s') = replicate 16 5 \<and> drop 16 (ps_area s') = replicate 8 0"
proof -
  obtain r b' where "aaudio_cmd_start_io ex_acmd_env (Some (replicate 0x1000 0)) 3 ex_audio = (r, b')" "r \<noteq> Fault"
    using start_io_answered [OF ex_answered, of "replicate 0x1000 0" 3] by auto
  then have "aaudio_pcm_trigger ex_pcm_env 3 True 0 ex_runtime SNDRV_PCM_TRIGGER_START ex_pcm \<noteq> None"
    by (cases r) (simp_all add: aaudio_pcm_trigger_def aaudio_pcm_start_def ex_pcm_def ex_pcm_env_def ex_runtime_def
      pcm_start_io_def io_cmd_def Let_def)
  then obtain st s' where s': "aaudio_pcm_trigger ex_pcm_env 3 True 0 ex_runtime SNDRV_PCM_TRIGGER_START ex_pcm = Some (st, s')"
    by auto
  show ?thesis
    using pcm_start_keeps_prefill [OF s'] s' by (intro exI [of _ s']) (simp add: ex_runtime_def ex_pcm_def ex_pcm_env_def)
qed

end
