(* ===== verification/Audio_Device.thy ===== *)
theory Audio_Device
  imports Audio_Pcm "HOL-Library.Monad_Syntax"
begin

unbundle bit_operations_syntax

text \<open>
  The audio device (\<open>src/audio/audio.c\<close>, \<open>src/audio/audio.h\<close>): the mixer controls, the discovery of
  subdevices with their streams and controls, the buffer structure in the memory of the device, the
  handlers of messages, suspend, resume and shutdown.

  \<open>aaudio_device\<close> holds the transport and the list of subdevices, in order. A function that sends commands
  takes the surroundings of each from the script \<open>aaudio_env\<close>; \<open>a_calls\<close> counts them. \<open>None\<close> is a fault: an
  access outside a buffer or an array, the use of a value that was not read, an undefined shift.
\<close>

section \<open>Data\<close>

abbreviation AAUDIO_SIG :: u32 where "AAUDIO_SIG \<equiv> 0x19870423"
abbreviation AAUDIO_DEVICE_MAX_UID_LEN :: nat where "AAUDIO_DEVICE_MAX_UID_LEN \<equiv> 128"
abbreviation AAUDIO_DEVICE_MAX_INPUT_STREAMS :: nat where "AAUDIO_DEVICE_MAX_INPUT_STREAMS \<equiv> 1"
abbreviation AAUDIO_DEVICE_MAX_OUTPUT_STREAMS :: nat where "AAUDIO_DEVICE_MAX_OUTPUT_STREAMS \<equiv> 1"
abbreviation AAUDIO_DEVICE_MAX_BUFFER_COUNT :: nat where "AAUDIO_DEVICE_MAX_BUFFER_COUNT \<equiv> 1"
abbreviation AAUDIO_BUFFER_ID_NONE :: u8 where "AAUDIO_BUFFER_ID_NONE \<equiv> 0xff"
abbreviation AAUDIO_DEVICE_MAX_CONTROLS :: nat where "AAUDIO_DEVICE_MAX_CONTROLS \<equiv> 32"

abbreviation AAUDIO_REMOTE_ACCESS_OFF :: u64 where "AAUDIO_REMOTE_ACCESS_OFF \<equiv> 0"
abbreviation AAUDIO_REMOTE_ACCESS_ON :: u64 where "AAUDIO_REMOTE_ACCESS_ON \<equiv> 2"
abbreviation AAUDIO_CLASS_VOLUME :: u32 where "AAUDIO_CLASS_VOLUME \<equiv> 0x766c6d65"
abbreviation AAUDIO_CLASS_MUTE :: u32 where "AAUDIO_CLASS_MUTE \<equiv> 0x6d757465"
abbreviation AAUDIO_PROP_SCOPE_GLOBAL :: u32 where "AAUDIO_PROP_SCOPE_GLOBAL \<equiv> 0x676c6f62"
abbreviation AAUDIO_PROP_SCOPE_INPUT :: u32 where "AAUDIO_PROP_SCOPE_INPUT \<equiv> 0x696e7074"
abbreviation AAUDIO_PROP_SCOPE_OUTPUT :: u32 where "AAUDIO_PROP_SCOPE_OUTPUT \<equiv> 0x6f757470"
abbreviation AAUDIO_PROP_UID :: u32 where "AAUDIO_PROP_UID \<equiv> 0x75696420"
abbreviation AAUDIO_PROP_BOOL_VALUE :: u32 where "AAUDIO_PROP_BOOL_VALUE \<equiv> 0x6263766c"
abbreviation AAUDIO_PROP_JACK_PLUGGED :: u32 where "AAUDIO_PROP_JACK_PLUGGED \<equiv> 0x6a61636b"
abbreviation AAUDIO_PROP_LATENCY :: u32 where "AAUDIO_PROP_LATENCY \<equiv> 0x6c746e63"
abbreviation AAUDIO_PROP_PHYS_FORMAT :: u32 where "AAUDIO_PROP_PHYS_FORMAT \<equiv> 0x70667420"
abbreviation AAUDIO_PROP_CLASS :: u32 where "AAUDIO_PROP_CLASS \<equiv> 0x636c6173"
abbreviation AAUDIO_PROP_LEVEL_DB :: u32 where "AAUDIO_PROP_LEVEL_DB \<equiv> 0x6c636476"
abbreviation AAUDIO_PROP_LEVEL_DB_RANGE :: u32 where "AAUDIO_PROP_LEVEL_DB_RANGE \<equiv> 0x6c636472"

definition AAUDIO_PROP :: "u32 \<Rightarrow> u32 \<Rightarrow> u32 \<Rightarrow> aaudio_prop_addr" where
  "AAUDIO_PROP scope sel el = \<lparr>pa_scope = scope, pa_selector = sel, pa_element = el\<rparr>"

record aaudio_buffer_struct_buffer =
  bb_address :: u64
  bb_size :: u64

record aaudio_buffer_struct_stream =
  bt_num_buffers :: u8
  bt_buffers :: "aaudio_buffer_struct_buffer list"

record aaudio_buffer_struct_device =
  bd_name :: "u8 list"
  bd_num_input_streams :: u8
  bd_num_output_streams :: u8
  bd_input_streams :: "aaudio_buffer_struct_stream list"
  bd_output_streams :: "aaudio_buffer_struct_stream list"

record aaudio_buffer_struct =
  bs_version :: u32
  bs_signature :: u32
  bs_flags :: u32
  bs_num_devices :: u8
  bs_devices :: "aaudio_buffer_struct_device list"

text \<open>
  The device. \<open>a_works\<close> are the queued property changes: device, object and address. \<open>a_calls\<close> counts the
  commands sent, to find the environment of the next one; \<open>a_mixer\<close> are the controls ALSA has.
\<close>

record aaudio_device =
  a_reg_mem_bs :: u64
  a_reg_mem_bs_dma :: u64
  a_bs :: aaudio_buffer_struct
  a_bcem :: aaudio_bce
  a_subdevice_list :: "aaudio_subdevice list"
  a_next_alsa_id :: int
  a_remote_alive :: bool
  a_works :: "(u64 \<times> u64 \<times> aaudio_prop_addr) list"
  a_mixer :: "(u8 list \<times> u64) list"
  a_calls :: nat

text \<open>
  What the code outside answers. \<open>ax_cmd k\<close> and \<open>ax_mem k\<close> belong to the \<open>k\<close>-th message; \<open>ax_list_mem\<close>,
  \<open>ax_dev_mem\<close> and \<open>ax_ctl_mem\<close> are the allocations of the reply buffers for the list of devices, for a device
  and for its controls. The other answers belong to a device, a stream or a control, by its id, those of
  \<open>ax_kmalloc_buffers\<close> also to a device of the buffer structure:
  \<open>ax_hw_mem\<close> is the uninitialised memory of a hardware description, \<open>ax_dma\<close> the DMA address and the
  pointer of a coherent allocation. \<open>ax_gpr\<close> are the registers of the device, and \<open>ax_bs_at\<close> what it has put
  into its memory at an offset. \<open>ax_alive_wait\<close> is what happens while the driver waits for the device.
\<close>

record aaudio_env =
  ax_cmd :: "nat \<Rightarrow> acmd_env"
  ax_mem :: "nat \<Rightarrow> u8 list option"
  ax_alive_ws :: "wakeup list"
  ax_alive_wait :: "aaudio_device \<Rightarrow> aaudio_device"
  ax_list_mem :: "u8 list option"
  ax_dev_mem :: "u64 \<Rightarrow> u8 list option"
  ax_ctl_mem :: "u64 \<Rightarrow> u8 list option"
  ax_kzalloc_sdev :: "u64 \<Rightarrow> bool"
  ax_snd_pcm_new :: "u64 \<Rightarrow> int"
  ax_snd_jack_new :: "u64 \<Rightarrow> bool"
  ax_snd_ctl_add :: "u64 \<Rightarrow> bool"
  ax_kmalloc_buffers :: "nat \<Rightarrow> u64 \<Rightarrow> bool"
  ax_hw_mem :: "u64 \<Rightarrow> snd_pcm_hardware option"
  ax_dma :: "u64 \<Rightarrow> (u64 \<times> u64) option"
  ax_rate_bit :: "u32 \<Rightarrow> u32"
  ax_gpr :: "nat \<Rightarrow> u32"
  ax_bs_at :: "u32 \<Rightarrow> aaudio_buffer_struct"

section \<open>Commands of the device\<close>

text \<open>One message: the environment is the next one of the script. \<open>None\<close> is a fault.\<close>

definition a_cmd :: "aaudio_env \<Rightarrow> (acmd_env \<Rightarrow> u8 list option \<Rightarrow> aaudio_bce \<Rightarrow> 'a rd \<times> aaudio_bce) \<Rightarrow> aaudio_device
    \<Rightarrow> ((int + 'a) \<times> aaudio_device) option" where
  "a_cmd env f a =
     (let k = a_calls a; (r, b) = f (ax_cmd env k) (ax_mem env k) (a_bcem a); a' = a\<lparr>a_bcem := b, a_calls := Suc k\<rparr>
      in case r of Fault \<Rightarrow> None | Err e \<Rightarrow> Some (Inl e, a') | Ok x \<Rightarrow> Some (Inr x, a'))"

text \<open>A command that fills a buffer of the caller, which holds the reply afterwards.\<close>

definition a_cmd_buf :: "aaudio_env \<Rightarrow> (acmd_env \<Rightarrow> aaudio_msg \<Rightarrow> aaudio_bce \<Rightarrow> 'a rd \<times> aaudio_msg \<times> aaudio_bce)
    \<Rightarrow> aaudio_msg \<Rightarrow> aaudio_device \<Rightarrow> ((int + 'a) \<times> aaudio_msg \<times> aaudio_device) option" where
  "a_cmd_buf env f buf a =
     (let k = a_calls a; (r, buf', b) = f (ax_cmd env k) buf (a_bcem a); a' = a\<lparr>a_bcem := b, a_calls := Suc k\<rparr>
      in case r of Fault \<Rightarrow> None | Err e \<Rightarrow> Some (Inl e, buf', a') | Ok x \<Rightarrow> Some (Inr x, buf', a'))"

text \<open>A property of fixed size as bytes.\<close>

definition get_prim :: "aaudio_env \<Rightarrow> u64 \<Rightarrow> u64 \<Rightarrow> aaudio_prop_addr \<Rightarrow> u64 \<Rightarrow> aaudio_device
    \<Rightarrow> ((int + u8 list) \<times> aaudio_device) option" where
  "get_prim env devid obj p n =
     a_cmd env (\<lambda>e mem. aaudio_cmd_get_primitive_property e mem devid obj p [] n)"

definition u32_of :: "u8 list \<Rightarrow> u32" where "u32_of bs = of_nat (le_val bs)"
definition u64_of :: "u8 list \<Rightarrow> u64" where "u64_of bs = of_nat (le_val bs)"

section \<open>Finding subdevices\<close>

definition aaudio_find_dev_by_dev_id :: "aaudio_device \<Rightarrow> u64 \<Rightarrow> aaudio_subdevice option" where
  "aaudio_find_dev_by_dev_id a dev_id = find (\<lambda>s. dev_id = sd_dev_id s) (a_subdevice_list a)"

text \<open>The place in the list of the first subdevice with the name.\<close>

fun find_index :: "('a \<Rightarrow> bool) \<Rightarrow> 'a list \<Rightarrow> nat option" where
  "find_index p [] = None"
| "find_index p (x # xs) = (if p x then Some 0 else map_option Suc (find_index p xs))"

definition aaudio_find_dev_by_uid :: "aaudio_device \<Rightarrow> u8 list \<Rightarrow> nat option" where
  "aaudio_find_dev_by_uid a uid = find_index (\<lambda>s. cstr uid = cstr (sd_uid s)) (a_subdevice_list a)"

section \<open>Controls\<close>

definition aaudio_ctl_get_u32 :: "aaudio_env \<Rightarrow> u64 \<Rightarrow> aaudio_control \<Rightarrow> u32 \<Rightarrow> aaudio_device
    \<Rightarrow> ((int + u32) \<times> aaudio_device) option" where
  "aaudio_ctl_get_u32 env devid c sel a =
     (case get_prim env devid (ac_id c) (AAUDIO_PROP AAUDIO_PROP_SCOPE_GLOBAL sel 0) 4 a of
        None \<Rightarrow> None | Some (r, a') \<Rightarrow> Some (map_sum id u32_of r, a'))"

definition aaudio_ctl_set_u32 :: "aaudio_env \<Rightarrow> u64 \<Rightarrow> aaudio_control \<Rightarrow> u32 \<Rightarrow> u32 \<Rightarrow> aaudio_device
    \<Rightarrow> (int \<times> aaudio_device) option" where
  "aaudio_ctl_set_u32 env devid c sel v a =
     (case a_cmd env (\<lambda>e mem. aaudio_cmd_set_property e mem devid (ac_id c)
         (AAUDIO_PROP AAUDIO_PROP_SCOPE_GLOBAL sel 0) [] (u32_bytes v)) a of
        None \<Rightarrow> None | Some (r, a') \<Rightarrow> Some (case_sum id (\<lambda>_. 0) r, a'))"

text \<open>The range that ALSA shows: kind, minimum, maximum.\<close>

datatype ctl_info = Ctl_integer int int | Ctl_boolean int int

definition aaudio_ctl_volume_info :: "aaudio_control \<Rightarrow> ctl_info" where
  "aaudio_ctl_volume_info c = Ctl_integer 0 (volume_max c)"

definition aaudio_ctl_volume_get :: "aaudio_env \<Rightarrow> u64 \<Rightarrow> aaudio_control \<Rightarrow> aaudio_device
    \<Rightarrow> ((int + int) \<times> aaudio_device) option" where
  "aaudio_ctl_volume_get env devid c a =
     (case aaudio_ctl_get_u32 env devid c AAUDIO_PROP_LEVEL_DB a of
        None \<Rightarrow> None
      | Some (Inl st, a') \<Rightarrow> Some (Inl st, a')
      | Some (Inr raw, a') \<Rightarrow> Some (Inr (volume_value c raw), a'))"

definition aaudio_ctl_volume_put :: "aaudio_env \<Rightarrow> u64 \<Rightarrow> aaudio_control \<Rightarrow> int \<Rightarrow> aaudio_device
    \<Rightarrow> (int \<times> aaudio_device) option" where
  "aaudio_ctl_volume_put env devid c v a =
     (if v < 0 \<or> v > volume_max c then Some (- EINVAL, a)
      else case aaudio_ctl_set_u32 env devid c AAUDIO_PROP_LEVEL_DB (volume_raw c v) a of
        None \<Rightarrow> None | Some (st, a') \<Rightarrow> Some (if st \<noteq> 0 then st else 1, a'))"

abbreviation SNDRV_CTL_TLV_OP_READ :: int where "SNDRV_CTL_TLV_OP_READ \<equiv> 0"
abbreviation SNDRV_CTL_TLVT_DB_SCALE :: u32 where "SNDRV_CTL_TLVT_DB_SCALE \<equiv> 1"

text \<open>\<open>copy\<close> says whether the copy to the process succeeds.\<close>

definition aaudio_ctl_volume_tlv :: "bool \<Rightarrow> aaudio_control \<Rightarrow> int \<Rightarrow> u32 \<Rightarrow> int \<times> u32 list" where
  "aaudio_ctl_volume_tlv copy c op_flag n =
     (if op_flag \<noteq> SNDRV_CTL_TLV_OP_READ then (- ENXIO, [])
      else if n < 16 then (- ENOMEM, [])
      else if \<not> copy then (- EFAULT, [])
      else (0, [SNDRV_CTL_TLVT_DB_SCALE, 8, word_of_int (ac_min_milli c sdiv 10), word_of_int (AAUDIO_CTL_DB_STEP_MILLI sdiv 10)]))"

definition aaudio_ctl_switch_info :: "aaudio_control \<Rightarrow> ctl_info" where
  "aaudio_ctl_switch_info c = Ctl_boolean 0 1"

definition aaudio_ctl_switch_get :: "aaudio_env \<Rightarrow> u64 \<Rightarrow> aaudio_control \<Rightarrow> aaudio_device
    \<Rightarrow> ((int + int) \<times> aaudio_device) option" where
  "aaudio_ctl_switch_get env devid c a =
     (case aaudio_ctl_get_u32 env devid c AAUDIO_PROP_BOOL_VALUE a of
        None \<Rightarrow> None
      | Some (Inl st, a') \<Rightarrow> Some (Inl st, a')
      | Some (Inr muted, a') \<Rightarrow> Some (Inr (if muted = 0 then 1 else 0), a'))"

definition aaudio_ctl_switch_put :: "aaudio_env \<Rightarrow> u64 \<Rightarrow> aaudio_control \<Rightarrow> int \<Rightarrow> aaudio_device
    \<Rightarrow> (int \<times> aaudio_device) option" where
  "aaudio_ctl_switch_put env devid c v a =
     (case aaudio_ctl_set_u32 env devid c AAUDIO_PROP_BOOL_VALUE (if v = 0 then 1 else 0) a of
        None \<Rightarrow> None | Some (st, a') \<Rightarrow> Some (if st \<noteq> 0 then st else 1, a'))"

section \<open>Setting up a subdevice\<close>

definition upd_sdev :: "nat \<Rightarrow> (aaudio_subdevice \<Rightarrow> aaudio_subdevice) \<Rightarrow> aaudio_device \<Rightarrow> aaudio_device" where
  "upd_sdev i f a = a\<lparr>a_subdevice_list := (a_subdevice_list a)[i := f (a_subdevice_list a ! i)]\<rparr>"

text \<open>The bytes of a description, in the order of the structure.\<close>

definition description_of :: "u8 list \<Rightarrow> aaudio_apple_description" where
  "description_of bs =
     (let f = (\<lambda>off. u32_of (take 4 (drop off bs))) in
      \<lparr>ad_sample_rate_double = u64_of (take 8 bs), ad_format_id = f 8, ad_format_flags = f 12, ad_bytes_per_packet = f 16,
       ad_frames_per_packet = f 20, ad_bytes_per_frame = f 24, ad_channels_per_frame = f 28, ad_bits_per_channel = f 32,
       ad_reserved = f 36\<rparr>)"

definition zero_description :: aaudio_apple_description where
  "zero_description = description_of (replicate 40 0)"

definition zero_stream :: aaudio_stream where
  "zero_stream = \<lparr>st_id = 0, st_buffer_cnt = 0, st_buffers = None, st_desc = zero_description, st_alsa_hw_desc = None,
     st_latency = 0, st_host_allocated = False, st_waiting_for_first_ts = False, st_buffer_time_ns = 0,
     st_remote_timestamp = 0, st_frame_min = 0, st_started = False, st_period_timer = False, st_period_work = False,
     st_period_time_ns = 0\<rparr>"

definition zero_control :: aaudio_control where
  "zero_control = aaudio_control.make 0 0 0 0 0 0"

definition zero_sdev :: aaudio_subdevice where
  "zero_sdev = \<lparr>sd_dev_id = 0, sd_ts_work = False, sd_ts_time_os = 0, sd_in_latency = 0, sd_out_latency = 0, sd_buf_id = 0,
     sd_alsa_id = 0, sd_uid = replicate (AAUDIO_DEVICE_MAX_UID_LEN + 1) 0, sd_in_stream_cnt = 0,
     sd_in_streams = replicate AAUDIO_DEVICE_MAX_INPUT_STREAMS zero_stream, sd_out_stream_cnt = 0,
     sd_out_streams = replicate AAUDIO_DEVICE_MAX_OUTPUT_STREAMS zero_stream, sd_is_pcm = False, sd_pcm = None, sd_jack = None,
     sd_control_cnt = 0, sd_controls = replicate AAUDIO_DEVICE_MAX_CONTROLS zero_control\<rparr>"

text \<open>The last component: whether the stream is PCM.\<close>

definition aaudio_init_stream_info :: "aaudio_env \<Rightarrow> u64 \<Rightarrow> aaudio_stream \<Rightarrow> aaudio_device
    \<Rightarrow> (aaudio_stream \<times> aaudio_device \<times> bool) option" where
  "aaudio_init_stream_info env devid strm a = do {
     (r, a1) \<leftarrow> get_prim env devid (st_id strm) (AAUDIO_PROP AAUDIO_PROP_SCOPE_GLOBAL AAUDIO_PROP_PHYS_FORMAT 0) 40 a;
     let strm1 = (case r of Inl e \<Rightarrow> strm | Inr bs \<Rightarrow> strm\<lparr>st_desc := description_of bs\<rparr>);
     (r', a2) \<leftarrow> get_prim env devid (st_id strm) (AAUDIO_PROP AAUDIO_PROP_SCOPE_GLOBAL AAUDIO_PROP_LATENCY 0) 4 a1;
     let strm2 = (case r' of Inl e \<Rightarrow> strm1 | Inr bs \<Rightarrow> strm1\<lparr>st_latency := u32_of bs\<rparr>);
     Some (strm2, a2, ad_format_id (st_desc strm2) = AAUDIO_FORMAT_LPCM)
   }"

text \<open>An element of a list of 64-bit values in a reply.\<close>

definition list_elem :: "aaudio_msg \<Rightarrow> nat \<Rightarrow> nat \<Rightarrow> u64 option" where
  "list_elem buf off i = (case read_val (off + 8 * i) buf of Ok v \<Rightarrow> Some v | _ \<Rightarrow> None)"

text \<open>The loop over the streams of one direction: the array, whether one is PCM.\<close>

fun init_streams :: "aaudio_env \<Rightarrow> u64 \<Rightarrow> u32 \<Rightarrow> aaudio_msg \<Rightarrow> nat \<Rightarrow> nat list \<Rightarrow> aaudio_stream list \<Rightarrow> bool
    \<Rightarrow> aaudio_device \<Rightarrow> (aaudio_stream list \<times> bool \<times> aaudio_device) option" where
  "init_streams env devid lat buf off [] ss pcm a = Some (ss, pcm, a)"
| "init_streams env devid lat buf off (i # is) ss pcm a = do {
     id \<leftarrow> list_elem buf off i;
     s \<leftarrow> arr_get ss i;
     (s1, a1, p) \<leftarrow> aaudio_init_stream_info env devid (s\<lparr>st_id := id, st_buffer_cnt := 0\<rparr>) a;
     ss' \<leftarrow> arr_set ss i (s1\<lparr>st_latency := st_latency s1 + lat\<rparr>);
     init_streams env devid lat buf off is ss' (pcm \<or> p) a1
   }"

definition aaudio_handle_jack_connection_change :: "aaudio_env \<Rightarrow> aaudio_subdevice \<Rightarrow> aaudio_device
    \<Rightarrow> (aaudio_subdevice \<times> aaudio_device) option" where
  "aaudio_handle_jack_connection_change env sdev a =
     (if sd_jack sdev = None then Some (sdev, a)
      else do {
        (r, a1) \<leftarrow> get_prim env (sd_dev_id sdev) (sd_dev_id sdev)
          (AAUDIO_PROP AAUDIO_PROP_SCOPE_OUTPUT AAUDIO_PROP_JACK_PLUGGED 0) 4 a;
        Some (case r of Inl e \<Rightarrow> (sdev, a1) | Inr bs \<Rightarrow> (sdev\<lparr>sd_jack := Some (u32_of bs \<noteq> 0)\<rparr>, a1))
      })"

section \<open>Setting up the controls\<close>

definition aaudio_ctl_prefix :: "aaudio_subdevice \<Rightarrow> u32 \<Rightarrow> u8 list" where
  "aaudio_ctl_prefix sdev scope =
     (if cstr (sd_uid sdev) = str ''Codec Output'' then
        (if scope = AAUDIO_PROP_SCOPE_INPUT then str ''Mic'' else str ''Headphone'')
      else cstr (sd_uid sdev))"

abbreviation SNDRV_CTL_ELEM_ID_NAME_MAXLEN :: nat where "SNDRV_CTL_ELEM_ID_NAME_MAXLEN \<equiv> 44"

definition aaudio_add_control :: "aaudio_env \<Rightarrow> aaudio_subdevice \<Rightarrow> aaudio_control \<Rightarrow> aaudio_device \<Rightarrow> aaudio_device" where
  "aaudio_add_control env sdev c a =
     (let name = take (SNDRV_CTL_ELEM_ID_NAME_MAXLEN - 1) (aaudio_ctl_prefix sdev (ac_scope c) @ str '' ''
           @ (if ac_scope c = AAUDIO_PROP_SCOPE_INPUT then str ''Capture'' else str ''Playback'') @ str '' ''
           @ (if ac_class_id c = AAUDIO_CLASS_VOLUME then str ''Volume'' else str ''Switch''))
      in if ac_class_id c = AAUDIO_CLASS_VOLUME \<and> ac_max_milli c \<le> ac_min_milli c then a
         else if \<not> ax_snd_ctl_add env (ac_id c) then a
         else a\<lparr>a_mixer := a_mixer a @ [(name, ac_id c)]\<rparr>)"

text \<open>One control of the list; the third and fourth component of the lists are elements and scopes.\<close>

definition init_control :: "aaudio_env \<Rightarrow> aaudio_msg \<Rightarrow> nat \<times> nat \<times> nat \<Rightarrow> nat \<Rightarrow> aaudio_subdevice \<times> aaudio_device
    \<Rightarrow> (aaudio_subdevice \<times> aaudio_device) option" where
  "init_control env buf offs i sa = (case offs of (ctrl_l, elem_l, scope_l) \<Rightarrow> case sa of (sdev, a) \<Rightarrow> do {
     let n = sd_control_cnt sdev;
     c0 \<leftarrow> arr_get (sd_controls sdev) n;
     id \<leftarrow> list_elem buf ctrl_l i;
     sc \<leftarrow> list_elem buf scope_l i;
     el \<leftarrow> list_elem buf elem_l i;
     let c1 = c0\<lparr>ac_id := id, ac_scope := ucast sc, ac_element := ucast el\<rparr>;
     let put = (\<lambda>c. sdev\<lparr>sd_controls := (sd_controls sdev)[n := c]\<rparr>);
     (r, a1) \<leftarrow> get_prim env (sd_dev_id sdev) id (AAUDIO_PROP AAUDIO_PROP_SCOPE_GLOBAL AAUDIO_PROP_CLASS 0) 4 a;
     case r of
       Inl e \<Rightarrow> Some (put c1, a1)
     | Inr bs \<Rightarrow>
         let c2 = c1\<lparr>ac_class_id := u32_of bs\<rparr>;
             done = (\<lambda>c a. (let s = (put c)\<lparr>sd_control_cnt := Suc n\<rparr> in (s, aaudio_add_control env s c a)))
         in if ac_class_id c2 = AAUDIO_CLASS_VOLUME then do {
              (r', a2) \<leftarrow> get_prim env (sd_dev_id sdev) id
                (AAUDIO_PROP AAUDIO_PROP_SCOPE_GLOBAL AAUDIO_PROP_LEVEL_DB_RANGE 0) 16 a1;
              case r' of
                Inl e \<Rightarrow> Some (put c2, a2)
              | Inr rs \<Rightarrow> Some (done (c2\<lparr>ac_min_milli := s32 (aaudio_f64_milli (u64_of (take 8 rs))),
                  ac_max_milli := s32 (aaudio_f64_milli (u64_of (drop 8 rs)))\<rparr>) a2)
            }
            else if ac_class_id c2 \<noteq> AAUDIO_CLASS_MUTE then Some (put c2, a1)
            else Some (done c2 a1)
   })"

fun init_controls_loop :: "aaudio_env \<Rightarrow> aaudio_msg \<Rightarrow> nat \<times> nat \<times> nat \<Rightarrow> nat list
    \<Rightarrow> aaudio_subdevice \<times> aaudio_device \<Rightarrow> (aaudio_subdevice \<times> aaudio_device) option" where
  "init_controls_loop env buf offs [] sa = Some sa"
| "init_controls_loop env buf offs (i # is) sa =
     (if \<not> sd_control_cnt (fst sa) < AAUDIO_DEVICE_MAX_CONTROLS then Some sa
      else do { sa' \<leftarrow> init_control env buf offs i sa; init_controls_loop env buf offs is sa' })"

definition aaudio_init_controls :: "aaudio_env \<Rightarrow> aaudio_subdevice \<Rightarrow> aaudio_device
    \<Rightarrow> (aaudio_subdevice \<times> aaudio_device) option" where
  "aaudio_init_controls env sdev a =
     (case aaudio_reply_alloc (ax_ctl_mem env (sd_dev_id sdev)) of
        None \<Rightarrow> Some (sdev, a)
      | Some buf \<Rightarrow> do {
          (r, buf1, a1) \<leftarrow> a_cmd_buf env (\<lambda>e. aaudio_cmd_get_control_list e (sd_dev_id sdev)) buf a;
          case r of
            Inl e \<Rightarrow> Some (sdev, a1)
          | Inr (ctrl_l, elem_l, scope_l, cnt) \<Rightarrow>
              init_controls_loop env buf1 (ctrl_l, elem_l, scope_l) [0..<unat cnt] (sdev, a1)
        })"

section \<open>Setting up a device\<close>

text \<open>A failure frees the subdevice and leaves the list as it is.\<close>

definition set_uid :: "u8 list \<Rightarrow> aaudio_subdevice \<Rightarrow> aaudio_subdevice" where
  "set_uid uid sdev = sdev\<lparr>sd_uid := uid @ 0 # drop (Suc (length uid)) (sd_uid sdev)\<rparr>"

definition copy_bytes :: "aaudio_msg \<Rightarrow> nat \<Rightarrow> nat \<Rightarrow> u8 list option" where
  "copy_bytes m off n = (case copy_out m off n of Ok bs \<Rightarrow> Some bs | _ \<Rightarrow> None)"

definition init_dev_jack :: "aaudio_env \<Rightarrow> aaudio_subdevice \<Rightarrow> aaudio_device
    \<Rightarrow> (aaudio_subdevice \<times> aaudio_device) option" where
  "init_dev_jack env sdev a =
     (if cstr (sd_uid sdev) \<noteq> str ''Codec Output'' then Some (sdev, a)
      else do {
        let sdev1 = (if ax_snd_jack_new env (sd_dev_id sdev) then sdev\<lparr>sd_jack := Some False\<rparr> else sdev);
        (r, a1) \<leftarrow> a_cmd env (\<lambda>e mem. aaudio_cmd_property_listener e mem (sd_dev_id sdev1) (sd_dev_id sdev1)
          (AAUDIO_PROP AAUDIO_PROP_SCOPE_OUTPUT AAUDIO_PROP_JACK_PLUGGED 0)) a;
        aaudio_handle_jack_connection_change env sdev1 a1
      })"

text \<open>The set-up in its order: the outputs, the inputs before them, the names before those.\<close>

definition finish_dev :: "aaudio_env \<Rightarrow> u64 \<Rightarrow> aaudio_subdevice \<Rightarrow> aaudio_device \<Rightarrow> aaudio_device option" where
  "finish_dev env dev_id sdev a = do {
     (sdev1, a1) \<leftarrow> aaudio_init_controls env sdev a;
     let (st, nid, sdev2) = (if sd_is_pcm sdev1
       then aaudio_create_pcm (ax_snd_pcm_new env dev_id) (a_next_alsa_id a1) sdev1 else (0, a_next_alsa_id a1, sdev1));
     (sdev3, a2) \<leftarrow> init_dev_jack env sdev2 (a1\<lparr>a_next_alsa_id := nid\<rparr>);
     Some (a2\<lparr>a_subdevice_list := a_subdevice_list a2 @ [sdev3]\<rparr>)
   }"

definition init_dev_outputs :: "aaudio_env \<Rightarrow> u64 \<Rightarrow> aaudio_msg \<Rightarrow> aaudio_subdevice \<Rightarrow> aaudio_device \<Rightarrow> aaudio_device option" where
  "init_dev_outputs env dev_id buf sdev a = do {
     (r, buf1, a1) \<leftarrow> a_cmd_buf env (\<lambda>e. aaudio_cmd_get_output_stream_list e dev_id) buf a;
     case r of
       Inl e \<Rightarrow> Some a1
     | Inr (off, cnt) \<Rightarrow> do {
         let n = min (unat cnt) AAUDIO_DEVICE_MAX_OUTPUT_STREAMS;
         (ss, pcm, a2) \<leftarrow> init_streams env dev_id (sd_out_latency sdev) buf1 off [0..<n] (sd_out_streams sdev)
           (sd_is_pcm sdev) a1;
         finish_dev env dev_id (sdev\<lparr>sd_out_stream_cnt := n, sd_out_streams := ss, sd_is_pcm := pcm\<rparr>) a2
       }
   }"

definition init_dev_inputs :: "aaudio_env \<Rightarrow> u64 \<Rightarrow> aaudio_msg \<Rightarrow> aaudio_subdevice \<Rightarrow> aaudio_device \<Rightarrow> aaudio_device option" where
  "init_dev_inputs env dev_id buf sdev a = do {
     (r, buf1, a1) \<leftarrow> a_cmd_buf env (\<lambda>e. aaudio_cmd_get_input_stream_list e dev_id) buf a;
     case r of
       Inl e \<Rightarrow> Some a1
     | Inr (off, cnt) \<Rightarrow> do {
         let n = min (unat cnt) AAUDIO_DEVICE_MAX_INPUT_STREAMS;
         (ss, pcm, a2) \<leftarrow> init_streams env dev_id (sd_in_latency sdev) buf1 off [0..<n] (sd_in_streams sdev)
           (sd_is_pcm sdev) a1;
         init_dev_outputs env dev_id buf1 (sdev\<lparr>sd_in_stream_cnt := n, sd_in_streams := ss, sd_is_pcm := pcm\<rparr>) a2
       }
   }"

definition aaudio_init_dev :: "aaudio_env \<Rightarrow> u64 \<Rightarrow> aaudio_device \<Rightarrow> aaudio_device option" where
  "aaudio_init_dev env dev_id a =
     (case aaudio_reply_alloc (ax_dev_mem env dev_id) of
        None \<Rightarrow> Some a
      | Some buf \<Rightarrow>
          if \<not> ax_kzalloc_sdev env dev_id then Some a
          else do {
            (r, buf1, a1) \<leftarrow> a_cmd_buf env (\<lambda>e. aaudio_cmd_get_property e dev_id dev_id
              (AAUDIO_PROP AAUDIO_PROP_SCOPE_GLOBAL AAUDIO_PROP_UID 0) []) buf a;
            case r of
              Inl e \<Rightarrow> Some a1
            | Inr (uid_off, uid_len) \<Rightarrow>
                if uid_len > of_nat AAUDIO_DEVICE_MAX_UID_LEN then Some a1
                else do {
                  uid \<leftarrow> copy_bytes buf1 uid_off (unat uid_len);
                  let sdev = set_uid uid (zero_sdev\<lparr>sd_dev_id := dev_id, sd_buf_id := AAUDIO_BUFFER_ID_NONE\<rparr>);
                  (r1, a2) \<leftarrow> get_prim env dev_id dev_id (AAUDIO_PROP AAUDIO_PROP_SCOPE_INPUT AAUDIO_PROP_LATENCY 0) 4 a1;
                  let sdev1 = (case r1 of Inl e \<Rightarrow> sdev | Inr bs \<Rightarrow> sdev\<lparr>sd_in_latency := u32_of bs\<rparr>);
                  (r2, a3) \<leftarrow> get_prim env dev_id dev_id (AAUDIO_PROP AAUDIO_PROP_SCOPE_OUTPUT AAUDIO_PROP_LATENCY 0) 4 a2;
                  let sdev2 = (case r2 of Inl e \<Rightarrow> sdev1 | Inr bs \<Rightarrow> sdev1\<lparr>sd_out_latency := u32_of bs\<rparr>);
                  init_dev_inputs env dev_id buf1 sdev2 a3
                }
          })"

fun init_devs :: "aaudio_env \<Rightarrow> aaudio_msg \<Rightarrow> nat \<Rightarrow> nat list \<Rightarrow> aaudio_device \<Rightarrow> aaudio_device option" where
  "init_devs env buf off [] a = Some a"
| "init_devs env buf off (i # is) a = do {
     id \<leftarrow> list_elem buf off i;
     a' \<leftarrow> aaudio_init_dev env id a;
     init_devs env buf off is a'
   }"

text \<open>The count the device announces, cut to what fits into the reply.\<close>

definition clamp_devs :: "aaudio_msg \<Rightarrow> nat \<Rightarrow> u64 \<Rightarrow> nat" where
  "clamp_devs buf off cnt =
     (let dev_max = (if am_size buf > of_nat off then (am_size buf - of_nat off) div 8 else 0)
      in unat (if cnt > dev_max then dev_max else cnt))"

definition aaudio_init_cmd :: "aaudio_env \<Rightarrow> aaudio_device \<Rightarrow> (int \<times> aaudio_device) option" where
  "aaudio_init_cmd env a = do {
     (st, b) \<leftarrow> aaudio_send (ax_alive_ws env) None 500 (aaudio_msg_write_alive_notification 1 3) (a_bcem a);
     let a1 = a\<lparr>a_bcem := b\<rparr>;
     if st \<noteq> 0 then Some (st, a1)
     else
       let a2 = ax_alive_wait env a1 in
       if \<not> a_remote_alive a2 then Some (- ETIMEDOUT, a2)
       else case aaudio_reply_alloc (ax_list_mem env) of
         None \<Rightarrow> Some (- ENOMEM, a2)
       | Some buf \<Rightarrow> do {
           (r, buf1, a3) \<leftarrow> a_cmd_buf env aaudio_cmd_get_device_list buf a2;
           case r of
             Inl e \<Rightarrow> Some (e, a3)
           | Inr (off, cnt) \<Rightarrow> do {
               a4 \<leftarrow> init_devs env buf1 off [0..<clamp_devs buf1 off cnt] a3;
               Some (0, a4)
             }
         }
   }"

section \<open>The buffer structure\<close>

text \<open>A hardware description in freshly allocated memory; \<open>Some None\<close> when there is none.\<close>

definition alloc_hw_info :: "aaudio_env \<Rightarrow> aaudio_stream \<Rightarrow> u64 \<Rightarrow> snd_pcm_hardware option option" where
  "alloc_hw_info env strm n =
     (case ax_hw_mem env (st_id strm) of
        None \<Rightarrow> Some None
      | Some hw \<Rightarrow>
          (case aaudio_create_hw_info (ax_rate_bit env) (st_desc strm) hw n of
             None \<Rightarrow> None
           | Some (st, hw') \<Rightarrow> Some (if st \<noteq> 0 then None else Some hw')))"

definition aaudio_init_bs_stream :: "aaudio_env \<Rightarrow> nat \<Rightarrow> aaudio_device \<Rightarrow> aaudio_stream \<Rightarrow> aaudio_buffer_struct_stream
    \<Rightarrow> aaudio_stream option" where
  "aaudio_init_bs_stream env i a strm bst =
     (let n = min (unat (bt_num_buffers bst)) AAUDIO_DEVICE_MAX_BUFFER_COUNT; strm1 = strm\<lparr>st_buffer_cnt := n\<rparr> in
      if n = 0 then Some strm1
      else if \<not> ax_kmalloc_buffers env i (st_id strm) then Some (strm1\<lparr>st_buffers := None\<rparr>)
      else do {
        bs \<leftarrow> (if n \<le> length (bt_buffers bst) then Some (take n (bt_buffers bst)) else None);
        let bufs = map (\<lambda>b. \<lparr>db_dma_addr = a_reg_mem_bs_dma a + bb_address b, db_ptr = a_reg_mem_bs a + bb_address b,
          db_size = bb_size b\<rparr>) bs;
        let strm2 = strm1\<lparr>st_buffers := Some bufs\<rparr>;
        if n = 1 then do {
          hw \<leftarrow> alloc_hw_info env strm2 (db_size (hd bufs));
          Some (strm2\<lparr>st_alsa_hw_desc := hw\<rparr>)
        } else Some strm2
      })"

definition set_buffer0 :: "u64 \<Rightarrow> u64 \<Rightarrow> u8 \<Rightarrow> aaudio_buffer_struct_stream \<Rightarrow> aaudio_buffer_struct_stream option" where
  "set_buffer0 addr n num bst = do {
     b \<leftarrow> arr_get (bt_buffers bst) 0;
     bs \<leftarrow> arr_set (bt_buffers bst) 0 (b\<lparr>bb_address := addr, bb_size := n\<rparr>);
     Some (bst\<lparr>bt_buffers := bs, bt_num_buffers := num\<rparr>)
   }"

definition aaudio_init_bs_stream_host :: "aaudio_env \<Rightarrow> nat \<Rightarrow> aaudio_stream \<Rightarrow> aaudio_buffer_struct_stream
    \<Rightarrow> (aaudio_stream \<times> aaudio_buffer_struct_stream) option" where
  "aaudio_init_bs_stream_host env i strm bst =
     (let n = ucast (ad_bytes_per_packet (st_desc strm) * 16640 :: u32) :: u64 in
      case ax_dma env (st_id strm) of
        None \<Rightarrow> Some (strm, bst)
      | Some (dma, p) \<Rightarrow> do {
          bst1 \<leftarrow> set_buffer0 dma n 1 bst;
          if \<not> ax_kmalloc_buffers env i (st_id strm) then do {
            bst2 \<leftarrow> set_buffer0 0 0 0 bst1;
            Some (strm\<lparr>st_buffer_cnt := 0, st_buffers := None\<rparr>, bst2)
          } else do {
            let strm1 = strm\<lparr>st_buffer_cnt := 1, st_buffers := Some [\<lparr>db_dma_addr = dma, db_ptr = p, db_size = n\<rparr>],
              st_host_allocated := True\<rparr>;
            hw \<leftarrow> alloc_hw_info env strm1 n;
            Some (strm1\<lparr>st_alsa_hw_desc := hw\<rparr>, bst1)
          }
        })"

definition set_bs_device :: "nat \<Rightarrow> (aaudio_buffer_struct_device \<Rightarrow> aaudio_buffer_struct_device) \<Rightarrow> aaudio_device
    \<Rightarrow> aaudio_device option" where
  "set_bs_device i f a = do {
     d \<leftarrow> arr_get (bs_devices (a_bs a)) i;
     ds \<leftarrow> arr_set (bs_devices (a_bs a)) i (f d);
     Some (a\<lparr>a_bs := (a_bs a)\<lparr>bs_devices := ds\<rparr>\<rparr>)
   }"

text \<open>The output streams of a device of the structure, for the subdevice at the place \<open>k\<close>.\<close>

fun bs_outputs :: "aaudio_env \<Rightarrow> nat \<Rightarrow> aaudio_buffer_struct_device \<Rightarrow> nat \<Rightarrow> nat list \<Rightarrow> aaudio_device \<Rightarrow> aaudio_device option" where
  "bs_outputs env i dev k [] a = Some a"
| "bs_outputs env i dev k (j # js) a = do {
     bst \<leftarrow> arr_get (bd_output_streams dev) j;
     let sdev = a_subdevice_list a ! k;
     a' \<leftarrow> (if j < sd_out_stream_cnt sdev then do {
         s \<leftarrow> arr_get (sd_out_streams sdev) j;
         s' \<leftarrow> aaudio_init_bs_stream env i a s bst;
         Some (upd_sdev k (put_pcm_stream True j s') a)
       } else Some a);
     bs_outputs env i dev k js a'
   }"

fun bs_devices_loop :: "aaudio_env \<Rightarrow> nat list \<Rightarrow> aaudio_device \<Rightarrow> aaudio_device option" where
  "bs_devices_loop env [] a = Some a"
| "bs_devices_loop env (i # is) a = do {
     dev \<leftarrow> arr_get (bs_devices (a_bs a)) i;
     a' \<leftarrow> (case aaudio_find_dev_by_uid a (bd_name dev) of
         None \<Rightarrow> Some a
       | Some k \<Rightarrow> do {
           a1 \<leftarrow> set_bs_device i (bd_num_input_streams_update (\<lambda>_. 0))
             (upd_sdev k (\<lambda>s. s\<lparr>sd_buf_id := of_nat i\<rparr>) a);
           bs_outputs env i dev k [0..<unat (bd_num_output_streams dev)] a1
         });
     bs_devices_loop env is a'
   }"

text \<open>The subdevices without a place in the structure get the ones behind it.\<close>

fun bs_assign :: "nat list \<Rightarrow> nat \<Rightarrow> aaudio_device \<Rightarrow> aaudio_device option" where
  "bs_assign [] i a = Some a"
| "bs_assign (k # ks) i a =
     (if sd_buf_id (a_subdevice_list a ! k) \<noteq> AAUDIO_BUFFER_ID_NONE then bs_assign ks i a
      else if length (bs_devices (a_bs a)) \<le> i then Some a
      else do {
        let a1 = upd_sdev k (\<lambda>s. s\<lparr>sd_buf_id := of_nat i\<rparr>) a;
        a2 \<leftarrow> set_bs_device i (\<lambda>d. d\<lparr>bd_name := take 127 (cstr (sd_uid (a_subdevice_list a ! k))), bd_num_input_streams := 0,
          bd_num_output_streams := 0\<rparr>) a1;
        bs_assign ks (Suc i) (a2\<lparr>a_bs := (a_bs a2)\<lparr>bs_num_devices := of_nat (Suc i)\<rparr>\<rparr>)
      })"

fun bs_inputs :: "aaudio_env \<Rightarrow> nat list \<Rightarrow> aaudio_device \<Rightarrow> aaudio_device option" where
  "bs_inputs env [] a = Some a"
| "bs_inputs env (k # ks) a = do {
     let sdev = a_subdevice_list a ! k;
     a' \<leftarrow> (if sd_buf_id sdev = AAUDIO_BUFFER_ID_NONE \<or> sd_in_stream_cnt sdev \<noteq> 1 then Some a
       else do {
         let i = unat (sd_buf_id sdev);
         dev \<leftarrow> arr_get (bs_devices (a_bs a)) i;
         bst \<leftarrow> arr_get (bd_input_streams dev) 0;
         s \<leftarrow> arr_get (sd_in_streams sdev) 0;
         (s', bst') \<leftarrow> aaudio_init_bs_stream_host env i s bst;
         a1 \<leftarrow> set_bs_device i (\<lambda>d. d\<lparr>bd_input_streams := (bd_input_streams d)[0 := bst'], bd_num_input_streams := 1\<rparr>)
           (upd_sdev k (put_pcm_stream False 0 s') a);
         (r, a2) \<leftarrow> a_cmd env (\<lambda>e mem. aaudio_cmd_set_input_stream_address_ranges e mem (sd_dev_id sdev)) a1;
         Some a2
       });
     bs_inputs env ks a'
   }"

definition aaudio_init_bs :: "aaudio_env \<Rightarrow> aaudio_device \<Rightarrow> (int \<times> aaudio_device) option" where
  "aaudio_init_bs env a =
     (if ax_gpr env 0 < 3 then Some (- EINVAL, a)
      else if ax_gpr env 1 \<noteq> AAUDIO_SIG then Some (- EINVAL, a)
      else
        let a1 = a\<lparr>a_bs := ax_bs_at env (ax_gpr env 2)\<rparr>;
            n = min (unat (bs_num_devices (a_bs a1))) (length (bs_devices (a_bs a1)));
            all = [0..<length (a_subdevice_list a1)]
        in if bs_signature (a_bs a1) \<noteq> AAUDIO_SIG then Some (- EINVAL, a1)
           else do {
             a2 \<leftarrow> bs_devices_loop env [0..<n] a1;
             a3 \<leftarrow> bs_assign all n a2;
             a4 \<leftarrow> bs_inputs env all a3;
             Some (0, a4)
           })"

section \<open>Messages from the device\<close>

text \<open>\<open>kmalloc\<close> says whether there is memory for the work.\<close>

definition aaudio_handle_prop_change :: "bool \<Rightarrow> aaudio_msg \<Rightarrow> aaudio_device \<Rightarrow> aaudio_device option" where
  "aaudio_handle_prop_change kmalloc msg a =
     (if \<not> kmalloc then Some a
      else case aaudio_msg_read_property_changed msg of
        Fault \<Rightarrow> None | Err e \<Rightarrow> Some a | Ok w \<Rightarrow> Some (a\<lparr>a_works := a_works a @ [w]\<rparr>))"

text \<open>The work of the first property change in the queue.\<close>

definition aaudio_handle_prop_change_work :: "aaudio_env \<Rightarrow> aaudio_device \<Rightarrow> aaudio_device option" where
  "aaudio_handle_prop_change_work env a =
     (case a_works a of
        [] \<Rightarrow> Some a
      | (dev, obj, p) # ws \<Rightarrow>
          let a1 = a\<lparr>a_works := ws\<rparr> in
          (case find_index (\<lambda>s. dev = sd_dev_id s) (a_subdevice_list a1) of
             None \<Rightarrow> Some a1
           | Some k \<Rightarrow>
               if pa_scope p = AAUDIO_PROP_SCOPE_OUTPUT \<and> pa_selector p = AAUDIO_PROP_JACK_PLUGGED then do {
                 (s, a2) \<leftarrow> aaudio_handle_jack_connection_change env (a_subdevice_list a1 ! k) a1;
                 Some (upd_sdev k (\<lambda>_. s) a2)
               } else Some a1))"

definition aaudio_handle_notification :: "wakeup list \<Rightarrow> bool \<Rightarrow> aaudio_msg \<Rightarrow> aaudio_device \<Rightarrow> aaudio_device option" where
  "aaudio_handle_notification ws kmalloc msg a =
     (case aaudio_msg_read_base msg of
        Fault \<Rightarrow> None
      | Err e \<Rightarrow> Some a
      | Ok base \<Rightarrow>
          if ab_msg base = AAUDIO_MSG_NOTIFICATION_BOOT then
            map_option (\<lambda>(st, b). a\<lparr>a_bcem := b\<rparr>)
              (aaudio_send ws None 500 (aaudio_msg_write_alive_notification 1 3) (a_bcem a))
          else if ab_msg base = AAUDIO_MSG_NOTIFICATION_ALIVE then Some (a\<lparr>a_remote_alive := True\<rparr>)
          else if ab_msg base = AAUDIO_MSG_PROPERTY_CHANGED then aaudio_handle_prop_change kmalloc msg a
          else Some a)"

definition aaudio_send_cmd_response :: "aaudio_msg \<Rightarrow> (aaudio_msg \<Rightarrow> aaudio_msg option) \<Rightarrow> aaudio_device
    \<Rightarrow> aaudio_device option" where
  "aaudio_send_cmd_response msg w a =
     (if length (am_data msg) < 4 then None
      else map_option (\<lambda>(st, b). a\<lparr>a_bcem := b\<rparr>) (aaudio_send [] (Some (take 4 (am_data msg))) 0 w (a_bcem a)))"

text \<open>
  \<open>now\<close> is the time at which the message arrived. The handler does not look at the status of the reader:
  after an error its three results are not initialised, and to use them is a fault.
\<close>

definition aaudio_handle_cmd_timestamp :: "int \<Rightarrow> aaudio_msg \<Rightarrow> aaudio_device \<Rightarrow> aaudio_device option" where
  "aaudio_handle_cmd_timestamp now msg a =
     (case aaudio_msg_read_update_timestamp msg of
        Ok (devid, timestamp, update_seed) \<Rightarrow>
          let a1 = (case find_index (\<lambda>s. devid = sd_dev_id s) (a_subdevice_list a) of
                None \<Rightarrow> a | Some k \<Rightarrow> upd_sdev k (\<lambda>s. s\<lparr>sd_ts_time_os := now, sd_ts_work := True\<rparr>) a)
          in aaudio_send_cmd_response msg aaudio_msg_write_update_timestamp_response a1
      | _ \<Rightarrow> None)"

definition aaudio_handle_command :: "int \<Rightarrow> aaudio_msg \<Rightarrow> aaudio_device \<Rightarrow> aaudio_device option" where
  "aaudio_handle_command now msg a =
     (case aaudio_msg_read_base msg of
        Fault \<Rightarrow> None
      | Err e \<Rightarrow> Some a
      | Ok base \<Rightarrow> if ab_msg base = AAUDIO_MSG_UPDATE_TIMESTAMP then aaudio_handle_cmd_timestamp now msg a else Some a)"

text \<open>The work of the subdevice at the place \<open>k\<close>: the directions in which a period was reported.\<close>

definition aaudio_ts_work :: "nat \<Rightarrow> aaudio_device \<Rightarrow> (bool list \<times> aaudio_device) option" where
  "aaudio_ts_work k a =
     (let sdev = (a_subdevice_list a ! k)\<lparr>sd_ts_work := False\<rparr> in
      map_option (\<lambda>(el, s). (el, upd_sdev k (\<lambda>_. s) a)) (aaudio_handle_timestamp (sd_ts_time_os sdev) sdev))"

text \<open>A message of the incoming queue on the whole device: \<open>aaudio_bce_in_queue_handle_msg\<close> with its handlers.\<close>

definition device_handle_msg :: "kstrtoint \<Rightarrow> wakeup list \<Rightarrow> bool \<Rightarrow> int \<Rightarrow> aaudio_msg \<Rightarrow> aaudio_device option
    \<Rightarrow> aaudio_device option" where
  "device_handle_msg kstr ws kmalloc now =
     aaudio_bce_in_queue_handle_msg
       (\<lambda>msg w. Option.bind w (\<lambda>a. map_option (\<lambda>b. a\<lparr>a_bcem := b\<rparr>) (aaudio_handle_reply kstr msg (a_bcem a))))
       (\<lambda>msg w. Option.bind w (aaudio_handle_command now msg))
       (\<lambda>msg w. Option.bind w (aaudio_handle_notification ws kmalloc msg))"

section \<open>Suspend, resume, shutdown\<close>

definition stop_streams :: "nat \<Rightarrow> aaudio_stream list \<Rightarrow> bool \<times> aaudio_stream list" where
  "stop_streams n ss = (list_ex st_started (take n ss), map (st_started_update (\<lambda>_. False)) (take n ss) @ drop n ss)"

text \<open>
  \<open>snd_pcm_suspend_all\<close> calls the trigger of every open substream with the command SUSPEND, which cancels the
  timer of its stream.
\<close>

definition suspend_all :: "aaudio_subdevice \<Rightarrow> aaudio_subdevice" where
  "suspend_all sdev =
     (let t = map (st_period_timer_update (\<lambda>_. False)) in
      sdev\<lparr>sd_out_streams := t (sd_out_streams sdev), sd_in_streams := t (sd_in_streams sdev)\<rparr>)"

definition quiesce_sdev :: "aaudio_env \<Rightarrow> bool \<Rightarrow> nat \<Rightarrow> aaudio_device \<Rightarrow> aaudio_device option" where
  "quiesce_sdev env suspend_pcm k a = do {
     let sdev = a_subdevice_list a ! k;
     let (so, outs) = stop_streams (sd_out_stream_cnt sdev) (sd_out_streams sdev);
     let (si, ins) = stop_streams (sd_in_stream_cnt sdev) (sd_in_streams sdev);
     let a1 = upd_sdev k (\<lambda>s. s\<lparr>sd_out_streams := outs, sd_in_streams := ins\<rparr>) a;
     a2 \<leftarrow> (if so \<or> si then do {
         (r, a2) \<leftarrow> a_cmd env (\<lambda>e mem. aaudio_cmd_stop_io e mem (sd_dev_id sdev)) a1;
         Some a2
       } else Some a1);
     Some (if suspend_pcm \<and> sd_pcm sdev \<noteq> None then upd_sdev k suspend_all a2 else a2)
   }"

fun quiesce_loop :: "aaudio_env \<Rightarrow> bool \<Rightarrow> nat list \<Rightarrow> aaudio_device \<Rightarrow> aaudio_device option" where
  "quiesce_loop env p [] a = Some a"
| "quiesce_loop env p (k # ks) a = do { a' \<leftarrow> quiesce_sdev env p k a; quiesce_loop env p ks a' }"

definition aaudio_quiesce :: "aaudio_env \<Rightarrow> bool \<Rightarrow> aaudio_device \<Rightarrow> aaudio_device option" where
  "aaudio_quiesce env suspend_pcm a = do {
     a1 \<leftarrow> quiesce_loop env suspend_pcm [0..<length (a_subdevice_list a)] a;
     (r, a2) \<leftarrow> a_cmd env (\<lambda>e mem. aaudio_cmd_set_remote_access e mem AAUDIO_REMOTE_ACCESS_OFF) a1;
     Some a2
   }"

text \<open>The second component: whether the PCI function is enabled.\<close>

definition aaudio_suspend :: "aaudio_env \<Rightarrow> aaudio_device \<Rightarrow> (int \<times> bool \<times> aaudio_device) option" where
  "aaudio_suspend env a = map_option (\<lambda>a. (0, False, a)) (aaudio_quiesce env True a)"

definition aaudio_shutdown :: "aaudio_env \<Rightarrow> aaudio_device option \<Rightarrow> aaudio_device option option" where
  "aaudio_shutdown env drvdata =
     (case drvdata of None \<Rightarrow> Some None | Some a \<Rightarrow> map_option Some (aaudio_quiesce env False a))"

text \<open>\<open>en\<close> is the status of enabling the function.\<close>

definition aaudio_resume :: "aaudio_env \<Rightarrow> int \<Rightarrow> aaudio_device \<Rightarrow> (int \<times> aaudio_device) option" where
  "aaudio_resume env en a =
     (if en \<noteq> 0 then Some (en, a)
      else do {
        (r, a1) \<leftarrow> a_cmd env (\<lambda>e mem. aaudio_cmd_set_remote_access e mem AAUDIO_REMOTE_ACCESS_ON) a;
        Some (case_sum id (\<lambda>_. 0) r, a1)
      })"

end
