(* ===== verification/Audio_Setup.thy ===== *)
theory Audio_Setup
  imports Audio_Device
begin

unbundle bit_operations_syntax

text \<open>
  What the device sends cannot make the driver leave its buffers: the dispatcher of the incoming
  queue, and the discovery of devices. The predicate \<open>safe\<close> on computations composes along the bind.
\<close>

section \<open>Whatever the device sends\<close>

text \<open>The outgoing queue has its twenty buffers.\<close>

definition qout_ok :: "aaudio_bce_queue \<Rightarrow> bool" where
  "qout_ok q \<longleftrightarrow> length (aq_data q) = 20 \<and> aq_data_tail q < 20 \<and> (\<forall>d \<in> set (aq_data q). length d = 0x1000)"

text \<open>A writer that fits into a buffer.\<close>

definition fits :: "(aaudio_msg \<Rightarrow> aaudio_msg option) \<Rightarrow> bool" where
  "fits w \<longleftrightarrow> (\<forall>m. length (am_data m) = 0x1000 \<longrightarrow> (\<exists>m'. w m = Some m' \<and> length (am_data m') = 0x1000))"

lemma fits_write_msg:
  assumes "21 + length (concat fs) \<le> 0x1000"
  shows "fits (write_msg typ dev (u32_bytes m # u32_bytes st # fs))"
  unfolding fits_def
proof (intro allI impI)
  fix x :: aaudio_msg assume x: "length (am_data x) = 0x1000"
  then have "writes x (write_msg typ dev (u32_bytes m # u32_bytes st # fs) x) (wire (take 4 (am_data x)) typ dev m st (concat fs))"
    using assms by (intro write_msg_writes) simp_all
  then show "\<exists>m'. write_msg typ dev (u32_bytes m # u32_bytes st # fs) x = Some m' \<and> length (am_data m') = 0x1000"
    using x by (auto simp: writes_def split: option.splits)
qed

lemma fits_writers:
  "fits (aaudio_msg_write_alive_notification v1 v2)" "fits aaudio_msg_write_update_timestamp_response"
  "fits (aaudio_msg_write_stop_io dev)" "fits (aaudio_msg_write_start_io dev)" "fits (aaudio_msg_write_get_property dev obj p [])"
  "fits (aaudio_msg_write_property_listener dev obj p)" "fits (aaudio_msg_write_set_input_stream_address_ranges dev)"
  "fits (aaudio_msg_write_get_input_stream_list dev)" "fits (aaudio_msg_write_get_output_stream_list dev)"
  "fits (aaudio_msg_write_get_control_list dev)" "fits (aaudio_msg_write_set_remote_access mode)"
  "fits aaudio_msg_write_get_device_list"
  unfolding aaudio_msg_write_defs append_Cons append_Nil by (rule fits_write_msg; simp)+

lemma qout_ok_prepared:
  assumes "qout_ok (ba_qout b)" and "tag = None \<or> (\<exists>t. tag = Some t \<and> length t = 4)"
    and "aaudio_send_prepare ws tag timeout b = (st, ctx, b')"
  shows "qout_ok (ba_qout b')" "ba_pending b' = ba_pending b" "ba_entries b' = ba_entries b"
    "st = 0 \<Longrightarrow> sc_index ctx < 20"
proof -
  obtain st0 t sq where r: "bce_reserve_submission (Some timeout) ws (aq_sq (ba_qout b)) = (st0, t, sq)"
    by (metis prod.exhaust)
  have q: "qout_ok ((ba_qout b)\<lparr>aq_sq := sq\<rparr>)" using assms(1) by (simp add: qout_ok_def)
  have d: "qout_ok (x\<lparr>aq_data := (aq_data x)[i := tg @ drop 4 (aq_data x ! i)]\<rparr>)"
    if "qout_ok x" "i < 20" "length tg = 4" for x i tg
    using that by (auto simp: qout_ok_def dest!: set_update_subset_insert [THEN subsetD])
  have tb: "length (tag_bytes k) = 4" for k by (simp add: tag_bytes_def)
  have tail: "aq_data_tail (ba_qout b) < 20" using assms(1) by (simp add: qout_ok_def)
  show "qout_ok (ba_qout b')" "ba_pending b' = ba_pending b" "ba_entries b' = ba_entries b"
    "st = 0 \<Longrightarrow> sc_index ctx < 20"
    using assms(2,3) r q d [OF q tail tb] d [OF q tail] tail
    by (auto simp: aaudio_send_prepare_def Let_def set_qout_data_def aaudio_send_create_tag_def split: if_splits option.splits)
qed

lemma qout_ok_written:
  assumes "qout_ok (ba_qout b)" and "fits w" and "sc_index ctx < 20"
  shows "\<exists>ctx' b'. write_prepared w ctx b = Some (ctx', b') \<and> qout_ok (ba_qout b') \<and> ba_pending b' = ba_pending b
    \<and> ba_entries b' = ba_entries b \<and> sc_tag_n ctx' = sc_tag_n ctx"
proof -
  have "length (aq_data (ba_qout b) ! sc_index ctx) = 0x1000"
    using assms(1,3) by (auto simp: qout_ok_def)
  then obtain m where m: "w \<lparr>am_data = aq_data (ba_qout b) ! sc_index ctx, am_size = sc_size ctx\<rparr> = Some m"
    "length (am_data m) = 0x1000" using assms(2) unfolding fits_def by (metis aaudio_msg.select_convs(1))
  have "qout_ok ((ba_qout b)\<lparr>aq_data := (aq_data (ba_qout b))[sc_index ctx := am_data m]\<rparr>)"
    using assms(1) m(2) by (auto simp: qout_ok_def dest!: set_update_subset_insert [THEN subsetD])
  then show ?thesis by (simp add: write_prepared_def m(1) set_qout_data_def)
qed

lemma send_msg_frame:
  "qout_ok (ba_qout b) \<Longrightarrow> qout_ok (ba_qout (snd (aaudio_send_msg ctx b)))"
  "ba_pending (snd (aaudio_send_msg ctx b)) = ba_pending b" "ba_entries (snd (aaudio_send_msg ctx b)) = ba_entries b"
  by (auto simp: aaudio_send_msg_def Let_def split_beta qout_ok_def)

lemma send_ok:
  assumes q: "qout_ok (ba_qout b)" and w: "fits w" and t: "tag = None \<or> (\<exists>t. tag = Some t \<and> length t = 4)"
  shows "\<exists>st b'. aaudio_send ws tag timeout w b = Some (st, b') \<and> qout_ok (ba_qout b') \<and> ba_pending b' = ba_pending b
    \<and> ba_entries b' = ba_entries b"
proof -
  obtain st ctx b1 where p: "aaudio_send_prepare ws tag timeout b = (st, ctx, b1)" by (metis prod.exhaust)
  note f = qout_ok_prepared [OF q t p]
  show ?thesis
  proof (cases "st = 0")
    case False
    then show ?thesis using p f by (simp add: aaudio_send_def)
  next
    case True
    obtain ctx' b2 where "write_prepared w ctx b1 = Some (ctx', b2)" "qout_ok (ba_qout b2)" "ba_pending b2 = ba_pending b1"
      "ba_entries b2 = ba_entries b1"
      using qout_ok_written [OF f(1) w f(4) [OF True]] by blast
    then show ?thesis using True p f send_msg_frame [where b = b2 and ctx = ctx'] by (simp add: aaudio_send_def)
  qed
qed

text \<open>A device in operation: its transport with the callers that wait, and its list of subdevices.\<close>

definition transport_ok :: "(addr \<Rightarrow> nat option) \<Rightarrow> aaudio_bce \<Rightarrow> bool" where
  "transport_ok c b \<longleftrightarrow> qout_ok (ba_qout b) \<and> pending_inv \<lparr>au_bce = b, au_callers = c\<rparr>"

lemma transport_ok_frame:
  assumes "transport_ok c b" and "qout_ok (ba_qout b')" "ba_pending b' = ba_pending b" "ba_entries b' = ba_entries b"
  shows "transport_ok c b'"
  using assms by (auto simp: transport_ok_def pending_inv_def entry_done_def)

lemma handle_reply_ok:
  assumes ok: "transport_ok c b" and m: "length (am_data m) = 0x1000"
  shows "\<exists>b'. aaudio_handle_reply kstr m b = Some b' \<and> transport_ok c b'"
proof -
  let ?s = "\<lparr>au_bce = b, au_callers = c\<rparr>"
  have inv: "pending_inv ?s" using ok by (simp add: transport_ok_def)
  from handle_reply_cases [OF inv m, of kstr] show ?thesis
  proof
    assume "aaudio_handle_reply kstr m (au_bce ?s) = Some (au_bce ?s)"
    then show ?thesis using ok by simp
  next
    assume "\<exists>n a e'. n < 100 \<and> ba_pending (au_bce ?s) ! n = Some a \<and> buffer_ok (en_msg e')
        \<and> aaudio_handle_reply kstr m (au_bce ?s) = Some ((au_bce ?s)
            \<lparr>ba_entries := (ba_entries (au_bce ?s))(a \<mapsto> e'), ba_pending := (ba_pending (au_bce ?s))[n := None]\<rparr>)"
    then obtain n a e' where n: "n < 100" "ba_pending b ! n = Some a" "buffer_ok (en_msg e')"
      "aaudio_handle_reply kstr m b = Some (b\<lparr>ba_entries := (ba_entries b)(a \<mapsto> e'), ba_pending := (ba_pending b)[n := None]\<rparr>)"
      by auto
    with pending_inv_clear [OF inv n(1) _ n(3), of a] ok show ?thesis by (simp add: transport_ok_def)
  qed
qed

text \<open>What a message leaves of a subdevice: everything but the time of the last timestamp.\<close>

definition same_sdev :: "aaudio_subdevice \<Rightarrow> aaudio_subdevice \<Rightarrow> bool" where
  "same_sdev s s' \<longleftrightarrow> s' = s\<lparr>sd_ts_time_os := sd_ts_time_os s', sd_ts_work := sd_ts_work s'\<rparr>"

lemma update_timestamp_reads:
  assumes "length (am_data msg) = 0x1000" and "aaudio_msg_read_base msg = Ok base" and "ab_msg base = AAUDIO_MSG_UPDATE_TIMESTAMP"
  shows "\<exists>d t u. aaudio_msg_read_update_timestamp msg = Ok (d, t, u)"
proof -
  have sz: "\<not> am_size msg < 29" and b: "read_base_at msg = Ok base"
    using assms(2) by (auto simp: aaudio_msg_read_base_def split: if_splits)
  then have "\<not> am_size msg < 21" by (simp add: word_less_nat_alt)
  then have "aaudio_msg_verify msg AAUDIO_MSG_UPDATE_TIMESTAMP False = Ok ()"
    using assms(3) b by (simp add: aaudio_msg_verify_def)
  moreover have "\<exists>d. read_devid msg = Ok d" "\<exists>t. read_val 21 msg = (Ok t :: 64 word rd)" "\<exists>u. read_val 29 msg = (Ok u :: 64 word rd)"
    using assms(1) by (simp_all add: read_devid_def read_val_def Let_def)
  ultimately show ?thesis by (auto simp: aaudio_msg_read_update_timestamp_def READ_START_def)
qed

lemma list_all2_upd:
  assumes "\<And>x. R x x" and "\<And>x. R x (f x)"
  shows "list_all2 R xs (xs[i := f (xs ! i)])"
  using assms by (cases "i < length xs") (auto simp: list_all2_conv_all_nth nth_list_update)

text \<open>
  Property C35. No message of the device makes the driver read or write outside a buffer, use a value it has not
  read or write into the frame of a caller that has returned: whatever the bytes of a full buffer are
  and whatever size the device announces, the dispatcher of the incoming queue returns, and the
  transport stays consistent. It changes no more of a subdevice than the time of its last
  timestamp, and queues at most one property change.
\<close>

theorem device_messages_safe:
  assumes ok: "transport_ok c (a_bcem a)" and m: "length (am_data msg) = 0x1000"
  shows "\<exists>a'. device_handle_msg kstr ws kmalloc now msg (Some a) = Some a' \<and> transport_ok c (a_bcem a')
    \<and> list_all2 same_sdev (a_subdevice_list a) (a_subdevice_list a')
    \<and> (a_works a' = a_works a \<or> (\<exists>w. a_works a' = a_works a @ [w]))"
proof -
  have refl: "list_all2 same_sdev ss ss" for ss by (rule list.rel_refl) (simp add: same_sdev_def)
  have q: "qout_ok (ba_qout (a_bcem x))" if "transport_ok c (a_bcem x)" for x using that by (simp add: transport_ok_def)
  have r: "49 \<le> length (am_data msg)" using m by simp
  note rd = readers_inside [OF r]
  obtain b1 where reply: "aaudio_handle_reply kstr msg (a_bcem a) = Some b1" "transport_ok c b1"
    using handle_reply_ok [OF ok m] by blast
  obtain st2 b2 where alive: "aaudio_send ws None 500 (aaudio_msg_write_alive_notification 1 3) (a_bcem a) = Some (st2, b2)"
    "transport_ok c b2"
    using send_ok [OF q [OF ok] fits_writers(1), of None ws 500] transport_ok_frame [OF ok] by fastforce
  obtain st3 b3 where resp: "aaudio_send [] (Some (take 4 (am_data msg))) 0 aaudio_msg_write_update_timestamp_response (a_bcem a) = Some (st3, b3)"
    "transport_ok c b3"
    using send_ok [OF q [OF ok] fits_writers(2), of "Some (take 4 (am_data msg))" "[]" 0] transport_ok_frame [OF ok] m by fastforce
  have upd: "list_all2 same_sdev ss (ss[k := (ss ! k)\<lparr>sd_ts_time_os := now, sd_ts_work := True\<rparr>])" for ss k
    by (rule list_all2_upd) (simp_all add: same_sdev_def)
  have command: "\<exists>a'. aaudio_handle_command now msg a = Some a' \<and> transport_ok c (a_bcem a')
      \<and> list_all2 same_sdev (a_subdevice_list a) (a_subdevice_list a') \<and> a_works a' = a_works a"
  proof (cases "\<exists>base. aaudio_msg_read_base msg = Ok base \<and> ab_msg base = AAUDIO_MSG_UPDATE_TIMESTAMP")
    case True
    then obtain base d t u where b: "aaudio_msg_read_base msg = Ok base" "ab_msg base = AAUDIO_MSG_UPDATE_TIMESTAMP"
      and dtu: "aaudio_msg_read_update_timestamp msg = Ok (d, t, u)" using update_timestamp_reads [OF m] by blast
    show ?thesis
      using b dtu resp m refl upd
      by (auto simp: aaudio_handle_command_def aaudio_handle_cmd_timestamp_def aaudio_send_cmd_response_def upd_sdev_def
          split: option.splits)
  next
    case False
    then show ?thesis
      using rd refl ok by (cases "aaudio_msg_read_base msg") (auto simp: aaudio_handle_command_def)
  qed
  have notification: "\<exists>a'. aaudio_handle_notification ws kmalloc msg a = Some a' \<and> transport_ok c (a_bcem a')
      \<and> a_subdevice_list a' = a_subdevice_list a \<and> (a_works a' = a_works a \<or> (\<exists>w. a_works a' = a_works a @ [w]))"
    using rd ok alive
    by (cases "aaudio_msg_read_base msg"; cases "aaudio_msg_read_property_changed msg")
      (auto simp: aaudio_handle_notification_def aaudio_handle_prop_change_def)
  show ?thesis
    using reply command notification refl ok
    by (fastforce simp: device_handle_msg_def aaudio_bce_in_queue_handle_msg_def Let_def)
qed

section \<open>Safe computations\<close>

text \<open>A computation that does not fault, with what holds of its result.\<close>

definition safe :: "('a \<Rightarrow> bool) \<Rightarrow> 'a option \<Rightarrow> bool" where
  "safe P m \<longleftrightarrow> (\<exists>x. m = Some x \<and> P x)"

lemma safe_Some [simp]: "safe P (Some x) \<longleftrightarrow> P x"
  by (simp add: safe_def)

lemma safe_bind: "safe P m \<Longrightarrow> (\<And>x. P x \<Longrightarrow> safe Q (f x)) \<Longrightarrow> safe Q (Option.bind m f)"
  by (auto simp: safe_def)

lemma safe_mono: "safe P m \<Longrightarrow> (\<And>x. P x \<Longrightarrow> Q x) \<Longrightarrow> safe Q m"
  by (auto simp: safe_def)

lemma safe_if: "(b \<Longrightarrow> safe P x) \<Longrightarrow> (\<not> b \<Longrightarrow> safe P y) \<Longrightarrow> safe P (if b then x else y)"
  by simp

section \<open>Commands that stay inside their buffers\<close>

definition reply_buf :: "aaudio_msg \<Rightarrow> bool" where
  "reply_buf m \<longleftrightarrow> length (am_data m) = 0x1000 \<and> unat (am_size m) \<le> 0x1000"

definition bce_ok :: "aaudio_bce \<Rightarrow> bool" where
  "bce_ok b \<longleftrightarrow> qout_ok (ba_qout b) \<and> (\<forall>a e. ba_entries b a = Some e \<longrightarrow> reply_buf (en_msg e))"

text \<open>
  The surroundings of a command: what happens while it waits keeps the buffers as large as they are.
  The handler of replies does so.
\<close>

definition cmd_env_ok :: "acmd_env \<Rightarrow> bool" where
  "cmd_env_ok e \<longleftrightarrow> (\<forall>b. bce_ok b \<longrightarrow> bce_ok (ae_wait e b) \<and> bce_ok (ae_relock e b))"

definition mem_ok :: "u8 list option \<Rightarrow> bool" where
  "mem_ok m \<longleftrightarrow> (\<forall>d. m = Some d \<longrightarrow> length d = 0x1000)"

lemma handle_reply_bce_ok:
  assumes "bce_ok b" and "length (am_data m) = 0x1000" and "aaudio_handle_reply kstr m b = Some b'"
  shows "bce_ok b'"
proof -
  have d: "reply_buf (en_msg e')" if e: "reply_buf (en_msg e)" and d: "deliver_reply m e = Some e'" for e e'
  proof -
    let ?n = "if am_size m < am_size (en_msg e) then am_size m else am_size (en_msg e)"
    have "unat ?n \<le> unat (am_size (en_msg e))" by (simp add: word_less_nat_alt)
    then show ?thesis using e d assms(2) by (auto simp: deliver_reply_def Let_def reply_buf_def split: if_splits)
  qed
  show ?thesis
    using assms by (auto simp: aaudio_handle_reply_def bce_ok_def split: if_splits option.splits) (blast intro: d)
qed

lemma cmd_sync_safe:
  assumes b: "bce_ok b" and e: "cmd_env_ok e" and w: "fits w" and r: "reply_buf reply"
  shows "safe (\<lambda>(st, reply', b'). bce_ok b' \<and> reply_buf reply') (aaudio_send_cmd_sync e t w reply b)"
proof -
  have q: "qout_ok (ba_qout b)" using b by (simp add: bce_ok_def)
  obtain st ctx b1 where p: "aaudio_send_prepare (ae_reserve e) None t b = (st, ctx, b1)" by (metis prod.exhaust)
  note f = qout_ok_prepared [OF q _ p, simplified]
  have b1: "bce_ok b1" using b f(1-3) by (simp add: bce_ok_def)
  show ?thesis
  proof (cases "st = 0")
    case False
    then show ?thesis using p b1 r by (simp add: aaudio_send_cmd_sync_def)
  next
    case True
    obtain ctx' b2 where w2: "write_prepared w ctx b1 = Some (ctx', b2)" "qout_ok (ba_qout b2)" "ba_entries b2 = ba_entries b1"
      using qout_ok_written [OF f(1) w f(4) [OF True]] by blast
    define b3 where "b3 = send_cmd_begin (ae_entry e) reply ctx' b2"
    have b3: "bce_ok b3"
      using w2 b1 r send_msg_frame [where ctx = ctx']
      by (auto simp: b3_def bce_ok_def send_cmd_begin_def send_msg_frame)
    have wait: "bce_ok (ae_wait e b3)" using e b3 by (simp add: cmd_env_ok_def)
    then have re: "bce_ok (ae_relock e (ae_wait e b3))" using e by (simp add: cmd_env_ok_def)
    have msg: "reply_buf (entry_msg a reply x)" if "bce_ok x" for a x
      using that r by (auto simp: entry_msg_def bce_ok_def split: option.splits)
    have pop: "bce_ok (pop_entry a x)" if "bce_ok x" for a x
      using that by (auto simp: pop_entry_def bce_ok_def)
    have to: "bce_ok (send_cmd_timeout a n x)" if "bce_ok x" for a n x
      using that by (auto simp: send_cmd_timeout_def bce_ok_def)
    show ?thesis
      using True p w2 wait re
      by (simp add: aaudio_send_cmd_sync_def aaudio_send_cmd_wait_def Let_def pop to msg flip: b3_def)
  qed
qed

text \<open>A reader that stays inside every full buffer.\<close>

definition inside :: "(aaudio_msg \<Rightarrow> 'a rd) \<Rightarrow> bool" where
  "inside rdr \<longleftrightarrow> (\<forall>m. reply_buf m \<longrightarrow> rdr m \<noteq> Fault)"

lemma cmd_safe:
  assumes b: "bce_ok b" and e: "cmd_env_ok e" and w: "fits w" and r: "reply_buf reply" and rd: "inside rdr"
    and run: "CMD_SEND_REQUEST e w rdr reply b = (res, reply', b')"
  shows "res \<noteq> Fault" "bce_ok b'" "reply_buf reply'" "res = Ok x \<Longrightarrow> rdr reply' = Ok x"
  using cmd_sync_safe [OF b e w r, of 500] run rd
  by (auto simp: safe_def CMD_SEND_REQUEST_def inside_def split: if_splits)

lemma cmd_free_safe:
  assumes b: "bce_ok b" and e: "cmd_env_ok e" and w: "fits w" and m: "mem_ok mem" and rd: "inside rdr"
    and run: "CMD_DEF_SHARED_AND_SEND e mem w rdr b = (res, b')"
  shows "res \<noteq> Fault" "bce_ok b'"
proof -
  have "res \<noteq> Fault \<and> bce_ok b'"
  proof (cases mem)
    case None
    then show ?thesis using run b by (auto simp: CMD_DEF_SHARED_AND_SEND_def aaudio_reply_alloc_def)
  next
    case (Some d)
    have r: "reply_buf \<lparr>am_data = d, am_size = 0x1000\<rparr>" using m Some by (simp add: mem_ok_def reply_buf_def)
    obtain x rp b1 where x: "CMD_SEND_REQUEST e w rdr \<lparr>am_data = d, am_size = 0x1000\<rparr> b = (x, rp, b1)" by (metis prod.exhaust)
    show ?thesis using cmd_safe(1,2) [OF b e w r rd x] run Some x by (simp add: CMD_DEF_SHARED_AND_SEND_def aaudio_reply_alloc_def)
  qed
  then show "res \<noteq> Fault" "bce_ok b'" by blast+
qed

text \<open>The frame of a command on the device: only the transport and the count of messages change.\<close>

definition cmd_frame :: "aaudio_device \<Rightarrow> aaudio_device \<Rightarrow> bool" where
  "cmd_frame a a' \<longleftrightarrow> bce_ok (a_bcem a') \<and> a_subdevice_list a' = a_subdevice_list a \<and> a_bs a' = a_bs a
     \<and> a_reg_mem_bs a' = a_reg_mem_bs a \<and> a_reg_mem_bs_dma a' = a_reg_mem_bs_dma a"

definition script_ok :: "aaudio_env \<Rightarrow> bool" where
  "script_ok env \<longleftrightarrow> (\<forall>k. cmd_env_ok (ax_cmd env k) \<and> mem_ok (ax_mem env k)) \<and> mem_ok (ax_list_mem env)
     \<and> (\<forall>d. mem_ok (ax_dev_mem env d) \<and> mem_ok (ax_ctl_mem env d))"

lemma cmd_frame_refl: "bce_ok (a_bcem a) \<Longrightarrow> cmd_frame a a"
  by (simp add: cmd_frame_def)

lemma cmd_frame_trans: "cmd_frame a b \<Longrightarrow> cmd_frame b c \<Longrightarrow> cmd_frame a c"
  by (simp add: cmd_frame_def)

lemma cmd_frame_bce: "cmd_frame a b \<Longrightarrow> bce_ok (a_bcem b)"
  by (simp add: cmd_frame_def)

lemma a_cmd_safe:
  assumes s: "script_ok env" and b: "bce_ok (a_bcem a)"
    and f: "\<And>e mem b r b'. bce_ok b \<Longrightarrow> cmd_env_ok e \<Longrightarrow> mem_ok mem \<Longrightarrow> f e mem b = (r, b') \<Longrightarrow> r \<noteq> Fault \<and> bce_ok b' \<and> (\<forall>x. r = Ok x \<longrightarrow> P x)"
  shows "safe (\<lambda>(r, a'). cmd_frame a a' \<and> (\<forall>x. r = Inr x \<longrightarrow> P x)) (a_cmd env f a)"
proof -
  obtain r b' where r: "f (ax_cmd env (a_calls a)) (ax_mem env (a_calls a)) (a_bcem a) = (r, b')" by (metis prod.exhaust)
  have "r \<noteq> Fault \<and> bce_ok b' \<and> (\<forall>x. r = Ok x \<longrightarrow> P x)" using s by (intro f [OF b _ _ r]) (simp_all add: script_ok_def)
  then show ?thesis by (cases r) (simp_all add: a_cmd_def r cmd_frame_def)
qed

lemma a_cmd_buf_safe:
  assumes s: "script_ok env" and b: "bce_ok (a_bcem a)" and r: "reply_buf buf" and w: "fits w" and rd: "inside rdr"
    and f: "\<And>e. f e = CMD_SEND_REQUEST e w rdr"
  shows "safe (\<lambda>(r, buf', a'). cmd_frame a a' \<and> reply_buf buf' \<and> (\<forall>x. r = Inr x \<longrightarrow> rdr buf' = Ok x)) (a_cmd_buf env f buf a)"
proof -
  let ?e = "ax_cmd env (a_calls a)"
  obtain x buf' b' where x: "CMD_SEND_REQUEST ?e w rdr buf (a_bcem a) = (x, buf', b')" by (metis prod.exhaust)
  have e: "cmd_env_ok ?e" using s by (simp add: script_ok_def)
  note c = cmd_safe [OF b e w r rd x]
  show ?thesis using c by (cases x) (auto simp: a_cmd_buf_def f x cmd_frame_def)
qed

lemma inside_readers:
  "inside aaudio_msg_read_get_property_response" "inside aaudio_msg_read_property_listener_response"
  "inside aaudio_msg_read_get_input_stream_list_response" "inside aaudio_msg_read_get_output_stream_list_response"
  "inside aaudio_msg_read_get_device_list_response" "inside aaudio_msg_read_get_control_list_response"
  using readers_inside by (auto simp: inside_def reply_buf_def)

lemma inside_unit_readers:
  "inside aaudio_msg_read_start_io_response" "inside aaudio_msg_read_stop_io_response"
  "inside aaudio_msg_read_set_input_stream_address_ranges_response" "inside aaudio_msg_read_set_remote_access_response"
  by (auto simp: inside_def reply_buf_def READ_START_def aaudio_msg_verify_def read_base_at_def read_val_def Let_def
      aaudio_msg_read_start_io_response_def aaudio_msg_read_stop_io_response_def
      aaudio_msg_read_set_input_stream_address_ranges_response_def aaudio_msg_read_set_remote_access_response_def)

lemma property_offset:
  "aaudio_msg_read_get_property_response m = Ok (obj, p, off, n) \<Longrightarrow> off = 49"
  by (cases "aaudio_msg_verify m AAUDIO_MSG_GET_PROPERTY_RESPONSE True"; cases "read_obj_prop read_start m";
      cases "read_val (read_start + 20) m :: 64 word rd")
    (auto simp: aaudio_msg_read_get_property_response_def READ_START_STATUS_def)

lemma inside_property:
  "inside (\<lambda>m. rbind (aaudio_msg_read_get_property_response m) (\<lambda>(obj', paddr', off, size). Ok (off, size)))"
  unfolding inside_def
proof (intro allI impI)
  fix m assume "reply_buf m"
  then have "aaudio_msg_read_get_property_response m \<noteq> Fault" using inside_readers(1) by (simp add: inside_def)
  then show "rbind (aaudio_msg_read_get_property_response m) (\<lambda>(obj', paddr', off, size). Ok (off, size)) \<noteq> Fault"
    by (cases "aaudio_msg_read_get_property_response m") auto
qed

lemma get_prim_safe:
  assumes s: "script_ok env" and b: "bce_ok (a_bcem a)" and n: "unat n \<le> 0xf00"
  shows "safe (\<lambda>(r, a'). cmd_frame a a' \<and> (\<forall>x. r = Inr x \<longrightarrow> length x = unat n)) (get_prim env devid obj p n a)"
  unfolding get_prim_def
proof (rule a_cmd_safe [OF s b])
  fix e mem b r b' assume bo: "bce_ok b" and e: "cmd_env_ok e" and m: "mem_ok mem"
    and run: "aaudio_cmd_get_primitive_property e mem devid obj p [] n b = (r, b')"
  show "r \<noteq> Fault \<and> bce_ok b' \<and> (\<forall>x. r = Ok x \<longrightarrow> length x = unat n)"
  proof (cases mem)
    case None
    then show ?thesis using run bo by (auto simp: aaudio_cmd_get_primitive_property_def aaudio_reply_alloc_def)
  next
    case (Some d)
    let ?rdr = "\<lambda>m. rbind (aaudio_msg_read_get_property_response m) (\<lambda>(obj', paddr', off, size). Ok (off, size))"
    have rb: "reply_buf \<lparr>am_data = d, am_size = 0x1000\<rparr>" using m Some by (simp add: mem_ok_def reply_buf_def)
    obtain x buf b1 where x: "CMD_SEND_REQUEST e (aaudio_msg_write_get_property devid obj p []) ?rdr
        \<lparr>am_data = d, am_size = 0x1000\<rparr> b = (x, buf, b1)" by (metis prod.exhaust)
    note c = cmd_safe [OF bo e fits_writers(5) rb inside_property x]
    have off: "off = 49" if "x = Ok (off, sz)" for off sz
      using c(4) [OF that] property_offset
      by (cases "aaudio_msg_read_get_property_response buf") auto
    show ?thesis
      using run Some x c(1-3) n off
      by (cases x) (auto simp: aaudio_cmd_get_primitive_property_def aaudio_reply_alloc_def aaudio_cmd_get_property_def
        copy_out_def reply_buf_def split: if_splits)
  qed
qed

section \<open>Well-formed subdevices\<close>

text \<open>The counts stay inside the arrays, the name is terminated.\<close>

definition wf_sdev :: "aaudio_subdevice \<Rightarrow> bool" where
  "wf_sdev s \<longleftrightarrow> length (sd_in_streams s) = 1 \<and> length (sd_out_streams s) = 1 \<and> sd_in_stream_cnt s \<le> 1
     \<and> sd_out_stream_cnt s \<le> 1 \<and> length (sd_controls s) = 32 \<and> sd_control_cnt s \<le> 32
     \<and> length (sd_uid s) = 129 \<and> 0 \<in> set (sd_uid s)"

text \<open>A subdevice that has no place in the buffer structure yet, so that its streams have no buffers.\<close>

definition no_buffers :: "aaudio_stream \<Rightarrow> bool" where
  "no_buffers s \<longleftrightarrow> st_buffers s = None \<and> st_alsa_hw_desc s = None \<and> \<not> st_host_allocated s"

definition fresh_sdev :: "aaudio_subdevice \<Rightarrow> bool" where
  "fresh_sdev s \<longleftrightarrow> wf_sdev s \<and> sd_buf_id s = AAUDIO_BUFFER_ID_NONE
     \<and> list_all no_buffers (sd_in_streams s) \<and> list_all no_buffers (sd_out_streams s)"

lemma fresh_frame:
  assumes "fresh_sdev s" and "sd_in_streams s' = sd_in_streams s" "sd_out_streams s' = sd_out_streams s"
    "sd_in_stream_cnt s' = sd_in_stream_cnt s" "sd_out_stream_cnt s' = sd_out_stream_cnt s" "sd_controls s' = sd_controls s"
    "sd_control_cnt s' = sd_control_cnt s" "sd_uid s' = sd_uid s" "sd_buf_id s' = sd_buf_id s"
  shows "fresh_sdev s'"
  using assms by (simp add: fresh_sdev_def wf_sdev_def)

lemma init_stream_info_safe:
  assumes s: "script_ok env" and b: "bce_ok (a_bcem a)" and n: "no_buffers strm"
  shows "safe (\<lambda>(strm', a', p). cmd_frame a a' \<and> no_buffers strm') (aaudio_init_stream_info env devid strm a)"
  unfolding aaudio_init_stream_info_def
proof (rule safe_bind [OF get_prim_safe [OF s b]], simp, clarify)
  fix r a1 assume a1: "cmd_frame a a1"
  let ?strm1 = "case r of Inl e \<Rightarrow> strm | Inr bs \<Rightarrow> strm\<lparr>st_desc := description_of bs\<rparr>"
  have n1: "no_buffers ?strm1" using n by (cases r) (simp_all add: no_buffers_def)
  show "safe (\<lambda>(strm', a', p). cmd_frame a a' \<and> no_buffers strm')
     (let strm1 = ?strm1 in get_prim env devid (st_id strm) (AAUDIO_PROP AAUDIO_PROP_SCOPE_GLOBAL AAUDIO_PROP_LATENCY 0) 4 a1 \<bind>
        (\<lambda>(r', a2). let strm2 = case r' of Inl e \<Rightarrow> strm1 | Inr bs \<Rightarrow> strm1\<lparr>st_latency := u32_of bs\<rparr>
           in Some (strm2, a2, ad_format_id (st_desc strm2) = AAUDIO_FORMAT_LPCM)))"
    unfolding Let_def
    by (rule safe_bind [OF get_prim_safe [OF s cmd_frame_bce [OF a1]]], simp)
      (use n1 a1 cmd_frame_trans in \<open>auto simp: no_buffers_def split: sum.splits\<close>)
qed

lemma list_elem_safe:
  assumes "reply_buf buf" and "off + 8 * i + 8 \<le> 0x1000"
  shows "\<exists>v. list_elem buf off i = Some v"
  using assms by (simp add: list_elem_def read_val_def reply_buf_def Let_def)

lemma init_streams_safe:
  assumes s: "script_ok env" and "reply_buf buf" and "\<forall>i \<in> set is. i < length ss \<and> off + 8 * i + 8 \<le> 0x1000"
    and "bce_ok (a_bcem a)" and "list_all no_buffers ss"
  shows "safe (\<lambda>(ss', p, a'). cmd_frame a a' \<and> length ss' = length ss \<and> list_all no_buffers ss')
    (init_streams env devid lat buf off is ss pcm a)"
  using assms(2-)
proof (induction "is" arbitrary: ss pcm a)
  case Nil
  then show ?case by (simp add: cmd_frame_refl)
next
  case (Cons i "is")
  obtain id where id: "list_elem buf off i = Some id" using list_elem_safe Cons.prems(1,2) by fastforce
  have i: "i < length ss" using Cons.prems(2) by simp
  have n: "no_buffers ((ss ! i)\<lparr>st_id := id, st_buffer_cnt := 0\<rparr>)"
    using i Cons.prems(4) by (auto simp: list_all_length no_buffers_def)
  have upd: "list_all no_buffers (ss[i := x])" if "no_buffers x" for x
    using Cons.prems(4) that i by (auto simp: list_all_length nth_list_update)
  show ?case
    unfolding init_streams.simps id bind.bind_lunit arr_get_def arr_set_def if_P [OF i]
  proof (rule safe_bind [OF init_stream_info_safe [OF s Cons.prems(3) n]], clarify)
    fix s1 a1 p assume a1: "cmd_frame a a1" "no_buffers s1"
    have "safe (\<lambda>(ss', p, a'). cmd_frame a1 a' \<and> length ss' = length (ss[i := s1\<lparr>st_latency := st_latency s1 + lat\<rparr>])
        \<and> list_all no_buffers ss')
      (init_streams env devid lat buf off is (ss[i := s1\<lparr>st_latency := st_latency s1 + lat\<rparr>]) (pcm \<or> p) a1)"
      using Cons.prems(1,2) a1 by (intro Cons.IH upd) (auto simp: no_buffers_def cmd_frame_def)
    then show "safe (\<lambda>(ss', p, a'). cmd_frame a a' \<and> length ss' = length ss \<and> list_all no_buffers ss')
        (init_streams env devid lat buf off is (ss[i := s1\<lparr>st_latency := st_latency s1 + lat\<rparr>]) (pcm \<or> p) a1)"
      by (rule safe_mono) (use a1(1) cmd_frame_trans in auto)
  qed
qed

lemma jack_safe:
  assumes "script_ok env" and "bce_ok (a_bcem a)" and "fresh_sdev s"
  shows "safe (\<lambda>(s', a'). cmd_frame a a' \<and> fresh_sdev s') (aaudio_handle_jack_connection_change env s a)"
proof (cases "sd_jack s = None")
  case True
  then show ?thesis using assms by (simp add: aaudio_handle_jack_connection_change_def cmd_frame_refl)
next
  case False
  have "fresh_sdev (s\<lparr>sd_jack := j\<rparr>)" for j by (rule fresh_frame [OF assms(3)]) simp_all
  then show ?thesis
    unfolding aaudio_handle_jack_connection_change_def if_not_P [OF False]
    by (intro safe_bind [OF get_prim_safe [OF assms(1,2)]]) (auto simp: assms(3) split: sum.splits)
qed

lemma add_control_frame: "bce_ok (a_bcem a) \<Longrightarrow> cmd_frame a (aaudio_add_control env s c a)"
  by (simp add: aaudio_add_control_def Let_def cmd_frame_def)

lemma fresh_put_control:
  assumes "fresh_sdev s" and "n \<le> 32"
  shows "fresh_sdev (s\<lparr>sd_controls := (sd_controls s)[k := c]\<rparr>)"
    "fresh_sdev (s\<lparr>sd_controls := (sd_controls s)[k := c], sd_control_cnt := n\<rparr>)"
  using assms by (simp_all add: fresh_sdev_def wf_sdev_def)

lemma init_control_safe:
  assumes s: "script_ok env" and r: "reply_buf buf" and b: "bce_ok (a_bcem a)" and f: "fresh_sdev sdev"
    and cnt: "sd_control_cnt sdev < 32"
    and offs: "ctrl_l + 8 * i + 8 \<le> 0x1000" "elem_l + 8 * i + 8 \<le> 0x1000" "scope_l + 8 * i + 8 \<le> 0x1000"
  shows "safe (\<lambda>(s', a'). cmd_frame a a' \<and> fresh_sdev s') (init_control env buf (ctrl_l, elem_l, scope_l) i (sdev, a))"
proof -
  obtain id sc el where e: "list_elem buf ctrl_l i = Some id" "list_elem buf scope_l i = Some sc" "list_elem buf elem_l i = Some el"
    using list_elem_safe [OF r] offs by blast
  have len: "sd_control_cnt sdev < length (sd_controls sdev)" using f cnt by (simp add: fresh_sdev_def wf_sdev_def)
  note put = fresh_put_control [OF f]
  have n: "Suc (sd_control_cnt sdev) \<le> 32" using cnt by simp
  obtain r1 a1 where g1: "get_prim env (sd_dev_id sdev) id (AAUDIO_PROP AAUDIO_PROP_SCOPE_GLOBAL AAUDIO_PROP_CLASS 0) 4 a = Some (r1, a1)"
    and a1: "cmd_frame a a1"
    using get_prim_safe [OF s b, of 4] by (fastforce simp: safe_def)
  obtain r2 a2 where g2: "get_prim env (sd_dev_id sdev) id (AAUDIO_PROP AAUDIO_PROP_SCOPE_GLOBAL AAUDIO_PROP_LEVEL_DB_RANGE 0) 16 a1
      = Some (r2, a2)" and a2: "cmd_frame a1 a2"
    using get_prim_safe [OF s cmd_frame_bce [OF a1], of 16] by (fastforce simp: safe_def)
  note a12 = cmd_frame_trans [OF a1 a2]
  note add1 = cmd_frame_trans [OF a1 add_control_frame [OF cmd_frame_bce [OF a1]]]
  note add2 = cmd_frame_trans [OF a12 add_control_frame [OF cmd_frame_bce [OF a12]]]
  show ?thesis
    unfolding init_control_def prod.case arr_get_def if_P [OF len] bind.bind_lunit e Let_def g1
    by (cases r1; cases r2) (simp_all add: g2 a1 a12 add1 add2 put(1) [OF order_refl] put(2) [OF n])
qed

lemma init_controls_loop_safe:
  assumes s: "script_ok env" and r: "reply_buf buf" and b: "bce_ok (a_bcem a)" and f: "fresh_sdev sdev"
    and offs: "\<forall>i \<in> set is. ctrl_l + 8 * i + 8 \<le> 0x1000 \<and> elem_l + 8 * i + 8 \<le> 0x1000 \<and> scope_l + 8 * i + 8 \<le> 0x1000"
  shows "safe (\<lambda>(s', a'). cmd_frame a a' \<and> fresh_sdev s')
    (init_controls_loop env buf (ctrl_l, elem_l, scope_l) is (sdev, a))"
  using b f offs
proof (induction "is" arbitrary: sdev a)
  case Nil
  then show ?case by (simp add: cmd_frame_refl)
next
  case (Cons i "is")
  show ?case
  proof (cases "sd_control_cnt sdev < 32")
    case False
    then show ?thesis using Cons.prems by (simp add: cmd_frame_refl)
  next
    case True
    obtain s1 a1 where c: "init_control env buf (ctrl_l, elem_l, scope_l) i (sdev, a) = Some (s1, a1)"
      and a1: "cmd_frame a a1" "fresh_sdev s1"
      using init_control_safe [OF s r Cons.prems(1,2) True, of ctrl_l i elem_l scope_l] Cons.prems(3)
      by (auto simp: safe_def)
    have "safe (\<lambda>(s', a'). cmd_frame a1 a' \<and> fresh_sdev s') (init_controls_loop env buf (ctrl_l, elem_l, scope_l) is (s1, a1))"
      using a1 Cons.prems(3) by (intro Cons.IH) (auto simp: cmd_frame_def)
    then show ?thesis
      using True by (simp add: c) (erule safe_mono, use a1(1) cmd_frame_trans in auto)
  qed
qed

lemma init_controls_safe:
  assumes s: "script_ok env" and b: "bce_ok (a_bcem a)" and f: "fresh_sdev sdev"
  shows "safe (\<lambda>(s', a'). cmd_frame a a' \<and> fresh_sdev s') (aaudio_init_controls env sdev a)"
proof (cases "ax_ctl_mem env (sd_dev_id sdev)")
  case None
  then show ?thesis using b f by (simp add: aaudio_init_controls_def aaudio_reply_alloc_def cmd_frame_refl)
next
  case (Some d)
  have rb: "reply_buf \<lparr>am_data = d, am_size = 0x1000\<rparr>"
    using s Some by (auto simp: script_ok_def mem_ok_def reply_buf_def)
  obtain r buf a1 where c: "a_cmd_buf env (\<lambda>e. aaudio_cmd_get_control_list e (sd_dev_id sdev)) \<lparr>am_data = d, am_size = 0x1000\<rparr> a
      = Some (r, buf, a1)" and a1: "cmd_frame a a1" "reply_buf buf"
    and rd: "\<And>x. r = Inr x \<Longrightarrow> aaudio_msg_read_get_control_list_response buf = Ok x"
    using a_cmd_buf_safe [OF s b rb fits_writers(10) [of "sd_dev_id sdev"] inside_readers(6),
        where f = "\<lambda>e. aaudio_cmd_get_control_list e (sd_dev_id sdev)", OF aaudio_cmd_get_control_list_def]
    by (fastforce simp: safe_def)
  show ?thesis
  proof (cases r)
    case (Inl e)
    then show ?thesis using Some c a1 f by (simp add: aaudio_init_controls_def aaudio_reply_alloc_def)
  next
    case (Inr x)
    obtain cl el sl cnt where x: "x = (cl, el, sl, cnt)" by (metis prod_cases4)
    have "49 \<le> length (am_data buf)" using a1(2) by (simp add: reply_buf_def)
    from readers_inside [OF this] rd [OF Inr] x
    have o: "cl + unat cnt * 8 \<le> el" "el + unat cnt * 8 \<le> sl" "sl + unat cnt * 8 \<le> unat (am_size buf)" by auto
    have "sl + unat cnt * 8 \<le> 0x1000" using o(3) a1(2) by (simp add: reply_buf_def)
    then have "\<forall>i \<in> set [0..<unat cnt]. cl + 8 * i + 8 \<le> 0x1000 \<and> el + 8 * i + 8 \<le> 0x1000 \<and> sl + 8 * i + 8 \<le> 0x1000"
      using o(1,2) by auto
    from init_controls_loop_safe [OF s a1(2) cmd_frame_bce [OF a1(1)] f this]
    show ?thesis
      using Some c Inr x by (simp add: aaudio_init_controls_def aaudio_reply_alloc_def) (erule safe_mono, use a1(1) cmd_frame_trans in auto)
  qed
qed

section \<open>Setting up devices never leaves a buffer\<close>

definition dev_frame :: "aaudio_device \<Rightarrow> aaudio_device \<Rightarrow> bool" where
  "dev_frame a a' \<longleftrightarrow> bce_ok (a_bcem a')
     \<and> (\<exists>new. a_subdevice_list a' = a_subdevice_list a @ new \<and> list_all fresh_sdev new)"

lemma dev_frame_cmd: "cmd_frame a a' \<Longrightarrow> dev_frame a a'"
  by (simp add: dev_frame_def cmd_frame_def)

lemma dev_frame_trans: "dev_frame a b \<Longrightarrow> dev_frame b c \<Longrightarrow> dev_frame a c"
  by (auto simp: dev_frame_def)

lemma dev_frame_refl: "bce_ok (a_bcem a) \<Longrightarrow> dev_frame a a"
  by (simp add: dev_frame_def)

lemma fresh_zero_sdev:
  assumes "length uid \<le> 128"
  shows "fresh_sdev (set_uid uid (zero_sdev\<lparr>sd_dev_id := i, sd_buf_id := AAUDIO_BUFFER_ID_NONE\<rparr>))"
  using assms by (simp add: fresh_sdev_def wf_sdev_def set_uid_def zero_sdev_def zero_stream_def no_buffers_def)

lemma create_pcm_frame:
  assumes "fresh_sdev s" and "aaudio_create_pcm st nid s = (r, nid', s')"
  shows "fresh_sdev s'"
  using assms by (auto intro!: fresh_frame [OF assms(1)] simp: aaudio_create_pcm_def Let_def split: if_splits option.splits)

lemma init_dev_jack_safe:
  assumes s: "script_ok env" and b: "bce_ok (a_bcem a)" and f: "fresh_sdev sdev"
  shows "safe (\<lambda>(s', a'). cmd_frame a a' \<and> fresh_sdev s') (init_dev_jack env sdev a)"
proof (cases "cstr (sd_uid sdev) = str ''Codec Output''")
  case False
  then show ?thesis using b f by (simp add: init_dev_jack_def cmd_frame_refl)
next
  case True
  let ?s = "if ax_snd_jack_new env (sd_dev_id sdev) then sdev\<lparr>sd_jack := Some False\<rparr> else sdev"
  have fs: "fresh_sdev ?s" by (rule fresh_frame [OF f]) simp_all
  have l: "safe (\<lambda>(r, a'). cmd_frame a a' \<and> (\<forall>x. r = Inr x \<longrightarrow> True))
      (a_cmd env (\<lambda>e mem. aaudio_cmd_property_listener e mem (sd_dev_id ?s) (sd_dev_id ?s)
        (AAUDIO_PROP AAUDIO_PROP_SCOPE_OUTPUT AAUDIO_PROP_JACK_PLUGGED 0)) a)"
    by (rule a_cmd_safe [OF s b])
      (use cmd_free_safe [OF _ _ fits_writers(6) _ inside_readers(2)] in \<open>auto simp: aaudio_cmd_property_listener_def\<close>)
  then obtain r a1 where r: "a_cmd env (\<lambda>e mem. aaudio_cmd_property_listener e mem (sd_dev_id ?s) (sd_dev_id ?s)
        (AAUDIO_PROP AAUDIO_PROP_SCOPE_OUTPUT AAUDIO_PROP_JACK_PLUGGED 0)) a = Some (r, a1)" and a1: "cmd_frame a a1"
    by (auto simp: safe_def)
  show ?thesis
    unfolding init_dev_jack_def if_not_P [OF not_not [THEN iffD2, OF True]] Let_def r bind.bind_lunit prod.case
    by (rule safe_mono [OF jack_safe [OF s cmd_frame_bce [OF a1] fs]]) (use a1 cmd_frame_trans in auto)
qed

lemma list_reader_offset:
  "aaudio_msg_read_get_input_stream_list_response m = Ok (off, n) \<Longrightarrow> off = 29"
  "aaudio_msg_read_get_output_stream_list_response m = Ok (off, n) \<Longrightarrow> off = 29"
  "aaudio_msg_read_get_device_list_response m = Ok (off, n) \<Longrightarrow> off = 29"
proof -
  have "off = 29" if "READ_START t m (read_list m) = Ok (off, n)" for t
    using that by (cases "aaudio_msg_verify m t False"; cases "read_val read_start m :: 64 word rd")
      (auto simp: READ_START_def read_list_def)
  then show "aaudio_msg_read_get_input_stream_list_response m = Ok (off, n) \<Longrightarrow> off = 29"
    "aaudio_msg_read_get_output_stream_list_response m = Ok (off, n) \<Longrightarrow> off = 29"
    "aaudio_msg_read_get_device_list_response m = Ok (off, n) \<Longrightarrow> off = 29"
    by (simp_all add: aaudio_msg_read_get_input_stream_list_response_def aaudio_msg_read_get_output_stream_list_response_def
        aaudio_msg_read_get_device_list_response_def)
qed

lemma finish_dev_safe:
  assumes s: "script_ok env" and b: "bce_ok (a_bcem a)" and f: "fresh_sdev sdev"
  shows "safe (dev_frame a) (finish_dev env dev_id sdev a)"
proof -
  obtain s5 a8 where c: "aaudio_init_controls env sdev a = Some (s5, a8)" and a8: "cmd_frame a a8" "fresh_sdev s5"
    using init_controls_safe [OF s b f] by (auto simp: safe_def)
  obtain st nid s6 where p: "(if sd_is_pcm s5 then aaudio_create_pcm (ax_snd_pcm_new env dev_id) (a_next_alsa_id a8) s5
      else (0, a_next_alsa_id a8, s5)) = (st, nid, s6)" by (metis prod_cases3)
  have s6: "fresh_sdev s6" using p a8(2) create_pcm_frame [OF a8(2)] by (auto split: if_splits)
  have b8: "bce_ok (a_bcem (a8\<lparr>a_next_alsa_id := nid\<rparr>))" using a8(1) by (simp add: cmd_frame_def)
  obtain s7 a9 where j: "init_dev_jack env s6 (a8\<lparr>a_next_alsa_id := nid\<rparr>) = Some (s7, a9)"
    and a9: "cmd_frame (a8\<lparr>a_next_alsa_id := nid\<rparr>) a9" "fresh_sdev s7"
    using init_dev_jack_safe [OF s b8 s6] by (auto simp: safe_def)
  show ?thesis
    unfolding finish_dev_def c bind.bind_lunit prod.case p Let_def j
    using a8(1) a9 by (simp add: dev_frame_def cmd_frame_def)
qed

lemma streams_at:
  assumes s: "script_ok env" and r: "reply_buf buf" and b: "bce_ok (a_bcem a)" and n: "list_all no_buffers ss" "length ss = 1"
  shows "safe (\<lambda>(ss', p, a'). cmd_frame a a' \<and> length ss' = 1 \<and> list_all no_buffers ss')
    (init_streams env devid lat buf 29 [0..<min k 1] ss pcm a)"
proof -
  have "\<forall>i \<in> set [0..<min k 1]. i < length ss \<and> 29 + 8 * i + 8 \<le> 0x1000" using n(2) by auto
  from init_streams_safe [OF s r this b n(1)] show ?thesis using n(2) by simp
qed

lemma init_dev_outputs_safe:
  assumes s: "script_ok env" and r: "reply_buf buf" and b: "bce_ok (a_bcem a)" and f: "fresh_sdev sdev"
  shows "safe (dev_frame a) (init_dev_outputs env dev_id buf sdev a)"
proof -
  obtain x buf1 a1 where c: "a_cmd_buf env (\<lambda>e. aaudio_cmd_get_output_stream_list e dev_id) buf a = Some (x, buf1, a1)"
    and a1: "cmd_frame a a1" "reply_buf buf1"
    and rd: "\<And>y. x = Inr y \<Longrightarrow> aaudio_msg_read_get_output_stream_list_response buf1 = Ok y"
    using a_cmd_buf_safe [OF s b r fits_writers(9) [of dev_id] inside_readers(4),
        where f = "\<lambda>e. aaudio_cmd_get_output_stream_list e dev_id", OF aaudio_cmd_get_output_stream_list_def]
    by (fastforce simp: safe_def)
  show ?thesis
  proof (cases x)
    case (Inl e)
    then show ?thesis using c a1 by (simp add: init_dev_outputs_def dev_frame_cmd)
  next
    case (Inr y)
    then obtain cnt where y: "y = (29, cnt)" using rd list_reader_offset(2) by (metis prod.exhaust)
    have ss: "list_all no_buffers (sd_out_streams sdev)" "length (sd_out_streams sdev) = 1"
      using f by (simp_all add: fresh_sdev_def wf_sdev_def)
    obtain ss' p a2 where i: "init_streams env dev_id (sd_out_latency sdev) buf1 29 [0..<min (unat cnt) 1] (sd_out_streams sdev)
        (sd_is_pcm sdev) a1 = Some (ss', p, a2)" and a2: "cmd_frame a1 a2" "length ss' = 1" "list_all no_buffers ss'"
      using streams_at [OF s a1(2) cmd_frame_bce [OF a1(1)] ss] by (fastforce simp: safe_def)
    have "fresh_sdev (sdev\<lparr>sd_out_stream_cnt := min (unat cnt) 1, sd_out_streams := ss', sd_is_pcm := p\<rparr>)"
      using f a2 by (simp add: fresh_sdev_def wf_sdev_def)
    from finish_dev_safe [OF s cmd_frame_bce [OF a2(1)] this]
    show ?thesis
      unfolding init_dev_outputs_def c bind.bind_lunit prod.case Inr y sum.case Let_def i
      by (rule safe_mono) (rule dev_frame_trans [OF dev_frame_cmd [OF cmd_frame_trans [OF a1(1) a2(1)]]])
  qed
qed

lemma init_dev_inputs_safe:
  assumes s: "script_ok env" and r: "reply_buf buf" and b: "bce_ok (a_bcem a)" and f: "fresh_sdev sdev"
  shows "safe (dev_frame a) (init_dev_inputs env dev_id buf sdev a)"
proof -
  obtain x buf1 a1 where c: "a_cmd_buf env (\<lambda>e. aaudio_cmd_get_input_stream_list e dev_id) buf a = Some (x, buf1, a1)"
    and a1: "cmd_frame a a1" "reply_buf buf1"
    and rd: "\<And>y. x = Inr y \<Longrightarrow> aaudio_msg_read_get_input_stream_list_response buf1 = Ok y"
    using a_cmd_buf_safe [OF s b r fits_writers(8) [of dev_id] inside_readers(3),
        where f = "\<lambda>e. aaudio_cmd_get_input_stream_list e dev_id", OF aaudio_cmd_get_input_stream_list_def]
    by (fastforce simp: safe_def)
  show ?thesis
  proof (cases x)
    case (Inl e)
    then show ?thesis using c a1 by (simp add: init_dev_inputs_def dev_frame_cmd)
  next
    case (Inr y)
    then obtain cnt where y: "y = (29, cnt)" using rd list_reader_offset(1) by (metis prod.exhaust)
    have ss: "list_all no_buffers (sd_in_streams sdev)" "length (sd_in_streams sdev) = 1"
      using f by (simp_all add: fresh_sdev_def wf_sdev_def)
    obtain ss' p a2 where i: "init_streams env dev_id (sd_in_latency sdev) buf1 29 [0..<min (unat cnt) 1] (sd_in_streams sdev)
        (sd_is_pcm sdev) a1 = Some (ss', p, a2)" and a2: "cmd_frame a1 a2" "length ss' = 1" "list_all no_buffers ss'"
      using streams_at [OF s a1(2) cmd_frame_bce [OF a1(1)] ss] by (fastforce simp: safe_def)
    have "fresh_sdev (sdev\<lparr>sd_in_stream_cnt := min (unat cnt) 1, sd_in_streams := ss', sd_is_pcm := p\<rparr>)"
      using f a2 by (simp add: fresh_sdev_def wf_sdev_def)
    from init_dev_outputs_safe [OF s a1(2) cmd_frame_bce [OF a2(1)] this]
    show ?thesis
      unfolding init_dev_inputs_def c bind.bind_lunit prod.case Inr y sum.case Let_def i
      by (rule safe_mono) (rule dev_frame_trans [OF dev_frame_cmd [OF cmd_frame_trans [OF a1(1) a2(1)]]])
  qed
qed

lemma init_dev_safe:
  assumes s: "script_ok env" and b: "bce_ok (a_bcem a)"
  shows "safe (dev_frame a) (aaudio_init_dev env dev_id a)"
proof (cases "ax_dev_mem env dev_id = None \<or> \<not> ax_kzalloc_sdev env dev_id")
  case True
  then show ?thesis
    using b by (auto simp: aaudio_init_dev_def aaudio_reply_alloc_def dev_frame_refl split: option.splits)
next
  case False
  then obtain d where d: "ax_dev_mem env dev_id = Some d" and k: "ax_kzalloc_sdev env dev_id" by auto
  have rb: "reply_buf \<lparr>am_data = d, am_size = 0x1000\<rparr>" using s d by (auto simp: script_ok_def mem_ok_def reply_buf_def)
  let ?p = "AAUDIO_PROP AAUDIO_PROP_SCOPE_GLOBAL AAUDIO_PROP_UID 0"
  let ?rdr = "\<lambda>m. rbind (aaudio_msg_read_get_property_response m) (\<lambda>(obj', paddr', off, size). Ok (off, size))"
  obtain x buf1 a1 where c: "a_cmd_buf env (\<lambda>e. aaudio_cmd_get_property e dev_id dev_id ?p [])
      \<lparr>am_data = d, am_size = 0x1000\<rparr> a = Some (x, buf1, a1)"
    and a1: "cmd_frame a a1" "reply_buf buf1" and rd: "\<And>y. x = Inr y \<Longrightarrow> ?rdr buf1 = Ok y"
    using a_cmd_buf_safe [OF s b rb fits_writers(5) [of dev_id dev_id ?p] inside_property,
        where f = "\<lambda>e. aaudio_cmd_get_property e dev_id dev_id ?p []", OF aaudio_cmd_get_property_def]
    by (fastforce simp: safe_def)
  have alloc: "aaudio_reply_alloc (ax_dev_mem env dev_id) = Some \<lparr>am_data = d, am_size = 0x1000\<rparr>"
    by (simp add: aaudio_reply_alloc_def d)
  show ?thesis
  proof (cases "\<exists>off n. x = Inr (off, n) \<and> n \<le> 128")
    case False
    then show ?thesis
      using a1(1) k by (cases x) (auto simp: aaudio_init_dev_def alloc c dev_frame_cmd)
  next
    case True
    then obtain off n where x: "x = Inr (off, n)" and n: "n \<le> 128" by blast
    have off: "off = 49" using rd [OF x] property_offset by (cases "aaudio_msg_read_get_property_response buf1") auto
    have un: "unat n \<le> 128" using n by (simp add: word_le_nat_alt)
    define uid where "uid = take (unat n) (drop 49 (am_data buf1))"
    have cp: "copy_bytes buf1 off (unat n) = Some uid"
      using un a1(2) by (simp add: copy_bytes_def copy_out_def off uid_def reply_buf_def)
    define sdev where "sdev = set_uid uid (zero_sdev\<lparr>sd_dev_id := dev_id, sd_buf_id := AAUDIO_BUFFER_ID_NONE\<rparr>)"
    have fs: "fresh_sdev sdev" unfolding sdev_def by (rule fresh_zero_sdev) (use un in \<open>simp add: uid_def\<close>)
    obtain r1 a2 where g1: "get_prim env dev_id dev_id (AAUDIO_PROP AAUDIO_PROP_SCOPE_INPUT AAUDIO_PROP_LATENCY 0) 4 a1 = Some (r1, a2)"
      and a2: "cmd_frame a1 a2"
      using get_prim_safe [OF s cmd_frame_bce [OF a1(1)], of 4] by (fastforce simp: safe_def)
    obtain r2 a3 where g2: "get_prim env dev_id dev_id (AAUDIO_PROP AAUDIO_PROP_SCOPE_OUTPUT AAUDIO_PROP_LATENCY 0) 4 a2 = Some (r2, a3)"
      and a3: "cmd_frame a2 a3"
      using get_prim_safe [OF s cmd_frame_bce [OF a2], of 4] by (fastforce simp: safe_def)
    let ?sdev1 = "case r1 of Inl e \<Rightarrow> sdev | Inr bs \<Rightarrow> sdev\<lparr>sd_in_latency := u32_of bs\<rparr>"
    let ?sdev2 = "case r2 of Inl e \<Rightarrow> ?sdev1 | Inr bs \<Rightarrow> ?sdev1\<lparr>sd_out_latency := u32_of bs\<rparr>"
    have f2: "fresh_sdev ?sdev2" by (rule fresh_frame [OF fs]) (simp_all split: sum.splits)
    have run: "aaudio_init_dev env dev_id a = init_dev_inputs env dev_id buf1 ?sdev2 a3"
    proof -
      have "\<not> 128 < n" using n by simp
      then show ?thesis using k
        by (cases r1; cases r2) (simp_all add: aaudio_init_dev_def alloc c x cp g1 g2 Let_def sdev_def)
    qed
    show ?thesis
      unfolding run by (rule safe_mono [OF init_dev_inputs_safe [OF s a1(2) cmd_frame_bce [OF a3] f2]])
        (rule dev_frame_trans [OF dev_frame_cmd [OF cmd_frame_trans [OF a1(1) cmd_frame_trans [OF a2 a3]]]])
  qed
qed

lemma init_devs_safe:
  assumes s: "script_ok env" and r: "reply_buf buf" and i: "\<forall>i \<in> set is. off + 8 * i + 8 \<le> 0x1000"
    and b: "bce_ok (a_bcem a)"
  shows "safe (dev_frame a) (init_devs env buf off is a)"
  using i b
proof (induction "is" arbitrary: a)
  case Nil
  then show ?case by (simp add: dev_frame_refl)
next
  case (Cons i "is")
  obtain id where id: "list_elem buf off i = Some id" using list_elem_safe [OF r] Cons.prems(1) by fastforce
  obtain a1 where a1: "aaudio_init_dev env id a = Some a1" "dev_frame a a1"
    using init_dev_safe [OF s Cons.prems(2)] by (auto simp: safe_def)
  have "safe (dev_frame a1) (init_devs env buf off is a1)"
    using Cons.prems(1) a1(2) by (intro Cons.IH) (simp_all add: dev_frame_def)
  then show ?case
    unfolding init_devs.simps id bind.bind_lunit a1(1) by (rule safe_mono) (rule dev_frame_trans [OF a1(2)])
qed

lemma clamp_devs_inside:
  assumes "reply_buf buf" and "i < clamp_devs buf 29 cnt"
  shows "29 + 8 * i + 8 \<le> 0x1000"
proof (cases "29 < am_size buf")
  case False
  then show ?thesis using assms(2) by (simp add: clamp_devs_def Let_def word_less_nat_alt split: if_splits)
next
  case True
  have "clamp_devs buf 29 cnt \<le> unat ((am_size buf - 29) div 8)"
    using True by (simp add: clamp_devs_def Let_def word_le_nat_alt word_less_nat_alt)
  also have "\<dots> = (unat (am_size buf) - 29) div 8"
    using True by (simp add: unat_div unat_sub word_le_nat_alt word_less_nat_alt)
  finally have "Suc i \<le> (unat (am_size buf) - 29) div 8" using assms(2) by simp
  then have "8 * Suc i \<le> 8 * ((unat (am_size buf) - 29) div 8)" by (rule mult_le_mono2)
  also have "\<dots> \<le> unat (am_size buf) - 29" by simp
  finally have "8 * Suc i \<le> unat (am_size buf) - 29" .
  moreover have "unat (am_size buf) \<le> 0x1000" using assms(1) by (simp add: reply_buf_def)
  moreover have "29 < unat (am_size buf)" using True by (simp add: word_less_nat_alt)
  ultimately have "8 * Suc i + 29 \<le> 0x1000" by linarith
  then show ?thesis by simp
qed

text \<open>
  Property C36. Setting up the device over the transport never reads or writes outside a buffer, whatever the
  device answers: the names, the lists of streams and controls and the list of devices, whose count is
  cut to the size of the reply. It returns a status, and every subdevice it adds is well-formed: the
  counts of its streams and controls stay inside their arrays, its name is terminated, and it has no
  place in the buffer structure and no buffers yet. What other contexts do during the commands keeps
  the sizes of the buffers; they may deliver any reply.
\<close>

theorem init_cmd_safe:
  assumes s: "script_ok env" and b: "bce_ok (a_bcem a)"
    and w: "\<And>x. bce_ok (a_bcem x) \<Longrightarrow> bce_ok (a_bcem (ax_alive_wait env x))
      \<and> a_subdevice_list (ax_alive_wait env x) = a_subdevice_list x"
  shows "\<exists>st a' new. aaudio_init_cmd env a = Some (st, a') \<and> bce_ok (a_bcem a')
    \<and> a_subdevice_list a' = a_subdevice_list a @ new \<and> list_all fresh_sdev new"
proof -
  have q: "qout_ok (ba_qout (a_bcem a))" using b by (simp add: bce_ok_def)
  obtain st b1 where snd: "aaudio_send (ax_alive_ws env) None 500 (aaudio_msg_write_alive_notification 1 3) (a_bcem a) = Some (st, b1)"
    and b1: "qout_ok (ba_qout b1)" "ba_entries b1 = ba_entries (a_bcem a)"
    using send_ok [OF q fits_writers(1), of None] by blast
  have "bce_ok (a_bcem (a\<lparr>a_bcem := b1\<rparr>))" using b b1 by (simp add: bce_ok_def)
  note alive = this w [OF this]
  define a2 where "a2 = ax_alive_wait env (a\<lparr>a_bcem := b1\<rparr>)"
  have a2: "bce_ok (a_bcem a2)" "a_subdevice_list a2 = a_subdevice_list a" using alive by (simp_all add: a2_def)
  show ?thesis
  proof (cases "st = 0 \<and> a_remote_alive a2 \<and> ax_list_mem env \<noteq> None")
    case False
    then show ?thesis
      using a2 alive by (auto simp: aaudio_init_cmd_def snd Let_def aaudio_reply_alloc_def a2_def [symmetric])
  next
    case True
    then obtain d where d: "ax_list_mem env = Some d" by blast
    have rb: "reply_buf \<lparr>am_data = d, am_size = 0x1000\<rparr>" using s d by (auto simp: script_ok_def mem_ok_def reply_buf_def)
    obtain x buf a3 where c: "a_cmd_buf env aaudio_cmd_get_device_list \<lparr>am_data = d, am_size = 0x1000\<rparr> a2 = Some (x, buf, a3)"
      and a3: "cmd_frame a2 a3" "reply_buf buf" and rd: "\<And>y. x = Inr y \<Longrightarrow> aaudio_msg_read_get_device_list_response buf = Ok y"
      using a_cmd_buf_safe [OF s a2(1) rb fits_writers(12) inside_readers(5), OF aaudio_cmd_get_device_list_def]
      by (fastforce simp: safe_def)
    have run: "aaudio_init_cmd env a = (case x of Inl e \<Rightarrow> Some (e, a3)
        | Inr (off, cnt) \<Rightarrow> init_devs env buf off [0..<clamp_devs buf off cnt] a3 \<bind> (\<lambda>a4. Some (0, a4)))"
      using True d c by (simp add: aaudio_init_cmd_def snd Let_def aaudio_reply_alloc_def a2_def [symmetric])
    show ?thesis
    proof (cases x)
      case (Inl e)
      then show ?thesis using run a3 a2(2) by (auto simp: cmd_frame_def)
    next
      case (Inr y)
      then obtain cnt where y: "y = (29, cnt)" using rd list_reader_offset(3) by (metis prod.exhaust)
      have "\<forall>i \<in> set [0..<clamp_devs buf 29 cnt]. 29 + 8 * i + 8 \<le> 0x1000" using clamp_devs_inside [OF a3(2)] by simp
      from init_devs_safe [OF s a3(2) this cmd_frame_bce [OF a3(1)]]
      obtain a4 where "init_devs env buf 29 [0..<clamp_devs buf 29 cnt] a3 = Some a4" "dev_frame a3 a4" by (auto simp: safe_def)
      then show ?thesis using run Inr y a3(1) a2(2) by (auto simp: dev_frame_def cmd_frame_def)
    qed
  qed
qed

end
