(* ===== verification/Audio_Streams.thy ===== *)
theory Audio_Streams
  imports Audio_Setup
begin

unbundle bit_operations_syntax

text \<open>
  The streams after the buffer structure has been read, and after the device has been quiesced.
\<close>

section \<open>The streams that ALSA may open\<close>

text \<open>A stream with a hardware description has the buffer that the description is about.\<close>

definition stream_usable :: "aaudio_stream \<Rightarrow> bool" where
  "stream_usable st \<longleftrightarrow> (\<forall>hw. st_alsa_hw_desc st = Some hw \<longrightarrow>
     wf_hw hw \<and> (\<exists>b bs. st_buffers st = Some (b # bs) \<and> hw_buffer_bytes_max hw = db_size b))"

definition sdev_usable :: "aaudio_subdevice \<Rightarrow> bool" where
  "sdev_usable s \<longleftrightarrow> list_all stream_usable (sd_in_streams s) \<and> list_all stream_usable (sd_out_streams s)"

definition all_usable :: "aaudio_device \<Rightarrow> bool" where
  "all_usable a \<longleftrightarrow> list_all sdev_usable (a_subdevice_list a)"

lemma list_all_upd: "list_all P xs \<Longrightarrow> P x \<Longrightarrow> list_all P (xs[i := x])"
  by (cases "i < length xs") (auto simp: list_all_length nth_list_update)

lemma put_stream_usable:
  "sdev_usable s \<Longrightarrow> stream_usable st \<Longrightarrow> sdev_usable (put_pcm_stream p i st s)"
  by (simp add: sdev_usable_def put_pcm_stream_def list_all_upd)

lemma find_index_less: "find_index p xs = Some k \<Longrightarrow> k < length xs \<and> p (xs ! k)"
  by (induction xs arbitrary: k) (auto split: if_splits)

lemma set_bs_device_frame:
  "set_bs_device i f a = Some a' \<Longrightarrow> a_subdevice_list a' = a_subdevice_list a"
  by (auto simp: set_bs_device_def bind_eq_Some_conv)

lemma a_cmd_frame: "a_cmd env f a = Some (r, a') \<Longrightarrow> a_subdevice_list a' = a_subdevice_list a"
  by (auto simp: a_cmd_def Let_def split: prod.splits rd.splits)

lemma alloc_hw_usable:
  assumes "alloc_hw_info env st n = Some hw" and "st_buffers st = Some (b # bs)" "db_size b = n"
  shows "stream_usable (st\<lparr>st_alsa_hw_desc := hw\<rparr>)"
  using assms hw_info_result
  by (fastforce simp: alloc_hw_info_def stream_usable_def split: option.splits if_splits)

text \<open>Memory for the lists of buffers.\<close>

definition lists_allocated :: "aaudio_env \<Rightarrow> bool" where
  "lists_allocated env \<longleftrightarrow> (\<forall>i id. ax_kmalloc_buffers env i id)"

lemma bs_stream_usable:
  assumes "lists_allocated env" and "stream_usable s" and "aaudio_init_bs_stream env i a s bst = Some s'"
  shows "stream_usable s'"
proof (cases "bt_num_buffers bst = 0")
  case True
  then have "s' = s\<lparr>st_buffer_cnt := 0\<rparr>" using assms(3) by (simp add: aaudio_init_bs_stream_def Let_def)
  then show ?thesis using assms(2) by (simp add: stream_usable_def)
next
  case False
  then have "unat (bt_num_buffers bst) \<noteq> 0" by (simp add: word_unat_eq_iff)
  then have n: "min (unat (bt_num_buffers bst)) 1 = 1" by simp
  then obtain b bs where b: "bt_buffers bst = b # bs"
    using assms by (cases "bt_buffers bst") (simp_all add: aaudio_init_bs_stream_def Let_def lists_allocated_def)
  show ?thesis
    using assms n unfolding aaudio_init_bs_stream_def Let_def b
    by (auto simp: lists_allocated_def bind_eq_Some_conv intro!: alloc_hw_usable)
qed

lemma bs_host_usable:
  assumes "lists_allocated env" and "stream_usable s" and "aaudio_init_bs_stream_host env i s bst = Some (s', bst')"
  shows "stream_usable s'"
  using assms
  by (auto simp: aaudio_init_bs_stream_host_def Let_def lists_allocated_def bind_eq_Some_conv split: option.splits
      intro!: alloc_hw_usable)

text \<open>
  A property of subdevices that setting up one stream keeps, and that does not depend on the place of the
  subdevice in the structure, is kept by reading the structure.
\<close>

locale bs_keeps =
  fixes P :: "aaudio_env \<Rightarrow> aaudio_subdevice \<Rightarrow> bool"
  assumes buf_id: "P env s \<Longrightarrow> P env (s\<lparr>sd_buf_id := x\<rparr>)"
    and out_stream: "P env s \<Longrightarrow> j < sd_out_stream_cnt s \<Longrightarrow> arr_get (sd_out_streams s) j = Some st
      \<Longrightarrow> aaudio_init_bs_stream env i a st bst = Some st' \<Longrightarrow> P env (put_pcm_stream True j st' s)"
    and in_stream: "P env s \<Longrightarrow> sd_in_stream_cnt s = 1 \<Longrightarrow> arr_get (sd_in_streams s) 0 = Some st
      \<Longrightarrow> aaudio_init_bs_stream_host env i st bst = Some (st', bst') \<Longrightarrow> P env (put_pcm_stream False 0 st' s)"
begin

definition keeps :: "aaudio_env \<Rightarrow> aaudio_device \<Rightarrow> aaudio_device \<Rightarrow> bool" where
  "keeps env a a' \<longleftrightarrow> length (a_subdevice_list a') = length (a_subdevice_list a)
     \<and> (list_all (P env) (a_subdevice_list a) \<longrightarrow> list_all (P env) (a_subdevice_list a'))"

lemma keeps_trans: "keeps env a b \<Longrightarrow> keeps env b c \<Longrightarrow> keeps env a c"
  by (simp add: keeps_def)

lemma keeps_same: "a_subdevice_list a' = a_subdevice_list a \<Longrightarrow> keeps env a a'"
  by (simp add: keeps_def)

lemma keeps_upd:
  assumes "k < length (a_subdevice_list a)" and "P env (a_subdevice_list a ! k) \<Longrightarrow> P env (f (a_subdevice_list a ! k))"
  shows "keeps env a (upd_sdev k f a)"
  using assms by (auto simp: keeps_def upd_sdev_def intro!: list_all_upd dest: list_all_length [THEN iffD1])

lemma bs_outputs_keeps:
  "bs_outputs env i dev k js a = Some a' \<Longrightarrow> k < length (a_subdevice_list a) \<Longrightarrow> keeps env a a'"
proof (induction js arbitrary: a)
  case (Cons j js)
  let ?s = "a_subdevice_list a ! k"
  obtain a1 where r: "bs_outputs env i dev k js a1 = Some a'"
    and a1: "a1 = a \<or> j < sd_out_stream_cnt ?s \<and> (\<exists>s s' bst. arr_get (sd_out_streams ?s) j = Some s
      \<and> aaudio_init_bs_stream env i a s bst = Some s' \<and> a1 = upd_sdev k (put_pcm_stream True j s') a)"
    using Cons.prems(1) by (auto simp: bind_eq_Some_conv Let_def split: if_splits)
  have k1: "keeps env a a1"
    using a1 keeps_same keeps_upd [OF Cons.prems(2)] out_stream by blast
  then have "k < length (a_subdevice_list a1)" using Cons.prems(2) by (simp add: keeps_def)
  from Cons.IH [OF r this] k1 show ?case by (blast intro: keeps_trans)
qed (simp add: keeps_same)

lemma bs_devices_keeps:
  "bs_devices_loop env is a = Some a' \<Longrightarrow> keeps env a a'"
proof (induction "is" arbitrary: a)
  case (Cons i "is")
  obtain dev a1 where r: "bs_devices_loop env is a1 = Some a'"
    and a1: "(case aaudio_find_dev_by_uid a (bd_name dev) of
         None \<Rightarrow> Some a
       | Some k \<Rightarrow> set_bs_device i (bd_num_input_streams_update (\<lambda>_. 0)) (upd_sdev k (\<lambda>s. s\<lparr>sd_buf_id := of_nat i\<rparr>) a)
           \<bind> bs_outputs env i dev k [0..<unat (bd_num_output_streams dev)]) = Some a1"
    using Cons.prems(1) by (auto simp: bind_eq_Some_conv)
  have "keeps env a a1"
  proof (cases "aaudio_find_dev_by_uid a (bd_name dev)")
    case None
    then show ?thesis using a1 by (simp add: keeps_same)
  next
    case (Some k)
    then have k: "k < length (a_subdevice_list a)" using find_index_less unfolding aaudio_find_dev_by_uid_def by blast
    let ?u = "upd_sdev k (\<lambda>s. s\<lparr>sd_buf_id := of_nat i\<rparr>) a"
    obtain a2 where a2: "set_bs_device i (bd_num_input_streams_update (\<lambda>_. 0)) ?u = Some a2"
      "bs_outputs env i dev k [0..<unat (bd_num_output_streams dev)] a2 = Some a1"
      using a1 Some by (auto simp: bind_eq_Some_conv)
    have "keeps env a ?u" by (rule keeps_upd [OF k]) (rule buf_id)
    note k2 = keeps_trans [OF this keeps_same [OF set_bs_device_frame [OF a2(1)]]]
    then have "k < length (a_subdevice_list a2)" using k by (simp add: keeps_def)
    from bs_outputs_keeps [OF a2(2) this] k2 show ?thesis by (blast intro: keeps_trans)
  qed
  with Cons.IH [OF r] show ?case by (blast intro: keeps_trans)
qed (simp add: keeps_same)

lemma bs_assign_keeps:
  "bs_assign ks i a = Some a' \<Longrightarrow> \<forall>k \<in> set ks. k < length (a_subdevice_list a) \<Longrightarrow> keeps env a a'"
proof (induction ks arbitrary: i a)
  case (Cons k ks)
  show ?case
  proof (cases "sd_buf_id (a_subdevice_list a ! k) \<noteq> AAUDIO_BUFFER_ID_NONE \<or> length (bs_devices (a_bs a)) \<le> i")
    case True
    then show ?thesis using Cons by (auto simp: keeps_same split: if_splits)
  next
    case False
    let ?u = "upd_sdev k (\<lambda>s. s\<lparr>sd_buf_id := of_nat i\<rparr>) a"
    have k: "k < length (a_subdevice_list a)" using Cons.prems(2) by simp
    obtain a2 f where a2: "set_bs_device i f ?u = Some a2"
      "bs_assign ks (Suc i) (a2\<lparr>a_bs := (a_bs a2)\<lparr>bs_num_devices := of_nat (Suc i)\<rparr>\<rparr>) = Some a'"
      using Cons.prems(1) False by (auto simp: bind_eq_Some_conv Let_def split: if_splits)
    let ?b = "a2\<lparr>a_bs := (a_bs a2)\<lparr>bs_num_devices := of_nat (Suc i)\<rparr>\<rparr>"
    have "keeps env a ?u" by (rule keeps_upd [OF k]) (rule buf_id)
    moreover have "a_subdevice_list ?b = a_subdevice_list ?u" using set_bs_device_frame [OF a2(1)] by simp
    ultimately have k2: "keeps env a ?b" by (blast intro: keeps_trans keeps_same)
    then have "\<forall>k \<in> set ks. k < length (a_subdevice_list ?b)" using Cons.prems(2) by (simp add: keeps_def)
    from Cons.IH [OF a2(2) this] k2 show ?thesis by (blast intro: keeps_trans)
  qed
qed (simp add: keeps_same)

lemma bs_inputs_keeps:
  "bs_inputs env ks a = Some a' \<Longrightarrow> \<forall>k \<in> set ks. k < length (a_subdevice_list a) \<Longrightarrow> keeps env a a'"
proof (induction ks arbitrary: a)
  case (Cons k ks)
  have k: "k < length (a_subdevice_list a)" using Cons.prems(2) by simp
  let ?s = "a_subdevice_list a ! k"
  obtain a1 where r: "bs_inputs env ks a1 = Some a'" and a1: "a1 = a \<or> sd_in_stream_cnt ?s = 1
      \<and> (\<exists>s s' bst bst' f a2 r i. arr_get (sd_in_streams ?s) 0 = Some s
      \<and> aaudio_init_bs_stream_host env i s bst = Some (s', bst') \<and> set_bs_device i f (upd_sdev k (put_pcm_stream False 0 s') a) = Some a2
      \<and> a_cmd env (\<lambda>e mem. aaudio_cmd_set_input_stream_address_ranges e mem (sd_dev_id ?s)) a2 = Some (r, a1))"
    using Cons.prems(1) by (auto simp: bind_eq_Some_conv Let_def split: if_splits) blast
  have k1: "keeps env a a1"
    using a1
  proof
    assume "sd_in_stream_cnt ?s = 1 \<and> (\<exists>s s' bst bst' f a2 r i. arr_get (sd_in_streams ?s) 0 = Some s
      \<and> aaudio_init_bs_stream_host env i s bst = Some (s', bst') \<and> set_bs_device i f (upd_sdev k (put_pcm_stream False 0 s') a) = Some a2
      \<and> a_cmd env (\<lambda>e mem. aaudio_cmd_set_input_stream_address_ranges e mem (sd_dev_id ?s)) a2 = Some (r, a1))"
    then obtain s s' bst bst' f a2 r i where s: "sd_in_stream_cnt ?s = 1" "arr_get (sd_in_streams ?s) 0 = Some s"
      "aaudio_init_bs_stream_host env i s bst = Some (s', bst')" "set_bs_device i f (upd_sdev k (put_pcm_stream False 0 s') a) = Some a2"
      "a_cmd env (\<lambda>e mem. aaudio_cmd_set_input_stream_address_ranges e mem (sd_dev_id ?s)) a2 = Some (r, a1)" by blast
    have "keeps env a (upd_sdev k (put_pcm_stream False 0 s') a)" by (rule keeps_upd [OF k]) (rule in_stream [OF _ s(1-3)])
    then show ?thesis using set_bs_device_frame [OF s(4)] a_cmd_frame [OF s(5)] by (simp add: keeps_def)
  qed (simp add: keeps_same)
  then have "\<forall>k \<in> set ks. k < length (a_subdevice_list a1)" using Cons.prems(2) by (simp add: keeps_def)
  from Cons.IH [OF r this] k1 show ?case by (blast intro: keeps_trans)
qed (simp add: keeps_same)

lemma init_bs_keeps:
  assumes "aaudio_init_bs env a = Some (st, a')"
  shows "st \<in> {0, - EINVAL}" and "length (a_subdevice_list a') = length (a_subdevice_list a)"
    and "list_all (P env) (a_subdevice_list a) \<Longrightarrow> list_all (P env) (a_subdevice_list a')"
proof -
  have "st \<in> {0, - EINVAL} \<and> keeps env a a'"
  proof (cases "st = 0")
    case True
    define a1 where "a1 = a\<lparr>a_bs := ax_bs_at env (ax_gpr env 2)\<rparr>"
    define n where "n = min (unat (bs_num_devices (a_bs a1))) (length (bs_devices (a_bs a1)))"
    obtain a2 a3 where r: "bs_devices_loop env [0..<n] a1 = Some a2" "bs_assign [0..<length (a_subdevice_list a1)] n a2 = Some a3"
      "bs_inputs env [0..<length (a_subdevice_list a1)] a3 = Some a'"
      using assms True by (auto simp: aaudio_init_bs_def Let_def bind_eq_Some_conv a1_def n_def split: if_splits)
    have k1: "keeps env a a1" by (simp add: keeps_same a1_def)
    note k2 = keeps_trans [OF k1 bs_devices_keeps [OF r(1)]]
    have "\<forall>k \<in> set [0..<length (a_subdevice_list a1)]. k < length (a_subdevice_list a2)"
      using k1 k2 by (simp add: keeps_def)
    note k3 = keeps_trans [OF k2 bs_assign_keeps [OF r(2) this]]
    have "\<forall>k \<in> set [0..<length (a_subdevice_list a1)]. k < length (a_subdevice_list a3)"
      using k1 k3 by (simp add: keeps_def)
    from keeps_trans [OF k3 bs_inputs_keeps [OF r(3) this]] True show ?thesis by simp
  next
    case False
    then show ?thesis using assms by (auto simp: aaudio_init_bs_def Let_def bind_eq_Some_conv keeps_same split: if_splits)
  qed
  then show "st \<in> {0, - EINVAL}" "length (a_subdevice_list a') = length (a_subdevice_list a)"
    "list_all (P env) (a_subdevice_list a) \<Longrightarrow> list_all (P env) (a_subdevice_list a')"
    by (simp_all add: keeps_def)
qed

end

text \<open>With memory for the lists of buffers, streams stay usable.\<close>

interpretation usable: bs_keeps "\<lambda>env s. lists_allocated env \<longrightarrow> sdev_usable s"
proof (unfold_locales, goal_cases)
  case (1 env s x)
  then show ?case by (simp add: sdev_usable_def)
next
  case (2 env s j st i a bst st')
  then have "lists_allocated env \<Longrightarrow> stream_usable st"
    by (auto simp: arr_get_def sdev_usable_def list_all_length split: if_splits)
  with 2 show ?case using bs_stream_usable put_stream_usable by blast
next
  case (3 env s st i bst st' bst')
  then have "lists_allocated env \<Longrightarrow> stream_usable st"
    by (auto simp: arr_get_def sdev_usable_def list_all_length split: if_splits)
  with 3 show ?case using bs_host_usable put_stream_usable by blast
qed

lemma pcm_open_usable:
  assumes "stream_usable st"
  shows "\<exists>r rt' st'. aaudio_pcm_open rt st = Some (r, rt', st')
    \<and> (r = 0 \<longrightarrow> (\<exists>hw. rt_hw rt' = Some hw \<and> wf_hw hw \<and> rt_single rt' = Some (hw_buffer_bytes_max hw)))"
  using assms by (cases "st_alsa_hw_desc st") (auto simp: aaudio_pcm_open_def stream_usable_def)


section \<open>The number of output streams\<close>

lemma bs_outputs_fault:
  "\<exists>j \<in> set js. length (bd_output_streams dev) \<le> j \<Longrightarrow> bs_outputs env i dev k js a = None"
proof (induction js arbitrary: a)
  case (Cons j js)
  then show ?case
    by (cases "length (bd_output_streams dev) \<le> j") (auto simp: arr_get_def bind_eq_None_conv bind_eq_Some_conv Let_def split: if_splits)
qed simp

section \<open>A suspended device is quiet\<close>

definition active_streams :: "aaudio_subdevice \<Rightarrow> aaudio_stream list" where
  "active_streams s = take (sd_out_stream_cnt s) (sd_out_streams s) @ take (sd_in_stream_cnt s) (sd_in_streams s)"

definition quiet :: "aaudio_subdevice \<Rightarrow> aaudio_subdevice \<Rightarrow> bool" where
  "quiet s s' \<longleftrightarrow> sd_dev_id s' = sd_dev_id s \<and> sd_pcm s' = sd_pcm s \<and> sd_out_stream_cnt s' = sd_out_stream_cnt s
     \<and> sd_in_stream_cnt s' = sd_in_stream_cnt s \<and> (\<forall>st \<in> set (active_streams s'). \<not> st_started st)"

lemma stop_streams_quiet:
  "stop_streams n ss = (b, ss') \<Longrightarrow> \<forall>st \<in> set (take n ss'). \<not> st_started st"
  by (cases "n \<le> length ss") (auto simp: stop_streams_def min_def)

lemma quiesce_sdev_quiet:
  assumes s: "script_ok env" and b: "bce_ok (a_bcem a)" and k: "k < length (a_subdevice_list a)"
  shows "safe (\<lambda>a'. bce_ok (a_bcem a') \<and> (\<exists>x. quiet (a_subdevice_list a ! k) x
    \<and> a_subdevice_list a' = (a_subdevice_list a)[k := x])) (quiesce_sdev env p k a)"
proof -
  let ?s = "a_subdevice_list a ! k"
  obtain so outs where o: "stop_streams (sd_out_stream_cnt ?s) (sd_out_streams ?s) = (so, outs)" by (metis prod.exhaust)
  obtain si ins where i: "stop_streams (sd_in_stream_cnt ?s) (sd_in_streams ?s) = (si, ins)" by (metis prod.exhaust)
  define x where "x = ?s\<lparr>sd_out_streams := outs, sd_in_streams := ins\<rparr>"
  define a1 where "a1 = upd_sdev k (\<lambda>s. s\<lparr>sd_out_streams := outs, sd_in_streams := ins\<rparr>) a"
  have a1: "bce_ok (a_bcem a1)" "a_subdevice_list a1 = (a_subdevice_list a)[k := x]"
    using b by (simp_all add: a1_def upd_sdev_def x_def)
  have q: "quiet ?s x" "quiet ?s (suspend_all x)"
    using stop_streams_quiet [OF o] stop_streams_quiet [OF i]
    by (auto simp: quiet_def x_def active_streams_def suspend_all_def Let_def take_map)
  have "safe (\<lambda>(r, a'). cmd_frame a1 a' \<and> (\<forall>y. r = Inr y \<longrightarrow> True))
      (a_cmd env (\<lambda>e mem. aaudio_cmd_stop_io e mem (sd_dev_id ?s)) a1)"
    by (rule a_cmd_safe [OF s a1(1)])
      (use cmd_free_safe [OF _ _ fits_writers(3) _ inside_unit_readers(2)] in \<open>auto simp: aaudio_cmd_stop_io_def\<close>)
  then obtain r a2 where r: "a_cmd env (\<lambda>e mem. aaudio_cmd_stop_io e mem (sd_dev_id ?s)) a1 = Some (r, a2)" and a2: "cmd_frame a1 a2"
    by (auto simp: safe_def)
  define a3 where "a3 = (if so \<or> si then a2 else a1)"
  have a3: "bce_ok (a_bcem a3)" "a_subdevice_list a3 = (a_subdevice_list a)[k := x]"
    using a1 a2 by (simp_all add: a3_def cmd_frame_def)
  have "quiesce_sdev env p k a = Some (if p \<and> sd_pcm ?s \<noteq> None then upd_sdev k suspend_all a3 else a3)"
    unfolding quiesce_sdev_def Let_def o i prod.case a1_def [symmetric] r bind.bind_lunit a3_def
    by (cases "so \<or> si") (simp_all only: if_True if_False simp_thms bind.bind_lunit)
  then show ?thesis using a3 q k by (auto simp: upd_sdev_def)
qed

lemma quiesce_loop_quiet:
  assumes s: "script_ok env" and "bce_ok (a_bcem a)" and "n \<le> length (a_subdevice_list a)"
  shows "safe (\<lambda>a'. bce_ok (a_bcem a') \<and> length (a_subdevice_list a') = length (a_subdevice_list a)
    \<and> (\<forall>j < length (a_subdevice_list a). if j < length (a_subdevice_list a) - n then a_subdevice_list a' ! j = a_subdevice_list a ! j
         else quiet (a_subdevice_list a ! j) (a_subdevice_list a' ! j)))
    (quiesce_loop env p [length (a_subdevice_list a) - n..<length (a_subdevice_list a)] a)"
  using assms(2,3)
proof (induction n arbitrary: a)
  case 0
  then show ?case by simp
next
  case (Suc n)
  let ?l = "length (a_subdevice_list a)" let ?k = "?l - Suc n"
  have k: "?k < ?l" "Suc ?k = ?l - n" using Suc.prems(2) by simp_all
  then have list: "[?k..<?l] = ?k # [?l - n..<?l]" by (metis upt_conv_Cons)
  obtain a1 x where a1: "quiesce_sdev env p ?k a = Some a1" "bce_ok (a_bcem a1)" "quiet (a_subdevice_list a ! ?k) x"
    "a_subdevice_list a1 = (a_subdevice_list a)[?k := x]"
    using quiesce_sdev_quiet [OF s Suc.prems(1) k(1), of p] by (auto simp: safe_def)
  have l1: "length (a_subdevice_list a1) = ?l" using a1(4) by simp
  have n1: "n \<le> length (a_subdevice_list a1)" using Suc.prems(2) by (simp add: l1)
  from Suc.IH [OF a1(2) n1]
  show ?case
    unfolding list quiesce_loop.simps a1(1) bind.bind_lunit l1
  proof (rule safe_mono, elim conjE, intro conjI allI impI)
    fix a' j
    assume h: "\<forall>j < ?l. if j < ?l - n then a_subdevice_list a' ! j = a_subdevice_list a1 ! j
        else quiet (a_subdevice_list a1 ! j) (a_subdevice_list a' ! j)" and j: "j < ?l"
    have at: "a_subdevice_list a1 ! j = (if j = ?k then x else a_subdevice_list a ! j)"
      using a1(4) k(1) j by (simp add: nth_list_update eq_commute)
    have m: "j < ?l - n \<longleftrightarrow> j < ?k \<or> j = ?k" using k(2) by linarith
    have "if j < ?l - n then a_subdevice_list a' ! j = a_subdevice_list a1 ! j
        else quiet (a_subdevice_list a1 ! j) (a_subdevice_list a' ! j)" using h j by blast
    then show "if j < ?k then a_subdevice_list a' ! j = a_subdevice_list a ! j
        else quiet (a_subdevice_list a ! j) (a_subdevice_list a' ! j)"
      unfolding m at using a1(3) by (cases "j < ?k"; cases "j = ?k") simp_all
  qed
qed


section \<open>Examples\<close>

definition ex_bs_device :: aaudio_buffer_struct_device where
  "ex_bs_device = \<lparr>bd_name = str ''Speaker'', bd_num_input_streams = 0, bd_num_output_streams = 1,
     bd_input_streams = replicate 5 \<lparr>bt_num_buffers = 0, bt_buffers = replicate 100 \<lparr>bb_address = 0, bb_size = 0\<rparr>\<rparr>,
     bd_output_streams = replicate 5 \<lparr>bt_num_buffers = 1, bt_buffers = replicate 100 \<lparr>bb_address = 64, bb_size = 0x20800\<rparr>\<rparr>\<rparr>"

definition ex_bs :: aaudio_buffer_struct where
  "ex_bs = \<lparr>bs_version = 3, bs_signature = AAUDIO_SIG, bs_flags = 0, bs_num_devices = 1, bs_devices = replicate 20 ex_bs_device\<rparr>"

definition ex_sdev :: aaudio_subdevice where
  "ex_sdev = set_uid (str ''Speaker'') (zero_sdev\<lparr>sd_dev_id := 5, sd_buf_id := AAUDIO_BUFFER_ID_NONE, sd_out_stream_cnt := 1,
     sd_out_streams := [zero_stream\<lparr>st_id := 7, st_desc := ex_desc, st_started := True\<rparr>], sd_is_pcm := True\<rparr>)"

definition ex_adev :: aaudio_device where
  "ex_adev = \<lparr>a_reg_mem_bs = 0x1000, a_reg_mem_bs_dma = 0x8000, a_bs = ex_bs, a_bcem = ex_audio, a_subdevice_list = [ex_sdev],
     a_next_alsa_id = 100, a_remote_alive = False, a_works = [], a_mixer = [], a_calls = 0\<rparr>"

text \<open>Every command is answered by the message \<open>m\<close>, if it has the tag of the command, and times out otherwise.\<close>

definition ex_reply_env :: "aaudio_msg \<Rightarrow> acmd_env" where
  "ex_reply_env m = \<lparr>ae_reserve = [], ae_wait = (\<lambda>b. case aaudio_handle_reply parse3 m b of Some b' \<Rightarrow> b' | None \<Rightarrow> b),
     ae_relock = (\<lambda>b. b), ae_entry = 9\<rparr>"

definition ex_env :: aaudio_env where
  "ex_env = \<lparr>ax_cmd = (\<lambda>k. ex_reply_env ex_answer), ax_mem = (\<lambda>k. Some (replicate 0x1000 0)), ax_alive_ws = [],
     ax_alive_wait = (\<lambda>a. a\<lparr>a_remote_alive := True\<rparr>), ax_list_mem = Some (replicate 0x1000 0),
     ax_dev_mem = (\<lambda>d. Some (replicate 0x1000 0)), ax_ctl_mem = (\<lambda>d. Some (replicate 0x1000 0)), ax_kzalloc_sdev = (\<lambda>d. True),
     ax_snd_pcm_new = (\<lambda>d. 0), ax_snd_jack_new = (\<lambda>d. True), ax_snd_ctl_add = (\<lambda>c. True), ax_kmalloc_buffers = (\<lambda>i s. True),
     ax_hw_mem = (\<lambda>s. Some ex_hw), ax_dma = (\<lambda>s. Some (0x9000, 0x4000)), ax_rate_bit = (\<lambda>r. 1),
     ax_gpr = (\<lambda>i. if i = 0 then 3 else if i = 1 then AAUDIO_SIG else 0), ax_bs_at = (\<lambda>off. ex_bs)\<rparr>"

lemma ex_bce_ok: "bce_ok ex_audio"
  by (simp add: bce_ok_def qout_ok_def ex_audio_def ex_aqueue_def in_queue_init_def)

lemma ex_script_ok: "script_ok ex_env"
proof -
  have "length (am_data ex_answer) = 0x1000" by (simp add: ex_answer_def tag_bytes_def)
  then have "cmd_env_ok (ex_reply_env ex_answer)"
    using handle_reply_bce_ok by (auto simp: cmd_env_ok_def ex_reply_env_def split: option.splits)
  then show ?thesis by (simp add: script_ok_def ex_env_def mem_ok_def)
qed

definition ex_ts_msg :: aaudio_msg where
  "ex_ts_msg = \<lparr>am_data = (let w = wire (tag_bytes 3) 1 5 4 0 (u64_bytes 77 @ u64_bytes 1) in w @ replicate (0x1000 - length w) 0),
     am_size = 37\<rparr>"

theorem device_messages_safe_witness:
  "\<exists>a'. device_handle_msg parse3 [] True 1234 ex_ts_msg (Some ex_adev) = Some a'
     \<and> list_all2 same_sdev (a_subdevice_list ex_adev) (a_subdevice_list a')"
proof -
  have "transport_ok Map.empty (a_bcem ex_adev)"
    using ex_bce_ok by (simp add: transport_ok_def bce_ok_def ex_adev_def ex_audio_def pending_inv_init)
  moreover have "length (am_data ex_ts_msg) = 0x1000"
    by (simp add: ex_ts_msg_def Let_def wire_def tag_bytes_def)
  ultimately show ?thesis using device_messages_safe by blast
qed

theorem init_cmd_safe_witness:
  "\<exists>st a' new. aaudio_init_cmd ex_env ex_adev = Some (st, a') \<and> a_subdevice_list a' = ex_sdev # new \<and> list_all fresh_sdev new"
proof -
  have w: "bce_ok (a_bcem (ax_alive_wait ex_env x)) \<and> a_subdevice_list (ax_alive_wait ex_env x) = a_subdevice_list x"
    if "bce_ok (a_bcem x)" for x using that by (simp add: ex_env_def)
  have "bce_ok (a_bcem ex_adev)" "a_subdevice_list ex_adev = [ex_sdev]" using ex_bce_ok by (simp_all add: ex_adev_def)
  with init_cmd_safe [OF ex_script_ok _ w, of ex_adev] show ?thesis by auto
qed

lemma ex_init_bs:
  "\<exists>a' h. aaudio_init_bs ex_env ex_adev = Some (0, a') \<and> length (a_subdevice_list a') = 1
     \<and> sd_out_streams (a_subdevice_list a' ! 0) = [zero_stream\<lparr>st_id := 7, st_desc := ex_desc, st_started := True, st_buffer_cnt := 1,
         st_buffers := Some [\<lparr>db_dma_addr = 0x8040, db_ptr = 0x1040, db_size = 0x20800\<rparr>], st_alsa_hw_desc := Some h\<rparr>]"
proof -
  have find: "cstr (str ''Speaker'') = cstr (sd_uid ex_sdev)" by (simp add: cstr_def str_def ex_sdev_def set_uid_def)
  have hw: "\<exists>h. aaudio_create_hw_info (\<lambda>r. 1) ex_desc ex_hw 0x20800 = Some (0, h)"
  proof -
    have "aaudio_create_hw_info (\<lambda>r. 1) ex_desc ex_hw 0x20800 \<noteq> None"
      "fst (the (aaudio_create_hw_info (\<lambda>r. 1) ex_desc ex_hw 0x20800)) = 0" by code_simp+
    then show ?thesis by auto
  qed
  then obtain h where h: "aaudio_create_hw_info (\<lambda>r. 1) ex_desc ex_hw 0x20800 = Some (0, h)" by blast
  have sd: "sd_out_stream_cnt ex_sdev = 1" "sd_in_stream_cnt ex_sdev = 0" "sd_buf_id ex_sdev = 0xff"
    "sd_out_streams ex_sdev = [zero_stream\<lparr>st_id := 7, st_desc := ex_desc, st_started := True\<rparr>]"
    by (simp_all add: ex_sdev_def set_uid_def zero_sdev_def)
  have env: "ax_gpr ex_env 0 = 3" "ax_gpr ex_env (Suc 0) = AAUDIO_SIG" "ax_bs_at ex_env x = ex_bs" "ax_kmalloc_buffers ex_env i y"
    "ax_hw_mem ex_env y = Some ex_hw" "ax_rate_bit ex_env = (\<lambda>r. 1)" for x y i
    by (simp_all add: ex_env_def)
  have bs: "bs_signature ex_bs = AAUDIO_SIG" "bs_num_devices ex_bs = 1" "bs_devices ex_bs = replicate 20 ex_bs_device"
    "bd_name ex_bs_device = str ''Speaker''" "bd_num_output_streams ex_bs_device = 1"
    "bd_output_streams ex_bs_device = replicate 5 \<lparr>bt_num_buffers = 1, bt_buffers = replicate 100 \<lparr>bb_address = 64, bb_size = 0x20800\<rparr>\<rparr>"
    by (simp_all add: ex_bs_def ex_bs_device_def)
  have a: "a_subdevice_list ex_adev = [ex_sdev]" "a_reg_mem_bs ex_adev = 0x1000" "a_reg_mem_bs_dma ex_adev = 0x8000"
    by (simp_all add: ex_adev_def)
  show ?thesis
    using find h
    by (simp add: aaudio_init_bs_def arr_get_def arr_set_def Let_def aaudio_find_dev_by_uid_def set_bs_device_def upd_sdev_def
      sd env bs a aaudio_init_bs_stream_def alloc_hw_info_def put_pcm_stream_def zero_stream_def)
qed



end
