(* ===== verification/Audio_Probe.thy ===== *)
theory Audio_Probe
  imports Audio_Streams "HOL-Library.Multiset"
begin

text \<open>
  Releasing a subdevice, and the probe and the removal of the audio function as sequences of acquisitions
  and releases: \<open>src/audio/audio.c\<close>.
\<close>

section \<open>Releasing a subdevice\<close>

text \<open>
  What a subdevice owns beside itself: for each stream, named by its direction and place, the hardware
  description, the list of buffers and, for a buffer that the host allocated, the coherent memory.
\<close>

datatype stream_memory =
    M_hw_desc bool nat
  | M_buffers bool nat
  | M_coherent bool nat u64 u64 u64

text \<open>\<open>kfree\<close> of a pointer that may be NULL.\<close>

definition kfree_ptr :: "'a \<Rightarrow> 'b option \<Rightarrow> 'a list" where
  "kfree_ptr r p = (case p of None \<Rightarrow> [] | Some x \<Rightarrow> [r])"

definition free_in_stream :: "nat \<Rightarrow> aaudio_stream \<Rightarrow> stream_memory list option" where
  "free_in_stream i st =
     (case st_buffers st of
        None \<Rightarrow> Some (kfree_ptr (M_hw_desc False i) (st_alsa_hw_desc st))
      | Some bufs \<Rightarrow>
          if st_host_allocated st then
            (case bufs of
               [] \<Rightarrow> None
             | b # bs \<Rightarrow> Some (kfree_ptr (M_hw_desc False i) (st_alsa_hw_desc st)
                 @ [M_coherent False i (db_size b) (db_ptr b) (db_dma_addr b), M_buffers False i]))
          else Some (kfree_ptr (M_hw_desc False i) (st_alsa_hw_desc st) @ [M_buffers False i]))"

definition free_out_stream :: "nat \<Rightarrow> aaudio_stream \<Rightarrow> stream_memory list" where
  "free_out_stream i st = kfree_ptr (M_hw_desc True i) (st_alsa_hw_desc st) @ kfree_ptr (M_buffers True i) (st_buffers st)"

fun free_ins :: "nat list \<Rightarrow> aaudio_stream list \<Rightarrow> stream_memory list option" where
  "free_ins [] ss = Some []"
| "free_ins (i # is) ss = do {
     st \<leftarrow> arr_get ss i;
     m \<leftarrow> free_in_stream i st;
     ms \<leftarrow> free_ins is ss;
     Some (m @ ms)
   }"

fun free_outs :: "nat list \<Rightarrow> aaudio_stream list \<Rightarrow> stream_memory list option" where
  "free_outs [] ss = Some []"
| "free_outs (i # is) ss = do {
     st \<leftarrow> arr_get ss i;
     ms \<leftarrow> free_outs is ss;
     Some (free_out_stream i st @ ms)
   }"

text \<open>The releases in order, and whether the timestamp work is still queued afterwards.\<close>

definition aaudio_free_dev :: "aaudio_subdevice \<Rightarrow> (stream_memory list \<times> bool) option" where
  "aaudio_free_dev sdev = do {
     let sdev1 = sdev\<lparr>sd_ts_work := False\<rparr>;
     i \<leftarrow> free_ins [0..<sd_in_stream_cnt sdev1] (sd_in_streams sdev1);
     j \<leftarrow> free_outs [0..<sd_out_stream_cnt sdev1] (sd_out_streams sdev1);
     Some (i @ j, sd_ts_work sdev1)
   }"

text \<open>What a stream owns, by its fields; a playback stream uses memory of the device.\<close>

definition owned_by :: "bool \<Rightarrow> nat \<Rightarrow> aaudio_stream \<Rightarrow> stream_memory list" where
  "owned_by out i st = kfree_ptr (M_hw_desc out i) (st_alsa_hw_desc st) @ kfree_ptr (M_buffers out i) (st_buffers st)
     @ (case st_buffers st of Some (b # bs) \<Rightarrow> if st_host_allocated st then [M_coherent out i (db_size b) (db_ptr b) (db_dma_addr b)] else []
        | _ \<Rightarrow> [])"

definition owned :: "aaudio_subdevice \<Rightarrow> stream_memory multiset" where
  "owned s = mset (concat (map (\<lambda>i. owned_by False i (sd_in_streams s ! i)) [0..<length (sd_in_streams s)])
     @ concat (map (\<lambda>i. owned_by True i (sd_out_streams s ! i)) [0..<length (sd_out_streams s)]))"

text \<open>
  The streams of a subdevice: those behind the count own nothing, the coherent memory goes with a buffer,
  and only capture streams have it.
\<close>

definition memory_ok :: "aaudio_subdevice \<Rightarrow> bool" where
  "memory_ok s \<longleftrightarrow> sd_in_stream_cnt s \<le> length (sd_in_streams s) \<and> sd_out_stream_cnt s \<le> length (sd_out_streams s)
     \<and> (\<forall>i < length (sd_in_streams s). (sd_in_stream_cnt s \<le> i \<longrightarrow> owned_by False i (sd_in_streams s ! i) = [])
         \<and> (st_host_allocated (sd_in_streams s ! i) \<longrightarrow> st_buffers (sd_in_streams s ! i) \<noteq> Some []))
     \<and> (\<forall>i < length (sd_out_streams s). (sd_out_stream_cnt s \<le> i \<longrightarrow> owned_by True i (sd_out_streams s ! i) = [])
         \<and> \<not> st_host_allocated (sd_out_streams s ! i))"

lemma free_ins_owned:
  assumes "\<forall>i \<in> set is. i < length ss \<and> (st_host_allocated (ss ! i) \<longrightarrow> st_buffers (ss ! i) \<noteq> Some [])"
  shows "\<exists>m. free_ins is ss = Some m \<and> mset m = mset (concat (map (\<lambda>i. owned_by False i (ss ! i)) is))"
  using assms
proof (induction "is")
  case (Cons i "is")
  have "\<exists>m. free_in_stream i (ss ! i) = Some m \<and> mset m = mset (owned_by False i (ss ! i))"
    using Cons.prems by (auto simp: free_in_stream_def owned_by_def kfree_ptr_def split: option.splits list.splits)
  with Cons show ?case by (auto simp: arr_get_def)
qed simp

lemma free_outs_owned:
  assumes "\<forall>i \<in> set is. i < length ss \<and> \<not> st_host_allocated (ss ! i)"
  shows "\<exists>m. free_outs is ss = Some m \<and> mset m = mset (concat (map (\<lambda>i. owned_by True i (ss ! i)) is))"
  using assms
proof (induction "is")
  case (Cons i "is")
  have "mset (free_out_stream i (ss ! i)) = mset (owned_by True i (ss ! i))"
    using Cons.prems by (auto simp: free_out_stream_def owned_by_def kfree_ptr_def split: option.splits list.splits)
  with Cons show ?case by (auto simp: arr_get_def)
qed simp

lemma concat_owned_prefix:
  assumes "n \<le> m" and "\<forall>i < m. n \<le> i \<longrightarrow> f i = []"
  shows "concat (map f [0..<m]) = concat (map f [0..<n])"
proof -
  have "[0..<m] = [0..<n] @ [n..<m]" using assms(1) by (metis le_add_diff_inverse upt_add_eq_append zero_le)
  moreover have "concat (map f [n..<m]) = []" using assms(2) by simp
  ultimately show ?thesis by simp
qed

lemma free_dev_releases_owned:
  assumes "memory_ok s"
  shows "\<exists>m. aaudio_free_dev s = Some (m, False) \<and> mset m = owned s"
proof -
  obtain i where i: "free_ins [0..<sd_in_stream_cnt s] (sd_in_streams s) = Some i"
    "mset i = mset (concat (map (\<lambda>i. owned_by False i (sd_in_streams s ! i)) [0..<sd_in_stream_cnt s]))"
    using free_ins_owned [of "[0..<sd_in_stream_cnt s]" "sd_in_streams s"] assms by (auto simp: memory_ok_def)
  obtain j where j: "free_outs [0..<sd_out_stream_cnt s] (sd_out_streams s) = Some j"
    "mset j = mset (concat (map (\<lambda>i. owned_by True i (sd_out_streams s ! i)) [0..<sd_out_stream_cnt s]))"
    using free_outs_owned [of "[0..<sd_out_stream_cnt s]" "sd_out_streams s"] assms by (auto simp: memory_ok_def)
  have "concat (map (\<lambda>i. owned_by False i (sd_in_streams s ! i)) [0..<length (sd_in_streams s)])
      = concat (map (\<lambda>i. owned_by False i (sd_in_streams s ! i)) [0..<sd_in_stream_cnt s])"
    using assms by (intro concat_owned_prefix) (auto simp: memory_ok_def)
  moreover have "concat (map (\<lambda>i. owned_by True i (sd_out_streams s ! i)) [0..<length (sd_out_streams s)])
      = concat (map (\<lambda>i. owned_by True i (sd_out_streams s ! i)) [0..<sd_out_stream_cnt s])"
    using assms by (intro concat_owned_prefix) (auto simp: memory_ok_def)
  ultimately have "mset (i @ j) = owned s" using i(2) j(2) by (simp only: owned_def mset_append)
  then show ?thesis using i(1) j(1) by (simp add: aaudio_free_dev_def Let_def)
qed

lemma fresh_memory_ok: "fresh_sdev s \<Longrightarrow> memory_ok s"
  by (auto simp: fresh_sdev_def wf_sdev_def memory_ok_def no_buffers_def list_all_length owned_by_def kfree_ptr_def)

text \<open>Setting up a stream inside the count gives it memory in the way that the release expects.\<close>

lemma put_memory_ok:
  assumes "memory_ok s"
    and "out \<Longrightarrow> i < sd_out_stream_cnt s \<and> \<not> st_host_allocated st"
    and "\<not> out \<Longrightarrow> i < sd_in_stream_cnt s \<and> (st_host_allocated st \<longrightarrow> st_buffers st \<noteq> Some [])"
  shows "memory_ok (put_pcm_stream out i st s)"
  using assms by (cases out) (auto simp: memory_ok_def put_pcm_stream_def nth_list_update)

lemma bs_stream_host_allocated:
  "aaudio_init_bs_stream env i a st bst = Some st' \<Longrightarrow> st_host_allocated st' = st_host_allocated st"
  by (auto simp: aaudio_init_bs_stream_def Let_def bind_eq_Some_conv split: if_splits)

lemma bs_host_buffers:
  "aaudio_init_bs_stream_host env i st bst = Some (st', bst') \<Longrightarrow> st_host_allocated st \<longrightarrow> st_buffers st \<noteq> Some []
    \<Longrightarrow> st_buffers st' \<noteq> Some [] \<or> \<not> st_host_allocated st'"
  by (auto simp: aaudio_init_bs_stream_host_def Let_def bind_eq_Some_conv split: option.splits if_splits)

interpretation memory: bs_keeps "\<lambda>_. memory_ok"
proof (unfold_locales, goal_cases)
  case (1 env s x)
  then show ?case by (simp add: memory_ok_def)
next
  case (2 env s j st i a bst st')
  then have "\<not> st_host_allocated st" by (auto simp: memory_ok_def arr_get_def split: if_splits)
  with 2 show ?case by (intro put_memory_ok) (simp_all add: bs_stream_host_allocated)
next
  case (3 env s st i bst st' bst')
  then have "st_host_allocated st \<longrightarrow> st_buffers st \<noteq> Some []" by (auto simp: memory_ok_def arr_get_def split: if_splits)
  with 3 show ?case using bs_host_buffers by (intro put_memory_ok) auto
qed




section \<open>Probe and remove\<close>

text \<open>
  What the probe of the audio function acquires. The events of a probe list acquisitions and releases in
  order; the transport counts as acquired when its initialisation begins, since \<open>aaudio_bce_free\<close> releases
  one that is incomplete, too. A subdevice is named by its place in the list.
\<close>

datatype audio_resource =
    A_enabled | A_regions | A_aaudio | A_device | A_reg_mem_bs | A_reg_mem_cfg | A_bcem | A_card
  | A_sdev nat

datatype audio_event = A_acq audio_resource | A_rel audio_resource

record aprobe_env =
  aq_enable :: int
  aq_regions :: int
  aq_kzalloc :: bool
  aq_global_bce :: bool
  aq_device_create :: int
  aq_iomap_bs :: bool
  aq_iomap_cfg :: bool
  aq_bce_init :: int
  aq_card_new :: int
  aq_card_register :: int

text \<open>The pointers that the error path looks at.\<close>

record aprobe_ptrs =
  ar_aaudio :: bool
  ar_sdevs :: nat
  ar_bs :: bool
  ar_cfg :: bool
  ar_dev :: bool

definition a_fail :: "aprobe_ptrs \<Rightarrow> audio_event list" where
  "a_fail p =
     (if ar_aaudio p then
        map (\<lambda>k. A_rel (A_sdev k)) [0..<ar_sdevs p]
        @ (if ar_bs p then [A_rel A_reg_mem_bs] else []) @ (if ar_cfg p then [A_rel A_reg_mem_cfg] else [])
        @ (if ar_dev p then [A_rel A_device] else []) @ [A_rel A_aaudio]
      else [])
     @ [A_rel A_regions, A_rel A_enabled]"

definition a_fail_bce :: "aprobe_ptrs \<Rightarrow> audio_event list" where
  "a_fail_bce p = A_rel A_bcem # a_fail p"

definition a_fail_snd :: "aprobe_ptrs \<Rightarrow> audio_event list" where
  "a_fail_snd p = A_rel A_card # a_fail_bce p"

definition a_status :: "int \<Rightarrow> int" where
  "a_status st = (if st = 0 then - EINVAL else st)"

definition acq_sdevs :: "aaudio_device \<Rightarrow> audio_event list" where
  "acq_sdevs a = map (\<lambda>k. A_acq (A_sdev k)) [0..<length (a_subdevice_list a)]"

text \<open>
  From the creation of the card on. \<open>a\<close> is the device with its transport set up. The statuses of
  \<open>aaudio_init_cmd\<close> and \<open>aaudio_init_bs\<close> are not passed on: the probe returns \<open>-EINVAL\<close>.
\<close>

definition aprobe_card :: "aprobe_env \<Rightarrow> aaudio_env \<Rightarrow> aprobe_ptrs \<Rightarrow> aaudio_device
    \<Rightarrow> (int \<times> audio_event list \<times> aaudio_device) option" where
  "aprobe_card e env p a = do {
     (st1, a1) \<leftarrow> aaudio_init_cmd env (a\<lparr>a_next_alsa_id := 100\<rparr>);
     let p1 = p\<lparr>ar_sdevs := length (a_subdevice_list a1)\<rparr>;
     let ev = A_acq A_card # acq_sdevs a1;
     if st1 \<noteq> 0 then Some (a_status 0, ev @ a_fail_snd p1, a1)
     else do {
       (st2, a2) \<leftarrow> aaudio_init_bs env a1;
       if st2 \<noteq> 0 then Some (a_status 0, ev @ a_fail_snd p1, a2)
       else do {
         (r, a3) \<leftarrow> a_cmd env (\<lambda>e mem. aaudio_cmd_set_remote_access e mem AAUDIO_REMOTE_ACCESS_ON) a2;
         case r of
           Inl st3 \<Rightarrow> Some (a_status st3, ev @ a_fail_snd p1, a3)
         | Inr x \<Rightarrow>
             if aq_card_register e \<noteq> 0 then Some (a_status 0, ev @ a_fail_snd p1, a3)
             else Some (0, ev, a3)
       }
     }
   }"

definition aaudio_probe :: "aprobe_env \<Rightarrow> aaudio_env \<Rightarrow> aaudio_device
    \<Rightarrow> (int \<times> audio_event list \<times> aaudio_device) option" where
  "aaudio_probe e env a =
     (let none = \<lparr>ar_aaudio = False, ar_sdevs = 0, ar_bs = False, ar_cfg = False, ar_dev = False\<rparr>;
          p = none\<lparr>ar_aaudio := True\<rparr>
      in if aq_enable e \<noteq> 0 then Some (- ENODEV, [], a)
         else if aq_regions e \<noteq> 0 then Some (a_status (- ENODEV), A_acq A_enabled # a_fail none, a)
         else if \<not> aq_kzalloc e then Some (a_status (- ENOMEM), [A_acq A_enabled, A_acq A_regions] @ a_fail none, a)
         else
           let ev = [A_acq A_enabled, A_acq A_regions, A_acq A_aaudio] in
           if \<not> aq_global_bce e then Some (a_status (- EINVAL), ev @ a_fail p, a)
           else if aq_device_create e \<noteq> 0 then Some (a_status (aq_device_create e), ev @ a_fail p, a)
           else
             let p1 = p\<lparr>ar_dev := True, ar_bs := aq_iomap_bs e, ar_cfg := aq_iomap_cfg e\<rparr>;
                 ev1 = ev @ [A_acq A_device] @ (if aq_iomap_bs e then [A_acq A_reg_mem_bs] else [])
                   @ (if aq_iomap_cfg e then [A_acq A_reg_mem_cfg] else [])
             in if \<not> aq_iomap_bs e \<or> \<not> aq_iomap_cfg e then Some (a_status 0, ev1 @ a_fail p1, a)
                else
                  let ev2 = ev1 @ [A_acq A_bcem] in
                  if aq_bce_init e \<noteq> 0 then Some (a_status 0, ev2 @ a_fail_bce p1, a)
                  else if aq_card_new e \<noteq> 0 then Some (a_status 0, ev2 @ a_fail_bce p1, a)
                  else map_option (\<lambda>(st, ev3, a'). (st, ev2 @ ev3, a')) (aprobe_card e env p1 a))"

text \<open>
  The driver name of the card at the end of a probe is \<open>AppleT2x\<close> with the number of channels of the speaker.
  The result is that number: the last one of the list, \<open>None\<close> without a speaker. The outer \<open>None\<close> is a fault.
\<close>

fun card_driver :: "aaudio_buffer_struct_device list \<Rightarrow> aaudio_subdevice list \<Rightarrow> u32 option \<Rightarrow> u32 option option" where
  "card_driver devs [] name = Some name"
| "card_driver devs (sdev # sdevs) name =
     (let i = unat (sd_buf_id sdev) in
      if length devs \<le> i then card_driver devs sdevs name
      else if sd_out_stream_cnt sdev = 1 \<and> cstr (bd_name (devs ! i)) = str ''Speaker'' then do {
        strm \<leftarrow> arr_get (sd_out_streams sdev) 0;
        card_driver devs sdevs (case st_alsa_hw_desc strm of None \<Rightarrow> name | Some hw \<Rightarrow> Some (hw_channels_min hw))
      }
      else card_driver devs sdevs name)"

lemma card_driver_total: "list_all (\<lambda>s. sd_out_stream_cnt s \<le> length (sd_out_streams s)) ss \<Longrightarrow> \<exists>n. card_driver devs ss name = Some n"
  by (induction ss arbitrary: name) (auto simp: arr_get_def Let_def)

definition aaudio_remove :: "aaudio_device \<Rightarrow> audio_event list" where
  "aaudio_remove a =
     [A_rel A_card] @ map (\<lambda>k. A_rel (A_sdev k)) [0..<length (a_subdevice_list a)]
     @ [A_rel A_bcem, A_rel A_reg_mem_bs, A_rel A_reg_mem_cfg, A_rel A_device, A_rel A_regions, A_rel A_enabled, A_rel A_aaudio]"

section \<open>What is acquired is released\<close>

text \<open>Replaying events: an acquisition of what is held and a release of what is not held are faults.\<close>

fun a_replay :: "audio_event list \<Rightarrow> audio_resource set \<Rightarrow> audio_resource set option" where
  "a_replay [] h = Some h"
| "a_replay (A_acq r # es) h = (if r \<in> h then None else a_replay es (insert r h))"
| "a_replay (A_rel r # es) h = (if r \<in> h then a_replay es (h - {r}) else None)"

lemma a_replay_append:
  "a_replay (xs @ ys) h = (case a_replay xs h of None \<Rightarrow> None | Some h' \<Rightarrow> a_replay ys h')"
  by (induction xs h rule: a_replay.induct) auto

lemma a_replay_acq:
  "distinct rs \<Longrightarrow> set rs \<inter> h = {} \<Longrightarrow> a_replay (map A_acq rs) h = Some (h \<union> set rs)"
  by (induction rs arbitrary: h) auto

lemma a_replay_rel:
  "distinct rs \<Longrightarrow> set rs \<subseteq> h \<Longrightarrow> a_replay (map A_rel rs) h = Some (h - set rs)"
proof (induction rs arbitrary: h)
  case (Cons r rs)
  then have "a_replay (map A_rel rs) (h - {r}) = Some (h - {r} - set rs)" by (intro Cons.IH) auto
  with Cons.prems show ?case by auto
qed simp

definition sdev_set :: "nat \<Rightarrow> audio_resource set" where
  "sdev_set n = A_sdev ` {0..<n}"

definition base_held :: "audio_resource set" where
  "base_held = {A_enabled, A_regions, A_aaudio, A_device, A_reg_mem_bs, A_reg_mem_cfg, A_bcem}"

text \<open>What a successful probe holds.\<close>

definition aprobe_held :: "nat \<Rightarrow> audio_resource set" where
  "aprobe_held n = insert A_card (base_held \<union> sdev_set n)"

lemma sdev_maps:
  "map (\<lambda>k. A_acq (A_sdev k)) ks = map A_acq (map A_sdev ks)" "map (\<lambda>k. A_rel (A_sdev k)) ks = map A_rel (map A_sdev ks)"
  by simp_all

lemma sdev_list: "distinct (map A_sdev [0..<n])" "set (map A_sdev [0..<n]) = sdev_set n"
  by (simp_all add: distinct_map inj_on_def sdev_set_def)

lemma sdev_disjoint: "r \<in> insert A_card base_held \<Longrightarrow> r \<notin> sdev_set n"
  by (auto simp: base_held_def sdev_set_def)

lemma acq_sdevs_replay:
  "a_replay (acq_sdevs a) (insert A_card base_held) = Some (aprobe_held (length (a_subdevice_list a)))"
proof -
  have "set (map A_sdev [0..<length (a_subdevice_list a)]) \<inter> insert A_card base_held = {}"
    using sdev_disjoint unfolding sdev_list(2) by blast
  from a_replay_acq [OF sdev_list(1) this]
  show ?thesis unfolding acq_sdevs_def sdev_maps sdev_list(2) aprobe_held_def by simp
qed

lemma rel_sdevs_replay:
  assumes "sdev_set n \<subseteq> h"
  shows "a_replay (map (\<lambda>k. A_rel (A_sdev k)) [0..<n] @ es) h = a_replay es (h - sdev_set n)"
proof -
  have "a_replay (map A_rel (map A_sdev [0..<n])) h = Some (h - sdev_set n)"
    using a_replay_rel [OF sdev_list(1), of n h] assms by (simp only: sdev_list(2))
  then show ?thesis by (simp add: a_replay_append sdev_maps del: map_map)
qed

lemma fail_snd_replay:
  assumes "ar_aaudio p" "ar_bs p" "ar_cfg p" "ar_dev p"
  shows "a_replay (a_fail_snd p) (aprobe_held (ar_sdevs p)) = Some {}"
proof -
  have held: "aprobe_held n - {A_card} - {A_bcem} - sdev_set n
      = {A_enabled, A_regions, A_aaudio, A_device, A_reg_mem_bs, A_reg_mem_cfg}" for n
    by (auto simp: aprobe_held_def base_held_def sdev_set_def)
  have sub: "sdev_set n \<subseteq> aprobe_held n - {A_card} - {A_bcem}" for n
    by (auto simp: aprobe_held_def sdev_set_def)
  have "a_replay (a_fail p) (aprobe_held (ar_sdevs p) - {A_card} - {A_bcem}) = Some {}"
    using assms by (simp add: a_fail_def rel_sdevs_replay [OF sub] held) auto
  then show ?thesis by (simp add: a_fail_snd_def a_fail_bce_def aprobe_held_def base_held_def)
qed

lemma a_status_nonzero [simp]: "a_status st \<noteq> 0"
  by (simp add: a_status_def)

lemma a_cmd_list: "a_cmd env f a = Some (r, a') \<Longrightarrow> a_subdevice_list a' = a_subdevice_list a"
  by (auto simp: a_cmd_def Let_def split: prod.splits rd.splits)

lemma probe_card_replay:
  assumes "aprobe_card e env p a = Some (st, evs, a')" and "ar_aaudio p" "ar_bs p" "ar_cfg p" "ar_dev p"
  shows "a_replay evs base_held = Some (if st = 0 then aprobe_held (length (a_subdevice_list a')) else {})"
proof -
  have card: "A_card \<notin> base_held" by (simp add: base_held_def)
  have fail: "a_replay ((A_acq A_card # acq_sdevs x) @ a_fail_snd (p\<lparr>ar_sdevs := length (a_subdevice_list x)\<rparr>)) base_held = Some {}" for x
    using fail_snd_replay [of "p\<lparr>ar_sdevs := length (a_subdevice_list x)\<rparr>"] assms(2-)
    by (simp add: a_replay_append card acq_sdevs_replay)
  have ok: "a_replay (A_acq A_card # acq_sdevs x) base_held = Some (aprobe_held (length (a_subdevice_list x)))" for x
    by (simp add: card acq_sdevs_replay)
  obtain st1 a1 where c1: "aaudio_init_cmd env (a\<lparr>a_next_alsa_id := 100\<rparr>) = Some (st1, a1)"
    using assms(1) by (auto simp: aprobe_card_def bind_eq_Some_conv)
  define ev where "ev = A_acq A_card # acq_sdevs a1"
  define fl where "fl = a_fail_snd (p\<lparr>ar_sdevs := length (a_subdevice_list a1)\<rparr>)"
  note rep = fail [of a1, folded ev_def fl_def] ok [of a1, folded ev_def]
  note run = assms(1) [unfolded aprobe_card_def c1 Let_def, simplified, folded ev_def fl_def]
  show ?thesis
  proof (cases "st1 = 0")
    case False
    then show ?thesis using run rep by (auto simp: ev_def fl_def)
  next
    case True
    then obtain st2 a2 where c2: "aaudio_init_bs env a1 = Some (st2, a2)"
      using run by (auto simp: bind_eq_Some_conv)
    note run2 = run [unfolded True c2, simplified]
    show ?thesis
    proof (cases "st2 = 0")
      case False
      then show ?thesis using run2 rep by (auto simp: ev_def fl_def)
    next
      case True
      then obtain r a3 where c3: "a_cmd env (\<lambda>e mem. aaudio_cmd_set_remote_access e mem AAUDIO_REMOTE_ACCESS_ON) a2 = Some (r, a3)"
        using run2 by (auto simp: bind_eq_Some_conv)
      have len: "length (a_subdevice_list a3) = length (a_subdevice_list a1)"
        using memory.init_bs_keeps(2) [OF c2] a_cmd_list [OF c3] by simp
      show ?thesis
        using run2 True rep len by (auto simp: c3 ev_def fl_def split: sum.splits if_splits)
    qed
  qed
qed

lemma audio_remove_releases:
  "a_replay (aaudio_remove a) (aprobe_held (length (a_subdevice_list a))) = Some {}"
proof -
  have held: "aprobe_held n - {A_card} - sdev_set n = base_held" "sdev_set n \<subseteq> aprobe_held n - {A_card}" for n
    by (auto simp: aprobe_held_def base_held_def sdev_set_def)
  have "A_card \<in> aprobe_held n" for n by (simp add: aprobe_held_def)
  then show ?thesis
    by (simp add: aaudio_remove_def rel_sdevs_replay held) (auto simp: base_held_def)
qed

text \<open>A probe that could not claim the regions releases them nevertheless.\<close>

lemma audio_probe_releases_unclaimed:
  "aq_enable e = 0 \<Longrightarrow> aq_regions e \<noteq> 0 \<Longrightarrow> aaudio_probe e env a = Some (st, evs, a') \<Longrightarrow> a_replay evs {} = None"
  by (auto simp: aaudio_probe_def Let_def a_fail_def)

text \<open>
  Property C39. Once the regions of the device are claimed, a probe that fails, at whatever step, has released exactly
  what it had acquired, each once, the subdevices that the device announced included; and a probe that
  succeeds holds what \<open>aaudio_remove\<close> releases, so that nothing is left after it.
\<close>

theorem audio_probe_balanced:
  assumes "a_subdevice_list a = []" and "aq_enable e = 0" "aq_regions e = 0" and "aaudio_probe e env a = Some (st, evs, a')"
  shows "(st \<noteq> 0 \<longrightarrow> a_replay evs {} = Some {}) \<and> (st = 0 \<longrightarrow> a_replay (evs @ aaudio_remove a') {} = Some {}
    \<and> a_replay evs {} = Some (aprobe_held (length (a_subdevice_list a'))))"
proof -
  define p where "p = \<lparr>ar_aaudio = True, ar_sdevs = 0, ar_bs = True, ar_cfg = True, ar_dev = True\<rparr>"
  define ev where "ev = map A_acq [A_enabled, A_regions, A_aaudio, A_device, A_reg_mem_bs, A_reg_mem_cfg, A_bcem]"
  have ev: "a_replay ev {} = Some base_held" by (auto simp: ev_def base_held_def)
  have "a_replay evs {} = Some (if st = 0 then aprobe_held (length (a_subdevice_list a')) else {})"
  proof (cases "aq_kzalloc e \<and> aq_global_bce e \<and> aq_device_create e = 0 \<and> aq_iomap_bs e \<and> aq_iomap_cfg e
      \<and> aq_bce_init e = 0 \<and> aq_card_new e = 0")
    case False
    show ?thesis
      using False assms
      by (auto simp: aaudio_probe_def Let_def a_fail_def a_fail_bce_def a_status_def split: if_splits)
  next
    case True
    then obtain ev3 where c: "aprobe_card e env p a = Some (st, ev3, a')" and evs: "evs = ev @ ev3"
      using assms by (auto simp: aaudio_probe_def Let_def p_def ev_def)
    have "a_replay ev3 base_held = Some (if st = 0 then aprobe_held (length (a_subdevice_list a')) else {})"
      by (rule probe_card_replay [OF c]) (simp_all add: p_def)
    then show ?thesis by (simp add: evs a_replay_append ev)
  qed
  then show ?thesis by (simp add: a_replay_append audio_remove_releases)
qed

definition ex_aprobe :: aprobe_env where
  "ex_aprobe = \<lparr>aq_enable = 0, aq_regions = 0, aq_kzalloc = True, aq_global_bce = True, aq_device_create = 0, aq_iomap_bs = True,
     aq_iomap_cfg = True, aq_bce_init = 0, aq_card_new = 0, aq_card_register = 0\<rparr>"

text \<open>The remote side does not answer the alive notification: the probe fails with the card created.\<close>

theorem audio_probe_balanced_witness:
  "\<exists>evs a'. aaudio_probe ex_aprobe (ex_env\<lparr>ax_alive_wait := \<lambda>x. x\<rparr>) (ex_adev\<lparr>a_subdevice_list := []\<rparr>) = Some (- EINVAL, evs, a')
     \<and> A_acq A_card \<in> set evs \<and> a_replay evs {} = Some {}"
proof -
  let ?env = "ex_env\<lparr>ax_alive_wait := \<lambda>x. x\<rparr>" and ?a = "ex_adev\<lparr>a_subdevice_list := []\<rparr>"
  have "qout_ok (ba_qout ex_audio)" using ex_bce_ok by (simp add: bce_ok_def)
  from send_ok [OF this fits_writers(1), of None "ax_alive_ws ?env" 500 1 3] obtain st b
    where "aaudio_send (ax_alive_ws ?env) None 500 (aaudio_msg_write_alive_notification 1 3) ex_audio = Some (st, b)" by auto
  then have "\<exists>st1 a1. aaudio_init_cmd ?env (?a\<lparr>a_next_alsa_id := 100\<rparr>) = Some (st1, a1) \<and> st1 \<noteq> 0"
    by (cases "st = 0") (simp_all add: aaudio_init_cmd_def ex_adev_def Let_def)
  then obtain st1 a1 where "aaudio_init_cmd ?env (?a\<lparr>a_next_alsa_id := 100\<rparr>) = Some (st1, a1)" "st1 \<noteq> 0" by blast
  then obtain evs where "aaudio_probe ex_aprobe ?env ?a = Some (- EINVAL, evs, a1)" "A_acq A_card \<in> set evs"
    by (auto simp: aaudio_probe_def aprobe_card_def ex_aprobe_def a_status_def Let_def)
  moreover from audio_probe_balanced [OF _ _ _ this(1)] have "a_replay evs {} = Some {}"
    by (simp add: ex_aprobe_def)
  ultimately show ?thesis by blast
qed

end
