(* ===== verification/Spec2Isabelle.thy ===== *)
theory Spec2Isabelle
  imports Bce_Power Bce_Probe Vhci_Recovery Vhci_Setup Audio_Probe
begin

text \<open>
  \<^bold>\<open>The driver.\<close> \<open>apple-bce\<close> drives the buffer copy engine of the T2 chip: a PCI function with a
  mailbox, pairs of completion and submission queues in shared memory, and on top of them two
  clients, a virtual USB host controller (\<open>src/vhci\<close>) and an audio device (\<open>src/audio\<close>).

  \<^bold>\<open>The theories\<close>, in the order in which they build on each other:

  \<^item> \<open>Bce_Prelude\<close>: word types, error numbers, the bounded completion loop, lemmas on words and lists.
  \<^item> \<open>Bce_Queue\<close>, \<open>Bce_Ring\<close>: the queue objects of \<open>src/queue.h\<close> and \<open>src/queue.c\<close>, and the refinement of
    a submission queue to a FIFO with a free counter. The locales \<open>fifo_ring\<close>, \<open>ring_drainer\<close> and
    \<open>ring_filler\<close> are the contract the clients use; they are interpreted on the queue here and on the
    handlers of the command, message and event queues in their theories.
  \<^item> \<open>Bce_Mailbox\<close>: \<open>src/mailbox.c\<close>, the mailbox protocol and the heartbeat timer.
  \<^item> \<open>Bce_Cmdq\<close>: the command queue, its table of waiting callers and their interleavings.
  \<^item> \<open>Bce_Device\<close>: the device structure and the DMA interrupt (\<open>src/apple_bce.c\<close>).
  \<^item> \<open>Bce_Lifecycle\<close>: creation and destruction of queues on the device's tables.
  \<^item> \<open>Bce_Power\<close>, \<open>Bce_Probe\<close>: handshake, suspend, resume, probe and remove.
  \<^item> \<open>Vhci_Queue\<close>, \<open>Vhci_Command\<close>: \<open>src/vhci/queue.c\<close> and \<open>src/vhci/command.h\<close>.
  \<^item> \<open>Vhci_Urb\<close>, \<open>Vhci_Transfer\<close>, \<open>Vhci_Slots\<close>, \<open>Vhci_History\<close>: \<open>src/vhci/transfer.c\<close>; the state machine
    of a request, the transfer queues, the accounting of an endpoint's slots, and their histories.
  \<^item> \<open>Vhci_Device\<close>, \<open>Vhci_Hub\<close>: devices, endpoints and the root hub of \<open>src/vhci/vhci.c\<close>.
  \<^item> \<open>Vhci_Events\<close>: the same file's worker for the requests of the firmware, and the system and USB events.
  \<^item> \<open>Vhci_Power\<close>, \<open>Vhci_Recovery\<close>: bus suspend and resume, the recovery worker and the watchdog.
  \<^item> \<open>Vhci_Setup\<close>: creation and destruction of the controller with its queues, and the shutdown of the driver.
  \<^item> \<open>Audio_Protocol\<close>, \<open>Audio_Bce\<close>, \<open>Audio_Command\<close>: \<open>src/audio/protocol.c\<close> and \<open>protocol_bce.c\<close>.
  \<^item> \<open>Audio_Math\<close>, \<open>Audio_Pcm\<close>: the conversions of floating-point numbers, and the streams of \<open>src/audio/pcm.c\<close>.
  \<^item> \<open>Audio_Device\<close>, \<open>Audio_Setup\<close>, \<open>Audio_Streams\<close>: \<open>src/audio/audio.c\<close>; the operations of the audio device, what
    the device can announce and send without harm, and its streams once the buffer structure has been read.
    The locale \<open>bs_keeps\<close> is what reading the structure preserves; it is interpreted for the buffers that
    ALSA opens and, in \<open>Audio_Probe\<close>, for the memory that a release gives back.
  \<^item> \<open>Audio_Probe\<close>: the release of a subdevice, probe and removal of the audio function.

  \<^bold>\<open>Conventions.\<close> Definitions carry the names of the C functions; a structure is a record whose fields
  have a short prefix. Integers that wrap are words of their width, \<open>int\<close> is used for status codes and
  atomic counters. What code outside the repository answers is an argument: allocators, the USB core,
  the device's replies. Where a function sleeps, what other contexts do meanwhile is an argument, too: a
  list of wake-ups, the messages delivered, or a function on the state. Objects behind pointers live
  in a partial map from addresses; a pointer into a ring is a byte offset. A NULL dereference, an access
  out of bounds and the use of a destroyed object are the outcome \<open>None\<close> or \<open>Fault\<close>, so that their
  absence is a theorem. Function pointers are tags that the dispatcher of the model interprets.

  \<^bold>\<open>Loops.\<close> Loops that drain completions run under \<open>completion_loop\<close>, a partial function on options;
  their termination is part of the theorems about them. The other loops are structural.

  \<^bold>\<open>Not modelled.\<close> The module entry points, sysfs and logging; DMA mapping and cache effects; the
  ALSA and USB core structures beyond the fields the driver reads.
\<close>

end
